(* ===== verification/Prelude.thy ===== *)
theory Prelude
  imports Main "HOL-Library.AList" "HOL-Library.Sublist"
begin

text \<open>
  What the components share: the values of the language (objects, insertion-ordered maps,
  numbers), the generic lemmas about them, the fact collections of the development and the
  locale every invariant proof goes through.

  An ECMAScript \<open>Map\<close> and a plain object keep their keys in insertion order; setting a key
  that is present keeps its place. That is an association list with \<open>AList.update\<close> for
  \<open>set\<close>, \<open>AList.delete\<close> for \<open>delete\<close> and \<open>map_of\<close> for \<open>get\<close>.
\<close>

named_theorems frame_simps \<open>what an operation leaves unchanged\<close>
named_theorems inv_intros \<open>operations keep the invariant\<close>

subsection \<open>Insertion-ordered maps\<close>

type_synonym ('k, 'v) jsmap = "('k \<times> 'v) list"

abbreviation map_set :: "'k \<Rightarrow> 'v \<Rightarrow> ('k, 'v) jsmap \<Rightarrow> ('k, 'v) jsmap" where
  "map_set \<equiv> AList.update"

abbreviation map_del :: "'k \<Rightarrow> ('k, 'v) jsmap \<Rightarrow> ('k, 'v) jsmap" where
  "map_del \<equiv> AList.delete"

abbreviation map_has :: "('k, 'v) jsmap \<Rightarrow> 'k \<Rightarrow> bool" where
  "map_has m k \<equiv> map_of m k \<noteq> None"

abbreviation map_keys :: "('k, 'v) jsmap \<Rightarrow> 'k list" where
  "map_keys m \<equiv> map fst m"

abbreviation map_vals :: "('k, 'v) jsmap \<Rightarrow> 'v list" where
  "map_vals m \<equiv> map snd m"

declare map_of_eq_Some_iff [simp del] Some_eq_map_of_iff [simp del]

lemma map_of_set [simp]: "map_of (map_set k v m) k' = (if k' = k then Some v else map_of m k')"
  by (simp add: update_conv)

lemma map_of_del [simp]: "map_of (map_del k m) k' = (if k' = k then None else map_of m k')"
  by (simp add: delete_conv')

lemma keys_set [simp]: "fst ` set (map_set k v m) = insert k (fst ` set m)"
  by (simp add: dom_update)

lemma keys_del [simp]: "fst ` set (map_del k m) = fst ` set m - {k}"
  by (induction m) auto

lemma distinct_keys_set [simp, intro]: "distinct (map_keys m) \<Longrightarrow> distinct (map_keys (map_set k v m))"
  by (rule distinct_update)

lemma distinct_keys_del [simp, intro]: "distinct (map_keys m) \<Longrightarrow> distinct (map_keys (map_del k m))"
  by (rule distinct_delete)

lemma map_of_mem: "distinct (map_keys m) \<Longrightarrow> (k, v) \<in> set m \<longleftrightarrow> map_of m k = Some v"
  by (simp add: map_of_eq_Some_iff)

lemma length_set_le: "length (map_set k v m) \<le> Suc (length m)"
  by (induction m) auto

lemma length_set_fresh: "k \<notin> fst ` set m \<Longrightarrow> length (map_set k v m) = Suc (length m)"
  by (induction m) auto

lemma length_del_le: "length (map_del k m) \<le> length m"
  by (rule length_delete_le)

lemma map_del_absent: "map_of m k = None \<Longrightarrow> map_del k m = m"
  by (simp add: map_of_eq_None_iff)

lemma set_del_subset: "set (map_del k m) \<subseteq> set m"
  by (induction m) auto

lemma mem_del: "(k', v) \<in> set (map_del k m) \<longleftrightarrow> (k', v) \<in> set m \<and> k' \<noteq> k"
  by (induction m) auto

lemma mem_set_cases: "(k', v') \<in> set (map_set k v m) \<Longrightarrow> (k', v') = (k, v) \<or> (k', v') \<in> set m"
  by (induction m) (auto split: if_splits)

lemma mem_vals: "distinct (map_keys m) \<Longrightarrow> v \<in> set (map_vals m) \<longleftrightarrow> (\<exists>k. map_of m k = Some v)"
  by (auto simp: map_of_mem [symmetric] intro: rev_image_eqI)

lemma find_Some_D: "List.find P xs = Some x \<Longrightarrow> x \<in> set xs \<and> P x"
  by (auto simp: find_Some_iff)

text \<open>\<open>Object.entries(o).filter(p)\<close> keeps the order; a key looked up afterwards is the old one
  when it passes the test.\<close>

lemma map_of_filter_key:
  "map_of (filter (\<lambda>(k, v). P k) m) k = (if P k then map_of m k else None)"
  by (induction m) auto

lemma map_of_filter_kept: "map_of m k = Some e \<Longrightarrow> P (k, e) \<Longrightarrow> map_of (filter P m) k = Some e"
  by (induction m) (auto split: if_splits)

lemma distinct_keys_filter [simp, intro]: "distinct (map_keys m) \<Longrightarrow> distinct (map_keys (filter P m))"
  by (induction m) auto

text \<open>\<open>{ ...a, ...b }\<close>: the entries of \<open>b\<close> are set on \<open>a\<close> from left to right.\<close>

definition spread :: "('k, 'v) jsmap \<Rightarrow> ('k, 'v) jsmap \<Rightarrow> ('k, 'v) jsmap" where
  "spread a b = fold (\<lambda>(k, v). map_set k v) b a"

lemma spread_simps [simp]:
  "spread a [] = a"
  "spread a ((k, v) # b) = spread (map_set k v a) b"
  by (simp_all add: spread_def)

lemma map_of_spread:
  "distinct (map_keys b) \<Longrightarrow>
   map_of (spread a b) k = (case map_of b k of None \<Rightarrow> map_of a k | Some v \<Rightarrow> Some v)"
proof (induction b arbitrary: a)
  case (Cons p b)
  obtain k' v where p: "p = (k', v)" by (cases p)
  with Cons.prems have "map_of b k' = None" by (simp add: map_of_eq_None_iff)
  with Cons p show ?case by (cases "k' = k"; cases "map_of b k") simp_all
qed simp

lemma distinct_keys_spread [simp, intro]:
  "distinct (map_keys a) \<Longrightarrow> distinct (map_keys (spread a b))"
proof (induction b arbitrary: a)
  case (Cons p b)
  then show ?case by (cases p) simp
qed simp

subsection \<open>Options\<close>

text \<open>\<open>a ?? b\<close>.\<close>

abbreviation coalesce :: "'a option \<Rightarrow> 'a option \<Rightarrow> 'a option" where
  "coalesce a b \<equiv> (case a of None \<Rightarrow> b | Some x \<Rightarrow> Some x)"

abbreviation get_or :: "'a option \<Rightarrow> 'a \<Rightarrow> 'a" where
  "get_or a d \<equiv> (case a of None \<Rightarrow> d | Some x \<Rightarrow> x)"

subsection \<open>JSON values\<close>

text \<open>
  What \<open>JSON.parse\<close> or a JSONB column yields. A number is an integer, a finite number that is
  not one, or one of the values \<open>Number.isFinite\<close> refuses.
\<close>

datatype js_number = NInt int | NFraction int nat | NNonFinite

datatype json =
    JNull
  | JBool bool
  | JNum js_number
  | JStr string
  | JArr "json list"
  | JObj "(string \<times> json) list"

type_synonym obj = "(string, json) jsmap"

text \<open>\<open>typeof v === 'string' ? v : undefined\<close>.\<close>

fun as_string :: "json \<Rightarrow> string option" where
  "as_string (JStr s) = Some s"
| "as_string _ = None"

text \<open>\<open>typeof v === 'object' && v !== null && !Array.isArray(v)\<close>.\<close>

fun as_record :: "json \<Rightarrow> obj option" where
  "as_record (JObj o1) = Some o1"
| "as_record _ = None"

definition str_field :: "obj \<Rightarrow> string \<Rightarrow> string option" where
  "str_field o1 k = Option.bind (map_of o1 k) as_string"

subsection \<open>Invariants of transition systems\<close>

text \<open>
  A component with state is a set of initial states and a step relation. A property of every
  reachable state is proved once from its initial and step cases; each component interprets
  this locale on its own steps and invariant.
\<close>

locale invariant_system =
  fixes init :: "'s \<Rightarrow> bool"
    and step :: "'s \<Rightarrow> 's \<Rightarrow> bool"
    and inv :: "'s \<Rightarrow> bool"
  assumes init_inv: "init s \<Longrightarrow> inv s"
    and step_inv: "inv s \<Longrightarrow> step s t \<Longrightarrow> inv t"
begin

lemma steps_inv: "step\<^sup>*\<^sup>* s t \<Longrightarrow> inv s \<Longrightarrow> inv t"
  by (induction rule: rtranclp_induct) (auto intro: step_inv)

lemma reachable_inv: "init s \<Longrightarrow> step\<^sup>*\<^sup>* s t \<Longrightarrow> inv t"
  using steps_inv init_inv by blast

lemma reachable_imp:
  assumes "init s" and "step\<^sup>*\<^sup>* s t" and "\<And>u. inv u \<Longrightarrow> Q u"
  shows "Q t"
  using assms reachable_inv by blast

end

end
