(* ===== verification/EventQueue.thy ===== *)
theory EventQueue
  imports Prelude
begin

text \<open>
  \<open>AsyncEventQueue\<close> (packages/server/src/event-queue.ts): the single-consumer queue between
  the frames of a connected client and the stream the executor yields from. Also the sink
  interface the registry writes terminals to, with the facts about racing terminals proved
  once for every sink.
\<close>

subsection \<open>State\<close>

text \<open>
  \<open>q_waiter\<close> says that the consumer is parked on a promise. \<open>q_slot\<close> is that promise once
  it is settled and until the consumer runs again: a producer that finds the consumer parked
  hands it the value directly, and everything pushed before the consumer resumes goes to the
  buffer behind it.
\<close>

datatype ('a, 'e) slot = SNone | SVal 'a | SDone | SErr 'e

record ('a, 'e) async_queue =
  q_buffer :: "'a list"
  q_waiter :: bool
  q_closed :: bool
  q_failure :: "'e option"
  q_slot :: "('a, 'e) slot"

datatype ('a, 'e) iter_result = IYield 'a | IDone | IThrow 'e | IParked

definition new_queue :: "('a, 'e) async_queue" where
  "new_queue = \<lparr>q_buffer = [], q_waiter = False, q_closed = False, q_failure = None, q_slot = SNone\<rparr>"

subsection \<open>Operations\<close>

definition q_push :: "'a \<Rightarrow> ('a, 'e) async_queue \<Rightarrow> ('a, 'e) async_queue" where
  "q_push item q =
     (if q_closed q \<or> q_failure q \<noteq> None then q
      else if q_waiter q then q\<lparr>q_waiter := False, q_slot := SVal item\<rparr>
      else q\<lparr>q_buffer := q_buffer q @ [item]\<rparr>)"

definition q_end :: "('a, 'e) async_queue \<Rightarrow> ('a, 'e) async_queue" where
  "q_end q =
     (if q_closed q then q
      else if q_waiter q then q\<lparr>q_closed := True, q_waiter := False, q_slot := SDone\<rparr>
      else q\<lparr>q_closed := True\<rparr>)"

definition q_fail :: "'e \<Rightarrow> ('a, 'e) async_queue \<Rightarrow> ('a, 'e) async_queue" where
  "q_fail err q =
     (if q_closed q \<or> q_failure q \<noteq> None then q
      else if q_waiter q then q\<lparr>q_failure := Some err, q_waiter := False, q_slot := SErr err\<rparr>
      else q\<lparr>q_failure := Some err\<rparr>)"

text \<open>
  One resumption of \<open>iterate(signal)\<close>: a settled promise is consumed first (its value is
  yielded even when the signal has been aborted since), then the loop head runs.
\<close>

fun q_next :: "bool \<Rightarrow> ('a, 'e) async_queue \<Rightarrow> ('a, 'e) iter_result \<times> ('a, 'e) async_queue" where
  "q_next aborted q =
     (case q_slot q of
        SVal v \<Rightarrow> (IYield v, q\<lparr>q_slot := SNone\<rparr>)
      | SDone \<Rightarrow> (IDone, q\<lparr>q_slot := SNone\<rparr>)
      | SErr e \<Rightarrow> (IThrow e, q\<lparr>q_slot := SNone\<rparr>)
      | SNone \<Rightarrow>
          if q_waiter q then (IParked, q)
          else if aborted then (IDone, q)
          else (case q_buffer q of
                  x # xs \<Rightarrow> (IYield x, q\<lparr>q_buffer := xs\<rparr>)
                | [] \<Rightarrow>
                    (case q_failure q of
                       Some e \<Rightarrow> (IThrow e, q)
                     | None \<Rightarrow> if q_closed q then (IDone, q) else (IParked, q\<lparr>q_waiter := True\<rparr>))))"

text \<open>The abort listener of a parked iteration.\<close>

definition q_abort :: "('a, 'e) async_queue \<Rightarrow> ('a, 'e) async_queue" where
  "q_abort q = (if q_waiter q then q\<lparr>q_waiter := False, q_slot := SDone\<rparr> else q)"

subsection \<open>Abstraction: what is still to be delivered\<close>

definition q_open :: "('a, 'e) async_queue \<Rightarrow> bool" where
  "q_open q \<longleftrightarrow> \<not> q_closed q \<and> q_failure q = None"

definition q_content :: "('a, 'e) async_queue \<Rightarrow> 'a list" where
  "q_content q = (case q_slot q of SVal v \<Rightarrow> [v] | _ \<Rightarrow> []) @ q_buffer q"

text \<open>A parked consumer has seen everything, and the queue is still open.\<close>

definition q_inv :: "('a, 'e) async_queue \<Rightarrow> bool" where
  "q_inv q \<longleftrightarrow> (q_waiter q \<longrightarrow> q_buffer q = [] \<and> q_slot q = SNone \<and> q_open q)"

lemmas queue_defs = new_queue_def q_push_def q_end_def q_fail_def q_abort_def q_open_def
  q_content_def q_inv_def

lemma new_queue_inv [simp, inv_intros]: "q_inv new_queue"
  and new_queue_open [simp]: "q_open new_queue"
  and new_queue_content [simp]: "q_content new_queue = []"
  by (simp_all add: queue_defs)

lemma q_push_inv [simp, inv_intros]: "q_inv q \<Longrightarrow> q_inv (q_push x q)"
  and q_end_inv [simp, inv_intros]: "q_inv q \<Longrightarrow> q_inv (q_end q)"
  and q_fail_inv [simp, inv_intros]: "q_inv q \<Longrightarrow> q_inv (q_fail e q)"
  and q_abort_inv [simp, inv_intros]: "q_inv q \<Longrightarrow> q_inv (q_abort q)"
  by (auto simp: queue_defs)

lemma q_next_inv [simp, inv_intros]: "q_inv q \<Longrightarrow> q_inv (snd (q_next ab q))"
  by (auto simp: queue_defs split: slot.splits list.splits option.splits)

lemma q_push_open [simp]: "q_open (q_push x q) = q_open q"
  and q_end_open [simp]: "\<not> q_open (q_end q)"
  and q_fail_open [simp]: "\<not> q_open (q_fail e q)"
  and q_abort_open [simp]: "q_open (q_abort q) = q_open q"
  and q_next_open [simp]: "q_open (snd (q_next ab q)) = q_open q"
  by (auto simp: queue_defs split: slot.splits list.splits option.splits)

lemma q_push_content [simp]:
  "q_inv q \<Longrightarrow> q_content (q_push x q) = (if q_open q then q_content q @ [x] else q_content q)"
  by (auto simp: queue_defs split: slot.splits)

lemma q_end_content [simp]: "q_inv q \<Longrightarrow> q_content (q_end q) = q_content q"
  and q_fail_content [simp]: "q_inv q \<Longrightarrow> q_content (q_fail e q) = q_content q"
  and q_abort_content [simp]: "q_inv q \<Longrightarrow> q_content (q_abort q) = q_content q"
  by (auto simp: queue_defs split: slot.splits)

lemma q_next_content:
  "q_inv q \<Longrightarrow>
   (case fst (q_next ab q) of
      IYield x \<Rightarrow> q_content q = x # q_content (snd (q_next ab q))
    | _ \<Rightarrow> q_content (snd (q_next ab q)) = q_content q)"
  by (auto simp: queue_defs split: slot.splits list.splits option.splits)

lemma q_end_idem [simp]: "q_end (q_end q) = q_end q"
  by (simp add: q_end_def)

lemma q_push_closed: "\<not> q_open q \<Longrightarrow> q_push x q = q"
  by (simp add: queue_defs)

lemma q_end_closed: "q_closed q \<Longrightarrow> q_end q = q"
  by (simp add: q_end_def)

subsection \<open>The sink interface\<close>

text \<open>
  What \<open>TaskSink\<close> promises the registry, the frame handler and the executor: pushes are kept in
  order while the sink is open, and finishing it makes every later push and finish a no-op.
\<close>

locale stream_sink =
  fixes push :: "'a \<Rightarrow> 'q \<Rightarrow> 'q"
    and finish :: "'q \<Rightarrow> 'q"
    and content :: "'q \<Rightarrow> 'a list"
    and is_open :: "'q \<Rightarrow> bool"
    and ok :: "'q \<Rightarrow> bool"
  assumes ok_push: "ok q \<Longrightarrow> ok (push x q)"
    and ok_finish: "ok q \<Longrightarrow> ok (finish q)"
    and content_push: "ok q \<Longrightarrow> content (push x q) = (if is_open q then content q @ [x] else content q)"
    and open_push: "ok q \<Longrightarrow> is_open (push x q) = is_open q"
    and content_finish: "ok q \<Longrightarrow> content (finish q) = content q"
    and open_finish: "ok q \<Longrightarrow> \<not> is_open (finish q)"
begin

lemmas sink_specs = ok_push ok_finish content_push open_push content_finish open_finish

text \<open>A producer ends the stream by pushing a terminal and finishing the sink.\<close>

lemma terminate_open:
  "ok q \<Longrightarrow> is_open q \<Longrightarrow> content (finish (push t q)) = content q @ [t]"
  by (simp add: sink_specs)

lemma terminate_closed:
  "ok q \<Longrightarrow> \<not> is_open q \<Longrightarrow> content (finish (push t q)) = content q"
  by (simp add: sink_specs)

lemma ok_terminate: "ok q \<Longrightarrow> ok (finish (push t q))"
  by (simp add: sink_specs)

lemma closed_terminate: "ok q \<Longrightarrow> \<not> is_open (finish (push t q))"
  by (simp add: sink_specs)

lemma terminate_all_closed:
  "ok q \<Longrightarrow> \<not> is_open q \<Longrightarrow> content (fold (\<lambda>t q. finish (push t q)) ts q) = content q"
  by (induction ts arbitrary: q) (auto simp: terminate_closed ok_terminate closed_terminate)

text \<open>However many producers race to end one stream, the consumer sees the first terminal only.\<close>

lemma racing_terminals:
  assumes "ok q" and "is_open q"
  shows "content (fold (\<lambda>t q. finish (push t q)) ts q) = content q @ take 1 ts"
proof (cases ts)
  case Nil
  then show ?thesis by simp
next
  case (Cons t ts')
  with assms show ?thesis
    by (simp add: terminate_all_closed terminate_open ok_terminate closed_terminate)
qed

lemma push_all:
  assumes "ok q" and "is_open q"
  shows "content (fold push xs q) = content q @ xs"
  using assms by (induction xs arbitrary: q) (auto simp: sink_specs)

end

interpretation aq: stream_sink q_push q_end q_content q_open q_inv
  by unfold_locales auto

subsection \<open>Runs of one queue\<close>

text \<open>Producers and the consumer interleave in any order; the trace records what went in while
  the queue was open and what came out.\<close>

datatype ('a, 'e) queue_op = Push 'a | End | Fail 'e | Next bool | Abort

fun op_step :: "('a, 'e) async_queue \<times> 'a list \<times> 'a list \<Rightarrow> ('a, 'e) queue_op \<Rightarrow>
    ('a, 'e) async_queue \<times> 'a list \<times> 'a list" where
  "op_step (q, ins, outs) (Push x) = (q_push x q, (if q_open q then ins @ [x] else ins), outs)"
| "op_step (q, ins, outs) End = (q_end q, ins, outs)"
| "op_step (q, ins, outs) (Fail e) = (q_fail e q, ins, outs)"
| "op_step (q, ins, outs) Abort = (q_abort q, ins, outs)"
| "op_step (q, ins, outs) (Next ab) =
     (case q_next ab q of (IYield x, q') \<Rightarrow> (q', ins, outs @ [x]) | (_, q') \<Rightarrow> (q', ins, outs))"

definition run_ops :: "('a, 'e) queue_op list \<Rightarrow> ('a, 'e) async_queue \<times> 'a list \<times> 'a list" where
  "run_ops ops = foldl op_step (new_queue, [], []) ops"

fun trace_ok :: "('a, 'e) async_queue \<times> 'a list \<times> 'a list \<Rightarrow> bool" where
  "trace_ok (q, ins, outs) \<longleftrightarrow> q_inv q \<and> outs @ q_content q = ins"

lemma op_step_trace_ok: "trace_ok t \<Longrightarrow> trace_ok (op_step t x)"
proof (cases t)
  case (fields q ins outs)
  assume ok: "trace_ok t"
  show ?thesis
  proof (cases x)
    case (Next ab)
    with fields ok q_next_content [of q ab] q_next_inv [of q ab] show ?thesis
      by (cases "q_next ab q") (auto simp del: q_next.simps split: iter_result.splits)
  qed (use fields ok in \<open>auto simp del: q_next.simps\<close>)
qed

lemma run_ops_trace_ok: "trace_ok (run_ops ops)"
proof (induction ops rule: rev_induct)
  case Nil
  show ?case by (simp add: run_ops_def)
next
  case (snoc x ops)
  then show ?case by (simp add: run_ops_def op_step_trace_ok)
qed

text \<open>Reading a closed queue to its end.\<close>

fun drain :: "nat \<Rightarrow> ('a, 'e) async_queue \<Rightarrow> 'a list \<times> ('a, 'e) iter_result" where
  "drain 0 q = ([], fst (q_next False q))"
| "drain (Suc n) q =
     (case q_next False q of (IYield x, q') \<Rightarrow> (x # fst (drain n q'), snd (drain n q')) | (r, _) \<Rightarrow> ([], r))"

lemma drain_closed:
  "q_inv q \<Longrightarrow> q_closed q \<Longrightarrow> q_failure q = None \<Longrightarrow> q_slot q = SNone \<or> (\<exists>v. q_slot q = SVal v) \<Longrightarrow>
   length (q_content q) = n \<Longrightarrow> drain n q = (q_content q, IDone)"
proof (induction n arbitrary: q)
  case 0
  then show ?case
    by (auto simp: queue_defs split: slot.splits list.splits)
next
  case (Suc n)
  have w: "\<not> q_waiter q" using Suc.prems by (auto simp: queue_defs)
  show ?case
  proof (cases "q_slot q")
    case SNone
    with Suc.prems obtain x xs where b: "q_buffer q = x # xs"
      by (cases "q_buffer q") (auto simp: queue_defs)
    with SNone Suc.prems w have "drain n (q\<lparr>q_buffer := xs\<rparr>) = (xs, IDone)"
      by (subst Suc.IH) (auto simp: queue_defs)
    with b SNone w show ?thesis by (simp add: queue_defs)
  next
    case (SVal v)
    with Suc.prems w have "drain n (q\<lparr>q_slot := SNone\<rparr>) = (q_buffer q, IDone)"
      by (subst Suc.IH) (auto simp: queue_defs)
    with SVal show ?thesis by (simp add: queue_defs)
  qed (use Suc.prems in auto)
qed

subsection \<open>What the consumer of one queue sees\<close>

text \<open>The pushes a producer makes before the first \<open>end\<close> or \<open>fail\<close> of the queue.\<close>

fun accepted :: "('a, 'e) queue_op list \<Rightarrow> 'a list" where
  "accepted [] = []"
| "accepted (Push x # ops) = x # accepted ops"
| "accepted (End # ops) = []"
| "accepted (Fail e # ops) = []"
| "accepted (op # ops) = accepted ops"

lemma op_step_next:
  "fst (op_step t (Next ab)) = snd (q_next ab (fst t))" "fst (snd (op_step t (Next ab))) = fst (snd t)"
  by (cases t; cases "q_next ab (fst t)"; simp del: q_next.simps split: iter_result.split)+

lemma foldl_ins:
  "fst (snd (foldl op_step t ops)) = fst (snd t) @ (if q_open (fst t) then accepted ops else [])"
proof (induction ops arbitrary: t)
  case (Cons x ops)
  then show ?case
    by (cases t; cases x) (simp_all del: q_next.simps op_step.simps(5) add: op_step_next)
qed simp

text \<open>Claim C25. However pushes, ends, failures, aborts and reads of one queue interleave, the
  values the consumer has been given followed by those still waiting are exactly the values
  pushed before the first end or failure, in that order: nothing is lost, repeated or
  reordered, and nothing pushed after the close gets in.\<close>

theorem queue_fifo_exactly_once:
  "snd (snd (run_ops ops)) @ q_content (fst (run_ops ops)) = accepted ops"
  using run_ops_trace_ok [of ops] foldl_ins [of "(new_queue, [], [])" ops]
  by (cases "run_ops ops") (auto simp: run_ops_def)

text \<open>However many producers race to end the stream of one task, each pushing its
  terminal and ending the queue, at any point of any run, the consumer gets the first
  terminal only, and none when the stream was closed already.\<close>

theorem queue_one_terminal:
  "let q = fst (run_ops ops) in
   q_content (fold (\<lambda>t q. q_end (q_push t q)) ts q) =
   q_content q @ (if q_open q then take 1 ts else [])"
proof -
  have "q_inv (fst (run_ops ops))"
    using run_ops_trace_ok [of ops] by (cases "run_ops ops") auto
  then show ?thesis
    by (simp add: Let_def aq.racing_terminals aq.terminate_all_closed)
qed

end
