(* ===== verification/Wire.thy ===== *)
theory Wire
  imports Prelude
begin

text \<open>
  The wire protocol (packages/protocol/src/index.ts) after schema parsing: capabilities,
  messages, statuses, artifacts, the frames in both directions, the card and the advertised
  models; the events the server derives from frames and the metadata of a terminal error
  (packages/server/src/terminal-error.ts).

  Every wire part is kept as the object it is, because the conversions test for the presence of
  fields. A timestamp is the rendering of a clock value or the string the peer sent. Task
  frames share a header (task, execution and sequence) and differ in their body.
\<close>

subsection \<open>Constants\<close>

definition PROTOCOL_VERSION :: string where "PROTOCOL_VERSION = ''0.1''"
definition TASK_REPLAY_CAPABILITY :: string where "TASK_REPLAY_CAPABILITY = ''task-replay-v1''"
definition REMOTE_APPROVAL_CAPABILITY :: string where "REMOTE_APPROVAL_CAPABILITY = ''remote-tool-approval-v1''"
definition CALLER_CONTEXT_V1_CAPABILITY :: string where "CALLER_CONTEXT_V1_CAPABILITY = ''caller-context-v1''"
definition CALLER_CONTEXT_V2_CAPABILITY :: string where "CALLER_CONTEXT_V2_CAPABILITY = ''caller-context-v2''"
definition CALLER_RUNTIME_V1_CAPABILITY :: string where "CALLER_RUNTIME_V1_CAPABILITY = ''caller-runtime-v1''"
definition EXECUTION_SCOPE_V1_CAPABILITY :: string where "EXECUTION_SCOPE_V1_CAPABILITY = ''execution-scope-v1''"
definition FEDERATED_EXECUTION_SCOPE_V1_CAPABILITY :: string where
  "FEDERATED_EXECUTION_SCOPE_V1_CAPABILITY = ''federated-execution-scope-v1''"
definition APPROVAL_EXTENSION_URI :: string where
  "APPROVAL_EXTENSION_URI = ''https://github.com/planetarium/vicoop-bridge/blob/main/docs/tool-approval-v1.md''"
definition OPENAI_COMPAT_EXTENSION_URI :: string where
  "OPENAI_COMPAT_EXTENSION_URI = ''https://github.com/planetarium/oai2a2a/extensions/openai-compat/v1''"

lemmas capability_defs = TASK_REPLAY_CAPABILITY_def REMOTE_APPROVAL_CAPABILITY_def
  CALLER_CONTEXT_V1_CAPABILITY_def CALLER_CONTEXT_V2_CAPABILITY_def
  CALLER_RUNTIME_V1_CAPABILITY_def EXECUTION_SCOPE_V1_CAPABILITY_def
  FEDERATED_EXECUTION_SCOPE_V1_CAPABILITY_def

type_synonym capabilities = "string list option"

text \<open>\<open>capabilities?.includes(c)\<close>, as a condition.\<close>

definition caps_include :: "capabilities \<Rightarrow> string \<Rightarrow> bool" where
  "caps_include caps c = (case caps of None \<Rightarrow> False | Some cs \<Rightarrow> c \<in> set cs)"

definition supportsExecutionScopeV1 :: "capabilities \<Rightarrow> bool" where
  "supportsExecutionScopeV1 caps =
     list_all (caps_include caps)
       [EXECUTION_SCOPE_V1_CAPABILITY, CALLER_CONTEXT_V2_CAPABILITY, TASK_REPLAY_CAPABILITY]"

subsection \<open>Messages, statuses, artifacts\<close>

datatype timestamp = Iso int | Given string

datatype role = User | Agent

datatype task_state = SUBMITTED | WORKING | INPUT_REQUIRED | AUTH_REQUIRED | COMPLETED
  | CANCELED | FAILED | REJECTED

record wire_message =
  wm_role :: role
  wm_parts :: "obj list"
  wm_messageId :: string
  wm_metadata :: "obj option"
  wm_extensions :: "string list option"

record wire_status =
  wst_state :: task_state
  wst_message :: "wire_message option"
  wst_timestamp :: "timestamp option"

record artifact =
  ar_artifactId :: string
  ar_name :: "string option"
  ar_parts :: "obj list"
  ar_metadata :: "obj option"
  ar_extensions :: "string list option"

record message =
  m_messageId :: string
  m_role :: role
  m_parts :: "obj list"
  m_metadata :: "obj option"
  m_extensions :: "string list option"
  m_taskId :: "string option"
  m_contextId :: "string option"

record task_status =
  st_state :: task_state
  st_timestamp :: "timestamp option"
  st_message :: "message option"

record status_event =
  se_taskId :: string
  se_contextId :: string
  se_final :: bool
  se_status :: task_status
  se_metadata :: "obj option"

record artifact_event =
  ae_taskId :: string
  ae_contextId :: string
  ae_artifact :: artifact
  ae_append :: "bool option"
  ae_lastChunk :: "bool option"

datatype event = StatusEvent status_event | ArtifactEvent artifact_event

record task_usage =
  tu_promptTokens :: js_number
  tu_completionTokens :: js_number
  tu_cachedInputTokens :: "js_number option"
  tu_model :: "string option"

subsection \<open>Frames\<close>

datatype decision = Allow_once | Deny

text \<open>The last two fields are what the standard library reads off the request: the instant
  \<open>Date.parse(expiresAt)\<close> and the length of \<open>JSON.stringify(request)\<close>.\<close>

record approval_request =
  rq_requestId :: string
  rq_toolName :: string
  rq_input :: obj
  rq_expiresAt :: string
  rq_expiresMs :: int
  rq_jsonLength :: nat

record agent_extension =
  ext_uri :: string
  ext_description :: "string option"
  ext_required :: "bool option"
  ext_params :: "obj option"

record card_capabilities =
  cc_streaming :: "bool option"
  cc_pushNotifications :: "bool option"
  cc_extensions :: "agent_extension list option"

text \<open>\<open>ac_rest\<close> holds the fields of the card no code here reads.\<close>

record agent_card =
  ac_name :: string
  ac_capabilities :: "card_capabilities option"
  ac_rest :: obj

record hello =
  hl_agentId :: string
  hl_agentCard :: "agent_card option"
  hl_backendKind :: "string option"
  hl_version :: string
  hl_token :: string
  hl_protocolCapabilities :: capabilities
  hl_identityTrust :: "string list option"

record frame_hdr =
  h_taskId :: string
  h_executionId :: "string option"
  h_seq :: "nat option"

datatype task_body =
    ApprovalRequestB approval_request
  | ApprovalReceivedB string decision
  | StatusB wire_status "obj option"
  | ArtifactB artifact "bool option" "bool option"
  | CompleteB wire_status "task_usage option"
  | FailB string string

record usage_response =
  ur_requestId :: string
  ur_ok :: bool
  ur_usage :: "json option"
  ur_error :: "(string \<times> string) option"

datatype up_frame =
    Hello hello
  | TaskFrame frame_hdr task_body
  | Pong
  | UsageResponse usage_response

record execution_scope =
  es_policy :: string
  es_id :: string
  es_agentId :: string
  es_principalId :: string

record platform =
  pl_provider :: "string option"
  pl_workspaceId :: "string option"

record caller_profile =
  pr_displayName :: "string option"
  pr_username :: "string option"

text \<open>\<open>at_observedInvocation\<close> is the object with its optional target.\<close>

record attestation =
  at_credentialId :: string
  at_issuer :: string
  at_subject :: string
  at_method :: string
  at_assurance :: "string option"
  at_platform :: "platform option"
  at_observedInvocation :: "string option option"
  at_profile :: "caller_profile option"

record canonical_caller =
  cc_principal :: "string option"
  cc_actor :: "string option"
  cc_attestations :: "attestation list option"

text \<open>\<open>CallerV1\<close> holds \<open>authenticated.principalId\<close> and \<open>presented\<close>.\<close>

datatype caller_context =
    CallerV1 "string option" "attestation list option"
  | CallerV2 canonical_caller

record assign =
  as_taskId :: string
  as_executionId :: "string option"
  as_contextId :: string
  as_message :: wire_message
  as_requestedExtensions :: "string list option"
  as_caller :: "caller_context option"
  as_executionScope :: "execution_scope option"

datatype down_frame =
    HelloAck "string list" int nat
  | ApprovalResolve string string string decision
  | TaskAck string string int
  | TaskAssign assign
  | TaskCancel string "string option"
  | Ping
  | UsageRequest string

subsection \<open>Terminal errors\<close>

definition terminalErrorMetadata :: "string \<Rightarrow> string \<Rightarrow> obj" where
  "terminalErrorMetadata code msg =
     (let terminalError = JObj [(''code'', JStr code), (''message'', JStr msg)]
      in [(OPENAI_COMPAT_EXTENSION_URI, JObj [(''terminal_error'', terminalError)]),
          (''error'', terminalError)])"

definition terminalErrorExtensions :: "string list" where
  "terminalErrorExtensions = [OPENAI_COMPAT_EXTENSION_URI]"

definition hasOpenAICompatExtension :: "string list option \<Rightarrow> bool" where
  "hasOpenAICompatExtension exts = caps_include exts OPENAI_COMPAT_EXTENSION_URI"

text \<open>The pair of optional fields \<open>metadata\<close> and \<open>extensions\<close>.\<close>

definition terminalErrorMessageFields ::
    "string \<Rightarrow> string \<Rightarrow> string list option \<Rightarrow> obj option \<times> string list option" where
  "terminalErrorMessageFields code msg requestedExtensions =
     (if \<not> hasOpenAICompatExtension requestedExtensions then (None, None)
      else (Some (terminalErrorMetadata code msg), Some terminalErrorExtensions))"

text \<open>A frame is a liveness heartbeat when \<open>metadata[URI].heartbeat === true\<close>.\<close>

definition isHeartbeatStatusFrame :: "obj option \<Rightarrow> bool" where
  "isHeartbeatStatusFrame metadata =
     (case metadata of
        None \<Rightarrow> False
      | Some md \<Rightarrow>
          (case map_of md OPENAI_COMPAT_EXTENSION_URI of
             Some (JObj ext) \<Rightarrow> map_of ext ''heartbeat'' = Some (JBool True)
           | _ \<Rightarrow> False))"

end
