(* ===== verification/Models.thy ===== *)
theory Models
  imports Wire
begin

text \<open>
  The model list an agent card advertises under the openai-compat extension
  (packages/protocol/src/index.ts: \<open>buildOpenAICompatExtensionParams\<close> and
  \<open>withOpenAICompatModelsAdvertise\<close>).
\<close>

record model_advertise =
  md_id :: string
  md_reasoning :: "bool option"
  md_default :: "bool option"
  md_contextWindow :: "nat option"
  md_maxOutputTokens :: "nat option"

text \<open>The \<open>map\<close> over the models with the flag \<open>sawDefault\<close>. An entry whose \<open>default\<close> is absent
  or false is copied as it is.\<close>

fun normalise_defaults :: "bool \<Rightarrow> model_advertise list \<Rightarrow> model_advertise list" where
  "normalise_defaults sawDefault [] = []"
| "normalise_defaults sawDefault (m # ms) =
     (if md_default m \<noteq> Some True then m # normalise_defaults sawDefault ms
      else if sawDefault then m\<lparr>md_default := None\<rparr> # normalise_defaults sawDefault ms
      else m # normalise_defaults True ms)"

definition buildOpenAICompatExtensionParams :: "model_advertise list \<Rightarrow> model_advertise list option" where
  "buildOpenAICompatExtensionParams models =
     (if models = [] then None else Some (normalise_defaults False models))"

definition opt_entry :: "string \<Rightarrow> ('a \<Rightarrow> json) \<Rightarrow> 'a option \<Rightarrow> obj" where
  "opt_entry k f v = (case v of None \<Rightarrow> [] | Some x \<Rightarrow> [(k, f x)])"

definition model_json :: "model_advertise \<Rightarrow> json" where
  "model_json m = JObj
     ((''id'', JStr (md_id m)) #
      opt_entry ''reasoning'' JBool (md_reasoning m) @
      opt_entry ''default'' JBool (md_default m) @
      opt_entry ''contextWindow'' (\<lambda>n. JNum (NInt (int n))) (md_contextWindow m) @
      opt_entry ''maxOutputTokens'' (\<lambda>n. JNum (NInt (int n))) (md_maxOutputTokens m))"

text \<open>\<open>findIndex\<close>: the first extension with the uri gets the merged params.\<close>

fun advertise_on :: "obj \<Rightarrow> agent_extension list \<Rightarrow> agent_extension list option" where
  "advertise_on params [] = None"
| "advertise_on params (e # es) =
     (if ext_uri e = OPENAI_COMPAT_EXTENSION_URI
      then Some (e\<lparr>ext_params := Some (spread (get_or (ext_params e) []) params)\<rparr> # es)
      else map_option ((#) e) (advertise_on params es))"

definition withOpenAICompatModelsAdvertise :: "agent_card \<Rightarrow> model_advertise list \<Rightarrow> agent_card" where
  "withOpenAICompatModelsAdvertise crd models =
     (case buildOpenAICompatExtensionParams models of
        None \<Rightarrow> crd
      | Some ms \<Rightarrow>
          (case ac_capabilities crd of
             None \<Rightarrow> crd
           | Some caps \<Rightarrow>
               (case cc_extensions caps of
                  None \<Rightarrow> crd
                | Some exts \<Rightarrow>
                    (case advertise_on [(''models'', JArr (map model_json ms))] exts of
                       None \<Rightarrow> crd
                     | Some nextExts \<Rightarrow>
                         crd\<lparr>ac_capabilities := Some (caps\<lparr>cc_extensions := Some nextExts\<rparr>)\<rparr>))))"

subsection \<open>At most one default, and it is the first\<close>

abbreviation is_default :: "model_advertise \<Rightarrow> bool" where
  "is_default m \<equiv> md_default m = Some True"

lemma length_normalise [simp]: "length (normalise_defaults b ms) = length ms"
  by (induction b ms rule: normalise_defaults.induct) auto

lemma no_default_after: "filter is_default (normalise_defaults True ms) = []"
  by (induction ms) auto

lemma normalise_first_default:
  "filter is_default (normalise_defaults False ms) = take 1 (filter is_default ms)"
  by (induction ms) (auto simp: no_default_after)

lemma normalise_erased:
  "map (\<lambda>m. m\<lparr>md_default := d\<rparr>) (normalise_defaults b ms) = map (\<lambda>m. m\<lparr>md_default := d\<rparr>) ms"
  by (induction b ms rule: normalise_defaults.induct) auto

lemma normalise_noop:
  "length (filter is_default ms) \<le> (if b then 0 else 1) \<Longrightarrow> normalise_defaults b ms = ms"
  by (induction b ms rule: normalise_defaults.induct) (auto simp: filter_empty_conv split: if_splits)

lemma normalise_idem: "normalise_defaults False (normalise_defaults False ms) = normalise_defaults False ms"
  by (rule normalise_noop) (simp add: normalise_first_default)

lemma advertise_on_None: "advertise_on p es = None \<longleftrightarrow> OPENAI_COMPAT_EXTENSION_URI \<notin> ext_uri ` set es"
  by (induction es) auto

lemma advertise_on_Some:
  "advertise_on p es = Some es' \<Longrightarrow> map ext_uri es' = map ext_uri es"
  by (induction es arbitrary: es') (auto split: if_splits)

text \<open>What the bridge advertises is normal: the models keep their order and every field
  but \<open>default\<close>, the default is the first model that asked for it and no other, and
  normalising again changes nothing.\<close>

theorem advertised_models_normal:
  "buildOpenAICompatExtensionParams models =
     (if models = [] then None else Some (normalise_defaults False models)) \<and>
   filter is_default (normalise_defaults False models) = take 1 (filter is_default models) \<and>
   map (\<lambda>m. m\<lparr>md_default := None\<rparr>) (normalise_defaults False models) =
     map (\<lambda>m. m\<lparr>md_default := None\<rparr>) models \<and>
   normalise_defaults False (normalise_defaults False models) = normalise_defaults False models"
  by (simp add: buildOpenAICompatExtensionParams_def normalise_first_default normalise_erased normalise_idem)

end
