(* ===== verification/Parts.thy ===== *)
theory Parts
  imports Wire
begin

text \<open>
  Message parts between the two shapes of the protocol: \<open>partToA2X\<close> and \<open>normalizeTaskParts\<close>
  (packages/server/src/parts.ts) towards the SDK, \<open>partsToWire\<close>
  (packages/server/src/executor.ts) towards the client, and the message and status
  conversions of ws.ts that use them.
\<close>

subsection \<open>Towards the SDK\<close>

abbreviation has_key :: "obj \<Rightarrow> string \<Rightarrow> bool" where
  "has_key p k \<equiv> map_has p k"

definition sdk_part :: "obj \<Rightarrow> bool" where
  "sdk_part part \<longleftrightarrow> has_key part ''text'' \<or> has_key part ''data'' \<or> has_key part ''raw'' \<or> has_key part ''url''"

definition str_entry :: "obj \<Rightarrow> string \<Rightarrow> string \<Rightarrow> obj" where
  "str_entry src from_key to_key =
     (case str_field src from_key of None \<Rightarrow> [] | Some s \<Rightarrow> [(to_key, JStr s)])"

definition file_entries :: "obj \<Rightarrow> obj" where
  "file_entries file =
     str_entry file ''bytes'' ''raw'' @ str_entry file ''uri'' ''url'' @
     str_entry file ''name'' ''filename'' @ str_entry file ''mimeType'' ''mediaType''"

definition partToA2X :: "obj \<Rightarrow> obj" where
  "partToA2X part =
     (case (if sdk_part part then None else Option.bind (map_of part ''file'') as_record) of
        Some file \<Rightarrow> spread (map_del ''file'' (map_del ''kind'' part)) (file_entries file)
      | None \<Rightarrow> if has_key part ''kind'' then map_del ''kind'' part else part)"

subsection \<open>Towards the client\<close>

text \<open>A part the protocol does not know raises; the error is its message.\<close>

definition partToWire :: "obj \<Rightarrow> string + obj" where
  "partToWire value =
     (if map_of value ''kind'' \<in> {Some (JStr ''text''), Some (JStr ''file''), Some (JStr ''data'')} then Inr value
      else case str_field value ''text'' of
        Some t \<Rightarrow> Inr [(''kind'', JStr ''text''), (''text'', JStr t)]
      | None \<Rightarrow>
          (case map_of value ''data'' of
             Some d \<Rightarrow>
               (case as_record d of
                  None \<Rightarrow> Inl ''A2A DataPart.data must be an object''
                | Some o1 \<Rightarrow> Inr [(''kind'', JStr ''data''), (''data'', JObj o1)])
           | None \<Rightarrow>
               if str_field value ''raw'' \<noteq> None \<or> str_field value ''url'' \<noteq> None then
                 Inr [(''kind'', JStr ''file''),
                      (''file'', JObj (str_entry value ''filename'' ''name'' @ str_entry value ''mediaType'' ''mimeType'' @
                         str_entry value ''raw'' ''bytes'' @ str_entry value ''url'' ''uri''))]
               else Inl ''Unsupported A2A message part''))"

fun partsToWire :: "obj list \<Rightarrow> string + obj list" where
  "partsToWire [] = Inr []"
| "partsToWire (p # ps) =
     (case partToWire p of
        Inl e \<Rightarrow> Inl e
      | Inr w \<Rightarrow> (case partsToWire ps of Inl e \<Rightarrow> Inl e | Inr ws \<Rightarrow> Inr (w # ws)))"

subsection \<open>Messages, statuses, tasks\<close>

definition wireMessageToA2X :: "wire_message option \<Rightarrow> string \<Rightarrow> string \<Rightarrow> message option" where
  "wireMessageToA2X m taskId contextId =
     (case m of
        None \<Rightarrow> None
      | Some w \<Rightarrow> Some \<lparr>m_messageId = wm_messageId w, m_role = wm_role w,
          m_parts = map partToA2X (wm_parts w), m_metadata = wm_metadata w,
          m_extensions = wm_extensions w, m_taskId = Some taskId, m_contextId = Some contextId\<rparr>)"

definition wireStatusToA2X :: "wire_status \<Rightarrow> string \<Rightarrow> string \<Rightarrow> task_status" where
  "wireStatusToA2X status taskId contextId =
     \<lparr>st_state = wst_state status, st_timestamp = wst_timestamp status,
      st_message = wireMessageToA2X (wst_message status) taskId contextId\<rparr>"

text \<open>The persisted task. \<open>normalizeTaskParts\<close> converts the parts of its status message, history
  and artifacts and nothing else.\<close>

record task =
  t_id :: string
  t_contextId :: "string option"
  t_status :: task_status
  t_history :: "message list option"
  t_artifacts :: "artifact list option"
  t_metadata :: "obj option"

definition norm_message :: "message \<Rightarrow> message" where
  "norm_message m = m\<lparr>m_parts := map partToA2X (m_parts m)\<rparr>"

definition norm_artifact :: "artifact \<Rightarrow> artifact" where
  "norm_artifact a = a\<lparr>ar_parts := map partToA2X (ar_parts a)\<rparr>"

definition normalizeTaskParts :: "task \<Rightarrow> task" where
  "normalizeTaskParts t =
     t\<lparr>t_status := (t_status t)\<lparr>st_message := map_option norm_message (st_message (t_status t))\<rparr>,
       t_history := map_option (map norm_message) (t_history t),
       t_artifacts := map_option (map norm_artifact) (t_artifacts t)\<rparr>"

subsection \<open>Laws of the conversions\<close>

lemma case_option_id [simp]: "(case x of None \<Rightarrow> None | Some y \<Rightarrow> Some y) = x"
  by (cases x) auto

lemma str_field_entry [simp]:
  "str_field (str_entry src a b @ rest) k =
     (if k = b then (case str_field src a of None \<Rightarrow> str_field rest k | Some s \<Rightarrow> Some s) else str_field rest k)"
  by (auto simp: str_entry_def str_field_def split: option.splits)

lemma str_field_entry_last [simp]:
  "str_field (str_entry src a b) k = (if k = b then str_field src a else None)"
  using str_field_entry [of src a b "[]" k] by (auto simp: str_field_def split: option.splits)

lemma str_field_empty [simp]: "str_field [] k = None"
  by (simp add: str_field_def)

lemma str_entry_keys: "fst ` set (str_entry src a b) \<subseteq> {b}"
  by (cases "str_field src a") (simp_all add: str_entry_def)

lemma str_entry_distinct: "distinct (map_keys (str_entry src a b))"
  by (cases "str_field src a") (simp_all add: str_entry_def)

lemma str_entry_strings: "(k, v) \<in> set (str_entry src a b) \<Longrightarrow> \<exists>s. v = JStr s"
  by (cases "str_field src a") (simp_all add: str_entry_def)

lemma file_entries_keys: "fst ` set (file_entries f) \<subseteq> {''raw'', ''url'', ''filename'', ''mediaType''}"
  using str_entry_keys [of f] unfolding file_entries_def set_append image_Un by blast

lemma entries_disjoint:
  "b \<noteq> b' \<Longrightarrow> fst ` set (str_entry src a b) \<inter> fst ` set (str_entry src' a' b') = {}"
  using str_entry_keys [of src a b] str_entry_keys [of src' a' b'] by blast

lemma file_entries_distinct: "distinct (map_keys (file_entries f))"
  unfolding file_entries_def
  by (simp add: str_entry_distinct entries_disjoint Int_Un_distrib Int_Un_distrib2)

lemma file_entries_strings: "map_of (file_entries f) k = Some v \<Longrightarrow> \<exists>s. v = JStr s"
  by (drule map_of_SomeD) (auto simp: file_entries_def dest: str_entry_strings)

lemma file_entries_notin:
  "k \<notin> {''raw'', ''url'', ''filename'', ''mediaType''} \<Longrightarrow> map_of (file_entries f) k = None"
  using file_entries_keys [of f] by (auto simp: map_of_eq_None_iff)

lemma str_field_spread_entries:
  "str_field (spread a (file_entries f)) k =
     (case str_field (file_entries f) k of None \<Rightarrow> str_field a k | Some s \<Rightarrow> Some s)"
proof (cases "map_of (file_entries f) k")
  case None
  then show ?thesis by (simp add: str_field_def map_of_spread file_entries_distinct)
next
  case (Some v)
  with file_entries_strings obtain s where "v = JStr s" by blast
  with Some show ?thesis by (simp add: str_field_def map_of_spread file_entries_distinct)
qed

lemma partToA2X_cases:
  obtains (nested) f where "\<not> sdk_part p" "map_of p ''file'' = Some (JObj f)"
      "partToA2X p = spread (map_del ''file'' (map_del ''kind'' p)) (file_entries f)"
  | (flat) "sdk_part p \<or> Option.bind (map_of p ''file'') as_record = None" "partToA2X p = map_del ''kind'' p"
proof (cases "sdk_part p \<or> Option.bind (map_of p ''file'') as_record = None")
  case True
  then have "partToA2X p = map_del ''kind'' p"
    by (auto simp: partToA2X_def map_del_absent)
  with True flat show thesis by blast
next
  case False
  then obtain f where f: "map_of p ''file'' = Some (JObj f)"
    by (auto simp: bind_eq_None_conv elim: as_record.elims)
  with False have "partToA2X p = spread (map_del ''file'' (map_del ''kind'' p)) (file_entries f)"
    by (simp add: partToA2X_def)
  with False f nested show thesis by blast
qed

lemma partToA2X_no_kind: "map_of (partToA2X p) ''kind'' = None"
  by (cases p rule: partToA2X_cases) (simp_all add: map_of_spread file_entries_distinct file_entries_notin)

lemma partToA2X_flat:
  "sdk_part (partToA2X p) \<or> Option.bind (map_of (partToA2X p) ''file'') as_record = None"
  by (cases p rule: partToA2X_cases)
    (auto simp: map_of_spread file_entries_distinct file_entries_notin sdk_part_def)

lemma partToA2X_stable:
  assumes "map_of p ''kind'' = None" and "sdk_part p \<or> Option.bind (map_of p ''file'') as_record = None"
  shows "partToA2X p = p"
  using assms by (auto simp: partToA2X_def)

lemma partToA2X_idem [simp]: "partToA2X (partToA2X p) = partToA2X p"
  by (rule partToA2X_stable [OF partToA2X_no_kind partToA2X_flat])

lemma norm_message_idem [simp]: "norm_message (norm_message m) = norm_message m"
  and norm_artifact_idem [simp]: "norm_artifact (norm_artifact a) = norm_artifact a"
  by (simp_all add: norm_message_def norm_artifact_def)

text \<open>Normalising the parts of a stored task is idempotent, so rows written before and
  after the flat shape was introduced read the same however often they are rewritten.\<close>

theorem normalizeTaskParts_idem: "normalizeTaskParts (normalizeTaskParts t) = normalizeTaskParts t"
  by (simp add: normalizeTaskParts_def option.map_comp comp_def)

lemma partToWire_text:
  "map_of p ''kind'' = None \<Longrightarrow> str_field p ''text'' = Some t \<Longrightarrow>
   partToWire p = Inr [(''kind'', JStr ''text''), (''text'', JStr t)]"
  by (simp add: partToWire_def)

lemma partToWire_data:
  "map_of p ''kind'' = None \<Longrightarrow> str_field p ''text'' = None \<Longrightarrow> map_of p ''data'' = Some d \<Longrightarrow>
   partToWire p = (case as_record d of None \<Rightarrow> Inl ''A2A DataPart.data must be an object''
     | Some o1 \<Rightarrow> Inr [(''kind'', JStr ''data''), (''data'', JObj o1)])"
  by (simp add: partToWire_def)

definition wire_file :: "obj \<Rightarrow> obj" where
  "wire_file value = str_entry value ''filename'' ''name'' @ str_entry value ''mediaType'' ''mimeType'' @
     str_entry value ''raw'' ''bytes'' @ str_entry value ''url'' ''uri''"

lemma partToWire_file:
  "map_of p ''kind'' = None \<Longrightarrow> str_field p ''text'' = None \<Longrightarrow> map_of p ''data'' = None \<Longrightarrow>
   partToWire p = (if str_field p ''raw'' \<noteq> None \<or> str_field p ''url'' \<noteq> None
     then Inr [(''kind'', JStr ''file''), (''file'', JObj (wire_file p))]
     else Inl ''Unsupported A2A message part'')"
  by (simp add: partToWire_def wire_file_def)

lemma file_back: "partToA2X [(''kind'', JStr ''file''), (''file'', JObj f)] = spread [] (file_entries f)"
  by (simp add: partToA2X_def sdk_part_def)

lemma wire_file_fields:
  "str_field (file_entries (wire_file p)) ''raw'' = str_field p ''raw''"
  "str_field (file_entries (wire_file p)) ''url'' = str_field p ''url''"
  "str_field (file_entries (wire_file p)) ''filename'' = str_field p ''filename''"
  "str_field (file_entries (wire_file p)) ''mediaType'' = str_field p ''mediaType''"
  by (simp_all add: file_entries_def wire_file_def cong: option.case_cong)

text \<open>A part of the SDK's shape that is forwarded to the client and read back from the
  wire has the text, the file contents, location, name and type, or the data object it had.\<close>

theorem part_wire_roundtrip:
  assumes "partToWire p = Inr w" and "map_of p ''kind'' = None"
  shows "case str_field p ''text'' of
           Some t \<Rightarrow> partToA2X w = [(''text'', JStr t)]
         | None \<Rightarrow>
             (case map_of p ''data'' of
                Some d \<Rightarrow> partToA2X w = [(''data'', d)]
              | None \<Rightarrow>
                  str_field (partToA2X w) ''raw'' = str_field p ''raw'' \<and>
                  str_field (partToA2X w) ''url'' = str_field p ''url'' \<and>
                  str_field (partToA2X w) ''filename'' = str_field p ''filename'' \<and>
                  str_field (partToA2X w) ''mediaType'' = str_field p ''mediaType'')"
proof (cases "str_field p ''text''")
  case (Some t)
  with assms have "w = [(''kind'', JStr ''text''), (''text'', JStr t)]"
    by (simp add: partToWire_text)
  with Some show ?thesis by (simp add: partToA2X_def sdk_part_def)
next
  case no_text: None
  show ?thesis
  proof (cases "map_of p ''data''")
    case (Some d)
    with no_text assms obtain o1 where "d = JObj o1" "w = [(''kind'', JStr ''data''), (''data'', JObj o1)]"
      by (cases d) (simp_all add: partToWire_data)
    with Some no_text show ?thesis by (simp add: partToA2X_def sdk_part_def)
  next
    case None
    with no_text assms have "w = [(''kind'', JStr ''file''), (''file'', JObj (wire_file p))]"
      by (simp add: partToWire_file split: if_splits)
    with None no_text show ?thesis
      by (simp add: file_back str_field_spread_entries wire_file_fields str_field_empty cong: option.case_cong)
  qed
qed

theorem part_wire_roundtrip_witness:
  "partToA2X [(''kind'', JStr ''text''), (''text'', JStr ''hi'')] = [(''text'', JStr ''hi'')]"
  using part_wire_roundtrip [of "[(''text'', JStr ''hi'')]" "[(''kind'', JStr ''text''), (''text'', JStr ''hi'')]"]
  by (simp add: partToWire_def str_field_def)

end
