(* ===== verification/Pricing.thy ===== *)
theory Pricing
  imports Wire
begin

text \<open>
  The price of an agent (packages/server/src/x402/pricing.ts): the lenient schema rows are read
  with, the strict one the admin API writes with, and the offer a row maps to. Then the token
  counts a completed task is billed from (packages/server/src/x402/usage.ts).

  A parse returns \<open>None\<close> where zod throws. An atomic amount stays the decimal string it is.
\<close>

subsection \<open>Rows\<close>

record pricing_base =
  pb_network :: string
  pb_asset :: string
  pb_payTo :: string
  pb_description :: "string option"
  pb_extra :: "obj option"

record rates =
  rt_input :: string
  rt_output :: string
  rt_cachedInput :: "string option"

datatype x402_pricing =
    ExactPricing pricing_base string
  | UptoPricing pricing_base string rates "string option" string

text \<open>The regular expressions \<open>^0x[0-9a-fA-F]{40}$\<close> and \<open>^(0|[1-9][0-9]*)$\<close>.\<close>

definition digits :: string where "digits = ''0123456789''"
definition hex_digits :: string where "hex_digits = ''0123456789abcdefABCDEF''"

definition is_evm_address :: "string \<Rightarrow> bool" where
  "is_evm_address s \<longleftrightarrow>
     take 2 s = ''0x'' \<and> length s = 42 \<and> list_all (\<lambda>c. c \<in> set hex_digits) (drop 2 s)"

definition is_atomic :: "string \<Rightarrow> bool" where
  "is_atomic s \<longleftrightarrow>
     s = ''0'' \<or> (s \<noteq> [] \<and> hd s \<noteq> CHR ''0'' \<and> list_all (\<lambda>c. c \<in> set digits) s)"

definition is_positive_atomic :: "string \<Rightarrow> bool" where
  "is_positive_atomic s \<longleftrightarrow> is_atomic s \<and> s \<noteq> ''0''"

subsection \<open>Field readers\<close>

text \<open>\<open>need\<close> is a required string field, \<open>want\<close> an optional one: absent is fine, present and
  invalid (JSON null included) is an error.\<close>

definition need :: "(string \<Rightarrow> bool) \<Rightarrow> string \<Rightarrow> obj \<Rightarrow> string option" where
  "need ok k o1 =
     (case map_of o1 k of Some (JStr s) \<Rightarrow> if ok s then Some s else None | _ \<Rightarrow> None)"

definition want :: "(string \<Rightarrow> bool) \<Rightarrow> string \<Rightarrow> obj \<Rightarrow> string option option" where
  "want ok k o1 = (case map_of o1 k of None \<Rightarrow> Some None | Some _ \<Rightarrow> map_option Some (need ok k o1))"

definition want_record :: "string \<Rightarrow> obj \<Rightarrow> obj option option" where
  "want_record k o1 =
     (case map_of o1 k of None \<Rightarrow> Some None | Some v \<Rightarrow> map_option Some (as_record v))"

definition only_keys :: "bool \<Rightarrow> string list \<Rightarrow> obj \<Rightarrow> bool" where
  "only_keys strict ks o1 \<longleftrightarrow> \<not> strict \<or> list_all (\<lambda>k. k \<in> set ks) (map_keys o1)"

definition non_empty :: "string \<Rightarrow> bool" where "non_empty s \<longleftrightarrow> s \<noteq> []"

definition base_keys :: "string list" where
  "base_keys = [''network'', ''asset'', ''payTo'', ''description'', ''extra'', ''scheme'']"

definition parse_base :: "obj \<Rightarrow> pricing_base option" where
  "parse_base o1 =
     (case need non_empty ''network'' o1 of None \<Rightarrow> None | Some network \<Rightarrow>
     (case need is_evm_address ''asset'' o1 of None \<Rightarrow> None | Some asset \<Rightarrow>
     (case need is_evm_address ''payTo'' o1 of None \<Rightarrow> None | Some payTo \<Rightarrow>
     (case want non_empty ''description'' o1 of None \<Rightarrow> None | Some description \<Rightarrow>
     (case want_record ''extra'' o1 of None \<Rightarrow> None | Some extra \<Rightarrow>
       Some \<lparr>pb_network = network, pb_asset = asset, pb_payTo = payTo,
             pb_description = description, pb_extra = extra\<rparr>)))))"

definition parse_rates :: "bool \<Rightarrow> json \<Rightarrow> rates option" where
  "parse_rates strict v =
     (case as_record v of None \<Rightarrow> None | Some o1 \<Rightarrow>
     (case need is_atomic ''input'' o1 of None \<Rightarrow> None | Some i \<Rightarrow>
     (case need is_atomic ''output'' o1 of None \<Rightarrow> None | Some ou \<Rightarrow>
     (case want is_atomic ''cachedInput'' o1 of None \<Rightarrow> None | Some c \<Rightarrow>
       if only_keys strict [''input'', ''output'', ''cachedInput''] o1
       then Some \<lparr>rt_input = i, rt_output = ou, rt_cachedInput = c\<rparr> else None))))"

definition parse_exact :: "bool \<Rightarrow> obj \<Rightarrow> x402_pricing option" where
  "parse_exact strict o1 =
     (case parse_base o1 of None \<Rightarrow> None | Some b \<Rightarrow>
     (case need is_positive_atomic ''amount'' o1 of None \<Rightarrow> None | Some amount \<Rightarrow>
       if only_keys strict (''amount'' # base_keys) o1 then Some (ExactPricing b amount) else None))"

definition parse_upto :: "bool \<Rightarrow> obj \<Rightarrow> x402_pricing option" where
  "parse_upto strict o1 =
     (case parse_base o1 of None \<Rightarrow> None | Some b \<Rightarrow>
     (case need is_positive_atomic ''maxAmount'' o1 of None \<Rightarrow> None | Some mx \<Rightarrow>
     (case Option.bind (map_of o1 ''rates'') (parse_rates strict) of None \<Rightarrow> None | Some r \<Rightarrow>
     (case want is_atomic ''minAmount'' o1 of None \<Rightarrow> None | Some mn \<Rightarrow>
     (case need is_evm_address ''facilitatorAddress'' o1 of None \<Rightarrow> None | Some fa \<Rightarrow>
       if only_keys strict ([''maxAmount'', ''rates'', ''minAmount'', ''facilitatorAddress''] @ base_keys) o1
       then Some (UptoPricing b mx r mn fa) else None)))))"

subsection \<open>Schemas\<close>

definition withSchemeDefault :: "json \<Rightarrow> json" where
  "withSchemeDefault raw =
     (case raw of
        JObj o1 \<Rightarrow> if map_has o1 ''scheme'' then raw else JObj (map_set ''scheme'' (JStr ''exact'') o1)
      | _ \<Rightarrow> raw)"

text \<open>\<open>strict\<close> distinguishes \<open>X402PricingWriteSchema\<close> from \<open>X402PricingSchema\<close>.\<close>

definition pricing_schema :: "bool \<Rightarrow> json \<Rightarrow> x402_pricing option" where
  "pricing_schema strict raw =
     (case withSchemeDefault raw of
        JObj o1 \<Rightarrow>
          if map_of o1 ''scheme'' = Some (JStr ''exact'') then parse_exact strict o1
          else if map_of o1 ''scheme'' = Some (JStr ''upto'') then parse_upto strict o1
          else None
      | _ \<Rightarrow> None)"

text \<open>A NULL column is a free agent, \<open>Inl\<close> is the error thrown on a malformed row.\<close>

definition parseX402Pricing :: "json option \<Rightarrow> string + x402_pricing option" where
  "parseX402Pricing raw =
     (case raw of
        None \<Rightarrow> Inr None
      | Some JNull \<Rightarrow> Inr None
      | Some v \<Rightarrow> (case pricing_schema False v of None \<Rightarrow> Inl ''invalid pricing'' | Some p \<Rightarrow> Inr (Some p)))"

text \<open>The JSON of a parsed row, as the admin API stores it.\<close>

definition opt_str :: "string \<Rightarrow> string option \<Rightarrow> obj" where
  "opt_str k v = (case v of None \<Rightarrow> [] | Some s \<Rightarrow> [(k, JStr s)])"

definition base_json :: "pricing_base \<Rightarrow> obj" where
  "base_json b =
     [(''network'', JStr (pb_network b)), (''asset'', JStr (pb_asset b)), (''payTo'', JStr (pb_payTo b))] @
     opt_str ''description'' (pb_description b) @
     (case pb_extra b of None \<Rightarrow> [] | Some e \<Rightarrow> [(''extra'', JObj e)])"

definition rates_json :: "rates \<Rightarrow> obj" where
  "rates_json r =
     [(''input'', JStr (rt_input r)), (''output'', JStr (rt_output r))] @ opt_str ''cachedInput'' (rt_cachedInput r)"

definition pricing_json :: "x402_pricing \<Rightarrow> json" where
  "pricing_json p =
     (case p of
        ExactPricing b amount \<Rightarrow> JObj ([(''scheme'', JStr ''exact''), (''amount'', JStr amount)] @ base_json b)
      | UptoPricing b mx r mn fa \<Rightarrow>
          JObj ([(''scheme'', JStr ''upto''), (''maxAmount'', JStr mx), (''rates'', JObj (rates_json r)),
                 (''facilitatorAddress'', JStr fa)] @ opt_str ''minAmount'' mn @ base_json b))"

subsection \<open>Offers\<close>

datatype offer_terms =
    ExactTerms string
  | UptoTerms string "string option" rates string

record merchant_accept =
  ma_network :: string
  ma_asset :: string
  ma_payTo :: string
  ma_resource :: string
  ma_terms :: offer_terms
  ma_description :: string
  ma_extra :: "obj option"

text \<open>The offer has one entry in \<open>accepts\<close>. \<open>UptoTerms\<close> holds the ceiling, the floor, the rates
  per million tokens and the policy for unreported usage.\<close>

definition pricingToOffer :: "x402_pricing \<Rightarrow> string \<Rightarrow> merchant_accept list" where
  "pricingToOffer p resource =
     (case p of
        UptoPricing b mx r mn fa \<Rightarrow>
          [\<lparr>ma_network = pb_network b, ma_asset = pb_asset b, ma_payTo = pb_payTo b, ma_resource = resource,
            ma_terms = UptoTerms mx mn r ''floor'',
            ma_description = get_or (pb_description b) (''Metered agent invocation '' @ [CHR 0xE2, CHR 0x80, CHR 0x94] @ '' billed per token''),
            ma_extra = Some (map_set ''facilitatorAddress'' (JStr fa) (get_or (pb_extra b) []))\<rparr>]
      | ExactPricing b amount \<Rightarrow>
          [\<lparr>ma_network = pb_network b, ma_asset = pb_asset b, ma_payTo = pb_payTo b, ma_resource = resource,
            ma_terms = ExactTerms amount,
            ma_description = get_or (pb_description b) ''Agent invocation'',
            ma_extra = pb_extra b\<rparr>])"

subsection \<open>What is parsed is what is stored\<close>

definition valid_base :: "pricing_base \<Rightarrow> bool" where
  "valid_base b \<longleftrightarrow> pb_network b \<noteq> [] \<and> is_evm_address (pb_asset b) \<and> is_evm_address (pb_payTo b) \<and>
     pb_description b \<noteq> Some []"

definition valid_rates :: "rates \<Rightarrow> bool" where
  "valid_rates r \<longleftrightarrow> is_atomic (rt_input r) \<and> is_atomic (rt_output r) \<and> pred_option is_atomic (rt_cachedInput r)"

fun valid_pricing :: "x402_pricing \<Rightarrow> bool" where
  "valid_pricing (ExactPricing b amount) \<longleftrightarrow> valid_base b \<and> is_positive_atomic amount"
| "valid_pricing (UptoPricing b mx r mn fa) \<longleftrightarrow>
     valid_base b \<and> is_positive_atomic mx \<and> valid_rates r \<and> pred_option is_atomic mn \<and> is_evm_address fa"

lemma need_Some: "need ok k o1 = Some s \<longleftrightarrow> map_of o1 k = Some (JStr s) \<and> ok s"
  by (auto simp: need_def split: option.splits json.splits)

lemma want_Some_Some: "want ok k o1 = Some (Some s) \<longleftrightarrow> need ok k o1 = Some s"
  by (auto simp: want_def need_def split: option.splits)

lemma want_Some_None: "want ok k o1 = Some None \<longleftrightarrow> map_of o1 k = None"
  by (auto simp: want_def split: option.splits)

lemma want_ok: "want ok k o1 = Some v \<Longrightarrow> pred_option ok v"
  by (cases v) (auto simp: want_Some_Some need_Some)

lemma parse_base_valid: "parse_base o1 = Some b \<Longrightarrow> valid_base b"
  by (auto simp: parse_base_def valid_base_def need_Some non_empty_def split: option.splits dest: want_ok)

lemma parse_rates_valid: "parse_rates strict v = Some r \<Longrightarrow> valid_rates r"
  by (auto simp: parse_rates_def valid_rates_def need_Some split: option.splits if_splits dest: want_ok)

lemma parse_exact_valid: "parse_exact strict o1 = Some p \<Longrightarrow> valid_pricing p"
  by (auto simp: parse_exact_def need_Some split: option.splits if_splits dest: parse_base_valid)

lemma parse_upto_valid: "parse_upto strict o1 = Some p \<Longrightarrow> valid_pricing p"
  by (auto simp: parse_upto_def need_Some bind_eq_Some_conv split: option.splits if_splits
      dest: parse_base_valid parse_rates_valid want_ok)

lemma pricing_schema_valid: "pricing_schema strict raw = Some p \<Longrightarrow> valid_pricing p"
  by (auto simp: pricing_schema_def split: json.splits if_splits dest: parse_exact_valid parse_upto_valid)

lemma keys_opt_str: "set (map_keys (opt_str k v)) \<subseteq> {k}"
  by (cases v) (simp_all add: opt_str_def)

lemma map_of_opt_str [simp]: "map_of (opt_str k v @ m) k' = (if k' = k \<and> v \<noteq> None then map_option JStr v else map_of m k')"
  by (cases v) (simp_all add: opt_str_def)

lemma map_of_opt_str_last [simp]:
  "map_of (opt_str k v) k' = (if k' = k then map_option JStr v else None)"
  by (cases v) (simp_all add: opt_str_def)

lemma map_of_base_json:
  "map_of (base_json b) ''network'' = Some (JStr (pb_network b))"
  "map_of (base_json b) ''asset'' = Some (JStr (pb_asset b))"
  "map_of (base_json b) ''payTo'' = Some (JStr (pb_payTo b))"
  "map_of (base_json b) ''description'' = map_option JStr (pb_description b)"
  "map_of (base_json b) ''extra'' = map_option JObj (pb_extra b)"
  by (cases "pb_extra b"; cases "pb_description b"; simp add: base_json_def opt_str_def)+

lemma base_json_keys: "set (map_keys (base_json b)) \<subseteq> set base_keys"
  by (cases "pb_extra b"; cases "pb_description b"; simp add: base_json_def opt_str_def base_keys_def)

lemma rates_json_keys: "set (map_keys (rates_json r)) \<subseteq> {''input'', ''output'', ''cachedInput''}"
  by (cases "rt_cachedInput r"; simp add: rates_json_def opt_str_def)

lemma base_json_absent: "k \<notin> set base_keys \<Longrightarrow> map_of (base_json b) k = None"
  using base_json_keys [of b] by (auto simp: map_of_eq_None_iff)

lemma want_eq:
  "map_of o1 k = map_option JStr v \<Longrightarrow> pred_option ok v \<Longrightarrow> want ok k o1 = Some v"
  by (cases v) (simp_all add: want_def need_def)

lemma need_eq: "map_of o1 k = Some (JStr s) \<Longrightarrow> ok s \<Longrightarrow> need ok k o1 = Some s"
  by (simp add: need_def)

lemma parse_base_eq:
  assumes "valid_base b" and "\<And>k. k \<in> {''network'', ''asset'', ''payTo'', ''description'', ''extra''} \<Longrightarrow>
    map_of o1 k = map_of (base_json b) k"
  shows "parse_base o1 = Some b"
proof -
  have "need non_empty ''network'' o1 = Some (pb_network b)"
    "need is_evm_address ''asset'' o1 = Some (pb_asset b)"
    "need is_evm_address ''payTo'' o1 = Some (pb_payTo b)"
    by (rule need_eq; use assms in \<open>simp add: valid_base_def non_empty_def map_of_base_json\<close>)+
  moreover have "want non_empty ''description'' o1 = Some (pb_description b)"
  proof (rule want_eq)
    show "map_of o1 ''description'' = map_option JStr (pb_description b)"
      using assms(2) [of "''description''"] by (simp add: map_of_base_json)
    show "pred_option non_empty (pb_description b)"
      using assms(1) by (cases "pb_description b") (simp_all add: valid_base_def non_empty_def)
  qed
  moreover have "want_record ''extra'' o1 = Some (pb_extra b)"
    using assms(2) [of "''extra''"] by (cases "pb_extra b") (simp_all add: want_record_def map_of_base_json)
  ultimately show ?thesis by (simp add: parse_base_def)
qed

lemma parse_rates_eq: "valid_rates r \<Longrightarrow> parse_rates strict (JObj (rates_json r)) = Some r"
proof -
  assume v: "valid_rates r"
  have "need is_atomic ''input'' (rates_json r) = Some (rt_input r)"
    "need is_atomic ''output'' (rates_json r) = Some (rt_output r)"
    using v by (auto intro!: need_eq simp: valid_rates_def rates_json_def)
  moreover have "want is_atomic ''cachedInput'' (rates_json r) = Some (rt_cachedInput r)"
    by (rule want_eq) (use v in \<open>simp_all add: valid_rates_def rates_json_def\<close>)
  moreover have "only_keys strict [''input'', ''output'', ''cachedInput''] (rates_json r)"
    using rates_json_keys [of r] by (auto simp: only_keys_def list_all_iff)
  ultimately show ?thesis by (simp add: parse_rates_def)
qed

lemma only_keys_base:
  "only_keys strict (ks @ base_keys) (m @ base_json b) \<longleftrightarrow> only_keys strict (ks @ base_keys) m"
  using base_json_keys [of b] by (auto simp: only_keys_def list_all_iff)

lemma exact_roundtrip:
  "valid_base b \<Longrightarrow> is_positive_atomic amount \<Longrightarrow>
   pricing_schema strict (pricing_json (ExactPricing b amount)) = Some (ExactPricing b amount)"
proof -
  assume v: "valid_base b" "is_positive_atomic amount"
  let ?m = "[(''scheme'', JStr ''exact''), (''amount'', JStr amount)]"
  have "parse_base (?m @ base_json b) = Some b"
    by (rule parse_base_eq [OF v(1)]) (elim insertE emptyE; simp)
  moreover have "need is_positive_atomic ''amount'' (?m @ base_json b) = Some amount"
    using v by (intro need_eq) simp_all
  moreover have "only_keys strict ([''amount''] @ base_keys) (?m @ base_json b)"
    unfolding only_keys_base by (simp add: only_keys_def base_keys_def)
  ultimately show ?thesis
    by (simp add: pricing_schema_def pricing_json_def withSchemeDefault_def parse_exact_def)
qed

lemma upto_roundtrip:
  assumes "valid_pricing (UptoPricing b mx r mn fa)"
  shows "pricing_schema strict (pricing_json (UptoPricing b mx r mn fa)) = Some (UptoPricing b mx r mn fa)"
proof -
  let ?m = "[(''scheme'', JStr ''upto''), (''maxAmount'', JStr mx), (''rates'', JObj (rates_json r)),
    (''facilitatorAddress'', JStr fa)] @ opt_str ''minAmount'' mn"
  let ?o = "?m @ base_json b"
  have "parse_base ?o = Some b"
  proof (rule parse_base_eq)
    show "valid_base b" using assms by simp
  qed (elim insertE emptyE; simp add: map_add_def)
  moreover have "need is_positive_atomic ''maxAmount'' ?o = Some mx"
    "need is_evm_address ''facilitatorAddress'' ?o = Some fa"
    by (rule need_eq; use assms in simp)+
  moreover have "want is_atomic ''minAmount'' ?o = Some mn"
    by (rule want_eq) (use assms in \<open>simp_all add: base_json_absent base_keys_def map_add_def split: option.splits\<close>)
  moreover have "map_of ?o ''rates'' = Some (JObj (rates_json r))" by simp
  moreover have "parse_rates strict (JObj (rates_json r)) = Some r"
    using assms by (simp add: parse_rates_eq)
  moreover have "only_keys strict ([''maxAmount'', ''rates'', ''minAmount'', ''facilitatorAddress''] @ base_keys) ?o"
    unfolding only_keys_base by (cases mn) (simp_all add: only_keys_def base_keys_def opt_str_def)
  ultimately show ?thesis
    by (simp add: pricing_schema_def pricing_json_def withSchemeDefault_def parse_upto_def)
qed

lemma pricing_roundtrip: "valid_pricing p \<Longrightarrow> pricing_schema strict (pricing_json p) = Some p"
  by (cases p) (simp_all add: exact_roundtrip upto_roundtrip del: valid_pricing.simps(2))

text \<open>Whatever row either schema accepts, the row stored for it reads back as the same
  price under both, so a price written through the admin API is the price every later
  connection, notification and server of an older build charges.\<close>

theorem stored_pricing_roundtrip:
  assumes "pricing_schema strict raw = Some p"
  shows "parseX402Pricing (Some (pricing_json p)) = Inr (Some p) \<and>
    pricing_schema True (pricing_json p) = Some p"
proof -
  have "pricing_schema s (pricing_json p) = Some p" for s
    using assms by (blast intro: pricing_roundtrip pricing_schema_valid)
  then show ?thesis
    by (cases p) (simp_all add: parseX402Pricing_def, simp_all add: pricing_json_def)
qed

definition sample_row :: json where
  "sample_row = JObj [(''network'', JStr ''base''), (''asset'', JStr (''0x'' @ replicate 40 (CHR ''a''))),
     (''payTo'', JStr (''0x'' @ replicate 40 (CHR ''B''))), (''amount'', JStr ''1000'')]"

definition sample_pricing :: x402_pricing where
  "sample_pricing = ExactPricing \<lparr>pb_network = ''base'', pb_asset = ''0x'' @ replicate 40 (CHR ''a''),
     pb_payTo = ''0x'' @ replicate 40 (CHR ''B''), pb_description = None, pb_extra = None\<rparr> ''1000''"

lemma sample_parses: "pricing_schema True sample_row = Some sample_pricing"
  by code_simp

theorem stored_pricing_roundtrip_witness:
  "parseX402Pricing (Some (pricing_json sample_pricing)) = Inr (Some sample_pricing) \<and>
   pricing_schema True (pricing_json sample_pricing) = Some sample_pricing"
  by (rule stored_pricing_roundtrip [OF sample_parses])

end
