(* ===== verification/Usage.thy ===== *)
theory Usage
  imports Wire
begin

text \<open>
  The token counts a completed task is billed from (packages/server/src/x402/usage.ts): the
  field of the \<open>task.complete\<close> frame, then the two shapes of the openai-compat metadata.
\<close>

datatype usage_source = FromProtocol | FromOpenAICompat

datatype meterable = Detailed nat nat "nat option" | Unreported

record reported_counts =
  rc_prompt :: nat
  rc_completion :: nat
  rc_cached :: "nat option"
  rc_model :: "string option"

text \<open>\<open>count\<close>: a finite, non-negative integer or nothing.\<close>

fun count_number :: "js_number \<Rightarrow> nat option" where
  "count_number (NInt i) = (if i \<ge> 0 then Some (nat i) else None)"
| "count_number _ = None"

fun count_json :: "json option \<Rightarrow> nat option" where
  "count_json (Some (JNum n)) = count_number n"
| "count_json _ = None"

definition build_counts :: "nat \<Rightarrow> nat \<Rightarrow> nat option \<Rightarrow> string option \<Rightarrow> reported_counts" where
  "build_counts prompt completion cached model =
     \<lparr>rc_prompt = prompt, rc_completion = completion,
      rc_cached = (case cached of None \<Rightarrow> None | Some c \<Rightarrow> if c \<le> prompt then Some c else None),
      rc_model = (case model of None \<Rightarrow> None | Some m \<Rightarrow> if length m > 0 then Some m else None)\<rparr>"

definition fromProtocol :: "task_usage option \<Rightarrow> reported_counts option" where
  "fromProtocol usage =
     (case usage of
        None \<Rightarrow> None
      | Some u \<Rightarrow>
          (case (count_number (tu_promptTokens u), count_number (tu_completionTokens u)) of
             (Some p, Some c) \<Rightarrow>
               Some (build_counts p c (Option.bind (tu_cachedInputTokens u) count_number) (tu_model u))
           | _ \<Rightarrow> None))"

definition fromOpenAICompatPayload :: "json option \<Rightarrow> reported_counts option" where
  "fromOpenAICompatPayload raw =
     (case Option.bind raw as_record of
        None \<Rightarrow> None
      | Some u \<Rightarrow>
          (case (count_json (map_of u ''prompt_tokens''), count_json (map_of u ''completion_tokens'')) of
             (Some p, Some c) \<Rightarrow>
               (let cached = (case Option.bind (map_of u ''prompt_tokens_details'') as_record of
                                None \<Rightarrow> None
                              | Some details \<Rightarrow> count_json (map_of details ''cached_tokens''))
                in Some (build_counts p c cached (str_field u ''model'')))
           | _ \<Rightarrow> None))"

definition fromOpenAICompat :: "obj option \<Rightarrow> reported_counts option" where
  "fromOpenAICompat metadata =
     (case Option.bind (Option.bind metadata (\<lambda>m. map_of m OPENAI_COMPAT_EXTENSION_URI)) as_record of
        None \<Rightarrow> None
      | Some payload \<Rightarrow>
          (case fromOpenAICompatPayload (map_of payload ''usage'') of
             Some r \<Rightarrow> Some r
           | None \<Rightarrow>
               (case Option.bind (map_of payload ''chat_completion'') as_record of
                  Some envelope \<Rightarrow> fromOpenAICompatPayload (map_of envelope ''usage'')
                | None \<Rightarrow> None)))"

definition toMeterable :: "reported_counts \<Rightarrow> meterable" where
  "toMeterable counts = Detailed (rc_prompt counts) (rc_completion counts) (rc_cached counts)"

record read_usage =
  ru_usage :: meterable
  ru_source :: "usage_source option"
  ru_model :: "string option"

definition readTaskUsage :: "task_usage option \<Rightarrow> obj option \<Rightarrow> read_usage" where
  "readTaskUsage reported metadata =
     (case fromProtocol reported of
        Some c \<Rightarrow> \<lparr>ru_usage = toMeterable c, ru_source = Some FromProtocol, ru_model = rc_model c\<rparr>
      | None \<Rightarrow>
          (case fromOpenAICompat metadata of
             Some c \<Rightarrow> \<lparr>ru_usage = toMeterable c, ru_source = Some FromOpenAICompat, ru_model = rc_model c\<rparr>
           | None \<Rightarrow> \<lparr>ru_usage = Unreported, ru_source = None, ru_model = None\<rparr>))"

subsection \<open>What can be billed\<close>

definition coherent :: "reported_counts \<Rightarrow> bool" where
  "coherent c \<longleftrightarrow> (case rc_cached c of None \<Rightarrow> True | Some n \<Rightarrow> n \<le> rc_prompt c) \<and> rc_model c \<noteq> Some []"

lemma build_coherent: "coherent (build_counts p c ca m)"
  by (auto simp: coherent_def build_counts_def split: option.splits)

lemma fromProtocol_coherent: "fromProtocol u = Some c \<Longrightarrow> coherent c"
  by (auto simp: fromProtocol_def build_coherent split: option.splits prod.splits)

lemma payload_coherent: "fromOpenAICompatPayload v = Some c \<Longrightarrow> coherent c"
  by (auto simp: fromOpenAICompatPayload_def build_coherent Let_def split: option.splits prod.splits)

lemma fromOpenAICompat_coherent: "fromOpenAICompat md = Some c \<Longrightarrow> coherent c"
  by (auto simp: fromOpenAICompat_def dest: payload_coherent split: option.splits)

lemma fromProtocol_ints:
  "fromProtocol (Some \<lparr>tu_promptTokens = NInt (int p), tu_completionTokens = NInt (int c),
     tu_cachedInputTokens = map_option (\<lambda>n. NInt (int n)) ca, tu_model = m\<rparr>) = Some (build_counts p c ca m)"
  by (cases ca) (simp_all add: fromProtocol_def)

text \<open>What a task is billed on is coherent whatever the backend and the metadata hold:
  the cached count never exceeds the prompt count it is a part of, and the model name is never
  empty. A report on the frame wins over any metadata, a reported zero is billed as a zero and
  not as missing, and usage is unreported exactly when neither source has usable counts.\<close>

theorem read_usage_coherent:
  "(case ru_usage (readTaskUsage reported metadata) of
      Unreported \<Rightarrow> fromProtocol reported = None \<and> fromOpenAICompat metadata = None \<and>
        ru_source (readTaskUsage reported metadata) = None
    | Detailed p c ca \<Rightarrow> get_or ca 0 \<le> p) \<and>
   ru_model (readTaskUsage reported metadata) \<noteq> Some [] \<and>
   ru_usage (readTaskUsage (Some \<lparr>tu_promptTokens = NInt (int p), tu_completionTokens = NInt (int c),
     tu_cachedInputTokens = map_option (\<lambda>n. NInt (int n)) ca, tu_model = m\<rparr>) metadata) =
     Detailed p c (case ca of None \<Rightarrow> None | Some n \<Rightarrow> if n \<le> p then Some n else None)"
proof (intro conjI)
  show "case ru_usage (readTaskUsage reported metadata) of
      Unreported \<Rightarrow> fromProtocol reported = None \<and> fromOpenAICompat metadata = None \<and>
        ru_source (readTaskUsage reported metadata) = None
    | Detailed p c ca \<Rightarrow> get_or ca 0 \<le> p"
    by (auto simp: readTaskUsage_def toMeterable_def coherent_def
        dest!: fromProtocol_coherent fromOpenAICompat_coherent split: option.splits)
  show "ru_model (readTaskUsage reported metadata) \<noteq> Some []"
    by (auto simp: readTaskUsage_def coherent_def
        dest!: fromProtocol_coherent fromOpenAICompat_coherent split: option.splits)
qed (simp add: readTaskUsage_def fromProtocol_ints toMeterable_def build_counts_def)

end
