(* ===== verification/Text.thy ===== *)
theory Text
  imports Prelude
begin

text \<open>
  Strings. A JavaScript string is modelled by its UTF-8 bytes, one \<open>char\<close> each: a code point
  is a byte that is no continuation byte with the continuation bytes after it. Iterating over a string,
  its length in UTF-16 code units, its white space and its decimal numbers are read from the
  code points. A lone surrogate has no UTF-8 form and is outside the model.
\<close>

subsection \<open>Code points\<close>

definition cont :: "char \<Rightarrow> bool" where
  "cont c \<longleftrightarrow> 128 \<le> (of_char c :: nat) \<and> (of_char c :: nat) < 192"

function points :: "string \<Rightarrow> string list" where
  "points [] = []"
| "points (c # cs) = (c # takeWhile cont cs) # points (dropWhile cont cs)"
  by pat_completeness auto
termination by (relation "measure length") (auto simp: le_imp_less_Suc length_dropWhile_le)

definition utf16_units :: "string \<Rightarrow> nat" where
  "utf16_units p = (if (of_char (hd p) :: nat) \<ge> 240 then 2 else 1)"

text \<open>\<open>s.length\<close>.\<close>

definition js_length :: "string \<Rightarrow> nat" where
  "js_length s = sum_list (map utf16_units (points s))"

text \<open>The white space of \<open>trim\<close> and of \<open>\s\<close> in a regular expression.\<close>

definition bytes :: "nat list \<Rightarrow> string" where
  "bytes = map char_of"

definition wide_spaces :: "string list" where
  "wide_spaces = map bytes
     [[194, 160], [225, 154, 128], [226, 128, 128], [226, 128, 129], [226, 128, 130], [226, 128, 131],
      [226, 128, 132], [226, 128, 133], [226, 128, 134], [226, 128, 135], [226, 128, 136], [226, 128, 137],
      [226, 128, 138], [226, 128, 168], [226, 128, 169], [226, 128, 175], [226, 129, 159], [227, 128, 128],
      [239, 187, 191]]"

definition is_space :: "string \<Rightarrow> bool" where
  "is_space p \<longleftrightarrow>
     (case p of [c] \<Rightarrow> (of_char c :: nat) \<in> {9, 10, 11, 12, 13, 32} | _ \<Rightarrow> p \<in> set wide_spaces)"

definition js_trim :: "string \<Rightarrow> string" where
  "js_trim s = concat (rev (dropWhile is_space (rev (dropWhile is_space (points s)))))"

definition has_space :: "string \<Rightarrow> bool" where
  "has_space s \<longleftrightarrow> list_ex is_space (points s)"

text \<open>\<open>toLowerCase\<close> on ASCII; every other character is kept.\<close>

definition lower_char :: "char \<Rightarrow> char" where
  "lower_char c = (let n = of_char c :: nat in if 65 \<le> n \<and> n \<le> 90 then char_of (n + 32) else c)"

abbreviation lower :: "string \<Rightarrow> string" where
  "lower \<equiv> map lower_char"

abbreviation startsWith :: "string \<Rightarrow> string \<Rightarrow> bool" where
  "startsWith s p \<equiv> prefix p s"

lemma concat_points [simp]: "concat (points s) = s"
  by (induction s rule: points.induct) simp_all

lemma points_append: "b = [] \<or> \<not> cont (hd b) \<Longrightarrow> points (a @ b) = points a @ points b"
proof (induction a rule: points.induct)
  case (2 c cs)
  have tw: "takeWhile cont (cs @ b) = takeWhile cont cs" and dw: "dropWhile cont (cs @ b) = dropWhile cont cs @ b"
    using "2.prems" by (induction cs) (cases b; simp)+
  show ?case using 2 by (simp add: tw dw)
qed simp

lemma points_ne: "p \<in> set (points s) \<Longrightarrow> p \<noteq> []"
  by (induction s rule: points.induct) auto

lemma points_Nil_iff [simp]: "points s = [] \<longleftrightarrow> s = []"
  by (cases s) simp_all

subsection \<open>Decimal numbers\<close>

function string_of_nat :: "nat \<Rightarrow> string" where
  "string_of_nat n =
     (if n < 10 then [char_of (48 + n)] else string_of_nat (n div 10) @ [char_of (48 + n mod 10)])"
  by auto
termination by (relation "measure id") auto

declare string_of_nat.simps [simp del]

definition is_digit :: "char \<Rightarrow> bool" where
  "is_digit c \<longleftrightarrow> 48 \<le> (of_char c :: nat) \<and> (of_char c :: nat) \<le> 57"

text \<open>\<open>/^(?:0|[1-9][0-9]*)$/\<close> and \<open>Number\<close> of such a string.\<close>

definition is_decimal :: "string \<Rightarrow> bool" where
  "is_decimal s \<longleftrightarrow> s = ''0'' \<or> (s \<noteq> [] \<and> hd s \<noteq> CHR ''0'' \<and> list_all is_digit s)"

definition nat_of_string :: "string \<Rightarrow> nat" where
  "nat_of_string s = fold (\<lambda>c n. 10 * n + (of_char c - 48)) s 0"

lemma of_char_of: "n < 256 \<Longrightarrow> (of_char (char_of (n :: nat) :: char) :: nat) = n"
  by simp

lemma digit_char: "n < 10 \<Longrightarrow> is_digit (char_of (48 + n))" "n < 10 \<Longrightarrow> \<not> cont (char_of (48 + n))"
  "n < 10 \<Longrightarrow> (of_char (char_of (48 + n) :: char) :: nat) = 48 + n"
  by (simp_all add: is_digit_def cont_def)

lemma nat_of_string_snoc: "nat_of_string (s @ [c]) = 10 * nat_of_string s + (of_char c - 48)"
  by (simp add: nat_of_string_def)

lemma nat_of_string_of_nat [simp]: "nat_of_string (string_of_nat n) = n"
proof (induction n rule: less_induct)
  case (less n)
  show ?case
  proof (cases "n < 10")
    case True
    then show ?thesis by (subst string_of_nat.simps) (simp add: nat_of_string_def digit_char)
  next
    case False
    then have "nat_of_string (string_of_nat (n div 10)) = n div 10" by (intro less.IH) simp
    with False show ?thesis by (subst string_of_nat.simps) (simp add: nat_of_string_snoc digit_char)
  qed
qed

lemma string_of_nat_digits: "list_all is_digit (string_of_nat n)" "string_of_nat n \<noteq> []"
proof (induction n rule: less_induct)
  case (less n)
  {
    case 1
    show ?case using less(1) [of "n div 10"] by (subst string_of_nat.simps) (simp add: digit_char)
  next
    case 2
    show ?case by (subst string_of_nat.simps) simp
  }
qed

lemma string_of_nat_hd: "0 < n \<Longrightarrow> hd (string_of_nat n) \<noteq> CHR ''0''"
proof (induction n rule: less_induct)
  case (less n)
  show ?case
  proof (cases "n < 10")
    case True
    have "(of_char (char_of (48 + n) :: char) :: nat) \<noteq> of_char (CHR ''0'')" using True less.prems by (simp add: digit_char)
    then have "char_of (48 + n) \<noteq> CHR ''0''" by metis
    with True show ?thesis by (subst string_of_nat.simps) simp
  next
    case False
    then have "hd (string_of_nat (n div 10)) \<noteq> CHR ''0''" by (intro less.IH) simp_all
    with False show ?thesis by (subst string_of_nat.simps) (simp add: string_of_nat_digits)
  qed
qed

lemma string_of_nat_decimal: "is_decimal (string_of_nat n)"
proof (cases "n = 0")
  case True
  then show ?thesis using digit_char(1) [of 0] by (auto simp: is_decimal_def string_of_nat.simps [of 0])
next
  case False
  then show ?thesis using string_of_nat_hd string_of_nat_digits by (simp add: is_decimal_def)
qed

lemma string_of_nat_inj: "string_of_nat m = string_of_nat n \<Longrightarrow> m = n"
  by (metis nat_of_string_of_nat)

end
