(* ===== verification/ServerState.thy ===== *)
theory ServerState
  imports EventQueue Parts Pricing Text
begin

text \<open>
  The state of the bridge server's live half: \<open>Registry\<close> (packages/server/src/registry.ts),
  \<open>ToolApprovals\<close> (packages/server/src/tool-approvals.ts) and the sockets of
  packages/server/src/ws.ts, which keep references to one another and are one record here.

  A \<open>TaskBinding\<close> is a mutable object with an identity the code compares, so bindings live in
  a heap: \<open>objs\<close> maps a reference to the object and \<open>queues\<close> to the event queue behind
  its sink. A timer is a deadline; the event that it fires is an operation. \<open>clock\<close> is what
  \<open>Date.now()\<close> returns. What goes out is appended to \<open>effects\<close>.
\<close>

subsection \<open>Data\<close>

type_synonym ws = nat
type_synonym bref = nat

record terminal_error =
  te_code :: string
  te_message :: string
  te_messageIdSuffix :: string

record binding =
  b_agentId :: string
  b_taskId :: string
  b_executionId :: "string option"
  b_nextClientSeq :: "nat option"
  b_contextId :: string
  b_principalId :: "string option"
  b_actorId :: "string option"
  b_authorizationProfile :: "string option"
  b_authorizationKey :: "string option"
  b_requestedExtensions :: "string list option"
  b_heartbeats :: "nat option"
  b_usage :: "task_usage option"

record connection =
  cn_agentId :: string
  cn_clientId :: string
  cn_ownerPrincipal :: string
  cn_ownerEmail :: "string option"
  cn_backendKind :: "string option"
  cn_protocolCapabilities :: capabilities
  cn_identityTrust :: "string list option"
  cn_agentCard :: agent_card
  cn_allowedCallers :: "string list"
  cn_x402Pricing :: "x402_pricing option"
  cn_ws :: ws
  cn_connectedAt :: int

datatype hold_via = Disconnect | Reconnect

text \<open>\<open>hd_error\<close> is the terminal error the timer's closure captured.\<close>

record grace_hold =
  hd_deadline :: int
  hd_binding :: bref
  hd_heldAt :: int
  hd_via :: hold_via
  hd_closeCode :: "int option"
  hd_error :: terminal_error

record receipt =
  rp_agentId :: string
  rp_taskId :: string
  rp_acceptedSeq :: int
  rp_expiresAt :: int

datatype approval_state = Pending | Decided | Received | Expired

datatype authority = Owner | Requester

record approval =
  ap_request :: approval_request
  ap_agentId :: string
  ap_taskId :: string
  ap_executionId :: string
  ap_state :: approval_state
  ap_decision :: "decision option"
  ap_decidedBy :: "string option"
  ap_decidedVia :: "authority option"

record approval_origin =
  og_principalId :: "string option"
  og_actorId :: "string option"
  og_authorizationProfile :: "string option"
  og_authorizationKey :: "string option"

datatype effect =
    SendFrame ws down_frame
  | CloseSocket ws int string
  | AgentChanged string
  | CallersChanged string "string list"
  | UsageSettled string "(string \<times> string) + json option"

text \<open>A usage request in flight (packages/server/src/usage-rpc.ts).\<close>

record pending_usage =
  pu_agentId :: string
  pu_deadline :: int

type_synonym task_queue = "(event, unit) async_queue"

record srv =
  clock :: int
  graceMs :: int
  agents :: "(string, connection) jsmap"
  bindings :: "(string, bref) jsmap"
  objs :: "bref \<Rightarrow> binding"
  queues :: "bref \<Rightarrow> task_queue"
  next_ref :: bref
  holds :: "(string, grace_hold) jsmap"
  receipts :: "(string, receipt) jsmap"
  serverClosed :: "ws list"
  sockOpen :: "ws \<Rightarrow> bool"
  entries :: "(string, approval) jsmap"
  timers :: "(string, int) jsmap"
  origins :: "(string, approval_origin) jsmap"
  pendingUsage :: "(string, pending_usage) jsmap"
  effects :: "effect list"

subsection \<open>Sockets and sinks\<close>

text \<open>A frame sent on a socket that is no longer open is dropped; \<open>close\<close> on one does nothing.\<close>

definition emit :: "effect \<Rightarrow> srv \<Rightarrow> srv" where
  "emit e s = s\<lparr>effects := effects s @ [e]\<rparr>"

definition send_ws :: "ws \<Rightarrow> down_frame \<Rightarrow> srv \<Rightarrow> srv" where
  "send_ws w f s = (if sockOpen s w then emit (SendFrame w f) s else s)"

definition close_ws :: "ws \<Rightarrow> int \<Rightarrow> string \<Rightarrow> srv \<Rightarrow> srv" where
  "close_ws w code reason s =
     (if sockOpen s w then emit (CloseSocket w code reason) (s\<lparr>sockOpen := (sockOpen s)(w := False)\<rparr>) else s)"

definition upd_queue :: "bref \<Rightarrow> (task_queue \<Rightarrow> task_queue) \<Rightarrow> srv \<Rightarrow> srv" where
  "upd_queue r f s = s\<lparr>queues := (queues s)(r := f (queues s r))\<rparr>"

definition upd_obj :: "bref \<Rightarrow> (binding \<Rightarrow> binding) \<Rightarrow> srv \<Rightarrow> srv" where
  "upd_obj r f s = s\<lparr>objs := (objs s)(r := f (objs s r))\<rparr>"

text \<open>The sink of a binding (packages/server/src/executor.ts).\<close>

definition pushStatus :: "bref \<Rightarrow> status_event \<Rightarrow> srv \<Rightarrow> srv" where
  "pushStatus r e = upd_queue r (q_push (StatusEvent e))"

definition pushArtifact :: "bref \<Rightarrow> artifact_event \<Rightarrow> srv \<Rightarrow> srv" where
  "pushArtifact r e = upd_queue r (q_push (ArtifactEvent e))"

definition finish_sink :: "bref \<Rightarrow> srv \<Rightarrow> srv" where
  "finish_sink r = upd_queue r q_end"

definition getBinding :: "string \<Rightarrow> srv \<Rightarrow> bref option" where
  "getBinding taskId s = map_of (bindings s) taskId"

definition getAgent :: "string \<Rightarrow> srv \<Rightarrow> connection option" where
  "getAgent agentId s = map_of (agents s) agentId"

definition listAgents :: "srv \<Rightarrow> connection list" where
  "listAgents s = map_vals (agents s)"

definition sendToAgent :: "string \<Rightarrow> down_frame \<Rightarrow> srv \<Rightarrow> bool \<times> srv" where
  "sendToAgent agentId f s =
     (case getAgent agentId s of None \<Rightarrow> (False, s) | Some c \<Rightarrow> (True, send_ws (cn_ws c) f s))"

abbreviation send_agent :: "string \<Rightarrow> down_frame \<Rightarrow> srv \<Rightarrow> srv" where
  "send_agent agentId f s \<equiv> snd (sendToAgent agentId f s)"

lemmas sink_defs = pushStatus_def pushArtifact_def finish_sink_def upd_queue_def
lemmas socket_defs = emit_def send_ws_def close_ws_def

end
