(* ===== verification/Approvals.thy ===== *)
theory Approvals
  imports ServerState
begin

text \<open>
  \<open>ToolApprovals\<close> (packages/server/src/tool-approvals.ts): the requests a running backend raises
  for permission to use a tool, from creation to the owner's or requester's decision and the
  client's acknowledgement. The timer callback needs the registry and is in \<open>Registry\<close>.
\<close>

subsection \<open>Lookups\<close>

definition raised_by :: "approval \<Rightarrow> binding \<Rightarrow> bool" where
  "raised_by a b \<longleftrightarrow> b_agentId b = ap_agentId a \<and> b_executionId b = Some (ap_executionId a)"

definition liveBinding :: "approval \<Rightarrow> srv \<Rightarrow> bref option" where
  "liveBinding a s =
     (case getBinding (ap_taskId a) s of
        None \<Rightarrow> None
      | Some r \<Rightarrow> if raised_by a (objs s r) then Some r else None)"

definition live :: "approval \<Rightarrow> srv \<Rightarrow> bool" where
  "live a s \<longleftrightarrow>
     (case getBinding (ap_taskId a) s of None \<Rightarrow> False | Some r \<Rightarrow> raised_by a (objs s r))"

definition undecided :: "approval \<Rightarrow> bool" where
  "undecided a \<longleftrightarrow> ap_state a = Pending \<or> ap_state a = Decided"

definition same_execution :: "approval \<Rightarrow> binding \<Rightarrow> bool" where
  "same_execution a b \<longleftrightarrow> b_executionId b = Some (ap_executionId a) \<and> b_taskId b = ap_taskId a"

definition waiting :: "binding \<Rightarrow> srv \<Rightarrow> approval option" where
  "waiting b s = List.find (\<lambda>a. same_execution a b \<and> undecided a) (map_vals (entries s))"

definition list_approvals :: "srv \<Rightarrow> approval list" where
  "list_approvals s = filter (\<lambda>a. live a s \<and> undecided a) (map_vals (entries s))"

definition get_approval :: "string \<Rightarrow> srv \<Rightarrow> approval option" where
  "get_approval rid s = map_of (entries s) rid"

abbreviation req_id :: "approval \<Rightarrow> string" where
  "req_id a \<equiv> rq_requestId (ap_request a)"

abbreviation expires_at :: "approval \<Rightarrow> int" where
  "expires_at a \<equiv> rq_expiresMs (ap_request a)"

subsection \<open>Operations\<close>

definition clear_timer :: "string \<Rightarrow> srv \<Rightarrow> srv" where
  "clear_timer rid s = s\<lparr>timers := map_del rid (timers s)\<rparr>"

text \<open>\<open>tick\<close> arms the one-second timer.\<close>

definition tick :: "string \<Rightarrow> srv \<Rightarrow> srv" where
  "tick rid s = (let s1 = clear_timer rid s in s1\<lparr>timers := map_set rid (clock s1 + 1000) (timers s1)\<rparr>)"

definition set_approval :: "approval \<Rightarrow> srv \<Rightarrow> srv" where
  "set_approval a s = s\<lparr>entries := map_set (req_id a) a (entries s)\<rparr>"

definition deliver :: "approval \<Rightarrow> srv \<Rightarrow> srv" where
  "deliver a s =
     (if \<not> live a s then s
      else (case ap_decision a of
              None \<Rightarrow> s
            | Some d \<Rightarrow>
                send_agent (ap_agentId a)
                  (ApprovalResolve (ap_taskId a) (ap_executionId a) (req_id a) d) s))"

text \<open>\<open>Inl\<close> is the error thrown.\<close>

definition request_approval ::
    "binding \<Rightarrow> approval_request \<Rightarrow> srv \<Rightarrow> string + approval \<times> srv" where
  "request_approval b request s =
     (case b_executionId b of
        None \<Rightarrow> Inl ''Approval requires execution replay''
      | Some executionId \<Rightarrow>
          if executionId = [] then Inl ''Approval requires execution replay''
          else if rq_expiresMs request \<le> clock s \<or> rq_expiresMs request > clock s + 660000
          then Inl ''Invalid approval expiry''
          else if rq_jsonLength request > 70000 then Inl ''Approval request too large''
          else if map_has (entries s) (rq_requestId request) \<or> waiting b s \<noteq> None
          then Inl ''Duplicate approval request''
          else
            (let a = \<lparr>ap_request = request, ap_agentId = b_agentId b, ap_taskId = b_taskId b,
                      ap_executionId = executionId, ap_state = Pending, ap_decision = None,
                      ap_decidedBy = None, ap_decidedVia = None\<rparr>;
                 og = \<lparr>og_principalId = b_principalId b, og_actorId = b_actorId b,
                       og_authorizationProfile = b_authorizationProfile b,
                       og_authorizationKey = b_authorizationKey b\<rparr>;
                 s1 = set_approval a s;
                 s2 = s1\<lparr>origins := map_set (req_id a) og (origins s1)\<rparr>
             in Inr (a, tick (req_id a) s2)))"

definition decide :: "string \<Rightarrow> decision \<Rightarrow> string \<Rightarrow> authority \<Rightarrow> srv \<Rightarrow> approval option \<times> srv" where
  "decide rid dec who via s =
     (case map_of (entries s) rid of
        None \<Rightarrow> (None, s)
      | Some a \<Rightarrow>
          if \<not> live a s \<or> expires_at a \<le> clock s then (None, s)
          else if ap_state a \<noteq> Pending then
            (if (ap_state a = Decided \<or> ap_state a = Received) \<and> ap_decision a = Some dec \<and>
                ap_decidedBy a = Some who \<and> get_or (ap_decidedVia a) Owner = via
             then (Some a, s) else (None, s))
          else
            (let a' = a\<lparr>ap_state := Decided, ap_decision := Some dec, ap_decidedBy := Some who,
                        ap_decidedVia := Some via\<rparr>
             in (Some a', deliver a' (set_approval a' s))))"

definition received :: "binding \<Rightarrow> string \<Rightarrow> decision \<Rightarrow> srv \<Rightarrow> approval option \<times> srv" where
  "received b rid dec s =
     (case map_of (entries s) rid of
        None \<Rightarrow> (None, s)
      | Some a \<Rightarrow>
          if b_executionId b \<noteq> Some (ap_executionId a) \<or> ap_taskId a \<noteq> b_taskId b \<or> ap_agentId a \<noteq> b_agentId b
          then (None, s)
          else if \<not> undecided a then (None, s)
          else if dec = Allow_once \<and> (ap_state a \<noteq> Decided \<or> ap_decision a \<noteq> Some dec) then (None, s)
          else
            (let a' = a\<lparr>ap_state := Received, ap_decision := Some dec\<rparr>
             in (Some a', clear_timer (req_id a') (set_approval a' s))))"

text \<open>Every entry of the execution is dropped with its timer and origin.\<close>

definition invalidate :: "binding \<Rightarrow> srv \<Rightarrow> srv" where
  "invalidate b s =
     (let gone = map (\<lambda>(k, a). req_id a) (filter (\<lambda>(k, a). same_execution a b) (entries s))
      in s\<lparr>entries := fold map_del gone (entries s), origins := fold map_del gone (origins s),
           timers := fold map_del gone (timers s)\<rparr>)"

text \<open>The status the task shows while it waits. A string is its UTF-8 bytes, of which
  \<open>encodeURIComponent\<close> keeps the unreserved ones.\<close>

definition hex_upper :: "nat \<Rightarrow> char" where
  "hex_upper n = ''0123456789ABCDEF'' ! n"

definition unreserved :: "char \<Rightarrow> bool" where
  "unreserved c \<longleftrightarrow>
     c \<in> set ''ABCDEFGHIJKLMNOPQRSTUVWXYZabcdefghijklmnopqrstuvwxyz0123456789-_.!~*()'' \<or> c = CHR 0x27"

definition encodeURIComponent :: "string \<Rightarrow> string" where
  "encodeURIComponent s = concat (map (\<lambda>c. if unreserved c then [c]
     else [CHR ''%'', hex_upper (of_char c div 16), hex_upper (of_char c mod 16)]) s)"

definition decision_text :: "decision \<Rightarrow> string" where
  "decision_text d = (case d of Allow_once \<Rightarrow> ''allow_once'' | Deny \<Rightarrow> ''deny'')"

definition approval_metadata :: "approval \<Rightarrow> obj" where
  "approval_metadata a =
     [(APPROVAL_EXTENSION_URI, JObj
        [(''requestId'', JStr (req_id a)), (''executionId'', JStr (ap_executionId a)),
         (''toolName'', JStr (rq_toolName (ap_request a))), (''input'', JObj (rq_input (ap_request a))),
         (''expiresAt'', JStr (rq_expiresAt (ap_request a))),
         (''decisions'', JArr [JStr ''allow_once'', JStr ''deny'']),
         (''decisionUrl'', JStr (''/admin-api/agents/'' @ encodeURIComponent (ap_agentId a) @ ''/approvals/'' @ req_id a)),
         (''requesterApprovalUrl'', JStr (''/agents/'' @ encodeURIComponent (ap_agentId a) @ ''/approvals/'' @ req_id a))])]"

definition approvalStatus :: "int \<Rightarrow> approval \<Rightarrow> wire_status" where
  "approvalStatus now a =
     \<lparr>wst_state = AUTH_REQUIRED,
      wst_message = Some
        \<lparr>wm_role = Agent,
         wm_parts = [[(''kind'', JStr ''text''),
                      (''text'', JStr (''Owner approval required for '' @ rq_toolName (ap_request a)))]],
         wm_messageId = req_id a,
         wm_metadata = Some (approval_metadata a),
         wm_extensions = Some [APPROVAL_EXTENSION_URI]\<rparr>,
      wst_timestamp = Some (Iso now)\<rparr>"

end
