(* ===== verification/Registry.thy ===== *)
theory Registry
  imports Approvals
begin

text \<open>
  \<open>Registry\<close> (packages/server/src/registry.ts): connected agents, the bindings of running tasks,
  the grace holds of agents that dropped, and the receipts of finished executions; and the
  timer callback of \<open>ToolApprovals\<close>, which fails the binding of an expired request.
\<close>

subsection \<open>Configuration of the grace period\<close>

definition FALLBACK_DISCONNECT_GRACE_MS :: int where "FALLBACK_DISCONNECT_GRACE_MS = 30000"
definition MAX_DISCONNECT_GRACE_MS :: int where "MAX_DISCONNECT_GRACE_MS = 2147483647"

datatype grace_source = FromDefault | FromEnv | Clamped | Invalid

fun num_negative :: "js_number \<Rightarrow> bool" where
  "num_negative (NInt i) \<longleftrightarrow> i < 0"
| "num_negative (NFraction p q) \<longleftrightarrow> p < 0"
| "num_negative NNonFinite \<longleftrightarrow> False"

fun num_above :: "js_number \<Rightarrow> int \<Rightarrow> bool" where
  "num_above (NInt i) m \<longleftrightarrow> i > m"
| "num_above (NFraction p q) m \<longleftrightarrow> p > m * int q"
| "num_above NNonFinite m \<longleftrightarrow> False"

text \<open>\<open>to_number\<close> is \<open>Number\<close> on a string.\<close>

definition resolveDisconnectGraceMs ::
    "(string \<Rightarrow> js_number) \<Rightarrow> string option \<Rightarrow> js_number \<times> grace_source" where
  "resolveDisconnectGraceMs to_number raw =
     (let trimmed = map_option js_trim raw
      in if trimmed = None \<or> trimmed = Some [] then (NInt FALLBACK_DISCONNECT_GRACE_MS, FromDefault)
         else (let n = to_number (get_or trimmed [])
               in if n = NNonFinite \<or> num_negative n then (NInt FALLBACK_DISCONNECT_GRACE_MS, Invalid)
                  else if num_above n MAX_DISCONNECT_GRACE_MS then (NInt MAX_DISCONNECT_GRACE_MS, Clamped)
                  else (n, FromEnv)))"

definition isGraceableCloseCode :: "int option \<Rightarrow> bool" where
  "isGraceableCloseCode code =
     (case code of None \<Rightarrow> True | Some c \<Rightarrow> if c = 1000 then False else c < 4000 \<or> c > 4999)"

subsection \<open>Terminal receipts\<close>

definition pruneTerminalReceipts :: "int \<Rightarrow> srv \<Rightarrow> srv" where
  "pruneTerminalReceipts now s = s\<lparr>receipts := filter (\<lambda>(k, r). rp_expiresAt r > now) (receipts s)\<rparr>"

text \<open>The \<open>while\<close> loop deletes the oldest entries until at most 10 000 are left.\<close>

definition evict_oldest :: "nat \<Rightarrow> ('k, 'v) jsmap \<Rightarrow> ('k, 'v) jsmap" where
  "evict_oldest n m = drop (length m - n) m"

definition rememberTerminalReceipt :: "bref \<Rightarrow> int \<Rightarrow> srv \<Rightarrow> srv" where
  "rememberTerminalReceipt r acceptedSeq s =
     (let b = objs s r
      in if get_or (b_executionId b) [] = [] then s
         else (let s1 = pruneTerminalReceipts (clock s) s;
                   rc = \<lparr>rp_agentId = b_agentId b, rp_taskId = b_taskId b, rp_acceptedSeq = acceptedSeq,
                         rp_expiresAt = clock s + max (graceMs s) 60000\<rparr>
               in s1\<lparr>receipts := evict_oldest 10000 (map_set (get_or (b_executionId b) []) rc (receipts s1))\<rparr>))"

definition getTerminalReceipt :: "string \<Rightarrow> string \<Rightarrow> string \<Rightarrow> srv \<Rightarrow> int option \<times> srv" where
  "getTerminalReceipt executionId agentId taskId s =
     (let s1 = pruneTerminalReceipts (clock s) s
      in case map_of (receipts s1) executionId of
           None \<Rightarrow> (None, s1)
         | Some rc \<Rightarrow>
             if rp_agentId rc \<noteq> agentId \<or> rp_taskId rc \<noteq> taskId then (None, s1)
             else (Some (rp_acceptedSeq rc), s1))"

subsection \<open>Failing a binding\<close>

definition DISCONNECTED_ERROR :: terminal_error where
  "DISCONNECTED_ERROR = \<lparr>te_code = ''disconnected'', te_message = ''client disconnected mid-task'',
     te_messageIdSuffix = ''disc''\<rparr>"

definition SUPERSEDED_ERROR :: terminal_error where
  "SUPERSEDED_ERROR = \<lparr>te_code = ''superseded'',
     te_message = ''superseded by a reconnect from the same client token'', te_messageIdSuffix = ''superseded''\<rparr>"

definition TASK_SUPERSEDED_ERROR :: terminal_error where
  "TASK_SUPERSEDED_ERROR = \<lparr>te_code = ''task_superseded'',
     te_message = ''task superseded by a newer request for the same task id'',
     te_messageIdSuffix = ''superseded''\<rparr>"

definition failed_event :: "binding \<Rightarrow> terminal_error \<Rightarrow> int \<Rightarrow> status_event" where
  "failed_event b err now =
     \<lparr>se_taskId = b_taskId b, se_contextId = b_contextId b, se_final = True,
      se_status = \<lparr>st_state = FAILED, st_timestamp = Some (Iso now),
        st_message = Some \<lparr>m_messageId = b_taskId b @ ''-'' @ te_messageIdSuffix err, m_role = Agent,
          m_parts = [[(''text'', JStr (te_message err))]],
          m_metadata = fst (terminalErrorMessageFields (te_code err) (te_message err) (b_requestedExtensions b)),
          m_extensions = snd (terminalErrorMessageFields (te_code err) (te_message err) (b_requestedExtensions b)),
          m_taskId = Some (b_taskId b), m_contextId = Some (b_contextId b)\<rparr>\<rparr>,
      se_metadata = None\<rparr>"

definition failBinding :: "bref \<Rightarrow> terminal_error \<Rightarrow> srv \<Rightarrow> srv" where
  "failBinding r err s =
     (let s1 = invalidate (objs s r) s
      in finish_sink r (pushStatus r (failed_event (objs s r) err (clock s)) s1))"

definition clearGraceHold :: "string \<Rightarrow> bref \<Rightarrow> srv \<Rightarrow> srv" where
  "clearGraceHold taskId r s =
     (case map_of (holds s) taskId of
        None \<Rightarrow> s
      | Some h \<Rightarrow> if hd_binding h \<noteq> r then s else s\<lparr>holds := map_del taskId (holds s)\<rparr>)"

definition drop_binding :: "string \<Rightarrow> srv \<Rightarrow> srv" where
  "drop_binding taskId s = s\<lparr>bindings := map_del taskId (bindings s)\<rparr>"

definition fail_one :: "string \<Rightarrow> terminal_error \<Rightarrow> bref \<Rightarrow> srv \<Rightarrow> srv" where
  "fail_one agentId err r s =
     (let b = objs s r
      in if b_agentId b \<noteq> agentId then s
         else (let s1 = failBinding r err (clearGraceHold (b_taskId b) r s)
               in if getBinding (b_taskId b) s1 = Some r then drop_binding (b_taskId b) s1 else s1))"

definition failBindingsForAgent :: "string \<Rightarrow> terminal_error \<Rightarrow> srv \<Rightarrow> srv" where
  "failBindingsForAgent agentId err s = fold (fail_one agentId err) (map_vals (bindings s)) s"

definition failTaskBinding :: "bref \<Rightarrow> string \<Rightarrow> string \<Rightarrow> srv \<Rightarrow> srv" where
  "failTaskBinding r code msg s =
     (let t = b_taskId (objs s r)
      in if getBinding t s \<noteq> Some r then s
         else drop_binding t (failBinding r \<lparr>te_code = code, te_message = msg, te_messageIdSuffix = code\<rparr>
                (clearGraceHold t r s)))"

subsection \<open>Grace holds\<close>

definition hold_one :: "string \<Rightarrow> int option \<Rightarrow> hold_via \<Rightarrow> terminal_error \<Rightarrow> bref \<Rightarrow> srv \<Rightarrow> srv" where
  "hold_one agentId closeCode via err r s =
     (let b = objs s r
      in if b_agentId b \<noteq> agentId then s
         else if map_has (holds s) (b_taskId b) then s
         else s\<lparr>holds := map_set (b_taskId b)
                \<lparr>hd_deadline = clock s + graceMs s, hd_binding = r, hd_heldAt = clock s, hd_via = via,
                 hd_closeCode = closeCode, hd_error = err\<rparr> (holds s)\<rparr>)"

definition holdBindingsForAgent :: "string \<Rightarrow> int option \<Rightarrow> hold_via \<Rightarrow> terminal_error \<Rightarrow> srv \<Rightarrow> srv" where
  "holdBindingsForAgent agentId closeCode via err s =
     (if graceMs s \<le> 0 then failBindingsForAgent agentId err s
      else fold (hold_one agentId closeCode via err) (map_vals (bindings s)) s)"

text \<open>The timer of a hold fires.\<close>

definition grace_expired :: "string \<Rightarrow> srv \<Rightarrow> srv" where
  "grace_expired taskId s =
     (case map_of (holds s) taskId of
        None \<Rightarrow> s
      | Some h \<Rightarrow>
          (let s1 = s\<lparr>holds := map_del taskId (holds s)\<rparr>; r = hd_binding h
           in if getBinding taskId s1 \<noteq> Some r then s1
              else drop_binding taskId (failBinding r (hd_error h) s1)))"

definition resumeBinding :: "string \<Rightarrow> string \<Rightarrow> srv \<Rightarrow> srv" where
  "resumeBinding taskId agentId s =
     (case map_of (holds s) taskId of
        None \<Rightarrow> s
      | Some h \<Rightarrow>
          if b_agentId (objs s (hd_binding h)) \<noteq> agentId then s
          else if getBinding taskId s \<noteq> Some (hd_binding h) then s
          else s\<lparr>holds := map_del taskId (holds s)\<rparr>)"

subsection \<open>Agents\<close>

definition notifyAgentChange :: "string \<Rightarrow> srv \<Rightarrow> srv" where
  "notifyAgentChange agentId = emit (AgentChanged agentId)"

definition noteServerClose :: "ws \<Rightarrow> srv \<Rightarrow> srv" where
  "noteServerClose w s = s\<lparr>serverClosed := w # serverClosed s\<rparr>"

definition supports_replay :: "connection \<Rightarrow> bool" where
  "supports_replay c = caps_include (cn_protocolCapabilities c) TASK_REPLAY_CAPABILITY"

definition set_agent :: "connection \<Rightarrow> srv \<Rightarrow> srv" where
  "set_agent c s = notifyAgentChange (cn_agentId c) (s\<lparr>agents := map_set (cn_agentId c) c (agents s)\<rparr>)"

text \<open>\<open>None\<close> is success, \<open>Some\<close> the reason of a refusal.\<close>

definition registerAgent :: "connection \<Rightarrow> srv \<Rightarrow> string option \<times> srv" where
  "registerAgent conn s =
     (case getAgent (cn_agentId conn) s of
        None \<Rightarrow> (None, set_agent conn s)
      | Some existing \<Rightarrow>
          if cn_clientId existing \<noteq> cn_clientId conn
          then (Some ''agent already registered by different client'', s)
          else
            (let displacedWasCondemned = cn_ws existing \<in> set (serverClosed s);
                 s1 = close_ws (cn_ws existing) 4009 ''another client with the same token connected'' s;
                 s2 = (if displacedWasCondemned
                       then failBindingsForAgent (cn_agentId conn) DISCONNECTED_ERROR s1
                       else if supports_replay existing
                       then holdBindingsForAgent (cn_agentId conn) None Reconnect SUPERSEDED_ERROR s1
                       else failBindingsForAgent (cn_agentId conn) SUPERSEDED_ERROR s1)
             in (None, set_agent conn s2)))"

definition disconnect_one :: "string \<Rightarrow> connection \<Rightarrow> nat \<times> srv \<Rightarrow> nat \<times> srv" where
  "disconnect_one clientId conn acc =
     (if cn_clientId conn \<noteq> clientId then acc
      else (fst acc + 1, close_ws (cn_ws conn) 4014 ''client deleted'' (noteServerClose (cn_ws conn) (snd acc))))"

definition disconnectClient :: "string \<Rightarrow> srv \<Rightarrow> nat \<times> srv" where
  "disconnectClient clientId s = fold (disconnect_one clientId) (map_vals (agents s)) (0, s)"

definition unregisterAgent :: "string \<Rightarrow> ws \<Rightarrow> int option \<Rightarrow> srv \<Rightarrow> srv" where
  "unregisterAgent agentId w closeCode s =
     (case getAgent agentId s of
        None \<Rightarrow> s
      | Some existing \<Rightarrow>
          if cn_ws existing \<noteq> w then s
          else
            (let s1 = notifyAgentChange agentId (s\<lparr>agents := map_del agentId (agents s)\<rparr>)
             in if supports_replay existing \<and> isGraceableCloseCode closeCode \<and> w \<notin> set (serverClosed s)
                then holdBindingsForAgent agentId closeCode Disconnect DISCONNECTED_ERROR s1
                else failBindingsForAgent agentId DISCONNECTED_ERROR s1))"

definition updateAllowedCallers :: "string \<Rightarrow> string list \<Rightarrow> srv \<Rightarrow> srv" where
  "updateAllowedCallers agentId callers s =
     (let s1 = (case getAgent agentId s of
                  None \<Rightarrow> s
                | Some c \<Rightarrow> s\<lparr>agents := map_set agentId (c\<lparr>cn_allowedCallers := callers\<rparr>) (agents s)\<rparr>)
      in emit (CallersChanged agentId callers) s1)"

definition updateX402Pricing :: "string \<Rightarrow> x402_pricing option \<Rightarrow> srv \<Rightarrow> srv" where
  "updateX402Pricing agentId pricing s =
     (case getAgent agentId s of
        None \<Rightarrow> s
      | Some c \<Rightarrow>
          notifyAgentChange agentId
            (s\<lparr>agents := map_set agentId (c\<lparr>cn_x402Pricing := pricing\<rparr>) (agents s)\<rparr>))"

subsection \<open>Bindings\<close>

definition bindTask :: "bref \<Rightarrow> srv \<Rightarrow> bool \<times> srv" where
  "bindTask r s =
     (let b = objs s r; t = b_taskId b; set_it = (\<lambda>s. s\<lparr>bindings := map_set t r (bindings s)\<rparr>)
      in case getBinding t s of
           None \<Rightarrow> (True, set_it s)
         | Some e \<Rightarrow>
             if b_agentId (objs s e) \<noteq> b_agentId b then (False, s)
             else if e \<noteq> r
             then (True, set_it (failBinding e TASK_SUPERSEDED_ERROR (clearGraceHold t e s)))
             else (True, set_it s))"

definition unbindTask :: "string \<Rightarrow> bref \<Rightarrow> srv \<Rightarrow> srv" where
  "unbindTask taskId r s =
     (let s1 = invalidate (objs s r) s
      in if getBinding taskId s1 \<noteq> Some r then s1 else drop_binding taskId (clearGraceHold taskId r s1))"

subsection \<open>The approval timer fires\<close>

definition approval_timer :: "string \<Rightarrow> srv \<Rightarrow> srv" where
  "approval_timer rid s =
     (case map_of (entries s) rid of
        None \<Rightarrow> s
      | Some a \<Rightarrow>
          if \<not> live a s then
            clear_timer rid (s\<lparr>entries := map_del rid (entries s), origins := map_del rid (origins s)\<rparr>)
          else if \<not> undecided a then s
          else if clock s \<ge> expires_at a then
            (let a' = a\<lparr>ap_state := Expired, ap_decision := Some Deny\<rparr>;
                 s1 = clear_timer rid (deliver a' (set_approval a' s))
             in case getBinding (ap_taskId a) s1 of
                  None \<Rightarrow> s1
                | Some r \<Rightarrow>
                    failTaskBinding r ''approval_expired'' ''Remote tool approval expired''
                      (send_agent (ap_agentId a) (TaskCancel (ap_taskId a) (Some (ap_executionId a))) s1))
          else tick rid (if ap_state a = Decided then deliver a s else s))"

end
