(* ===== verification/RegistryFacts.thy ===== *)
theory RegistryFacts
  imports Registry
begin

text \<open>
  What each operation of the registry, the approvals and the sinks leaves alone, and closed
  forms of the operations that walk over all bindings of an agent.
\<close>

subsection \<open>Frames\<close>

lemma emit_frame [simp, frame_simps]:
  "clock (emit e s) = clock s"
  "graceMs (emit e s) = graceMs s"
  "agents (emit e s) = agents s"
  "bindings (emit e s) = bindings s"
  "objs (emit e s) = objs s"
  "queues (emit e s) = queues s"
  "next_ref (emit e s) = next_ref s"
  "holds (emit e s) = holds s"
  "receipts (emit e s) = receipts s"
  "serverClosed (emit e s) = serverClosed s"
  "sockOpen (emit e s) = sockOpen s"
  "entries (emit e s) = entries s"
  "timers (emit e s) = timers s"
  "origins (emit e s) = origins s"
  by (simp_all add: emit_def)

lemma send_ws_frame [simp, frame_simps]:
  "clock (send_ws w f s) = clock s"
  "graceMs (send_ws w f s) = graceMs s"
  "agents (send_ws w f s) = agents s"
  "bindings (send_ws w f s) = bindings s"
  "objs (send_ws w f s) = objs s"
  "queues (send_ws w f s) = queues s"
  "next_ref (send_ws w f s) = next_ref s"
  "holds (send_ws w f s) = holds s"
  "receipts (send_ws w f s) = receipts s"
  "serverClosed (send_ws w f s) = serverClosed s"
  "sockOpen (send_ws w f s) = sockOpen s"
  "entries (send_ws w f s) = entries s"
  "timers (send_ws w f s) = timers s"
  "origins (send_ws w f s) = origins s"
  by (simp_all add: send_ws_def)

lemma close_ws_frame [simp, frame_simps]:
  "clock (close_ws w c r s) = clock s"
  "graceMs (close_ws w c r s) = graceMs s"
  "agents (close_ws w c r s) = agents s"
  "bindings (close_ws w c r s) = bindings s"
  "objs (close_ws w c r s) = objs s"
  "queues (close_ws w c r s) = queues s"
  "next_ref (close_ws w c r s) = next_ref s"
  "holds (close_ws w c r s) = holds s"
  "receipts (close_ws w c r s) = receipts s"
  "serverClosed (close_ws w c r s) = serverClosed s"
  "entries (close_ws w c r s) = entries s"
  "timers (close_ws w c r s) = timers s"
  "origins (close_ws w c r s) = origins s"
  by (simp_all add: close_ws_def)

lemma upd_queue_frame [simp, frame_simps]:
  "clock (upd_queue r g s) = clock s"
  "graceMs (upd_queue r g s) = graceMs s"
  "agents (upd_queue r g s) = agents s"
  "bindings (upd_queue r g s) = bindings s"
  "objs (upd_queue r g s) = objs s"
  "next_ref (upd_queue r g s) = next_ref s"
  "holds (upd_queue r g s) = holds s"
  "receipts (upd_queue r g s) = receipts s"
  "serverClosed (upd_queue r g s) = serverClosed s"
  "sockOpen (upd_queue r g s) = sockOpen s"
  "entries (upd_queue r g s) = entries s"
  "timers (upd_queue r g s) = timers s"
  "origins (upd_queue r g s) = origins s"
  "effects (upd_queue r g s) = effects s"
  by (simp_all add: upd_queue_def)

lemma upd_obj_frame [simp, frame_simps]:
  "clock (upd_obj r h s) = clock s"
  "graceMs (upd_obj r h s) = graceMs s"
  "agents (upd_obj r h s) = agents s"
  "bindings (upd_obj r h s) = bindings s"
  "queues (upd_obj r h s) = queues s"
  "next_ref (upd_obj r h s) = next_ref s"
  "holds (upd_obj r h s) = holds s"
  "receipts (upd_obj r h s) = receipts s"
  "serverClosed (upd_obj r h s) = serverClosed s"
  "sockOpen (upd_obj r h s) = sockOpen s"
  "entries (upd_obj r h s) = entries s"
  "timers (upd_obj r h s) = timers s"
  "origins (upd_obj r h s) = origins s"
  "effects (upd_obj r h s) = effects s"
  by (simp_all add: upd_obj_def)

lemma pushStatus_frame [simp, frame_simps]:
  "clock (pushStatus r ev s) = clock s"
  "graceMs (pushStatus r ev s) = graceMs s"
  "agents (pushStatus r ev s) = agents s"
  "bindings (pushStatus r ev s) = bindings s"
  "objs (pushStatus r ev s) = objs s"
  "next_ref (pushStatus r ev s) = next_ref s"
  "holds (pushStatus r ev s) = holds s"
  "receipts (pushStatus r ev s) = receipts s"
  "serverClosed (pushStatus r ev s) = serverClosed s"
  "sockOpen (pushStatus r ev s) = sockOpen s"
  "entries (pushStatus r ev s) = entries s"
  "timers (pushStatus r ev s) = timers s"
  "origins (pushStatus r ev s) = origins s"
  "effects (pushStatus r ev s) = effects s"
  by (simp_all add: pushStatus_def)

lemma pushArtifact_frame [simp, frame_simps]:
  "clock (pushArtifact r av s) = clock s"
  "graceMs (pushArtifact r av s) = graceMs s"
  "agents (pushArtifact r av s) = agents s"
  "bindings (pushArtifact r av s) = bindings s"
  "objs (pushArtifact r av s) = objs s"
  "next_ref (pushArtifact r av s) = next_ref s"
  "holds (pushArtifact r av s) = holds s"
  "receipts (pushArtifact r av s) = receipts s"
  "serverClosed (pushArtifact r av s) = serverClosed s"
  "sockOpen (pushArtifact r av s) = sockOpen s"
  "entries (pushArtifact r av s) = entries s"
  "timers (pushArtifact r av s) = timers s"
  "origins (pushArtifact r av s) = origins s"
  "effects (pushArtifact r av s) = effects s"
  by (simp_all add: pushArtifact_def)

lemma finish_sink_frame [simp, frame_simps]:
  "clock (finish_sink r s) = clock s"
  "graceMs (finish_sink r s) = graceMs s"
  "agents (finish_sink r s) = agents s"
  "bindings (finish_sink r s) = bindings s"
  "objs (finish_sink r s) = objs s"
  "next_ref (finish_sink r s) = next_ref s"
  "holds (finish_sink r s) = holds s"
  "receipts (finish_sink r s) = receipts s"
  "serverClosed (finish_sink r s) = serverClosed s"
  "sockOpen (finish_sink r s) = sockOpen s"
  "entries (finish_sink r s) = entries s"
  "timers (finish_sink r s) = timers s"
  "origins (finish_sink r s) = origins s"
  "effects (finish_sink r s) = effects s"
  by (simp_all add: finish_sink_def)

lemma send_agent_frame [simp, frame_simps]:
  "clock (send_agent i f s) = clock s"
  "graceMs (send_agent i f s) = graceMs s"
  "agents (send_agent i f s) = agents s"
  "bindings (send_agent i f s) = bindings s"
  "objs (send_agent i f s) = objs s"
  "queues (send_agent i f s) = queues s"
  "next_ref (send_agent i f s) = next_ref s"
  "holds (send_agent i f s) = holds s"
  "receipts (send_agent i f s) = receipts s"
  "serverClosed (send_agent i f s) = serverClosed s"
  "sockOpen (send_agent i f s) = sockOpen s"
  "entries (send_agent i f s) = entries s"
  "timers (send_agent i f s) = timers s"
  "origins (send_agent i f s) = origins s"
  by (simp_all add: sendToAgent_def split: option.splits)

lemma clear_timer_frame [simp, frame_simps]:
  "clock (clear_timer i s) = clock s"
  "graceMs (clear_timer i s) = graceMs s"
  "agents (clear_timer i s) = agents s"
  "bindings (clear_timer i s) = bindings s"
  "objs (clear_timer i s) = objs s"
  "queues (clear_timer i s) = queues s"
  "next_ref (clear_timer i s) = next_ref s"
  "holds (clear_timer i s) = holds s"
  "receipts (clear_timer i s) = receipts s"
  "serverClosed (clear_timer i s) = serverClosed s"
  "sockOpen (clear_timer i s) = sockOpen s"
  "entries (clear_timer i s) = entries s"
  "origins (clear_timer i s) = origins s"
  "effects (clear_timer i s) = effects s"
  by (simp_all add: clear_timer_def)

lemma tick_frame [simp, frame_simps]:
  "clock (tick i s) = clock s"
  "graceMs (tick i s) = graceMs s"
  "agents (tick i s) = agents s"
  "bindings (tick i s) = bindings s"
  "objs (tick i s) = objs s"
  "queues (tick i s) = queues s"
  "next_ref (tick i s) = next_ref s"
  "holds (tick i s) = holds s"
  "receipts (tick i s) = receipts s"
  "serverClosed (tick i s) = serverClosed s"
  "sockOpen (tick i s) = sockOpen s"
  "entries (tick i s) = entries s"
  "origins (tick i s) = origins s"
  "effects (tick i s) = effects s"
  by (simp_all add: tick_def Let_def)

lemma set_approval_frame [simp, frame_simps]:
  "clock (set_approval a s) = clock s"
  "graceMs (set_approval a s) = graceMs s"
  "agents (set_approval a s) = agents s"
  "bindings (set_approval a s) = bindings s"
  "objs (set_approval a s) = objs s"
  "queues (set_approval a s) = queues s"
  "next_ref (set_approval a s) = next_ref s"
  "holds (set_approval a s) = holds s"
  "receipts (set_approval a s) = receipts s"
  "serverClosed (set_approval a s) = serverClosed s"
  "sockOpen (set_approval a s) = sockOpen s"
  "timers (set_approval a s) = timers s"
  "origins (set_approval a s) = origins s"
  "effects (set_approval a s) = effects s"
  by (simp_all add: set_approval_def)

lemma deliver_frame [simp, frame_simps]:
  "clock (deliver a s) = clock s"
  "graceMs (deliver a s) = graceMs s"
  "agents (deliver a s) = agents s"
  "bindings (deliver a s) = bindings s"
  "objs (deliver a s) = objs s"
  "queues (deliver a s) = queues s"
  "next_ref (deliver a s) = next_ref s"
  "holds (deliver a s) = holds s"
  "receipts (deliver a s) = receipts s"
  "serverClosed (deliver a s) = serverClosed s"
  "sockOpen (deliver a s) = sockOpen s"
  "entries (deliver a s) = entries s"
  "timers (deliver a s) = timers s"
  "origins (deliver a s) = origins s"
  by (simp_all add: deliver_def split: option.splits)

lemma decide_frame [simp, frame_simps]:
  "clock (snd (decide i d w v s)) = clock s"
  "graceMs (snd (decide i d w v s)) = graceMs s"
  "agents (snd (decide i d w v s)) = agents s"
  "bindings (snd (decide i d w v s)) = bindings s"
  "objs (snd (decide i d w v s)) = objs s"
  "queues (snd (decide i d w v s)) = queues s"
  "next_ref (snd (decide i d w v s)) = next_ref s"
  "holds (snd (decide i d w v s)) = holds s"
  "receipts (snd (decide i d w v s)) = receipts s"
  "serverClosed (snd (decide i d w v s)) = serverClosed s"
  "sockOpen (snd (decide i d w v s)) = sockOpen s"
  "timers (snd (decide i d w v s)) = timers s"
  "origins (snd (decide i d w v s)) = origins s"
  by (simp_all add: decide_def Let_def split: option.splits)

lemma received_frame [simp, frame_simps]:
  "clock (snd (received b i d s)) = clock s"
  "graceMs (snd (received b i d s)) = graceMs s"
  "agents (snd (received b i d s)) = agents s"
  "bindings (snd (received b i d s)) = bindings s"
  "objs (snd (received b i d s)) = objs s"
  "queues (snd (received b i d s)) = queues s"
  "next_ref (snd (received b i d s)) = next_ref s"
  "holds (snd (received b i d s)) = holds s"
  "receipts (snd (received b i d s)) = receipts s"
  "serverClosed (snd (received b i d s)) = serverClosed s"
  "sockOpen (snd (received b i d s)) = sockOpen s"
  "origins (snd (received b i d s)) = origins s"
  "effects (snd (received b i d s)) = effects s"
  by (simp_all add: received_def Let_def split: option.splits)

lemma invalidate_frame [simp, frame_simps]:
  "clock (invalidate b s) = clock s"
  "graceMs (invalidate b s) = graceMs s"
  "agents (invalidate b s) = agents s"
  "bindings (invalidate b s) = bindings s"
  "objs (invalidate b s) = objs s"
  "queues (invalidate b s) = queues s"
  "next_ref (invalidate b s) = next_ref s"
  "holds (invalidate b s) = holds s"
  "receipts (invalidate b s) = receipts s"
  "serverClosed (invalidate b s) = serverClosed s"
  "sockOpen (invalidate b s) = sockOpen s"
  "effects (invalidate b s) = effects s"
  by (simp_all add: invalidate_def Let_def)

lemma prune_frame [simp, frame_simps]:
  "clock (pruneTerminalReceipts n s) = clock s"
  "graceMs (pruneTerminalReceipts n s) = graceMs s"
  "agents (pruneTerminalReceipts n s) = agents s"
  "bindings (pruneTerminalReceipts n s) = bindings s"
  "objs (pruneTerminalReceipts n s) = objs s"
  "queues (pruneTerminalReceipts n s) = queues s"
  "next_ref (pruneTerminalReceipts n s) = next_ref s"
  "holds (pruneTerminalReceipts n s) = holds s"
  "serverClosed (pruneTerminalReceipts n s) = serverClosed s"
  "sockOpen (pruneTerminalReceipts n s) = sockOpen s"
  "entries (pruneTerminalReceipts n s) = entries s"
  "timers (pruneTerminalReceipts n s) = timers s"
  "origins (pruneTerminalReceipts n s) = origins s"
  "effects (pruneTerminalReceipts n s) = effects s"
  by (simp_all add: pruneTerminalReceipts_def)

lemma remember_frame [simp, frame_simps]:
  "clock (rememberTerminalReceipt r q s) = clock s"
  "graceMs (rememberTerminalReceipt r q s) = graceMs s"
  "agents (rememberTerminalReceipt r q s) = agents s"
  "bindings (rememberTerminalReceipt r q s) = bindings s"
  "objs (rememberTerminalReceipt r q s) = objs s"
  "queues (rememberTerminalReceipt r q s) = queues s"
  "next_ref (rememberTerminalReceipt r q s) = next_ref s"
  "holds (rememberTerminalReceipt r q s) = holds s"
  "serverClosed (rememberTerminalReceipt r q s) = serverClosed s"
  "sockOpen (rememberTerminalReceipt r q s) = sockOpen s"
  "entries (rememberTerminalReceipt r q s) = entries s"
  "timers (rememberTerminalReceipt r q s) = timers s"
  "origins (rememberTerminalReceipt r q s) = origins s"
  "effects (rememberTerminalReceipt r q s) = effects s"
  by (simp_all add: rememberTerminalReceipt_def Let_def)

lemma receipt_frame [simp, frame_simps]:
  "clock (snd (getTerminalReceipt i j k s)) = clock s"
  "graceMs (snd (getTerminalReceipt i j k s)) = graceMs s"
  "agents (snd (getTerminalReceipt i j k s)) = agents s"
  "bindings (snd (getTerminalReceipt i j k s)) = bindings s"
  "objs (snd (getTerminalReceipt i j k s)) = objs s"
  "queues (snd (getTerminalReceipt i j k s)) = queues s"
  "next_ref (snd (getTerminalReceipt i j k s)) = next_ref s"
  "holds (snd (getTerminalReceipt i j k s)) = holds s"
  "serverClosed (snd (getTerminalReceipt i j k s)) = serverClosed s"
  "sockOpen (snd (getTerminalReceipt i j k s)) = sockOpen s"
  "entries (snd (getTerminalReceipt i j k s)) = entries s"
  "timers (snd (getTerminalReceipt i j k s)) = timers s"
  "origins (snd (getTerminalReceipt i j k s)) = origins s"
  "effects (snd (getTerminalReceipt i j k s)) = effects s"
  by (simp_all add: getTerminalReceipt_def Let_def split: option.splits)

lemma failBinding_frame [simp, frame_simps]:
  "clock (failBinding r err s) = clock s"
  "graceMs (failBinding r err s) = graceMs s"
  "agents (failBinding r err s) = agents s"
  "bindings (failBinding r err s) = bindings s"
  "objs (failBinding r err s) = objs s"
  "next_ref (failBinding r err s) = next_ref s"
  "holds (failBinding r err s) = holds s"
  "receipts (failBinding r err s) = receipts s"
  "serverClosed (failBinding r err s) = serverClosed s"
  "sockOpen (failBinding r err s) = sockOpen s"
  "effects (failBinding r err s) = effects s"
  by (simp_all add: failBinding_def Let_def)

lemma clearGraceHold_frame [simp, frame_simps]:
  "clock (clearGraceHold i r s) = clock s"
  "graceMs (clearGraceHold i r s) = graceMs s"
  "agents (clearGraceHold i r s) = agents s"
  "bindings (clearGraceHold i r s) = bindings s"
  "objs (clearGraceHold i r s) = objs s"
  "queues (clearGraceHold i r s) = queues s"
  "next_ref (clearGraceHold i r s) = next_ref s"
  "receipts (clearGraceHold i r s) = receipts s"
  "serverClosed (clearGraceHold i r s) = serverClosed s"
  "sockOpen (clearGraceHold i r s) = sockOpen s"
  "entries (clearGraceHold i r s) = entries s"
  "timers (clearGraceHold i r s) = timers s"
  "origins (clearGraceHold i r s) = origins s"
  "effects (clearGraceHold i r s) = effects s"
  by (simp_all add: clearGraceHold_def split: option.splits)

lemma drop_binding_frame [simp, frame_simps]:
  "clock (drop_binding i s) = clock s"
  "graceMs (drop_binding i s) = graceMs s"
  "agents (drop_binding i s) = agents s"
  "objs (drop_binding i s) = objs s"
  "queues (drop_binding i s) = queues s"
  "next_ref (drop_binding i s) = next_ref s"
  "holds (drop_binding i s) = holds s"
  "receipts (drop_binding i s) = receipts s"
  "serverClosed (drop_binding i s) = serverClosed s"
  "sockOpen (drop_binding i s) = sockOpen s"
  "entries (drop_binding i s) = entries s"
  "timers (drop_binding i s) = timers s"
  "origins (drop_binding i s) = origins s"
  "effects (drop_binding i s) = effects s"
  by (simp_all add: drop_binding_def)

lemma fail_one_frame [simp, frame_simps]:
  "clock (fail_one i err r s) = clock s"
  "graceMs (fail_one i err r s) = graceMs s"
  "agents (fail_one i err r s) = agents s"
  "objs (fail_one i err r s) = objs s"
  "next_ref (fail_one i err r s) = next_ref s"
  "receipts (fail_one i err r s) = receipts s"
  "serverClosed (fail_one i err r s) = serverClosed s"
  "sockOpen (fail_one i err r s) = sockOpen s"
  "effects (fail_one i err r s) = effects s"
  by (simp_all add: fail_one_def Let_def)

lemma failTaskBinding_frame [simp, frame_simps]:
  "clock (failTaskBinding r c m s) = clock s"
  "graceMs (failTaskBinding r c m s) = graceMs s"
  "agents (failTaskBinding r c m s) = agents s"
  "objs (failTaskBinding r c m s) = objs s"
  "next_ref (failTaskBinding r c m s) = next_ref s"
  "receipts (failTaskBinding r c m s) = receipts s"
  "serverClosed (failTaskBinding r c m s) = serverClosed s"
  "sockOpen (failTaskBinding r c m s) = sockOpen s"
  "effects (failTaskBinding r c m s) = effects s"
  by (simp_all add: failTaskBinding_def Let_def)

lemma hold_one_frame [simp, frame_simps]:
  "clock (hold_one i cc v err r s) = clock s"
  "graceMs (hold_one i cc v err r s) = graceMs s"
  "agents (hold_one i cc v err r s) = agents s"
  "bindings (hold_one i cc v err r s) = bindings s"
  "objs (hold_one i cc v err r s) = objs s"
  "queues (hold_one i cc v err r s) = queues s"
  "next_ref (hold_one i cc v err r s) = next_ref s"
  "receipts (hold_one i cc v err r s) = receipts s"
  "serverClosed (hold_one i cc v err r s) = serverClosed s"
  "sockOpen (hold_one i cc v err r s) = sockOpen s"
  "entries (hold_one i cc v err r s) = entries s"
  "timers (hold_one i cc v err r s) = timers s"
  "origins (hold_one i cc v err r s) = origins s"
  "effects (hold_one i cc v err r s) = effects s"
  by (simp_all add: hold_one_def Let_def)

lemma grace_expired_frame [simp, frame_simps]:
  "clock (grace_expired i s) = clock s"
  "graceMs (grace_expired i s) = graceMs s"
  "agents (grace_expired i s) = agents s"
  "objs (grace_expired i s) = objs s"
  "next_ref (grace_expired i s) = next_ref s"
  "receipts (grace_expired i s) = receipts s"
  "serverClosed (grace_expired i s) = serverClosed s"
  "sockOpen (grace_expired i s) = sockOpen s"
  "effects (grace_expired i s) = effects s"
  by (simp_all add: grace_expired_def Let_def split: option.splits)

lemma resumeBinding_frame [simp, frame_simps]:
  "clock (resumeBinding i j s) = clock s"
  "graceMs (resumeBinding i j s) = graceMs s"
  "agents (resumeBinding i j s) = agents s"
  "bindings (resumeBinding i j s) = bindings s"
  "objs (resumeBinding i j s) = objs s"
  "queues (resumeBinding i j s) = queues s"
  "next_ref (resumeBinding i j s) = next_ref s"
  "receipts (resumeBinding i j s) = receipts s"
  "serverClosed (resumeBinding i j s) = serverClosed s"
  "sockOpen (resumeBinding i j s) = sockOpen s"
  "entries (resumeBinding i j s) = entries s"
  "timers (resumeBinding i j s) = timers s"
  "origins (resumeBinding i j s) = origins s"
  "effects (resumeBinding i j s) = effects s"
  by (simp_all add: resumeBinding_def split: option.splits)

lemma notify_frame [simp, frame_simps]:
  "clock (notifyAgentChange i s) = clock s"
  "graceMs (notifyAgentChange i s) = graceMs s"
  "agents (notifyAgentChange i s) = agents s"
  "bindings (notifyAgentChange i s) = bindings s"
  "objs (notifyAgentChange i s) = objs s"
  "queues (notifyAgentChange i s) = queues s"
  "next_ref (notifyAgentChange i s) = next_ref s"
  "holds (notifyAgentChange i s) = holds s"
  "receipts (notifyAgentChange i s) = receipts s"
  "serverClosed (notifyAgentChange i s) = serverClosed s"
  "sockOpen (notifyAgentChange i s) = sockOpen s"
  "entries (notifyAgentChange i s) = entries s"
  "timers (notifyAgentChange i s) = timers s"
  "origins (notifyAgentChange i s) = origins s"
  by (simp_all add: notifyAgentChange_def)

lemma noteServerClose_frame [simp, frame_simps]:
  "clock (noteServerClose w s) = clock s"
  "graceMs (noteServerClose w s) = graceMs s"
  "agents (noteServerClose w s) = agents s"
  "bindings (noteServerClose w s) = bindings s"
  "objs (noteServerClose w s) = objs s"
  "queues (noteServerClose w s) = queues s"
  "next_ref (noteServerClose w s) = next_ref s"
  "holds (noteServerClose w s) = holds s"
  "receipts (noteServerClose w s) = receipts s"
  "sockOpen (noteServerClose w s) = sockOpen s"
  "entries (noteServerClose w s) = entries s"
  "timers (noteServerClose w s) = timers s"
  "origins (noteServerClose w s) = origins s"
  "effects (noteServerClose w s) = effects s"
  by (simp_all add: noteServerClose_def)

lemma set_agent_frame [simp, frame_simps]:
  "clock (set_agent cn s) = clock s"
  "graceMs (set_agent cn s) = graceMs s"
  "bindings (set_agent cn s) = bindings s"
  "objs (set_agent cn s) = objs s"
  "queues (set_agent cn s) = queues s"
  "next_ref (set_agent cn s) = next_ref s"
  "holds (set_agent cn s) = holds s"
  "receipts (set_agent cn s) = receipts s"
  "serverClosed (set_agent cn s) = serverClosed s"
  "sockOpen (set_agent cn s) = sockOpen s"
  "entries (set_agent cn s) = entries s"
  "timers (set_agent cn s) = timers s"
  "origins (set_agent cn s) = origins s"
  by (simp_all add: set_agent_def)

lemma bindTask_frame [simp, frame_simps]:
  "clock (snd (bindTask r s)) = clock s"
  "graceMs (snd (bindTask r s)) = graceMs s"
  "agents (snd (bindTask r s)) = agents s"
  "objs (snd (bindTask r s)) = objs s"
  "next_ref (snd (bindTask r s)) = next_ref s"
  "receipts (snd (bindTask r s)) = receipts s"
  "serverClosed (snd (bindTask r s)) = serverClosed s"
  "sockOpen (snd (bindTask r s)) = sockOpen s"
  "effects (snd (bindTask r s)) = effects s"
  by (simp_all add: bindTask_def Let_def split: option.splits)

lemma unbindTask_frame [simp, frame_simps]:
  "clock (unbindTask i r s) = clock s"
  "graceMs (unbindTask i r s) = graceMs s"
  "agents (unbindTask i r s) = agents s"
  "objs (unbindTask i r s) = objs s"
  "queues (unbindTask i r s) = queues s"
  "next_ref (unbindTask i r s) = next_ref s"
  "receipts (unbindTask i r s) = receipts s"
  "serverClosed (unbindTask i r s) = serverClosed s"
  "sockOpen (unbindTask i r s) = sockOpen s"
  "effects (unbindTask i r s) = effects s"
  by (simp_all add: unbindTask_def Let_def)

lemma approval_timer_frame [simp, frame_simps]:
  "clock (approval_timer i s) = clock s"
  "graceMs (approval_timer i s) = graceMs s"
  "agents (approval_timer i s) = agents s"
  "objs (approval_timer i s) = objs s"
  "next_ref (approval_timer i s) = next_ref s"
  "receipts (approval_timer i s) = receipts s"
  "serverClosed (approval_timer i s) = serverClosed s"
  "sockOpen (approval_timer i s) = sockOpen s"
  by (simp_all add: approval_timer_def Let_def split: option.splits)

subsection \<open>Failing all streams of an agent\<close>

definition fail_queue :: "binding \<Rightarrow> terminal_error \<Rightarrow> int \<Rightarrow> task_queue \<Rightarrow> task_queue" where
  "fail_queue b err now q = q_end (q_push (StatusEvent (failed_event b err now)) q)"

lemma failBinding_queues [simp]:
  "queues (failBinding r err s) = (queues s)(r := fail_queue (objs s r) err (clock s) (queues s r))"
  by (simp add: failBinding_def Let_def sink_defs fail_queue_def)

lemma clearGraceHold_map [simp]:
  "map_of (holds (clearGraceHold t r s)) k =
     (if k = t \<and> (case map_of (holds s) t of None \<Rightarrow> False | Some h \<Rightarrow> hd_binding h = r) then None
      else map_of (holds s) k)"
  by (auto simp: clearGraceHold_def split: option.splits)

lemma clearGraceHold_keys [simp, intro]:
  "distinct (map_keys (holds s)) \<Longrightarrow> distinct (map_keys (holds (clearGraceHold t r s)))"
  by (auto simp: clearGraceHold_def split: option.splits)

lemma drop_binding_bindings [simp]: "bindings (drop_binding t s) = map_del t (bindings s)"
  by (simp add: drop_binding_def)

lemma fail_one_queues:
  "queues (fail_one i err r s) =
     (if b_agentId (objs s r) = i
      then (queues s)(r := fail_queue (objs s r) err (clock s) (queues s r)) else queues s)"
  by (simp add: fail_one_def Let_def)

lemma fail_one_bindings:
  "bindings (fail_one i err r s) =
     (if b_agentId (objs s r) = i \<and> map_of (bindings s) (b_taskId (objs s r)) = Some r
      then map_del (b_taskId (objs s r)) (bindings s) else bindings s)"
  by (simp add: fail_one_def Let_def getBinding_def)

lemma fail_one_holds:
  "holds (fail_one i err r s) =
     (if b_agentId (objs s r) = i then holds (clearGraceHold (b_taskId (objs s r)) r s) else holds s)"
  by (simp add: fail_one_def Let_def)

lemma fold_fail_frame [simp]:
  "clock (fold (fail_one i err) rs s) = clock s"
  "graceMs (fold (fail_one i err) rs s) = graceMs s"
  "agents (fold (fail_one i err) rs s) = agents s"
  "objs (fold (fail_one i err) rs s) = objs s"
  "next_ref (fold (fail_one i err) rs s) = next_ref s"
  "receipts (fold (fail_one i err) rs s) = receipts s"
  "serverClosed (fold (fail_one i err) rs s) = serverClosed s"
  "sockOpen (fold (fail_one i err) rs s) = sockOpen s"
  "effects (fold (fail_one i err) rs s) = effects s"
  by (induction rs arbitrary: s) simp_all

lemma failAgent_frame [simp, frame_simps]:
  "clock (failBindingsForAgent i err s) = clock s"
  "graceMs (failBindingsForAgent i err s) = graceMs s"
  "agents (failBindingsForAgent i err s) = agents s"
  "objs (failBindingsForAgent i err s) = objs s"
  "next_ref (failBindingsForAgent i err s) = next_ref s"
  "receipts (failBindingsForAgent i err s) = receipts s"
  "serverClosed (failBindingsForAgent i err s) = serverClosed s"
  "sockOpen (failBindingsForAgent i err s) = sockOpen s"
  "effects (failBindingsForAgent i err s) = effects s"
  by (simp_all add: failBindingsForAgent_def)

lemma fold_fail_queues:
  "distinct rs \<Longrightarrow>
   queues (fold (fail_one i err) rs s) r =
     (if r \<in> set rs \<and> b_agentId (objs s r) = i
      then fail_queue (objs s r) err (clock s) (queues s r) else queues s r)"
  by (induction rs arbitrary: s) (auto simp: fail_one_queues)

lemma fold_fail_bindings:
  "map_of (bindings (fold (fail_one i err) rs s)) t =
     (case map_of (bindings s) t of
        None \<Rightarrow> None
      | Some r \<Rightarrow> if r \<in> set rs \<and> b_agentId (objs s r) = i \<and> b_taskId (objs s r) = t then None else Some r)"
proof (induction rs arbitrary: s)
  case (Cons x rs)
  show ?case
    by (simp only: fold_Cons comp_apply Cons) (auto simp: fail_one_bindings split: option.splits)
qed (simp split: option.splits)

lemma fold_fail_holds:
  "map_of (holds (fold (fail_one i err) rs s)) t =
     (case map_of (holds s) t of
        None \<Rightarrow> None
      | Some h \<Rightarrow>
          if hd_binding h \<in> set rs \<and> b_agentId (objs s (hd_binding h)) = i \<and> b_taskId (objs s (hd_binding h)) = t
          then None else Some h)"
proof (induction rs arbitrary: s)
  case (Cons x rs)
  show ?case
    by (simp only: fold_Cons comp_apply Cons) (auto simp: fail_one_holds split: option.splits)
qed (simp split: option.splits)

lemma fold_fail_keys:
  "distinct (map_keys (bindings s)) \<Longrightarrow> distinct (map_keys (bindings (fold (fail_one i err) rs s)))"
  "distinct (map_keys (holds s)) \<Longrightarrow> distinct (map_keys (holds (fold (fail_one i err) rs s)))"
  by (induction rs arbitrary: s) (simp_all add: fail_one_bindings fail_one_holds)

subsection \<open>Holding all streams of an agent\<close>

lemma fold_hold_frame [simp]:
  "clock (fold (hold_one i cc v err) rs s) = clock s"
  "graceMs (fold (hold_one i cc v err) rs s) = graceMs s"
  "agents (fold (hold_one i cc v err) rs s) = agents s"
  "bindings (fold (hold_one i cc v err) rs s) = bindings s"
  "objs (fold (hold_one i cc v err) rs s) = objs s"
  "queues (fold (hold_one i cc v err) rs s) = queues s"
  "next_ref (fold (hold_one i cc v err) rs s) = next_ref s"
  "receipts (fold (hold_one i cc v err) rs s) = receipts s"
  "serverClosed (fold (hold_one i cc v err) rs s) = serverClosed s"
  "sockOpen (fold (hold_one i cc v err) rs s) = sockOpen s"
  "entries (fold (hold_one i cc v err) rs s) = entries s"
  "timers (fold (hold_one i cc v err) rs s) = timers s"
  "origins (fold (hold_one i cc v err) rs s) = origins s"
  "effects (fold (hold_one i cc v err) rs s) = effects s"
  by (induction rs arbitrary: s) simp_all

definition new_hold :: "int option \<Rightarrow> hold_via \<Rightarrow> terminal_error \<Rightarrow> bref \<Rightarrow> srv \<Rightarrow> grace_hold" where
  "new_hold cc v err r s =
     \<lparr>hd_deadline = clock s + graceMs s, hd_binding = r, hd_heldAt = clock s, hd_via = v,
      hd_closeCode = cc, hd_error = err\<rparr>"

lemma hold_one_holds:
  "holds (hold_one i cc v err r s) =
     (if b_agentId (objs s r) = i \<and> map_of (holds s) (b_taskId (objs s r)) = None
      then map_set (b_taskId (objs s r)) (new_hold cc v err r s) (holds s) else holds s)"
  by (simp add: hold_one_def Let_def new_hold_def)

lemma new_hold_frame [simp]: "new_hold cc v err r (hold_one i cc' v' err' r' s) = new_hold cc v err r s"
  by (simp add: new_hold_def)

lemma fold_hold_holds:
  assumes "\<And>r r'. r \<in> set rs \<Longrightarrow> r' \<in> set rs \<Longrightarrow> b_taskId (objs s r) = b_taskId (objs s r') \<Longrightarrow> r = r'"
  shows "map_of (holds (fold (hold_one i cc v err) rs s)) t =
     (case map_of (holds s) t of
        Some h \<Rightarrow> Some h
      | None \<Rightarrow> map_option (\<lambda>r. new_hold cc v err r s)
                 (List.find (\<lambda>r. b_taskId (objs s r) = t \<and> b_agentId (objs s r) = i) rs))"
  using assms
proof (induction rs arbitrary: s)
  case (Cons x rs)
  have "map_of (holds (fold (hold_one i cc v err) rs (hold_one i cc v err x s))) t =
    (case map_of (holds (hold_one i cc v err x s)) t of
        Some h \<Rightarrow> Some h
      | None \<Rightarrow> map_option (\<lambda>r. new_hold cc v err r s)
                 (List.find (\<lambda>r. b_taskId (objs s r) = t \<and> b_agentId (objs s r) = i) rs))"
    using Cons.IH [of "hold_one i cc v err x s"] Cons.prems by (simp cong: option.case_cong)
  then show ?case by (auto simp: hold_one_holds split: option.splits)
qed (simp split: option.splits)

lemma fold_hold_keys:
  "distinct (map_keys (holds s)) \<Longrightarrow> distinct (map_keys (holds (fold (hold_one i cc v err) rs s)))"
  by (induction rs arbitrary: s) (simp_all add: hold_one_holds)

lemma holdAgent_frame [simp, frame_simps]:
  "clock (holdBindingsForAgent i cc v err s) = clock s"
  "graceMs (holdBindingsForAgent i cc v err s) = graceMs s"
  "agents (holdBindingsForAgent i cc v err s) = agents s"
  "objs (holdBindingsForAgent i cc v err s) = objs s"
  "next_ref (holdBindingsForAgent i cc v err s) = next_ref s"
  "receipts (holdBindingsForAgent i cc v err s) = receipts s"
  "serverClosed (holdBindingsForAgent i cc v err s) = serverClosed s"
  "sockOpen (holdBindingsForAgent i cc v err s) = sockOpen s"
  "effects (holdBindingsForAgent i cc v err s) = effects s"
  by (simp_all add: holdBindingsForAgent_def)

end
