(* ===== verification/ServerInv.thy ===== *)
theory ServerInv
  imports RegistryFacts
begin

text \<open>
  The invariants of the registry, one per part of its state: the bindings and their grace
  holds, the queues, the approvals, the receipts and the agents. Every operation keeps each.
\<close>

subsection \<open>Bindings and holds\<close>

definition bind_inv :: "srv \<Rightarrow> bool" where
  "bind_inv s \<longleftrightarrow>
     distinct (map_keys (bindings s)) \<and> distinct (map_keys (holds s)) \<and>
     (\<forall>t r. map_of (bindings s) t = Some r \<longrightarrow> b_taskId (objs s r) = t \<and> r < next_ref s) \<and>
     (\<forall>t h. map_of (holds s) t = Some h \<longrightarrow> map_of (bindings s) t = Some (hd_binding h))"

definition bound :: "bref \<Rightarrow> srv \<Rightarrow> bool" where
  "bound r s \<longleftrightarrow> getBinding (b_taskId (objs s r)) s = Some r"

lemma bind_invI:
  assumes "distinct (map_keys (bindings s))" and "distinct (map_keys (holds s))"
    and "\<And>t r. map_of (bindings s) t = Some r \<Longrightarrow> b_taskId (objs s r) = t \<and> r < next_ref s"
    and "\<And>t h. map_of (holds s) t = Some h \<Longrightarrow> map_of (bindings s) t = Some (hd_binding h)"
  shows "bind_inv s"
  using assms by (simp add: bind_inv_def)

lemma bind_inv_D:
  assumes "bind_inv s"
  shows "distinct (map_keys (bindings s))" "distinct (map_keys (holds s))"
    "\<And>t r. map_of (bindings s) t = Some r \<Longrightarrow> b_taskId (objs s r) = t"
    "\<And>t r. map_of (bindings s) t = Some r \<Longrightarrow> r < next_ref s"
    "\<And>t h. map_of (holds s) t = Some h \<Longrightarrow> map_of (bindings s) t = Some (hd_binding h)"
  using assms by (auto simp: bind_inv_def)

lemma bind_inv_cong:
  "bindings t = bindings s \<Longrightarrow> holds t = holds s \<Longrightarrow> objs t = objs s \<Longrightarrow> next_ref t = next_ref s \<Longrightarrow>
   bind_inv t = bind_inv s"
  by (simp add: bind_inv_def)

definition refs :: "srv \<Rightarrow> bref list" where
  "refs s = map_vals (bindings s)"

lemma mem_refs: "bind_inv s \<Longrightarrow> r \<in> set (refs s) \<longleftrightarrow> (\<exists>t. map_of (bindings s) t = Some r)"
  unfolding refs_def by (rule mem_vals [OF bind_inv_D(1)])

lemma bound_refs: "bind_inv s \<Longrightarrow> r \<in> set (refs s) \<longleftrightarrow> bound r s"
  by (auto simp: mem_refs bound_def getBinding_def bind_inv_D(3))

lemma distinct_refs: "bind_inv s \<Longrightarrow> distinct (refs s)"
proof -
  assume i: "bind_inv s"
  have "inj_on snd (set (bindings s))"
  proof (rule inj_onI)
    fix x y
    assume xy: "x \<in> set (bindings s)" "y \<in> set (bindings s)" "snd x = snd y"
    have "map_of (bindings s) (fst x) = Some (snd x)" "map_of (bindings s) (fst y) = Some (snd y)"
      using xy map_of_mem [OF bind_inv_D(1) [OF i]] by (metis prod.collapse)+
    with xy bind_inv_D(3) [OF i] show "x = y" by (metis prod_eqI)
  qed
  then show ?thesis
    using bind_inv_D(1) [OF i] by (simp add: distinct_map refs_def)
qed

lemma refs_inj:
  "bind_inv s \<Longrightarrow> r \<in> set (refs s) \<Longrightarrow> r' \<in> set (refs s) \<Longrightarrow>
   b_taskId (objs s r) = b_taskId (objs s r') \<Longrightarrow> r = r'"
  by (simp add: bound_refs) (simp add: bound_def)

subsection \<open>Closed forms under the invariant\<close>

lemma failAgent_bindings:
  assumes i: "bind_inv s"
  shows "map_of (bindings (failBindingsForAgent i err s)) t =
     (case map_of (bindings s) t of
        None \<Rightarrow> None | Some r \<Rightarrow> if b_agentId (objs s r) = i then None else Some r)"
proof (cases "map_of (bindings s) t")
  case (Some r)
  with i have "r \<in> set (refs s)" "b_taskId (objs s r) = t"
    by (auto simp: mem_refs bind_inv_D(3))
  with Some show ?thesis
    unfolding failBindingsForAgent_def fold_fail_bindings refs_def [symmetric] by simp
qed (simp add: failBindingsForAgent_def fold_fail_bindings)

lemma failAgent_queues:
  "bind_inv s \<Longrightarrow> queues (failBindingsForAgent i err s) r =
     (if bound r s \<and> b_agentId (objs s r) = i
      then fail_queue (objs s r) err (clock s) (queues s r) else queues s r)"
  unfolding failBindingsForAgent_def refs_def [symmetric] by (simp add: fold_fail_queues distinct_refs bound_refs)

lemma failAgent_holds:
  assumes i: "bind_inv s"
  shows "map_of (holds (failBindingsForAgent i err s)) t =
     (case map_of (holds s) t of
        None \<Rightarrow> None | Some h \<Rightarrow> if b_agentId (objs s (hd_binding h)) = i then None else Some h)"
proof (cases "map_of (holds s) t")
  case (Some h)
  with i have "map_of (bindings s) t = Some (hd_binding h)" by (rule bind_inv_D(5))
  with i have "hd_binding h \<in> set (refs s)" "b_taskId (objs s (hd_binding h)) = t"
    by (auto simp: mem_refs bind_inv_D(3))
  with Some show ?thesis
    unfolding failBindingsForAgent_def fold_fail_holds refs_def [symmetric] by simp
qed (simp add: failBindingsForAgent_def fold_fail_holds)

lemma holdAgent_holds:
  assumes i: "bind_inv s" and g: "graceMs s > 0"
  shows "map_of (holds (holdBindingsForAgent i cc v err s)) t =
     (case map_of (holds s) t of
        Some h \<Rightarrow> Some h
      | None \<Rightarrow>
          (case map_of (bindings s) t of
             None \<Rightarrow> None
           | Some r \<Rightarrow> if b_agentId (objs s r) = i then Some (new_hold cc v err r s) else None))"
proof -
  have "List.find (\<lambda>r. b_taskId (objs s r) = t \<and> b_agentId (objs s r) = i) (refs s) =
    (case map_of (bindings s) t of
       None \<Rightarrow> None | Some r \<Rightarrow> if b_agentId (objs s r) = i then Some r else None)"
    (is "List.find ?P _ = _")
  proof (cases "map_of (bindings s) t")
    case None
    then have "\<not> ?P r" if "r \<in> set (refs s)" for r
      using that i by (auto simp: mem_refs bind_inv_D(3))
    then show ?thesis using None by (simp add: find_None_iff)
  next
    case (Some r0)
    with i have r0: "r0 \<in> set (refs s)" "b_taskId (objs s r0) = t"
      by (auto simp: mem_refs bind_inv_D(3))
    have u: "r = r0" if "r \<in> set (refs s)" "?P r" for r
      using refs_inj [OF i that(1) r0(1)] that(2) r0(2) by simp
    show ?thesis
    proof (cases "b_agentId (objs s r0) = i")
      case True
      with r0 have "List.find ?P (refs s) \<noteq> None" by (auto simp: find_None_iff)
      then obtain r where r: "List.find ?P (refs s) = Some r" by blast
      from find_Some_D [OF r] have "r = r0" by (intro u) auto
      with r Some True show ?thesis by simp
    next
      case False
      then have "\<not> ?P r" if "r \<in> set (refs s)" for r using u [OF that] by auto
      then show ?thesis using Some False by (simp add: find_None_iff)
    qed
  qed
  moreover have "map_of (holds (holdBindingsForAgent i cc v err s)) t =
     (case map_of (holds s) t of
        Some h \<Rightarrow> Some h
      | None \<Rightarrow> map_option (\<lambda>r. new_hold cc v err r s)
                 (List.find (\<lambda>r. b_taskId (objs s r) = t \<and> b_agentId (objs s r) = i) (refs s)))"
    unfolding holdBindingsForAgent_def refs_def [symmetric] using g refs_inj [OF i]
    by (simp add: fold_hold_holds)
  ultimately show ?thesis by (simp split: option.splits)
qed

lemma holdAgent_pos [simp]:
  "graceMs s > 0 \<Longrightarrow> bindings (holdBindingsForAgent i cc v err s) = bindings s"
  "graceMs s > 0 \<Longrightarrow> queues (holdBindingsForAgent i cc v err s) = queues s"
  "graceMs s > 0 \<Longrightarrow> entries (holdBindingsForAgent i cc v err s) = entries s"
  "graceMs s > 0 \<Longrightarrow> timers (holdBindingsForAgent i cc v err s) = timers s"
  "graceMs s > 0 \<Longrightarrow> origins (holdBindingsForAgent i cc v err s) = origins s"
  by (simp_all add: holdBindingsForAgent_def)

lemma holdAgent_off:
  "graceMs s \<le> 0 \<Longrightarrow> holdBindingsForAgent i cc v err s = failBindingsForAgent i err s"
  by (simp add: holdBindingsForAgent_def)

subsection \<open>Bindings and holds: every operation keeps the invariant\<close>

lemma bind_inv_upd [simp]:
  "bind_inv (emit e s) = bind_inv s" "bind_inv (send_ws w f s) = bind_inv s"
  "bind_inv (close_ws w c rs s) = bind_inv s" "bind_inv (upd_queue r g s) = bind_inv s"
  "bind_inv (pushStatus r ev s) = bind_inv s" "bind_inv (pushArtifact r av s) = bind_inv s"
  "bind_inv (finish_sink r s) = bind_inv s" "bind_inv (send_agent i f s) = bind_inv s"
  "bind_inv (clear_timer i s) = bind_inv s" "bind_inv (tick i s) = bind_inv s"
  "bind_inv (set_approval a s) = bind_inv s" "bind_inv (deliver a s) = bind_inv s"
  "bind_inv (snd (decide i d w' v s)) = bind_inv s" "bind_inv (snd (received b i d s)) = bind_inv s"
  "bind_inv (invalidate b s) = bind_inv s" "bind_inv (pruneTerminalReceipts n s) = bind_inv s"
  "bind_inv (rememberTerminalReceipt r q s) = bind_inv s" "bind_inv (snd (getTerminalReceipt i j k s)) = bind_inv s"
  "bind_inv (failBinding r err s) = bind_inv s" "bind_inv (notifyAgentChange i s) = bind_inv s"
  "bind_inv (noteServerClose w s) = bind_inv s" "bind_inv (set_agent cn s) = bind_inv s"
  by (rule bind_inv_cong; simp)+

lemma bind_inv_fields [simp]:
  "bind_inv (s\<lparr>agents := ag\<rparr>) = bind_inv s" "bind_inv (s\<lparr>entries := en\<rparr>) = bind_inv s"
  "bind_inv (s\<lparr>origins := og\<rparr>) = bind_inv s" "bind_inv (s\<lparr>timers := ti\<rparr>) = bind_inv s"
  "bind_inv (s\<lparr>clock := ck\<rparr>) = bind_inv s" "bind_inv (s\<lparr>sockOpen := so\<rparr>) = bind_inv s"
  by (rule bind_inv_cong; simp)+

lemma bind_inv_upd_obj [simp]:
  assumes "\<And>b. b_taskId (h b) = b_taskId b"
  shows "bind_inv (upd_obj r h s) = bind_inv s"
proof -
  have "b_taskId (objs (upd_obj r h s) r') = b_taskId (objs s r')" for r'
    using assms by (simp add: upd_obj_def)
  then show ?thesis by (simp add: bind_inv_def)
qed

lemma bind_inv_failAgent [inv_intros]: "bind_inv s \<Longrightarrow> bind_inv (failBindingsForAgent i err s)"
proof (rule bind_invI)
  assume i: "bind_inv s"
  show "distinct (map_keys (bindings (failBindingsForAgent i err s)))"
    "distinct (map_keys (holds (failBindingsForAgent i err s)))"
    using i by (simp_all add: failBindingsForAgent_def fold_fail_keys bind_inv_D)
  show "b_taskId (objs (failBindingsForAgent i err s) r) = t \<and> r < next_ref (failBindingsForAgent i err s)"
    if "map_of (bindings (failBindingsForAgent i err s)) t = Some r" for t r
    using that bind_inv_D [OF i] by (simp add: failAgent_bindings i split: option.splits if_splits)
  show "map_of (bindings (failBindingsForAgent i err s)) t = Some (hd_binding h)"
    if "map_of (holds (failBindingsForAgent i err s)) t = Some h" for t h
    using that bind_inv_D(5) [OF i, of t]
    by (auto simp: failAgent_bindings failAgent_holds i split: option.splits if_splits)
qed

lemma bind_inv_holdAgent [inv_intros]: "bind_inv s \<Longrightarrow> bind_inv (holdBindingsForAgent i cc v err s)"
proof (cases "graceMs s > 0")
  case True
  assume i: "bind_inv s"
  show ?thesis
  proof (rule bind_invI)
    show "distinct (map_keys (bindings (holdBindingsForAgent i cc v err s)))"
      "distinct (map_keys (holds (holdBindingsForAgent i cc v err s)))"
      using i True by (simp_all add: bind_inv_D) (simp add: holdBindingsForAgent_def fold_hold_keys bind_inv_D)
    show "b_taskId (objs (holdBindingsForAgent i cc v err s) r) = t \<and> r < next_ref (holdBindingsForAgent i cc v err s)"
      if "map_of (bindings (holdBindingsForAgent i cc v err s)) t = Some r" for t r
      using that bind_inv_D [OF i] True by simp
    show "map_of (bindings (holdBindingsForAgent i cc v err s)) t = Some (hd_binding h)"
      if "map_of (holds (holdBindingsForAgent i cc v err s)) t = Some h" for t h
      using that bind_inv_D [OF i] True
      by (auto simp: holdAgent_holds i new_hold_def split: option.splits if_splits)
  qed
qed (simp add: holdAgent_off bind_inv_failAgent)

text \<open>Clearing the hold of a binding and dropping it, the end of every binding.\<close>

lemma bind_inv_drop [inv_intros]:
  assumes i: "bind_inv s" and r: "map_of (bindings s) t = Some r"
  shows "bind_inv (drop_binding t (clearGraceHold t r s))"
proof (rule bind_invI)
  show "distinct (map_keys (bindings (drop_binding t (clearGraceHold t r s))))"
    "distinct (map_keys (holds (drop_binding t (clearGraceHold t r s))))"
    using i by (auto simp: bind_inv_D)
  show "b_taskId (objs (drop_binding t (clearGraceHold t r s)) r') = t' \<and>
      r' < next_ref (drop_binding t (clearGraceHold t r s))"
    if "map_of (bindings (drop_binding t (clearGraceHold t r s))) t' = Some r'" for t' r'
    using that bind_inv_D [OF i] by (simp split: if_splits)
  show "map_of (bindings (drop_binding t (clearGraceHold t r s))) t' = Some (hd_binding h)"
    if "map_of (holds (drop_binding t (clearGraceHold t r s))) t' = Some h" for t' h
    using that bind_inv_D(5) [OF i, of t' h] r by (auto split: if_splits option.splits)
qed

lemma bind_inv_clear [inv_intros]: "bind_inv s \<Longrightarrow> bind_inv (s\<lparr>holds := map_del t (holds s)\<rparr>)"
  by (auto simp: bind_inv_def split: if_splits)

lemma bind_inv_drop_cleared [inv_intros]:
  "bind_inv s \<Longrightarrow> map_of (holds s) t = None \<Longrightarrow> bind_inv (drop_binding t s)"
  by (auto simp: bind_inv_def split: if_splits)

lemma bind_inv_clearGraceHold [inv_intros]: "bind_inv s \<Longrightarrow> bind_inv (clearGraceHold t r s)"
  by (auto simp: clearGraceHold_def bind_inv_clear split: option.splits)

lemma bind_inv_resume [inv_intros]: "bind_inv s \<Longrightarrow> bind_inv (resumeBinding t i s)"
  by (auto simp: resumeBinding_def bind_inv_clear split: option.splits)

lemma clear_after_fail:
  "clearGraceHold t r (failBinding r' err s) = failBinding r' err (clearGraceHold t r s)"
  by (simp add: clearGraceHold_def failBinding_def Let_def invalidate_def sink_defs split: option.splits)

lemma drop_after_fail: "drop_binding t (failBinding r' err s) = failBinding r' err (drop_binding t s)"
  by (simp add: drop_binding_def failBinding_def Let_def invalidate_def sink_defs)

lemma bind_inv_failTask [inv_intros]: "bind_inv s \<Longrightarrow> bind_inv (failTaskBinding r c m s)"
  by (simp add: failTaskBinding_def Let_def drop_after_fail getBinding_def bind_inv_drop)

lemma bind_inv_grace_expired [inv_intros]: "bind_inv s \<Longrightarrow> bind_inv (grace_expired t s)"
  by (auto simp: grace_expired_def Let_def drop_after_fail bind_inv_clear bind_inv_drop_cleared split: option.splits)

lemma bind_inv_unbind [inv_intros]: "bind_inv s \<Longrightarrow> bind_inv (unbindTask t r s)"
  by (simp add: unbindTask_def Let_def getBinding_def bind_inv_drop)

lemma bind_inv_bind [inv_intros]:
  assumes i: "bind_inv s" and r: "r < next_ref s"
  shows "bind_inv (snd (bindTask r s))"
proof -
  let ?t = "b_taskId (objs s r)"
  have set_it: "bind_inv (s'\<lparr>bindings := map_set ?t r (bindings s)\<rparr>)"
    if "bind_inv s'" "bindings s' = bindings s" "objs s' = objs s" "next_ref s' = next_ref s"
      "\<And>h. map_of (holds s') ?t = Some h \<Longrightarrow> hd_binding h = r" for s'
    using that r by (auto simp: bind_inv_def split: if_splits)
  show ?thesis
  proof (cases "getBinding ?t s")
    case None
    then have "map_of (holds s) ?t = None"
      using bind_inv_D(5) [OF i, of ?t] by (cases "map_of (holds s) ?t") (auto simp: getBinding_def)
    then have "bind_inv (s\<lparr>bindings := map_set ?t r (bindings s)\<rparr>)"
      using i by (intro set_it) simp_all
    with None show ?thesis by (simp add: bindTask_def Let_def)
  next
    case (Some e)
    have "hd_binding h = e" if "map_of (holds s) ?t = Some h" for h
      using bind_inv_D(5) [OF i that] Some by (simp add: getBinding_def)
    then show ?thesis
      using Some i by (auto simp: bindTask_def Let_def bind_inv_clearGraceHold intro!: set_it split: option.splits if_splits)
  qed
qed

lemma bind_inv_approval_timer [inv_intros]: "bind_inv s \<Longrightarrow> bind_inv (approval_timer rid s)"
  by (auto simp: approval_timer_def Let_def bind_inv_failTask split: option.splits)

lemma bind_inv_register [inv_intros]: "bind_inv s \<Longrightarrow> bind_inv (snd (registerAgent cn s))"
  by (auto simp: registerAgent_def Let_def bind_inv_failAgent bind_inv_holdAgent split: option.splits)

lemma bind_inv_unregister [inv_intros]: "bind_inv s \<Longrightarrow> bind_inv (unregisterAgent i w cc s)"
  by (auto simp: unregisterAgent_def Let_def bind_inv_failAgent bind_inv_holdAgent split: option.splits)

lemma bind_inv_disconnect [inv_intros]: "bind_inv s \<Longrightarrow> bind_inv (snd (disconnectClient ci s))"
  unfolding disconnectClient_def
  by (rule fold_invariant [where Q = "\<lambda>_. True" and P = "\<lambda>acc. bind_inv (snd acc)"])
    (auto simp: disconnect_one_def)

lemma bind_inv_callers [inv_intros]: "bind_inv s \<Longrightarrow> bind_inv (updateAllowedCallers i cs s)"
  by (simp add: updateAllowedCallers_def Let_def split: option.split)

lemma bind_inv_pricing [inv_intros]: "bind_inv s \<Longrightarrow> bind_inv (updateX402Pricing i p s)"
  by (simp add: updateX402Pricing_def split: option.split)

end
