(* ===== verification/Streams.thy ===== *)
theory Streams
  imports ServerInv
begin

text \<open>
  The streams behind the bindings. A caller reads a queue until it is closed, so a binding that
  leaves the registry with an open queue would leave its caller waiting for ever. \<open>closes s t\<close>
  is what every operation but the executor's own \<open>unbindTask\<close> satisfies: closed queues stay
  closed and a binding that is gone afterwards has a closed queue.
\<close>

subsection \<open>Queues stay well formed\<close>

definition queue_inv :: "srv \<Rightarrow> bool" where
  "queue_inv s \<longleftrightarrow> (\<forall>r. q_inv (queues s r))"

lemma queue_inv_cong: "queues t = queues s \<Longrightarrow> queue_inv t = queue_inv s"
  by (simp add: queue_inv_def)

lemma fail_queue_inv [simp]: "q_inv q \<Longrightarrow> q_inv (fail_queue b err now q)"
  and fail_queue_open [simp]: "\<not> q_open (fail_queue b err now q)"
  and fail_queue_content [simp]: "q_inv q \<Longrightarrow>
    q_content (fail_queue b err now q) =
      (if q_open q then q_content q @ [StatusEvent (failed_event b err now)] else q_content q)"
  by (simp_all add: fail_queue_def)

lemma queue_inv_same [simp]:
  "queue_inv (emit e s) = queue_inv s" "queue_inv (send_ws w f s) = queue_inv s"
  "queue_inv (close_ws w c rs s) = queue_inv s" "queue_inv (upd_obj r h s) = queue_inv s"
  "queue_inv (send_agent i f s) = queue_inv s" "queue_inv (clear_timer i s) = queue_inv s"
  "queue_inv (tick i s) = queue_inv s" "queue_inv (set_approval a s) = queue_inv s"
  "queue_inv (deliver a s) = queue_inv s" "queue_inv (snd (decide i d w' v s)) = queue_inv s"
  "queue_inv (snd (received b i d s)) = queue_inv s" "queue_inv (invalidate b s) = queue_inv s"
  "queue_inv (rememberTerminalReceipt r q s) = queue_inv s"
  "queue_inv (snd (getTerminalReceipt i j k s)) = queue_inv s"
  "queue_inv (clearGraceHold i r s) = queue_inv s" "queue_inv (drop_binding i s) = queue_inv s"
  "queue_inv (resumeBinding i j s) = queue_inv s" "queue_inv (notifyAgentChange i s) = queue_inv s"
  "queue_inv (noteServerClose w s) = queue_inv s" "queue_inv (set_agent cn s) = queue_inv s"
  "queue_inv (unbindTask i r s) = queue_inv s"
  by (rule queue_inv_cong; simp)+

lemma queue_inv_fields [simp]:
  "queue_inv (s\<lparr>agents := ag\<rparr>) = queue_inv s" "queue_inv (s\<lparr>entries := en\<rparr>) = queue_inv s"
  "queue_inv (s\<lparr>bindings := bs\<rparr>) = queue_inv s" "queue_inv (s\<lparr>holds := hs\<rparr>) = queue_inv s"
  "queue_inv (s\<lparr>origins := og\<rparr>) = queue_inv s" "queue_inv (s\<lparr>clock := ck\<rparr>) = queue_inv s"
  by (rule queue_inv_cong; simp)+

lemma queue_inv_upd [inv_intros]: "queue_inv s \<Longrightarrow> (\<And>q. q_inv q \<Longrightarrow> q_inv (g q)) \<Longrightarrow> queue_inv (upd_queue r g s)"
  by (simp add: queue_inv_def upd_queue_def)

lemma queue_inv_sinks [inv_intros]:
  "queue_inv s \<Longrightarrow> queue_inv (pushStatus r e s)" "queue_inv s \<Longrightarrow> queue_inv (pushArtifact r a s)"
  "queue_inv s \<Longrightarrow> queue_inv (finish_sink r s)" "queue_inv s \<Longrightarrow> queue_inv (failBinding r err s)"
  by (simp_all add: sink_defs queue_inv_def)

lemma queue_inv_fail_one [inv_intros]: "queue_inv s \<Longrightarrow> queue_inv (fail_one i err r s)"
  by (simp add: queue_inv_def fail_one_queues)

lemma queue_inv_failAgent [inv_intros]: "queue_inv s \<Longrightarrow> queue_inv (failBindingsForAgent i err s)"
  unfolding failBindingsForAgent_def
  by (rule fold_invariant [where Q = "\<lambda>_. True"]) (auto intro: queue_inv_fail_one)

lemma queue_inv_holdAgent [inv_intros]: "queue_inv s \<Longrightarrow> queue_inv (holdBindingsForAgent i cc v err s)"
  by (simp add: holdBindingsForAgent_def queue_inv_failAgent) (simp add: queue_inv_def)

lemma queue_inv_ops [inv_intros]:
  "queue_inv s \<Longrightarrow> queue_inv (failTaskBinding r c m s)"
  "queue_inv s \<Longrightarrow> queue_inv (grace_expired t s)"
  "queue_inv s \<Longrightarrow> queue_inv (snd (bindTask r s))"
  "queue_inv s \<Longrightarrow> queue_inv (snd (registerAgent cn s))"
  "queue_inv s \<Longrightarrow> queue_inv (unregisterAgent i w cc s)"
  by (auto simp: failTaskBinding_def grace_expired_def bindTask_def registerAgent_def unregisterAgent_def Let_def
      intro!: queue_inv_sinks queue_inv_failAgent queue_inv_holdAgent split: option.splits)

lemma queue_inv_approval_timer [inv_intros]: "queue_inv s \<Longrightarrow> queue_inv (approval_timer rid s)"
  by (auto simp: approval_timer_def Let_def intro!: queue_inv_ops split: option.splits)

lemma queue_inv_disconnect [inv_intros]: "queue_inv s \<Longrightarrow> queue_inv (snd (disconnectClient ci s))"
  unfolding disconnectClient_def
  by (rule fold_invariant [where Q = "\<lambda>_. True" and P = "\<lambda>acc. queue_inv (snd acc)"])
    (auto simp: disconnect_one_def)

subsection \<open>No stream is orphaned\<close>

definition closes :: "srv \<Rightarrow> srv \<Rightarrow> bool" where
  "closes s t \<longleftrightarrow>
     (\<forall>r. \<not> q_open (queues s r) \<longrightarrow> \<not> q_open (queues t r)) \<and>
     (\<forall>r. bound r s \<longrightarrow> bound r t \<or> \<not> q_open (queues t r))"

lemma closes_refl [simp]: "closes s s"
  by (simp add: closes_def)

lemma closes_trans [trans]: "closes s t \<Longrightarrow> closes t u \<Longrightarrow> closes s u"
  by (fastforce simp: closes_def)

lemma bound_cong: "bindings t = bindings s \<Longrightarrow> objs t = objs s \<Longrightarrow> bound r t = bound r s"
  by (simp add: bound_def getBinding_def)

lemma closesI_same:
  "queues t = queues s \<Longrightarrow> bindings t = bindings s \<Longrightarrow> objs t = objs s \<Longrightarrow> closes s t"
  by (simp add: closes_def bound_def getBinding_def)

lemma closes_same [simp]:
  "closes s (emit e s)" "closes s (send_ws w f s)" "closes s (close_ws w c rs s)"
  "closes s (send_agent i f s)" "closes s (clear_timer i s)" "closes s (tick i s)"
  "closes s (set_approval a s)" "closes s (deliver a s)" "closes s (snd (decide i d w' v s))"
  "closes s (snd (received b i d s))" "closes s (invalidate b s)"
  "closes s (rememberTerminalReceipt r q s)" "closes s (snd (getTerminalReceipt i j k s))"
  "closes s (clearGraceHold i r s)" "closes s (resumeBinding i j s)" "closes s (notifyAgentChange i s)"
  "closes s (noteServerClose w s)" "closes s (set_agent cn s)"
  by (rule closesI_same; simp)+

lemma closes_fields [simp]:
  "closes s (s\<lparr>agents := ag\<rparr>)" "closes s (s\<lparr>entries := en\<rparr>)" "closes s (s\<lparr>holds := hs\<rparr>)"
  "closes s (s\<lparr>origins := og\<rparr>)" "closes s (s\<lparr>timers := ti\<rparr>)" "closes s (s\<lparr>clock := ck\<rparr>)"
  by (rule closesI_same; simp)+

lemma closes_upd_obj [simp]:
  assumes "\<And>b. b_taskId (h b) = b_taskId b"
  shows "closes s (upd_obj r h s)"
  using assms by (auto simp: closes_def bound_def getBinding_def upd_obj_def)

lemma closes_sinks [simp]:
  "closes s (pushStatus r e s)" "closes s (pushArtifact r a s)" "closes s (finish_sink r s)"
  "closes s (failBinding r err s)"
  by (auto simp: closes_def bound_def getBinding_def sink_defs)

text \<open>Failing a binding and dropping it.\<close>

lemma closes_fail_drop:
  assumes "getBinding t s = Some r"
  shows "closes s (drop_binding t (failBinding r err s))"
  using assms by (auto simp: closes_def bound_def getBinding_def)

lemma closes_fail_one: "closes s (fail_one i err r s)"
proof (cases "b_agentId (objs s r) = i")
  case True
  let ?t = "b_taskId (objs s r)"
  have c: "closes s (clearGraceHold ?t r s)" by simp
  show ?thesis
  proof (cases "getBinding ?t s = Some r")
    case b: True
    then have "closes (clearGraceHold ?t r s) (drop_binding ?t (failBinding r err (clearGraceHold ?t r s)))"
      by (intro closes_fail_drop) (simp add: getBinding_def)
    with c True b show ?thesis
      by (simp add: fail_one_def Let_def getBinding_def) (rule closes_trans [OF c])
  next
    case False
    with c True show ?thesis
      by (simp add: fail_one_def Let_def getBinding_def) (rule closes_trans [OF c], simp)
  qed
qed (simp add: fail_one_def Let_def)

lemma closes_failAgent [simp]: "closes s (failBindingsForAgent i err s)"
  unfolding failBindingsForAgent_def
  by (rule fold_invariant [where Q = "\<lambda>_. True"]) (auto intro: closes_trans closes_fail_one)

lemma closes_holdAgent [simp]: "closes s (holdBindingsForAgent i cc v err s)"
  unfolding holdBindingsForAgent_def by (simp add: closesI_same)

lemma closes_failTask [simp]: "closes s (failTaskBinding r c m s)"
proof (cases "getBinding (b_taskId (objs s r)) s = Some r")
  case True
  let ?s = "clearGraceHold (b_taskId (objs s r)) r s"
  have "closes ?s (failTaskBinding r c m s)"
    using True unfolding failTaskBinding_def Let_def
    by (auto intro!: closes_fail_drop simp: getBinding_def)
  then show ?thesis by (rule closes_trans [rotated]) simp
qed (simp add: failTaskBinding_def Let_def)

lemma closes_grace_expired [simp]: "closes s (grace_expired t s)"
proof (cases "map_of (holds s) t")
  case (Some h)
  let ?s = "s\<lparr>holds := map_del t (holds s)\<rparr>"
  have "closes ?s (grace_expired t s)"
    using Some unfolding grace_expired_def Let_def by (auto intro!: closes_fail_drop)
  then show ?thesis by (rule closes_trans [rotated]) simp
qed (simp add: grace_expired_def)

lemma closes_bind [simp]:
  assumes "bind_inv s"
  shows "closes s (snd (bindTask r s))"
proof -
  have "e = e'" if "bound e s" "getBinding (b_taskId (objs s r)) s = Some e'"
    "b_taskId (objs s e) = b_taskId (objs s r)" for e e'
    using that by (simp add: bound_def)
  then show ?thesis
    by (auto simp: closes_def bindTask_def Let_def bound_def getBinding_def split: option.splits)
qed

lemma closes_register [simp]: "closes s (snd (registerAgent cn s))"
proof (cases "getAgent (cn_agentId cn) s")
  case None
  then show ?thesis by (simp add: registerAgent_def)
next
  case (Some e)
  let ?s1 = "close_ws (cn_ws e) 4009 ''another client with the same token connected'' s"
  show ?thesis
  proof (cases "cn_clientId e = cn_clientId cn")
    case True
    have fa: "closes s (set_agent cn (failBindingsForAgent i err ?s1))" for i err
      by (rule closes_trans [OF _ closes_trans]) (rule closes_same closes_failAgent)+
    have ho: "closes s (set_agent cn (holdBindingsForAgent i cc v err ?s1))" for i cc v err
      by (rule closes_trans [OF _ closes_trans]) (rule closes_same closes_holdAgent)+
    from True Some show ?thesis by (simp add: registerAgent_def Let_def fa ho)
  qed (use Some in \<open>simp add: registerAgent_def\<close>)
qed

lemma closes_unregister [simp]: "closes s (unregisterAgent i w cc s)"
proof (cases "getAgent i s")
  case (Some e)
  let ?s1 = "notifyAgentChange i (s\<lparr>agents := map_del i (agents s)\<rparr>)"
  have c: "closes s ?s1" by (rule closesI_same) simp_all
  show ?thesis
    using Some by (auto simp: unregisterAgent_def Let_def intro: closes_trans [OF c])
qed (simp add: unregisterAgent_def)

lemma closes_disconnect [simp]: "closes s (snd (disconnectClient ci s))"
  unfolding disconnectClient_def
proof (rule fold_invariant [where Q = "\<lambda>_. True" and P = "\<lambda>acc. closes s (snd acc)"])
  fix c :: connection and acc :: "nat \<times> srv"
  assume "closes s (snd acc)"
  then show "closes s (snd (disconnect_one ci c acc))"
    by (auto simp: disconnect_one_def intro!: closes_trans [OF _ closes_trans [OF closes_same(17) closes_same(3)]])
qed simp_all

lemma closes_callers [simp]: "closes s (updateAllowedCallers i cs s)"
  and closes_pricing [simp]: "closes s (updateX402Pricing i p s)"
  by (auto simp: updateAllowedCallers_def updateX402Pricing_def Let_def intro!: closesI_same split: option.splits)

lemma closes_approval_timer [simp]: "closes s (approval_timer rid s)"
proof (cases "map_of (entries s) rid")
  case (Some a)
  define exp where "exp = a\<lparr>ap_state := Expired, ap_decision := Some Deny\<rparr>"
  define s1 where "s1 = clear_timer rid (deliver exp (set_approval exp s))"
  have c1: "closes s s1" unfolding s1_def by (rule closesI_same) simp_all
  have c2: "closes s (send_agent i f s1)" for i f
    using c1 closes_same(4) by (rule closes_trans)
  have "closes s (failTaskBinding r c m (send_agent i f s1))" for r c m i f
    using c2 closes_failTask by (rule closes_trans)
  moreover have "closes s (clear_timer rid (s\<lparr>entries := en, origins := og\<rparr>))" for en og
    by (rule closesI_same) simp_all
  moreover have "closes s (tick rid (deliver a s))"
    by (rule closesI_same) simp_all
  ultimately show ?thesis
    using Some c1 by (simp add: approval_timer_def Let_def exp_def s1_def split: option.splits)
qed (simp add: approval_timer_def)

end
