(* ===== verification/ApprovalInv.thy ===== *)
theory ApprovalInv
  imports Streams
begin

text \<open>
  The invariant of the approval store and the laws of its operations: at most one undecided
  request per execution, a running timer for each undecided request, and no acknowledged
  permission that was not granted.
\<close>

subsection \<open>Invariant\<close>

fun appr_ok :: "approval_state \<Rightarrow> decision option \<Rightarrow> string option \<Rightarrow> bool" where
  "appr_ok Pending d who \<longleftrightarrow> d = None \<and> who = None"
| "appr_ok Decided d who \<longleftrightarrow> d \<noteq> None \<and> who \<noteq> None"
| "appr_ok Received d who \<longleftrightarrow> d = Some Deny \<or> (d = Some Allow_once \<and> who \<noteq> None)"
| "appr_ok Expired d who \<longleftrightarrow> d = Some Deny"

definition entry_ok :: "approval \<Rightarrow> bool" where
  "entry_ok a \<longleftrightarrow> appr_ok (ap_state a) (ap_decision a) (ap_decidedBy a)"

definition appr_inv :: "srv \<Rightarrow> bool" where
  "appr_inv s \<longleftrightarrow>
     distinct (map_keys (entries s)) \<and> distinct (map_keys (timers s)) \<and> distinct (map_keys (origins s)) \<and>
     (\<forall>k a. map_of (entries s) k = Some a \<longrightarrow> req_id a = k \<and> entry_ok a \<and> (undecided a \<longrightarrow> map_has (timers s) k)) \<and>
     (\<forall>k. map_has (timers s) k \<longrightarrow> map_has (entries s) k) \<and>
     (\<forall>k. map_has (origins s) k \<longleftrightarrow> map_has (entries s) k) \<and>
     (\<forall>k k' a a'. map_of (entries s) k = Some a \<longrightarrow> map_of (entries s) k' = Some a' \<longrightarrow>
        undecided a \<longrightarrow> undecided a' \<longrightarrow> ap_taskId a = ap_taskId a' \<longrightarrow> ap_executionId a = ap_executionId a' \<longrightarrow> k = k')"

lemma appr_invI:
  assumes "distinct (map_keys (entries s))" "distinct (map_keys (timers s))" "distinct (map_keys (origins s))"
    and "\<And>k a. map_of (entries s) k = Some a \<Longrightarrow> req_id a = k"
    and "\<And>k a. map_of (entries s) k = Some a \<Longrightarrow> entry_ok a"
    and "\<And>k a. map_of (entries s) k = Some a \<Longrightarrow> undecided a \<Longrightarrow> map_has (timers s) k"
    and "\<And>k. map_has (timers s) k \<Longrightarrow> map_has (entries s) k"
    and "\<And>k. map_has (origins s) k \<longleftrightarrow> map_has (entries s) k"
    and "\<And>k k' a a'. map_of (entries s) k = Some a \<Longrightarrow> map_of (entries s) k' = Some a' \<Longrightarrow>
        undecided a \<Longrightarrow> undecided a' \<Longrightarrow> ap_taskId a = ap_taskId a' \<Longrightarrow> ap_executionId a = ap_executionId a' \<Longrightarrow> k = k'"
  shows "appr_inv s"
  using assms unfolding appr_inv_def by blast

lemma appr_inv_D:
  assumes "appr_inv s"
  shows "distinct (map_keys (entries s))" "distinct (map_keys (timers s))" "distinct (map_keys (origins s))"
    and "\<And>k a. map_of (entries s) k = Some a \<Longrightarrow> req_id a = k"
    and "\<And>k a. map_of (entries s) k = Some a \<Longrightarrow> entry_ok a"
    and "\<And>k a. map_of (entries s) k = Some a \<Longrightarrow> undecided a \<Longrightarrow> map_has (timers s) k"
    and "\<And>k. map_has (timers s) k \<Longrightarrow> map_has (entries s) k"
    and "\<And>k. map_has (origins s) k \<longleftrightarrow> map_has (entries s) k"
    and "\<And>k k' a a'. map_of (entries s) k = Some a \<Longrightarrow> map_of (entries s) k' = Some a' \<Longrightarrow>
        undecided a \<Longrightarrow> undecided a' \<Longrightarrow> ap_taskId a = ap_taskId a' \<Longrightarrow> ap_executionId a = ap_executionId a' \<Longrightarrow> k = k'"
  using assms unfolding appr_inv_def by blast+

lemma appr_inv_cong:
  "entries t = entries s \<Longrightarrow> timers t = timers s \<Longrightarrow> origins t = origins s \<Longrightarrow> appr_inv t = appr_inv s"
  by (simp add: appr_inv_def)

subsection \<open>Dropping the entries of an execution\<close>

lemma map_of_fold_del [simp]: "map_of (fold map_del ks m) k = (if k \<in> set ks then None else map_of m k)"
  by (induction ks arbitrary: m) auto

lemma distinct_fold_del [simp]: "distinct (map_keys m) \<Longrightarrow> distinct (map_keys (fold map_del ks m))"
  by (induction ks arbitrary: m) auto

definition gone :: "binding \<Rightarrow> srv \<Rightarrow> string list" where
  "gone b s = map (\<lambda>(k, a). req_id a) (filter (\<lambda>(k, a). same_execution a b) (entries s))"

lemma invalidate_maps:
  "entries (invalidate b s) = fold map_del (gone b s) (entries s)"
  "timers (invalidate b s) = fold map_del (gone b s) (timers s)"
  "origins (invalidate b s) = fold map_del (gone b s) (origins s)"
  by (simp_all add: invalidate_def Let_def gone_def)

lemma mem_gone:
  assumes "appr_inv s"
  shows "k \<in> set (gone b s) \<longleftrightarrow> (\<exists>a. map_of (entries s) k = Some a \<and> same_execution a b)"
proof
  assume "k \<in> set (gone b s)"
  then obtain k' a where "(k', a) \<in> set (entries s)" "same_execution a b" "k = req_id a"
    by (auto simp: gone_def)
  with appr_inv_D(1,4) [OF assms] show "\<exists>a. map_of (entries s) k = Some a \<and> same_execution a b"
    by (metis map_of_mem)
next
  assume "\<exists>a. map_of (entries s) k = Some a \<and> same_execution a b"
  then obtain a where a: "map_of (entries s) k = Some a" "same_execution a b" by blast
  with appr_inv_D(4) [OF assms] have "req_id a = k" "(k, a) \<in> set (entries s)"
    by (blast, auto dest: map_of_SomeD)
  with a show "k \<in> set (gone b s)" by (force simp: gone_def)
qed

lemma invalidate_entries:
  "appr_inv s \<Longrightarrow> map_of (entries (invalidate b s)) k =
     (case map_of (entries s) k of None \<Rightarrow> None | Some a \<Rightarrow> if same_execution a b then None else Some a)"
  by (auto simp: invalidate_maps mem_gone split: option.splits)

lemma appr_inv_invalidate [inv_intros]:
  assumes i: "appr_inv s"
  shows "appr_inv (invalidate b s)"
proof (rule appr_invI)
  show "distinct (map_keys (entries (invalidate b s)))" "distinct (map_keys (timers (invalidate b s)))"
    "distinct (map_keys (origins (invalidate b s)))"
    using appr_inv_D(1-3) [OF i] by (simp_all add: invalidate_maps)
  show "map_has (timers (invalidate b s)) k \<Longrightarrow> map_has (entries (invalidate b s)) k" for k
    using appr_inv_D(7) [OF i] by (auto simp: invalidate_maps split: if_splits)
  show "map_has (origins (invalidate b s)) k \<longleftrightarrow> map_has (entries (invalidate b s)) k" for k
    using appr_inv_D(8) [OF i] by (auto simp: invalidate_maps split: if_splits)
  fix k a
  assume "map_of (entries (invalidate b s)) k = Some a"
  then have k: "map_of (entries s) k = Some a" "k \<notin> set (gone b s)"
    by (auto simp: invalidate_maps split: if_splits)
  show "req_id a = k" "entry_ok a" by (rule appr_inv_D(4,5) [OF i k(1)])+
  show "undecided a \<Longrightarrow> map_has (timers (invalidate b s)) k"
    using appr_inv_D(6) [OF i k(1)] k(2) by (simp add: invalidate_maps)
  show "k = k'" if "map_of (entries (invalidate b s)) k' = Some a'" "undecided a" "undecided a'"
    "ap_taskId a = ap_taskId a'" "ap_executionId a = ap_executionId a'" for k' a'
    using appr_inv_D(9) [OF i k(1)] that by (auto simp: invalidate_maps split: if_splits)
qed

subsection \<open>Operations\<close>

lemma waiting_None:
  assumes "appr_inv s" and "waiting b s = None"
    and "map_of (entries s) k = Some a" and "undecided a"
  shows "\<not> same_execution a b"
  using assms map_of_SomeD [OF assms(3)] by (force simp: waiting_def find_None_iff)

lemma appr_inv_request [inv_intros]:
  assumes i: "appr_inv s" and r: "request_approval b rq s = Inr (a, t)"
  shows "appr_inv t"
proof -
  obtain e where e: "b_executionId b = Some e" using r by (auto simp: request_approval_def split: option.splits)
  have new: "map_of (entries s) (rq_requestId rq) = None" and w: "waiting b s = None"
    using r e by (auto simp: request_approval_def split: if_splits)
  define og where "og = \<lparr>og_principalId = b_principalId b, og_actorId = b_actorId b,
    og_authorizationProfile = b_authorizationProfile b, og_authorizationKey = b_authorizationKey b\<rparr>"
  define k where "k = rq_requestId rq"
  have a: "a = \<lparr>ap_request = rq, ap_agentId = b_agentId b, ap_taskId = b_taskId b, ap_executionId = e,
      ap_state = Pending, ap_decision = None, ap_decidedBy = None, ap_decidedVia = None\<rparr>"
    and t: "entries t = map_set k a (entries s)" "origins t = map_set k og (origins s)"
      "timers t = map_set k (clock s + 1000) (map_del k (timers s))"
    using r e by (auto simp: request_approval_def Let_def tick_def clear_timer_def set_approval_def og_def k_def
        split: if_splits)
  have o: "\<not> (undecided a' \<and> ap_taskId a' = b_taskId b \<and> ap_executionId a' = e)"
    if "map_of (entries s) k' = Some a'" for k' a'
    using waiting_None [OF i w that] e by (auto simp: same_execution_def)
  show ?thesis
  proof (rule appr_invI)
    show "distinct (map_keys (entries t))" "distinct (map_keys (timers t))" "distinct (map_keys (origins t))"
      using appr_inv_D(1-3) [OF i] by (simp_all add: t)
    show "map_has (timers t) k' \<Longrightarrow> map_has (entries t) k'" for k'
      using appr_inv_D(7) [OF i, of k'] by (auto simp: t split: if_splits)
    show "map_has (origins t) k' \<longleftrightarrow> map_has (entries t) k'" for k'
      using appr_inv_D(8) [OF i, of k'] by (simp add: t)
    fix k' a'
    assume k': "map_of (entries t) k' = Some a'"
    show "req_id a' = k'" "entry_ok a'"
      using k' appr_inv_D(4,5) [OF i, of k' a'] by (auto simp: t a k_def entry_ok_def split: if_splits)
    show "undecided a' \<Longrightarrow> map_has (timers t) k'"
      using k' appr_inv_D(6) [OF i, of k' a'] by (auto simp: t split: if_splits)
    show "k' = k''" if "map_of (entries t) k'' = Some a''" "undecided a'" "undecided a''"
      "ap_taskId a' = ap_taskId a''" "ap_executionId a' = ap_executionId a''" for k'' a''
      using k' that appr_inv_D(9) [OF i, of k' a' k'' a''] o [of k' a'] o [of k'' a'']
      by (auto simp: t a split: if_splits)
  qed
qed

text \<open>Rewriting an entry without reviving it: what \<open>decide\<close>, \<open>received\<close> and the expiry do.\<close>

lemma appr_inv_rewrite:
  assumes i: "appr_inv s" and k: "map_of (entries s) k = Some a"
    and ok: "entry_ok a'" and same: "req_id a' = req_id a" "ap_taskId a' = ap_taskId a" "ap_executionId a' = ap_executionId a"
    and und: "undecided a' \<Longrightarrow> undecided a"
    and e: "entries t = map_set k a' (entries s)" and og: "origins t = origins s"
    and ti: "distinct (map_keys (timers t))"
      "\<And>k'. map_has (timers t) k' \<Longrightarrow> map_has (entries s) k'"
      "\<And>k'. map_has (timers s) k' \<Longrightarrow> k' \<noteq> k \<or> undecided a' \<Longrightarrow> map_has (timers t) k'"
  shows "appr_inv t"
proof (rule appr_invI)
  show "distinct (map_keys (entries t))" "distinct (map_keys (timers t))" "distinct (map_keys (origins t))"
    using appr_inv_D(1-3) [OF i] ti(1) by (simp_all add: e og)
  show "map_has (timers t) k' \<Longrightarrow> map_has (entries t) k'" for k'
    using ti(2) [of k'] by (simp add: e)
  show "map_has (origins t) k' \<longleftrightarrow> map_has (entries t) k'" for k'
    using appr_inv_D(8) [OF i, of k'] k by (simp add: e og)
  fix k' b
  assume k': "map_of (entries t) k' = Some b"
  show "req_id b = k'" "entry_ok b"
    using k' k appr_inv_D(4,5) [OF i] ok same by (auto simp: e split: if_splits)
  show "undecided b \<Longrightarrow> map_has (timers t) k'"
    using k' k appr_inv_D(6) [OF i] ti(3) und by (auto simp: e split: if_splits)
  show "k' = k''" if "map_of (entries t) k'' = Some b'" "undecided b" "undecided b'"
    "ap_taskId b = ap_taskId b'" "ap_executionId b = ap_executionId b'" for k'' b'
    using k' that k appr_inv_D(9) [OF i, of k' _ k''] und same by (auto simp: e split: if_splits)
qed

lemma appr_inv_decide [inv_intros]:
  assumes i: "appr_inv s"
  shows "appr_inv (snd (decide rid d who via s))"
proof (cases "map_of (entries s) rid")
  case (Some a)
  with i have "req_id a = rid" by (rule appr_inv_D(4))
  then have "appr_inv (deliver a' (set_approval a' s))"
    if "ap_state a = Pending" "a' = a\<lparr>ap_state := Decided, ap_decision := Some d, ap_decidedBy := Some who, ap_decidedVia := Some via\<rparr>" for a'
    by (intro appr_inv_rewrite [OF i Some])
      (use that appr_inv_D(2,7) [OF i] in \<open>auto simp: entry_ok_def undecided_def set_approval_def\<close>)
  with Some i show ?thesis by (auto simp: decide_def Let_def)
qed (simp add: decide_def i)

lemma appr_inv_received [inv_intros]:
  assumes i: "appr_inv s"
  shows "appr_inv (snd (received b rid d s))"
proof (cases "map_of (entries s) rid")
  case (Some a)
  then have a: "req_id a = rid" "entry_ok a" using appr_inv_D(4,5) [OF i] by blast+
  define a' where "a' = a\<lparr>ap_state := Received, ap_decision := Some d\<rparr>"
  have "appr_inv (clear_timer rid (set_approval a' s))" if g: "d = Allow_once \<longrightarrow> ap_state a = Decided"
  proof (rule appr_inv_rewrite [OF i Some])
    show "entry_ok a'" using g a by (cases d) (auto simp: a'_def entry_ok_def)
    show "undecided a' \<Longrightarrow> undecided a" by (simp add: a'_def undecided_def)
    show "map_has (timers s) k' \<Longrightarrow> k' \<noteq> rid \<or> undecided a' \<Longrightarrow> map_has (timers (clear_timer rid (set_approval a' s))) k'" for k'
      by (auto simp: a'_def undecided_def clear_timer_def)
    show "map_has (timers (clear_timer rid (set_approval a' s))) k' \<Longrightarrow> map_has (entries s) k'" for k'
      using appr_inv_D(7) [OF i, of k'] by (simp add: clear_timer_def split: if_splits)
    show "distinct (map_keys (timers (clear_timer rid (set_approval a' s))))"
      using appr_inv_D(2) [OF i] by (simp add: clear_timer_def)
  qed (simp_all add: a'_def a set_approval_def)
  with Some i a show ?thesis by (auto simp: received_def Let_def a'_def)
qed (simp add: received_def i)

lemma appr_inv_tick [inv_intros]:
  "appr_inv s \<Longrightarrow> map_has (entries s) rid \<Longrightarrow> appr_inv (tick rid s)"
proof (rule appr_invI)
  assume i: "appr_inv s" and r: "map_has (entries s) rid"
  show "distinct (map_keys (timers (tick rid s)))"
    using appr_inv_D(2) [OF i] by (simp add: tick_def clear_timer_def Let_def)
  show "undecided a \<Longrightarrow> map_has (timers (tick rid s)) k" if "map_of (entries (tick rid s)) k = Some a" for k a
    using that appr_inv_D(6) [OF i] by (simp add: tick_def clear_timer_def Let_def)
  show "map_has (timers (tick rid s)) k \<Longrightarrow> map_has (entries (tick rid s)) k" for k
    using appr_inv_D(7) [OF i, of k] r by (simp add: tick_def clear_timer_def Let_def split: if_splits)
  show "distinct (map_keys (entries (tick rid s)))" "distinct (map_keys (origins (tick rid s)))"
    using appr_inv_D(1,3) [OF i] by simp_all
  show "map_has (origins (tick rid s)) k \<longleftrightarrow> map_has (entries (tick rid s)) k" for k
    using appr_inv_D(8) [OF i, of k] by simp
  show "req_id a = k" "entry_ok a" if "map_of (entries (tick rid s)) k = Some a" for k a
    using appr_inv_D(4,5) [OF i, of k a] that by simp_all
  show "k = k'" if "map_of (entries (tick rid s)) k = Some a" "map_of (entries (tick rid s)) k' = Some a'"
    "undecided a" "undecided a'" "ap_taskId a = ap_taskId a'" "ap_executionId a = ap_executionId a'" for k k' a a'
    using appr_inv_D(9) [OF i, of k a k' a'] that by simp
qed

lemma appr_inv_same [simp]:
  "appr_inv (emit e s) = appr_inv s" "appr_inv (send_ws w f s) = appr_inv s"
  "appr_inv (close_ws w c rs s) = appr_inv s" "appr_inv (upd_queue r g s) = appr_inv s"
  "appr_inv (upd_obj r h s) = appr_inv s" "appr_inv (pushStatus r ev s) = appr_inv s"
  "appr_inv (pushArtifact r av s) = appr_inv s" "appr_inv (finish_sink r s) = appr_inv s"
  "appr_inv (send_agent j f s) = appr_inv s" "appr_inv (deliver a s) = appr_inv s"
  "appr_inv (rememberTerminalReceipt r q s) = appr_inv s"
  "appr_inv (snd (getTerminalReceipt i1 j1 k1 s)) = appr_inv s"
  "appr_inv (clearGraceHold i1 r s) = appr_inv s" "appr_inv (drop_binding i1 s) = appr_inv s"
  "appr_inv (resumeBinding i1 j1 s) = appr_inv s" "appr_inv (notifyAgentChange i1 s) = appr_inv s"
  "appr_inv (noteServerClose w s) = appr_inv s" "appr_inv (set_agent cn s) = appr_inv s"
  "appr_inv (hold_one i1 cc v err r s) = appr_inv s"
  "appr_inv (s\<lparr>agents := ag\<rparr>) = appr_inv s" "appr_inv (s\<lparr>bindings := bs\<rparr>) = appr_inv s"
  "appr_inv (s\<lparr>holds := hs\<rparr>) = appr_inv s" "appr_inv (s\<lparr>clock := ck\<rparr>) = appr_inv s"
  by (rule appr_inv_cong; simp)+

lemma failBinding_approvals:
  "entries (failBinding r err s) = entries (invalidate (objs s r) s)"
  "timers (failBinding r err s) = timers (invalidate (objs s r) s)"
  "origins (failBinding r err s) = origins (invalidate (objs s r) s)"
  by (simp_all add: failBinding_def Let_def)

lemma appr_inv_failBinding [inv_intros]: "appr_inv s \<Longrightarrow> appr_inv (failBinding r err s)"
  using appr_inv_invalidate [of s "objs s r"] by (subst appr_inv_cong [OF failBinding_approvals])

lemma appr_inv_fail_one [inv_intros]: "appr_inv s \<Longrightarrow> appr_inv (fail_one i err r s)"
  by (simp add: fail_one_def Let_def appr_inv_failBinding)

lemma appr_inv_failAgent [inv_intros]: "appr_inv s \<Longrightarrow> appr_inv (failBindingsForAgent i err s)"
  unfolding failBindingsForAgent_def
  by (rule fold_invariant [where Q = "\<lambda>_. True"]) (auto intro: appr_inv_fail_one)

lemma appr_inv_holdAgent [inv_intros]: "appr_inv s \<Longrightarrow> appr_inv (holdBindingsForAgent i cc v err s)"
  by (cases "graceMs s > 0")
    (simp_all add: holdAgent_off appr_inv_failAgent appr_inv_cong [of "holdBindingsForAgent i cc v err s" s])

lemma appr_inv_ops [inv_intros]:
  "appr_inv s \<Longrightarrow> appr_inv (failTaskBinding r c m s)"
  "appr_inv s \<Longrightarrow> appr_inv (grace_expired t s)"
  "appr_inv s \<Longrightarrow> appr_inv (snd (bindTask r s))"
  "appr_inv s \<Longrightarrow> appr_inv (unbindTask t r s)"
  "appr_inv s \<Longrightarrow> appr_inv (snd (registerAgent cn s))"
  "appr_inv s \<Longrightarrow> appr_inv (unregisterAgent i w cc s)"
  by (auto simp: failTaskBinding_def grace_expired_def bindTask_def unbindTask_def registerAgent_def
      unregisterAgent_def Let_def
      intro!: appr_inv_failBinding appr_inv_failAgent appr_inv_holdAgent appr_inv_invalidate split: option.splits)

lemma appr_inv_disconnect [inv_intros]: "appr_inv s \<Longrightarrow> appr_inv (snd (disconnectClient ci s))"
  unfolding disconnectClient_def
  by (rule fold_invariant [where Q = "\<lambda>_. True" and P = "\<lambda>acc. appr_inv (snd acc)"])
    (auto simp: disconnect_one_def)

text \<open>The expiry timer.\<close>

lemma appr_inv_approval_timer [inv_intros]:
  assumes i: "appr_inv s"
  shows "appr_inv (approval_timer rid s)"
proof (cases "map_of (entries s) rid")
  case (Some a)
  then have a: "req_id a = rid" using appr_inv_D(4) [OF i] by blast
  define e where "e = a\<lparr>ap_state := Expired, ap_decision := Some Deny\<rparr>"
  have exp: "appr_inv (clear_timer rid (deliver e (set_approval e s)))"
  proof (rule appr_inv_rewrite [OF i Some])
    show "entry_ok e" "undecided e \<Longrightarrow> undecided a" by (simp_all add: e_def entry_ok_def undecided_def)
    show "map_has (timers s) k' \<Longrightarrow> k' \<noteq> rid \<or> undecided e \<Longrightarrow>
        map_has (timers (clear_timer rid (deliver e (set_approval e s)))) k'" for k'
      by (auto simp: e_def undecided_def clear_timer_def)
    show "map_has (timers (clear_timer rid (deliver e (set_approval e s)))) k' \<Longrightarrow> map_has (entries s) k'" for k'
      using appr_inv_D(7) [OF i, of k'] by (simp add: clear_timer_def split: if_splits)
    show "distinct (map_keys (timers (clear_timer rid (deliver e (set_approval e s)))))"
      using appr_inv_D(2) [OF i] by (simp add: clear_timer_def)
  qed (simp_all add: e_def a set_approval_def)
  have gone: "appr_inv (clear_timer rid (s\<lparr>entries := map_del rid (entries s), origins := map_del rid (origins s)\<rparr>))"
    (is "appr_inv ?t")
  proof (rule appr_invI)
    show "distinct (map_keys (entries ?t))" "distinct (map_keys (timers ?t))" "distinct (map_keys (origins ?t))"
      using appr_inv_D(1-3) [OF i] by (simp_all add: clear_timer_def)
    show "map_has (timers ?t) k \<Longrightarrow> map_has (entries ?t) k" for k
      using appr_inv_D(7) [OF i, of k] by (simp add: clear_timer_def split: if_splits)
    show "map_has (origins ?t) k \<longleftrightarrow> map_has (entries ?t) k" for k
      using appr_inv_D(8) [OF i, of k] by (simp add: clear_timer_def)
    fix k b
    assume "map_of (entries ?t) k = Some b"
    then have k: "k \<noteq> rid" "map_of (entries s) k = Some b"
      by (simp_all add: clear_timer_def split: if_splits)
    show "req_id b = k" "entry_ok b" by (rule appr_inv_D(4,5) [OF i k(2)])+
    show "undecided b \<Longrightarrow> map_has (timers ?t) k"
      using appr_inv_D(6) [OF i k(2)] k(1) by (simp add: clear_timer_def)
    show "k = k'" if "map_of (entries ?t) k' = Some b'" "undecided b" "undecided b'"
      "ap_taskId b = ap_taskId b'" "ap_executionId b = ap_executionId b'" for k' b'
      using appr_inv_D(9) [OF i k(2)] that by (simp add: clear_timer_def split: if_splits)
  qed
  have tick: "appr_inv (tick rid (if ap_state a = Decided then deliver a s else s))"
    using Some i by (intro appr_inv_tick) simp_all
  show ?thesis
    using Some exp gone tick i
    by (simp add: approval_timer_def Let_def e_def [symmetric] appr_inv_ops split: option.splits)
qed (simp add: approval_timer_def i)

end
