(* ===== verification/Reserved.thy ===== *)
theory Reserved
  imports Text
begin

text \<open>Agent ids the bridge keeps for itself (packages/server/src/reserved-agent-ids.ts).\<close>

definition RESERVED_AGENT_IDS :: "string list" where "RESERVED_AGENT_IDS = [''admin'']"

definition isReservedAgentId :: "string \<Rightarrow> bool" where
  "isReservedAgentId i = (map lower_char i \<in> set RESERVED_AGENT_IDS)"

fun findReservedAgentId :: "string list \<Rightarrow> string option" where
  "findReservedAgentId [] = None"
| "findReservedAgentId (i # is) = (if isReservedAgentId i then Some i else findReservedAgentId is)"

end
