(* ===== verification/Ws.thy ===== *)
theory Ws
  imports ApprovalInv Reserved
begin

text \<open>
  One WebSocket connection of the server (packages/server/src/ws.ts): the handshake with its
  timeout, the frames of an authenticated agent with the sequence check that makes replay
  safe, and the close of the socket. What a connection keeps in the closure of
  \<open>handleConnection\<close> is \<open>conn_state\<close>.
\<close>

subsection \<open>Sequenced frames\<close>

datatype acceptance = Accepted bref | Handled | Dropped

definition ownedBinding :: "string option \<Rightarrow> string \<Rightarrow> srv \<Rightarrow> bref option" where
  "ownedBinding agentId taskId s =
     (case getBinding taskId s of
        None \<Rightarrow> None
      | Some r \<Rightarrow> if Some (b_agentId (objs s r)) \<noteq> agentId then None else Some r)"

definition acknowledge :: "ws \<Rightarrow> bref \<Rightarrow> srv \<Rightarrow> srv" where
  "acknowledge w r s =
     (let b = objs s r
      in case (b_executionId b, b_nextClientSeq b) of
           (Some e, Some n) \<Rightarrow> send_ws w (TaskAck (b_taskId b) e (int n - 1)) s
         | _ \<Rightarrow> s)"

definition acknowledgeReceipt :: "ws \<Rightarrow> string option \<Rightarrow> frame_hdr \<Rightarrow> srv \<Rightarrow> bool \<times> srv" where
  "acknowledgeReceipt w agentId h s =
     (case (agentId, h_executionId h, h_seq h) of
        (Some ag, Some e, Some n) \<Rightarrow>
          (let (receipt, s1) = getTerminalReceipt e ag (h_taskId h) s
           in case receipt of
                None \<Rightarrow> (False, s1)
              | Some acceptedSeq \<Rightarrow>
                  if int n > acceptedSeq then (False, s1)
                  else (True, send_ws w (TaskAck (h_taskId h) e acceptedSeq) s1))
      | _ \<Rightarrow> (False, s))"

definition receipt_or :: "acceptance \<Rightarrow> ws \<Rightarrow> string option \<Rightarrow> frame_hdr \<Rightarrow> srv \<Rightarrow> acceptance \<times> srv" where
  "receipt_or other w agentId h s =
     (let (ok, s1) = acknowledgeReceipt w agentId h s in (if ok then Handled else other, s1))"

text \<open>Failing the execution because the frame breaks the sequence, and telling the client.\<close>

definition reject_frame :: "bref \<Rightarrow> string \<Rightarrow> string \<Rightarrow> string \<Rightarrow> srv \<Rightarrow> srv" where
  "reject_frame r e code msg s =
     send_agent (b_agentId (objs s r)) (TaskCancel (b_taskId (objs s r)) (Some e)) (failTaskBinding r code msg s)"

definition gap_message :: "nat \<Rightarrow> nat \<Rightarrow> string" where
  "gap_message expected n =
     ''client frame sequence gap: expected '' @ string_of_nat expected @ '', received '' @ string_of_nat n"

definition resume_opt :: "string option \<Rightarrow> string \<Rightarrow> srv \<Rightarrow> srv" where
  "resume_opt agentId taskId s = (case agentId of None \<Rightarrow> s | Some ag \<Rightarrow> resumeBinding taskId ag s)"

definition acceptTaskFrame :: "ws \<Rightarrow> string option \<Rightarrow> frame_hdr \<Rightarrow> srv \<Rightarrow> acceptance \<times> srv" where
  "acceptTaskFrame w agentId h s =
     (case getBinding (h_taskId h) s of
        None \<Rightarrow> receipt_or Dropped w agentId h s
      | Some _ \<Rightarrow>
     (case ownedBinding agentId (h_taskId h) s of
        None \<Rightarrow> (Handled, s)
      | Some r \<Rightarrow>
     (case b_executionId (objs s r) of
        Some e \<Rightarrow>
          if h_executionId h = None then
            (Handled, reject_frame r e ''client_frame_execution_id_missing''
               ''client frame execution id is required for a replay-capable execution'' s)
          else if h_executionId h \<noteq> Some e then receipt_or Handled w agentId h s
          else
            (case h_seq h of
               None \<Rightarrow>
                 (Handled, reject_frame r e ''client_frame_sequence_missing''
                    ''client frame sequence is required for a replay-capable execution'' s)
             | Some n \<Rightarrow>
                 (let expected = get_or (b_nextClientSeq (objs s r)) 0
                  in if n < expected then
                       (Handled, resumeBinding (h_taskId h) (b_agentId (objs s r)) (acknowledge w r s))
                     else if n > expected then
                       (Handled, reject_frame r e ''client_frame_gap'' (gap_message expected n) s)
                     else
                       (Accepted r,
                        resume_opt agentId (h_taskId h)
                          (upd_obj r (\<lambda>b. b\<lparr>b_nextClientSeq := Some (expected + 1)\<rparr>) s))))
      | None \<Rightarrow>
          if h_executionId h \<noteq> None \<or> h_seq h \<noteq> None then receipt_or Dropped w agentId h s
          else (Accepted r, resume_opt agentId (h_taskId h) s))))"

subsection \<open>Frames of an authenticated agent\<close>

definition status_of :: "binding \<Rightarrow> string \<Rightarrow> bool \<Rightarrow> wire_status \<Rightarrow> obj option \<Rightarrow> status_event" where
  "status_of b taskId fin st md =
     \<lparr>se_taskId = taskId, se_contextId = b_contextId b, se_final = fin,
      se_status = wireStatusToA2X st taskId (b_contextId b), se_metadata = md\<rparr>"

definition decision_status :: "string \<Rightarrow> decision \<Rightarrow> string option \<Rightarrow> int \<Rightarrow> wire_status" where
  "decision_status rid d who now =
     \<lparr>wst_state = WORKING,
      wst_message = Some
        \<lparr>wm_role = Agent,
         wm_parts = [[(''kind'', JStr ''text''), (''text'', JStr (''Tool approval: '' @ decision_text d))]],
         wm_messageId = rid @ ''-decision'',
         wm_metadata = Some [(APPROVAL_EXTENSION_URI, JObj
           ([(''requestId'', JStr rid), (''decision'', JStr (decision_text d))] @ opt_str ''decidedBy'' who))],
         wm_extensions = None\<rparr>,
      wst_timestamp = Some (Iso now)\<rparr>"

definition frame_artifact :: "artifact \<Rightarrow> artifact" where
  "frame_artifact a = a\<lparr>ar_parts := map partToA2X (ar_parts a)\<rparr>"

definition fail_frame_event :: "binding \<Rightarrow> string \<Rightarrow> string \<Rightarrow> string \<Rightarrow> int \<Rightarrow> status_event" where
  "fail_frame_event b taskId code msg now =
     \<lparr>se_taskId = taskId, se_contextId = b_contextId b, se_final = True,
      se_status = \<lparr>st_state = FAILED, st_timestamp = Some (Iso now),
        st_message = Some \<lparr>m_messageId = taskId @ ''-err'', m_role = Agent,
          m_parts = [[(''text'', JStr (code @ '': '' @ msg))]],
          m_metadata = fst (terminalErrorMessageFields code msg (b_requestedExtensions b)),
          m_extensions = snd (terminalErrorMessageFields code msg (b_requestedExtensions b)),
          m_taskId = Some taskId, m_contextId = Some (b_contextId b)\<rparr>\<rparr>,
      se_metadata = None\<rparr>"

text \<open>The end shared by \<open>task.complete\<close> and \<open>task.fail\<close>.\<close>

definition terminate :: "ws \<Rightarrow> string \<Rightarrow> bref \<Rightarrow> status_event \<Rightarrow> srv \<Rightarrow> srv" where
  "terminate w taskId r e s =
     (let s1 = finish_sink r (pushStatus r e s);
          s2 = (case (b_executionId (objs s1 r), b_nextClientSeq (objs s1 r)) of
                  (Some _, Some n) \<Rightarrow> rememberTerminalReceipt r (int n - 1) s1
                | _ \<Rightarrow> s1)
      in acknowledge w r (unbindTask taskId r s2))"

definition on_accepted :: "ws \<Rightarrow> string \<Rightarrow> bref \<Rightarrow> task_body \<Rightarrow> srv \<Rightarrow> srv" where
  "on_accepted w taskId r body s =
     (let b = objs s r in
      case body of
        ApprovalRequestB request \<Rightarrow>
          (let capable = caps_include (Option.bind (getAgent (b_agentId b) s) cn_protocolCapabilities)
                           REMOTE_APPROVAL_CAPABILITY
           in case (if capable then request_approval b request s else Inl ''Remote approval capability required'') of
                Inr (a, s1) \<Rightarrow>
                  acknowledge w r
                    (pushStatus r (status_of b (b_taskId b) False (approvalStatus (clock s1) a) None) s1)
              | Inl _ \<Rightarrow>
                  failTaskBinding r ''invalid_approval_request'' ''Invalid remote approval request''
                    (send_agent (b_agentId b) (TaskCancel (b_taskId b) (b_executionId b)) s))
      | ApprovalReceivedB rid d \<Rightarrow>
          (let (res, s1) = received b rid d s
           in case res of
                None \<Rightarrow> acknowledge w r s1
              | Some a \<Rightarrow>
                  acknowledge w r
                    (pushStatus r (status_of b (b_taskId b) False
                       (decision_status rid d (ap_decidedBy a) (clock s1)) None) s1))
      | StatusB st md \<Rightarrow>
          (let s1 = (if isHeartbeatStatusFrame md
                     then upd_obj r (\<lambda>b. b\<lparr>b_heartbeats := Some (get_or (b_heartbeats b) 0 + 1)\<rparr>) s else s);
               shown = (case waiting (objs s1 r) s1 of None \<Rightarrow> st | Some a \<Rightarrow> approvalStatus (clock s1) a)
           in acknowledge w r (pushStatus r (status_of b taskId False shown md) s1))
      | ArtifactB a app lastChunk \<Rightarrow>
          acknowledge w r
            (pushArtifact r \<lparr>ae_taskId = taskId, ae_contextId = b_contextId b, ae_artifact = frame_artifact a,
               ae_append = app, ae_lastChunk = lastChunk\<rparr> s)
      | CompleteB st usage \<Rightarrow>
          (let s1 = (if usage = None then s else upd_obj r (\<lambda>b. b\<lparr>b_usage := usage\<rparr>) s)
           in terminate w taskId r (status_of b taskId True st None) s1)
      | FailB code msg \<Rightarrow>
          terminate w taskId r (fail_frame_event b taskId code msg (clock s)) s)"

definition handle_task_frame :: "ws \<Rightarrow> string option \<Rightarrow> frame_hdr \<Rightarrow> task_body \<Rightarrow> srv \<Rightarrow> srv" where
  "handle_task_frame w agentId h body s =
     (case acceptTaskFrame w agentId h s of
        (Accepted r, s1) \<Rightarrow> on_accepted w (h_taskId h) r body s1
      | (_, s1) \<Rightarrow> s1)"

subsection \<open>The handshake\<close>

text \<open>\<open>cs_helloDue\<close> is the deadline of the hello timer while it is armed.\<close>

record conn_state =
  cs_agentId :: "string option"
  cs_authed :: bool
  cs_helloProcessing :: bool
  cs_closeCode :: "int option"
  cs_helloDue :: "int option"

definition new_connection :: "int \<Rightarrow> conn_state" where
  "new_connection due = \<lparr>cs_agentId = None, cs_authed = False, cs_helloProcessing = False,
     cs_closeCode = None, cs_helloDue = Some due\<rparr>"

record client_row =
  cr_id :: string
  cr_client_id :: string
  cr_owner_principal :: string
  cr_owner_email :: "string option"
  cr_allowed_callers :: "string list"
  cr_x402_pricing :: "json option"

definition resolveHelloAgentCard ::
    "(string, agent_card) jsmap \<Rightarrow> hello \<Rightarrow> (int \<times> string) + agent_card" where
  "resolveHelloAgentCard canonicalCards f =
     (case hl_agentCard f of
        Some c \<Rightarrow> Inr c
      | None \<Rightarrow>
          if get_or (hl_backendKind f) [] = [] then Inl (4012, ''missing agent card or backend kind'')
          else (case map_of canonicalCards (get_or (hl_backendKind f) []) of
                  None \<Rightarrow> Inl (4013, ''unknown backend kind'')
                | Some c \<Rightarrow> Inr c))"

text \<open>\<open>row\<close> is what the token lookup found. The result is the close code and reason, or success.\<close>

definition authenticateAndRegister ::
    "(string, agent_card) jsmap \<Rightarrow> ws \<Rightarrow> hello \<Rightarrow> client_row option \<Rightarrow> srv \<Rightarrow> (int \<times> string) option \<times> srv" where
  "authenticateAndRegister cards w f row s =
     (if isReservedAgentId (hl_agentId f) then (Some (4011, ''agent id reserved by the bridge''), s)
      else case row of
        None \<Rightarrow> (Some (4005, ''bad token''), s)
      | Some c \<Rightarrow>
          if cr_id c \<noteq> hl_agentId f then (Some (4008, ''agent id not authorized for this client''), s)
          else (case resolveHelloAgentCard cards f of
                  Inl e \<Rightarrow> (Some e, s)
                | Inr agentCard \<Rightarrow>
                    (let pricing = (case parseX402Pricing (cr_x402_pricing c) of Inl _ \<Rightarrow> None | Inr p \<Rightarrow> p);
                         (err, s1) = registerAgent
                           \<lparr>cn_agentId = hl_agentId f, cn_clientId = cr_client_id c,
                            cn_ownerPrincipal = cr_owner_principal c, cn_ownerEmail = cr_owner_email c,
                            cn_backendKind = hl_backendKind f,
                            cn_protocolCapabilities = hl_protocolCapabilities f,
                            cn_identityTrust = hl_identityTrust f, cn_agentCard = agentCard,
                            cn_allowedCallers = cr_allowed_callers c, cn_x402Pricing = pricing,
                            cn_ws = w, cn_connectedAt = clock s\<rparr> s
                     in case err of
                          Some reason \<Rightarrow> (Some (4006, reason), s1)
                        | None \<Rightarrow> (None, s1))))"

definition MAX_INGRESS_BYTES :: nat where "MAX_INGRESS_BYTES = 16 * 1024 * 1024"

definition when_cap :: "bool \<Rightarrow> string list \<Rightarrow> string list" where
  "when_cap c xs = (if c then xs else [])"

definition ack_capabilities :: "capabilities \<Rightarrow> string list" where
  "ack_capabilities caps =
     [TASK_REPLAY_CAPABILITY] @
     when_cap (caps_include caps REMOTE_APPROVAL_CAPABILITY) [REMOTE_APPROVAL_CAPABILITY] @
     when_cap (caps_include caps CALLER_CONTEXT_V2_CAPABILITY) [CALLER_CONTEXT_V2_CAPABILITY] @
     when_cap (supportsExecutionScopeV1 caps)
       ([EXECUTION_SCOPE_V1_CAPABILITY] @
        when_cap (caps_include caps CALLER_RUNTIME_V1_CAPABILITY)
          ([CALLER_RUNTIME_V1_CAPABILITY] @
           when_cap (caps_include caps FEDERATED_EXECUTION_SCOPE_V1_CAPABILITY)
             [FEDERATED_EXECUTION_SCOPE_V1_CAPABILITY]))"

text \<open>The continuation of the pending authentication.\<close>

definition auth_done ::
    "(string, agent_card) jsmap \<Rightarrow> ws \<Rightarrow> hello \<Rightarrow> client_row option \<Rightarrow> conn_state \<times> srv \<Rightarrow> conn_state \<times> srv" where
  "auth_done cards w f row cs =
     (let (c, s) = cs; (err, s1) = authenticateAndRegister cards w f row s
      in case err of
           Some (code, reason) \<Rightarrow> (c, close_ws w code reason s1)
         | None \<Rightarrow>
             if \<not> sockOpen s1 w then
               (case cs_closeCode c of
                  None \<Rightarrow> (c\<lparr>cs_agentId := Some (hl_agentId f)\<rparr>, s1)
                | Some code \<Rightarrow> (c, unregisterAgent (hl_agentId f) w (Some code) s1))
             else
               (c\<lparr>cs_agentId := Some (hl_agentId f), cs_authed := True, cs_helloDue := None\<rparr>,
                if caps_include (hl_protocolCapabilities f) TASK_REPLAY_CAPABILITY
                then send_ws w (HelloAck (ack_capabilities (hl_protocolCapabilities f)) (graceMs s1) MAX_INGRESS_BYTES) s1
                else s1))"

subsection \<open>Usage requests\<close>

text \<open>packages/server/src/usage-rpc.ts: a request is settled by its timeout, by the agent it was
  sent to, or at once when the agent is offline. \<open>rid\<close> is the random id of the request.\<close>

definition requestUsage :: "string \<Rightarrow> int \<Rightarrow> string \<Rightarrow> srv \<Rightarrow> srv" where
  "requestUsage agentId timeoutMs rid s =
     (let p = \<lparr>pu_agentId = agentId, pu_deadline = clock s + timeoutMs\<rparr>;
          (sent, s1) = sendToAgent agentId (UsageRequest rid) (s\<lparr>pendingUsage := map_set rid p (pendingUsage s)\<rparr>)
      in if sent then s1
         else emit (UsageSettled rid (Inl (''offline'', ''agent is not connected'')))
                (s1\<lparr>pendingUsage := map_del rid (pendingUsage s1)\<rparr>))"

definition usage_timeout :: "int \<Rightarrow> string \<Rightarrow> srv \<Rightarrow> srv" where
  "usage_timeout timeoutMs rid s =
     (if map_has (pendingUsage s) rid
      then emit (UsageSettled rid (Inl (''timeout'', ''usage request timed out after '' @
                   string_of_nat (nat timeoutMs) @ ''ms'')))
             (s\<lparr>pendingUsage := map_del rid (pendingUsage s)\<rparr>)
      else s)"

definition resolveUsageResponse :: "string \<Rightarrow> usage_response \<Rightarrow> srv \<Rightarrow> srv" where
  "resolveUsageResponse respondingAgentId f s =
     (case map_of (pendingUsage s) (ur_requestId f) of
        None \<Rightarrow> s
      | Some p \<Rightarrow>
          if pu_agentId p \<noteq> respondingAgentId then s
          else emit (UsageSettled (ur_requestId f)
                 (if ur_ok f then Inr (ur_usage f)
                  else Inl (get_or (map_option fst (ur_error f)) ''usage_failed'',
                            get_or (map_option snd (ur_error f)) ''usage query failed on the client'')))
                 (s\<lparr>pendingUsage := map_del (ur_requestId f) (pendingUsage s)\<rparr>))"

subsection \<open>Events of the socket\<close>

text \<open>The token lookup fails.\<close>

definition auth_failed :: "ws \<Rightarrow> conn_state \<times> srv \<Rightarrow> conn_state \<times> srv" where
  "auth_failed w cs = (fst cs, close_ws w 1011 ''internal error'' (snd cs))"

definition processAuthedFrame :: "ws \<Rightarrow> string option \<Rightarrow> up_frame \<Rightarrow> srv \<Rightarrow> srv" where
  "processAuthedFrame w agentId f s =
     (case f of
        TaskFrame h body \<Rightarrow> handle_task_frame w agentId h body s
      | UsageResponse u \<Rightarrow>
          (case agentId of None \<Rightarrow> s | Some ag \<Rightarrow> if ag = [] then s else resolveUsageResponse ag u s)
      | Pong \<Rightarrow> s
      | Hello _ \<Rightarrow> close_ws w 4007 ''duplicate hello'' (noteServerClose w s))"

datatype raw_message = Unparsable string | Parsed up_frame

text \<open>\<open>on_message\<close> also says whether the authentication of a hello starts.\<close>

definition on_message :: "ws \<Rightarrow> raw_message \<Rightarrow> conn_state \<times> srv \<Rightarrow> hello option \<times> conn_state \<times> srv" where
  "on_message w m cs =
     (let (c, s) = cs
      in case m of
           Unparsable err \<Rightarrow> (None, c, close_ws w 4002 (''invalid frame: '' @ err) (noteServerClose w s))
         | Parsed f \<Rightarrow>
             if \<not> cs_authed c then
               (case f of
                  Hello h \<Rightarrow>
                    if hl_version h \<noteq> PROTOCOL_VERSION
                    then (None, c, close_ws w 4004 ''protocol version mismatch'' s)
                    else if cs_helloProcessing c then (None, c, s)
                    else (Some h, c\<lparr>cs_helloProcessing := True\<rparr>, s)
                | _ \<Rightarrow> (None, c, close_ws w 4003 ''expected hello before task frames'' (noteServerClose w s)))
             else (None, c, processAuthedFrame w (cs_agentId c) f s))"

definition hello_timeout :: "ws \<Rightarrow> conn_state \<times> srv \<Rightarrow> conn_state \<times> srv" where
  "hello_timeout w cs =
     (let (c, s) = cs; c1 = c\<lparr>cs_helloDue := None\<rparr>
      in if \<not> cs_authed c then (c1, close_ws w 4001 ''hello timeout'' (noteServerClose w s)) else (c1, s))"

definition on_close :: "ws \<Rightarrow> int \<Rightarrow> conn_state \<times> srv \<Rightarrow> conn_state \<times> srv" where
  "on_close w code cs =
     (let (c, s) = cs; c1 = c\<lparr>cs_helloDue := None, cs_closeCode := Some code\<rparr>;
          s1 = s\<lparr>sockOpen := (sockOpen s)(w := False)\<rparr>
      in case cs_agentId c of
           None \<Rightarrow> (c1, s1)
         | Some i \<Rightarrow> (c1, unregisterAgent i w (Some code) s1))"

definition on_error :: "ws \<Rightarrow> string \<Rightarrow> srv \<Rightarrow> srv" where
  "on_error w code s = (if code = ''WS_ERR_UNSUPPORTED_MESSAGE_LENGTH'' then noteServerClose w s else s)"

end
