(* ===== verification/WsInv.thy ===== *)
theory WsInv
  imports Ws
begin

text \<open>
  The invariant of the whole server state, kept by every operation of the registry and every
  frame, timer and close of a socket; and that none of them orphans a stream.
\<close>

subsection \<open>Agents and receipts\<close>

definition agents_inv :: "srv \<Rightarrow> bool" where
  "agents_inv s \<longleftrightarrow> distinct (map_keys (agents s)) \<and>
     (\<forall>k c. map_of (agents s) k = Some c \<longrightarrow> cn_agentId c = k)"

definition receipts_inv :: "srv \<Rightarrow> bool" where
  "receipts_inv s \<longleftrightarrow> distinct (map_keys (receipts s)) \<and> length (receipts s) \<le> 10000"

lemma length_evict: "length (evict_oldest n m) \<le> n"
  by (simp add: evict_oldest_def)

lemma distinct_evict: "distinct (map_keys m) \<Longrightarrow> distinct (map_keys (evict_oldest n m))"
  by (simp add: evict_oldest_def drop_map [symmetric] distinct_drop)

lemma receipts_inv_prune: "receipts_inv s \<Longrightarrow> receipts_inv (pruneTerminalReceipts n s)"
  using le_trans [OF length_filter_le [of "\<lambda>(k, r). rp_expiresAt r > n" "receipts s"]]
  by (auto simp: receipts_inv_def pruneTerminalReceipts_def)

lemma receipts_inv_remember [inv_intros]: "receipts_inv s \<Longrightarrow> receipts_inv (rememberTerminalReceipt r q s)"
  using receipts_inv_prune [of s "clock s"]
  by (auto simp: rememberTerminalReceipt_def Let_def receipts_inv_def length_evict distinct_evict)

lemma receipts_inv_get [inv_intros]: "receipts_inv s \<Longrightarrow> receipts_inv (snd (getTerminalReceipt e i t s))"
  using receipts_inv_prune [of s "clock s"]
  by (auto simp: getTerminalReceipt_def Let_def split: option.splits)

subsection \<open>The invariant\<close>

definition srv_inv :: "srv \<Rightarrow> bool" where
  "srv_inv s \<longleftrightarrow> bind_inv s \<and> queue_inv s \<and> appr_inv s \<and> agents_inv s \<and> receipts_inv s"

lemma srv_inv_D:
  assumes "srv_inv s"
  shows "bind_inv s" "queue_inv s" "appr_inv s" "agents_inv s" "receipts_inv s"
  using assms by (simp_all add: srv_inv_def)

lemma srv_invI:
  assumes "bind_inv s" "queue_inv s" "appr_inv s" "agents_inv s" "receipts_inv s"
  shows "srv_inv s"
  using assms by (simp add: srv_inv_def)

lemma agents_inv_cong: "agents t = agents s \<Longrightarrow> agents_inv t = agents_inv s"
  and receipts_inv_cong: "receipts t = receipts s \<Longrightarrow> receipts_inv t = receipts_inv s"
  by (simp_all add: agents_inv_def receipts_inv_def)

text \<open>Most operations change neither agents nor receipts.\<close>

lemma srv_inv_keep:
  assumes "srv_inv s" "agents t = agents s" "receipts t = receipts s"
    and "bind_inv t" "queue_inv t" "appr_inv t"
  shows "srv_inv t"
  using assms agents_inv_cong [of t s] receipts_inv_cong [of t s] by (simp add: srv_inv_def)

lemma srv_inv_same_state:
  assumes "srv_inv s" "agents t = agents s" "receipts t = receipts s"
    and "bindings t = bindings s" "holds t = holds s" "objs t = objs s" "next_ref t = next_ref s"
    and "queues t = queues s" "entries t = entries s" "timers t = timers s" "origins t = origins s"
  shows "srv_inv t"
  using assms bind_inv_cong [of t s] queue_inv_cong [of t s] appr_inv_cong [of t s]
  by (intro srv_inv_keep [OF assms(1)]) (auto dest: srv_inv_D)

lemma srv_inv_effects [inv_intros]:
  assumes "srv_inv s"
  shows "srv_inv (emit e s)" "srv_inv (send_ws w f s)" "srv_inv (close_ws w c rs s)"
    "srv_inv (send_agent i f s)" "srv_inv (notifyAgentChange i s)" "srv_inv (noteServerClose w s)"
    "srv_inv (s\<lparr>pendingUsage := p\<rparr>)" "srv_inv (s\<lparr>sockOpen := so\<rparr>)" "srv_inv (s\<lparr>clock := ck\<rparr>)"
  by (rule srv_inv_same_state [OF assms]; simp)+

lemma srv_inv_ops [inv_intros]:
  assumes i: "srv_inv s"
  shows "srv_inv (failTaskBinding r c m s)" "srv_inv (grace_expired t s)" "srv_inv (unbindTask t r s)"
    "srv_inv (resumeBinding t j s)" "srv_inv (approval_timer rid s)"
    "srv_inv (failBindingsForAgent j err s)" "srv_inv (holdBindingsForAgent j cc v err s)"
    "srv_inv (snd (decide rid d who via s))" "srv_inv (snd (received b rid d s))"
  using srv_inv_D [OF i]
  by - (rule srv_inv_keep [OF i]; simp add: inv_intros)+

lemma srv_inv_bind [inv_intros]: "srv_inv s \<Longrightarrow> r < next_ref s \<Longrightarrow> srv_inv (snd (bindTask r s))"
  by (rule srv_inv_keep) (simp_all add: inv_intros srv_inv_D)

lemma srv_inv_sinks [inv_intros]:
  assumes i: "srv_inv s"
  shows "srv_inv (pushStatus r e s)" "srv_inv (pushArtifact r a s)" "srv_inv (finish_sink r s)"
  using srv_inv_D [OF i] by - (rule srv_inv_keep [OF i]; simp add: inv_intros)+

lemma srv_inv_upd_obj [inv_intros]:
  assumes i: "srv_inv s" and h: "\<And>b. b_taskId (h b) = b_taskId b"
  shows "srv_inv (upd_obj r h s)"
  using srv_inv_D [OF i] h by (intro srv_inv_keep [OF i]) simp_all

lemma srv_inv_receipts [inv_intros]:
  assumes i: "srv_inv s"
  shows "srv_inv (rememberTerminalReceipt r q s)" "srv_inv (snd (getTerminalReceipt e j t s))"
  using srv_inv_D [OF i]
  by (auto intro!: srv_invI receipts_inv_remember receipts_inv_get simp: agents_inv_def)

lemma srv_inv_request [inv_intros]:
  assumes i: "srv_inv s" and r: "request_approval b rq s = Inr (a, t)"
  shows "srv_inv t"
proof -
  have f: "agents t = agents s" "receipts t = receipts s" "bindings t = bindings s" "holds t = holds s"
    "objs t = objs s" "next_ref t = next_ref s" "queues t = queues s"
    using r by (auto simp: request_approval_def Let_def split: option.splits if_splits)
  have "bind_inv t" "queue_inv t" "appr_inv t"
    using srv_inv_D [OF i] bind_inv_cong [of t s] queue_inv_cong [of t s] f appr_inv_request [OF _ r] by auto
  then show ?thesis using i f by (auto intro: srv_inv_keep)
qed

lemma agents_inv_set: "agents_inv s \<Longrightarrow> cn_agentId c = k \<Longrightarrow> agents_inv (s\<lparr>agents := map_set k c (agents s)\<rparr>)"
  by (auto simp: agents_inv_def split: if_splits)

lemma srv_inv_set_agents:
  assumes i: "srv_inv s" and c: "cn_agentId c = k"
  shows "srv_inv (s\<lparr>agents := map_set k c (agents s)\<rparr>)"
  using srv_inv_D [OF i] c receipts_inv_cong [of "s\<lparr>agents := map_set k c (agents s)\<rparr>" s]
  by (intro srv_invI) (simp_all add: agents_inv_set)

lemma srv_inv_set_agent [inv_intros]: "srv_inv s \<Longrightarrow> srv_inv (set_agent c s)"
  unfolding set_agent_def by (intro srv_inv_effects srv_inv_set_agents) simp_all

lemma srv_inv_register [inv_intros]: "srv_inv s \<Longrightarrow> srv_inv (snd (registerAgent c s))"
  by (auto simp: registerAgent_def Let_def intro!: srv_inv_set_agent srv_inv_ops srv_inv_effects split: option.splits)

lemma srv_inv_del_agent: "srv_inv s \<Longrightarrow> srv_inv (s\<lparr>agents := map_del i (agents s)\<rparr>)"
proof (rule srv_invI)
  assume i: "srv_inv s"
  show "agents_inv (s\<lparr>agents := map_del i (agents s)\<rparr>)" "receipts_inv (s\<lparr>agents := map_del i (agents s)\<rparr>)"
    using srv_inv_D [OF i] by (auto simp: agents_inv_def receipts_inv_def split: if_splits)
qed (simp_all add: srv_inv_D)

lemma srv_inv_unregister [inv_intros]: "srv_inv s \<Longrightarrow> srv_inv (unregisterAgent i w cc s)"
  by (auto simp: unregisterAgent_def Let_def
      intro!: srv_inv_ops srv_inv_effects srv_inv_del_agent split: option.splits)

lemma srv_inv_disconnect [inv_intros]: "srv_inv s \<Longrightarrow> srv_inv (snd (disconnectClient ci s))"
  unfolding disconnectClient_def
  by (rule fold_invariant [where Q = "\<lambda>_. True" and P = "\<lambda>acc. srv_inv (snd acc)"])
    (auto simp: disconnect_one_def intro!: srv_inv_effects)

lemma srv_inv_update [inv_intros]:
  assumes i: "srv_inv s"
  shows "srv_inv (updateAllowedCallers k cs s)" "srv_inv (updateX402Pricing k p s)"
proof -
  have "cn_agentId c = k" if "map_of (agents s) k = Some c" for c
    using srv_inv_D(4) [OF i] that by (simp add: agents_inv_def)
  then show "srv_inv (updateAllowedCallers k cs s)" "srv_inv (updateX402Pricing k p s)"
    using i by (auto simp: updateAllowedCallers_def updateX402Pricing_def Let_def getAgent_def
        intro!: srv_inv_effects srv_inv_set_agents split: option.splits)
qed

subsection \<open>Frames\<close>

lemma acknowledge_frame [simp, frame_simps]:
  "clock (acknowledge w r s) = clock s" "graceMs (acknowledge w r s) = graceMs s"
  "agents (acknowledge w r s) = agents s" "bindings (acknowledge w r s) = bindings s"
  "objs (acknowledge w r s) = objs s" "queues (acknowledge w r s) = queues s"
  "next_ref (acknowledge w r s) = next_ref s" "holds (acknowledge w r s) = holds s"
  "receipts (acknowledge w r s) = receipts s" "serverClosed (acknowledge w r s) = serverClosed s"
  "sockOpen (acknowledge w r s) = sockOpen s" "entries (acknowledge w r s) = entries s"
  "timers (acknowledge w r s) = timers s" "origins (acknowledge w r s) = origins s"
  by (simp_all add: acknowledge_def Let_def split: option.splits)

lemma srv_inv_acknowledge [inv_intros]: "srv_inv s \<Longrightarrow> srv_inv (acknowledge w r s)"
  by (rule srv_inv_same_state) simp_all

lemma srv_inv_receipt_or [inv_intros]: "srv_inv s \<Longrightarrow> srv_inv (snd (receipt_or acc w ag h s))"
  using srv_inv_receipts(2) [of s "get_or (h_executionId h) []" "get_or ag []" "h_taskId h"]
  by (auto simp: receipt_or_def acknowledgeReceipt_def Let_def intro!: srv_inv_effects split: option.splits prod.splits)

lemma srv_inv_reject [inv_intros]: "srv_inv s \<Longrightarrow> srv_inv (reject_frame r e c m s)"
  unfolding reject_frame_def by (intro srv_inv_effects srv_inv_ops)

lemma srv_inv_resume_opt [inv_intros]: "srv_inv s \<Longrightarrow> srv_inv (resume_opt ag t s)"
  by (auto simp: resume_opt_def intro: srv_inv_ops split: option.splits)

lemma srv_inv_accept [inv_intros]:
  assumes i: "srv_inv s"
  shows "srv_inv (snd (acceptTaskFrame w ag h s))"
proof -
  have u: "srv_inv (upd_obj r (\<lambda>b. b\<lparr>b_nextClientSeq := n\<rparr>) s)" for r n
    using i by (rule srv_inv_upd_obj) simp
  show ?thesis
    using i unfolding acceptTaskFrame_def Let_def
    by (simp split: option.split add: srv_inv_receipt_or srv_inv_reject srv_inv_resume_opt u
        srv_inv_ops srv_inv_acknowledge)
qed

lemma srv_inv_terminate [inv_intros]: "srv_inv s \<Longrightarrow> srv_inv (terminate w t r e s)"
  unfolding terminate_def Let_def
  by (intro srv_inv_acknowledge srv_inv_ops)
    (simp split: option.split add: srv_inv_sinks srv_inv_receipts)

lemma srv_inv_on_accepted [inv_intros]:
  assumes i: "srv_inv s"
  shows "srv_inv (on_accepted w t r body s)"
proof (cases body)
  case (ApprovalRequestB rq)
  show ?thesis
  proof (cases "caps_include (Option.bind (getAgent (b_agentId (objs s r)) s) cn_protocolCapabilities)
      REMOTE_APPROVAL_CAPABILITY")
    case True
    show ?thesis
    proof (cases "request_approval (objs s r) rq s")
      case (Inl e)
      with ApprovalRequestB True i show ?thesis
        by (simp add: on_accepted_def Let_def srv_inv_ops srv_inv_effects)
    next
      case (Inr p)
      then have "srv_inv (snd p)" by (cases p) (simp add: srv_inv_request [OF i])
      with ApprovalRequestB True Inr show ?thesis
        by (cases p) (simp add: on_accepted_def Let_def srv_inv_acknowledge srv_inv_sinks)
    qed
  next
    case False
    with ApprovalRequestB i show ?thesis
      by (simp add: on_accepted_def Let_def srv_inv_ops srv_inv_effects)
  qed
next
  case (ApprovalReceivedB rid d)
  obtain res s1 where r: "received (objs s r) rid d s = (res, s1)" by (cases "received (objs s r) rid d s")
  then have "srv_inv s1" using srv_inv_ops(9) [OF i, of "objs s r" rid d] by simp
  with ApprovalReceivedB r show ?thesis
    by (simp add: on_accepted_def Let_def srv_inv_acknowledge srv_inv_sinks split: option.split)
next
  case (StatusB st md)
  have "srv_inv (upd_obj r (\<lambda>b. b\<lparr>b_heartbeats := Some (get_or (b_heartbeats b) 0 + 1)\<rparr>) s)"
    using i by (rule srv_inv_upd_obj) simp
  with StatusB i show ?thesis
    by (simp add: on_accepted_def Let_def srv_inv_acknowledge srv_inv_sinks)
next
  case (ArtifactB a ap l)
  then show ?thesis
    using i by (simp add: on_accepted_def Let_def srv_inv_acknowledge srv_inv_sinks)
next
  case (CompleteB st u)
  have "srv_inv (upd_obj r (\<lambda>b. b\<lparr>b_usage := u\<rparr>) s)"
    using i by (rule srv_inv_upd_obj) simp
  with CompleteB i show ?thesis
    by (simp add: on_accepted_def Let_def srv_inv_terminate)
next
  case (FailB c m)
  then show ?thesis
    using i by (simp add: on_accepted_def Let_def srv_inv_terminate)
qed

lemma srv_inv_frame [inv_intros]:
  assumes i: "srv_inv s"
  shows "srv_inv (handle_task_frame w ag h body s)"
proof -
  obtain acc s1 where a: "acceptTaskFrame w ag h s = (acc, s1)" by (cases "acceptTaskFrame w ag h s")
  then have "srv_inv s1" using srv_inv_accept [OF i, of w ag h] by simp
  with a show ?thesis by (cases acc) (simp_all add: handle_task_frame_def srv_inv_on_accepted)
qed

subsection \<open>Handshake, usage requests, close\<close>

lemma srv_inv_auth [inv_intros]:
  assumes i: "srv_inv s"
  shows "srv_inv (snd (authenticateAndRegister cards w f row s))"
  using i by (simp add: authenticateAndRegister_def Let_def srv_inv_register split: option.split sum.split prod.split)
    (auto dest!: arg_cong [where f = snd] intro: srv_inv_register)

lemma srv_inv_auth_done [inv_intros]: "srv_inv (snd cs) \<Longrightarrow> srv_inv (snd (auth_done cards w f row cs))"
proof -
  assume i: "srv_inv (snd cs)"
  obtain c s where cs: "cs = (c, s)" by (cases cs)
  obtain err s1 where a: "authenticateAndRegister cards w f row s = (err, s1)"
    by (cases "authenticateAndRegister cards w f row s")
  then have "srv_inv s1" using srv_inv_auth [of s cards w f row] i cs by simp
  with a cs show ?thesis
    by (cases err) (auto simp: auth_done_def Let_def srv_inv_effects srv_inv_unregister split: option.split prod.split)
qed

lemma srv_inv_usage [inv_intros]:
  assumes i: "srv_inv s"
  shows "srv_inv (requestUsage ag ms rid s)" "srv_inv (usage_timeout ms rid s)"
    "srv_inv (resolveUsageResponse ag f s)"
proof -
  have p: "srv_inv (s\<lparr>pendingUsage := p\<rparr>)" for p using i by (rule srv_inv_effects)
  show "srv_inv (usage_timeout ms rid s)" "srv_inv (resolveUsageResponse ag f s)"
    using i by (auto simp: usage_timeout_def resolveUsageResponse_def intro!: srv_inv_effects split: option.splits)
  obtain b s1 where "sendToAgent ag (UsageRequest rid)
    (s\<lparr>pendingUsage := map_set rid \<lparr>pu_agentId = ag, pu_deadline = clock s + ms\<rparr> (pendingUsage s)\<rparr>) = (b, s1)"
    (is "?S = _") by (cases ?S)
  moreover from this have "srv_inv s1" using srv_inv_effects(4) [OF p] by (metis snd_conv)
  ultimately show "srv_inv (requestUsage ag ms rid s)"
    by (auto simp: requestUsage_def Let_def intro!: srv_inv_effects)
qed

lemma srv_inv_authed [inv_intros]: "srv_inv s \<Longrightarrow> srv_inv (processAuthedFrame w ag f s)"
  by (simp add: processAuthedFrame_def srv_inv_frame srv_inv_usage srv_inv_effects split: up_frame.split option.split)

lemma srv_inv_message [inv_intros]: "srv_inv (snd cs) \<Longrightarrow> srv_inv (snd (snd (on_message w m cs)))"
  by (cases cs) (simp add: on_message_def Let_def srv_inv_effects srv_inv_authed split: raw_message.split up_frame.split)

lemma srv_inv_socket [inv_intros]:
  "srv_inv (snd cs) \<Longrightarrow> srv_inv (snd (auth_failed w cs))"
  "srv_inv (snd cs) \<Longrightarrow> srv_inv (snd (hello_timeout w cs))"
  "srv_inv (snd cs) \<Longrightarrow> srv_inv (snd (on_close w code cs))"
  "srv_inv s \<Longrightarrow> srv_inv (on_error w c s)"
  by (cases cs; simp add: auth_failed_def hello_timeout_def on_close_def on_error_def Let_def
      srv_inv_effects srv_inv_unregister split: option.split)+

subsection \<open>Frames orphan no stream\<close>

lemma closes_unbind:
  assumes "\<not> q_open (queues s r)"
  shows "closes s (unbindTask t r s)"
  using assms by (auto simp: closes_def unbindTask_def Let_def bound_def getBinding_def)

lemma closes_acknowledge [simp]: "closes s (acknowledge w r s)"
  by (rule closesI_same) simp_all

lemma closes_pending [simp]: "closes s (s\<lparr>pendingUsage := p\<rparr>)" "closes s (s\<lparr>sockOpen := so\<rparr>)"
  by (rule closesI_same; simp)+

lemma closes_reject [simp]: "closes s (reject_frame r e c m s)"
  unfolding reject_frame_def by (rule closes_trans [OF closes_failTask closes_same(4)])

definition receipt_for :: "string \<Rightarrow> string \<Rightarrow> string \<Rightarrow> srv \<Rightarrow> int option" where
  "receipt_for e i t s =
     (case map_of (filter (\<lambda>(k, r). rp_expiresAt r > clock s) (receipts s)) e of
        None \<Rightarrow> None
      | Some rc \<Rightarrow> if rp_agentId rc = i \<and> rp_taskId rc = t then Some (rp_acceptedSeq rc) else None)"

lemma getTerminalReceipt_eq:
  "getTerminalReceipt e i t s = (receipt_for e i t s, pruneTerminalReceipts (clock s) s)"
  by (auto simp: getTerminalReceipt_def receipt_for_def pruneTerminalReceipts_def Let_def split: option.split)

lemma closes_prune [simp]: "closes s (pruneTerminalReceipts n s)"
  by (rule closesI_same) simp_all

lemma closes_receipt_or [simp]: "closes s (snd (receipt_or acc w ag h s))"
proof -
  have "closes s (send_ws w f (pruneTerminalReceipts n s))" for f n
    by (rule closes_trans [OF closes_prune closes_same(2)])
  then show ?thesis
    by (simp add: receipt_or_def acknowledgeReceipt_def getTerminalReceipt_eq Let_def split: option.split)
qed

lemma closes_resume_opt [simp]: "closes s (resume_opt ag t s)"
  by (simp add: resume_opt_def split: option.split)

lemma closes_accept [simp]: "closes s (snd (acceptTaskFrame w ag h s))"
proof -
  have "closes s (resume_opt ag t (upd_obj r (\<lambda>b. b\<lparr>b_nextClientSeq := n\<rparr>) s))" for t r n
    by (rule closes_trans [OF closes_upd_obj closes_resume_opt]) simp
  moreover have "closes s (resumeBinding t i (acknowledge w r s))" for t i r
    by (rule closes_trans [OF closes_acknowledge closes_same(15)])
  ultimately show ?thesis
    unfolding acceptTaskFrame_def Let_def by (simp split: option.split)
qed

lemma closes_terminate [simp]: "closes s (terminate w t r e s)"
proof -
  define s1 where "s1 = finish_sink r (pushStatus r e s)"
  define s2 where "s2 = (case (b_executionId (objs s1 r), b_nextClientSeq (objs s1 r)) of
      (Some _, Some n) \<Rightarrow> rememberTerminalReceipt r (int n - 1) s1 | _ \<Rightarrow> s1)"
  have "closes s s1" unfolding s1_def by (rule closes_trans [OF closes_sinks(1) closes_sinks(3)])
  also have "closes s1 s2" unfolding s2_def by (simp split: option.split)
  also have "closes s2 (unbindTask t r s2)"
  proof (rule closes_unbind)
    have "\<not> q_open (queues s1 r)" by (simp add: s1_def sink_defs)
    with \<open>closes s1 s2\<close> show "\<not> q_open (queues s2 r)" by (simp add: closes_def)
  qed
  also have "closes (unbindTask t r s2) (acknowledge w r (unbindTask t r s2))" by simp
  finally show ?thesis unfolding terminate_def Let_def s1_def s2_def .
qed

lemma closes_push_ack:
  assumes "closes s s1"
  shows "closes s (acknowledge w r (pushStatus r e s1))" "closes s (acknowledge w r (pushArtifact r a s1))"
    "closes s (acknowledge w r s1)"
  using assms by (blast intro: closes_trans closes_acknowledge closes_sinks)+

lemma closes_request:
  assumes "request_approval b rq s = Inr (a, t)"
  shows "closes s t"
  by (rule closesI_same) (use assms in \<open>auto simp: request_approval_def Let_def split: option.splits if_splits\<close>)

lemma closes_on_accepted [simp]: "closes s (on_accepted w t r body s)"
proof (cases body)
  case (ApprovalRequestB rq)
  have f: "closes s (failTaskBinding r c m (send_agent i f s))" for c m i f
    by (rule closes_trans [OF closes_same(4) closes_failTask])
  show ?thesis
  proof (cases "request_approval (objs s r) rq s")
    case (Inr p)
    then obtain a s1 where "request_approval (objs s r) rq s = Inr (a, s1)" by (cases p) auto
    with closes_request [OF this] ApprovalRequestB f show ?thesis
      by (simp add: on_accepted_def Let_def closes_push_ack)
  qed (use ApprovalRequestB f in \<open>simp add: on_accepted_def Let_def\<close>)
next
  case (ApprovalReceivedB rid d)
  obtain res s1 where r: "received (objs s r) rid d s = (res, s1)" by (cases "received (objs s r) rid d s")
  then have "closes s s1" using closes_same(10) [of s "objs s r" rid d] by simp
  with ApprovalReceivedB r show ?thesis
    by (simp add: on_accepted_def Let_def closes_push_ack split: option.split)
next
  case (StatusB st md)
  have "closes s (upd_obj r (\<lambda>b. b\<lparr>b_heartbeats := Some (get_or (b_heartbeats b) 0 + 1)\<rparr>) s)" by simp
  with StatusB show ?thesis by (simp add: on_accepted_def Let_def closes_push_ack)
next
  case (ArtifactB a ap l)
  then show ?thesis by (simp add: on_accepted_def Let_def closes_push_ack)
next
  case (CompleteB st u)
  have "closes s (terminate w t r e (upd_obj r (\<lambda>b. b\<lparr>b_usage := u\<rparr>) s))" for e
    by (rule closes_trans [OF closes_upd_obj closes_terminate]) simp
  with CompleteB show ?thesis by (simp add: on_accepted_def Let_def)
next
  case (FailB c m)
  then show ?thesis by (simp add: on_accepted_def Let_def)
qed

lemma closes_frame [simp]: "closes s (handle_task_frame w ag h body s)"
proof -
  obtain acc s1 where a: "acceptTaskFrame w ag h s = (acc, s1)" by (cases "acceptTaskFrame w ag h s")
  then have c: "closes s s1" using closes_accept [of s w ag h] by simp
  with a closes_trans [OF c closes_on_accepted] show ?thesis
    by (cases acc) (simp_all add: handle_task_frame_def)
qed

lemma closes_usage [simp]:
  "closes s (requestUsage ag ms rid s)" "closes s (usage_timeout ms rid s)" "closes s (resolveUsageResponse ag f s)"
  by (rule closesI_same;
      simp add: requestUsage_def usage_timeout_def resolveUsageResponse_def sendToAgent_def Let_def split: option.split)+

lemma closes_close [simp]: "closes s (close_ws w c rs (noteServerClose v s))"
  by (rule closes_trans [OF closes_same(17) closes_same(3)])

lemma closes_authed [simp]: "closes s (processAuthedFrame w ag f s)"
  by (simp add: processAuthedFrame_def split: up_frame.split option.split)

lemma closes_message [simp]: "closes (snd cs) (snd (snd (on_message w m cs)))"
  by (cases cs) (simp add: on_message_def Let_def split: raw_message.split up_frame.split)

lemma closes_auth [simp]: "closes s (snd (authenticateAndRegister cards w f row s))"
proof -
  have "closes s s1" if "registerAgent c s = (err, s1)" for c err s1
    using closes_register [of s c] that by simp
  then show ?thesis
    by (simp add: authenticateAndRegister_def Let_def split: option.split sum.split prod.split)
qed

lemma closes_auth_done [simp]: "closes (snd cs) (snd (auth_done cards w f row cs))"
proof -
  obtain c s where cs: "cs = (c, s)" by (cases cs)
  obtain err s1 where a: "authenticateAndRegister cards w f row s = (err, s1)"
    by (cases "authenticateAndRegister cards w f row s")
  then have "closes s s1" using closes_auth [of s cards w f row] by simp
  then have "closes s (close_ws v c' rs s1)" "closes s (send_ws v fr s1)" "closes s (unregisterAgent i v cc s1)"
    for v c' rs fr i cc
    by (blast intro: closes_trans closes_same closes_unregister)+
  with a cs \<open>closes s s1\<close> show ?thesis
    by (cases err) (auto simp: auth_done_def Let_def split: option.split prod.split)
qed

lemma closes_socket [simp]:
  "closes (snd cs) (snd (auth_failed w cs))" "closes (snd cs) (snd (hello_timeout w cs))"
  "closes (snd cs) (snd (on_close w code cs))" "closes s (on_error w c s)"
proof -
  have "closes s (unregisterAgent i w cc (s\<lparr>sockOpen := so\<rparr>))" for s i cc so
    by (rule closes_trans [OF closes_pending(2) closes_unregister])
  then show "closes (snd cs) (snd (on_close w code cs))"
    by (cases cs) (simp add: on_close_def Let_def split: option.split)
qed (cases cs; simp add: auth_failed_def hello_timeout_def on_error_def Let_def)+

end
