(* ===== verification/Frames.thy ===== *)
theory Frames
  imports WsInv
begin

text \<open>
  What a frame does, branch by branch: when it is accepted, that it touches no other agent's
  task, what a duplicate and a gap do. A small concrete server for the witnesses.
\<close>

subsection \<open>A concrete server\<close>

definition sample_binding :: binding where
  "sample_binding = \<lparr>b_agentId = ''a'', b_taskId = ''t'', b_executionId = Some ''e'', b_nextClientSeq = Some 2,
     b_contextId = ''c'', b_principalId = Some ''p'', b_actorId = None, b_authorizationProfile = None,
     b_authorizationKey = None, b_requestedExtensions = None, b_heartbeats = None, b_usage = None\<rparr>"

definition sample_card :: agent_card where
  "sample_card = \<lparr>ac_name = ''echo'', ac_capabilities = None, ac_rest = []\<rparr>"

definition sample_conn :: connection where
  "sample_conn = \<lparr>cn_agentId = ''a'', cn_clientId = ''k'', cn_ownerPrincipal = ''o'', cn_ownerEmail = None,
     cn_backendKind = None, cn_protocolCapabilities = Some [TASK_REPLAY_CAPABILITY, REMOTE_APPROVAL_CAPABILITY],
     cn_identityTrust = None, cn_agentCard = sample_card, cn_allowedCallers = [], cn_x402Pricing = None,
     cn_ws = 1, cn_connectedAt = 0\<rparr>"

definition empty_srv :: "int \<Rightarrow> srv" where
  "empty_srv grace = \<lparr>clock = 0, graceMs = grace, agents = [], bindings = [], objs = (\<lambda>_. sample_binding),
     queues = (\<lambda>_. new_queue), next_ref = 0, holds = [], receipts = [], serverClosed = [],
     sockOpen = (\<lambda>_. True), entries = [], timers = [], origins = [], pendingUsage = [], effects = []\<rparr>"

lemma empty_srv_inv: "srv_inv (empty_srv g)"
  by (simp add: srv_inv_def bind_inv_def queue_inv_def appr_inv_def agents_inv_def receipts_inv_def empty_srv_def)

text \<open>One agent on socket 1 running one task that has sent two frames.\<close>

definition sample_srv :: srv where
  "sample_srv = (empty_srv 30000)\<lparr>agents := [(''a'', sample_conn)], bindings := [(''t'', 0)], next_ref := 1\<rparr>"

lemma sample_srv_inv: "srv_inv sample_srv"
  by (simp add: srv_inv_def bind_inv_def queue_inv_def appr_inv_def agents_inv_def receipts_inv_def
      empty_srv_def sample_srv_def sample_binding_def sample_conn_def)

lemmas sample_defs = sample_srv_def empty_srv_def sample_binding_def sample_conn_def

definition sample_hdr :: "nat \<Rightarrow> frame_hdr" where
  "sample_hdr n = \<lparr>h_taskId = ''t'', h_executionId = Some ''e'', h_seq = Some n\<rparr>"

subsection \<open>Acceptance\<close>

lemma receipt_or_not_accepted: "other \<noteq> Accepted r \<Longrightarrow> fst (receipt_or other w ag h s) \<noteq> Accepted r"
  by (simp add: receipt_or_def split: prod.split)

text \<open>A frame of a task is accepted exactly when the task is bound, the binding belongs to
  the agent this connection authenticated as, and the frame is the next one of the binding's
  own execution; a binding without an execution takes only frames that name none. Everything
  else (another agent's task, another execution, a duplicate, a gap, a missing field) is not.\<close>

theorem accepted_iff:
  "fst (acceptTaskFrame w agentId h s) = Accepted r \<longleftrightarrow>
     getBinding (h_taskId h) s = Some r \<and> agentId = Some (b_agentId (objs s r)) \<and>
     h_executionId h = b_executionId (objs s r) \<and>
     h_seq h = (if b_executionId (objs s r) = None then None
                else Some (get_or (b_nextClientSeq (objs s r)) 0))"
proof (cases "getBinding (h_taskId h) s")
  case None
  then show ?thesis by (simp add: acceptTaskFrame_def receipt_or_not_accepted)
next
  case (Some r0)
  show ?thesis
  proof (cases "Some (b_agentId (objs s r0)) = agentId")
    case False
    with Some show ?thesis by (auto simp: acceptTaskFrame_def ownedBinding_def)
  next
    case True
    with Some have o: "ownedBinding agentId (h_taskId h) s = Some r0" by (simp add: ownedBinding_def)
    show ?thesis
    proof (cases "b_executionId (objs s r0)")
      case None
      with Some True o show ?thesis
        by (auto simp: acceptTaskFrame_def receipt_or_not_accepted)
    next
      case e: (Some e)
      with Some True o show ?thesis
        by (cases "h_seq h") (auto simp: acceptTaskFrame_def Let_def receipt_or_not_accepted)
    qed
  qed
qed

lemma accepted_state:
  assumes "fst (acceptTaskFrame w agentId h s) = Accepted r" and "b_executionId (objs s r) = Some e"
  shows "snd (acceptTaskFrame w agentId h s) =
    resumeBinding (h_taskId h) (b_agentId (objs s r))
      (upd_obj r (\<lambda>b. b\<lparr>b_nextClientSeq := Some (get_or (b_nextClientSeq (objs s r)) 0 + 1)\<rparr>) s)"
  using assms(1) unfolding accepted_iff
  by (simp add: acceptTaskFrame_def ownedBinding_def resume_opt_def Let_def assms(2))

subsection \<open>Isolation between agents\<close>

text \<open>\<open>untouched r s t\<close>: the binding, its stream and its place in the registry are the same.\<close>

definition untouched :: "bref \<Rightarrow> srv \<Rightarrow> srv \<Rightarrow> bool" where
  "untouched r s t \<longleftrightarrow>
     objs t r = objs s r \<and> queues t r = queues s r \<and>
     (bound r s \<longrightarrow> bound r t) \<and> (bound r s \<longrightarrow> map_of (holds t) (b_taskId (objs s r)) = map_of (holds s) (b_taskId (objs s r)))"

lemma untouched_refl [simp]: "untouched r s s"
  by (simp add: untouched_def)

lemma untouched_trans [trans]: "untouched r s t \<Longrightarrow> untouched r t u \<Longrightarrow> untouched r s u"
  by (auto simp: untouched_def)

lemma untouchedI_same:
  "queues t = queues s \<Longrightarrow> bindings t = bindings s \<Longrightarrow> objs t = objs s \<Longrightarrow> holds t = holds s \<Longrightarrow> untouched r s t"
  by (simp add: untouched_def bound_def getBinding_def)

lemma untouched_same [simp]:
  "untouched r s (send_ws w f s)" "untouched r s (send_agent i f s)" "untouched r s (acknowledge w r' s)"
  "untouched r s (invalidate b s)" "untouched r s (rememberTerminalReceipt r' q s)"
  "untouched r s (pruneTerminalReceipts n s)" "untouched r s (snd (received b rid d s))"
  by (rule untouchedI_same; simp)+

lemma untouched_sinks [simp]:
  "r \<noteq> r' \<Longrightarrow> untouched r s (pushStatus r' e s)" "r \<noteq> r' \<Longrightarrow> untouched r s (pushArtifact r' a s)"
  "r \<noteq> r' \<Longrightarrow> untouched r s (finish_sink r' s)"
  by (auto simp: untouched_def bound_def getBinding_def sink_defs)

lemma untouched_upd_obj [simp]: "r \<noteq> r' \<Longrightarrow> untouched r s (upd_obj r' h s)"
  by (simp add: untouched_def bound_def getBinding_def upd_obj_def)

text \<open>Ending another binding of the registry.\<close>

lemma bound_unique: "bound r s \<Longrightarrow> getBinding (b_taskId (objs s r)) s = Some r' \<Longrightarrow> r' = r"
  by (simp add: bound_def)

lemma untouched_failTask:
  assumes "r \<noteq> r'"
  shows "untouched r s (failTaskBinding r' c m s)"
proof (cases "getBinding (b_taskId (objs s r')) s = Some r'")
  case True
  with assms have "b_taskId (objs s r) \<noteq> b_taskId (objs s r')" if "bound r s"
    using that by (auto simp: bound_def)
  with True assms show ?thesis
    by (auto simp: untouched_def failTaskBinding_def Let_def bound_def getBinding_def)
qed (simp add: failTaskBinding_def Let_def)

lemma untouched_unbind:
  assumes "r \<noteq> r'" and "t = b_taskId (objs s r')"
  shows "untouched r s (unbindTask t r' s)"
proof (cases "getBinding t s = Some r'")
  case True
  with assms have "b_taskId (objs s r) \<noteq> t" if "bound r s"
    using that by (auto simp: bound_def)
  with True assms show ?thesis
    by (auto simp: untouched_def unbindTask_def Let_def bound_def getBinding_def)
qed (use assms in \<open>simp add: untouched_def unbindTask_def Let_def bound_def getBinding_def\<close>)

lemma untouched_resume:
  assumes i: "bind_inv s" and r: "b_agentId (objs s r) \<noteq> ag"
  shows "untouched r s (resumeBinding t ag s)"
proof -
  have "b_agentId (objs s (hd_binding h)) \<noteq> ag"
    if "bound r s" "b_taskId (objs s r) = t" "map_of (holds s) t = Some h" for h
    using bind_inv_D(5) [OF i that(3)] that r by (simp add: bound_def getBinding_def)
  then show ?thesis
    by (auto simp: untouched_def resumeBinding_def bound_def getBinding_def split: option.splits)
qed

lemma untouched_reject: "r \<noteq> r' \<Longrightarrow> untouched r s (reject_frame r' e c m s)"
  unfolding reject_frame_def by (rule untouched_trans [OF untouched_failTask untouched_same(2)])

lemma untouched_receipt_or [simp]: "untouched r s (snd (receipt_or acc w ag h s))"
proof -
  have "untouched r s (send_ws w f (pruneTerminalReceipts n s))" for f n
    by (rule untouched_trans [OF untouched_same(6) untouched_same(1)])
  then show ?thesis
    by (simp add: receipt_or_def acknowledgeReceipt_def getTerminalReceipt_eq Let_def split: option.split)
qed

lemma untouched_accept:
  assumes i: "bind_inv s" and r: "Some (b_agentId (objs s r)) \<noteq> ag"
  shows "untouched r s (snd (acceptTaskFrame w ag h s))"
proof (cases "ownedBinding ag (h_taskId h) s")
  case (Some r')
  then have r': "ag = Some (b_agentId (objs s r'))" "getBinding (h_taskId h) s = Some r'"
    by (auto simp: ownedBinding_def split: option.splits if_splits)
  with r have ne: "r \<noteq> r'" by auto
  have u1: "untouched r s (resumeBinding (h_taskId h) (b_agentId (objs s r')) (acknowledge w r' s))"
    by (rule untouched_trans [OF untouched_same(3)], rule untouched_resume)
      (use i r r' bind_inv_cong [of "acknowledge w r' s" s] in simp_all)
  have u2: "untouched r s (resume_opt ag (h_taskId h) (upd_obj r' (\<lambda>b. b\<lparr>b_nextClientSeq := n\<rparr>) s))" for n
  proof -
    let ?s = "upd_obj r' (\<lambda>b. b\<lparr>b_nextClientSeq := n\<rparr>) s"
    have "bind_inv ?s" using i by simp
    moreover have "b_agentId (objs ?s r) \<noteq> b_agentId (objs s r')" using r r' ne by (simp add: upd_obj_def)
    ultimately show ?thesis
      unfolding r'(1) resume_opt_def option.case
      by (intro untouched_trans [OF untouched_upd_obj [OF ne] untouched_resume])
  qed
  have u3: "untouched r s (resume_opt ag (h_taskId h) s)"
    using r' r i unfolding r'(1) resume_opt_def option.case by (intro untouched_resume) simp_all
  show ?thesis
    using r' ne u1 u2 u3 Some
    by (simp add: acceptTaskFrame_def Let_def untouched_reject split: option.split)
next
  case None
  then show ?thesis by (simp add: acceptTaskFrame_def split: option.split)
qed

lemma untouched_push_ack:
  assumes u: "untouched r s s1" and ne: "r \<noteq> r'"
  shows "untouched r s (acknowledge w r' (pushStatus r' e s1))"
    "untouched r s (acknowledge w r' (pushArtifact r' a s1))" "untouched r s (acknowledge w r' s1)"
  by (rule untouched_trans [OF u untouched_trans [OF untouched_sinks(1) [OF ne] untouched_same(3)]])
    (rule untouched_trans [OF u untouched_trans [OF untouched_sinks(2) [OF ne] untouched_same(3)]]
      untouched_trans [OF u untouched_same(3)])+

lemma untouched_terminate:
  assumes ne: "r \<noteq> r'" and t: "t = b_taskId (objs s r')"
  shows "untouched r s (terminate w t r' e s)"
proof -
  define s1 where "s1 = finish_sink r' (pushStatus r' e s)"
  define s2 where "s2 = (case (b_executionId (objs s1 r'), b_nextClientSeq (objs s1 r')) of
      (Some _, Some n) \<Rightarrow> rememberTerminalReceipt r' (int n - 1) s1 | _ \<Rightarrow> s1)"
  have "untouched r s s1"
    unfolding s1_def by (rule untouched_trans [OF untouched_sinks(1) untouched_sinks(3)]) (rule ne)+
  also have "untouched r s1 s2" unfolding s2_def by (simp split: option.split)
  also have "untouched r s2 (unbindTask t r' s2)"
    by (rule untouched_unbind [OF ne]) (simp add: t s1_def s2_def split: option.split)
  also have "untouched r (unbindTask t r' s2) (acknowledge w r' (unbindTask t r' s2))" by simp
  finally show ?thesis unfolding terminate_def Let_def s1_def s2_def .
qed

lemma untouched_on_accepted:
  assumes ne: "r \<noteq> r'" and t: "t = b_taskId (objs s r')"
  shows "untouched r s (on_accepted w t r' body s)"
proof (cases body)
  case (ApprovalRequestB rq)
  have f: "untouched r s (failTaskBinding r' c m (send_agent i f s))" for c m i f
    by (rule untouched_trans [OF untouched_same(2) untouched_failTask [OF ne]])
  show ?thesis
  proof (cases "request_approval (objs s r') rq s")
    case (Inr p)
    then obtain a s1 where p: "request_approval (objs s r') rq s = Inr (a, s1)" by (cases p) auto
    then have "untouched r s s1"
      by (intro untouchedI_same) (auto simp: request_approval_def Let_def split: option.splits if_splits)
    with p ApprovalRequestB f show ?thesis
      by (simp add: on_accepted_def Let_def untouched_push_ack ne)
  qed (use ApprovalRequestB f in \<open>simp add: on_accepted_def Let_def\<close>)
next
  case (ApprovalReceivedB rid d)
  obtain res s1 where p: "received (objs s r') rid d s = (res, s1)" by (cases "received (objs s r') rid d s")
  then have "untouched r s s1" using untouched_same(7) [of r s "objs s r'" rid d] by simp
  with ApprovalReceivedB p show ?thesis
    by (simp add: on_accepted_def Let_def untouched_push_ack ne split: option.split)
next
  case (StatusB st md)
  have "untouched r s (upd_obj r' (\<lambda>b. b\<lparr>b_heartbeats := Some (get_or (b_heartbeats b) 0 + 1)\<rparr>) s)"
    using ne by simp
  with StatusB show ?thesis by (simp add: on_accepted_def Let_def untouched_push_ack ne)
next
  case (ArtifactB a ap l)
  then show ?thesis by (simp add: on_accepted_def Let_def untouched_push_ack ne)
next
  case (CompleteB st u)
  have "untouched r s (terminate w t r' e (upd_obj r' (\<lambda>b. b\<lparr>b_usage := u\<rparr>) s))" for e
    by (rule untouched_trans [OF untouched_upd_obj [OF ne] untouched_terminate [OF ne]])
      (simp add: t upd_obj_def)
  with CompleteB ne t show ?thesis by (simp add: on_accepted_def Let_def untouched_terminate)
next
  case (FailB c m)
  then show ?thesis by (simp add: on_accepted_def Let_def untouched_terminate ne t)
qed

text \<open>Claim C2. Whatever an authenticated agent sends, in whatever order and with whatever task,
  execution and sequence it claims, the task of any other agent keeps its binding, its stream,
  its sequence number and its grace hold.\<close>

theorem agents_isolated:
  assumes inv: "srv_inv s" and other: "b_agentId (objs s r) \<noteq> ag"
  shows "untouched r s (processAuthedFrame w (Some ag) f s)"
proof (cases f)
  case (TaskFrame h body)
  have i: "bind_inv s" using inv by (rule srv_inv_D)
  obtain acc s1 where a: "acceptTaskFrame w (Some ag) h s = (acc, s1)"
    by (cases "acceptTaskFrame w (Some ag) h s")
  with untouched_accept [OF i] other have u: "untouched r s s1" by (metis option.inject snd_conv)
  show ?thesis
  proof (cases acc)
    case (Accepted r')
    with a have acc: "getBinding (h_taskId h) s = Some r'" "b_agentId (objs s r') = ag"
      using accepted_iff [of w "Some ag" h s r'] by auto
    then have "r \<noteq> r'" using other by auto
    have "b_taskId (objs s1 r') = b_taskId (objs s r')"
      using a acc Accepted unfolding acceptTaskFrame_def
      by (auto simp: ownedBinding_def resume_opt_def upd_obj_def Let_def receipt_or_def split: option.splits if_splits prod.splits)
    then have "h_taskId h = b_taskId (objs s1 r')"
      using acc bind_inv_D(3) [OF i] by (simp add: getBinding_def)
    with \<open>r \<noteq> r'\<close> have "untouched r s1 (on_accepted w (h_taskId h) r' body s1)"
      by (rule untouched_on_accepted)
    with u Accepted a TaskFrame show ?thesis
      by (simp add: processAuthedFrame_def handle_task_frame_def) (rule untouched_trans)
  qed (use u a TaskFrame in \<open>simp_all add: processAuthedFrame_def handle_task_frame_def\<close>)
next
  case (UsageResponse u)
  then show ?thesis
    by (intro untouchedI_same)
      (simp_all add: processAuthedFrame_def resolveUsageResponse_def split: option.split)
next
  case (Hello h)
  then show ?thesis by (intro untouchedI_same) (simp_all add: processAuthedFrame_def)
qed (simp add: processAuthedFrame_def)

theorem agents_isolated_witness:
  "untouched 0 sample_srv
     (processAuthedFrame 9 (Some ''b'') (TaskFrame (sample_hdr 2) (FailB ''x'' ''y'')) sample_srv)"
  by (rule agents_isolated [OF sample_srv_inv]) (simp add: sample_defs)

subsection \<open>Duplicates and gaps\<close>

lemma owned_cases:
  assumes "getBinding t s = Some r"
  shows "ownedBinding (Some (b_agentId (objs s r))) t s = Some r"
  using assms by (simp add: ownedBinding_def)

text \<open>Replaying a frame the server already accepted changes nothing but the grace hold:
  no event reaches the stream, the sequence stays, the task lives on, a pending hold is lifted,
  and the client is told again up to where the server is.\<close>

theorem duplicate_is_acknowledged:
  assumes i: "srv_inv s" and b: "getBinding (h_taskId h) s = Some r" and e: "b_executionId (objs s r) = Some e"
    and n: "b_nextClientSeq (objs s r) = Some n"
    and h: "h_executionId h = Some e" "h_seq h = Some k" "k < n"
  shows "let t = handle_task_frame w (Some (b_agentId (objs s r))) h body s in
    queues t = queues s \<and> objs t = objs s \<and> bindings t = bindings s \<and> entries t = entries s \<and>
    map_of (holds t) (h_taskId h) = None \<and>
    effects t = effects s @ (if sockOpen s w then [SendFrame w (TaskAck (b_taskId (objs s r)) e (int n - 1))] else [])"
proof -
  let ?s = "acknowledge w r s"
  have t: "handle_task_frame w (Some (b_agentId (objs s r))) h body s =
      resumeBinding (h_taskId h) (b_agentId (objs s r)) ?s"
    using b e n h by (simp add: handle_task_frame_def acceptTaskFrame_def owned_cases Let_def)
  have "map_of (holds (resumeBinding (h_taskId h) (b_agentId (objs s r)) ?s)) (h_taskId h) = None"
  proof (cases "map_of (holds s) (h_taskId h)")
    case (Some hd)
    with bind_inv_D(5) [OF srv_inv_D(1) [OF i]] b have "hd_binding hd = r" by (simp add: getBinding_def)
    with Some b show ?thesis by (simp add: resumeBinding_def getBinding_def)
  qed (simp add: resumeBinding_def)
  moreover have "effects ?s = effects s @
      (if sockOpen s w then [SendFrame w (TaskAck (b_taskId (objs s r)) e (int n - 1))] else [])"
    using e n by (simp add: acknowledge_def Let_def send_ws_def emit_def)
  ultimately show ?thesis unfolding t Let_def by simp
qed

theorem duplicate_is_acknowledged_witness:
  "let t = handle_task_frame 1 (Some ''a'') (sample_hdr 1) (FailB ''x'' ''y'') sample_srv in
    queues t = queues sample_srv \<and> effects t = [SendFrame 1 (TaskAck ''t'' ''e'' 1)]"
  using duplicate_is_acknowledged [OF sample_srv_inv, of "sample_hdr 1" 0 "''e''" 2 1 1 "FailB ''x'' ''y''"]
  by (simp add: sample_hdr_def sample_defs getBinding_def Let_def)

lemma queues_failTask:
  "getBinding (b_taskId (objs s r)) s = Some r \<Longrightarrow>
   queues (failTaskBinding r c m s) r =
     fail_queue (objs s r) \<lparr>te_code = c, te_message = m, te_messageIdSuffix = c\<rparr> (clock s) (queues s r)"
  by (simp add: failTaskBinding_def Let_def)

lemma failTask_unbound:
  "getBinding (b_taskId (objs s r)) s = Some r \<Longrightarrow>
   map_of (bindings (failTaskBinding r c m s)) (b_taskId (objs s r)) = None"
  by (simp add: failTaskBinding_def Let_def)

text \<open>Claim C23. A gap in the sequence fails the task closed: its caller gets a failure as the last
  event after everything accepted before, nothing of the frame itself, the binding is gone, so
  that no later frame can be taken for its continuation, and the agent is told to cancel.\<close>

theorem gap_fails_closed:
  assumes i: "srv_inv s"
    and b: "getBinding (h_taskId h) s = Some r" and e: "b_executionId (objs s r) = Some e"
    and n: "b_nextClientSeq (objs s r) = Some n" and q: "q_open (queues s r)"
    and h: "h_executionId h = Some e" "h_seq h = Some k" "k > n"
    and c: "getAgent (b_agentId (objs s r)) s = Some conn" "sockOpen s (cn_ws conn)"
  shows "let t = handle_task_frame w (Some (b_agentId (objs s r))) h body s in
    getBinding (h_taskId h) t = None \<and> \<not> q_open (queues t r) \<and>
    q_content (queues t r) = q_content (queues s r) @
      [StatusEvent (failed_event (objs s r)
         \<lparr>te_code = ''client_frame_gap'', te_message = gap_message n k, te_messageIdSuffix = ''client_frame_gap''\<rparr> (clock s))] \<and>
    effects t = effects s @ [SendFrame (cn_ws conn) (TaskCancel (h_taskId h) (Some e))]"
proof -
  have taskId: "b_taskId (objs s r) = h_taskId h"
    using b bind_inv_D(3) [OF srv_inv_D(1) [OF i]] by (simp add: getBinding_def)
  have t: "handle_task_frame w (Some (b_agentId (objs s r))) h body s =
      reject_frame r e ''client_frame_gap'' (gap_message n k) s"
    using b e n h by (simp add: handle_task_frame_def acceptTaskFrame_def owned_cases Let_def)
  have "q_inv (queues s r)" using srv_inv_D(2) [OF i] by (simp add: queue_inv_def)
  then show ?thesis
    using b c q queues_failTask [of s r] failTask_unbound [of s r]
    unfolding t Let_def reject_frame_def taskId
    by (simp add: getBinding_def sendToAgent_def getAgent_def send_ws_def emit_def)
qed

theorem gap_fails_closed_witness:
  "let t = handle_task_frame 1 (Some ''a'') (sample_hdr 5) (FailB ''x'' ''y'') sample_srv in
    getBinding ''t'' t = None \<and> \<not> q_open (queues t 0)"
  using gap_fails_closed [OF sample_srv_inv, of "sample_hdr 5" 0 "''e''" 2 5 sample_conn 1 "FailB ''x'' ''y''"]
  by (simp add: sample_hdr_def sample_defs getBinding_def getAgent_def Let_def)

end
