(* ===== verification/Client.thy ===== *)
theory Client
  imports Complex_Main Models Parts
begin

text \<open>
  The daemon's side of the connection (packages/client/src/client.ts): runs of tasks, the
  retained frames that are replayed until the server acknowledges them, their bounds and expiry,
  reconnection with backoff, the heartbeat, and what each server frame and close code does.

  Runs are objects with an identity, so they live in a heap (\<open>runs\<close>). A socket is a number;
  \<open>c_open\<close> says that the current one is in the OPEN state. A retained frame keeps the frame
  itself where the code keeps its text; \<open>op_byteLength\<close> is the byte length of that text.
\<close>

subsection \<open>State\<close>

type_synonym rref = nat

record run =
  ru_taskId :: string
  ru_suppressed :: bool
  ru_aborted :: bool
  ru_executionId :: "string option"
  ru_nextSeq :: nat

record pending_frame =
  pf_taskId :: string
  pf_executionId :: string
  pf_seq :: nat
  pf_frame :: up_frame
  pf_bytes :: nat
  pf_createdAt :: int

record client_opts =
  op_byteLength :: "up_frame \<Rightarrow> nat"
  op_maxPendingFrames :: "js_number option"
  op_maxPendingBytes :: "js_number option"
  op_maxPendingAgeMs :: "js_number option"
  op_requiresCallerScope :: bool
  op_remoteApprovals :: bool
  op_agentId :: string
  op_token :: string
  op_backendKind :: string
  op_trustedIdentityIssuers :: "string list option"
  op_reconnectStableMs :: "int option"
  op_collisionBackoffMs :: "int option"

datatype client_effect =
    CSend nat up_frame
  | CSendThenTerminate nat up_frame
  | CTerminate nat
  | CClose nat
  | CConnect nat
  | CReconnectIn int
  | CStartTask rref assign
  | CFatal int string

record client =
  c_now :: int
  c_sock :: "nat option"
  c_open :: bool
  c_nextSock :: nat
  c_stopped :: bool
  c_reconnectAttempt :: nat
  c_reconnectTimer :: bool
  c_awaitingPong :: bool
  c_inflight :: "(string, rref) jsmap"
  c_runs :: "rref \<Rightarrow> run"
  c_nextRun :: rref
  c_pending :: "pending_frame list"
  c_pendingBytes :: int
  c_expiry :: "int option"
  c_replayReady :: bool
  c_callerScopeReady :: bool
  c_federatedScopeReady :: bool
  c_approvalsReady :: bool
  c_maxFrameBytes :: "nat option"
  c_out :: "client_effect list"

subsection \<open>Limits\<close>

text \<open>\<open>Number.isFinite(v) ? Math.max(0, Math.floor(v)) : default\<close>.\<close>

definition limit_of :: "nat \<Rightarrow> js_number option \<Rightarrow> nat" where
  "limit_of def_value v =
     (case v of
        None \<Rightarrow> def_value
      | Some (NInt i) \<Rightarrow> nat i
      | Some (NFraction p q) \<Rightarrow> nat (p div int q)
      | Some NNonFinite \<Rightarrow> def_value)"

definition pendingFrameLimit :: "client_opts \<Rightarrow> nat" where
  "pendingFrameLimit op = limit_of 2000 (op_maxPendingFrames op)"

definition pendingByteLimit :: "client_opts \<Rightarrow> nat" where
  "pendingByteLimit op = limit_of (4 * 1024 * 1024) (op_maxPendingBytes op)"

definition pendingAgeLimit :: "client_opts \<Rightarrow> nat" where
  "pendingAgeLimit op = limit_of 60000 (op_maxPendingAgeMs op)"

definition pendingRetentionEnabled :: "client_opts \<Rightarrow> bool" where
  "pendingRetentionEnabled op \<longleftrightarrow>
     pendingFrameLimit op > 0 \<and> pendingByteLimit op > 0 \<and> pendingAgeLimit op > 0"

subsection \<open>The socket\<close>

definition c_emit :: "client_effect \<Rightarrow> client \<Rightarrow> client" where
  "c_emit e c = c\<lparr>c_out := c_out c @ [e]\<rparr>"

definition terminate_sock :: "client \<Rightarrow> client" where
  "terminate_sock c =
     (case c_sock c of
        None \<Rightarrow> c
      | Some w \<Rightarrow> if c_open c then c_emit (CTerminate w) (c\<lparr>c_open := False\<rparr>) else c)"

text \<open>\<open>send\<close> for frames outside the replay, and \<open>sendEncoded\<close>, whose failure is the event
  \<open>send_failed\<close>.\<close>

definition send_up :: "up_frame \<Rightarrow> client \<Rightarrow> client" where
  "send_up f c =
     (case c_sock c of None \<Rightarrow> c | Some w \<Rightarrow> if c_open c then c_emit (CSend w f) c else c)"

definition send_failed :: "nat \<Rightarrow> client \<Rightarrow> client" where
  "send_failed w c = (if c_sock c = Some w then terminate_sock c else c)"

subsection \<open>Retained frames\<close>

definition schedulePendingExpiry :: "client_opts \<Rightarrow> client \<Rightarrow> client" where
  "schedulePendingExpiry op c =
     (case c_pending c of
        [] \<Rightarrow> c\<lparr>c_expiry := None\<rparr>
      | oldest # _ \<Rightarrow>
          if pendingAgeLimit op = 0 then c\<lparr>c_expiry := None\<rparr>
          else c\<lparr>c_expiry := Some (max (c_now c) (pf_createdAt oldest + int (pendingAgeLimit op)))\<rparr>)"

definition bytes_of :: "pending_frame list \<Rightarrow> int" where
  "bytes_of ps = (\<Sum>p\<leftarrow>ps. int (pf_bytes p))"

definition keep_pending :: "client_opts \<Rightarrow> (pending_frame \<Rightarrow> bool) \<Rightarrow> client \<Rightarrow> client" where
  "keep_pending op P c =
     schedulePendingExpiry op
       (c\<lparr>c_pending := filter P (c_pending c),
          c_pendingBytes := c_pendingBytes c - bytes_of (filter (\<lambda>p. \<not> P p) (c_pending c))\<rparr>)"

definition acknowledgeFrames :: "client_opts \<Rightarrow> string \<Rightarrow> int \<Rightarrow> client \<Rightarrow> client" where
  "acknowledgeFrames op executionId acceptedSeq =
     keep_pending op (\<lambda>p. pf_executionId p \<noteq> executionId \<or> int (pf_seq p) > acceptedSeq)"

definition removePendingExecution :: "client_opts \<Rightarrow> string \<Rightarrow> client \<Rightarrow> client" where
  "removePendingExecution op executionId = keep_pending op (\<lambda>p. pf_executionId p \<noteq> executionId)"

definition dropPendingFrames :: "client \<Rightarrow> client" where
  "dropPendingFrames c = c\<lparr>c_expiry := None, c_pending := [], c_pendingBytes := 0\<rparr>"

definition upd_run :: "rref \<Rightarrow> (run \<Rightarrow> run) \<Rightarrow> client \<Rightarrow> client" where
  "upd_run r f c = c\<lparr>c_runs := (c_runs c)(r := f (c_runs c r))\<rparr>"

definition suppress :: "rref \<Rightarrow> client \<Rightarrow> client" where
  "suppress r = upd_run r (\<lambda>x. x\<lparr>ru_suppressed := True, ru_aborted := True\<rparr>)"

definition remove_run_pending :: "client_opts \<Rightarrow> rref \<Rightarrow> client \<Rightarrow> client" where
  "remove_run_pending op r c =
     (case ru_executionId (c_runs c r) of None \<Rightarrow> c | Some e \<Rightarrow> removePendingExecution op e c)"

definition failReliableRun :: "client_opts \<Rightarrow> rref \<Rightarrow> bool \<Rightarrow> client \<Rightarrow> client" where
  "failReliableRun op r disconnect c =
     (if ru_suppressed (c_runs c r) then c
      else (let c1 = remove_run_pending op r (suppress r c)
            in if disconnect then terminate_sock c1 else c1))"

definition overflow_frame :: "string \<Rightarrow> string \<Rightarrow> nat \<Rightarrow> string \<Rightarrow> up_frame" where
  "overflow_frame executionId taskId seq msg =
     TaskFrame \<lparr>h_taskId = taskId, h_executionId = Some executionId, h_seq = Some seq\<rparr>
       (FailB ''client_buffer_overflow'' msg)"

definition exceeds_max :: "nat \<Rightarrow> client \<Rightarrow> bool" where
  "exceeds_max bytes c \<longleftrightarrow> c_maxFrameBytes c \<noteq> None \<and> bytes > get_or (c_maxFrameBytes c) 0"

definition sendReliableFailureAndDisconnect ::
    "client_opts \<Rightarrow> string \<Rightarrow> string \<Rightarrow> nat \<Rightarrow> string \<Rightarrow> client \<Rightarrow> client" where
  "sendReliableFailureAndDisconnect op executionId taskId seq msg c =
     (let f = overflow_frame executionId taskId seq msg
      in case c_sock c of
           None \<Rightarrow> c
         | Some w \<Rightarrow>
             if \<not> c_replayReady c \<or> \<not> c_open c then terminate_sock c
             else if exceeds_max (op_byteLength op f) c then terminate_sock c
             else c_emit (CSendThenTerminate w f) c)"

definition buffer_full :: "client_opts \<Rightarrow> nat \<Rightarrow> client \<Rightarrow> bool" where
  "buffer_full op bytes c \<longleftrightarrow>
     exceeds_max bytes c \<or>
     (pendingRetentionEnabled op \<and>
       (bytes > pendingByteLimit op \<or> length (c_pending c) \<ge> pendingFrameLimit op \<or>
        c_pendingBytes c + int bytes > int (pendingByteLimit op)))"

definition sendTaskFrame :: "client_opts \<Rightarrow> rref \<Rightarrow> task_body \<Rightarrow> client \<Rightarrow> client" where
  "sendTaskFrame op r body c =
     (let run = c_runs c r; taskId = ru_taskId run
      in if ru_suppressed run then c
         else case ru_executionId run of
           None \<Rightarrow> send_up (TaskFrame \<lparr>h_taskId = taskId, h_executionId = None, h_seq = None\<rparr> body) c
         | Some e \<Rightarrow>
             (let seq = ru_nextSeq run;
                  c1 = upd_run r (\<lambda>x. x\<lparr>ru_nextSeq := seq + 1\<rparr>) c;
                  f = TaskFrame \<lparr>h_taskId = taskId, h_executionId = Some e, h_seq = Some seq\<rparr> body;
                  bytes = op_byteLength op f
              in if buffer_full op bytes c1 then
                   sendReliableFailureAndDisconnect op e taskId seq
                     ''client unacknowledged frame buffer limit exceeded''
                     (failReliableRun op r False c1)
                 else
                   (let c2 = (if pendingRetentionEnabled op then
                                schedulePendingExpiry op
                                  (c1\<lparr>c_pending := c_pending c1 @
                                       [\<lparr>pf_taskId = taskId, pf_executionId = e, pf_seq = seq, pf_frame = f,
                                         pf_bytes = bytes, pf_createdAt = c_now c1\<rparr>],
                                     c_pendingBytes := c_pendingBytes c1 + int bytes\<rparr>)
                              else c1)
                    in if c_replayReady c2 then send_up f c2 else c2)))"

text \<open>\<open>[...this.inflight.values()].find(...)\<close>.\<close>

definition run_of_execution :: "string \<Rightarrow> client \<Rightarrow> rref option" where
  "run_of_execution e c = List.find (\<lambda>r. ru_executionId (c_runs c r) = Some e) (map_vals (c_inflight c))"

definition expire_one :: "client_opts \<Rightarrow> string \<Rightarrow> client \<Rightarrow> client" where
  "expire_one op e c =
     (case run_of_execution e c of
        Some r \<Rightarrow> failReliableRun op r (c_sock c \<noteq> None \<and> c_open c) c
      | None \<Rightarrow> terminate_sock (removePendingExecution op e c))"

text \<open>\<open>new Set(xs)\<close> in iteration order.\<close>

definition first_occurrences :: "'a list \<Rightarrow> 'a list" where
  "first_occurrences xs = rev (remdups (rev xs))"

definition expirePendingFrames :: "client_opts \<Rightarrow> client \<Rightarrow> client" where
  "expirePendingFrames op c =
     (if pendingAgeLimit op = 0 \<or> c_pending c = [] then c
      else (let cutoff = c_now c - int (pendingAgeLimit op);
                expired = first_occurrences (map pf_executionId (filter (\<lambda>p. pf_createdAt p \<le> cutoff) (c_pending c)))
            in schedulePendingExpiry op (fold (expire_one op) expired c)))"

text \<open>Replaying in order; \<open>flush_from\<close> is the loop over the retained frames.\<close>

fun flush_from :: "client_opts \<Rightarrow> nat \<Rightarrow> pending_frame list \<Rightarrow> client \<Rightarrow> client" where
  "flush_from op w [] c = c"
| "flush_from op w (p # ps) c =
     (if exceeds_max (pf_bytes p) c then
        sendReliableFailureAndDisconnect op (pf_executionId p) (pf_taskId p) (pf_seq p)
          ''retained client frame exceeds the negotiated server limit''
          (case run_of_execution (pf_executionId p) c of
             Some r \<Rightarrow> failReliableRun op r False c
           | None \<Rightarrow> removePendingExecution op (pf_executionId p) c)
      else flush_from op w ps (c_emit (CSend w (pf_frame p)) c))"

definition flushPendingFrames :: "client_opts \<Rightarrow> nat \<Rightarrow> client \<Rightarrow> client" where
  "flushPendingFrames op w c =
     (if \<not> c_replayReady c \<or> \<not> c_open c then c
      else (let c1 = expirePendingFrames op c
            in if \<not> c_replayReady c1 \<or> \<not> c_open c1 then c1 else flush_from op w (c_pending c1) c1))"

subsection \<open>The advertised card\<close>

record detected_capabilities =
  dt_streaming :: "bool option"
  dt_pushNotifications :: "bool option"
  dt_models :: "model_advertise list option"

text \<open>\<open>resolveEffectiveCard\<close>: \<open>probe\<close> is what the capability probe found, \<open>None\<close> when there is
  none, it failed or it timed out.\<close>

definition no_capabilities :: card_capabilities where
  "no_capabilities = \<lparr>cc_streaming = None, cc_pushNotifications = None, cc_extensions = None\<rparr>"

definition effective_card :: "agent_card option \<Rightarrow> detected_capabilities option \<Rightarrow> agent_card option" where
  "effective_card base_card probe =
     (case (base_card, probe) of
        (Some b, Some d) \<Rightarrow>
          (let models = get_or (dt_models d) [];
               nxt = (if dt_streaming d = None \<and> dt_pushNotifications d = None then b
                      else b\<lparr>ac_capabilities := Some
                        (let caps = get_or (ac_capabilities b) no_capabilities
                         in caps\<lparr>cc_streaming := coalesce (dt_streaming d) (cc_streaming caps),
                                 cc_pushNotifications := coalesce (dt_pushNotifications d) (cc_pushNotifications caps)\<rparr>)\<rparr>)
           in Some (if models = [] then nxt else withOpenAICompatModelsAdvertise nxt models))
      | _ \<Rightarrow> base_card)"

subsection \<open>Connecting and reconnecting\<close>

text \<open>The callback of \<open>ws.send\<close> for the failure of a run.\<close>

definition failure_flushed :: "nat \<Rightarrow> client \<Rightarrow> client" where
  "failure_flushed w c = (if c_sock c = Some w then terminate_sock c else c)"

definition connect :: "client \<Rightarrow> client" where
  "connect c =
     (if c_stopped c then c
      else c_emit (CConnect (c_nextSock c))
        (c\<lparr>c_replayReady := False, c_callerScopeReady := False, c_federatedScopeReady := False,
           c_maxFrameBytes := None, c_sock := Some (c_nextSock c), c_open := False,
           c_nextSock := Suc (c_nextSock c)\<rparr>))"

text \<open>Delays are in milliseconds and at least zero. The jitter ratio is \<open>num / den\<close>, and
  \<open>Math.random()\<close> is \<open>rnd / den_rnd\<close>, at least 0 and below 1. The rounding of the exact value
  is to the nearest integer, halves up.\<close>

definition round_half_up :: "rat \<Rightarrow> int" where
  "round_half_up q = \<lfloor>q + 1 / 2\<rfloor>"

definition nextReconnectDelay :: "rat \<Rightarrow> rat \<Rightarrow> rat \<Rightarrow> rat \<Rightarrow> nat \<Rightarrow> int" where
  "nextReconnectDelay reconnectDelayMs reconnectMaxDelayMs jitterRatio random attempt =
     (let base = max 0 reconnectDelayMs;
          mx = max base reconnectMaxDelayMs;
          capped = min mx (base * 2 ^ attempt);
          ratio = max 0 jitterRatio
      in if capped = 0 \<or> ratio = 0 then round_half_up capped
         else (let jitter = capped * ratio;
                   mn = max 0 (capped - jitter);
                   maxWithJitter = min mx (capped + jitter)
               in round_half_up (mn + random * (maxWithJitter - mn))))"

text \<open>\<open>delay\<close> is the delay computed for the current attempt.\<close>

definition scheduleReconnect :: "int option \<Rightarrow> (nat \<Rightarrow> int) \<Rightarrow> client \<Rightarrow> client" where
  "scheduleReconnect floorMs delay c =
     (if c_stopped c \<or> c_reconnectTimer c then c
      else (let computed = delay (c_reconnectAttempt c);
                d = (case floorMs of None \<Rightarrow> computed | Some f \<Rightarrow> max computed f)
            in c_emit (CReconnectIn d)
                 (c\<lparr>c_reconnectAttempt := Suc (c_reconnectAttempt c), c_reconnectTimer := True\<rparr>)))"

definition reconnect_fired :: "client \<Rightarrow> client" where
  "reconnect_fired c = connect (c\<lparr>c_reconnectTimer := False\<rparr>)"

definition reset_fired :: "nat \<Rightarrow> client \<Rightarrow> client" where
  "reset_fired w c =
     (if \<not> c_stopped c \<and> c_sock c = Some w \<and> c_open c then c\<lparr>c_reconnectAttempt := 0\<rparr> else c)"

definition heartbeat_fired :: "nat \<Rightarrow> client \<Rightarrow> client" where
  "heartbeat_fired w c =
     (if c_stopped c \<or> c_sock c \<noteq> Some w \<or> \<not> c_open c then c
      else if c_awaitingPong c then terminate_sock c
      else c\<lparr>c_awaitingPong := True\<rparr>)"

definition on_pong :: "nat \<Rightarrow> client \<Rightarrow> client" where
  "on_pong w c = (if c_sock c = Some w then c\<lparr>c_awaitingPong := False\<rparr> else c)"

definition suppress_all :: "(run \<Rightarrow> bool) \<Rightarrow> client \<Rightarrow> client" where
  "suppress_all P c = fold (\<lambda>r c. if P (c_runs c r) then suppress r c else c) (map_vals (c_inflight c)) c"

definition stop :: "client \<Rightarrow> client" where
  "stop c =
     (let c1 = dropPendingFrames
            (suppress_all (\<lambda>_. True) (c\<lparr>c_stopped := True, c_reconnectTimer := False, c_awaitingPong := False\<rparr>))
      in case c_sock c1 of
           None \<Rightarrow> c1
         | Some w \<Rightarrow> c_emit (CClose w) (c1\<lparr>c_open := False\<rparr>))"

definition client_on_open :: "client_opts \<Rightarrow> nat \<Rightarrow> client \<Rightarrow> client" where
  "client_on_open op w c =
     (if c_sock c = Some w
      then (let c1 = c\<lparr>c_open := True, c_awaitingPong := False\<rparr>
            in if get_or (op_reconnectStableMs op) 60000 \<le> 0 then c1\<lparr>c_reconnectAttempt := 0\<rparr> else c1)
      else c)"

definition hello_capabilities :: "client_opts \<Rightarrow> string list" where
  "hello_capabilities op =
     [CALLER_CONTEXT_V2_CAPABILITY, CALLER_CONTEXT_V1_CAPABILITY, TASK_REPLAY_CAPABILITY] @
     (if op_remoteApprovals op then [REMOTE_APPROVAL_CAPABILITY] else []) @
     (if op_requiresCallerScope op
      then [EXECUTION_SCOPE_V1_CAPABILITY, CALLER_RUNTIME_V1_CAPABILITY, FEDERATED_EXECUTION_SCOPE_V1_CAPABILITY]
      else [])"

definition send_hello :: "client_opts \<Rightarrow> nat \<Rightarrow> agent_card option \<Rightarrow> client \<Rightarrow> client" where
  "send_hello op w agentCard c =
     (if c_sock c = Some w
      then send_up (Hello \<lparr>hl_agentId = op_agentId op, hl_agentCard = agentCard,
             hl_backendKind = Some (op_backendKind op), hl_version = PROTOCOL_VERSION, hl_token = op_token op,
             hl_protocolCapabilities = Some (hello_capabilities op),
             hl_identityTrust = op_trustedIdentityIssuers op\<rparr>) c
      else c)"

text \<open>Codes 4014 and 4005 are final: waiting cannot recover from them.\<close>

definition client_on_close :: "client_opts \<Rightarrow> nat \<Rightarrow> int \<Rightarrow> string \<Rightarrow> (nat \<Rightarrow> int) \<Rightarrow> client \<Rightarrow> client" where
  "client_on_close op w code reason delay c =
     (if c_sock c \<noteq> Some w then c
      else (let c1 = c\<lparr>c_sock := None, c_open := False, c_approvalsReady := False, c_awaitingPong := False\<rparr>;
                c2 = suppress_all (\<lambda>r. \<not> (ru_executionId r \<noteq> None \<and> pendingRetentionEnabled op)) c1
            in if code = 4014 \<or> code = 4005 then
                 c_emit (CFatal code reason)
                   (dropPendingFrames (suppress_all (\<lambda>_. True) (c2\<lparr>c_stopped := True, c_reconnectTimer := False\<rparr>)))
               else if code = 4009 then scheduleReconnect (Some (get_or (op_collisionBackoffMs op) 300000)) delay c2
               else scheduleReconnect None delay c2))"

subsection \<open>Frames from the server\<close>

definition start_run :: "client_opts \<Rightarrow> assign \<Rightarrow> client \<Rightarrow> client" where
  "start_run op a c =
     (let c1 = (case map_of (c_inflight c) (as_taskId a) of
                  None \<Rightarrow> c
                | Some r \<Rightarrow> remove_run_pending op r (suppress r c));
          r = c_nextRun c1;
          run = \<lparr>ru_taskId = as_taskId a, ru_suppressed = False, ru_aborted = False,
                 ru_executionId = as_executionId a, ru_nextSeq = 0\<rparr>
      in c_emit (CStartTask r a)
           (c1\<lparr>c_runs := (c_runs c1)(r := run), c_nextRun := Suc r,
               c_inflight := map_set (as_taskId a) r (c_inflight c1)\<rparr>))"

definition run_finished :: "rref \<Rightarrow> client \<Rightarrow> client" where
  "run_finished r c =
     (let t = ru_taskId (c_runs c r)
      in if map_of (c_inflight c) t = Some r then c\<lparr>c_inflight := map_del t (c_inflight c)\<rparr> else c)"

definition negotiation_failed :: "client \<Rightarrow> client" where
  "negotiation_failed c = c_emit (CFatal 1008 ''caller-runtime negotiation required'') (stop c)"

definition on_hello_ack :: "client_opts \<Rightarrow> nat \<Rightarrow> string list \<Rightarrow> nat \<Rightarrow> client \<Rightarrow> client" where
  "on_hello_ack op w caps maxFrameBytes c =
     (let has = (\<lambda>x. caps_include (Some caps) x);
          c1 = c\<lparr>c_approvalsReady := has REMOTE_APPROVAL_CAPABILITY,
                 c_federatedScopeReady := has FEDERATED_EXECUTION_SCOPE_V1_CAPABILITY,
                 c_callerScopeReady := list_all has [TASK_REPLAY_CAPABILITY, CALLER_CONTEXT_V2_CAPABILITY,
                   EXECUTION_SCOPE_V1_CAPABILITY, CALLER_RUNTIME_V1_CAPABILITY]\<rparr>
      in if op_requiresCallerScope op \<and> \<not> c_callerScopeReady c1 then negotiation_failed c1
         else if \<not> has TASK_REPLAY_CAPABILITY then c1
         else flushPendingFrames op w (c1\<lparr>c_replayReady := True, c_maxFrameBytes := Some maxFrameBytes\<rparr>))"

definition on_assign :: "client_opts \<Rightarrow> assign \<Rightarrow> client \<Rightarrow> client" where
  "on_assign op a c =
     (let federated = (case as_executionScope a of None \<Rightarrow> False | Some e \<Rightarrow> es_policy e = ''federated-principal-v1'')
      in if op_requiresCallerScope op \<and> (\<not> c_callerScopeReady c \<or> (federated \<and> \<not> c_federatedScopeReady c))
         then negotiation_failed c
         else start_run op a (if as_executionId a = None then c\<lparr>c_replayReady := False\<rparr> else c))"

definition on_cancel :: "client_opts \<Rightarrow> string \<Rightarrow> string option \<Rightarrow> client \<Rightarrow> client" where
  "on_cancel op taskId executionId c =
     (case map_of (c_inflight c) taskId of
        None \<Rightarrow> c
      | Some r \<Rightarrow>
          if executionId = None \<or> executionId = ru_executionId (c_runs c r) then
            (let c1 = (case executionId of
                         None \<Rightarrow> c
                       | Some e \<Rightarrow> removePendingExecution op e (upd_run r (\<lambda>x. x\<lparr>ru_suppressed := True\<rparr>) c))
             in upd_run r (\<lambda>x. x\<lparr>ru_aborted := True\<rparr>) c1)
          else c)"

text \<open>A frame of a socket that is no longer the current one is dropped. \<open>approval.resolve\<close> is
  handled by the approval broker and \<open>usage.request\<close> by the backend.\<close>

definition client_on_message :: "client_opts \<Rightarrow> nat \<Rightarrow> down_frame \<Rightarrow> client \<Rightarrow> client" where
  "client_on_message op w f c =
     (if c_sock c \<noteq> Some w then c
      else case f of
        HelloAck caps graceMs mx \<Rightarrow> on_hello_ack op w caps mx c
      | TaskAck taskId e n \<Rightarrow> acknowledgeFrames op e n c
      | TaskAssign a \<Rightarrow> on_assign op a c
      | TaskCancel taskId e \<Rightarrow> on_cancel op taskId e c
      | Ping \<Rightarrow> send_up Pong c
      | ApprovalResolve _ _ _ _ \<Rightarrow> c
      | UsageRequest _ \<Rightarrow> c)"

end
