(* ===== verification/ClientInv.thy ===== *)
theory ClientInv
  imports Client
begin

text \<open>
  The retained frames of the client: what each operation does to them and to the runs, that
  their byte count and bounds are exact, and that the frames kept for a run are the contiguous
  rest of what it has sent.
\<close>

subsection \<open>What the operations leave alone\<close>

text \<open>\<open>core\<close> is what the retained frames depend on.\<close>

definition core :: "client \<Rightarrow> pending_frame list \<times> int \<times> (rref \<Rightarrow> run) \<times> rref \<times> (string, rref) jsmap" where
  "core c = (c_pending c, c_pendingBytes c, c_runs c, c_nextRun c, c_inflight c)"

lemma core_eq:
  "core c' = core c \<longleftrightarrow> c_pending c' = c_pending c \<and> c_pendingBytes c' = c_pendingBytes c \<and>
     c_runs c' = c_runs c \<and> c_nextRun c' = c_nextRun c \<and> c_inflight c' = c_inflight c"
  by (auto simp: core_def)

lemma core_simple [simp]:
  "core (c_emit ef c) = core c" "core (terminate_sock c) = core c" "core (send_up f c) = core c"
  "core (send_failed w c) = core c" "core (schedulePendingExpiry op c) = core c"
  "core (sendReliableFailureAndDisconnect op e t n m c) = core c" "core (failure_flushed w c) = core c"
  "core (connect c) = core c" "core (scheduleReconnect fl d c) = core c" "core (reconnect_fired c) = core c"
  "core (reset_fired w c) = core c" "core (heartbeat_fired w c) = core c" "core (on_pong w c) = core c"
  "core (client_on_open op w c) = core c" "core (send_hello op w card0 c) = core c"
  by (simp_all add: core_def c_emit_def terminate_sock_def send_up_def send_failed_def schedulePendingExpiry_def
      sendReliableFailureAndDisconnect_def failure_flushed_def connect_def scheduleReconnect_def reconnect_fired_def
      reset_fired_def heartbeat_fired_def on_pong_def client_on_open_def send_hello_def Let_def
      split: option.split list.split)

lemma core_fields:
  assumes "core c' = core c"
  shows "c_pending c' = c_pending c" "c_pendingBytes c' = c_pendingBytes c" "c_runs c' = c_runs c"
    "c_nextRun c' = c_nextRun c" "c_inflight c' = c_inflight c"
  using assms by (simp_all add: core_eq)

lemmas core_of_simple [simp] = core_simple [THEN core_fields(1)] core_simple [THEN core_fields(2)]
  core_simple [THEN core_fields(3)] core_simple [THEN core_fields(4)] core_simple [THEN core_fields(5)]

lemma keep_pending_fields [simp]:
  "c_pending (keep_pending op P c) = filter P (c_pending c)"
  "c_pendingBytes (keep_pending op P c) = c_pendingBytes c - bytes_of (filter (\<lambda>p. \<not> P p) (c_pending c))"
  "c_runs (keep_pending op P c) = c_runs c" "c_nextRun (keep_pending op P c) = c_nextRun c"
  "c_inflight (keep_pending op P c) = c_inflight c"
  by (simp_all add: keep_pending_def)

lemma upd_run_fields [simp]:
  "c_pending (upd_run r f c) = c_pending c" "c_pendingBytes (upd_run r f c) = c_pendingBytes c"
  "c_nextRun (upd_run r f c) = c_nextRun c" "c_inflight (upd_run r f c) = c_inflight c"
  "c_runs (upd_run r f c) = (c_runs c)(r := f (c_runs c r))"
  by (simp_all add: upd_run_def)

lemma suppress_fields [simp]:
  "c_pending (suppress r c) = c_pending c" "c_pendingBytes (suppress r c) = c_pendingBytes c"
  "c_nextRun (suppress r c) = c_nextRun c" "c_inflight (suppress r c) = c_inflight c"
  "c_runs (suppress r c) = (c_runs c)(r := (c_runs c r)\<lparr>ru_suppressed := True, ru_aborted := True\<rparr>)"
  by (simp_all add: suppress_def)

lemma drop_fields [simp]:
  "c_pending (dropPendingFrames c) = []" "c_pendingBytes (dropPendingFrames c) = 0"
  "c_runs (dropPendingFrames c) = c_runs c" "c_nextRun (dropPendingFrames c) = c_nextRun c"
  "c_inflight (dropPendingFrames c) = c_inflight c"
  by (simp_all add: dropPendingFrames_def)

subsection \<open>Byte count and bounds\<close>

lemma bytes_of_simps [simp]:
  "bytes_of [] = 0" "bytes_of (p # ps) = int (pf_bytes p) + bytes_of ps"
  "bytes_of (ps @ qs) = bytes_of ps + bytes_of qs"
  by (simp_all add: bytes_of_def)

lemma bytes_of_nonneg [simp]: "0 \<le> bytes_of ps"
  by (induction ps) auto

lemma bytes_of_split: "bytes_of (filter P ps) + bytes_of (filter (\<lambda>p. \<not> P p) ps) = bytes_of ps"
  by (induction ps) auto

lemma bytes_of_filter_le: "bytes_of (filter P ps) \<le> bytes_of ps"
  using bytes_of_split [of P ps] bytes_of_nonneg [of "filter (\<lambda>p. \<not> P p) ps"] by linarith

definition bounds_inv :: "client_opts \<Rightarrow> client \<Rightarrow> bool" where
  "bounds_inv op c \<longleftrightarrow>
     c_pendingBytes c = bytes_of (c_pending c) \<and>
     length (c_pending c) \<le> pendingFrameLimit op \<and>
     bytes_of (c_pending c) \<le> int (pendingByteLimit op)"

lemma bounds_inv_core: "core c' = core c \<Longrightarrow> bounds_inv op c' = bounds_inv op c"
  by (simp add: bounds_inv_def core_eq)

lemma bounds_inv_keep [inv_intros]: "bounds_inv op c \<Longrightarrow> bounds_inv op (keep_pending op P c)"
  using bytes_of_split [of P "c_pending c"] bytes_of_filter_le [of P "c_pending c"]
  by (auto simp: bounds_inv_def intro: le_trans [OF length_filter_le])

lemma bounds_inv_simple [simp]:
  "bounds_inv op (upd_run r f c) = bounds_inv op c" "bounds_inv op (suppress r c) = bounds_inv op c"
  "bounds_inv op (terminate_sock c) = bounds_inv op c" "bounds_inv op (c_emit e c) = bounds_inv op c"
  "bounds_inv op (schedulePendingExpiry op' c) = bounds_inv op c" "bounds_inv op (send_up f2 c) = bounds_inv op c"
  "bounds_inv op (sendReliableFailureAndDisconnect op' e2 t n m c) = bounds_inv op c"
  by (simp_all add: bounds_inv_def)

lemma bounds_inv_drop [simp]: "bounds_inv op (dropPendingFrames c)"
  by (simp add: bounds_inv_def)

lemma bounds_inv_remove [inv_intros]:
  "bounds_inv op c \<Longrightarrow> bounds_inv op (removePendingExecution op e c)"
  "bounds_inv op c \<Longrightarrow> bounds_inv op (acknowledgeFrames op e n c)"
  "bounds_inv op c \<Longrightarrow> bounds_inv op (remove_run_pending op r c)"
  by (auto simp: removePendingExecution_def acknowledgeFrames_def remove_run_pending_def
      intro: bounds_inv_keep split: option.splits)

lemma bounds_inv_failRun [inv_intros]: "bounds_inv op c \<Longrightarrow> bounds_inv op (failReliableRun op r d c)"
  by (simp add: failReliableRun_def Let_def bounds_inv_remove)

lemma bounds_inv_append:
  assumes "bounds_inv op c" and "\<not> buffer_full op b c" and "pendingRetentionEnabled op" and "pf_bytes p = b"
  shows "bounds_inv op (c\<lparr>c_pending := c_pending c @ [p], c_pendingBytes := c_pendingBytes c + int b\<rparr>)"
  using assms by (simp add: bounds_inv_def buffer_full_def)

lemma bounds_inv_sendTask [inv_intros]:
  assumes "bounds_inv op c"
  shows "bounds_inv op (sendTaskFrame op r body c)"
proof (cases "ru_executionId (c_runs c r)")
  case None
  with assms show ?thesis by (simp add: sendTaskFrame_def Let_def)
next
  case (Some e)
  let ?c1 = "upd_run r (\<lambda>x. x\<lparr>ru_nextSeq := ru_nextSeq (c_runs c r) + 1\<rparr>) c"
  have c1: "bounds_inv op ?c1" using assms by simp
  show ?thesis
    using Some assms bounds_inv_failRun [OF c1] bounds_inv_append [OF c1]
    by (simp add: sendTaskFrame_def Let_def)
qed

lemma bounds_inv_expire_one: "bounds_inv op c \<Longrightarrow> bounds_inv op (expire_one op e c)"
  by (auto simp: expire_one_def intro: bounds_inv_failRun bounds_inv_remove split: option.splits)

lemma bounds_inv_expire [inv_intros]: "bounds_inv op c \<Longrightarrow> bounds_inv op (expirePendingFrames op c)"
  by (auto simp: expirePendingFrames_def Let_def intro!: fold_invariant [where Q = "\<lambda>_. True" and P = "bounds_inv op"]
      bounds_inv_expire_one)

lemma bounds_inv_flush_from: "bounds_inv op c \<Longrightarrow> bounds_inv op (flush_from op w ps c)"
  by (induction ps arbitrary: c) (auto intro: bounds_inv_failRun bounds_inv_remove split: option.splits)

lemma bounds_inv_flush [inv_intros]: "bounds_inv op c \<Longrightarrow> bounds_inv op (flushPendingFrames op w c)"
  by (simp add: flushPendingFrames_def Let_def bounds_inv_expire bounds_inv_flush_from)

subsection \<open>Runs and their frames\<close>

definition pend_of :: "string \<Rightarrow> client \<Rightarrow> pending_frame list" where
  "pend_of e c = filter (\<lambda>p. pf_executionId p = e) (c_pending c)"

definition frame_ok :: "client_opts \<Rightarrow> client \<Rightarrow> pending_frame \<Rightarrow> bool" where
  "frame_ok op c p \<longleftrightarrow>
     pf_bytes p = op_byteLength op (pf_frame p) \<and>
     (\<exists>body. pf_frame p = TaskFrame \<lparr>h_taskId = pf_taskId p, h_executionId = Some (pf_executionId p), h_seq = Some (pf_seq p)\<rparr> body) \<and>
     (\<exists>r < c_nextRun c. ru_executionId (c_runs c r) = Some (pf_executionId p) \<and> ru_taskId (c_runs c r) = pf_taskId p)"

definition contiguous :: "pending_frame list \<Rightarrow> nat \<Rightarrow> bool" where
  "contiguous ps n \<longleftrightarrow> (\<exists>a \<le> n. map pf_seq ps = [a..<n])"

definition run_inv :: "client_opts \<Rightarrow> client \<Rightarrow> bool" where
  "run_inv op c \<longleftrightarrow>
     distinct (map_keys (c_inflight c)) \<and>
     (\<forall>t r. map_of (c_inflight c) t = Some r \<longrightarrow> r < c_nextRun c \<and> ru_taskId (c_runs c r) = t) \<and>
     (\<forall>r < c_nextRun c. \<forall>r' < c_nextRun c. ru_executionId (c_runs c r) \<noteq> None \<longrightarrow>
        ru_executionId (c_runs c r) = ru_executionId (c_runs c r') \<longrightarrow> r = r') \<and>
     (\<forall>p \<in> set (c_pending c). frame_ok op c p) \<and>
     (\<forall>r < c_nextRun c. \<forall>e. ru_executionId (c_runs c r) = Some e \<longrightarrow>
        contiguous (pend_of e c) (ru_nextSeq (c_runs c r)) \<and> (ru_suppressed (c_runs c r) \<longrightarrow> pend_of e c = [])) \<and>
     (pendingRetentionEnabled op \<or> c_pending c = [])"

lemma run_inv_D:
  assumes "run_inv op c"
  shows "distinct (map_keys (c_inflight c))"
    "\<And>t r. map_of (c_inflight c) t = Some r \<Longrightarrow> r < c_nextRun c"
    "\<And>t r. map_of (c_inflight c) t = Some r \<Longrightarrow> ru_taskId (c_runs c r) = t"
    "\<And>r r' e. r < c_nextRun c \<Longrightarrow> r' < c_nextRun c \<Longrightarrow> ru_executionId (c_runs c r) = Some e \<Longrightarrow>
       ru_executionId (c_runs c r') = Some e \<Longrightarrow> r = r'"
    "\<And>p. p \<in> set (c_pending c) \<Longrightarrow> frame_ok op c p"
    "\<And>r e. r < c_nextRun c \<Longrightarrow> ru_executionId (c_runs c r) = Some e \<Longrightarrow> contiguous (pend_of e c) (ru_nextSeq (c_runs c r))"
    "\<And>r e. r < c_nextRun c \<Longrightarrow> ru_executionId (c_runs c r) = Some e \<Longrightarrow> ru_suppressed (c_runs c r) \<Longrightarrow> pend_of e c = []"
    "\<not> pendingRetentionEnabled op \<Longrightarrow> c_pending c = []"
  using assms unfolding run_inv_def by (blast, blast, blast, metis option.distinct(1), blast, blast, blast, blast)

lemma run_invI:
  assumes "distinct (map_keys (c_inflight c))"
    "\<And>t r. map_of (c_inflight c) t = Some r \<Longrightarrow> r < c_nextRun c \<and> ru_taskId (c_runs c r) = t"
    "\<And>r r' e. r < c_nextRun c \<Longrightarrow> r' < c_nextRun c \<Longrightarrow> ru_executionId (c_runs c r) = Some e \<Longrightarrow>
       ru_executionId (c_runs c r') = Some e \<Longrightarrow> r = r'"
    "\<And>p. p \<in> set (c_pending c) \<Longrightarrow> frame_ok op c p"
    "\<And>r e. r < c_nextRun c \<Longrightarrow> ru_executionId (c_runs c r) = Some e \<Longrightarrow> contiguous (pend_of e c) (ru_nextSeq (c_runs c r))"
    "\<And>r e. r < c_nextRun c \<Longrightarrow> ru_executionId (c_runs c r) = Some e \<Longrightarrow> ru_suppressed (c_runs c r) \<Longrightarrow> pend_of e c = []"
    "\<not> pendingRetentionEnabled op \<Longrightarrow> c_pending c = []"
  shows "run_inv op c"
proof -
  have "r = r'" if "r < c_nextRun c" "r' < c_nextRun c" "ru_executionId (c_runs c r) \<noteq> None"
    "ru_executionId (c_runs c r) = ru_executionId (c_runs c r')" for r r'
    using that assms(3) by auto
  moreover have "pendingRetentionEnabled op \<or> c_pending c = []" using assms(7) by blast
  ultimately show ?thesis
    unfolding run_inv_def by (intro conjI; (simp add: assms(1,2,4,5,6); fail | blast))
qed

lemma run_inv_core: "core c' = core c \<Longrightarrow> run_inv op c' = run_inv op c"
  by (simp add: run_inv_def frame_ok_def pend_of_def core_eq)

lemma contiguous_Nil [simp]: "contiguous [] n"
  by (auto simp: contiguous_def)

lemma contiguous_snoc: "contiguous ps n \<Longrightarrow> pf_seq p = n \<Longrightarrow> contiguous (ps @ [p]) (Suc n)"
  unfolding contiguous_def by (metis le_SucI list.simps(8,9) map_append upt_Suc)

lemma filter_upt_above: "filter (\<lambda>k. int k > m) [a..<n] = [max a (nat (m + 1))..<n]"
  by (induction n) (auto simp: max_def)

lemma contiguous_ack: "contiguous ps n \<Longrightarrow> contiguous (filter (\<lambda>p. int (pf_seq p) > m) ps) n"
proof -
  assume "contiguous ps n"
  then obtain a where a: "a \<le> n" "map pf_seq ps = [a..<n]" by (auto simp: contiguous_def)
  have "map pf_seq (filter (\<lambda>p. int (pf_seq p) > m) ps) = filter (\<lambda>k. int k > m) (map pf_seq ps)"
    by (simp add: filter_map comp_def)
  then have eq: "map pf_seq (filter (\<lambda>p. int (pf_seq p) > m) ps) = [max a (nat (m + 1))..<n]"
    by (simp add: a filter_upt_above)
  show ?thesis
  proof (cases "max a (nat (m + 1)) \<le> n")
    case False
    then have "map pf_seq (filter (\<lambda>p. int (pf_seq p) > m) ps) = []" using eq by (metis nle_le upt_conv_Nil)
    then have "filter (\<lambda>p. int (pf_seq p) > m) ps = []" by (simp only: map_is_Nil_conv)
    then show ?thesis by (simp only: contiguous_Nil)
  next
    case True
    then show ?thesis unfolding contiguous_def using eq by blast
  qed
qed

lemma run_inv_keep_gen:
  assumes i: "run_inv op c"
    and c': "c_pending c' = filter P (c_pending c)" "c_runs c' = c_runs c" "c_nextRun c' = c_nextRun c"
      "c_inflight c' = c_inflight c"
    and P: "\<And>r e. r < c_nextRun c \<Longrightarrow> ru_executionId (c_runs c r) = Some e \<Longrightarrow>
      contiguous (filter P (pend_of e c)) (ru_nextSeq (c_runs c r))"
  shows "run_inv op c'"
proof (rule run_invI)
  have pe: "pend_of e c' = filter P (pend_of e c)" for e
    by (simp add: pend_of_def c' conj_commute)
  show "contiguous (pend_of e c') (ru_nextSeq (c_runs c' r))"
    if "r < c_nextRun c'" "ru_executionId (c_runs c' r) = Some e" for r e
    using P that by (simp add: pe c')
  show "pend_of e c' = []" if "r < c_nextRun c'" "ru_executionId (c_runs c' r) = Some e" "ru_suppressed (c_runs c' r)" for r e
    using run_inv_D(7) [OF i] that by (simp add: pe c')
  show "frame_ok op c' p" if "p \<in> set (c_pending c')" for p
    using run_inv_D(5) [OF i] that by (auto simp: frame_ok_def c')
  show "\<not> pendingRetentionEnabled op \<Longrightarrow> c_pending c' = []" using run_inv_D(8) [OF i] by (simp add: c')
  show "distinct (map_keys (c_inflight c'))" using run_inv_D(1) [OF i] by (simp add: c')
  show "r < c_nextRun c' \<and> ru_taskId (c_runs c' r) = t" if "map_of (c_inflight c') t = Some r" for t r
    using run_inv_D(2,3) [OF i] that by (simp add: c')
  show "r = r'" if "r < c_nextRun c'" "r' < c_nextRun c'" "ru_executionId (c_runs c' r) = Some e"
    "ru_executionId (c_runs c' r') = Some e" for r r' e
    using run_inv_D(4) [OF i] that by (simp add: c')
qed

lemma run_inv_remove [inv_intros]:
  assumes i: "run_inv op c"
  shows "run_inv op (removePendingExecution op e c)"
  unfolding removePendingExecution_def
proof (rule run_inv_keep_gen [OF i])
  show "contiguous (filter (\<lambda>p. pf_executionId p \<noteq> e) (pend_of e' c)) (ru_nextSeq (c_runs c r))"
    if "r < c_nextRun c" "ru_executionId (c_runs c r) = Some e'" for r e'
  proof (cases "e' = e")
    case True
    then have "filter (\<lambda>p. pf_executionId p \<noteq> e) (pend_of e' c) = []" by (simp add: pend_of_def)
    then show ?thesis by simp
  next
    case False
    have "\<forall>p \<in> set (pend_of e' c). pf_executionId p \<noteq> e" using False by (auto simp: pend_of_def)
    then have "filter (\<lambda>p. pf_executionId p \<noteq> e) (pend_of e' c) = pend_of e' c"
      by (simp only: filter_id_conv)
    then show ?thesis using run_inv_D(6) [OF i] that by simp
  qed
qed simp_all

lemma run_inv_ack [inv_intros]:
  assumes i: "run_inv op c"
  shows "run_inv op (acknowledgeFrames op e n c)"
  unfolding acknowledgeFrames_def
proof (rule run_inv_keep_gen [OF i])
  show "contiguous (filter (\<lambda>p. pf_executionId p \<noteq> e \<or> int (pf_seq p) > n) (pend_of e' c)) (ru_nextSeq (c_runs c r))"
    if "r < c_nextRun c" "ru_executionId (c_runs c r) = Some e'" for r e'
  proof (cases "e' = e")
    case True
    then have "filter (\<lambda>p. pf_executionId p \<noteq> e \<or> int (pf_seq p) > n) (pend_of e' c) =
      filter (\<lambda>p. int (pf_seq p) > n) (pend_of e' c)"
      by (auto simp: pend_of_def intro!: filter_cong)
    then show ?thesis using run_inv_D(6) [OF i that] by (simp add: contiguous_ack)
  next
    case False
    then have "\<forall>p \<in> set (pend_of e' c). pf_executionId p \<noteq> e \<or> int (pf_seq p) > n" by (auto simp: pend_of_def)
    then have "filter (\<lambda>p. pf_executionId p \<noteq> e \<or> int (pf_seq p) > n) (pend_of e' c) = pend_of e' c"
      by (simp only: filter_id_conv)
    then show ?thesis using run_inv_D(6) [OF i] that by simp
  qed
qed simp_all

subsection \<open>Sending and failing\<close>

lemma ack_pend_of:
  assumes "e' \<noteq> e"
  shows "pend_of e' (removePendingExecution op e c) = pend_of e' c"
    "pend_of e' (acknowledgeFrames op e n c) = pend_of e' c"
  using assms unfolding pend_of_def removePendingExecution_def acknowledgeFrames_def keep_pending_fields
  by (simp_all only: filter_filter) (auto intro!: filter_cong)

lemma pend_of_remove [simp]: "pend_of e (removePendingExecution op e c) = []"
  by (simp add: pend_of_def removePendingExecution_def)

lemma frame_ok_cong:
  assumes "c_nextRun c' = c_nextRun c"
    and "\<And>r. ru_executionId (c_runs c' r) = ru_executionId (c_runs c r) \<and> ru_taskId (c_runs c' r) = ru_taskId (c_runs c r)"
  shows "frame_ok op c' p = frame_ok op c p"
  using assms by (simp add: frame_ok_def)

text \<open>Changing a run keeps the invariant when its identity stays and it is only suppressed with
  nothing retained.\<close>

lemma run_inv_upd:
  assumes i: "run_inv op c"
    and same: "ru_executionId (f (c_runs c r)) = ru_executionId (c_runs c r)"
      "ru_taskId (f (c_runs c r)) = ru_taskId (c_runs c r)"
    and con: "\<And>e. ru_executionId (c_runs c r) = Some e \<Longrightarrow> contiguous (pend_of e c) (ru_nextSeq (c_runs c r)) \<Longrightarrow>
      contiguous (pend_of e c) (ru_nextSeq (f (c_runs c r)))"
    and sup: "\<And>e. ru_executionId (c_runs c r) = Some e \<Longrightarrow> ru_suppressed (f (c_runs c r)) \<Longrightarrow> pend_of e c = []"
  shows "run_inv op (upd_run r f c)"
proof (rule run_invI)
  let ?c = "upd_run r f c"
  have ids: "ru_executionId (c_runs ?c q) = ru_executionId (c_runs c q)" "ru_taskId (c_runs ?c q) = ru_taskId (c_runs c q)" for q
    using same by simp_all
  have pe: "pend_of e ?c = pend_of e c" for e by (simp add: pend_of_def)
  show "distinct (map_keys (c_inflight ?c))" using run_inv_D(1) [OF i] by simp
  show "q < c_nextRun ?c \<and> ru_taskId (c_runs ?c q) = t" if "map_of (c_inflight ?c) t = Some q" for t q
    using run_inv_D(2,3) [OF i] that unfolding ids by simp
  show "q = q'" if "q < c_nextRun ?c" "q' < c_nextRun ?c" "ru_executionId (c_runs ?c q) = Some e"
    "ru_executionId (c_runs ?c q') = Some e" for q q' e
    using run_inv_D(4) [OF i] that unfolding ids by simp
  show "frame_ok op ?c p" if "p \<in> set (c_pending ?c)" for p
    using run_inv_D(5) [OF i] that frame_ok_cong [of ?c c op p] ids by simp
  show "contiguous (pend_of e ?c) (ru_nextSeq (c_runs ?c q))" if "q < c_nextRun ?c" "ru_executionId (c_runs ?c q) = Some e" for q e
  proof (cases "q = r")
    case True
    then show ?thesis using run_inv_D(6) [OF i, of q e] con that unfolding ids pe by simp
  next
    case False
    then show ?thesis using run_inv_D(6) [OF i, of q e] that unfolding ids pe by simp
  qed
  show "pend_of e ?c = []" if "q < c_nextRun ?c" "ru_executionId (c_runs ?c q) = Some e" "ru_suppressed (c_runs ?c q)" for q e
  proof (cases "q = r")
    case True
    then show ?thesis using sup that unfolding ids pe by simp
  next
    case False
    then show ?thesis using run_inv_D(7) [OF i] that unfolding ids pe by simp
  qed
  show "\<not> pendingRetentionEnabled op \<Longrightarrow> c_pending ?c = []" using run_inv_D(8) [OF i] by simp
qed

lemma upd_run_remove_commute:
  "c_runs (removePendingExecution op e c) = c_runs c"
  "c_nextRun (removePendingExecution op e c) = c_nextRun c"
  "c_inflight (removePendingExecution op e c) = c_inflight c"
  by (simp_all add: removePendingExecution_def)

text \<open>Suppressing a run together with removing what it retains, in either order.\<close>

lemma core_suppress_remove:
  "core (remove_run_pending op r (upd_run r f c)) = core (upd_run r f (remove_run_pending op r c))"
  if "ru_executionId (f (c_runs c r)) = ru_executionId (c_runs c r)"
  using that by (simp add: core_eq remove_run_pending_def removePendingExecution_def split: option.split)

lemma pend_of_run_removed:
  "ru_executionId (c_runs c r) = Some e \<Longrightarrow> pend_of e (remove_run_pending op r c) = []"
  by (simp add: remove_run_pending_def)

lemma remove_run_fields [simp]:
  "c_runs (remove_run_pending op r c) = c_runs c" "c_nextRun (remove_run_pending op r c) = c_nextRun c"
  "c_inflight (remove_run_pending op r c) = c_inflight c"
  by (simp_all add: remove_run_pending_def upd_run_remove_commute split: option.split)

lemma run_inv_remove_run [inv_intros]: "run_inv op c \<Longrightarrow> run_inv op (remove_run_pending op r c)"
  by (simp add: remove_run_pending_def run_inv_remove split: option.split)

lemma run_inv_suppress_remove [inv_intros]:
  assumes "run_inv op c" and "ru_executionId (f (c_runs c r)) = ru_executionId (c_runs c r)"
    "ru_taskId (f (c_runs c r)) = ru_taskId (c_runs c r)"
  shows "run_inv op (remove_run_pending op r (upd_run r f c))"
proof -
  have "run_inv op (upd_run r f (remove_run_pending op r c))"
    using assms by (intro run_inv_upd run_inv_remove_run) (simp_all add: pend_of_run_removed)
  then show ?thesis using run_inv_core [OF core_suppress_remove] assms(2) by blast
qed

lemma run_inv_failRun [inv_intros]: "run_inv op c \<Longrightarrow> run_inv op (failReliableRun op r d c)"
proof -
  assume i: "run_inv op c"
  have "run_inv op (remove_run_pending op r (suppress r c))"
    unfolding suppress_def by (rule run_inv_suppress_remove [OF i]) simp_all
  then show ?thesis
    using i run_inv_core [of "terminate_sock (remove_run_pending op r (suppress r c))" "remove_run_pending op r (suppress r c)" op]
    by (simp add: failReliableRun_def Let_def)
qed

lemma run_inv_simple [simp]:
  "run_inv op (c_emit ef c) = run_inv op c" "run_inv op (terminate_sock c) = run_inv op c"
  "run_inv op (send_up fr c) = run_inv op c" "run_inv op (schedulePendingExpiry op' c) = run_inv op c"
  "run_inv op (sendReliableFailureAndDisconnect op' e t n m c) = run_inv op c"
  "run_inv op (scheduleReconnect fl d c) = run_inv op c"
  by (rule run_inv_core, simp)+

text \<open>Sending a frame: refused, it ends the run; accepted, it is retained as the next one.\<close>

definition next_seq :: "run \<Rightarrow> run" where
  "next_seq x = x\<lparr>ru_nextSeq := Suc (ru_nextSeq x)\<rparr>"

lemma next_seq_fields [simp]:
  "ru_nextSeq (next_seq x) = Suc (ru_nextSeq x)" "ru_executionId (next_seq x) = ru_executionId x"
  "ru_taskId (next_seq x) = ru_taskId x" "ru_suppressed (next_seq x) = ru_suppressed x"
  by (simp_all add: next_seq_def)

lemma run_inv_append:
  assumes i: "run_inv op c" and r: "r < c_nextRun c" "ru_executionId (c_runs c r) = Some e" "\<not> ru_suppressed (c_runs c r)"
    and ret: "pendingRetentionEnabled op"
    and p: "pf_executionId p = e" "pf_seq p = ru_nextSeq (c_runs c r)" "pf_taskId p = ru_taskId (c_runs c r)"
      "pf_bytes p = op_byteLength op (pf_frame p)"
      "\<exists>body. pf_frame p = TaskFrame \<lparr>h_taskId = pf_taskId p, h_executionId = Some (pf_executionId p), h_seq = Some (pf_seq p)\<rparr> body"
    and c': "c_pending c' = c_pending c @ [p]" "c_runs c' = (c_runs c)(r := next_seq (c_runs c r))"
      "c_nextRun c' = c_nextRun c" "c_inflight c' = c_inflight c"
  shows "run_inv op c'"
proof (rule run_invI)
  have ids: "ru_executionId (c_runs c' q) = ru_executionId (c_runs c q)" "ru_taskId (c_runs c' q) = ru_taskId (c_runs c q)"
    "ru_suppressed (c_runs c' q) = ru_suppressed (c_runs c q)" for q
    by (simp_all add: c')
  have pe: "pend_of e' c' = pend_of e' c @ (if e' = e then [p] else [])" for e'
    using p(1) by (simp add: pend_of_def c')
  show "distinct (map_keys (c_inflight c'))" using run_inv_D(1) [OF i] by (simp add: c')
  show "q < c_nextRun c' \<and> ru_taskId (c_runs c' q) = t" if "map_of (c_inflight c') t = Some q" for t q
    using run_inv_D(2,3) [OF i] that unfolding ids c'(3,4) by simp
  show uniq: "q = q'" if "q < c_nextRun c'" "q' < c_nextRun c'" "ru_executionId (c_runs c' q) = Some e'"
    "ru_executionId (c_runs c' q') = Some e'" for q q' e'
    using run_inv_D(4) [OF i] that unfolding ids c'(3) by simp
  show "frame_ok op c' q" if "q \<in> set (c_pending c')" for q
  proof (cases "q = p")
    case True
    have "r < c_nextRun c' \<and> ru_executionId (c_runs c' r) = Some (pf_executionId p) \<and> ru_taskId (c_runs c' r) = pf_taskId p"
      unfolding ids c'(3) using p r by simp
    then show ?thesis unfolding True frame_ok_def using p(4,5) by blast
  next
    case False
    then have "frame_ok op c q" using run_inv_D(5) [OF i] that by (simp add: c')
    then show ?thesis using frame_ok_cong [of c' c op q] ids c'(3) by simp
  qed
  show "contiguous (pend_of e' c') (ru_nextSeq (c_runs c' q))"
    if q: "q < c_nextRun c'" "ru_executionId (c_runs c' q) = Some e'" for q e'
  proof (cases "q = r")
    case True
    then have "e' = e" using q(2) r(2) unfolding ids by simp
    moreover have "contiguous (pend_of e c @ [p]) (Suc (ru_nextSeq (c_runs c r)))"
      using run_inv_D(6) [OF i r(1,2)] p(2) by (rule contiguous_snoc)
    ultimately show ?thesis using True by (simp add: pe c'(2))
  next
    case False
    then have "e' \<noteq> e" using run_inv_D(4) [OF i _ r(1) _ r(2)] q unfolding ids c'(3) by blast
    then show ?thesis using run_inv_D(6) [OF i] q False unfolding ids c'(3) by (simp add: pe c'(2))
  qed
  show "pend_of e' c' = []" if q: "q < c_nextRun c'" "ru_executionId (c_runs c' q) = Some e'" "ru_suppressed (c_runs c' q)" for q e'
  proof -
    have "q \<noteq> r" using q(3) r(3) unfolding ids by blast
    then have "e' \<noteq> e" using run_inv_D(4) [OF i _ r(1) _ r(2)] q unfolding ids c'(3) by blast
    then show ?thesis using run_inv_D(7) [OF i] q unfolding ids c'(3) by (simp add: pe)
  qed
  show "\<not> pendingRetentionEnabled op \<Longrightarrow> c_pending c' = []" using ret by simp
qed

lemma sendTaskFrame_reliable:
  assumes "\<not> ru_suppressed (c_runs c r)" "ru_executionId (c_runs c r) = Some e"
  shows "sendTaskFrame op r body c =
    (let f = TaskFrame \<lparr>h_taskId = ru_taskId (c_runs c r), h_executionId = Some e, h_seq = Some (ru_nextSeq (c_runs c r))\<rparr> body;
         c1 = upd_run r next_seq c
     in if buffer_full op (op_byteLength op f) c1 then
          sendReliableFailureAndDisconnect op e (ru_taskId (c_runs c r)) (ru_nextSeq (c_runs c r))
            ''client unacknowledged frame buffer limit exceeded'' (remove_run_pending op r (suppress r c1))
        else let c2 = (if pendingRetentionEnabled op then
            schedulePendingExpiry op (c1\<lparr>c_pending := c_pending c1 @
              [\<lparr>pf_taskId = ru_taskId (c_runs c r), pf_executionId = e, pf_seq = ru_nextSeq (c_runs c r), pf_frame = f,
                pf_bytes = op_byteLength op f, pf_createdAt = c_now c1\<rparr>],
              c_pendingBytes := c_pendingBytes c1 + int (op_byteLength op f)\<rparr>) else c1)
          in if c_replayReady c2 then send_up f c2 else c2)"
proof -
  have "upd_run r (\<lambda>x. x\<lparr>ru_nextSeq := ru_nextSeq (c_runs c r) + 1\<rparr>) c = upd_run r next_seq c"
    by (simp add: upd_run_def next_seq_def)
  then show ?thesis using assms by (simp add: sendTaskFrame_def failReliableRun_def Let_def)
qed

lemma run_inv_sendTask [inv_intros]:
  assumes i: "run_inv op c" and r: "r < c_nextRun c"
  shows "run_inv op (sendTaskFrame op r body c)"
proof (cases "ru_suppressed (c_runs c r) \<or> ru_executionId (c_runs c r) = None")
  case True
  with i show ?thesis by (auto simp: sendTaskFrame_def Let_def)
next
  case False
  then obtain e where e: "ru_executionId (c_runs c r) = Some e" and ns: "\<not> ru_suppressed (c_runs c r)" by auto
  let ?f = "TaskFrame \<lparr>h_taskId = ru_taskId (c_runs c r), h_executionId = Some e, h_seq = Some (ru_nextSeq (c_runs c r))\<rparr> body"
  let ?c1 = "upd_run r next_seq c"
  let ?b = "op_byteLength op ?f"
  let ?p = "\<lparr>pf_taskId = ru_taskId (c_runs c r), pf_executionId = e, pf_seq = ru_nextSeq (c_runs c r), pf_frame = ?f,
    pf_bytes = ?b, pf_createdAt = c_now ?c1\<rparr>"
  have full: "run_inv op (remove_run_pending op r (suppress r ?c1))"
  proof -
    have eq: "suppress r ?c1 = upd_run r (\<lambda>x. (next_seq x)\<lparr>ru_suppressed := True, ru_aborted := True\<rparr>) c"
      by (simp add: suppress_def upd_run_def)
    show ?thesis unfolding eq by (rule run_inv_suppress_remove [OF i]) simp_all
  qed
  have kept: "run_inv op (?c1\<lparr>c_pending := c_pending ?c1 @ [?p], c_pendingBytes := c_pendingBytes ?c1 + int ?b\<rparr>)"
    if "pendingRetentionEnabled op"
    by (rule run_inv_append [OF i r e ns that, where p = ?p]) simp_all
  have none: "run_inv op ?c1" if "\<not> pendingRetentionEnabled op"
    using run_inv_D(8) [OF i that] run_inv_D(7) [OF i r e] ns
    by (intro run_inv_upd [OF i]) (simp_all add: pend_of_def)
  show ?thesis
    using full kept none unfolding sendTaskFrame_reliable [OF ns e] Let_def by simp
qed

subsection \<open>Expiry, replay, suppression\<close>

lemma run_inv_expire_one: "run_inv op c \<Longrightarrow> run_inv op (expire_one op e c)"
  by (simp add: expire_one_def run_inv_failRun run_inv_remove split: option.split)

lemma run_inv_expire [inv_intros]: "run_inv op c \<Longrightarrow> run_inv op (expirePendingFrames op c)"
  by (auto simp: expirePendingFrames_def Let_def intro!: fold_invariant [where Q = "\<lambda>_. True" and P = "run_inv op"]
      run_inv_expire_one)

lemma run_inv_flush_from: "run_inv op c \<Longrightarrow> run_inv op (flush_from op w ps c)"
  by (induction ps arbitrary: c) (simp_all add: run_inv_failRun run_inv_remove split: option.split)

lemma run_inv_flush [inv_intros]: "run_inv op c \<Longrightarrow> run_inv op (flushPendingFrames op w c)"
  by (simp add: flushPendingFrames_def Let_def run_inv_expire run_inv_flush_from)

lemma run_inv_drop [inv_intros]: "run_inv op c \<Longrightarrow> run_inv op (dropPendingFrames c)"
  by (rule run_inv_keep_gen [where P = "\<lambda>_. False"]) simp_all

lemma run_inv_no_pending_suppress:
  assumes "run_inv op c" and "\<And>e. ru_executionId (c_runs c r) = Some e \<Longrightarrow> c_pending c = []"
  shows "run_inv op (suppress r c)"
  unfolding suppress_def using assms by (intro run_inv_upd) (simp_all add: pend_of_def)

lemma run_inv_suppress_unreliable:
  assumes "run_inv op c"
  shows "run_inv op (suppress_all (\<lambda>r. \<not> (ru_executionId r \<noteq> None \<and> pendingRetentionEnabled op)) c)"
  unfolding suppress_all_def
proof (rule fold_invariant [where Q = "\<lambda>_. True" and P = "run_inv op"])
  fix r c assume "run_inv op c"
  then show "run_inv op (if \<not> (ru_executionId (c_runs c r) \<noteq> None \<and> pendingRetentionEnabled op) then suppress r c else c)"
    using run_inv_no_pending_suppress [of op c r] run_inv_D(8) [of op c] by auto
qed (use assms in simp_all)

lemma run_inv_drop_suppress_all:
  assumes "run_inv op (dropPendingFrames c)"
  shows "run_inv op (dropPendingFrames (suppress_all P c))"
  unfolding suppress_all_def
proof (rule fold_invariant [where Q = "\<lambda>_. True" and P = "\<lambda>c. run_inv op (dropPendingFrames c)"])
  fix r c assume a: "run_inv op (dropPendingFrames c)"
  have eq: "core (dropPendingFrames (suppress r c)) = core (suppress r (dropPendingFrames c))"
    by (simp add: core_eq)
  have "run_inv op (suppress r (dropPendingFrames c))"
    by (rule run_inv_no_pending_suppress [OF a]) simp
  then have "run_inv op (dropPendingFrames (suppress r c))" using run_inv_core [OF eq] by blast
  with a show "run_inv op (dropPendingFrames (if P (c_runs c r) then suppress r c else c))" by simp
qed (use assms in simp_all)

lemma suppress_fold_fields:
  fixes c :: client
  defines "g \<equiv> \<lambda>P rs. fold (\<lambda>r c. if P (c_runs c r) then suppress r c else c) rs"
  shows "c_pending (g P rs c) = c_pending c" "c_pendingBytes (g P rs c) = c_pendingBytes c"
    "c_nextRun (g P rs c) = c_nextRun c" "c_inflight (g P rs c) = c_inflight c"
  unfolding g_def by (induction rs arbitrary: c) simp_all

lemma suppress_all_fields [simp]:
  "c_pending (suppress_all P c) = c_pending c" "c_pendingBytes (suppress_all P c) = c_pendingBytes c"
  "c_nextRun (suppress_all P c) = c_nextRun c" "c_inflight (suppress_all P c) = c_inflight c"
  by (simp_all add: suppress_all_def suppress_fold_fields)

subsection \<open>Events\<close>

lemma bounds_inv_cong:
  "c_pending c' = c_pending c \<Longrightarrow> c_pendingBytes c' = c_pendingBytes c \<Longrightarrow> bounds_inv op c' = bounds_inv op c"
  by (simp add: bounds_inv_def)

definition client_inv :: "client_opts \<Rightarrow> client \<Rightarrow> bool" where
  "client_inv op c \<longleftrightarrow> bounds_inv op c \<and> run_inv op c"

lemma client_inv_core: "core c' = core c \<Longrightarrow> client_inv op c \<Longrightarrow> client_inv op c'"
  unfolding client_inv_def using bounds_inv_core [of c' c op] run_inv_core [of c' c op] by blast

lemma client_inv_drop: "run_inv op (dropPendingFrames c) \<Longrightarrow> client_inv op (dropPendingFrames c)"
  by (simp add: client_inv_def)

lemma client_inv_drop_suppress:
  "client_inv op c \<Longrightarrow> client_inv op (dropPendingFrames (suppress_all P c))"
  by (simp add: client_inv_def run_inv_drop_suppress_all run_inv_drop)

lemma client_inv_stop: "client_inv op c \<Longrightarrow> client_inv op (stop c)"
proof -
  assume "client_inv op c"
  then have "client_inv op (c\<lparr>c_stopped := True, c_reconnectTimer := False, c_awaitingPong := False\<rparr>)"
    by (rule client_inv_core [rotated]) (simp add: core_eq)
  from client_inv_drop_suppress [OF this, where P = "\<lambda>_. True"] show ?thesis
    by (rule client_inv_core [rotated]) (simp add: stop_def Let_def core_eq split: option.split)
qed

lemma client_inv_negotiation: "client_inv op c \<Longrightarrow> client_inv op (negotiation_failed c)"
  by (rule client_inv_core [OF _ client_inv_stop]) (simp_all add: negotiation_failed_def)

lemma client_inv_close: "client_inv op c \<Longrightarrow> client_inv op (client_on_close op w code reason delay c)"
proof -
  assume i: "client_inv op c"
  let ?c1 = "c\<lparr>c_sock := None, c_open := False, c_approvalsReady := False, c_awaitingPong := False\<rparr>"
  let ?c2 = "suppress_all (\<lambda>r. \<not> (ru_executionId r \<noteq> None \<and> pendingRetentionEnabled op)) ?c1"
  have c1: "client_inv op ?c1" by (rule client_inv_core [OF _ i]) (simp add: core_eq)
  have "bounds_inv op ?c2 = bounds_inv op ?c1" by (rule bounds_inv_cong) simp_all
  then have c2: "client_inv op ?c2"
    using c1 run_inv_suppress_unreliable [of op ?c1] unfolding client_inv_def by blast
  have c3: "client_inv op (?c2\<lparr>c_stopped := True, c_reconnectTimer := False\<rparr>)"
    by (rule client_inv_core [OF _ c2]) (simp add: core_eq)
  have fatal: "client_inv op (c_emit (CFatal code reason)
     (dropPendingFrames (suppress_all (\<lambda>_. True) (?c2\<lparr>c_stopped := True, c_reconnectTimer := False\<rparr>))))"
    by (rule client_inv_core [OF _ client_inv_drop_suppress [OF c3]]) simp
  have sched: "client_inv op (scheduleReconnect fl delay ?c2)" for fl
    by (rule client_inv_core [OF _ c2]) simp
  show ?thesis
    unfolding client_on_close_def Let_def using i fatal sched by simp
qed

text \<open>Execution ids are chosen by the server, a new one for every execution.\<close>

definition fresh_execution :: "client \<Rightarrow> string option \<Rightarrow> bool" where
  "fresh_execution c e \<longleftrightarrow> (e = None \<or> (\<forall>q < c_nextRun c. ru_executionId (c_runs c q) \<noteq> e))"

lemma pend_of_fresh: "run_inv op c \<Longrightarrow> fresh_execution c (Some e) \<Longrightarrow> pend_of e c = []"
  using run_inv_D(5) [of op c] by (fastforce simp: pend_of_def frame_ok_def fresh_execution_def filter_empty_conv)

lemma run_inv_new:
  assumes i: "run_inv op c" and fr: "fresh_execution c (ru_executionId ru)" and t: "ru_taskId ru = t"
    "ru_nextSeq ru = 0"
    and c': "c_pending c' = c_pending c" "c_runs c' = (c_runs c)(c_nextRun c := ru)" "c_nextRun c' = Suc (c_nextRun c)"
      "c_inflight c' = map_set t (c_nextRun c) (c_inflight c)"
  shows "run_inv op c'"
proof (rule run_invI)
  have old: "c_runs c' q = c_runs c q" if "q < c_nextRun c" for q using that by (simp add: c')
  have new: "c_runs c' (c_nextRun c) = ru" by (simp add: c')
  have pe: "pend_of e c' = pend_of e c" for e by (simp add: pend_of_def c')
  have split: "q < c_nextRun c' \<longleftrightarrow> q < c_nextRun c \<or> q = c_nextRun c" for q by (auto simp: c')
  have nofresh: False if "q < c_nextRun c" "ru_executionId (c_runs c q) = Some e" "ru_executionId ru = Some e" for q e
    using fr that by (auto simp: fresh_execution_def)
  show "distinct (map_keys (c_inflight c'))" using run_inv_D(1) [OF i] by (simp add: c')
  show "r < c_nextRun c' \<and> ru_taskId (c_runs c' r) = t'" if "map_of (c_inflight c') t' = Some r" for t' r
  proof (cases "t' = t")
    case True
    then show ?thesis using that t new by (simp add: c')
  next
    case False
    then have m: "map_of (c_inflight c) t' = Some r" using that by (simp add: c')
    then show ?thesis using run_inv_D(2,3) [OF i] old split by metis
  qed
  show "r = r'" if "r < c_nextRun c'" "r' < c_nextRun c'" "ru_executionId (c_runs c' r) = Some e"
    "ru_executionId (c_runs c' r') = Some e" for r r' e
    using that split [of r] split [of r'] old new nofresh run_inv_D(4) [OF i, of r r' e] by metis
  show "frame_ok op c' p" if "p \<in> set (c_pending c')" for p
  proof -
    have "frame_ok op c p" using run_inv_D(5) [OF i] that by (simp add: c')
    then show ?thesis using old split unfolding frame_ok_def by metis
  qed
  show "contiguous (pend_of e c') (ru_nextSeq (c_runs c' r))" if "r < c_nextRun c'" "ru_executionId (c_runs c' r) = Some e" for r e
  proof (cases "r = c_nextRun c")
    case True
    then have "ru_executionId ru = Some e" using that new by simp
    then show ?thesis using pend_of_fresh [OF i] fr by (simp add: pe)
  next
    case False
    then show ?thesis using that split old run_inv_D(6) [OF i] by (simp add: pe)
  qed
  show "pend_of e c' = []" if "r < c_nextRun c'" "ru_executionId (c_runs c' r) = Some e" "ru_suppressed (c_runs c' r)" for r e
  proof (cases "r = c_nextRun c")
    case True
    then have "ru_executionId ru = Some e" using that new by simp
    then show ?thesis using pend_of_fresh [OF i] fr by (simp add: pe)
  next
    case False
    then show ?thesis using that split old run_inv_D(7) [OF i] by (simp add: pe)
  qed
  show "\<not> pendingRetentionEnabled op \<Longrightarrow> c_pending c' = []" using run_inv_D(8) [OF i] by (simp add: c')
qed

lemma client_inv_suppress_remove:
  assumes "client_inv op c"
  shows "client_inv op (remove_run_pending op r (suppress r c))"
  using assms run_inv_suppress_remove [of op c "\<lambda>x. x\<lparr>ru_suppressed := True, ru_aborted := True\<rparr>" r]
  by (simp add: client_inv_def bounds_inv_remove suppress_def)

lemma client_inv_start:
  assumes i: "client_inv op c" and fr: "fresh_execution c (as_executionId a)"
  shows "client_inv op (start_run op a c)"
proof -
  define c1 where "c1 = (case map_of (c_inflight c) (as_taskId a) of None \<Rightarrow> c
    | Some r \<Rightarrow> remove_run_pending op r (suppress r c))"
  have i1: "client_inv op c1" using i by (simp add: c1_def client_inv_suppress_remove split: option.split)
  have fr1: "fresh_execution c1 (as_executionId a)"
    using fr by (auto simp: c1_def fresh_execution_def split: option.split)
  have "core (start_run op a c) = core (c1\<lparr>c_runs := (c_runs c1)(c_nextRun c1 := \<lparr>ru_taskId = as_taskId a,
      ru_suppressed = False, ru_aborted = False, ru_executionId = as_executionId a, ru_nextSeq = 0\<rparr>),
      c_nextRun := Suc (c_nextRun c1), c_inflight := map_set (as_taskId a) (c_nextRun c1) (c_inflight c1)\<rparr>)"
    (is "_ = core ?c")
    by (simp add: start_run_def Let_def c1_def)
  moreover have "client_inv op ?c"
  proof -
    have "run_inv op c1" using i1 by (simp add: client_inv_def)
    then have "run_inv op ?c" 
      by (rule run_inv_new [where t = "as_taskId a"]) (use fr1 in simp_all)
    moreover have "bounds_inv op ?c = bounds_inv op c1" by (rule bounds_inv_cong) simp_all
    ultimately show ?thesis using i1 unfolding client_inv_def by blast
  qed
  ultimately show ?thesis by (rule client_inv_core)
qed

lemma run_inv_aborted:
  assumes i: "run_inv op c" and r: "r < c_nextRun c"
  shows "run_inv op (upd_run r (\<lambda>x. x\<lparr>ru_aborted := True\<rparr>) c)"
  using run_inv_D(7) [OF i r] by (intro run_inv_upd [OF i]) simp_all

lemma client_inv_aborted:
  "client_inv op c \<Longrightarrow> r < c_nextRun c \<Longrightarrow> client_inv op (upd_run r (\<lambda>x. x\<lparr>ru_aborted := True\<rparr>) c)"
  by (simp add: client_inv_def run_inv_aborted)

lemma client_inv_cancel: "client_inv op c \<Longrightarrow> client_inv op (on_cancel op taskId e c)"
proof (cases "map_of (c_inflight c) taskId")
  case (Some r)
  assume i: "client_inv op c"
  then have r: "r < c_nextRun c" using run_inv_D(2) Some by (auto simp: client_inv_def)
  show ?thesis
  proof (cases e)
    case None
    then show ?thesis using client_inv_aborted [OF i r] Some by (simp add: on_cancel_def Let_def)
  next
    case (Some e0)
    show ?thesis
    proof (cases "ru_executionId (c_runs c r) = Some e0")
      case True
      let ?f = "\<lambda>x. x\<lparr>ru_suppressed := True\<rparr>"
      have "run_inv op (remove_run_pending op r (upd_run r ?f c))"
        using i by (intro run_inv_suppress_remove) (simp_all add: client_inv_def)
      then have "client_inv op (remove_run_pending op r (upd_run r ?f c))"
        using i by (simp add: client_inv_def bounds_inv_remove)
      then have "client_inv op (upd_run r (\<lambda>x. x\<lparr>ru_aborted := True\<rparr>) (remove_run_pending op r (upd_run r ?f c)))"
        by (rule client_inv_aborted) (use r in simp)
      moreover have "remove_run_pending op r (upd_run r ?f c) = removePendingExecution op e0 (upd_run r ?f c)"
        using True by (simp add: remove_run_pending_def)
      ultimately show ?thesis
        using True Some \<open>map_of (c_inflight c) taskId = Some r\<close> by (simp only: on_cancel_def Let_def) simp
    next
      case False
      then show ?thesis using i Some \<open>map_of (c_inflight c) taskId = Some r\<close> by (simp add: on_cancel_def)
    qed
  qed
qed (simp add: on_cancel_def)

lemma client_inv_hello: "client_inv op c \<Longrightarrow> client_inv op (on_hello_ack op w caps mx c)"
proof -
  assume i: "client_inv op c"
  have same: "client_inv op (c\<lparr>c_approvalsReady := x1, c_federatedScopeReady := x2, c_callerScopeReady := x3\<rparr>)"
    for x1 x2 x3 by (rule client_inv_core [OF _ i]) (simp add: core_eq)
  have ready: "client_inv op (c\<lparr>c_approvalsReady := x1, c_federatedScopeReady := x2, c_callerScopeReady := x3,
    c_replayReady := True, c_maxFrameBytes := Some mx\<rparr>)"
    for x1 x2 x3 by (rule client_inv_core [OF _ i]) (simp add: core_eq)
  show ?thesis
    unfolding on_hello_ack_def Let_def
    using same client_inv_negotiation [OF same] ready bounds_inv_flush run_inv_flush by (simp add: client_inv_def)
qed

lemma client_inv_assign:
  assumes i: "client_inv op c" and "fresh_execution c (as_executionId a)"
  shows "client_inv op (on_assign op a c)"
proof -
  have "client_inv op (c\<lparr>c_replayReady := False\<rparr>)" by (rule client_inv_core [OF _ i]) (simp add: core_eq)
  moreover have "fresh_execution (c\<lparr>c_replayReady := False\<rparr>) (as_executionId a)"
    using assms(2) by (simp add: fresh_execution_def)
  ultimately show ?thesis
    unfolding on_assign_def Let_def
    using assms client_inv_negotiation [OF i] client_inv_start [OF i assms(2)]
      client_inv_start [of op "c\<lparr>c_replayReady := False\<rparr>" a] by simp
qed

lemma client_inv_finished: "client_inv op c \<Longrightarrow> client_inv op (run_finished r c)"
proof -
  assume i: "client_inv op c"
  define c' where "c' = c\<lparr>c_inflight := map_del (ru_taskId (c_runs c r)) (c_inflight c)\<rparr>"
  have run: "run_inv op c" using i by (simp add: client_inv_def)
  have sub: "map_of (c_inflight c') t = Some q \<Longrightarrow> map_of (c_inflight c) t = Some q" for t q
    by (simp add: c'_def split: if_splits)
  have same: "c_runs c' = c_runs c" "c_nextRun c' = c_nextRun c" "c_pending c' = c_pending c"
    and del: "c_inflight c' = map_del (ru_taskId (c_runs c r)) (c_inflight c)"
    by (simp_all add: c'_def)
  have pe: "pend_of e c' = pend_of e c" for e by (simp add: pend_of_def same)
  have ok: "frame_ok op c' p = frame_ok op c p" for p by (rule frame_ok_cong) (simp_all add: same)
  have "run_inv op c'"
  proof (rule run_invI, unfold same pe ok)
    show "distinct (map_keys (c_inflight c'))" using run_inv_D(1) [OF run] del by simp
    show "q < c_nextRun c \<and> ru_taskId (c_runs c q) = t" if "map_of (c_inflight c') t = Some q" for t q
      using run_inv_D(2,3) [OF run sub [OF that]] by blast
  qed (use run_inv_D(4-8) [OF run] in blast)+
  moreover have "bounds_inv op c' = bounds_inv op c" by (rule bounds_inv_cong) (simp_all add: c'_def)
  ultimately show ?thesis using i by (simp add: run_finished_def Let_def client_inv_def c'_def)
qed

definition frame_fresh :: "client \<Rightarrow> down_frame \<Rightarrow> bool" where
  "frame_fresh c f \<longleftrightarrow> (\<forall>a. f = TaskAssign a \<longrightarrow> fresh_execution c (as_executionId a))"

lemma client_inv_message:
  assumes i: "client_inv op c" and "frame_fresh c f"
  shows "client_inv op (client_on_message op w f c)"
proof -
  have "client_inv op (send_up Pong c)" by (rule client_inv_core [OF _ i]) simp
  then show ?thesis
    using assms client_inv_hello client_inv_cancel client_inv_assign bounds_inv_remove(2) run_inv_ack
    by (auto simp: client_on_message_def frame_fresh_def client_inv_def split: down_frame.split)
qed

subsection \<open>The client as a transition system\<close>

definition new_client :: "int \<Rightarrow> (rref \<Rightarrow> run) \<Rightarrow> client" where
  "new_client now runs0 =
     \<lparr>c_now = now, c_sock = None, c_open = False, c_nextSock = 0, c_stopped = False, c_reconnectAttempt = 0,
      c_reconnectTimer = False, c_awaitingPong = False, c_inflight = [], c_runs = runs0, c_nextRun = 0,
      c_pending = [], c_pendingBytes = 0, c_expiry = None, c_replayReady = False, c_callerScopeReady = False,
      c_federatedScopeReady = False, c_approvalsReady = False, c_maxFrameBytes = None, c_out = []\<rparr>"

text \<open>What can happen to a client. The handlers run one at a time.\<close>

datatype client_event =
    Clock int
  | Start
  | Opened nat
  | SendHello nat "agent_card option" "detected_capabilities option"
  | Message nat down_frame
  | Emits rref task_body
  | Finished rref
  | Expiry
  | Closed nat int string
  | Retry
  | Stable nat
  | Beat nat
  | Pong_received nat
  | Send_error nat
  | Flushed nat
  | Stop

text \<open>Time does not run backwards, a socket opens before its first message arrives, output comes
  from runs that were started and the timer of the retained frames fires when it is due.\<close>

fun client_can :: "client_event \<Rightarrow> client \<Rightarrow> bool" where
  "client_can (Clock now) c \<longleftrightarrow> now \<ge> c_now c"
| "client_can (Opened w) c \<longleftrightarrow> \<not> c_replayReady c"
| "client_can (Message w f) c \<longleftrightarrow> frame_fresh c f"
| "client_can (Emits r body) c \<longleftrightarrow> r < c_nextRun c"
| "client_can Expiry c \<longleftrightarrow> (case c_expiry c of None \<Rightarrow> False | Some t \<Rightarrow> t \<le> c_now c)"
| "client_can _ c \<longleftrightarrow> True"

fun client_do :: "client_opts \<Rightarrow> (nat \<Rightarrow> int) \<Rightarrow> client_event \<Rightarrow> client \<Rightarrow> client" where
  "client_do op delay (Clock now) c = c\<lparr>c_now := now\<rparr>"
| "client_do op delay Start c = connect c"
| "client_do op delay (Opened w) c = client_on_open op w c"
| "client_do op delay (SendHello w base_card probe) c = send_hello op w (effective_card base_card probe) c"
| "client_do op delay (Message w f) c = client_on_message op w f c"
| "client_do op delay (Emits r body) c = sendTaskFrame op r body c"
| "client_do op delay (Finished r) c = run_finished r c"
| "client_do op delay Expiry c = expirePendingFrames op (c\<lparr>c_expiry := None\<rparr>)"
| "client_do op delay (Closed w code reason) c = client_on_close op w code reason delay c"
| "client_do op delay Retry c = reconnect_fired c"
| "client_do op delay (Stable w) c = reset_fired w c"
| "client_do op delay (Beat w) c = heartbeat_fired w c"
| "client_do op delay (Pong_received w) c = on_pong w c"
| "client_do op delay (Send_error w) c = send_failed w c"
| "client_do op delay (Flushed w) c = failure_flushed w c"
| "client_do op delay Stop c = stop c"

inductive client_step :: "client_opts \<Rightarrow> (nat \<Rightarrow> int) \<Rightarrow> client \<Rightarrow> client \<Rightarrow> bool" for op delay where
  step: "client_can ev c \<Longrightarrow> client_step op delay c (client_do op delay ev c)"

inductive_cases client_stepE [elim]: "client_step op delay c c'"

lemma client_do_inv: "client_can ev c \<Longrightarrow> client_inv op c \<Longrightarrow> client_inv op (client_do op delay ev c)"
proof (cases ev)
  case (Emits r body)
  assume "client_can ev c" "client_inv op c"
  with Emits show ?thesis by (simp add: client_inv_def bounds_inv_sendTask run_inv_sendTask)
next
  case Expiry
  assume i: "client_inv op c"
  have "client_inv op (c\<lparr>c_expiry := None\<rparr>)" by (rule client_inv_core [OF _ i]) (simp add: core_eq)
  with Expiry show ?thesis by (simp add: client_inv_def bounds_inv_expire run_inv_expire)
next
  case (Clock now)
  assume "client_inv op c"
  then show ?thesis by (rule client_inv_core [rotated]) (simp add: core_eq Clock)
qed (simp_all add: client_inv_message client_inv_finished client_inv_close client_inv_stop, (rule client_inv_core, simp, assumption)+)

lemma client_step_inv: "client_step op delay c c' \<Longrightarrow> client_inv op c \<Longrightarrow> client_inv op c'"
  using client_do_inv by (auto elim!: client_stepE)

lemma new_client_inv: "client_inv op (new_client now runs0)"
  by (simp add: client_inv_def bounds_inv_def run_inv_def new_client_def)

interpretation cl: invariant_system "\<lambda>c. \<exists>now runs0. c = new_client now runs0" "client_step op delay" "client_inv op" for op delay
  by unfold_locales (auto intro: new_client_inv client_step_inv)

end
