(* ===== verification/Replay.thy ===== *)
theory Replay
  imports ClientInv Frames
begin

text \<open>
  Replay end to end: the client's retained frames and the server's sequence check together give
  every frame of an execution to the server exactly once and in order, over any number of
  connections, lost frames and repeated deliveries.

  The argument has three parts: sequences without a gap; the client's side (what it sends on
  a socket never runs ahead of what the server has acknowledged or has been sent on that socket
  before); and the link of both, whose steps are the operations of \<open>Client\<close> and \<open>Ws\<close>.
\<close>

subsection \<open>Sequences without a gap\<close>

text \<open>\<open>reach x ks\<close> is the number a receiver that expects \<open>x\<close> expects after \<open>ks\<close>.\<close>

definition reach :: "nat \<Rightarrow> nat list \<Rightarrow> nat" where
  "reach x ks = fold (\<lambda>k m. max m (Suc k)) ks x"

lemma reach_simps [simp]: "reach x [] = x" "reach x (k # ks) = reach (max x (Suc k)) ks"
  by (simp_all add: reach_def)

lemma reach_append: "reach x (ks @ ls) = reach (reach x ks) ls"
  by (simp add: reach_def)

lemma reach_ge: "x \<le> reach x ks"
proof (induction ks arbitrary: x)
  case (Cons k ks)
  have "x \<le> max x (Suc k)" by simp
  also have "\<dots> \<le> reach (max x (Suc k)) ks" by (rule Cons.IH)
  finally show ?case by simp
qed simp

lemma reach_mono: "x \<le> y \<Longrightarrow> reach x ks \<le> reach y ks"
proof (induction ks arbitrary: x y)
  case (Cons k ks)
  then have "max x (Suc k) \<le> max y (Suc k)" by simp
  with Cons.IH show ?case by simp
qed simp

lemma reach_upt: "a \<le> b \<Longrightarrow> b \<le> reach x [a..<b] \<or> a = b"
proof (cases "a = b")
  case False
  assume "a \<le> b"
  with False have "[a..<b] = [a..<b - 1] @ [b - 1]" by (metis le_neq_implies_less less_imp_Suc_add diff_Suc_1 upt_Suc_append less_Suc_eq_le le_add1)
  with False \<open>a \<le> b\<close> show ?thesis by (simp add: reach_append)
qed simp

lemma reach_all_below: "(\<And>k. k \<in> set ks \<Longrightarrow> k < x) \<Longrightarrow> reach x ks = x"
proof (induction ks)
  case (Cons k ks)
  have "k < x" using Cons.prems by simp
  then have "max x (Suc k) = x" by simp
  moreover have "reach x ks = x" using Cons by simp
  ultimately show ?case by simp
qed simp

fun no_gap :: "nat \<Rightarrow> nat list \<Rightarrow> bool" where
  "no_gap x [] \<longleftrightarrow> True"
| "no_gap x (k # ks) \<longleftrightarrow> k \<le> x \<and> no_gap (max x (Suc k)) ks"

lemma no_gap_append: "no_gap x (ks @ ls) \<longleftrightarrow> no_gap x ks \<and> no_gap (reach x ks) ls"
  by (induction ks arbitrary: x) auto

lemma no_gap_mono: "x \<le> y \<Longrightarrow> no_gap x ks \<Longrightarrow> no_gap y ks"
proof (induction ks arbitrary: x y)
  case (Cons k ks)
  from Cons.prems have "max x (Suc k) \<le> max y (Suc k)" by simp
  from Cons.IH [OF this] Cons.prems show ?case by simp
qed simp

lemma no_gap_upt: "a \<le> x \<Longrightarrow> no_gap x [a..<b]"
proof (induction b)
  case (Suc b)
  show ?case
  proof (cases "a \<le> b")
    case True
    then have "b \<le> reach x [a..<b]" using reach_upt [of a b x] reach_ge [of x "[a..<b]"] Suc.prems by linarith
    with Suc True show ?thesis by (simp add: no_gap_append)
  qed simp
qed simp

text \<open>The next frame of a stream without a gap, all earlier ones below \<open>x\<close>, is not above \<open>x\<close>.\<close>

lemma no_gap_next:
  assumes "no_gap x ks" and "d < length ks" and "\<And>k. k \<in> set (take d ks) \<Longrightarrow> k < x"
  shows "ks ! d \<le> x"
proof -
  have "ks = take d ks @ ks ! d # drop (Suc d) ks" using assms(2) by (simp add: id_take_nth_drop)
  then have "no_gap (reach x (take d ks)) (ks ! d # drop (Suc d) ks)"
    using assms(1) no_gap_append by metis
  with reach_all_below [OF assms(3)] show ?thesis by simp
qed

subsection \<open>What the client sent\<close>

text \<open>The frames of an execution that went out on a socket, in order, with their numbers.\<close>

fun sent_frame :: "string \<Rightarrow> nat \<Rightarrow> client_effect \<Rightarrow> (nat \<times> task_body) option" where
  "sent_frame e w (CSend w' (TaskFrame h body)) =
     (if w' = w \<and> h_executionId h = Some e then map_option (\<lambda>k. (k, body)) (h_seq h) else None)"
| "sent_frame e w (CSendThenTerminate w' (TaskFrame h body)) =
     (if w' = w \<and> h_executionId h = Some e then map_option (\<lambda>k. (k, body)) (h_seq h) else None)"
| "sent_frame e w _ = None"

definition sent_on :: "string \<Rightarrow> nat \<Rightarrow> client \<Rightarrow> (nat \<times> task_body) list" where
  "sent_on e w c = List.map_filter (sent_frame e w) (c_out c)"

lemma sent_on_out: "c_out c' = c_out c \<Longrightarrow> sent_on e w c' = sent_on e w c"
  by (simp add: sent_on_def)

lemma sent_on_snoc:
  "c_out c' = c_out c @ [ef] \<Longrightarrow>
   sent_on e w c' = sent_on e w c @ (case sent_frame e w ef of None \<Rightarrow> [] | Some kb \<Rightarrow> [kb])"
  by (simp add: sent_on_def map_filter_def split: option.split)

subsection \<open>Steps that send nothing of the execution\<close>

definition inflight :: "rref \<Rightarrow> client \<Rightarrow> bool" where
  "inflight r c \<longleftrightarrow> map_of (c_inflight c) (ru_taskId (c_runs c r)) = Some r"

definition linked :: "nat \<Rightarrow> client \<Rightarrow> bool" where
  "linked w c \<longleftrightarrow> c_sock c = Some w \<and> c_open c \<and> c_replayReady c"

text \<open>\<open>weaker e r c c'\<close>: the run and what was sent for it are the same, the connection is no more
  usable than before, and what is retained is the same or given up for good.\<close>

definition weaker :: "string \<Rightarrow> rref \<Rightarrow> client \<Rightarrow> client \<Rightarrow> bool" where
  "weaker e r c c' \<longleftrightarrow>
     (r < c_nextRun c \<longrightarrow> r < c_nextRun c') \<and>
     ru_executionId (c_runs c' r) = ru_executionId (c_runs c r) \<and>
     ru_taskId (c_runs c' r) = ru_taskId (c_runs c r) \<and>
     ru_nextSeq (c_runs c' r) = ru_nextSeq (c_runs c r) \<and>
     (\<forall>w. sent_on e w c' = sent_on e w c) \<and>
     (\<forall>w. linked w c' \<longrightarrow> linked w c) \<and>
     (c_maxFrameBytes c' = c_maxFrameBytes c \<or> c_maxFrameBytes c' = None) \<and>
     (ru_suppressed (c_runs c r) \<longrightarrow> ru_suppressed (c_runs c' r)) \<and>
     (inflight r c' \<longrightarrow> inflight r c) \<and>
     (pend_of e c' = pend_of e c \<or> pend_of e c' = [] \<and> (ru_suppressed (c_runs c' r) \<or> \<not> inflight r c'))"

lemma weaker_refl [simp]: "weaker e r c c"
  by (simp add: weaker_def)

lemma weaker_trans: "weaker e r c c' \<Longrightarrow> weaker e r c' c'' \<Longrightarrow> weaker e r c c''"
proof -
  assume a: "weaker e r c c'" and b: "weaker e r c' c''"
  have "pend_of e c'' = pend_of e c \<or> pend_of e c'' = [] \<and> (ru_suppressed (c_runs c'' r) \<or> \<not> inflight r c'')"
  proof (cases "pend_of e c'' = pend_of e c'")
    case True
    then show ?thesis using a b unfolding weaker_def by metis
  next
    case False
    then show ?thesis using b unfolding weaker_def by blast
  qed
  moreover have "c_maxFrameBytes c'' = c_maxFrameBytes c \<or> c_maxFrameBytes c'' = None"
    using a b unfolding weaker_def by metis
  ultimately show ?thesis using a b unfolding weaker_def by simp
qed

text \<open>Operations outside the retained frames.\<close>

lemma weaker_simple:
  assumes "core c' = core c" and "\<And>w. sent_on e w c' = sent_on e w c" and "\<And>w. linked w c' \<Longrightarrow> linked w c"
    and "c_maxFrameBytes c' = c_maxFrameBytes c \<or> c_maxFrameBytes c' = None"
  shows "weaker e r c c'"
  using assms by (simp add: weaker_def core_eq inflight_def pend_of_def)

lemma weaker_fields:
  assumes "c_pending c' = c_pending c" "c_runs c' = c_runs c" "c_nextRun c' = c_nextRun c" "c_inflight c' = c_inflight c"
    and "\<And>w. linked w c' \<Longrightarrow> linked w c"
    and "c_maxFrameBytes c' = c_maxFrameBytes c \<or> c_maxFrameBytes c' = None"
    and "c_out c' = c_out c \<or> (\<exists>ef. c_out c' = c_out c @ [ef] \<and> (\<forall>w. sent_frame e w ef = None))"
  shows "weaker e r c c'"
proof -
  have "sent_on e w c' = sent_on e w c" for w
    using assms(7) by (auto simp: sent_on_def map_filter_def)
  with assms show ?thesis by (simp add: weaker_def inflight_def pend_of_def)
qed

lemma weaker_emit:
  "(\<And>w. sent_frame e w ef = None) \<Longrightarrow> weaker e r c (c_emit ef c)"
  by (rule weaker_fields) (simp_all add: linked_def c_emit_def)

lemma weaker_close_sock [simp]: "weaker e r c (c\<lparr>c_open := False\<rparr>)"
  by (rule weaker_fields) (simp_all add: linked_def)

lemma weaker_terminate [simp]: "weaker e r c (terminate_sock c)"
  by (simp add: terminate_sock_def weaker_trans [OF weaker_close_sock weaker_emit] split: option.split)

lemma weaker_send_failed [simp]: "weaker e r c (send_failed w c)" "weaker e r c (failure_flushed w c)"
  by (simp_all add: send_failed_def failure_flushed_def)

lemma weaker_set_expiry [simp]: "weaker e r c (c\<lparr>c_expiry := x\<rparr>)"
  by (rule weaker_fields) (simp_all add: linked_def)

lemma weaker_set_clock [simp]: "weaker e r c (c\<lparr>c_now := y\<rparr>)"
  by (rule weaker_fields) (simp_all add: linked_def)

lemma weaker_schedule_expiry [simp]: "weaker e r c (schedulePendingExpiry op c)"
  by (simp add: schedulePendingExpiry_def split: list.split)

lemma weaker_send_up:
  assumes "\<And>w w'. sent_frame e w (CSend w' f) = None"
  shows "weaker e r c (send_up f c)"
  using assms by (simp add: send_up_def weaker_emit split: option.split)

lemma weaker_connect [simp]: "weaker e r c (connect c)"
  by (cases "c_stopped c") (simp_all add: connect_def, rule weaker_fields, simp_all add: linked_def c_emit_def)

lemma weaker_reconnect [simp]: "weaker e r c (reconnect_fired c)"
proof -
  have "weaker e r c (c\<lparr>c_reconnectTimer := False\<rparr>)" by (rule weaker_fields) (simp_all add: linked_def)
  then show ?thesis unfolding reconnect_fired_def by (rule weaker_trans) simp
qed

lemma weaker_schedule [simp]: "weaker e r c (scheduleReconnect fl d c)"
proof -
  have "weaker e r c (c_emit (CReconnectIn n) (c\<lparr>c_reconnectAttempt := m, c_reconnectTimer := True\<rparr>))" for n m
    by (rule weaker_fields) (simp_all add: linked_def c_emit_def)
  then show ?thesis by (simp add: scheduleReconnect_def Let_def)
qed

lemma weaker_timers [simp]:
  "weaker e r c (reset_fired w c)" "weaker e r c (heartbeat_fired w c)" "weaker e r c (on_pong w c)"
proof -
  have "weaker e r c (c\<lparr>c_reconnectAttempt := n\<rparr>)" "weaker e r c (c\<lparr>c_awaitingPong := p\<rparr>)" for n p
    by (rule weaker_fields; simp add: linked_def)+
  then show "weaker e r c (reset_fired w c)" "weaker e r c (heartbeat_fired w c)" "weaker e r c (on_pong w c)"
    by (simp_all add: reset_fired_def heartbeat_fired_def on_pong_def)
qed

lemma on_open_fields [simp]:
  "c_replayReady (client_on_open op w c) = c_replayReady c" "c_maxFrameBytes (client_on_open op w c) = c_maxFrameBytes c"
  "c_out (client_on_open op w c) = c_out c"
  by (simp_all add: client_on_open_def Let_def)

lemma weaker_open: "\<not> c_replayReady c \<Longrightarrow> weaker e r c (client_on_open op w c)"
  by (rule weaker_fields) (simp_all add: linked_def)

lemma weaker_hello [simp]: "weaker e r c (send_hello op w card0 c)"
  by (simp add: send_hello_def weaker_send_up)

text \<open>Operations on the retained frames and the runs.\<close>

lemma weaker_upd_run:
  assumes "ru_executionId (f (c_runs c q)) = ru_executionId (c_runs c q)" "ru_taskId (f (c_runs c q)) = ru_taskId (c_runs c q)"
    "ru_nextSeq (f (c_runs c q)) = ru_nextSeq (c_runs c q)" "ru_suppressed (c_runs c q) \<Longrightarrow> ru_suppressed (f (c_runs c q))"
  shows "weaker e r c (upd_run q f c)"
  using assms by (simp add: weaker_def linked_def sent_on_def inflight_def pend_of_def upd_run_def)

lemma weaker_suppress [simp]: "weaker e r c (suppress q c)"
  unfolding suppress_def by (rule weaker_upd_run) simp_all

lemma weaker_keep:
  assumes "filter P (pend_of e c) = pend_of e c \<or>
    filter P (pend_of e c) = [] \<and> (ru_suppressed (c_runs c r) \<or> \<not> inflight r c)"
  shows "weaker e r c (keep_pending op P c)"
proof -
  have "pend_of e (keep_pending op P c) = filter P (pend_of e c)" by (simp add: pend_of_def conj_commute)
  moreover have "c_sock (keep_pending op P c) = c_sock c" "c_open (keep_pending op P c) = c_open c"
    "c_replayReady (keep_pending op P c) = c_replayReady c" "c_out (keep_pending op P c) = c_out c"
    "c_maxFrameBytes (keep_pending op P c) = c_maxFrameBytes c"
    by (simp_all add: keep_pending_def schedulePendingExpiry_def split: list.split)
  ultimately show ?thesis using assms by (simp add: weaker_def linked_def sent_on_def inflight_def)
qed

lemma weaker_remove_other: "e' \<noteq> e \<Longrightarrow> weaker e r c (removePendingExecution op e' c)"
  unfolding removePendingExecution_def
  by (rule weaker_keep, rule disjI1) (auto simp: pend_of_def filter_id_conv simp del: filter_filter)

lemma weaker_remove_dead:
  "ru_suppressed (c_runs c r) \<or> \<not> inflight r c \<Longrightarrow> weaker e r c (removePendingExecution op e' c)"
proof (cases "e' = e")
  case True
  assume "ru_suppressed (c_runs c r) \<or> \<not> inflight r c"
  with True show ?thesis
    unfolding removePendingExecution_def by (intro weaker_keep disjI2) (simp add: pend_of_def)
qed (rule weaker_remove_other)

lemma weaker_drop_suppress: "ru_suppressed (c_runs c r) \<or> \<not> inflight r c \<Longrightarrow> weaker e r c (dropPendingFrames c)"
  by (simp add: weaker_def linked_def sent_on_def inflight_def pend_of_def dropPendingFrames_def)

lemma weaker_suppress_fold: "weaker e r c (fold (\<lambda>q c. if P (c_runs c q) then suppress q c else c) qs c)"
  by (induction qs arbitrary: c) (auto intro: weaker_trans [OF weaker_suppress])

lemma weaker_suppress_all [simp]: "weaker e r c (suppress_all P c)"
  by (simp add: suppress_all_def weaker_suppress_fold)

lemma suppress_fold_member:
  "r \<in> set rs \<or> ru_suppressed (c_runs c r) \<Longrightarrow>
   ru_suppressed (c_runs (fold (\<lambda>r c. if True then suppress r c else c) rs c) r)"
  by (induction rs arbitrary: c) auto

lemma suppress_all_dead:
  "ru_suppressed (c_runs (suppress_all (\<lambda>_. True) c) r) \<or> \<not> inflight r (suppress_all (\<lambda>_. True) c)"
proof (cases "inflight r (suppress_all (\<lambda>_. True) c)")
  case True
  then have "r \<in> snd ` set (c_inflight c)"
    unfolding inflight_def suppress_all_fields by (force dest: map_of_SomeD)
  then have "r \<in> set (map_vals (c_inflight c))" by simp
  then show ?thesis unfolding suppress_all_def using suppress_fold_member by blast
qed simp

lemma weaker_give_up [simp]: "weaker e r c (dropPendingFrames (suppress_all (\<lambda>_. True) c))"
  by (rule weaker_trans [OF weaker_suppress_all weaker_drop_suppress]) (rule suppress_all_dead)

lemma weaker_flags [simp]:
  "weaker e r c (c\<lparr>c_stopped := x1, c_reconnectTimer := x2\<rparr>)"
  "weaker e r c (c\<lparr>c_stopped := x1, c_reconnectTimer := x2, c_awaitingPong := x3\<rparr>)"
  "weaker e r c (c\<lparr>c_approvalsReady := y1, c_federatedScopeReady := y2, c_callerScopeReady := y3\<rparr>)"
  "weaker e r c (c\<lparr>c_replayReady := False\<rparr>)"
  "weaker e r c (c\<lparr>c_sock := None, c_open := False, c_approvalsReady := z1, c_awaitingPong := z2\<rparr>)"
  by (rule weaker_fields; simp add: linked_def)+

lemma weaker_stop [simp]: "weaker e r c (stop c)"
proof -
  let ?c1 = "dropPendingFrames (suppress_all (\<lambda>_. True) (c\<lparr>c_stopped := True, c_reconnectTimer := False, c_awaitingPong := False\<rparr>))"
  have w1: "weaker e r c ?c1" by (rule weaker_trans [OF weaker_flags(2) weaker_give_up])
  have "weaker e r ?c1 (c_emit (CClose w) (?c1\<lparr>c_open := False\<rparr>))" for w
    by (rule weaker_trans [OF weaker_close_sock weaker_emit]) simp
  with w1 show ?thesis by (simp add: stop_def Let_def split: option.split) (blast intro: weaker_trans)
qed

lemma weaker_negotiation [simp]: "weaker e r c (negotiation_failed c)"
  unfolding negotiation_failed_def by (rule weaker_trans [OF weaker_stop weaker_emit]) simp

lemma weaker_close [simp]: "weaker e r c (client_on_close op w code reason delay c)"
proof -
  let ?c2 = "suppress_all (\<lambda>r. \<not> (ru_executionId r \<noteq> None \<and> pendingRetentionEnabled op))
    (c\<lparr>c_sock := None, c_open := False, c_approvalsReady := False, c_awaitingPong := False\<rparr>)"
  have w2: "weaker e r c ?c2" by (rule weaker_trans [OF weaker_flags(5) weaker_suppress_all])
  have "weaker e r ?c2 (c_emit (CFatal code reason)
      (dropPendingFrames (suppress_all (\<lambda>_. True) (?c2\<lparr>c_stopped := True, c_reconnectTimer := False\<rparr>))))"
    by (rule weaker_trans [OF weaker_flags(1) weaker_trans [OF weaker_give_up weaker_emit]]) simp
  from weaker_trans [OF w2 this] weaker_trans [OF w2 weaker_schedule] show ?thesis
    unfolding client_on_close_def Let_def by simp
qed

text \<open>The run is the only one of its execution.\<close>

definition sole :: "string \<Rightarrow> rref \<Rightarrow> client \<Rightarrow> bool" where
  "sole e r c \<longleftrightarrow> (\<forall>q < c_nextRun c. ru_executionId (c_runs c q) = Some e \<longrightarrow> q = r)"

lemma sole_of_inv:
  "client_inv op c \<Longrightarrow> r < c_nextRun c \<Longrightarrow> ru_executionId (c_runs c r) = Some e \<Longrightarrow> sole e r c"
  using run_inv_D(4) unfolding client_inv_def sole_def by blast

lemma weaker_remove_run:
  assumes "sole e r c" and "q < c_nextRun c" and "ru_suppressed (c_runs c q)"
  shows "weaker e r c (remove_run_pending op q c)"
proof (cases "ru_executionId (c_runs c q)")
  case (Some e')
  show ?thesis
  proof (cases "e' = e")
    case True
    with assms Some have "ru_suppressed (c_runs c r)" by (auto simp: sole_def)
    with Some show ?thesis by (simp add: remove_run_pending_def weaker_remove_dead)
  qed (simp add: remove_run_pending_def Some weaker_remove_other)
qed (simp add: remove_run_pending_def)

lemma weaker_suppress_remove:
  assumes "sole e r c" and "q < c_nextRun c"
  shows "weaker e r c (remove_run_pending op q (suppress q c))"
proof -
  have "sole e r (suppress q c)" using assms(1) by (simp add: sole_def)
  then have "weaker e r (suppress q c) (remove_run_pending op q (suppress q c))"
    by (rule weaker_remove_run) (use assms(2) in simp_all)
  then show ?thesis by (rule weaker_trans [OF weaker_suppress])
qed

lemma weaker_failRun:
  assumes "sole e r c" and "q < c_nextRun c"
  shows "weaker e r c (failReliableRun op q d c)"
  using weaker_trans [OF weaker_suppress_remove [OF assms] weaker_terminate] weaker_suppress_remove [OF assms]
  by (simp add: failReliableRun_def Let_def)

lemma run_of_execution_D:
  assumes "client_inv op c"
  shows "run_of_execution e c = Some q \<Longrightarrow> q < c_nextRun c \<and> ru_executionId (c_runs c q) = Some e"
    and "run_of_execution e c = None \<Longrightarrow> ru_executionId (c_runs c r) = Some e \<Longrightarrow> \<not> inflight r c"
proof -
  have i: "run_inv op c" using assms by (simp add: client_inv_def)
  assume "run_of_execution e c = Some q"
  then have q: "q \<in> set (map_vals (c_inflight c))" "ru_executionId (c_runs c q) = Some e"
    unfolding run_of_execution_def by (auto dest: find_Some_D)
  then obtain t where "map_of (c_inflight c) t = Some q" using mem_vals [OF run_inv_D(1) [OF i]] by blast
  with q run_inv_D(2) [OF i] show "q < c_nextRun c \<and> ru_executionId (c_runs c q) = Some e" by blast
next
  assume n: "run_of_execution e c = None" "ru_executionId (c_runs c r) = Some e"
  then show "\<not> inflight r c"
    by (force simp: run_of_execution_def find_None_iff inflight_def dest: map_of_SomeD)
qed

lemma weaker_expire_one:
  assumes "client_inv op c" and "r < c_nextRun c" and "ru_executionId (c_runs c r) = Some e"
  shows "weaker e r c (expire_one op e' c)"
proof (cases "run_of_execution e' c")
  case (Some q)
  with run_of_execution_D(1) [OF assms(1) Some] show ?thesis
    by (simp add: expire_one_def weaker_failRun [OF sole_of_inv [OF assms]])
next
  case None
  have "weaker e r c (removePendingExecution op e' c)"
  proof (cases "e' = e")
    case True
    with run_of_execution_D(2) [OF assms(1) None] assms(3) show ?thesis by (intro weaker_remove_dead) simp
  qed (rule weaker_remove_other)
  then show ?thesis using None by (simp add: expire_one_def weaker_trans [OF _ weaker_terminate])
qed

lemma client_inv_expire_one: "client_inv op c \<Longrightarrow> client_inv op (expire_one op e c)"
  by (simp add: client_inv_def bounds_inv_expire_one run_inv_expire_one)

lemma weaker_expire_fold:
  assumes "client_inv op c" and "r < c_nextRun c" and "ru_executionId (c_runs c r) = Some e"
  shows "weaker e r c (fold (expire_one op) es c)"
  using assms
proof (induction es arbitrary: c)
  case (Cons e' es)
  note w = weaker_expire_one [OF Cons.prems, of e']
  have "weaker e r (expire_one op e' c) (fold (expire_one op) es (expire_one op e' c))"
    using w Cons.prems by (intro Cons.IH client_inv_expire_one) (simp_all add: weaker_def)
  with w show ?case by (simp add: weaker_trans)
qed simp

lemma weaker_expire:
  assumes "client_inv op c" and "r < c_nextRun c" and "ru_executionId (c_runs c r) = Some e"
  shows "weaker e r c (expirePendingFrames op c)"
  using weaker_trans [OF weaker_expire_fold [OF assms] weaker_schedule_expiry]
  by (simp add: expirePendingFrames_def Let_def)

lemma weaker_finished: "weaker e r c (run_finished q c)"
  by (simp add: weaker_def run_finished_def linked_def sent_on_def inflight_def pend_of_def Let_def)

lemma weaker_start:
  assumes "client_inv op c" and "r < c_nextRun c" and "ru_executionId (c_runs c r) = Some e"
  shows "weaker e r c (start_run op a c)"
proof -
  define c1 where "c1 = (case map_of (c_inflight c) (as_taskId a) of None \<Rightarrow> c
    | Some q \<Rightarrow> remove_run_pending op q (suppress q c))"
  have w1: "weaker e r c c1"
  proof (cases "map_of (c_inflight c) (as_taskId a)")
    case (Some q)
    then have "q < c_nextRun c" using assms(1) run_inv_D(2) by (auto simp: client_inv_def)
    with Some show ?thesis by (simp add: c1_def weaker_suppress_remove [OF sole_of_inv [OF assms]])
  qed (simp add: c1_def)
  have lt: "r < c_nextRun c1" using w1 assms(2) by (simp add: weaker_def)
  define c2 where "c2 = c1\<lparr>c_runs := (c_runs c1)(c_nextRun c1 := \<lparr>ru_taskId = as_taskId a,
      ru_suppressed = False, ru_aborted = False, ru_executionId = as_executionId a, ru_nextSeq = 0\<rparr>),
      c_nextRun := Suc (c_nextRun c1), c_inflight := map_set (as_taskId a) (c_nextRun c1) (c_inflight c1)\<rparr>"
  have "weaker e r c1 c2"
    using lt by (simp add: weaker_def c2_def linked_def sent_on_def inflight_def pend_of_def)
  moreover have "weaker e r c2 (c_emit (CStartTask q a) c2)" for q by (rule weaker_emit) simp
  moreover have "start_run op a c = c_emit (CStartTask (c_nextRun c1) a) c2"
    by (simp add: start_run_def Let_def c1_def c2_def)
  ultimately show ?thesis using w1 weaker_trans by metis
qed

lemma weaker_assign:
  assumes "client_inv op c" and "r < c_nextRun c" and "ru_executionId (c_runs c r) = Some e"
  shows "weaker e r c (on_assign op a c)"
proof -
  have "client_inv op (c\<lparr>c_replayReady := False\<rparr>)" by (rule client_inv_core [OF _ assms(1)]) (simp add: core_eq)
  from weaker_start [OF this] assms have "weaker e r (c\<lparr>c_replayReady := False\<rparr>) (start_run op a (c\<lparr>c_replayReady := False\<rparr>))"
    by simp
  from weaker_trans [OF weaker_flags(4) this] weaker_start [OF assms] show ?thesis
    by (simp add: on_assign_def Let_def)
qed

lemma weaker_cancel:
  assumes "client_inv op c" and "r < c_nextRun c" and "ru_executionId (c_runs c r) = Some e"
  shows "weaker e r c (on_cancel op taskId x c)"
proof (cases "map_of (c_inflight c) taskId")
  case (Some q)
  then have q: "q < c_nextRun c" using assms(1) run_inv_D(2) by (auto simp: client_inv_def)
  let ?f = "\<lambda>x. x\<lparr>ru_suppressed := True\<rparr>"
  have ab: "weaker e r c' (upd_run q (\<lambda>x. x\<lparr>ru_aborted := True\<rparr>) c')" for c' by (rule weaker_upd_run) simp_all
  have s1: "weaker e r c (upd_run q ?f c)" by (rule weaker_upd_run) simp_all
  have "weaker e r (upd_run q ?f c) (remove_run_pending op q (upd_run q ?f c))"
    by (rule weaker_remove_run) (use sole_of_inv [OF assms] q in \<open>simp_all add: sole_def\<close>)
  then have s2: "weaker e r c (removePendingExecution op e' (upd_run q ?f c))" if "ru_executionId (c_runs c q) = Some e'" for e'
    using weaker_trans [OF s1] that by (simp add: remove_run_pending_def)
  show ?thesis
    using Some ab weaker_trans [OF s2 ab] by (auto simp: on_cancel_def Let_def split: option.split)
qed (simp add: on_cancel_def)

subsection \<open>The sender's promise\<close>

definition seq_frame :: "string \<Rightarrow> string \<Rightarrow> nat \<Rightarrow> task_body \<Rightarrow> up_frame" where
  "seq_frame taskId e k body = TaskFrame \<lparr>h_taskId = taskId, h_executionId = Some e, h_seq = Some k\<rparr> body"

text \<open>\<open>H\<close> holds the bodies of the run in the order they were numbered; the frames from \<open>a\<close> on are
  retained and the server has accepted at least those before \<open>a\<close>.\<close>

definition kept_from :: "string \<Rightarrow> rref \<Rightarrow> nat \<Rightarrow> task_body list \<Rightarrow> client \<Rightarrow> bool" where
  "kept_from e r a H c \<longleftrightarrow>
     a \<le> length H \<and>
     map (\<lambda>p. (pf_seq p, pf_frame p)) (pend_of e c) =
       map (\<lambda>k. (k, seq_frame (ru_taskId (c_runs c r)) e k (H ! k))) [a..<length H]"

definition sender_base :: "client_opts \<Rightarrow> string \<Rightarrow> rref \<Rightarrow> nat \<Rightarrow> task_body list \<Rightarrow> client \<Rightarrow> bool" where
  "sender_base op e r x H c \<longleftrightarrow>
     r < c_nextRun c \<and> ru_executionId (c_runs c r) = Some e \<and> ru_nextSeq (c_runs c r) = length H \<and>
     ((\<exists>a \<le> x. kept_from e r a H c) \<or> pend_of e c = [] \<and> (ru_suppressed (c_runs c r) \<or> \<not> inflight r c)) \<and>
     (\<forall>w. no_gap x (map fst (sent_on e w c))) \<and>
     (\<forall>w. \<forall>kb \<in> set (sent_on e w c). fst kb < length H \<and> snd kb = H ! fst kb) \<and>
     (\<forall>m. c_maxFrameBytes c = Some m \<longrightarrow> pendingByteLimit op \<le> m)"

definition caught_up :: "string \<Rightarrow> nat \<Rightarrow> task_body list \<Rightarrow> client \<Rightarrow> bool" where
  "caught_up e x H c \<longleftrightarrow>
     (\<forall>w. linked w c \<longrightarrow> pend_of e c \<noteq> [] \<longrightarrow> length H \<le> reach x (map fst (sent_on e w c)))"

definition sender_ok :: "client_opts \<Rightarrow> string \<Rightarrow> rref \<Rightarrow> nat \<Rightarrow> task_body list \<Rightarrow> client \<Rightarrow> bool" where
  "sender_ok op e r x H c \<longleftrightarrow> sender_base op e r x H c \<and> caught_up e x H c"

lemma sender_base_D:
  assumes "sender_base op e r x H c"
  shows "r < c_nextRun c" "ru_executionId (c_runs c r) = Some e" "ru_nextSeq (c_runs c r) = length H"
    "(\<exists>a \<le> x. kept_from e r a H c) \<or> pend_of e c = [] \<and> (ru_suppressed (c_runs c r) \<or> \<not> inflight r c)"
    "no_gap x (map fst (sent_on e w c))"
    "kb \<in> set (sent_on e w c) \<Longrightarrow> fst kb < length H \<and> snd kb = H ! fst kb"
    "c_maxFrameBytes c = Some m \<Longrightarrow> pendingByteLimit op \<le> m"
  using assms unfolding sender_base_def by (elim conjE; simp)+

lemma kept_from_cong:
  "pend_of e c' = pend_of e c \<Longrightarrow> ru_taskId (c_runs c' r) = ru_taskId (c_runs c r) \<Longrightarrow>
   kept_from e r a H c' = kept_from e r a H c"
  by (simp add: kept_from_def)

lemma sender_base_weaker:
  assumes b: "sender_base op e r x H c" and w: "weaker e r c c'"
  shows "sender_base op e r x H c'"
proof -
  have "(\<exists>a \<le> x. kept_from e r a H c') \<or> pend_of e c' = [] \<and> (ru_suppressed (c_runs c' r) \<or> \<not> inflight r c')"
    using sender_base_D(4) [OF b] w kept_from_cong [of e c' c r _ H] unfolding weaker_def by metis
  moreover have "c_maxFrameBytes c' = Some m \<Longrightarrow> pendingByteLimit op \<le> m" for m
    using sender_base_D(7) [OF b] w by (auto simp: weaker_def)
  ultimately show ?thesis using b w by (simp add: sender_base_def weaker_def)
qed

lemma caught_up_weaker: "caught_up e x H c \<Longrightarrow> weaker e r c c' \<Longrightarrow> caught_up e x H c'"
  unfolding caught_up_def weaker_def by metis

lemma sender_ok_weaker: "sender_ok op e r x H c \<Longrightarrow> weaker e r c c' \<Longrightarrow> sender_ok op e r x H c'"
  unfolding sender_ok_def using sender_base_weaker caught_up_weaker by blast

text \<open>The promise only gets easier as the server accepts more.\<close>

lemma sender_ok_mono: "sender_ok op e r x H c \<Longrightarrow> x \<le> y \<Longrightarrow> sender_ok op e r y H c"
  unfolding sender_ok_def sender_base_def caught_up_def
  using no_gap_mono reach_mono le_trans by meson

text \<open>An acknowledgement of frames the server has accepted.\<close>

lemma upt_min: "[b..<n] = [min b n..<n]"
  by (simp add: min_def)

lemma sender_ok_ack:
  assumes s: "sender_ok op e r x H c" and m: "e' = e \<longrightarrow> m < int x"
  shows "sender_ok op e r x H (acknowledgeFrames op e' m c)"
proof (cases "e' = e")
  case False
  then have "weaker e r c (acknowledgeFrames op e' m c)"
    unfolding acknowledgeFrames_def
    by (intro weaker_keep disjI1) (auto simp: pend_of_def filter_id_conv simp del: filter_filter)
  with s show ?thesis by (rule sender_ok_weaker)
next
  case True
  let ?c = "acknowledgeFrames op e' m c"
  have same: "c_runs ?c = c_runs c" "c_nextRun ?c = c_nextRun c" "c_inflight ?c = c_inflight c" "c_out ?c = c_out c"
    "c_sock ?c = c_sock c" "c_open ?c = c_open c" "c_replayReady ?c = c_replayReady c" "c_maxFrameBytes ?c = c_maxFrameBytes c"
    by (simp_all add: acknowledgeFrames_def keep_pending_def schedulePendingExpiry_def split: list.split)
  have p: "pend_of e ?c = filter (\<lambda>p. int (pf_seq p) > m) (pend_of e c)"
    using True by (auto simp: acknowledgeFrames_def pend_of_def intro!: filter_cong)
  have sent: "sent_on e w ?c = sent_on e w c" "linked w ?c = linked w c" "inflight r ?c = inflight r c" for w
    by (simp_all add: sent_on_def linked_def inflight_def same)
  have "\<exists>a' \<le> x. kept_from e r a' H ?c" if a: "a \<le> x" "kept_from e r a H c" for a
  proof -
    let ?a = "min (max a (nat (m + 1))) (length H)"
    let ?g = "\<lambda>k. (k, seq_frame (ru_taskId (c_runs c r)) e k (H ! k))"
    have "map (\<lambda>p. (pf_seq p, pf_frame p)) (pend_of e ?c) =
      filter (\<lambda>z. int (fst z) > m) (map (\<lambda>p. (pf_seq p, pf_frame p)) (pend_of e c))"
      by (simp add: p filter_map comp_def)
    also have "\<dots> = filter (\<lambda>z. int (fst z) > m) (map ?g [a..<length H])" using a(2) by (simp add: kept_from_def)
    also have "\<dots> = map ?g [max a (nat (m + 1))..<length H]" by (simp add: filter_map comp_def filter_upt_above)
    also have "[max a (nat (m + 1))..<length H] = [?a..<length H]"
      by (rule upt_min)
    finally have "kept_from e r ?a H ?c" by (simp add: kept_from_def same)
    moreover have "?a \<le> x" using a(1) m True by simp
    ultimately show ?thesis by blast
  qed
  moreover have "pend_of e c = [] \<Longrightarrow> pend_of e ?c = []" by (simp add: p)
  ultimately have "(\<exists>a \<le> x. kept_from e r a H ?c) \<or> pend_of e ?c = [] \<and> (ru_suppressed (c_runs ?c r) \<or> \<not> inflight r ?c)"
    using s sender_base_D(4) [of op e r x H c] unfolding sender_ok_def sent same by blast
  then have "sender_base op e r x H ?c"
    using s unfolding sender_ok_def sender_base_def sent same by blast
  moreover have "caught_up e x H ?c" using s p unfolding sender_ok_def caught_up_def sent by auto
  ultimately show ?thesis by (simp add: sender_ok_def)
qed

text \<open>The replay after a handshake.\<close>

lemma flush_from_all:
  assumes "\<And>p. p \<in> set ps \<Longrightarrow> \<not> exceeds_max (pf_bytes p) c"
  shows "flush_from op w ps c = c\<lparr>c_out := c_out c @ map (\<lambda>p. CSend w (pf_frame p)) ps\<rparr>"
  using assms
proof (induction ps arbitrary: c)
  case (Cons p ps)
  let ?c = "c_emit (CSend w (pf_frame p)) c"
  have "\<not> exceeds_max (pf_bytes q) ?c" if "q \<in> set ps" for q
    using Cons.prems that by (simp add: exceeds_max_def c_emit_def)
  from Cons.IH [OF this] Cons.prems show ?case by (simp add: c_emit_def)
qed simp

lemma bytes_of_member: "p \<in> set ps \<Longrightarrow> int (pf_bytes p) \<le> bytes_of ps"
  by (induction ps) (auto intro: add_increasing add_increasing2)

lemma retained_fit:
  assumes "client_inv op c" and "sender_base op e r x H c" and "p \<in> set (c_pending c)"
  shows "\<not> exceeds_max (pf_bytes p) c"
proof -
  have "int (pf_bytes p) \<le> int (pendingByteLimit op)"
    using assms(1) bytes_of_member [OF assms(3)] by (simp add: client_inv_def bounds_inv_def)
  then show ?thesis
    using sender_base_D(7) [OF assms(2)] by (auto simp: exceeds_max_def split: option.split)
qed

lemma sent_frames_pending:
  assumes "client_inv op c"
  shows "List.map_filter (sent_frame e w) (map (\<lambda>p. CSend w' (pf_frame p)) (c_pending c)) =
    (if w' = w then map (\<lambda>p. (pf_seq p, (case pf_frame p of TaskFrame h b \<Rightarrow> b))) (pend_of e c) else [])"
proof -
  have ok: "\<exists>b. pf_frame p = TaskFrame \<lparr>h_taskId = pf_taskId p, h_executionId = Some (pf_executionId p), h_seq = Some (pf_seq p)\<rparr> b"
    if "p \<in> set (c_pending c)" for p
    using run_inv_D(5) [of op c p] assms that by (auto simp: client_inv_def frame_ok_def)
  have "List.map_filter (sent_frame e w) (map (\<lambda>p. CSend w' (pf_frame p)) ps) =
    (if w' = w then map (\<lambda>p. (pf_seq p, (case pf_frame p of TaskFrame h b \<Rightarrow> b))) (filter (\<lambda>p. pf_executionId p = e) ps) else [])"
    if "set ps \<subseteq> set (c_pending c)" for ps
    using that
  proof (induction ps)
    case (Cons p ps)
    then obtain b where "pf_frame p = TaskFrame \<lparr>h_taskId = pf_taskId p, h_executionId = Some (pf_executionId p), h_seq = Some (pf_seq p)\<rparr> b"
      using ok [of p] by auto
    with Cons show ?case by (auto simp: map_filter_simps)
  qed (simp add: map_filter_simps)
  then show ?thesis by (simp add: pend_of_def)
qed

lemma kept_from_bodies:
  assumes "kept_from e r a H c"
  shows "map (\<lambda>p. (pf_seq p, (case pf_frame p of TaskFrame h b \<Rightarrow> b))) (pend_of e c) = map (\<lambda>k. (k, H ! k)) [a..<length H]"
proof -
  let ?h = "\<lambda>z. (fst z, (case snd z of TaskFrame h b \<Rightarrow> b))"
  have "map (\<lambda>p. (pf_seq p, (case pf_frame p of TaskFrame h b \<Rightarrow> b))) (pend_of e c) =
    map ?h (map (\<lambda>p. (pf_seq p, pf_frame p)) (pend_of e c))" by simp
  also have "\<dots> = map ?h (map (\<lambda>k. (k, seq_frame (ru_taskId (c_runs c r)) e k (H ! k))) [a..<length H])"
    using assms unfolding kept_from_def by (simp only:)
  finally show ?thesis by (simp add: seq_frame_def)
qed

lemma sender_ok_replay:
  assumes i: "client_inv op c" and b: "sender_base op e r x H c" and sock: "c_sock c = Some w"
  defines "c' \<equiv> c\<lparr>c_out := c_out c @ map (\<lambda>p. CSend w (pf_frame p)) (c_pending c)\<rparr>"
  shows "sender_ok op e r x H c'"
proof -
  let ?bs = "map (\<lambda>p. (pf_seq p, (case pf_frame p of TaskFrame h b \<Rightarrow> b))) (pend_of e c)"
  have sent: "sent_on e w' c' = sent_on e w' c @ (if w = w' then ?bs else [])" for w'
    using sent_frames_pending [OF i, of e w' w] by (simp add: sent_on_def c'_def map_filter_def)
  have same: "c_runs c' = c_runs c" "c_nextRun c' = c_nextRun c" "c_maxFrameBytes c' = c_maxFrameBytes c"
    "inflight q c' = inflight q c" "pend_of e c' = pend_of e c" "linked w' c' \<Longrightarrow> w' = w" for q w'
    using sock by (simp_all add: c'_def inflight_def pend_of_def linked_def)
  have kept: "kept_from e r a H c' = kept_from e r a H c" for a
    by (rule kept_from_cong) (simp_all add: same)
  consider (kept) a where "a \<le> x" "kept_from e r a H c" | (gone) "pend_of e c = []"
    using sender_base_D(4) [OF b] by blast
  then have "no_gap x (map fst (sent_on e w' c')) \<and> (\<forall>kb \<in> set (sent_on e w' c'). fst kb < length H \<and> snd kb = H ! fst kb) \<and>
    (w' = w \<longrightarrow> pend_of e c \<noteq> [] \<longrightarrow> length H \<le> reach x (map fst (sent_on e w' c')))" for w'
  proof cases
    case kept
    let ?y = "reach x (map fst (sent_on e w' c))"
    have bs: "?bs = map (\<lambda>k. (k, H ! k)) [a..<length H]" using kept_from_bodies [OF kept(2)] .
    have ax: "a \<le> ?y" using kept(1) reach_ge le_trans by blast
    have "pend_of e c \<noteq> [] \<Longrightarrow> a \<noteq> length H" using bs by auto
    moreover have "a \<le> length H" using kept(2) by (simp add: kept_from_def)
    ultimately have "pend_of e c \<noteq> [] \<longrightarrow> length H \<le> reach ?y [a..<length H]" using reach_upt by blast
    moreover have "map fst (map (\<lambda>k. (k, H ! k)) [a..<length H]) = [a..<length H]" by (simp add: comp_def)
    ultimately show ?thesis
      using sender_base_D(5,6) [OF b, where w = w'] no_gap_upt [OF ax]
      unfolding sent bs by (auto simp: no_gap_append reach_append comp_def)
  next
    case gone
    then show ?thesis using sender_base_D(5,6) [OF b, where w = w'] unfolding sent by auto
  qed
  moreover have "(\<exists>a \<le> x. kept_from e r a H c') \<or> pend_of e c' = [] \<and> (ru_suppressed (c_runs c' r) \<or> \<not> inflight r c')"
    using sender_base_D(4) [OF b] unfolding same kept .
  ultimately show ?thesis
    using sender_base_D(1-3,7) [OF b] same(6) unfolding sender_ok_def sender_base_def caught_up_def same(1-5) by blast
qed

lemma remove_run_sock: "c_sock (remove_run_pending op q c) = c_sock c"
  by (simp add: remove_run_pending_def removePendingExecution_def keep_pending_def schedulePendingExpiry_def
      split: option.split list.split)

lemma terminate_c_sock: "c_sock (terminate_sock c) = c_sock c"
  by (simp add: terminate_sock_def c_emit_def split: option.split)

lemma expire_one_sock: "c_sock (expire_one op e c) = c_sock c"
  by (simp add: expire_one_def failReliableRun_def removePendingExecution_def keep_pending_def schedulePendingExpiry_def
      remove_run_sock terminate_c_sock suppress_def upd_run_def Let_def split: option.split list.split)

lemma expire_sock: "c_sock (expirePendingFrames op c) = c_sock c"
proof -
  have "c_sock (fold (expire_one op) es c) = c_sock c" for es
    by (induction es arbitrary: c) (simp_all add: expire_one_sock)
  then show ?thesis
    by (simp add: expirePendingFrames_def Let_def schedulePendingExpiry_def split: list.split)
qed

lemma sender_ok_flush:
  assumes i: "client_inv op c" and b: "sender_base op e r x H c" and sock: "c_sock c = Some w"
  shows "sender_ok op e r x H (flushPendingFrames op w c)"
proof (cases "c_replayReady c \<and> c_open c")
  case False
  then have "caught_up e x H c" by (auto simp: caught_up_def linked_def)
  with False b show ?thesis by (auto simp: flushPendingFrames_def sender_ok_def)
next
  case True
  let ?c = "expirePendingFrames op c"
  have b': "sender_base op e r x H ?c"
    using sender_base_weaker [OF b weaker_expire [OF i sender_base_D(1,2) [OF b]]] .
  have i': "client_inv op ?c" using i by (simp add: client_inv_def bounds_inv_expire run_inv_expire)
  show ?thesis
  proof (cases "c_replayReady ?c \<and> c_open ?c")
    case False
    then have "caught_up e x H ?c" by (auto simp: caught_up_def linked_def)
    with False True b' show ?thesis by (auto simp: flushPendingFrames_def Let_def sender_ok_def)
  next
    case t: True
    have "c_sock ?c = Some w" using sock by (simp add: expire_sock)
    from sender_ok_replay [OF i' b' this] t True show ?thesis
      using flush_from_all [of "c_pending ?c" ?c op w] retained_fit [OF i' b'] by (simp add: flushPendingFrames_def Let_def)
  qed
qed

subsection \<open>Numbering a frame\<close>

text \<open>The body that takes the next number of a run when its backend emits \<open>body\<close>: the failure when
  the frame does not fit the limits, none when the run is suppressed or not sequenced.\<close>

definition numbered :: "client_opts \<Rightarrow> rref \<Rightarrow> task_body \<Rightarrow> client \<Rightarrow> task_body list" where
  "numbered op r body c =
     (case ru_executionId (c_runs c r) of
        None \<Rightarrow> []
      | Some e \<Rightarrow>
          if ru_suppressed (c_runs c r) then []
          else [if buffer_full op (op_byteLength op (seq_frame (ru_taskId (c_runs c r)) e (ru_nextSeq (c_runs c r)) body)) c
                then FailB ''client_buffer_overflow'' ''client unacknowledged frame buffer limit exceeded''
                else body])"

lemma sent_frame_seq [simp]:
  "sent_frame e w (CSend w' (seq_frame t e' k b)) = (if w' = w \<and> e' = e then Some (k, b) else None)"
  "sent_frame e w (CSendThenTerminate w' (seq_frame t e' k b)) = (if w' = w \<and> e' = e then Some (k, b) else None)"
  by (simp_all add: seq_frame_def)

text \<open>Sending for another run of the client.\<close>

lemma buffer_full_upd: "buffer_full op n (upd_run r f c) = buffer_full op n c"
  by (simp add: buffer_full_def exceeds_max_def upd_run_def)

lemma sent_frame_unsequenced [simp]:
  "sent_frame e w (CSend w' (TaskFrame \<lparr>h_taskId = t, h_executionId = None, h_seq = None\<rparr> body)) = None"
  by simp

lemma weaker_other_run:
  assumes sole: "sole e r c" "r < c_nextRun c" "ru_executionId (c_runs c r) = Some e" and q: "q < c_nextRun c" "q \<noteq> r"
  shows "weaker e r c (sendTaskFrame op q body c)"
proof (cases "ru_suppressed (c_runs c q) \<or> ru_executionId (c_runs c q) = None")
  case True
  have "sendTaskFrame op q body c = (if ru_suppressed (c_runs c q) then c else
      send_up (TaskFrame \<lparr>h_taskId = ru_taskId (c_runs c q), h_executionId = None, h_seq = None\<rparr> body) c)"
    using True unfolding sendTaskFrame_def Let_def by (cases "ru_suppressed (c_runs c q)") simp_all
  moreover have "weaker e r c (send_up (TaskFrame \<lparr>h_taskId = t, h_executionId = None, h_seq = None\<rparr> body) c)" for t
    by (rule weaker_send_up) (rule sent_frame_unsequenced)
  ultimately show ?thesis by (metis weaker_refl)
next
  case False
  then obtain e' where e': "ru_executionId (c_runs c q) = Some e'" and ns: "\<not> ru_suppressed (c_runs c q)" by auto
  have ne: "e' \<noteq> e" using sole(1) q e' unfolding sole_def by metis
  let ?c1 = "upd_run q next_seq c"
  have w1: "weaker e r c ?c1"
    using q(2) by (simp add: weaker_def linked_def sent_on_def inflight_def pend_of_def upd_run_def)
  have s1: "sole e r ?c1" using sole(1) by (simp add: sole_def)
  let ?t = "ru_taskId (c_runs c q)" and ?n = "ru_nextSeq (c_runs c q)"
  have fr: "TaskFrame \<lparr>h_taskId = ?t, h_executionId = Some e', h_seq = Some ?n\<rparr> b = seq_frame ?t e' ?n b" for b
    by (simp add: seq_frame_def)
  have send: "weaker e r c2 (c_emit (CSendThenTerminate w (seq_frame ?t e' ?n b)) c2)" for c2 w b
    by (rule weaker_emit) (simp add: ne)
  have up: "weaker e r c2 (send_up (seq_frame ?t e' ?n b) c2)" for c2 b by (rule weaker_send_up) (simp add: ne)
  have full: "weaker e r c (sendReliableFailureAndDisconnect op e' ?t ?n msg (remove_run_pending op q (suppress q ?c1)))" for msg
  proof -
    have "weaker e r ?c1 (remove_run_pending op q (suppress q ?c1))"
      by (rule weaker_suppress_remove [OF s1]) (use q in simp)
    moreover have "weaker e r c2 (sendReliableFailureAndDisconnect op e' ?t ?n msg c2)" for c2
      by (simp add: sendReliableFailureAndDisconnect_def overflow_frame_def fr send Let_def split: option.split)
    ultimately show ?thesis using w1 weaker_trans by blast
  qed
  have app: "weaker e r c (schedulePendingExpiry op (?c1\<lparr>c_pending := c_pending ?c1 @ [p], c_pendingBytes := b\<rparr>))"
    if "pf_executionId p = e'" for p b
  proof -
    have "weaker e r ?c1 (?c1\<lparr>c_pending := c_pending ?c1 @ [p], c_pendingBytes := b\<rparr>)"
      using that ne by (simp add: weaker_def linked_def sent_on_def inflight_def pend_of_def upd_run_def)
    from weaker_trans [OF weaker_trans [OF w1 this] weaker_schedule_expiry] show ?thesis .
  qed
  show ?thesis
    unfolding sendTaskFrame_reliable [OF ns e'] Let_def fr
    using full app w1 weaker_trans [OF app up] weaker_trans [OF w1 up] by (simp add: fr)
qed

text \<open>Sending for the run itself.\<close>

lemma linked_simps [simp]:
  "linked w (schedulePendingExpiry op c) = linked w c" "linked w (upd_run q f c) = linked w c"
  "linked w (c\<lparr>c_pending := ps, c_pendingBytes := b\<rparr>) = linked w c"
  by (simp_all add: linked_def schedulePendingExpiry_def upd_run_def split: list.split)

lemma schedule_expiry_fields [simp]:
  "c_maxFrameBytes (schedulePendingExpiry op c) = c_maxFrameBytes c" "c_out (schedulePendingExpiry op c) = c_out c"
  "c_replayReady (schedulePendingExpiry op c) = c_replayReady c" "c_open (schedulePendingExpiry op c) = c_open c"
  "c_sock (schedulePendingExpiry op c) = c_sock c"
  by (simp_all add: schedulePendingExpiry_def split: list.split)

lemma no_gap_snoc: "no_gap x (ks @ [n]) \<longleftrightarrow> no_gap x ks \<and> n \<le> reach x ks"
  by (simp add: no_gap_append)

lemma reach_snoc: "reach x (ks @ [n]) = max (reach x ks) (Suc n)"
  by (simp add: reach_append)

text \<open>A live run in flight has everything the server may still miss, so the next number is no gap on
  the current socket.\<close>

lemma next_is_no_gap:
  assumes s: "sender_ok op e r x H c" and live: "inflight r c" "\<not> ru_suppressed (c_runs c r)" and l: "linked w c"
  shows "length H \<le> reach x (map fst (sent_on e w c))"
proof (cases "pend_of e c = []")
  case True
  have "\<exists>a \<le> x. kept_from e r a H c" using s sender_base_D(4) [of op e r x H c] live by (auto simp: sender_ok_def)
  then have "length H \<le> x" using True by (auto simp: kept_from_def)
  then show ?thesis using reach_ge le_trans by blast
next
  case False
  then show ?thesis using s l by (simp add: sender_ok_def caught_up_def)
qed

text \<open>A frame of the run goes out with the next number and its history grows by it.\<close>

lemma sender_extend:
  assumes s: "sender_ok op e r x H c" and live: "inflight r c" "\<not> ru_suppressed (c_runs c r)"
    and c': "c_nextRun c' = c_nextRun c" "ru_executionId (c_runs c' r) = Some e" "ru_nextSeq (c_runs c' r) = Suc (length H)"
      "ru_taskId (c_runs c' r) = ru_taskId (c_runs c r)" "c_maxFrameBytes c' = c_maxFrameBytes c"
    and pend: "map (\<lambda>p. (pf_seq p, pf_frame p)) (pend_of e c') = map (\<lambda>p. (pf_seq p, pf_frame p)) (pend_of e c) @
        [(length H, seq_frame (ru_taskId (c_runs c r)) e (length H) b)] \<or>
      pend_of e c' = [] \<and> ru_suppressed (c_runs c' r)"
    and sent: "\<And>w. sent_on e w c' = sent_on e w c \<or> linked w c \<and> sent_on e w c' = sent_on e w c @ [(length H, b)]"
    and linked: "\<And>w. linked w c' \<Longrightarrow> linked w c \<and> (sent_on e w c' = sent_on e w c @ [(length H, b)] \<or> pend_of e c' = [])"
  shows "sender_ok op e r x (H @ [b]) c'"
proof -
  have base: "sender_base op e r x H c" using s by (simp add: sender_ok_def)
  have next_ok: "length H \<le> reach x (map fst (sent_on e w c))" if "linked w c" for w
    using next_is_no_gap [OF s live that] .
  have "no_gap x (map fst (sent_on e w c'))" for w
    using sent [of w] sender_base_D(5) [OF base, of w] next_ok [of w] by (auto simp: no_gap_snoc)
  moreover have "fst kb < length (H @ [b]) \<and> snd kb = (H @ [b]) ! fst kb" if "kb \<in> set (sent_on e w c')" for w kb
    using sent [of w] that sender_base_D(6) [OF base, of kb w] by (auto simp: nth_append)
  moreover have "(\<exists>a \<le> x. kept_from e r a (H @ [b]) c') \<or> pend_of e c' = [] \<and> ru_suppressed (c_runs c' r)"
  proof (cases "pend_of e c' = [] \<and> ru_suppressed (c_runs c' r)")
    case False
    then have p: "map (\<lambda>p. (pf_seq p, pf_frame p)) (pend_of e c') = map (\<lambda>p. (pf_seq p, pf_frame p)) (pend_of e c) @
        [(length H, seq_frame (ru_taskId (c_runs c r)) e (length H) b)]" using pend by blast
    obtain a where a: "a \<le> x" "kept_from e r a H c" using sender_base_D(4) [OF base] live by blast
    have al: "a \<le> length H" using a(2) by (simp add: kept_from_def)
    have "map (\<lambda>k. (k, seq_frame t e k ((H @ [b]) ! k))) [a..<length H] = map (\<lambda>k. (k, seq_frame t e k (H ! k))) [a..<length H]" for t
      by (rule map_cong) (simp_all add: nth_append)
    then have "kept_from e r a (H @ [b]) c'"
      using a(2) al p c'(4) by (simp add: kept_from_def)
    with a show ?thesis by blast
  qed simp
  ultimately have "sender_base op e r x (H @ [b]) c'"
    unfolding sender_base_def using c' sender_base_D(1,7) [OF base] by auto
  moreover have "caught_up e x (H @ [b]) c'"
    unfolding caught_up_def using linked by (auto simp: reach_snoc)
  ultimately show ?thesis by (simp add: sender_ok_def)
qed

lemma sent_on_emit:
  "sent_on e w (c_emit ef c) = sent_on e w c @ (case sent_frame e w ef of None \<Rightarrow> [] | Some kb \<Rightarrow> [kb])"
  by (rule sent_on_snoc) (simp add: c_emit_def)

lemma failure_sent:
  fixes op e t n msg
  defines "f \<equiv> \<lambda>c. sendReliableFailureAndDisconnect op e t n msg c"
  shows "linked w (f c) \<Longrightarrow> linked w c" "c_maxFrameBytes (f c) = c_maxFrameBytes c"
    "sent_on e w (f c) = sent_on e w c \<or>
      linked w c \<and> sent_on e w (f c) = sent_on e w c @ [(n, FailB ''client_buffer_overflow'' msg)]"
proof -
  have o: "overflow_frame e t n msg = seq_frame t e n (FailB ''client_buffer_overflow'' msg)"
    by (simp add: overflow_frame_def seq_frame_def)
  have t: "linked w (terminate_sock c) \<Longrightarrow> linked w c" "c_maxFrameBytes (terminate_sock c) = c_maxFrameBytes c"
    "sent_on e w (terminate_sock c) = sent_on e w c"
    by (auto simp: terminate_sock_def linked_def c_emit_def sent_on_def map_filter_def split: option.splits if_splits)
  show "linked w (f c) \<Longrightarrow> linked w c" "c_maxFrameBytes (f c) = c_maxFrameBytes c"
    using t by (auto simp: f_def sendReliableFailureAndDisconnect_def Let_def c_emit_def linked_def split: option.splits if_splits)
  show "sent_on e w (f c) = sent_on e w c \<or>
      linked w c \<and> sent_on e w (f c) = sent_on e w c @ [(n, FailB ''client_buffer_overflow'' msg)]"
  proof (cases "c_sock c")
    case (Some w')
    have "sent_on e w (c_emit (CSendThenTerminate w' (overflow_frame e t n msg)) c) =
      sent_on e w c @ (if w' = w then [(n, FailB ''client_buffer_overflow'' msg)] else [])"
      unfolding o by (simp add: sent_on_emit)
    then show ?thesis
      using Some t(3) by (auto simp: f_def sendReliableFailureAndDisconnect_def Let_def linked_def)
  qed (simp add: f_def sendReliableFailureAndDisconnect_def)
qed

lemma sent_up_seq:
  "sent_on e w (send_up (seq_frame t e n b) c) =
     sent_on e w c @ (if c_sock c = Some w \<and> c_open c then [(n, b)] else [])"
proof (cases "c_sock c")
  case (Some w')
  have "sent_on e w (c_emit (CSend w' (seq_frame t e n b)) c) = sent_on e w c @ (if w' = w then [(n, b)] else [])"
    by (simp add: sent_on_emit)
  with Some show ?thesis by (cases "w' = w") (simp_all add: send_up_def)
qed (simp add: send_up_def)

lemma send_up_linked [simp]: "linked w (send_up f c) = linked w c" "c_maxFrameBytes (send_up f c) = c_maxFrameBytes c"
  by (simp_all add: send_up_def linked_def c_emit_def split: option.split)

lemma sender_ok_emit:
  assumes s: "sender_ok op e r x H c" and ret: "pendingRetentionEnabled op" and live: "inflight r c"
  shows "sender_ok op e r x (H @ numbered op r body c) (sendTaskFrame op r body c)"
proof (cases "ru_suppressed (c_runs c r)")
  case True
  with s show ?thesis by (simp add: numbered_def sendTaskFrame_def Let_def split: option.split)
next
  case ns: False
  have base: "sender_base op e r x H c" using s by (simp add: sender_ok_def)
  note e = sender_base_D(2) [OF base] and n = sender_base_D(3) [OF base]
  let ?t = "ru_taskId (c_runs c r)"
  have fr: "TaskFrame \<lparr>h_taskId = ?t, h_executionId = Some e, h_seq = Some (length H)\<rparr> b = seq_frame ?t e (length H) b" for b
    by (simp add: seq_frame_def)
  let ?bytes = "op_byteLength op (seq_frame ?t e (length H) body)"
  let ?c1 = "upd_run r next_seq c"
  show ?thesis
  proof (cases "buffer_full op ?bytes c")
    case True
    let ?msg = "''client unacknowledged frame buffer limit exceeded''"
    let ?b = "FailB ''client_buffer_overflow'' ?msg"
    let ?c3 = "remove_run_pending op r (suppress r ?c1)"
    let ?c' = "sendReliableFailureAndDisconnect op e ?t (length H) ?msg ?c3"
    have eq: "sendTaskFrame op r body c = ?c'" "numbered op r body c = [?b]"
      using True e ns by (simp_all add: sendTaskFrame_reliable [OF ns e] n fr buffer_full_upd numbered_def)
    have p3: "pend_of e ?c3 = []" using e by (simp add: remove_run_pending_def)
    have p': "pend_of e ?c' = []" using p3 by (simp add: pend_of_def)
    have l3: "linked w ?c3 = linked w c" "sent_on e w ?c3 = sent_on e w c" "c_maxFrameBytes ?c3 = c_maxFrameBytes c" for w
      by (simp_all add: remove_run_pending_def removePendingExecution_def keep_pending_def linked_def sent_on_def
          suppress_def upd_run_def schedulePendingExpiry_def split: option.split list.split)
    have k: "c_runs ?c' = c_runs ?c3" "c_nextRun ?c' = c_nextRun ?c3" by simp_all
    have f: "ru_suppressed (c_runs ?c' r)" "c_nextRun ?c' = c_nextRun c" "ru_executionId (c_runs ?c' r) = Some e"
      "ru_nextSeq (c_runs ?c' r) = Suc (length H)" "ru_taskId (c_runs ?c' r) = ?t"
      unfolding k using e n by simp_all
    show ?thesis
      unfolding eq
    proof (rule sender_extend [OF s live ns])
      show "c_maxFrameBytes ?c' = c_maxFrameBytes c" using failure_sent(2) l3(3) by simp
      show "sent_on e w ?c' = sent_on e w c \<or> linked w c \<and> sent_on e w ?c' = sent_on e w c @ [(length H, ?b)]" for w
        using failure_sent(3) [of e w op ?t "length H" ?msg ?c3] unfolding l3 .
      show "linked w ?c' \<Longrightarrow> linked w c \<and> (sent_on e w ?c' = sent_on e w c @ [(length H, ?b)] \<or> pend_of e ?c' = [])" for w
        using failure_sent(1) [of w op e ?t "length H" ?msg ?c3] p' l3(1) by blast
    qed (use f p' in simp_all)
  next
    case False
    let ?p = "\<lparr>pf_taskId = ?t, pf_executionId = e, pf_seq = length H, pf_frame = seq_frame ?t e (length H) body,
      pf_bytes = ?bytes, pf_createdAt = c_now ?c1\<rparr>"
    let ?c2 = "schedulePendingExpiry op (?c1\<lparr>c_pending := c_pending ?c1 @ [?p], c_pendingBytes := c_pendingBytes ?c1 + int ?bytes\<rparr>)"
    let ?c' = "if c_replayReady ?c2 then send_up (seq_frame ?t e (length H) body) ?c2 else ?c2"
    have eq: "sendTaskFrame op r body c = ?c'" "numbered op r body c = [body]"
      using False e ns ret by (simp_all add: sendTaskFrame_reliable [OF ns e] n fr buffer_full_upd numbered_def Let_def)
    have s2: "sent_on e w ?c2 = sent_on e w c" for w by (simp add: sent_on_def upd_run_def)
    have sock: "c_sock ?c2 = c_sock c" "c_open ?c2 = c_open c" "c_replayReady ?c2 = c_replayReady c"
      by (simp_all add: upd_run_def)
    have sent: "sent_on e w ?c' = sent_on e w c @ (if linked w c then [(length H, body)] else [])" for w
      using sent_up_seq [of e w ?t "length H" body ?c2] s2 [of w] sock by (simp add: linked_def)
    have core: "core ?c' = core ?c2" by simp
    have l': "linked w ?c' = linked w c" for w by simp
    have pend: "pend_of e ?c' = pend_of e c @ [?p]" using core_fields(1) [OF core] by (simp add: pend_of_def)
    have run: "c_runs ?c' = (c_runs c)(r := next_seq (c_runs c r))" "c_nextRun ?c' = c_nextRun c"
      using core_fields(3,4) [OF core] by simp_all
    have mx: "c_maxFrameBytes ?c' = c_maxFrameBytes c" by (simp add: upd_run_def)
    show ?thesis
      unfolding eq
    proof (rule sender_extend [OF s live ns])
      show "map (\<lambda>p. (pf_seq p, pf_frame p)) (pend_of e ?c') = map (\<lambda>p. (pf_seq p, pf_frame p)) (pend_of e c) @
          [(length H, seq_frame ?t e (length H) body)] \<or> pend_of e ?c' = [] \<and> ru_suppressed (c_runs ?c' r)"
        unfolding pend by simp
      show "sent_on e w ?c' = sent_on e w c \<or> linked w c \<and> sent_on e w ?c' = sent_on e w c @ [(length H, body)]" for w
        unfolding sent by simp
      show "linked w ?c' \<Longrightarrow> linked w c \<and> (sent_on e w ?c' = sent_on e w c @ [(length H, body)] \<or> pend_of e ?c' = [])" for w
        unfolding sent l' by simp
    qed (use e n mx in \<open>simp_all only: run, simp_all\<close>)
  qed
qed

subsection \<open>Every event of the client\<close>

text \<open>What the environment guarantees for the run: the server accepts frames at least as large as the
  client retains, an acknowledgement covers only accepted frames, and output comes from the
  run while it is in flight.\<close>

definition event_ok :: "client_opts \<Rightarrow> string \<Rightarrow> rref \<Rightarrow> nat \<Rightarrow> client_event \<Rightarrow> client \<Rightarrow> bool" where
  "event_ok op e r x ev c \<longleftrightarrow>
     (case ev of
        Message w (HelloAck caps grace mx) \<Rightarrow> pendingByteLimit op \<le> mx
      | Message w (TaskAck t e' m) \<Rightarrow> e' = e \<longrightarrow> m < int x
      | Emits q body \<Rightarrow> q = r \<longrightarrow> inflight r c
      | _ \<Rightarrow> True)"

definition history_after :: "client_opts \<Rightarrow> rref \<Rightarrow> client_event \<Rightarrow> client \<Rightarrow> task_body list" where
  "history_after op r ev c = (case ev of Emits q body \<Rightarrow> if q = r then numbered op r body c else [] | _ \<Rightarrow> [])"

lemma sender_ok_hello:
  assumes i: "client_inv op c" and s: "sender_ok op e r x H c" and w: "c_sock c = Some w" and mx: "pendingByteLimit op \<le> mx"
  shows "sender_ok op e r x H (on_hello_ack op w caps mx c)"
proof -
  let ?f = "\<lambda>x1 x2 x3. c\<lparr>c_approvalsReady := x1, c_federatedScopeReady := x2, c_callerScopeReady := x3\<rparr>"
  let ?g = "\<lambda>x1 x2 x3. ?f x1 x2 x3\<lparr>c_replayReady := True, c_maxFrameBytes := Some mx\<rparr>"
  have f: "sender_ok op e r x H (?f x1 x2 x3)" for x1 x2 x3
    by (rule sender_ok_weaker [OF s weaker_flags(3)])
  have n: "sender_ok op e r x H (negotiation_failed (?f x1 x2 x3))" for x1 x2 x3
    by (rule sender_ok_weaker [OF f weaker_negotiation])
  have g: "sender_ok op e r x H (flushPendingFrames op w (?g x1 x2 x3))" for x1 x2 x3
  proof (rule sender_ok_flush)
    show "client_inv op (?g x1 x2 x3)" by (rule client_inv_core [OF _ i]) (simp add: core_eq)
    show "sender_base op e r x H (?g x1 x2 x3)"
      using s mx by (simp add: sender_ok_def sender_base_def sent_on_def inflight_def pend_of_def kept_from_def)
  qed (use w in simp)
  show ?thesis unfolding on_hello_ack_def Let_def using f n g by simp
qed

lemma sender_ok_message:
  assumes i: "client_inv op c" and s: "sender_ok op e r x H c" and ok: "event_ok op e r x (Message w f) c"
  shows "sender_ok op e r x H (client_on_message op w f c)"
proof (cases "c_sock c = Some w")
  case True
  have r: "r < c_nextRun c" "ru_executionId (c_runs c r) = Some e"
    using s sender_base_D(1,2) by (auto simp: sender_ok_def)
  have p: "sender_ok op e r x H (send_up Pong c)"
    by (rule sender_ok_weaker [OF s weaker_send_up]) simp
  show ?thesis
  proof (cases f)
    case (HelloAck caps g mx)
    then show ?thesis using sender_ok_hello [OF i s True] ok True by (simp add: client_on_message_def event_ok_def)
  next
    case (TaskAck t e' m)
    then show ?thesis using sender_ok_ack [OF s] ok True by (simp add: client_on_message_def event_ok_def)
  next
    case (TaskAssign a)
    then show ?thesis using sender_ok_weaker [OF s weaker_assign [OF i r]] True by (simp add: client_on_message_def)
  next
    case (TaskCancel t y)
    then show ?thesis using sender_ok_weaker [OF s weaker_cancel [OF i r]] True by (simp add: client_on_message_def)
  qed (use s p True in \<open>simp_all add: client_on_message_def\<close>)
qed (use s in \<open>simp add: client_on_message_def\<close>)

lemma sender_ok_do:
  assumes i: "client_inv op c" and s: "sender_ok op e r x H c" and can: "client_can ev c" and ok: "event_ok op e r x ev c"
    and ret: "pendingRetentionEnabled op"
  shows "sender_ok op e r x (H @ history_after op r ev c) (client_do op delay ev c)"
proof -
  have r: "r < c_nextRun c" "ru_executionId (c_runs c r) = Some e"
    using s sender_base_D(1,2) by (auto simp: sender_ok_def)
  have weak: "sender_ok op e r x H (client_do op delay ev c)" if "weaker e r c (client_do op delay ev c)"
    using sender_ok_weaker [OF s that] .
  show ?thesis
  proof (cases ev)
    case (Message w f)
    then show ?thesis using sender_ok_message [OF i s] ok by (simp add: history_after_def)
  next
    case (Emits q body)
    show ?thesis
    proof (cases "q = r")
      case True
      then show ?thesis using Emits ok sender_ok_emit [OF s ret] by (simp add: history_after_def event_ok_def)
    next
      case False
      then show ?thesis using Emits can weak weaker_other_run [OF sole_of_inv [OF i r] r]
        by (simp add: history_after_def)
    qed
  next
    case Expiry
    have "client_inv op (c\<lparr>c_expiry := None\<rparr>)" by (rule client_inv_core [OF _ i]) (simp add: core_eq)
    from weaker_expire [OF this] r have "weaker e r (c\<lparr>c_expiry := None\<rparr>) (expirePendingFrames op (c\<lparr>c_expiry := None\<rparr>))"
      by simp
    from weaker_trans [OF weaker_set_expiry this] show ?thesis using Expiry weak by (simp add: history_after_def)
  qed (use weak can weaker_open weaker_finished in \<open>simp_all add: history_after_def\<close>)
qed

end
