(* ===== verification/ClientFacts.thy ===== *)
theory ClientFacts
  imports ClientInv
begin

text \<open>
  What the client promises: exact bounds on what it retains, replay of the whole rest of a run in
  order, reconnect delays within their limits, and silence after a fatal close.
\<close>

subsection \<open>Retention\<close>

text \<open>Claim C16. In every reachable state of the client the retained frames stay within the frame
  and byte limits with an exact byte count, and the frames retained for a run are the frames numbered
  from some point up to the last one it produced, in order and without a gap, or none when the run is
  suppressed.\<close>

theorem retained_frames_contiguous:
  assumes "(client_step op delay)\<^sup>*\<^sup>* (new_client now runs0) c"
  shows "c_pendingBytes c = bytes_of (c_pending c) \<and> length (c_pending c) \<le> pendingFrameLimit op \<and>
    c_pendingBytes c \<le> int (pendingByteLimit op) \<and>
    (\<forall>r e. r < c_nextRun c \<and> ru_executionId (c_runs c r) = Some e \<longrightarrow>
       (\<exists>a \<le> ru_nextSeq (c_runs c r). map pf_seq (pend_of e c) = [a..<ru_nextSeq (c_runs c r)]) \<and>
       (ru_suppressed (c_runs c r) \<longrightarrow> pend_of e c = []))"
proof -
  have i: "client_inv op c" using cl.reachable_inv assms by blast
  then have "contiguous (pend_of e c) (ru_nextSeq (c_runs c r))" "ru_suppressed (c_runs c r) \<Longrightarrow> pend_of e c = []"
    if "r < c_nextRun c" "ru_executionId (c_runs c r) = Some e" for r e
    using run_inv_D(6,7) [of op c r e] that i unfolding client_inv_def by blast+
  with i show ?thesis by (auto simp: client_inv_def bounds_inv_def contiguous_def)
qed

definition sample_opts :: client_opts where
  "sample_opts = \<lparr>op_byteLength = (\<lambda>_. 100), op_maxPendingFrames = Some (NInt 5), op_maxPendingBytes = None,
     op_maxPendingAgeMs = None, op_requiresCallerScope = False, op_remoteApprovals = False, op_agentId = ''a'',
     op_token = ''t'', op_backendKind = ''echo'', op_trustedIdentityIssuers = None, op_reconnectStableMs = None,
     op_collisionBackoffMs = None\<rparr>"

definition sample_run :: run where
  "sample_run = \<lparr>ru_taskId = '''', ru_suppressed = False, ru_aborted = False, ru_executionId = None, ru_nextSeq = 0\<rparr>"

definition sample_message :: wire_message where
  "sample_message = \<lparr>wm_role = User, wm_parts = [], wm_messageId = ''m'', wm_metadata = None, wm_extensions = None\<rparr>"

definition sample_assign :: assign where
  "sample_assign = \<lparr>as_taskId = ''t1'', as_executionId = Some ''e1'', as_contextId = ''c1'', as_message = sample_message,
     as_requestedExtensions = None, as_caller = None, as_executionScope = None\<rparr>"

lemmas client_eval = new_client_def connect_def client_on_message_def on_assign_def start_run_def sendTaskFrame_def
  buffer_full_def exceeds_max_def pendingRetentionEnabled_def pendingFrameLimit_def pendingByteLimit_def
  pendingAgeLimit_def limit_of_def schedulePendingExpiry_def c_emit_def upd_run_def sample_opts_def sample_assign_def
  sample_run_def

text \<open>A client with one task whose two frames are retained while the connection is down.\<close>

definition sample_client :: client where
  "sample_client =
     sendTaskFrame sample_opts 0 (FailB ''b'' ''x'') (sendTaskFrame sample_opts 0 (FailB ''a'' ''x'')
       (client_on_message sample_opts 0 (TaskAssign sample_assign) (connect (new_client 0 (\<lambda>_. sample_run)))))"

lemma sample_steps: "(client_step sample_opts (\<lambda>_. 1000))\<^sup>*\<^sup>* (new_client 0 (\<lambda>_. sample_run)) sample_client"
proof -
  let ?s = "client_step sample_opts (\<lambda>_. 1000)"
  let ?c1 = "connect (new_client 0 (\<lambda>_. sample_run))"
  let ?c2 = "client_on_message sample_opts 0 (TaskAssign sample_assign) ?c1"
  let ?c3 = "sendTaskFrame sample_opts 0 (FailB ''a'' ''x'') ?c2"
  have n: "c_nextRun ?c1 = 0" "c_nextRun ?c2 = 1" "c_nextRun ?c3 = 1" "c_nextRun (new_client 0 (\<lambda>_. sample_run)) = 0"
    by (simp_all add: client_eval Let_def)
  have s1: "?s (new_client 0 (\<lambda>_. sample_run)) ?c1" using client_step.step [of Start] by simp
  have s2: "?s ?c1 ?c2" using client_step.step [of "Message 0 (TaskAssign sample_assign)" ?c1]
    by (simp add: frame_fresh_def fresh_execution_def n)
  have s3: "?s ?c2 ?c3" using client_step.step [of "Emits 0 (FailB ''a'' ''x'')" ?c2] by (simp add: n)
  have s4: "?s ?c3 sample_client"
    unfolding sample_client_def using client_step.step [of "Emits 0 (FailB ''b'' ''x'')" ?c3] by (simp add: n)
  show ?thesis using s1 s2 s3 s4 by (meson converse_rtranclp_into_rtranclp rtranclp.rtrancl_refl)
qed

lemma retained_frames_contiguous_witness:
  "c_pendingBytes sample_client = bytes_of (c_pending sample_client) \<and> c_pendingBytes sample_client = 200 \<and>
   (\<exists>a \<le> 2. map pf_seq (pend_of ''e1'' sample_client) = [a..<2])"
proof -
  have r: "0 < c_nextRun sample_client" "ru_executionId (c_runs sample_client 0) = Some ''e1''"
    "ru_nextSeq (c_runs sample_client 0) = 2" "c_pendingBytes sample_client = 200"
    by (simp_all add: sample_client_def client_eval Let_def)
  show ?thesis using retained_frames_contiguous [OF sample_steps] r by metis
qed

subsection \<open>Reconnect delays\<close>

lemma round_half_up_mono: "x \<le> y \<Longrightarrow> round_half_up x \<le> round_half_up y"
  unfolding round_half_up_def by (rule floor_mono) simp

lemma round_half_up_0 [simp]: "round_half_up 0 = 0"
  unfolding round_half_up_def by (rule floor_unique) simp_all

lemma round_half_up_int: "round_half_up (of_int n) = n"
  unfolding round_half_up_def by (rule floor_unique) simp_all

lemma weighted_between:
  fixes a b u :: rat
  assumes "0 \<le> u" "u \<le> 1" "a \<le> b"
  shows "a \<le> a + u * (b - a)" "a + u * (b - a) \<le> b"
proof -
  show "a \<le> a + u * (b - a)" using assms by simp
  have "u * (b - a) \<le> 1 * (b - a)" using assms by (intro mult_right_mono) simp_all
  then show "a + u * (b - a) \<le> b" by simp
qed

definition capped_delay :: "rat \<Rightarrow> rat \<Rightarrow> nat \<Rightarrow> rat" where
  "capped_delay base_ms max_ms attempt = min (max (max 0 base_ms) max_ms) (max 0 base_ms * 2 ^ attempt)"

text \<open>The delay before a reconnect is never negative and never above the configured maximum
  (or the base delay when that is larger), at any attempt number and for any jitter ratio and random
  value; and it lies within the jitter ratio of the exponential value \<open>base * 2 ^ attempt\<close> capped at
  the maximum.\<close>

theorem reconnect_delay_bounds:
  fixes base_ms max_ms ratio u :: rat
  assumes u: "0 \<le> u" "u \<le> 1"
  shows "0 \<le> nextReconnectDelay base_ms max_ms ratio u attempt \<and>
    nextReconnectDelay base_ms max_ms ratio u attempt \<le> round_half_up (max (max 0 base_ms) max_ms) \<and>
    round_half_up (capped_delay base_ms max_ms attempt * (1 - max 0 ratio)) \<le> nextReconnectDelay base_ms max_ms ratio u attempt \<and>
    nextReconnectDelay base_ms max_ms ratio u attempt \<le> round_half_up (capped_delay base_ms max_ms attempt * (1 + max 0 ratio))"
proof -
  let ?mx = "max (max 0 base_ms) max_ms"
  define capped where "capped = capped_delay base_ms max_ms attempt"
  have c: "0 \<le> capped" "capped \<le> ?mx" by (simp_all add: capped_def capped_delay_def)
  define slack where "slack = capped * max 0 ratio"
  have s: "0 \<le> slack" using c(1) by (simp add: slack_def)
  define lo where "lo = max 0 (capped - slack)"
  define hi where "hi = min ?mx (capped + slack)"
  have lohi: "lo \<le> capped" "capped \<le> hi" "hi \<le> ?mx" "0 \<le> lo" "capped - slack \<le> lo" "hi \<le> capped + slack"
    using c s unfolding lo_def hi_def by linarith+
  have lh: "lo \<le> hi" using lohi by linarith
  let ?D = "nextReconnectDelay base_ms max_ms ratio u attempt"
  define x where "x = (if capped = 0 \<or> max 0 ratio = 0 then capped else lo + u * (hi - lo))"
  have eq: "?D = round_half_up x"
    by (simp add: nextReconnectDelay_def Let_def capped_def capped_delay_def x_def lo_def hi_def slack_def)
  have x: "lo \<le> x" "x \<le> hi"
    unfolding x_def using lohi(1,2) weighted_between [OF u lh] by (simp_all only: split: if_split) blast+
  have sl: "capped - slack = capped * (1 - max 0 ratio)" "capped + slack = capped * (1 + max 0 ratio)"
    by (simp_all add: slack_def algebra_simps)
  have "round_half_up 0 \<le> ?D" "?D \<le> round_half_up ?mx" "round_half_up (capped - slack) \<le> ?D" "?D \<le> round_half_up (capped + slack)"
    unfolding eq by (rule round_half_up_mono, use x lohi in linarith)+
  then show ?thesis unfolding capped_def [symmetric] sl by simp
qed

lemma reconnect_delay_bounds_witness:
  "0 \<le> nextReconnectDelay 1000 60000 (1 / 5) (1 / 2) 3 \<and> nextReconnectDelay 1000 60000 (1 / 5) (1 / 2) 3 \<le> 60000 \<and>
   nextReconnectDelay 1000 60000 (1 / 5) (1 / 2) 3 = 8000"
proof -
  have v: "nextReconnectDelay 1000 60000 (1 / 5) (1 / 2) 3 = 8000"
    by (simp add: nextReconnectDelay_def Let_def round_half_up_int [of 8000, simplified])
  have m: "round_half_up (max (max 0 1000) 60000) = 60000"
    by (simp add: round_half_up_int [of 60000, simplified])
  show ?thesis
    using reconnect_delay_bounds [of "1 / 2" 1000 60000 "1 / 5" 3] v m by simp
qed

subsection \<open>A fatal close\<close>

text \<open>A client that has stopped and has no socket.\<close>

definition silent :: "client \<Rightarrow> bool" where
  "silent c \<longleftrightarrow> c_stopped c \<and> c_sock c = None"

lemma silent_simple:
  assumes "silent c"
  shows "terminate_sock c = c" "send_up f c = c" "connect c = c" "scheduleReconnect fl d c = c"
    "sendReliableFailureAndDisconnect op e t n m c = c" "client_on_message op w fr c = c"
    "client_on_close op w code reason d c = c" "client_on_open op w c = c" "send_hello op w card0 c = c"
    "reset_fired w c = c" "heartbeat_fired w c = c" "on_pong w c = c" "send_failed w c = c" "failure_flushed w c = c"
  using assms by (simp_all add: silent_def terminate_sock_def send_up_def connect_def scheduleReconnect_def
      sendReliableFailureAndDisconnect_def client_on_message_def client_on_close_def client_on_open_def send_hello_def
      reset_fired_def heartbeat_fired_def on_pong_def send_failed_def failure_flushed_def)

text \<open>Operations that only touch runs and retained frames.\<close>

definition quiet :: "client \<Rightarrow> client \<Rightarrow> bool" where
  "quiet c c' \<longleftrightarrow> c_out c' = c_out c \<and> c_sock c' = c_sock c \<and> c_stopped c' = c_stopped c"

lemma quiet_refl [simp]: "quiet c c"
  by (simp add: quiet_def)

lemma quiet_trans: "quiet c c' \<Longrightarrow> quiet c' c'' \<Longrightarrow> quiet c c''"
  by (simp add: quiet_def)

lemma quiet_silent: "quiet c c' \<Longrightarrow> silent c \<Longrightarrow> silent c'"
  by (simp add: quiet_def silent_def)

lemma quiet_basic:
  "quiet c (schedulePendingExpiry op c)" "quiet c (keep_pending op P c)" "quiet c (removePendingExecution op e c)"
  "quiet c (acknowledgeFrames op e n c)" "quiet c (dropPendingFrames c)" "quiet c (upd_run r g c)"
  "quiet c (suppress r c)" "quiet c (run_finished r c)"
  by (simp_all add: quiet_def schedulePendingExpiry_def keep_pending_def removePendingExecution_def acknowledgeFrames_def
      dropPendingFrames_def upd_run_def suppress_def run_finished_def Let_def split: list.split)

lemma quiet_suppress_fold: "quiet c (fold (\<lambda>r c. if P (c_runs c r) then suppress r c else c) rs c)"
  by (induction rs arbitrary: c) (auto intro: quiet_trans [OF quiet_basic(7)])

lemma quiet_suppress_all: "quiet c (suppress_all P c)"
  by (simp add: suppress_all_def quiet_suppress_fold)

lemma quiet_failRun: "silent c \<Longrightarrow> quiet c (failReliableRun op r d c)"
proof -
  assume s: "silent c"
  have q: "quiet c (remove_run_pending op r (suppress r c))"
    unfolding remove_run_pending_def
    by (simp add: quiet_trans [OF quiet_basic(7) quiet_basic(3)] quiet_basic(7) split: option.split)
  then show ?thesis
    by (simp add: failReliableRun_def Let_def silent_simple(1) [OF quiet_silent [OF q s]])
qed

lemma quiet_fold:
  assumes "\<And>x c. silent c \<Longrightarrow> quiet c (g x c)" and "silent c"
  shows "quiet c (fold g xs c)"
  using assms(2)
proof (induction xs arbitrary: c)
  case (Cons x xs)
  have q: "quiet c (g x c)" using assms(1) Cons.prems .
  then show ?case using Cons.IH [OF quiet_silent [OF q Cons.prems]] quiet_trans [OF q] by simp
qed simp

lemma quiet_expire_one: "silent c \<Longrightarrow> quiet c (expire_one op e c)"
  by (simp add: expire_one_def quiet_failRun quiet_basic
      silent_simple(1) [OF quiet_silent [OF quiet_basic(3)]] split: option.split)

lemma quiet_expire: "silent c \<Longrightarrow> quiet c (expirePendingFrames op c)"
  by (simp add: expirePendingFrames_def Let_def quiet_trans [OF quiet_fold [OF quiet_expire_one] quiet_basic(1)])

lemma quiet_sendTask: "silent c \<Longrightarrow> quiet c (sendTaskFrame op r body c)"
proof (cases "ru_suppressed (c_runs c r) \<or> ru_executionId (c_runs c r) = None")
  case True
  assume "silent c"
  with True show ?thesis by (auto simp: sendTaskFrame_def Let_def silent_simple)
next
  case False
  assume s: "silent c"
  from False obtain e where e: "ru_executionId (c_runs c r) = Some e" "\<not> ru_suppressed (c_runs c r)" by auto
  let ?c1 = "upd_run r next_seq c"
  have s1: "silent ?c1" using s by (simp add: silent_def upd_run_def)
  have q1: "quiet c (remove_run_pending op r (suppress r ?c1))"
    by (simp add: quiet_def remove_run_pending_def removePendingExecution_def keep_pending_def schedulePendingExpiry_def
        suppress_def upd_run_def split: option.split list.split)
  have q2: "quiet c (schedulePendingExpiry op (?c1\<lparr>c_pending := ps, c_pendingBytes := b\<rparr>))" "quiet c ?c1" for ps b
    by (simp_all add: quiet_def schedulePendingExpiry_def upd_run_def split: list.split)
  show ?thesis
    unfolding sendTaskFrame_reliable [OF e(2,1)] Let_def
    using q1 q2 silent_simple(5) [OF quiet_silent [OF q1 s]] silent_simple(2) [OF quiet_silent [OF q2(1) s]]
      silent_simple(2) [OF s1] by simp
qed

lemma quiet_stop: "silent c \<Longrightarrow> quiet c (stop c)"
proof -
  assume s: "silent c"
  let ?c0 = "c\<lparr>c_stopped := True, c_reconnectTimer := False, c_awaitingPong := False\<rparr>"
  have q: "quiet c (dropPendingFrames (suppress_all (\<lambda>_. True) ?c0))"
    using quiet_trans [OF quiet_suppress_all quiet_basic(5)] s by (simp add: quiet_def silent_def)
  then have "c_sock (dropPendingFrames (suppress_all (\<lambda>_. True) ?c0)) = None"
    using quiet_silent [OF q s] by (simp add: silent_def)
  then show ?thesis using q by (simp add: stop_def Let_def)
qed

lemma silent_do: "silent c \<Longrightarrow> quiet c (client_do op delay ev c)"
proof (cases ev)
  case Expiry
  assume "silent c"
  then have "silent (c\<lparr>c_expiry := None\<rparr>)" by (simp add: silent_def)
  from quiet_expire [OF this] Expiry show ?thesis by (simp add: quiet_def)
next
  case Retry
  assume "silent c"
  with Retry show ?thesis by (simp add: reconnect_fired_def connect_def silent_def quiet_def)
qed (simp_all add: silent_simple quiet_sendTask quiet_stop quiet_basic, simp add: quiet_def)

lemma silent_step: "client_step op delay c c' \<Longrightarrow> silent c \<Longrightarrow> quiet c c'"
  using silent_do by (auto elim!: client_stepE)

text \<open>The silent states as a transition system of their own: what was sent stays what it is.\<close>

interpretation quiet_sys: invariant_system "\<lambda>c. c = c0 \<and> silent c0" "client_step op delay"
    "\<lambda>c. silent c0 \<longrightarrow> quiet c0 c" for c0 op delay
proof unfold_locales
  show "silent c0 \<longrightarrow> quiet c0 t" if "silent c0 \<longrightarrow> quiet c0 s" "client_step op delay s t" for s t
    using that quiet_trans [of c0 s t] quiet_silent [of c0 s] silent_step [of op delay s t] by blast
qed simp

lemma suppress_fold_all:
  "r \<in> set rs \<or> ru_suppressed (c_runs c r) \<and> ru_aborted (c_runs c r) \<Longrightarrow>
   ru_suppressed (c_runs (fold (\<lambda>r c. if P c r then suppress r c else c) rs c) r) \<and>
   ru_aborted (c_runs (fold (\<lambda>r c. if P c r then suppress r c else c) rs c) r)"
  if "\<And>c r. P c r" for c
  by (induction rs arbitrary: c) (use that in auto)

lemma suppress_all_all:
  "r \<in> set (map_vals (c_inflight c)) \<Longrightarrow>
   ru_suppressed (c_runs (suppress_all (\<lambda>_. True) c) r) \<and> ru_aborted (c_runs (suppress_all (\<lambda>_. True) c) r)"
  unfolding suppress_all_def using suppress_fold_all [where P = "\<lambda>_ _. True" and rs = "map_vals (c_inflight c)"] by simp

text \<open>After the server closes the current connection with 4014 (client deleted) or 4005 (bad token) the client
  holds no retained frame, every task still in flight is suppressed and aborted, and whatever happens
  next (timers, task output, late frames, reconnect attempts) it sends nothing and opens no connection.\<close>

theorem fatal_close_is_final:
  assumes "c_sock c = Some w" and "code = 4014 \<or> code = 4005"
    and "(client_step op delay)\<^sup>*\<^sup>* (client_on_close op w code reason delay c) c'"
  shows "c_out c' = c_out c @ [CFatal code reason] \<and> c_sock c' = None \<and> c_stopped c' \<and>
    c_pending (client_on_close op w code reason delay c) = [] \<and>
    (\<forall>r \<in> set (map_vals (c_inflight c)).
       ru_suppressed (c_runs (client_on_close op w code reason delay c) r) \<and>
       ru_aborted (c_runs (client_on_close op w code reason delay c) r))"
proof -
  let ?d = "client_on_close op w code reason delay c"
  let ?c1 = "c\<lparr>c_sock := None, c_open := False, c_approvalsReady := False, c_awaitingPong := False\<rparr>"
  let ?c2 = "suppress_all (\<lambda>r. \<not> (ru_executionId r \<noteq> None \<and> pendingRetentionEnabled op)) ?c1"
  let ?c3 = "?c2\<lparr>c_stopped := True, c_reconnectTimer := False\<rparr>"
  have d: "?d = c_emit (CFatal code reason) (dropPendingFrames (suppress_all (\<lambda>_. True) ?c3))"
    using assms(1,2) by (auto simp: client_on_close_def Let_def)
  have "quiet ?c1 ?c2" by (rule quiet_suppress_all)
  moreover have "quiet ?c3 (dropPendingFrames (suppress_all (\<lambda>_. True) ?c3))"
    by (rule quiet_trans [OF quiet_suppress_all quiet_basic(5)])
  ultimately have out: "c_out ?d = c_out c @ [CFatal code reason]" and sl: "silent ?d"
    unfolding d by (simp_all add: quiet_def silent_def c_emit_def)
  have "quiet ?d c'" using quiet_sys.reachable_inv [of ?d ?d op delay c'] assms(3) sl by blast
  then have "c_out c' = c_out c @ [CFatal code reason] \<and> c_sock c' = None \<and> c_stopped c'"
    using out sl by (simp add: quiet_def silent_def)
  moreover have "ru_suppressed (c_runs ?d r) \<and> ru_aborted (c_runs ?d r)" if "r \<in> set (map_vals (c_inflight c))" for r
    unfolding d using suppress_all_all [of r ?c3] that by simp
  ultimately show ?thesis unfolding d by simp
qed

lemma fatal_close_is_final_witness:
  "c_out (reconnect_fired (client_on_close sample_opts 0 4014 ''client deleted'' (\<lambda>_. 1000) sample_client)) =
     c_out sample_client @ [CFatal 4014 ''client deleted''] \<and>
   ru_suppressed (c_runs (client_on_close sample_opts 0 4014 ''client deleted'' (\<lambda>_. 1000) sample_client) 0)"
proof -
  have s: "c_sock sample_client = Some 0" "0 \<in> set (map_vals (c_inflight sample_client))"
    by (simp_all add: sample_client_def client_eval Let_def)
  let ?d = "client_on_close sample_opts 0 4014 ''client deleted'' (\<lambda>_. 1000) sample_client"
  have st: "(client_step sample_opts (\<lambda>_. 1000))\<^sup>*\<^sup>* ?d (reconnect_fired ?d)"
    using client_step.step [of Retry ?d sample_opts "\<lambda>_. 1000"] by auto
  show ?thesis
  proof
    show "c_out (reconnect_fired ?d) = c_out sample_client @ [CFatal 4014 ''client deleted'']"
      using fatal_close_is_final [OF s(1) disjI1 [OF refl] st] by blast
    show "ru_suppressed (c_runs ?d 0)"
      using fatal_close_is_final [OF s(1) disjI1 [OF refl] st] s(2) by blast
  qed
qed

end
