(* ===== verification/Delivery.thy ===== *)
theory Delivery
  imports Replay ClientFacts
begin

text \<open>
  The receiving half of replay and the link of both halves: \<open>Replay\<close> says what the client may have
  on the wire, this theory what the server does with it, and \<open>link_step\<close> lets the two run
  against each other with any other traffic in between.
\<close>

subsection \<open>The receiver's promise\<close>

text \<open>The acknowledgements of an execution that went out.\<close>

definition acks :: "string \<Rightarrow> srv \<Rightarrow> int set" where
  "acks e s = {m. \<exists>w t. SendFrame w (TaskAck t e m) \<in> set (effects s)}"

text \<open>The binding \<open>b\<close> is the only one of execution \<open>e\<close>, has accepted \<open>x\<close> frames, and nothing was
  acknowledged beyond them.\<close>

definition receiver_ok :: "string \<Rightarrow> bref \<Rightarrow> nat \<Rightarrow> srv \<Rightarrow> bool" where
  "receiver_ok e b x s \<longleftrightarrow>
     srv_inv s \<and>
     b_executionId (objs s b) = Some e \<and> b_nextClientSeq (objs s b) = Some x \<and>
     (\<forall>q < next_ref s. b_executionId (objs s q) = Some e \<longrightarrow> q = b) \<and>
     (\<forall>m \<in> acks e s. m < int x) \<and>
     (\<forall>rc. map_of (receipts s) e = Some rc \<longrightarrow> rp_acceptedSeq rc < int x)"

text \<open>\<open>keeps e b x s t\<close>: a step that accepts no frame of the execution.\<close>

definition keeps :: "string \<Rightarrow> bref \<Rightarrow> nat \<Rightarrow> srv \<Rightarrow> srv \<Rightarrow> bool" where
  "keeps e b x s t \<longleftrightarrow>
     b_executionId (objs t b) = b_executionId (objs s b) \<and> b_taskId (objs t b) = b_taskId (objs s b) \<and>
     b_agentId (objs t b) = b_agentId (objs s b) \<and> b_nextClientSeq (objs t b) = b_nextClientSeq (objs s b) \<and>
     (bound b t \<longrightarrow> bound b s) \<and>
     (\<forall>q < next_ref t. b_executionId (objs t q) = Some e \<longrightarrow> q < next_ref s \<and> b_executionId (objs s q) = Some e) \<and>
     (\<forall>m \<in> acks e t. m \<in> acks e s \<or> m < int x) \<and>
     (\<forall>rc. map_of (receipts t) e = Some rc \<longrightarrow> map_of (receipts s) e = Some rc \<or> rp_acceptedSeq rc < int x)"

lemma keeps_refl [simp]: "keeps e b x s s"
  by (simp add: keeps_def)

lemma keeps_trans: "keeps e b x s t \<Longrightarrow> keeps e b x t u \<Longrightarrow> keeps e b x s u"
  unfolding keeps_def by (intro conjI allI impI ballI; metis)

lemma receiver_ok_keeps: "receiver_ok e b x s \<Longrightarrow> keeps e b x s t \<Longrightarrow> srv_inv t \<Longrightarrow> receiver_ok e b x t"
  unfolding receiver_ok_def keeps_def by (intro conjI allI impI ballI; metis)

text \<open>Operations that change no object, receipt or effect and bind nothing.\<close>

lemma keeps_quiet:
  assumes "objs t = objs s" "next_ref t = next_ref s" "receipts t = receipts s" "effects t = effects s"
    and "bindings t = bindings s \<or> (\<exists>k. bindings t = map_del k (bindings s))"
  shows "keeps e b x s t"
  using assms by (auto simp: keeps_def acks_def bound_def getBinding_def split: if_splits)

lemma unbind_bindings: "bindings (unbindTask t r s) = bindings s \<or> bindings (unbindTask t r s) = map_del t (bindings s)"
  by (simp add: unbindTask_def drop_binding_def Let_def)

lemma failTask_bindings:
  "bindings (failTaskBinding r c m s) = bindings s \<or>
   bindings (failTaskBinding r c m s) = map_del (b_taskId (objs s r)) (bindings s)"
  by (simp add: failTaskBinding_def drop_binding_def Let_def)

lemma keeps_ops [simp]:
  "keeps e b x s (resumeBinding t ag s)" "keeps e b x s (resume_opt ago t s)" "keeps e b x s (pushStatus r ev s)"
  "keeps e b x s (pushArtifact r av s)" "keeps e b x s (finish_sink r s)" "keeps e b x s (snd (received bb i d s))"
  by (rule keeps_quiet; simp add: resume_opt_def split: option.split)+

lemma keeps_ending [simp]: "keeps e b x s (unbindTask t r s)" "keeps e b x s (failTaskBinding r c m s)"
  using unbind_bindings [of t r s] failTask_bindings [of r c m s] by (auto intro!: keeps_quiet)

lemma acks_send [simp]:
  "acks e (send_ws w f s) = acks e s \<union> {m. sockOpen s w \<and> (\<exists>t. f = TaskAck t e m)}"
  by (auto simp: acks_def send_ws_def emit_def)

lemma keeps_send_ws:
  assumes "\<And>t m. f = TaskAck t e m \<Longrightarrow> m < int x"
  shows "keeps e b x s (send_ws w f s)"
  using assms by (auto simp: keeps_def bound_def getBinding_def)

lemma keeps_send_agent:
  assumes "\<And>t m. f \<noteq> TaskAck t e m"
  shows "keeps e b x s (send_agent ag f s)"
proof (cases "getAgent ag s")
  case (Some c)
  have "keeps e b x s (send_ws (cn_ws c) f s)" by (rule keeps_send_ws) (use assms in blast)
  with Some show ?thesis by (simp add: sendToAgent_def)
qed (simp add: sendToAgent_def)

lemma keeps_upd:
  assumes "b_executionId (f (objs s r)) = b_executionId (objs s r)" "b_taskId (f (objs s r)) = b_taskId (objs s r)"
    "b_agentId (f (objs s r)) = b_agentId (objs s r)" "b_nextClientSeq (f (objs s r)) = b_nextClientSeq (objs s r)"
  shows "keeps e b x s (upd_obj r f s)"
  using assms by (auto simp: keeps_def upd_obj_def acks_def bound_def getBinding_def split: if_splits)

text \<open>Acknowledging a binding: of another execution, or up to what was accepted.\<close>

lemma keeps_acknowledge:
  assumes "b_executionId (objs s r) = Some e \<Longrightarrow> b_nextClientSeq (objs s r) = Some y \<and> y \<le> x"
  shows "keeps e b x s (acknowledge w r s)"
proof (cases "b_executionId (objs s r)")
  case (Some e')
  show ?thesis
  proof (cases "b_nextClientSeq (objs s r)")
    case (Some n)
    with \<open>b_executionId (objs s r) = Some e'\<close> assms show ?thesis
      by (auto simp: acknowledge_def Let_def intro!: keeps_send_ws)
  qed (simp add: acknowledge_def Let_def Some)
qed (simp add: acknowledge_def Let_def)

lemma prune_receipts:
  assumes "receipts_inv s" and "map_of (receipts (pruneTerminalReceipts n s)) k = Some rc"
  shows "map_of (receipts s) k = Some rc"
proof -
  have d: "distinct (map_keys (receipts s))" using assms(1) by (simp add: receipts_inv_def)
  have "(k, rc) \<in> set (receipts (pruneTerminalReceipts n s))" using assms(2) by (rule map_of_SomeD)
  then show ?thesis using map_of_mem [OF d] by (simp add: pruneTerminalReceipts_def)
qed

lemma keeps_prune: "receipts_inv s \<Longrightarrow> keeps e b x s (pruneTerminalReceipts n s)"
  using prune_receipts [of s n e] by (simp add: keeps_def acks_def bound_def getBinding_def)

lemma map_of_drop:
  "distinct (map_keys m) \<Longrightarrow> map_of (drop n m) k = Some v \<Longrightarrow> map_of m k = Some v"
  using map_of_mem [of m k v] by (metis in_set_dropD map_of_SomeD)

lemma keeps_remember:
  assumes i: "receipts_inv s" and q: "b_executionId (objs s r) = Some e \<Longrightarrow> q < int x"
  shows "keeps e b x s (rememberTerminalReceipt r q s)"
proof (cases "get_or (b_executionId (objs s r)) [] = []")
  case False
  let ?e = "get_or (b_executionId (objs s r)) []" and ?s1 = "pruneTerminalReceipts (clock s) s"
  have "map_of (receipts s) e = Some rc \<or> rp_acceptedSeq rc < int x"
    if m: "map_of (receipts (rememberTerminalReceipt r q s)) e = Some rc" for rc
  proof -
    define rc0 where "rc0 = \<lparr>rp_agentId = b_agentId (objs s r), rp_taskId = b_taskId (objs s r), rp_acceptedSeq = q,
      rp_expiresAt = clock s + max (graceMs s) 60000\<rparr>"
    have r1: "receipts_inv ?s1" using i by (rule receipts_inv_prune)
    have upd: "receipts (s'\<lparr>receipts := m\<rparr>) = m" for s' :: srv and m by simp
    have "map_of (evict_oldest 10000 (map_set ?e rc0 (receipts ?s1))) e = Some rc"
      using m unfolding rememberTerminalReceipt_def Let_def if_not_P [OF False] upd rc0_def .
    note ev = this [unfolded evict_oldest_def]
    have "distinct (map_keys (receipts ?s1))" using r1 by (simp only: receipts_inv_def)
    then have "map_of (map_set ?e rc0 (receipts ?s1)) e = Some rc"
      using ev by (rule map_of_drop [OF distinct_keys_set])
    then show ?thesis
    proof (cases "?e = e")
      case True
      then have "b_executionId (objs s r) = Some e" using False by (auto split: option.splits)
      with \<open>map_of (map_set ?e rc0 (receipts ?s1)) e = Some rc\<close> True q show ?thesis by (auto simp: rc0_def)
    next
      case False
      with \<open>map_of (map_set ?e rc0 (receipts ?s1)) e = Some rc\<close> prune_receipts [OF i] show ?thesis by simp
    qed
  qed
  then show ?thesis by (simp add: keeps_def acks_def bound_def getBinding_def)
qed (simp add: rememberTerminalReceipt_def Let_def)

lemma keeps_receipt_or:
  assumes "receiver_ok e b x s"
  shows "keeps e b x s (snd (receipt_or other w ag h s))"
proof -
  have i: "receipts_inv s" using assms srv_inv_D(5) by (simp add: receiver_ok_def)
  have p: "keeps e b x s (pruneTerminalReceipts n s)" for n by (rule keeps_prune [OF i])
  have a: "keeps e b x s (send_ws w (TaskAck t e' m) (pruneTerminalReceipts n s))"
    if r: "receipt_for e' agt t s = Some m" for e' agt t m n
  proof (rule keeps_trans [OF p keeps_send_ws])
    fix t' m' assume f: "TaskAck t e' m = TaskAck t' e m'"
    from r obtain rc where "map_of (receipts (pruneTerminalReceipts (clock s) s)) e' = Some rc" "rp_acceptedSeq rc = m"
      by (auto simp: receipt_for_def pruneTerminalReceipts_def split: option.splits if_splits)
    then show "m' < int x" using f prune_receipts [OF i] assms by (auto simp: receiver_ok_def)
  qed
  show ?thesis
    using p a by (auto simp: receipt_or_def acknowledgeReceipt_def getTerminalReceipt_eq Let_def split: option.split)
qed

lemma keeps_reject: "keeps e b x s (reject_frame r e' c m s)"
  unfolding reject_frame_def by (rule keeps_trans [OF keeps_ending(2) keeps_send_agent]) simp

lemma keeps_terminate:
  assumes i: "receipts_inv s" and r: "b_executionId (objs s r) = Some e \<Longrightarrow> b_nextClientSeq (objs s r) = Some x"
  shows "keeps e b x s (terminate w t r ev s)"
proof -
  define s1 where "s1 = finish_sink r (pushStatus r ev s)"
  define s2 where "s2 = (case (b_executionId (objs s1 r), b_nextClientSeq (objs s1 r)) of
      (Some _, Some n) \<Rightarrow> rememberTerminalReceipt r (int n - 1) s1 | _ \<Rightarrow> s1)"
  have k1: "keeps e b x s s1" unfolding s1_def by (rule keeps_trans [OF keeps_ops(3) keeps_ops(5)])
  have o1: "objs s1 = objs s" "receipts s1 = receipts s" by (simp_all add: s1_def)
  have i1: "receipts_inv s1" using i o1 by (simp add: receipts_inv_def)
  have k2: "keeps e b x s1 s2"
    unfolding s2_def using keeps_remember [OF i1, of r e _ x b] r o1 by (auto split: option.split)
  have o2: "objs s2 = objs s" by (simp add: s2_def o1 split: option.split)
  have "keeps e b x (unbindTask t r s2) (acknowledge w r (unbindTask t r s2))"
    by (rule keeps_acknowledge [where y = x]) (use r o2 in simp)
  with k1 k2 show ?thesis
    unfolding terminate_def Let_def s1_def [symmetric] s2_def [symmetric]
    using keeps_trans keeps_ending(1) by metis
qed

lemma keeps_on_accepted:
  assumes i: "receipts_inv s" and r: "b_executionId (objs s r) = Some e \<Longrightarrow> b_nextClientSeq (objs s r) = Some x"
  shows "keeps e b x s (on_accepted w t r body s)"
proof -
  have ack: "keeps e b x s (acknowledge w r s1)" if "keeps e b x s s1" "objs s1 r = objs s r" for s1
    by (rule keeps_trans [OF that(1) keeps_acknowledge [where y = x]]) (use that r in simp)
  have push: "keeps e b x s (acknowledge w r (pushStatus r ev s1))" if "keeps e b x s s1" "objs s1 r = objs s r" for s1 ev
    by (rule ack) (use keeps_trans [OF that(1) keeps_ops(3)] that(2) in simp_all)
  show ?thesis
  proof (cases body)
    case (ApprovalRequestB rq)
    have f: "keeps e b x s (failTaskBinding r c m (send_agent i (TaskCancel t' e') s))" for c m i t' e'
      by (rule keeps_trans [OF keeps_send_agent keeps_ending(2)]) simp
    show ?thesis
    proof (cases "request_approval (objs s r) rq s")
      case (Inr p)
      then obtain a s1 where p: "request_approval (objs s r) rq s = Inr (a, s1)" by (cases p) auto
      then have "objs s1 = objs s" "next_ref s1 = next_ref s" "receipts s1 = receipts s" "effects s1 = effects s" "bindings s1 = bindings s"
        by (auto simp: request_approval_def Let_def split: option.splits if_splits)
      then have "keeps e b x s s1" "objs s1 r = objs s r" by (auto intro: keeps_quiet)
      with p ApprovalRequestB f push show ?thesis by (simp add: on_accepted_def Let_def)
    qed (use ApprovalRequestB f in \<open>simp add: on_accepted_def Let_def\<close>)
  next
    case (ApprovalReceivedB rid d)
    obtain res s1 where p: "received (objs s r) rid d s = (res, s1)" by (cases "received (objs s r) rid d s")
    have "keeps e b x s s1" "objs s1 = objs s"
      using keeps_ops(6) [of e b x s "objs s r" rid d] received_frame(5) p by (simp_all, metis snd_conv)
    with p ApprovalReceivedB push ack show ?thesis by (simp add: on_accepted_def Let_def split: option.split)
  next
    case (StatusB st md)
    let ?h = "\<lambda>b. b\<lparr>b_heartbeats := Some (get_or (b_heartbeats b) 0 + 1)\<rparr>"
    have k: "keeps e b x s (upd_obj r ?h s)" by (rule keeps_upd) simp_all
    have "keeps e b x s (acknowledge w r (pushStatus r ev (upd_obj r ?h s)))" for ev
      by (rule keeps_trans [OF keeps_trans [OF k keeps_ops(3)] keeps_acknowledge [where y = x]])
        (use r in \<open>simp add: upd_obj_def\<close>)
    with StatusB push [of s] show ?thesis by (simp add: on_accepted_def Let_def)
  next
    case (ArtifactB a app l)
    have "keeps e b x s (acknowledge w r (pushArtifact r av s))" for av
      by (rule ack) simp_all
    with ArtifactB show ?thesis by (simp add: on_accepted_def Let_def)
  next
    case (CompleteB st u)
    let ?s = "upd_obj r (\<lambda>b. b\<lparr>b_usage := u\<rparr>) s"
    have k: "keeps e b x s ?s" by (rule keeps_upd) simp_all
    have "keeps e b x ?s (terminate w t r ev ?s)" for ev
      by (rule keeps_terminate) (use i r in \<open>simp_all add: receipts_inv_def upd_obj_def\<close>)
    with k CompleteB keeps_terminate [OF i r] show ?thesis
      by (auto simp: on_accepted_def Let_def intro: keeps_trans)
  next
    case (FailB c m)
    then show ?thesis using keeps_terminate [OF i r] by (simp add: on_accepted_def Let_def)
  qed
qed

text \<open>One frame of the execution, not beyond the next one, arrives.\<close>

lemma receiver_step:
  fixes w ago
  assumes ok: "receiver_ok e b x s" and k: "bound b s \<longrightarrow> k \<le> x" and h: "h_executionId h = Some e" "h_seq h = Some k"
  defines "acc \<equiv> fst (acceptTaskFrame w ago h s) = Accepted b"
  shows "receiver_ok e b (if acc then Suc x else x) (handle_task_frame w ago h body s)"
    and "acc \<Longrightarrow> bound b s \<and> k = x"
    and "bound b (handle_task_frame w ago h body s) \<Longrightarrow> bound b s"
    and "b_taskId (objs (handle_task_frame w ago h body s) b) = b_taskId (objs s b)"
    and "acceptTaskFrame w ago h s = (Accepted r, s1) \<Longrightarrow> r = b"
proof -
  have i: "srv_inv s" "bind_inv s" using ok srv_inv_D(1) by (auto simp: receiver_ok_def)
  have ex: "b_executionId (objs s b) = Some e" "b_nextClientSeq (objs s b) = Some x" using ok by (simp_all add: receiver_ok_def)
  have uniq: "q = b" if "getBinding t s = Some q" "b_executionId (objs s q) = Some e" for t q
    using bind_inv_D(4) [OF i(2)] that ok by (auto simp: receiver_ok_def getBinding_def)
  have isb: "r = b" if "acceptTaskFrame w ago h s = (Accepted r, s1)" for r s1
  proof -
    have "fst (acceptTaskFrame w ago h s) = Accepted r" using that by simp
    then have "getBinding (h_taskId h) s = Some r" "b_executionId (objs s r) = Some e"
      unfolding accepted_iff using h by simp_all
    then show ?thesis by (rule uniq)
  qed
  show "acceptTaskFrame w ago h s = (Accepted r, s1) \<Longrightarrow> r = b" by (rule isb)
  show accD: "bound b s \<and> k = x" if acc
  proof -
    have "getBinding (h_taskId h) s = Some b" "h_seq h = Some x" using that ex unfolding acc_def accepted_iff by simp_all
    then show ?thesis using bind_inv_D(3) [OF i(2)] h by (auto simp: bound_def getBinding_def)
  qed
  let ?t = "handle_task_frame w ago h body s"
  have inv: "srv_inv ?t" using srv_inv_frame [OF i(1)] .
  have main: "receiver_ok e b (if acc then Suc x else x) ?t \<and> (bound b ?t \<longrightarrow> bound b s) \<and>
    b_taskId (objs ?t b) = b_taskId (objs s b)"
  proof (cases acc)
    case True
    define s1 where "s1 = upd_obj b (\<lambda>b. b\<lparr>b_nextClientSeq := Some (Suc x)\<rparr>) s"
    define s2 where "s2 = resumeBinding (h_taskId h) (b_agentId (objs s b)) s1"
    have "snd (acceptTaskFrame w ago h s) = s2"
      using accepted_state [of w ago h s b e] True ex unfolding acc_def s2_def s1_def by simp
    then have t: "?t = on_accepted w (h_taskId h) b body s2"
      using True unfolding acc_def by (cases "acceptTaskFrame w ago h s") (simp add: handle_task_frame_def)
    have o: "objs s2 b = (objs s b)\<lparr>b_nextClientSeq := Some (Suc x)\<rparr>" "receipts s2 = receipts s"
      by (simp_all add: s2_def s1_def upd_obj_def)
    have "b_nextClientSeq (objs s2 b) = Some (Suc x)" "receipts_inv s2"
      using o srv_inv_D(5) [OF i(1)] by (simp_all add: receipts_inv_def)
    then have k2: "keeps e b (Suc x) s2 ?t" unfolding t by (intro keeps_on_accepted)
    have ok1: "receiver_ok e b (Suc x) s2"
    proof -
      have "objs s2 q = objs s q" if "q \<noteq> b" for q using that by (simp add: s2_def s1_def upd_obj_def)
      moreover have "next_ref s2 = next_ref s" "acks e s2 = acks e s" by (simp_all add: s2_def s1_def upd_obj_def acks_def)
      moreover have "srv_inv s2" unfolding s2_def s1_def by (intro srv_inv_ops srv_inv_upd_obj i(1)) simp
      ultimately show ?thesis using ok o unfolding receiver_ok_def by (auto simp: less_Suc_eq_le dest: less_imp_le) fastforce+
    qed
    have "bound b s2 \<Longrightarrow> bound b s" by (simp add: s2_def s1_def upd_obj_def bound_def getBinding_def)
    then show ?thesis using receiver_ok_keeps [OF ok1 k2 inv] k2 True o(1) by (auto simp: keeps_def)
  next
    case False
    have "keeps e b x s ?t"
    proof (cases "getBinding (h_taskId h) s")
      case None
      then have "?t = snd (receipt_or Dropped w ago h s)"
        by (simp add: handle_task_frame_def acceptTaskFrame_def receipt_or_def split: prod.split)
      then show ?thesis using keeps_receipt_or [OF ok] by simp
    next
      case (Some r)
      show ?thesis
      proof (cases "b_executionId (objs s r) = Some e \<and> ownedBinding ago (h_taskId h) s = Some r")
        case True
        then have "r = b" using uniq Some by blast
        have own: "ago = Some (b_agentId (objs s b))" using True \<open>r = b\<close> Some by (auto simp: ownedBinding_def split: if_splits)
        have "bound b s" using Some \<open>r = b\<close> bind_inv_D(3) [OF i(2)] by (auto simp: bound_def getBinding_def)
        with k have "k < x" using False Some \<open>r = b\<close> own h ex unfolding acc_def accepted_iff by fastforce
        then have "?t = resumeBinding (h_taskId h) (b_agentId (objs s b)) (acknowledge w b s)"
          using True Some \<open>r = b\<close> h ex by (simp add: handle_task_frame_def acceptTaskFrame_def Let_def)
        moreover have "keeps e b x s (acknowledge w b s)" by (rule keeps_acknowledge [where y = x]) (simp add: ex)
        ultimately show ?thesis using keeps_trans keeps_ops(1) by metis
      next
        case f: False
        have "?t = s \<or> (\<exists>other. ?t = snd (receipt_or other w ago h s))"
          using f Some h by (auto simp: handle_task_frame_def acceptTaskFrame_def receipt_or_def ownedBinding_def
              split: option.split prod.split)
        then show ?thesis using keeps_receipt_or [OF ok] by auto
      qed
    qed
    then show ?thesis using receiver_ok_keeps [OF ok _ inv] False by (auto simp: keeps_def)
  qed
  then show "receiver_ok e b (if acc then Suc x else x) ?t" "bound b ?t \<Longrightarrow> bound b s"
    "b_taskId (objs ?t b) = b_taskId (objs s b)" by auto
qed

subsection \<open>Output only grows\<close>

definition grows :: "client \<Rightarrow> client \<Rightarrow> bool" where
  "grows c c' \<longleftrightarrow> prefix (c_out c) (c_out c')"

lemma grows_refl [simp]: "grows c c"
  by (simp add: grows_def)

lemma grows_trans: "grows c c' \<Longrightarrow> grows c' c'' \<Longrightarrow> grows c c''"
  using prefix_order.trans by (auto simp: grows_def)

lemma grows_same: "c_out c1 = c_out c \<Longrightarrow> grows c1 c' \<Longrightarrow> grows c c'"
  by (simp add: grows_def)

lemma grows_sent: "grows c c' \<Longrightarrow> prefix (sent_on e w c) (sent_on e w c')"
  by (auto simp: grows_def sent_on_def prefix_def map_filter_def)

lemma out_simple [simp]:
  "c_out (keep_pending op P c) = c_out c" "c_out (removePendingExecution op e c) = c_out c"
  "c_out (acknowledgeFrames op e n c) = c_out c" "c_out (dropPendingFrames c) = c_out c" "c_out (upd_run r f c) = c_out c"
  "c_out (suppress r c) = c_out c" "c_out (remove_run_pending op r c) = c_out c" "c_out (run_finished r c) = c_out c"
  "c_out (reset_fired w c) = c_out c" "c_out (on_pong w c) = c_out c" "c_out (on_cancel op t x c) = c_out c"
  by (simp_all add: keep_pending_def removePendingExecution_def acknowledgeFrames_def dropPendingFrames_def upd_run_def
      suppress_def remove_run_pending_def run_finished_def reset_fired_def on_pong_def on_cancel_def Let_def split: option.split)

lemma out_suppress_all [simp]: "c_out (suppress_all P c) = c_out c"
proof -
  have "c_out (fold (\<lambda>r c. if P (c_runs c r) then suppress r c else c) rs c) = c_out c" for rs
    by (induction rs arbitrary: c) simp_all
  then show ?thesis by (simp add: suppress_all_def)
qed

lemma grows_basic [simp]:
  "grows c (c_emit ef c)" "grows c (terminate_sock c)" "grows c (send_up f c)"
  "grows c (sendReliableFailureAndDisconnect op e t n m c)" "grows c (scheduleReconnect fl d c)" "grows c (connect c)"
  "grows c (reconnect_fired c)" "grows c (heartbeat_fired w c)" "grows c (send_failed w c)" "grows c (failure_flushed w c)"
  "grows c (send_hello op w card0 c)"
  by (simp_all add: grows_def c_emit_def terminate_sock_def send_up_def sendReliableFailureAndDisconnect_def
      scheduleReconnect_def connect_def reconnect_fired_def heartbeat_fired_def send_failed_def failure_flushed_def
      send_hello_def Let_def split: option.split)

lemma grows_stop [simp]: "grows c (stop c)"
  by (simp add: grows_def stop_def Let_def c_emit_def split: option.split)

lemma grows_negotiation: "grows c (negotiation_failed c)"
  unfolding negotiation_failed_def by (rule grows_trans [OF grows_stop grows_basic(1)])

lemma grows_close: "grows c (client_on_close op w code reason delay c)"
proof -
  have "c_out c1 = c_out c \<Longrightarrow> grows c (scheduleReconnect fl delay c1)" for fl c1
    using grows_basic(5) [of c1 fl delay] by (simp add: grows_def)
  then show ?thesis by (auto simp: client_on_close_def Let_def grows_def c_emit_def)
qed

lemma grows_failRun: "grows c (failReliableRun op r d c)"
  using grows_basic(2) [of "remove_run_pending op r (suppress r c)"]
  by (auto simp: failReliableRun_def Let_def grows_def)

lemma grows_expire_one: "grows c (expire_one op e c)"
  using grows_same [OF out_simple(2) grows_basic(2)] by (simp add: expire_one_def grows_failRun split: option.split)

lemma grows_expire: "grows c (expirePendingFrames op c)"
proof -
  have "grows c (fold (expire_one op) es c)" for es
    by (induction es arbitrary: c) (auto intro: grows_trans grows_expire_one)
  then show ?thesis by (auto simp: expirePendingFrames_def Let_def grows_def)
qed

lemma grows_flush_from: "grows c (flush_from op w ps c)"
proof (induction ps arbitrary: c)
  case (Cons p ps)
  have "grows c (case run_of_execution e c of Some r \<Rightarrow> failReliableRun op r False c | None \<Rightarrow> removePendingExecution op e c)" for e
    by (simp add: grows_failRun split: option.split) (simp add: grows_def)
  from grows_trans [OF this grows_basic(4)] grows_trans [OF grows_basic(1) Cons.IH] show ?case by simp
qed simp

lemma grows_flush: "grows c (flushPendingFrames op w c)"
  using grows_expire grows_trans [OF grows_expire grows_flush_from] by (simp add: flushPendingFrames_def Let_def)

lemma grows_send: "grows c (sendTaskFrame op r body c)"
proof (cases "ru_suppressed (c_runs c r) \<or> ru_executionId (c_runs c r) = None")
  case True
  then show ?thesis by (cases "ru_suppressed (c_runs c r)") (simp_all add: sendTaskFrame_def Let_def)
next
  case False
  then obtain e where e: "\<not> ru_suppressed (c_runs c r)" "ru_executionId (c_runs c r) = Some e" by auto
  have "grows c (send_up f c2)" "grows c (sendReliableFailureAndDisconnect op e' t n m c2)" if "c_out c2 = c_out c" for f c2 e' t n m
    using grows_same [OF that] by simp_all
  then show ?thesis unfolding sendTaskFrame_reliable [OF e] Let_def by (auto simp: grows_def)
qed

lemma grows_start: "grows c (start_run op a c)"
proof -
  define c1 where "c1 = (case map_of (c_inflight c) (as_taskId a) of None \<Rightarrow> c
    | Some q \<Rightarrow> remove_run_pending op q (suppress q c))"
  have "c_out c1 = c_out c" by (simp add: c1_def split: option.split)
  then show ?thesis by (simp add: start_run_def Let_def c1_def [symmetric] grows_def c_emit_def)
qed

lemma grows_message: "grows c (client_on_message op w f c)"
proof -
  have "grows c (on_hello_ack op w caps mx c)" for caps mx
    unfolding on_hello_ack_def Let_def
    using grows_same [OF _ grows_negotiation] grows_same [OF _ grows_flush] by (simp add: grows_def)
  moreover have "grows c (on_assign op a c)" for a
    unfolding on_assign_def Let_def using grows_negotiation grows_start grows_same [OF _ grows_start] by simp
  ultimately show ?thesis by (simp add: client_on_message_def split: down_frame.split) (simp add: grows_def)
qed

lemma grows_do: "grows c (client_do op delay ev c)"
proof (cases ev)
  case Expiry
  then show ?thesis using grows_same [OF _ grows_expire, of "c\<lparr>c_expiry := None\<rparr>" c] by simp
qed (simp_all add: grows_message grows_send grows_close, simp_all add: grows_def)

subsection \<open>Runs keep their task\<close>

definition same_tasks :: "client \<Rightarrow> client \<Rightarrow> bool" where
  "same_tasks c c' \<longleftrightarrow>
     c_nextRun c \<le> c_nextRun c' \<and> (\<forall>q < c_nextRun c. ru_taskId (c_runs c' q) = ru_taskId (c_runs c q))"

lemma same_tasks_refl [simp]: "same_tasks c c"
  by (simp add: same_tasks_def)

lemma same_tasks_trans: "same_tasks c c' \<Longrightarrow> same_tasks c' c'' \<Longrightarrow> same_tasks c c''"
  unfolding same_tasks_def using less_le_trans le_trans by metis

lemma same_tasks_fields: "c_runs c' = c_runs c \<Longrightarrow> c_nextRun c' = c_nextRun c \<Longrightarrow> same_tasks c c'"
  by (simp add: same_tasks_def)

lemma same_tasks_upd: "ru_taskId (f (c_runs c q)) = ru_taskId (c_runs c q) \<Longrightarrow> same_tasks c (upd_run q f c)"
  by (simp add: same_tasks_def)

lemma same_tasks_suppress [simp]: "same_tasks c (suppress q c)"
  unfolding suppress_def by (rule same_tasks_upd) simp

lemma same_tasks_suppress_all [simp]: "same_tasks c (suppress_all P c)"
proof -
  have "same_tasks c (fold (\<lambda>r c. if P (c_runs c r) then suppress r c else c) rs c)" for rs
    by (induction rs arbitrary: c) (auto intro: same_tasks_trans [OF same_tasks_suppress])
  then show ?thesis by (simp add: suppress_all_def)
qed

lemma same_tasks_more:
  assumes "same_tasks c c'" and "c_runs c'' = c_runs c'" and "c_nextRun c'' = c_nextRun c'"
  shows "same_tasks c c''"
  using assms by (simp add: same_tasks_def)

lemma same_tasks_failRun: "same_tasks c (failReliableRun op q d c)"
  by (simp add: failReliableRun_def Let_def same_tasks_more [OF same_tasks_suppress [of c q]])

lemma same_tasks_expire_one: "same_tasks c (expire_one op e c)"
  by (simp add: expire_one_def same_tasks_failRun same_tasks_fields removePendingExecution_def split: option.split)

lemma same_tasks_expire: "same_tasks c (expirePendingFrames op c)"
proof -
  have "same_tasks c (fold (expire_one op) es c)" for es
    by (induction es arbitrary: c) (auto intro: same_tasks_trans same_tasks_expire_one)
  from same_tasks_trans [OF this same_tasks_fields] show ?thesis by (simp add: expirePendingFrames_def Let_def)
qed

lemma same_tasks_flush_from: "same_tasks c (flush_from op w ps c)"
proof (induction ps arbitrary: c)
  case (Cons p ps)
  have "same_tasks c (case run_of_execution e c of Some r \<Rightarrow> failReliableRun op r False c | None \<Rightarrow> removePendingExecution op e c)" for e
    by (simp add: same_tasks_failRun same_tasks_fields removePendingExecution_def split: option.split)
  then have "same_tasks c (sendReliableFailureAndDisconnect op e' t n m
      (case run_of_execution e c of Some r \<Rightarrow> failReliableRun op r False c | None \<Rightarrow> removePendingExecution op e c))" for e e' t n m
    by (rule same_tasks_more) simp_all
  moreover have "same_tasks c (flush_from op w ps (c_emit ef c))" for ef
    by (rule same_tasks_trans [OF same_tasks_fields Cons.IH]) simp_all
  ultimately show ?case by simp
qed simp

lemma same_tasks_flush: "same_tasks c (flushPendingFrames op w c)"
  using same_tasks_expire same_tasks_trans [OF same_tasks_expire same_tasks_flush_from]
  by (simp add: flushPendingFrames_def Let_def)

lemma same_tasks_stop [simp]: "same_tasks c (stop c)"
proof -
  let ?c0 = "c\<lparr>c_stopped := True, c_reconnectTimer := False, c_awaitingPong := False\<rparr>"
  have "same_tasks c (suppress_all (\<lambda>_. True) ?c0)"
    by (rule same_tasks_trans [OF same_tasks_fields same_tasks_suppress_all]) simp_all
  then have "same_tasks c (dropPendingFrames (suppress_all (\<lambda>_. True) ?c0))" by (rule same_tasks_more) simp_all
  then show ?thesis by (auto simp: stop_def Let_def intro: same_tasks_more split: option.split)
qed

lemma same_tasks_negotiation: "same_tasks c (negotiation_failed c)"
  by (rule same_tasks_more [OF same_tasks_stop]) (simp_all add: negotiation_failed_def)

lemma same_tasks_close: "same_tasks c (client_on_close op w code reason delay c)"
proof -
  let ?c1 = "c\<lparr>c_sock := None, c_open := False, c_approvalsReady := False, c_awaitingPong := False\<rparr>"
  let ?c2 = "suppress_all (\<lambda>r. \<not> (ru_executionId r \<noteq> None \<and> pendingRetentionEnabled op)) ?c1"
  have c2: "same_tasks c ?c2" by (rule same_tasks_trans [OF same_tasks_fields same_tasks_suppress_all]) simp_all
  have "same_tasks ?c2 (suppress_all (\<lambda>_. True) (?c2\<lparr>c_stopped := True, c_reconnectTimer := False\<rparr>))"
    by (rule same_tasks_trans [OF same_tasks_fields same_tasks_suppress_all]) simp_all
  from same_tasks_more [OF same_tasks_trans [OF c2 this]] same_tasks_more [OF c2] show ?thesis
    by (simp add: client_on_close_def Let_def)
qed

lemma same_tasks_start: "same_tasks c (start_run op a c)"
proof -
  define c1 where "c1 = (case map_of (c_inflight c) (as_taskId a) of None \<Rightarrow> c
    | Some q \<Rightarrow> remove_run_pending op q (suppress q c))"
  have "same_tasks c c1"
    by (simp add: c1_def same_tasks_more [OF same_tasks_suppress] split: option.split)
  then show ?thesis by (auto simp: start_run_def Let_def c1_def [symmetric] same_tasks_def)
qed

lemma same_tasks_send: "same_tasks c (sendTaskFrame op q body c)"
proof (cases "ru_suppressed (c_runs c q) \<or> ru_executionId (c_runs c q) = None")
  case True
  then show ?thesis
    by (cases "ru_suppressed (c_runs c q)") (simp_all add: sendTaskFrame_def Let_def same_tasks_fields)
next
  case False
  then obtain e where e: "\<not> ru_suppressed (c_runs c q)" "ru_executionId (c_runs c q) = Some e" by auto
  have u: "same_tasks c (upd_run q next_seq c)" by (rule same_tasks_upd) simp
  have f: "same_tasks c (remove_run_pending op q (suppress q (upd_run q next_seq c)))"
    by (rule same_tasks_more [OF same_tasks_trans [OF u same_tasks_suppress [of _ q]]]) simp_all
  show ?thesis unfolding sendTaskFrame_reliable [OF e] Let_def
    using same_tasks_more [OF u] same_tasks_more [OF f] u by simp
qed

lemma same_tasks_message: "same_tasks c (client_on_message op w f c)"
proof -
  have "same_tasks c (on_hello_ack op w caps mx c)" for caps mx
    unfolding on_hello_ack_def Let_def
    using same_tasks_trans [OF same_tasks_fields same_tasks_negotiation] same_tasks_trans [OF same_tasks_fields same_tasks_flush]
    by (simp add: same_tasks_fields)
  moreover have "same_tasks c (on_assign op a c)" for a
    unfolding on_assign_def Let_def
    using same_tasks_negotiation same_tasks_start same_tasks_trans [OF same_tasks_fields same_tasks_start] by simp
  moreover have "same_tasks c (on_cancel op t x c)" for t x
    by (auto simp: on_cancel_def Let_def same_tasks_def removePendingExecution_def split: option.split)
  ultimately show ?thesis
    by (simp add: client_on_message_def same_tasks_fields acknowledgeFrames_def split: down_frame.split)
qed

lemma same_tasks_do: "same_tasks c (client_do op delay ev c)"
proof (cases ev)
  case Expiry
  then show ?thesis using same_tasks_trans [OF same_tasks_fields same_tasks_expire, of "c\<lparr>c_expiry := None\<rparr>" c] by simp
qed (simp_all add: same_tasks_message same_tasks_send same_tasks_close same_tasks_fields run_finished_def Let_def)

subsection \<open>The link\<close>

text \<open>\<open>lk_sent\<close> records what the run numbered, \<open>lk_got\<close> what the server accepted, both in order;
  \<open>lk_done w\<close> counts the frames of the run that arrived from socket \<open>w\<close>.\<close>

record link =
  lk_client :: client
  lk_srv :: srv
  lk_sent :: "task_body list"
  lk_got :: "task_body list"
  lk_done :: "nat \<Rightarrow> nat"

text \<open>The client receives only acknowledgements that the server sent, and negotiates a frame size no
  smaller than what it retains.\<close>

definition link_can :: "client_opts \<Rightarrow> string \<Rightarrow> rref \<Rightarrow> client_event \<Rightarrow> link \<Rightarrow> bool" where
  "link_can op e r ev L \<longleftrightarrow>
     (case ev of
        Message w (HelloAck caps grace mx) \<Rightarrow> pendingByteLimit op \<le> mx
      | Message w (TaskAck t e' m) \<Rightarrow> e' = e \<longrightarrow> m \<in> acks e (lk_srv L)
      | Emits q body \<Rightarrow> q = r \<longrightarrow> inflight r (lk_client L)
      | _ \<Rightarrow> True)"

text \<open>A frame of a socket arrives after the earlier ones of that socket or not at all: a lost connection
  loses the rest. It arrives on a connection of the agent that runs the
  task, and anything else may happen at the server that accepts no frame of this execution.\<close>

inductive link_step ::
    "client_opts \<Rightarrow> (nat \<Rightarrow> int) \<Rightarrow> string \<Rightarrow> rref \<Rightarrow> bref \<Rightarrow> link \<Rightarrow> link \<Rightarrow> bool" for op delay e r b where
  client: "client_can ev (lk_client L) \<Longrightarrow> link_can op e r ev L \<Longrightarrow>
     link_step op delay e r b L
       (L\<lparr>lk_client := client_do op delay ev (lk_client L),
          lk_sent := lk_sent L @ history_after op r ev (lk_client L)\<rparr>)"
| arrives: "lk_done L w < length (sent_on e w (lk_client L)) \<Longrightarrow>
     sent_on e w (lk_client L) ! lk_done L w = (k, body) \<Longrightarrow>
     h = \<lparr>h_taskId = ru_taskId (c_runs (lk_client L) r), h_executionId = Some e, h_seq = Some k\<rparr> \<Longrightarrow>
     ago = Some (b_agentId (objs (lk_srv L) b)) \<Longrightarrow>
     link_step op delay e r b L
       (L\<lparr>lk_srv := handle_task_frame ws ago h body (lk_srv L),
          lk_got := lk_got L @ (if fst (acceptTaskFrame ws ago h (lk_srv L)) = Accepted b then [body] else []),
          lk_done := (lk_done L)(w := Suc (lk_done L w))\<rparr>)"
| server: "keeps e b (length (lk_got L)) (lk_srv L) s \<Longrightarrow> srv_inv s \<Longrightarrow>
     link_step op delay e r b L (L\<lparr>lk_srv := s\<rparr>)"

definition link_init :: "client_opts \<Rightarrow> string \<Rightarrow> rref \<Rightarrow> bref \<Rightarrow> link \<Rightarrow> bool" where
  "link_init op e r b L \<longleftrightarrow>
     client_inv op (lk_client L) \<and> r < c_nextRun (lk_client L) \<and>
     ru_executionId (c_runs (lk_client L) r) = Some e \<and> ru_nextSeq (c_runs (lk_client L) r) = 0 \<and>
     (\<forall>w. sent_on e w (lk_client L) = []) \<and>
     (\<forall>m. c_maxFrameBytes (lk_client L) = Some m \<longrightarrow> pendingByteLimit op \<le> m) \<and>
     receiver_ok e b 0 (lk_srv L) \<and>
     b_taskId (objs (lk_srv L) b) = ru_taskId (c_runs (lk_client L) r) \<and> lk_sent L = [] \<and> lk_got L = [] \<and> lk_done L = (\<lambda>_. 0)"

definition link_ok :: "client_opts \<Rightarrow> string \<Rightarrow> rref \<Rightarrow> bref \<Rightarrow> link \<Rightarrow> bool" where
  "link_ok op e r b L \<longleftrightarrow>
     client_inv op (lk_client L) \<and>
     sender_ok op e r (length (lk_got L)) (lk_sent L) (lk_client L) \<and>
     receiver_ok e b (length (lk_got L)) (lk_srv L) \<and>
     b_taskId (objs (lk_srv L) b) = ru_taskId (c_runs (lk_client L) r) \<and>
     prefix (lk_got L) (lk_sent L) \<and>
     (\<forall>w. lk_done L w \<le> length (sent_on e w (lk_client L))) \<and>
     (bound b (lk_srv L) \<longrightarrow>
       (\<forall>w. \<forall>k \<in> set (take (lk_done L w) (map fst (sent_on e w (lk_client L)))). k < length (lk_got L)))"

lemma link_ok_D:
  assumes "link_ok op e r b L"
  shows "client_inv op (lk_client L)" "sender_ok op e r (length (lk_got L)) (lk_sent L) (lk_client L)"
    "receiver_ok e b (length (lk_got L)) (lk_srv L)" "prefix (lk_got L) (lk_sent L)"
    "lk_done L w \<le> length (sent_on e w (lk_client L))"
    "b_taskId (objs (lk_srv L) b) = ru_taskId (c_runs (lk_client L) r)"
    "bound b (lk_srv L) \<Longrightarrow> k \<in> set (take (lk_done L w) (map fst (sent_on e w (lk_client L)))) \<Longrightarrow> k < length (lk_got L)"
  using assms by (auto simp: link_ok_def)

lemma link_init_ok:
  assumes "link_init op e r b L"
  shows "link_ok op e r b L"
proof -
  let ?c = "lk_client L"
  have i: "client_inv op ?c" "run_inv op ?c" using assms by (simp_all add: link_init_def client_inv_def)
  have r: "r < c_nextRun ?c" "ru_executionId (c_runs ?c r) = Some e" "ru_nextSeq (c_runs ?c r) = 0"
    using assms by (simp_all add: link_init_def)
  have p: "pend_of e ?c = []" using run_inv_D(6) [OF i(2) r(1,2)] r(3) by (auto simp: contiguous_def)
  then have "kept_from e r 0 [] ?c" by (simp add: kept_from_def)
  then have "sender_ok op e r 0 [] ?c"
    using assms p r by (auto simp: sender_ok_def sender_base_def caught_up_def link_init_def)
  then show ?thesis using assms i by (simp add: link_ok_def link_init_def)
qed

text \<open>The next frame to arrive is no gap.\<close>

lemma link_next:
  assumes L: "link_ok op e r b L" and b: "bound b (lk_srv L)" and d: "lk_done L w < length (sent_on e w (lk_client L))"
  shows "fst (sent_on e w (lk_client L) ! lk_done L w) \<le> length (lk_got L)"
proof -
  have ng: "no_gap (length (lk_got L)) (map fst (sent_on e w (lk_client L)))"
    using link_ok_D(2) [OF L] sender_base_D(5) by (auto simp: sender_ok_def)
  have "map fst (sent_on e w (lk_client L)) ! lk_done L w \<le> length (lk_got L)"
    by (rule no_gap_next [OF ng]) (use d link_ok_D(7) [OF L b] in simp_all)
  with d show ?thesis by simp
qed

lemma prefix_snoc_nth:
  assumes "prefix xs ys" and "length xs < length ys"
  shows "prefix (xs @ [ys ! length xs]) ys"
proof -
  obtain zs where zs: "ys = xs @ zs" using assms(1) by (auto simp: prefix_def)
  with assms(2) obtain z zs' where "zs = z # zs'" by (cases zs) auto
  with zs show ?thesis by simp
qed

lemma receiver_next_accepted:
  assumes "receiver_ok e b x s" and "bound b s" and "h_taskId h = b_taskId (objs s b)" "h_executionId h = Some e" "h_seq h = Some x"
  shows "fst (acceptTaskFrame ws (Some (b_agentId (objs s b))) h s) = Accepted b"
  using assms unfolding accepted_iff by (simp add: receiver_ok_def bound_def)

lemma receiver_ids:
  "keeps e b x s t \<Longrightarrow> b_taskId (objs t b) = b_taskId (objs s b)"
  by (simp add: keeps_def)

lemma link_step_ok:
  assumes L: "link_ok op e r b L" and st: "link_step op delay e r b L L'" and ret: "pendingRetentionEnabled op"
  shows "link_ok op e r b L'"
  using st
proof (cases rule: link_step.cases)
  case (client ev)
  let ?c = "lk_client L" and ?x = "length (lk_got L)"
  have ok: "event_ok op e r ?x ev ?c"
    using client(3) link_ok_D(3) [OF L]
    by (auto simp: link_can_def event_ok_def receiver_ok_def split: client_event.splits down_frame.splits)
  have pre: "prefix (sent_on e w ?c) (sent_on e w (client_do op delay ev ?c))" for w
    by (rule grows_sent [OF grows_do])
  have tk: "take n (map fst (sent_on e w (client_do op delay ev ?c))) = take n (map fst (sent_on e w ?c))"
    if "n \<le> length (sent_on e w ?c)" for n w
    using pre [of w] that by (auto simp: prefix_def)
  have r: "r < c_nextRun ?c" using link_ok_D(2) [OF L] sender_base_D(1) by (auto simp: sender_ok_def)
  have task: "ru_taskId (c_runs (client_do op delay ev ?c) r) = ru_taskId (c_runs ?c r)"
    using same_tasks_do [of ?c op delay ev] r by (simp add: same_tasks_def)
  have len: "lk_done L w \<le> length (sent_on e w (client_do op delay ev ?c))" for w
    using link_ok_D(5) [OF L, of w] prefix_length_le [OF pre [of w]] by linarith
  show ?thesis
    unfolding link_ok_def client(1)
    using client_do_inv [OF client(2) link_ok_D(1) [OF L]] sender_ok_do [OF link_ok_D(1,2) [OF L] client(2) ok ret]
      link_ok_D(3,4,6,7) [OF L] tk [OF link_ok_D(5) [OF L]] len task by simp
next
  case (arrives w k body h ago ws)
  let ?c = "lk_client L" and ?x = "length (lk_got L)"
  let ?acc = "fst (acceptTaskFrame ws ago h (lk_srv L)) = Accepted b"
  let ?t = "handle_task_frame ws ago h body (lk_srv L)"
  have k: "bound b (lk_srv L) \<longrightarrow> k \<le> ?x" using link_next [OF L _ arrives(2)] arrives(3) by simp
  have h: "h_executionId h = Some e" "h_seq h = Some k" "h_taskId h = b_taskId (objs (lk_srv L) b)"
    using arrives(4) link_ok_D(6) [OF L] by simp_all
  note rs = receiver_step [OF link_ok_D(3) [OF L] k h(1,2), of ws ago]
  have mem: "(k, body) \<in> set (sent_on e w ?c)" using arrives(2,3) by (metis nth_mem)
  have H: "k < length (lk_sent L)" "body = lk_sent L ! k"
    using link_ok_D(2) [OF L] sender_base_D(6) [of op e r ?x "lk_sent L" ?c "(k, body)" w] mem by (simp_all add: sender_ok_def)
  define x' where "x' = (if ?acc then Suc ?x else ?x)"
  have got: "length (lk_got L @ (if ?acc then [body] else [])) = x'" by (simp add: x'_def)
  have pre: "prefix (lk_got L @ (if ?acc then [body] else [])) (lk_sent L)"
    using prefix_snoc_nth [OF link_ok_D(4) [OF L]] H rs(2) link_ok_D(4) [OF L] by auto
  have snd: "sender_ok op e r x' (lk_sent L) ?c" using sender_ok_mono [OF link_ok_D(2) [OF L]] by (simp add: x'_def)
  have seen: "j < x'" if bt: "bound b ?t"
    and j: "j \<in> set (take (((lk_done L)(w := Suc (lk_done L w))) w') (map fst (sent_on e w' ?c)))" for j w'
  proof -
    have bs: "bound b (lk_srv L)" using rs(3) bt .
    have "k < x'"
    proof (cases "k = ?x")
      case True
      then have ?acc using receiver_next_accepted [OF link_ok_D(3) [OF L] bs h(3,1)] h(2) arrives(5) by simp
      then show ?thesis using True by (simp add: x'_def)
    qed (use k bs in \<open>simp add: x'_def\<close>)
    moreover have "j = k \<or> j \<in> set (take (lk_done L w') (map fst (sent_on e w' ?c)))"
      using j arrives(2,3) by (cases "w' = w") (simp_all add: take_Suc_conv_app_nth)
    moreover have "?x \<le> x'" by (simp add: x'_def)
    ultimately show ?thesis using link_ok_D(7) [OF L bs, of j w'] by auto
  qed
  show ?thesis
    unfolding link_ok_def arrives(1)
    using link_ok_D(1,5) [OF L] snd rs(1,4) got pre seen link_ok_D(6) [OF L] arrives(2)
    by (simp add: x'_def Suc_le_eq)
next
  case (server s)
  then show ?thesis
    unfolding link_ok_def using receiver_ok_keeps [OF link_ok_D(3) [OF L] server(2,3)] link_ok_D [OF L]
    by (auto simp: keeps_def)
qed

interpretation link: invariant_system "link_init op e r b" "\<lambda>L L'. pendingRetentionEnabled op \<and> link_step op delay e r b L L'"
    "link_ok op e r b" for op delay e r b
  using link_init_ok link_step_ok by unfold_locales blast+

lemma link_reachable:
  assumes "pendingRetentionEnabled op" and "link_init op e r b L0" and "(link_step op delay e r b)\<^sup>*\<^sup>* L0 L"
  shows "link_ok op e r b L"
  using link.reachable_inv [of op e r b L0 delay L] assms by simp

text \<open>Claim C1. Replay delivers every frame exactly once and in order. Start with a run that has sent
  nothing and its binding; let the client and the server take any steps, with connections
  dropped, reopened and replayed, frames lost or delivered twice, and any other traffic in
  between. Then the bodies the server accepted are a prefix of the bodies the run produced; the
  next frame to arrive never leaves a gap while the task is bound; and whenever everything
  sent on the current connection has arrived, the server has everything the run produced.\<close>

theorem exactly_once_in_order:
  assumes ret: "pendingRetentionEnabled op" and init: "link_init op e r b L0"
    and steps: "(link_step op delay e r b)\<^sup>*\<^sup>* L0 L"
  shows "prefix (lk_got L) (lk_sent L) \<and>
    (\<forall>w. bound b (lk_srv L) \<and> lk_done L w < length (sent_on e w (lk_client L)) \<longrightarrow>
       fst (sent_on e w (lk_client L) ! lk_done L w) \<le> length (lk_got L)) \<and>
    (\<forall>w. bound b (lk_srv L) \<and> linked w (lk_client L) \<and> inflight r (lk_client L) \<and>
       \<not> ru_suppressed (c_runs (lk_client L) r) \<and> lk_done L w = length (sent_on e w (lk_client L)) \<longrightarrow>
       lk_got L = lk_sent L)"
proof -
  have L: "link_ok op e r b L" by (rule link_reachable [OF ret init steps])
  have "lk_got L = lk_sent L"
    if w: "bound b (lk_srv L)" "linked w (lk_client L)" "inflight r (lk_client L)" "\<not> ru_suppressed (c_runs (lk_client L) r)"
      "lk_done L w = length (sent_on e w (lk_client L))" for w
  proof -
    let ?ks = "map fst (sent_on e w (lk_client L))"
    have "length (lk_sent L) \<le> reach (length (lk_got L)) ?ks" by (rule next_is_no_gap [OF link_ok_D(2) [OF L] w(3,4,2)])
    also have "\<dots> = length (lk_got L)" by (rule reach_all_below) (use link_ok_D(7) [OF L w(1), of _ w] w(5) in simp)
    finally show ?thesis using link_ok_D(4) [OF L] by (auto simp: prefix_def)
  qed
  then show ?thesis using link_ok_D(4) [OF L] link_next [OF L] by blast
qed

text \<open>A client with a live task and its server, one frame later.\<close>

definition link_client :: client where
  "link_client =
     client_on_message sample_opts 0 (TaskAssign (sample_assign\<lparr>as_taskId := ''t'', as_executionId := Some ''e''\<rparr>))
       (client_on_message sample_opts 0 (HelloAck [TASK_REPLAY_CAPABILITY] 30000 MAX_INGRESS_BYTES)
         (client_on_open sample_opts 0 (connect (new_client 0 (\<lambda>_. sample_run)))))"

definition link_start :: link where
  "link_start = \<lparr>lk_client = link_client, lk_srv = sample_srv\<lparr>objs := (\<lambda>_. sample_binding\<lparr>b_nextClientSeq := Some 0\<rparr>)\<rparr>,
     lk_sent = [], lk_got = [], lk_done = (\<lambda>_. 0)\<rparr>"

definition link_step1 :: link where
  "link_step1 = link_start\<lparr>lk_client := client_do sample_opts (\<lambda>_. 1000) (Emits 0 (FailB ''x'' ''y'')) link_client,
     lk_sent := [FailB ''x'' ''y'']\<rparr>"

definition link_step2 :: link where
  "link_step2 = link_step1\<lparr>lk_srv := handle_task_frame 1 (Some ''a'') (sample_hdr 0) (FailB ''x'' ''y'') (lk_srv link_start),
     lk_got := [FailB ''x'' ''y''], lk_done := (\<lambda>_. 0)(0 := 1)\<rparr>"

lemmas link_eval = client_eval client_on_open_def on_hello_ack_def flushPendingFrames_def expirePendingFrames_def
  caps_include_def flush_from.simps link_client_def Let_def

lemma link_client_facts:
  "c_nextRun link_client = 1" "ru_executionId (c_runs link_client 0) = Some ''e''"
  "ru_taskId (c_runs link_client 0) = ''t''"
  "ru_nextSeq (c_runs link_client 0) = 0" "c_maxFrameBytes link_client = Some MAX_INGRESS_BYTES" "inflight 0 link_client"
  "sent_on e w link_client = []"
  by (simp_all add: link_eval inflight_def sent_on_def)

lemma link_client_inv: "client_inv sample_opts link_client"
proof -
  let ?d = "\<lambda>_. 1000"
  let ?ev = "Message 0 (TaskAssign (sample_assign\<lparr>as_taskId := ''t'', as_executionId := Some ''e''\<rparr>))"
  let ?c1 = "connect (new_client 0 (\<lambda>_. sample_run))"
  let ?c2 = "client_on_open sample_opts 0 ?c1"
  let ?c3 = "client_on_message sample_opts 0 (HelloAck [TASK_REPLAY_CAPABILITY] 30000 MAX_INGRESS_BYTES) ?c2"
  have i0: "client_inv sample_opts (new_client 0 (\<lambda>_. sample_run))" using cl.reachable_inv by blast
  have i1: "client_inv sample_opts ?c1" using client_do_inv [OF _ i0, of Start ?d] by simp
  have i2: "client_inv sample_opts ?c2" using client_do_inv [OF _ i1, of "Opened 0" ?d]
    by (auto simp: client_eval)
  have i3: "client_inv sample_opts ?c3"
    using client_do_inv [OF _ i2, of "Message 0 (HelloAck [TASK_REPLAY_CAPABILITY] 30000 MAX_INGRESS_BYTES)" ?d]
    by (simp add: frame_fresh_def)
  have "c_nextRun ?c3 = 0" by (simp add: link_eval)
  then show ?thesis
    using client_do_inv [OF _ i3, of ?ev ?d] by (simp add: link_client_def frame_fresh_def fresh_execution_def)
qed

lemma link_start_init: "link_init sample_opts ''e'' 0 0 link_start"
proof -
  have l: "pendingByteLimit sample_opts \<le> MAX_INGRESS_BYTES"
    by (simp add: client_eval MAX_INGRESS_BYTES_def)
  have s: "receiver_ok ''e'' 0 0 (lk_srv link_start)" and t: "b_taskId (objs (lk_srv link_start) 0) = ''t''"
    by (simp_all add: link_start_def receiver_ok_def acks_def sample_defs srv_inv_def bind_inv_def queue_inv_def
        appr_inv_def agents_inv_def receipts_inv_def)
  show ?thesis
    unfolding link_init_def using s t l link_client_inv link_client_facts by (simp add: link_start_def)
qed

lemma link_start_steps: "(link_step sample_opts (\<lambda>_. 1000) ''e'' 0 0)\<^sup>*\<^sup>* link_start link_step2"
proof -
  let ?s = "link_step sample_opts (\<lambda>_. 1000) ''e'' 0 0"
  let ?b = "FailB ''x'' ''y''"
  have h: "history_after sample_opts 0 (Emits 0 ?b) link_client = [?b]"
    by (simp add: history_after_def numbered_def link_eval MAX_INGRESS_BYTES_def)
  have s1: "?s link_start link_step1"
    using link_step.client [of "Emits 0 ?b" link_start sample_opts "''e''" 0 "\<lambda>_. 1000" 0] h link_client_facts
    by (simp add: link_step1_def link_start_def link_can_def)
  have snt: "sent_on ''e'' 0 (lk_client link_step1) = [(0, ?b)]"
    by (simp add: link_step1_def link_start_def link_eval sent_on_def map_filter_simps MAX_INGRESS_BYTES_def seq_frame_def send_up_def)
  have t: "ru_taskId (c_runs (lk_client link_step1) 0) = ''t''"
    by (simp add: link_step1_def link_start_def link_eval MAX_INGRESS_BYTES_def)
  have acc: "fst (acceptTaskFrame 1 (Some ''a'') (sample_hdr 0) (lk_srv link_step1)) = Accepted 0"
    unfolding accepted_iff by (simp add: link_step1_def link_start_def sample_hdr_def sample_defs getBinding_def)
  have "?s link_step1 link_step2"
    using link_step.arrives [of link_step1 0 "''e''" 0 ?b "sample_hdr 0" 0 "Some ''a''" 0 sample_opts "\<lambda>_. 1000" 1] snt t acc
    by (simp add: link_step1_def link_step2_def link_start_def sample_hdr_def sample_defs)
  with s1 show ?thesis by auto
qed

lemma exactly_once_in_order_witness:
  "lk_got link_step2 = [FailB ''x'' ''y''] \<and> prefix (lk_got link_step2) (lk_sent link_step2)"
proof
  show "lk_got link_step2 = [FailB ''x'' ''y'']" by (simp add: link_step2_def)
  have "pendingRetentionEnabled sample_opts" by (simp add: client_eval)
  then show "prefix (lk_got link_step2) (lk_sent link_step2)"
    using exactly_once_in_order [OF _ link_start_init link_start_steps] by blast
qed

end
