(* ===== verification/Federated.thy ===== *)
theory Federated
  imports Text Wire
begin

text \<open>
  The identity of a federated caller (packages/protocol/src/federated-principal.ts): a tuple of issuer,
  method and subject written with length prefixes. A principal string decides which grant and which
  execution environment a caller gets, so the encoding is proved reversible and free of collisions.
\<close>

subsection \<open>Encoding\<close>

record federated =
  fp_issuer :: string
  fp_method :: string
  fp_subject :: string

definition FEDERATED_PREFIX :: string where "FEDERATED_PREFIX = ''federated:v1:''"
definition MAX_FEDERATED_PRINCIPAL_BYTES :: nat where "MAX_FEDERATED_PRINCIPAL_BYTES = 512"
definition MAX_SAFE_INTEGER :: nat where "MAX_SAFE_INTEGER = 9007199254740991"

definition component :: "string \<Rightarrow> string" where
  "component v = string_of_nat (length v) @ '':'' @ v"

definition formatFederatedPrincipal :: "federated \<Rightarrow> string option" where
  "formatFederatedPrincipal t =
     (let issuer = js_trim (fp_issuer t); method = js_trim (fp_method t); subject = js_trim (fp_subject t)
      in if issuer \<noteq> fp_issuer t \<or> method \<noteq> fp_method t \<or> subject \<noteq> fp_subject t then None
         else if \<not> startsWith issuer ''did:web:'' \<or> method = [] \<or> subject = [] then None
         else if has_space issuer then None
         else if js_length issuer > 512 \<or> js_length method > 256 \<or> js_length subject > 512 then None
         else (let encoded = FEDERATED_PREFIX @ component issuer @ component method @ component subject
               in if length encoded \<le> MAX_FEDERATED_PRINCIPAL_BYTES then Some encoded else None))"

subsection \<open>Decoding\<close>

text \<open>The loop over the code points of the body; \<open>n\<close> is what is left of the byte length.\<close>

fun take_points :: "nat \<Rightarrow> string list \<Rightarrow> string list option" where
  "take_points n [] = None"
| "take_points n (p # ps) =
     (if length p > n then None
      else if length p = n then Some [p]
      else map_option ((#) p) (take_points (n - length p) ps))"

definition takeLengthPrefixed :: "string \<Rightarrow> (string \<times> string) option" where
  "takeLengthPrefixed input =
     (let rawLength = takeWhile (\<lambda>c. c \<noteq> CHR '':'') input
      in if CHR '':'' \<notin> set input \<or> rawLength = [] then None
         else if \<not> is_decimal rawLength then None
         else (let byteLength = nat_of_string rawLength; body = drop (length rawLength + 1) input
               in if byteLength > MAX_SAFE_INTEGER \<or> byteLength = 0 then None
                  else (case take_points byteLength (points body) of
                          None \<Rightarrow> None
                        | Some ps \<Rightarrow> Some (concat ps, drop (length (concat ps)) body))))"

definition parseFederatedPrincipal :: "string \<Rightarrow> federated option" where
  "parseFederatedPrincipal v =
     (if \<not> startsWith v FEDERATED_PREFIX then None
      else (case takeLengthPrefixed (drop (length FEDERATED_PREFIX) v) of None \<Rightarrow> None | Some (issuer, rest1) \<Rightarrow>
           (case takeLengthPrefixed rest1 of None \<Rightarrow> None | Some (method, rest2) \<Rightarrow>
           (case takeLengthPrefixed rest2 of None \<Rightarrow> None | Some (subject, rest3) \<Rightarrow>
              if rest3 \<noteq> [] then None
              else (let t = \<lparr>fp_issuer = issuer, fp_method = method, fp_subject = subject\<rparr>
                    in if formatFederatedPrincipal t = Some v then Some t else None)))))"

definition executionScopePolicy :: "string \<Rightarrow> string" where
  "executionScopePolicy principalId =
     (if parseFederatedPrincipal principalId \<noteq> None then ''federated-principal-v1'' else ''direct-principal-v1'')"

subsection \<open>Round trip\<close>

lemma take_points_all:
  assumes "ps \<noteq> []" and "\<forall>p \<in> set ps. p \<noteq> []"
  shows "take_points (length (concat ps)) (ps @ qs) = Some ps"
  using assms
proof (induction ps)
  case (Cons p ps)
  show ?case
  proof (cases ps)
    case Nil
    then show ?thesis by simp
  next
    case (Cons p' ps')
    then have "length (concat ps) > 0" using Cons.prems by simp
    with Cons.IH Cons.prems Cons show ?thesis by simp
  qed
qed simp

lemma colon_not_digit: "\<not> is_digit CHR '':''"
  by (simp add: is_digit_def)

lemma takeWhile_number: "takeWhile (\<lambda>c. c \<noteq> CHR '':'') (string_of_nat n @ CHR '':'' # r) = string_of_nat n"
proof -
  have "\<forall>c \<in> set (string_of_nat n). c \<noteq> CHR '':''"
    using string_of_nat_digits(1) [of n] colon_not_digit by (auto simp: list_all_iff)
  then show ?thesis by (subst takeWhile_append2) auto
qed

text \<open>What follows a component starts a new code point.\<close>

lemma take_component:
  assumes v: "v \<noteq> []" "length v \<le> MAX_SAFE_INTEGER" and r: "r = [] \<or> \<not> cont (hd r)"
  shows "takeLengthPrefixed (component v @ r) = Some (v, r)"
proof -
  have p: "points (v @ r) = points v @ points r" by (rule points_append [OF r])
  have "take_points (length v) (points v @ points r) = Some (points v)"
    using take_points_all [of "points v" "points r"] v(1) points_ne [of _ v] by simp
  then show ?thesis
    using v string_of_nat_decimal [of "length v"] string_of_nat_digits(2) [of "length v"] takeWhile_number
    by (simp add: takeLengthPrefixed_def component_def Let_def p)
qed

lemma component_hd: "\<not> cont (hd (component v))"
proof -
  have "is_digit (hd (string_of_nat (length v)))"
    using string_of_nat_digits [of "length v"] by (cases "string_of_nat (length v)") simp_all
  then show ?thesis
    using string_of_nat_digits(2) [of "length v"] by (simp add: component_def is_digit_def cont_def)
qed

lemma component_ne [simp]: "component v \<noteq> []"
  by (simp add: component_def)

lemma formatted:
  assumes "formatFederatedPrincipal t = Some s"
  shows "s = FEDERATED_PREFIX @ component (fp_issuer t) @ component (fp_method t) @ component (fp_subject t)"
    "fp_issuer t \<noteq> []" "fp_method t \<noteq> []" "fp_subject t \<noteq> []" "length s \<le> 512" "startsWith (fp_issuer t) ''did:web:''"
  using assms by (auto simp: formatFederatedPrincipal_def Let_def MAX_FEDERATED_PRINCIPAL_BYTES_def split: if_splits)

lemma length_component: "length v \<le> length (component v)"
  by (simp add: component_def)

lemma federated_format_parse:
  assumes f: "formatFederatedPrincipal t = Some s"
  shows "parseFederatedPrincipal s = Some t"
proof -
  note s = formatted [OF f]
  let ?i = "fp_issuer t" and ?m = "fp_method t" and ?u = "fp_subject t"
  have "length (component ?i @ component ?m @ component ?u) \<le> 512" using s(1,5) by simp
  then have l: "length ?i \<le> MAX_SAFE_INTEGER" "length ?m \<le> MAX_SAFE_INTEGER" "length ?u \<le> MAX_SAFE_INTEGER"
    using length_component [of ?i] length_component [of ?m] length_component [of ?u]
    by (simp_all add: MAX_SAFE_INTEGER_def)
  have "takeLengthPrefixed (component ?i @ component ?m @ component ?u) = Some (?i, component ?m @ component ?u)"
    by (rule take_component) (use s l component_hd in simp_all)
  moreover have "takeLengthPrefixed (component ?m @ component ?u) = Some (?m, component ?u)"
    by (rule take_component) (use s l component_hd in simp_all)
  moreover have "takeLengthPrefixed (component ?u) = Some (?u, [])"
    using take_component [of ?u "[]"] s l by simp
  ultimately show ?thesis
    using f by (cases t) (simp add: parseFederatedPrincipal_def s(1) Let_def)
qed

lemma federated_parse_format: "parseFederatedPrincipal s = Some t \<Longrightarrow> formatFederatedPrincipal t = Some s"
  by (auto simp: parseFederatedPrincipal_def Let_def split: if_splits option.splits)

text \<open>Claim C28. The encoding of a federated caller is reversible, canonical and free of collisions: what is
  written is read back as the same tuple, every string that parses is the one encoding of its
  tuple, so two strings with one tuple are equal and two tuples never share a string, and it stays within 512
  bytes.\<close>

theorem federated_principal_roundtrip:
  "(formatFederatedPrincipal t = Some s \<longleftrightarrow> parseFederatedPrincipal s = Some t) \<and>
   (formatFederatedPrincipal t = Some s \<longrightarrow> length s \<le> MAX_FEDERATED_PRINCIPAL_BYTES \<and>
      (\<forall>t'. formatFederatedPrincipal t' = Some s \<longrightarrow> t' = t))"
proof -
  have "t' = t" if "formatFederatedPrincipal t = Some s" "formatFederatedPrincipal t' = Some s" for t'
    using federated_format_parse [OF that(1)] federated_format_parse [OF that(2)] by simp
  then show ?thesis
    using federated_format_parse federated_parse_format formatted(5) [of t s]
    unfolding MAX_FEDERATED_PRINCIPAL_BYTES_def by blast
qed

definition sample_tuple :: federated where
  "sample_tuple = \<lparr>fp_issuer = ''did:web:a'', fp_method = ''m:1'', fp_subject = ''u''\<rparr>"

lemma sample_formatted: "formatFederatedPrincipal sample_tuple = Some ''federated:v1:9:did:web:a3:m:11:u''"
  by (simp add: sample_tuple_def formatFederatedPrincipal_def Let_def js_trim_def js_length_def has_space_def
      utf16_units_def is_space_def wide_spaces_def bytes_def cont_def component_def string_of_nat.simps
      FEDERATED_PREFIX_def MAX_FEDERATED_PRINCIPAL_BYTES_def char_of_def bit_0 bit_iff_odd)

lemma federated_principal_roundtrip_witness:
  "formatFederatedPrincipal sample_tuple = Some ''federated:v1:9:did:web:a3:m:11:u'' \<and>
   parseFederatedPrincipal ''federated:v1:9:did:web:a3:m:11:u'' = Some sample_tuple"
  using federated_principal_roundtrip [of sample_tuple "''federated:v1:9:did:web:a3:m:11:u''"] sample_formatted by simp

end
