(* ===== verification/JsonText.thy ===== *)
theory JsonText
  imports Text
begin

text \<open>
  \<open>JSON.stringify\<close> of the values the caller context and the execution scope are made of (strings, arrays and
  objects), and \<open>safeJson\<close> of packages/client/src/caller-context.ts, which also escapes what
  could close a tag. The rendering of a string can be read back from any text it starts, so
  texts built from renderings determine the strings.
\<close>

datatype sjson = SStr string | SArr "sjson list" | SObj "(string \<times> sjson) list"

definition hex_lower :: "nat \<Rightarrow> char" where
  "hex_lower n = ''0123456789abcdef'' ! n"

definition short_escapes :: "(char \<times> char) list" where
  "short_escapes = [(CHR 0x22, CHR 0x22), (CHR 0x5C, CHR 0x5C), (CHR 0x08, CHR ''b''), (CHR 0x0C, CHR ''f''),
     (CHR 0x0A, CHR ''n''), (CHR 0x0D, CHR ''r''), (CHR 0x09, CHR ''t'')]"

definition json_char :: "char \<Rightarrow> string" where
  "json_char c =
     (case map_of short_escapes c of
        Some d \<Rightarrow> [CHR 0x5C, d]
      | None \<Rightarrow>
          if (of_char c :: nat) < 32
          then [CHR 0x5C, CHR ''u'', CHR ''0'', CHR ''0'', hex_lower (of_char c div 16), hex_lower (of_char c mod 16)]
          else [c])"

definition json_quote :: "string \<Rightarrow> string" where
  "json_quote s = CHR 0x22 # concat (map json_char s) @ [CHR 0x22]"

definition joined :: "string \<Rightarrow> string list \<Rightarrow> string" where
  "joined sep xs = (case xs of [] \<Rightarrow> [] | y # ys \<Rightarrow> y @ concat (map (\<lambda>z. sep @ z) ys))"

fun json_text :: "sjson \<Rightarrow> string" where
  "json_text (SStr s) = json_quote s"
| "json_text (SArr vs) = ''['' @ joined '','' (map json_text vs) @ '']''"
| "json_text (SObj kvs) = ''{'' @ joined '','' (map (\<lambda>(k, v). json_quote k @ '':'' @ json_text v) kvs) @ ''}''"

text \<open>\<open>safeJson\<close> replaces code points; in UTF-8 the last two are three bytes.\<close>

definition safe_char :: "char \<Rightarrow> string" where
  "safe_char c =
     (if c = CHR ''<'' then CHR 0x5C # ''u003c''
      else if c = CHR ''>'' then CHR 0x5C # ''u003e''
      else if c = CHR ''&'' then CHR 0x5C # ''u0026''
      else [c])"

fun safe_text :: "string \<Rightarrow> string" where
  "safe_text (a # b # c # r) =
     (if [a, b, c] = bytes [226, 128, 168] then (CHR 0x5C # ''u2028'') @ safe_text r
      else if [a, b, c] = bytes [226, 128, 169] then (CHR 0x5C # ''u2029'') @ safe_text r
      else safe_char a @ safe_text (b # c # r))"
| "safe_text (a # r) = safe_char a @ safe_text r"
| "safe_text [] = []"

definition safeJson :: "sjson \<Rightarrow> string" where
  "safeJson v = safe_text (json_text v)"

subsection \<open>Reading back\<close>

lemma hex_lower_inj: "i < 16 \<Longrightarrow> j < 16 \<Longrightarrow> hex_lower i = hex_lower j \<Longrightarrow> i = j"
proof -
  assume a: "i < 16" "j < 16" "hex_lower i = hex_lower j"
  have "distinct ''0123456789abcdef''" by simp
  from nth_eq_iff_index_eq [OF this, of i j] a show "i = j" by (simp add: hex_lower_def)
qed

lemma json_char_cases:
  obtains (short) d where "(c, d) \<in> set short_escapes" "json_char c = [CHR 0x5C, d]"
  | (control) "(of_char c :: nat) < 32"
      "json_char c = [CHR 0x5C, CHR ''u'', CHR ''0'', CHR ''0'', hex_lower (of_char c div 16), hex_lower (of_char c mod 16)]"
  | (plain) "c \<noteq> CHR 0x22" "c \<noteq> CHR 0x5C" "json_char c = [c]"
proof (cases "map_of short_escapes c")
  case None
  then have "c \<noteq> CHR 0x22" "c \<noteq> CHR 0x5C" by (auto simp: short_escapes_def)
  with None control plain show thesis by (cases "(of_char c :: nat) < 32") (simp_all add: json_char_def)
next
  case (Some d)
  with short show thesis by (auto simp: json_char_def dest: map_of_SomeD)
qed

lemma short_escapes_inj: "(c, d) \<in> set short_escapes \<Longrightarrow> (c', d) \<in> set short_escapes \<Longrightarrow> c = c'"
  by (auto simp: short_escapes_def)

lemma short_escapes_u: "(c, CHR ''u'') \<notin> set short_escapes"
  by (simp add: short_escapes_def)

lemma of_char_inj: "(of_char c :: nat) = of_char d \<Longrightarrow> c = d"
  by simp

lemma json_char_prefix:
  assumes "json_char c @ xs = json_char c' @ ys"
  shows "c = c' \<and> xs = ys"
proof (cases rule: json_char_cases [of c])
  case (short d)
  show ?thesis
    by (cases rule: json_char_cases [of c']) (use short assms short_escapes_inj short_escapes_u in auto)
next
  case control
  show ?thesis
  proof (cases rule: json_char_cases [of c'])
    case (short d)
    then show ?thesis using control assms short_escapes_u by auto
  next
    case control2: control
    have "hex_lower (of_char c div 16) = hex_lower (of_char c' div 16)"
      "hex_lower (of_char c mod 16) = hex_lower (of_char c' mod 16)"
      using control control2 assms by simp_all
    then have "(of_char c :: nat) div 16 = of_char c' div 16" "(of_char c :: nat) mod 16 = of_char c' mod 16"
      using control(1) control2(1) by (auto intro!: hex_lower_inj)
    then have "(of_char c :: nat) = of_char c'" by (metis div_mult_mod_eq)
    then show ?thesis using control control2 assms by simp
  next
    case plain
    then show ?thesis using control assms by auto
  qed
next
  case plain
  show ?thesis by (cases rule: json_char_cases [of c']) (use plain assms in auto)
qed

lemma json_char_quote: "json_char c @ xs \<noteq> CHR 0x22 # ys"
  by (cases rule: json_char_cases [of c]) auto

lemma json_chars_prefix:
  "concat (map json_char s) @ CHR 0x22 # xs = concat (map json_char s') @ CHR 0x22 # ys \<Longrightarrow> s = s' \<and> xs = ys"
proof (induction s arbitrary: s')
  case Nil
  then show ?case by (cases s') (auto simp: json_char_quote dest: sym)
next
  case (Cons c s)
  show ?case
  proof (cases s')
    case Nil
    then show ?thesis using Cons.prems json_char_quote [of c] by simp
  next
    case c': (Cons c' s'')
    have "json_char c @ (concat (map json_char s) @ CHR 0x22 # xs) = json_char c' @ (concat (map json_char s'') @ CHR 0x22 # ys)"
      using Cons.prems c' by simp
    from json_char_prefix [OF this] Cons.IH c' show ?thesis by blast
  qed
qed

lemma json_quote_prefix: "json_quote s @ xs = json_quote s' @ ys \<longleftrightarrow> s = s' \<and> xs = ys"
  using json_chars_prefix [of s xs s' ys] by (auto simp: json_quote_def)

lemma json_quote_inj [simp]: "json_quote s = json_quote s' \<longleftrightarrow> s = s'"
  using json_quote_prefix [of s "[]" s' "[]"] by simp

subsection \<open>Nothing left to close a tag\<close>

lemma safe_text_no_tag: "CHR ''<'' \<notin> set (safe_text s) \<and> CHR ''>'' \<notin> set (safe_text s)"
proof (induction s rule: safe_text.induct)
  case (1 a b c r)
  then show ?case by (auto simp: safe_char_def)
qed (auto simp: safe_char_def)

lemma safeJson_no_tag [simp]: "CHR ''<'' \<notin> set (safeJson v)" "CHR ''>'' \<notin> set (safeJson v)"
  using safe_text_no_tag by (simp_all add: safeJson_def)

end
