(* ===== verification/Output.thy ===== *)
theory Output
  imports Parts
begin

text \<open>
  What the executor keeps of a running task (packages/server/src/executor.ts): the artifacts put
  together from their chunks, the history, the metadata that may leave the server, the receipt of a
  settled payment; and the dispatch marker on the task (packages/server/src/execution-marker.ts).
\<close>

subsection \<open>Artifacts from their chunks\<close>

definition mergeArtifactParts :: "obj list \<Rightarrow> obj list \<Rightarrow> obj list" where
  "mergeArtifactParts existing chunk =
     (case (existing, chunk) of
        ([current], [next]) \<Rightarrow>
          (case (str_field current ''text'', str_field next ''text'') of
             (Some a, Some b) \<Rightarrow> [map_set ''text'' (JStr (a @ b)) current]
           | _ \<Rightarrow> existing @ chunk)
      | _ \<Rightarrow> existing @ chunk)"

text \<open>The fields of the artifact that is found are assigned in place.\<close>

definition extend_artifact :: "artifact \<Rightarrow> artifact \<Rightarrow> artifact" where
  "extend_artifact chunk existing =
     existing\<lparr>ar_parts := mergeArtifactParts (ar_parts existing) (ar_parts chunk),
       ar_name := coalesce (ar_name chunk) (ar_name existing),
       ar_metadata := coalesce (ar_metadata chunk) (ar_metadata existing),
       ar_extensions := coalesce (ar_extensions chunk) (ar_extensions existing)\<rparr>"

fun update_first :: "('a \<Rightarrow> bool) \<Rightarrow> ('a \<Rightarrow> 'a) \<Rightarrow> 'a list \<Rightarrow> 'a list" where
  "update_first P f [] = []"
| "update_first P f (x # xs) = (if P x then f x # xs else x # update_first P f xs)"

definition appendArtifactChunk :: "artifact list \<Rightarrow> artifact_event \<Rightarrow> artifact list" where
  "appendArtifactChunk accumulated ev =
     (let a = ae_artifact ev; same = (\<lambda>x. ar_artifactId x = ar_artifactId a)
      in if ae_append ev \<noteq> Some True then accumulated @ [a]
         else if List.find same accumulated = None then accumulated @ [a]
         else update_first same (extend_artifact a) accumulated)"

definition taskArtifacts :: "artifact list \<Rightarrow> artifact list \<Rightarrow> artifact list" where
  "taskArtifacts prior current =
     map_vals (fold (\<lambda>a. map_set (ar_artifactId a) a) current
       (fold (\<lambda>a. map_set (ar_artifactId a) a) prior []))"

subsection \<open>Metadata and history\<close>

definition identity_keys :: "string list" where
  "identity_keys = [''identity_evidence'', ''verifiable_credentials'']"

definition reserved_keys :: "string list" where
  "reserved_keys = [''caller'', ''callerContext'', ''caller_context'', ''executionScope'', ''execution_scope'']"

text \<open>One entry of the metadata: dropped, pruned or kept.\<close>

definition strip_entry :: "string \<times> json \<Rightarrow> (string \<times> json) option" where
  "strip_entry kv =
     (let k = fst kv
      in if take 1 k = ''_'' then None
         else if k \<in> set reserved_keys then None
         else if k = ''mentionable'' then
           (case snd kv of
              JObj v \<Rightarrow>
                (let kept = filter (\<lambda>(k', v'). k' \<notin> set identity_keys) v
                 in if kept = [] then None else Some (k, JObj kept))
            | _ \<Rightarrow> Some kv)
         else Some kv)"

definition stripInternalMetadata :: "obj option \<Rightarrow> obj option" where
  "stripInternalMetadata metadata =
     (case metadata of
        None \<Rightarrow> None
      | Some md \<Rightarrow> (let out = List.map_filter strip_entry md in if out = [] then None else Some out))"

definition appendHistoryMessage :: "message list \<Rightarrow> message option \<Rightarrow> message list" where
  "appendHistoryMessage history m =
     (case m of
        None \<Rightarrow> history
      | Some x \<Rightarrow> if \<exists>y \<in> set history. m_messageId y = m_messageId x then history else history @ [x])"

definition withReceipt :: "status_event \<Rightarrow> obj \<Rightarrow> string \<Rightarrow> string \<Rightarrow> status_event" where
  "withReceipt ev metadata taskId contextId =
     (let base = (case st_message (se_status ev) of
                    Some m \<Rightarrow> m
                  | None \<Rightarrow> \<lparr>m_messageId = taskId @ ''-x402-receipt'', m_role = Agent, m_parts = [],
                      m_metadata = None, m_extensions = None, m_taskId = Some taskId, m_contextId = Some contextId\<rparr>);
          m = base\<lparr>m_metadata := Some (spread (get_or (m_metadata base) []) metadata)\<rparr>
      in ev\<lparr>se_status := (se_status ev)\<lparr>st_message := Some m\<rparr>\<rparr>)"

subsection \<open>The dispatch marker\<close>

definition EXECUTION_MARKER_KEY :: string where
  "EXECUTION_MARKER_KEY = APPROVAL_EXTENSION_URI"

definition executionMarker :: "obj option \<Rightarrow> string option" where
  "executionMarker metadata =
     (case Option.bind metadata (\<lambda>md. map_of md EXECUTION_MARKER_KEY) of
        Some (JObj entry) \<Rightarrow> str_field entry ''executionId''
      | _ \<Rightarrow> None)"

definition withExecutionMarker :: "obj option \<Rightarrow> string option \<Rightarrow> obj option" where
  "withExecutionMarker metadata executionId =
     (let rest = map_del EXECUTION_MARKER_KEY (get_or metadata [])
      in case executionId of
           Some e \<Rightarrow> Some (map_set EXECUTION_MARKER_KEY (JObj [(''executionId'', JStr e)]) rest)
         | None \<Rightarrow> if rest = [] then None else Some rest)"

text \<open>\<open>withOrigin\<close>: status events of a replay-capable dispatch carry its execution.\<close>

definition withOrigin :: "string option \<Rightarrow> status_event \<Rightarrow> status_event" where
  "withOrigin executionId ev =
     (case executionId of
        None \<Rightarrow> ev
      | Some e \<Rightarrow> ev\<lparr>se_metadata :=
          Some (spread (get_or (se_metadata ev) []) [(EXECUTION_MARKER_KEY, JObj [(''executionId'', JStr e)])])\<rparr>)"

subsection \<open>Laws of the artifacts\<close>

abbreviation find_art :: "string \<Rightarrow> artifact list \<Rightarrow> artifact option" where
  "find_art i \<equiv> List.find (\<lambda>a. ar_artifactId a = i)"

lemma find_snoc: "List.find P (xs @ [x]) = (case List.find P xs of Some y \<Rightarrow> Some y | None \<Rightarrow> if P x then Some x else None)"
  by (induction xs) auto

lemma extend_id [simp]: "ar_artifactId (extend_artifact c a) = ar_artifactId a"
  by (simp add: extend_artifact_def)

lemma find_update_first:
  "find_art i (update_first (\<lambda>a. ar_artifactId a = j) (extend_artifact c) xs) =
     (if i = j then map_option (extend_artifact c) (find_art i xs) else find_art i xs)"
  by (induction xs) auto

text \<open>A chunk that is appended changes its own artifact and no other.\<close>

lemma find_appended:
  assumes "ae_append ev = Some True"
  shows "find_art i (appendArtifactChunk acc ev) =
    (if i = ar_artifactId (ae_artifact ev)
     then Some (case find_art i acc of None \<Rightarrow> ae_artifact ev | Some a \<Rightarrow> extend_artifact (ae_artifact ev) a)
     else find_art i acc)"
  using assms
  by (cases "find_art (ar_artifactId (ae_artifact ev)) acc")
    (auto simp: appendArtifactChunk_def Let_def find_snoc find_update_first split: option.split)

lemma find_other:
  "i \<noteq> ar_artifactId (ae_artifact ev) \<Longrightarrow> find_art i (appendArtifactChunk acc ev) = find_art i acc"
  by (simp add: appendArtifactChunk_def Let_def find_snoc find_update_first split: option.split)

text \<open>The text of an artifact with a single text part, and of a chunk.\<close>

definition art_text :: "artifact \<Rightarrow> string option" where
  "art_text a = (case ar_parts a of [p] \<Rightarrow> str_field p ''text'' | _ \<Rightarrow> None)"

lemma art_text_extend:
  "art_text a = Some s \<Longrightarrow> art_text c = Some t \<Longrightarrow> art_text (extend_artifact c a) = Some (s @ t)"
  by (auto simp: art_text_def extend_artifact_def mergeArtifactParts_def str_field_def split: list.splits)

abbreviation chunks_of :: "string \<Rightarrow> artifact_event list \<Rightarrow> artifact_event list" where
  "chunks_of i \<equiv> filter (\<lambda>ev. ar_artifactId (ae_artifact ev) = i)"

abbreviation chunk_text :: "artifact_event \<Rightarrow> string" where
  "chunk_text ev \<equiv> get_or (art_text (ae_artifact ev)) []"

lemma chunks_join:
  assumes "\<And>ev. ev \<in> set (chunks_of i evs) \<Longrightarrow> ae_append ev = Some True \<and> art_text (ae_artifact ev) \<noteq> None"
    and "find_art i acc = Some a" and "art_text a = Some s"
  shows "\<exists>b. find_art i (fold (\<lambda>ev acc. appendArtifactChunk acc ev) evs acc) = Some b \<and>
    art_text b = Some (s @ concat (map chunk_text (chunks_of i evs)))"
  using assms
proof (induction evs arbitrary: acc a s)
  case (Cons ev evs)
  show ?case
  proof (cases "ar_artifactId (ae_artifact ev) = i")
    case True
    then obtain t where t: "ae_append ev = Some True" "art_text (ae_artifact ev) = Some t"
      using Cons.prems(1) [of ev] by auto
    have "find_art i (appendArtifactChunk acc ev) = Some (extend_artifact (ae_artifact ev) a)"
      using find_appended [OF t(1)] True Cons.prems(2) by simp
    moreover have "art_text (extend_artifact (ae_artifact ev) a) = Some (s @ t)"
      using art_text_extend Cons.prems(3) t(2) .
    moreover have "\<And>e. e \<in> set (chunks_of i evs) \<Longrightarrow> ae_append e = Some True \<and> art_text (ae_artifact e) \<noteq> None"
      using Cons.prems(1) by auto
    ultimately show ?thesis
      using Cons.IH [of "appendArtifactChunk acc ev" _ "s @ t"] True t(2) by simp
  next
    case False
    then have "find_art i (appendArtifactChunk acc ev) = Some a" using find_other Cons.prems(2) by simp
    moreover have "\<And>e. e \<in> set (chunks_of i evs) \<Longrightarrow> ae_append e = Some True \<and> art_text (ae_artifact e) \<noteq> None"
      using Cons.prems(1) False by auto
    ultimately show ?thesis using Cons.IH Cons.prems(3) False by simp
  qed
qed simp

lemma chunks_start:
  assumes "\<And>ev. ev \<in> set (chunks_of i evs) \<Longrightarrow> ae_append ev = Some True \<and> art_text (ae_artifact ev) \<noteq> None"
    and "find_art i acc = None" and "chunks_of i evs \<noteq> []"
  shows "\<exists>b. find_art i (fold (\<lambda>ev acc. appendArtifactChunk acc ev) evs acc) = Some b \<and>
    art_text b = Some (concat (map chunk_text (chunks_of i evs)))"
  using assms
proof (induction evs arbitrary: acc)
  case (Cons ev evs)
  show ?case
  proof (cases "ar_artifactId (ae_artifact ev) = i")
    case True
    then obtain t where t: "ae_append ev = Some True" "art_text (ae_artifact ev) = Some t"
      using Cons.prems(1) [of ev] by auto
    have f: "find_art i (appendArtifactChunk acc ev) = Some (ae_artifact ev)"
      using find_appended [OF t(1)] True Cons.prems(2) by simp
    have "\<And>e. e \<in> set (chunks_of i evs) \<Longrightarrow> ae_append e = Some True \<and> art_text (ae_artifact e) \<noteq> None"
      using Cons.prems(1) by auto
    from chunks_join [OF this f t(2)] True t(2) show ?thesis by simp
  next
    case False
    then have "find_art i (appendArtifactChunk acc ev) = None" using find_other Cons.prems(2) by simp
    moreover have "\<And>e. e \<in> set (chunks_of i evs) \<Longrightarrow> ae_append e = Some True \<and> art_text (ae_artifact e) \<noteq> None"
      using Cons.prems(1) False by auto
    ultimately show ?thesis using Cons.IH Cons.prems(3) False by simp
  qed
qed simp

text \<open>However the chunks of several artifacts are interleaved in the stream, an artifact whose
  chunks are all appended text ends up as one text part: the concatenation of its own chunks in
  their order.\<close>

theorem streamed_text_reassembled:
  assumes "\<forall>ev \<in> set evs. ar_artifactId (ae_artifact ev) = i \<longrightarrow>
      ae_append ev = Some True \<and> art_text (ae_artifact ev) \<noteq> None"
    and "\<exists>ev \<in> set evs. ar_artifactId (ae_artifact ev) = i"
  shows "\<exists>b. find_art i (fold (\<lambda>ev acc. appendArtifactChunk acc ev) evs []) = Some b \<and>
    art_text b = Some (concat (map chunk_text (chunks_of i evs)))"
proof (rule chunks_start)
  show "chunks_of i evs \<noteq> []" using assms(2) by (auto simp: filter_empty_conv)
qed (use assms(1) in auto)

definition text_chunk :: "string \<Rightarrow> string \<Rightarrow> artifact_event" where
  "text_chunk i t = \<lparr>ae_taskId = ''t'', ae_contextId = ''c'',
     ae_artifact = \<lparr>ar_artifactId = i, ar_name = None, ar_parts = [[(''text'', JStr t)]], ar_metadata = None,
       ar_extensions = None\<rparr>, ae_append = Some True, ae_lastChunk = None\<rparr>"

lemma streamed_text_reassembled_witness:
  "\<exists>b. find_art ''x'' (fold (\<lambda>ev acc. appendArtifactChunk acc ev)
      [text_chunk ''x'' ''he'', text_chunk ''y'' ''other'', text_chunk ''x'' ''llo''] []) = Some b \<and>
    art_text b = Some ''hello''"
  using streamed_text_reassembled
    [of "[text_chunk ''x'' ''he'', text_chunk ''y'' ''other'', text_chunk ''x'' ''llo'']" "''x''"]
  by (simp add: text_chunk_def art_text_def str_field_def)

lemma find_fold_set:
  "map_of (fold (\<lambda>a. map_set (ar_artifactId a) a) xs m) i =
     (case find_art i (rev xs) of Some a \<Rightarrow> Some a | None \<Rightarrow> map_of m i)"
proof (induction xs arbitrary: m)
  case (Cons x xs)
  then show ?case by (cases "find_art i (rev xs)") (simp_all add: find_snoc)
qed simp

lemma fold_set_ids:
  "\<forall>(k, a) \<in> set m. ar_artifactId a = k \<Longrightarrow>
   \<forall>(k, a) \<in> set (fold (\<lambda>a. map_set (ar_artifactId a) a) xs m). ar_artifactId a = k"
proof (induction xs arbitrary: m)
  case (Cons x xs)
  have "\<forall>(k, a) \<in> set (map_set (ar_artifactId x) x m). ar_artifactId a = k"
    using Cons.prems by (auto dest!: mem_set_cases)
  from Cons.IH [OF this] show ?case by simp
qed simp

lemma fold_set_distinct:
  "distinct (map_keys m) \<Longrightarrow> distinct (map_keys (fold (\<lambda>a. map_set (ar_artifactId a) a) xs m))"
  by (induction xs arbitrary: m) auto

lemma find_vals:
  "\<forall>(k, a) \<in> set m. ar_artifactId a = k \<Longrightarrow> find_art i (map_vals m) = map_of m i"
  by (induction m) auto

lemma keys_of_ids: "\<forall>(k, a) \<in> set m. ar_artifactId a = k \<Longrightarrow> map ar_artifactId (map_vals m) = map_keys m"
  by (induction m) auto

text \<open>The artifacts shown on a task have distinct ids; for each id it is the last
  one of the running execution, or the last earlier one when the execution produced none.\<close>

theorem task_artifacts_latest:
  "distinct (map ar_artifactId (taskArtifacts prior current)) \<and>
   find_art i (taskArtifacts prior current) =
     (case find_art i (rev current) of Some a \<Rightarrow> Some a | None \<Rightarrow> find_art i (rev prior))"
proof -
  let ?m1 = "fold (\<lambda>a. map_set (ar_artifactId a) a) prior []"
  let ?m = "fold (\<lambda>a. map_set (ar_artifactId a) a) current ?m1"
  have ids: "\<forall>(k, a) \<in> set ?m. ar_artifactId a = k" by (intro fold_set_ids) simp
  have d: "distinct (map_keys ?m)" by (intro fold_set_distinct) simp
  have "find_art i (map_vals ?m) = map_of ?m i" by (rule find_vals [OF ids])
  then show ?thesis
    unfolding taskArtifacts_def keys_of_ids [OF ids] using d by (simp add: find_fold_set split: option.split)
qed

subsection \<open>Laws of the metadata\<close>

lemma strip_entry_key: "strip_entry kv = Some kv' \<Longrightarrow> fst kv' = fst kv"
  by (auto simp: strip_entry_def Let_def split: if_splits json.splits)

lemma strip_entry_idem: "strip_entry kv = Some kv' \<Longrightarrow> strip_entry kv' = Some kv'"
  by (auto simp: strip_entry_def Let_def split: if_splits json.splits)

lemma map_filter_idem: "(\<And>x y. f x = Some y \<Longrightarrow> f y = Some y) \<Longrightarrow> List.map_filter f (List.map_filter f xs) = List.map_filter f xs"
  by (induction xs) (auto simp: map_filter_simps split: option.splits)

lemma map_filter_mem: "y \<in> set (List.map_filter f xs) \<longleftrightarrow> (\<exists>x \<in> set xs. f x = Some y)"
  by (induction xs) (auto simp: map_filter_simps split: option.splits)

lemma strip_entry_safe:
  "strip_entry kv = Some (k, v) \<Longrightarrow> take 1 k \<noteq> ''_'' \<and> k \<notin> set reserved_keys \<and>
     (\<forall>o1. k = ''mentionable'' \<and> v = JObj o1 \<longrightarrow> (\<forall>k' \<in> fst ` set o1. k' \<notin> set identity_keys) \<and> o1 \<noteq> [])"
  by (cases kv) (auto simp: strip_entry_def Let_def reserved_keys_def split: if_splits json.splits)

text \<open>Nothing the server keeps to itself leaves with a forwarded message: no key that
  starts with an underscore, no name a client could take for verified caller context or an execution scope, no identity
  evidence inside the mentionable envelope, and never an empty object. Every other entry is forwarded as it
  is, and stripping twice changes nothing more.\<close>

theorem stripped_metadata_is_safe:
  "(\<forall>out k v. stripInternalMetadata md = Some out \<and> (k, v) \<in> set out \<longrightarrow>
      out \<noteq> [] \<and> take 1 k \<noteq> ''_'' \<and> k \<notin> set reserved_keys \<and>
      (\<forall>o1. k = ''mentionable'' \<and> v = JObj o1 \<longrightarrow> (\<forall>k' \<in> fst ` set o1. k' \<notin> set identity_keys))) \<and>
   (\<forall>m k v. md = Some m \<and> (k, v) \<in> set m \<and> take 1 k \<noteq> ''_'' \<and> k \<notin> set reserved_keys \<and> k \<noteq> ''mentionable'' \<longrightarrow>
      (\<exists>out. stripInternalMetadata md = Some out \<and> (k, v) \<in> set out)) \<and>
   stripInternalMetadata (stripInternalMetadata md) = stripInternalMetadata md"
proof (intro conjI)
  show "\<forall>out k v. stripInternalMetadata md = Some out \<and> (k, v) \<in> set out \<longrightarrow>
      out \<noteq> [] \<and> take 1 k \<noteq> ''_'' \<and> k \<notin> set reserved_keys \<and>
      (\<forall>o1. k = ''mentionable'' \<and> v = JObj o1 \<longrightarrow> (\<forall>k' \<in> fst ` set o1. k' \<notin> set identity_keys))"
  proof (intro allI impI)
    fix out k v assume a: "stripInternalMetadata md = Some out \<and> (k, v) \<in> set out"
    then obtain m kv where "kv \<in> set m" "strip_entry kv = Some (k, v)"
      by (auto simp: stripInternalMetadata_def Let_def map_filter_mem split: option.splits if_splits)
    with strip_entry_safe a show "out \<noteq> [] \<and> take 1 k \<noteq> ''_'' \<and> k \<notin> set reserved_keys \<and>
      (\<forall>o1. k = ''mentionable'' \<and> v = JObj o1 \<longrightarrow> (\<forall>k' \<in> fst ` set o1. k' \<notin> set identity_keys))" by fastforce
  qed
  show "\<forall>m k v. md = Some m \<and> (k, v) \<in> set m \<and> take 1 k \<noteq> ''_'' \<and> k \<notin> set reserved_keys \<and> k \<noteq> ''mentionable'' \<longrightarrow>
      (\<exists>out. stripInternalMetadata md = Some out \<and> (k, v) \<in> set out)"
  proof (intro allI impI, elim conjE)
    fix m k v assume m: "md = Some m" "(k, v) \<in> set m" and k: "take 1 k \<noteq> ''_''" "k \<notin> set reserved_keys" "k \<noteq> ''mentionable''"
    have "strip_entry (k, v) = Some (k, v)" using k by (simp add: strip_entry_def)
    with m(2) have "(k, v) \<in> set (List.map_filter strip_entry m)" by (auto simp: map_filter_mem)
    then show "\<exists>out. stripInternalMetadata md = Some out \<and> (k, v) \<in> set out"
      using m(1) by (auto simp: stripInternalMetadata_def Let_def)
  qed
  show "stripInternalMetadata (stripInternalMetadata md) = stripInternalMetadata md"
    using map_filter_idem [OF strip_entry_idem] by (auto simp: stripInternalMetadata_def Let_def split: option.split)
qed

lemma stripped_metadata_is_safe_witness:
  "stripInternalMetadata (Some [(''_principalId'', JStr ''p''), (''topic'', JStr ''x'')]) = Some [(''topic'', JStr ''x'')] \<and>
   (\<exists>out. stripInternalMetadata (Some [(''_principalId'', JStr ''p''), (''topic'', JStr ''x'')]) = Some out \<and>
     (''topic'', JStr ''x'') \<in> set out)"
proof
  show "stripInternalMetadata (Some [(''_principalId'', JStr ''p''), (''topic'', JStr ''x'')]) = Some [(''topic'', JStr ''x'')]"
    by (simp add: stripInternalMetadata_def strip_entry_def reserved_keys_def map_filter_simps)
  show "\<exists>out. stripInternalMetadata (Some [(''_principalId'', JStr ''p''), (''topic'', JStr ''x'')]) = Some out \<and>
     (''topic'', JStr ''x'') \<in> set out"
    using stripped_metadata_is_safe [of "Some [(''_principalId'', JStr ''p''), (''topic'', JStr ''x'')]"]
    by (simp add: reserved_keys_def)
qed

subsection \<open>Laws of the marker\<close>

lemma marker_with [simp]: "executionMarker (withExecutionMarker md e) = e"
  by (auto simp: executionMarker_def withExecutionMarker_def Let_def str_field_def split: option.split)

text \<open>The marker of a task is exactly the execution that was dispatched last: setting it is read
  back, clearing it leaves none whatever the caller put there, the other metadata is kept, and setting
  twice is setting once.\<close>

theorem execution_marker_roundtrip:
  "executionMarker (withExecutionMarker md e) = e \<and>
   Option.bind (withExecutionMarker md e) (\<lambda>m. map_of m k) =
     (if k = EXECUTION_MARKER_KEY then map_option (\<lambda>x. JObj [(''executionId'', JStr x)]) e
      else Option.bind md (\<lambda>m. map_of m k)) \<and>
   withExecutionMarker (withExecutionMarker md e') e = withExecutionMarker md e"
proof (intro conjI)
  define r where "r = map_del EXECUTION_MARKER_KEY (get_or md [])"
  have "map_of r k = (if k = EXECUTION_MARKER_KEY then None else Option.bind md (\<lambda>m. map_of m k))"
    unfolding r_def by (cases md) simp_all
  then show "Option.bind (withExecutionMarker md e) (\<lambda>m. map_of m k) =
      (if k = EXECUTION_MARKER_KEY then map_option (\<lambda>x. JObj [(''executionId'', JStr x)]) e
       else Option.bind md (\<lambda>m. map_of m k))"
    unfolding withExecutionMarker_def Let_def r_def [symmetric]
    by (cases e; cases "r = []") (simp_all split: if_splits)
  have del: "map_del K (map_set K v (map_del K m)) = map_del K m" for K v and m :: obj
    by (induction m) auto
  show "withExecutionMarker (withExecutionMarker md e') e = withExecutionMarker md e"
    by (cases e') (simp_all add: withExecutionMarker_def Let_def del split: option.split)
qed simp

end
