(* ===== verification/Callers.thy ===== *)
theory Callers
  imports Federated JsonText Output
begin

text \<open>
  Who a task runs for: the caller context the server sends with a task
  (packages/server/src/caller-context.ts), the execution scope it resolves from the authenticated
  identity (packages/server/src/execution-scope.ts), and what the client makes of them: how it shows the
  context to a model (packages/client/src/caller-context.ts) and the checks of a container runtime
  before it runs anything (packages/client/src/caller-scoped-backend.ts).

  The values are the typed results of schema parsing; the bounds of the schemas are predicates. SHA-256 is a
  parameter.
\<close>

subsection \<open>Schemas\<close>

definition identifier_ok :: "string \<Rightarrow> bool" where
  "identifier_ok s \<longleftrightarrow> 1 \<le> js_length s \<and> js_length s \<le> 512"

definition summary_ok :: "string \<Rightarrow> bool" where
  "summary_ok s \<longleftrightarrow> 1 \<le> js_length s \<and> js_length s \<le> 256"

abbreviation opt_ok :: "('a \<Rightarrow> bool) \<Rightarrow> 'a option \<Rightarrow> bool" where
  "opt_ok \<equiv> pred_option"

definition attestation_ok :: "attestation \<Rightarrow> bool" where
  "attestation_ok a \<longleftrightarrow>
     identifier_ok (at_credentialId a) \<and> identifier_ok (at_issuer a) \<and> identifier_ok (at_subject a) \<and>
     summary_ok (at_method a) \<and> opt_ok summary_ok (at_assurance a) \<and>
     opt_ok (\<lambda>p. opt_ok summary_ok (pl_provider p) \<and> opt_ok summary_ok (pl_workspaceId p)) (at_platform a) \<and>
     opt_ok (opt_ok identifier_ok) (at_observedInvocation a) \<and>
     opt_ok (\<lambda>p. opt_ok summary_ok (pr_displayName p) \<and> opt_ok summary_ok (pr_username p)) (at_profile a)"

definition attestations_ok :: "attestation list option \<Rightarrow> bool" where
  "attestations_ok = opt_ok (\<lambda>xs. length xs \<le> 8 \<and> list_all attestation_ok xs)"

definition v1_ok :: "string option \<Rightarrow> attestation list option \<Rightarrow> bool" where
  "v1_ok authenticated presented \<longleftrightarrow> opt_ok identifier_ok authenticated \<and> attestations_ok presented"

text \<open>The refinement of the second version: an actor needs a principal and is not the principal.\<close>

definition v2_ok :: "canonical_caller \<Rightarrow> bool" where
  "v2_ok c \<longleftrightarrow>
     opt_ok identifier_ok (cc_principal c) \<and> opt_ok identifier_ok (cc_actor c) \<and>
     attestations_ok (cc_attestations c) \<and>
     (cc_actor c \<noteq> None \<longrightarrow> cc_principal c \<noteq> None \<and> cc_actor c \<noteq> cc_principal c)"

subsection \<open>Caller context on the server\<close>

datatype context_version = V1 | V2

definition selectCallerContextVersion :: "capabilities \<Rightarrow> context_version option" where
  "selectCallerContextVersion caps =
     (if caps_include caps CALLER_CONTEXT_V2_CAPABILITY then Some V2
      else if caps_include caps CALLER_CONTEXT_V1_CAPABILITY then Some V1
      else None)"

definition supportsCallerContext :: "capabilities \<Rightarrow> bool" where
  "supportsCallerContext caps \<longleftrightarrow> selectCallerContextVersion caps \<noteq> None"

definition isEmpty_caller :: "canonical_caller \<Rightarrow> bool" where
  "isEmpty_caller c \<longleftrightarrow> cc_principal c = None \<and> cc_actor c = None \<and> get_or (cc_attestations c) [] = []"

definition non_empty_list :: "'a list option \<Rightarrow> 'a list option" where
  "non_empty_list xs = (case xs of Some (y # ys) \<Rightarrow> Some (y # ys) | _ \<Rightarrow> None)"

definition createCanonicalCallerContext ::
    "string option \<Rightarrow> string option \<Rightarrow> attestation list option \<Rightarrow> canonical_caller option" where
  "createCanonicalCallerContext principalId actorId atts =
     (let c = \<lparr>cc_principal = principalId, cc_actor = actorId, cc_attestations = non_empty_list atts\<rparr>
      in if \<not> v2_ok c \<or> isEmpty_caller c then None else Some c)"

definition canonicalizeCallerContextV1 :: "string option \<Rightarrow> attestation list option \<Rightarrow> canonical_caller option" where
  "canonicalizeCallerContextV1 authenticated presented = createCanonicalCallerContext authenticated None presented"

definition serializeCallerContextV1 :: "canonical_caller \<Rightarrow> caller_context option" where
  "serializeCallerContextV1 c =
     (if cc_actor c \<noteq> None then None
      else (let presented = non_empty_list (cc_attestations c)
            in if \<not> v1_ok (cc_principal c) presented then None
               else if cc_principal c = None \<and> get_or presented [] = [] then None
               else Some (CallerV1 (cc_principal c) presented)))"

definition serializeCallerContextV2 :: "canonical_caller \<Rightarrow> caller_context option" where
  "serializeCallerContextV2 c = (if \<not> v2_ok c \<or> isEmpty_caller c then None else Some (CallerV2 c))"

definition serializeCallerContext ::
    "canonical_caller option \<Rightarrow> context_version option \<Rightarrow> caller_context option" where
  "serializeCallerContext c v =
     (case (c, v) of
        (Some ctx, Some V2) \<Rightarrow> serializeCallerContextV2 ctx
      | (Some ctx, Some V1) \<Rightarrow> serializeCallerContextV1 ctx
      | _ \<Rightarrow> None)"

subsection \<open>Execution scope on the server\<close>

definition executionScopePreimage :: "string \<Rightarrow> string \<Rightarrow> string" where
  "executionScopePreimage agentId principalId =
     json_text (SArr [SStr ''vicoop-execution-scope'', SStr (executionScopePolicy principalId),
       SStr agentId, SStr principalId])"

definition FEDERATION_PROFILE :: string where
  "FEDERATION_PROFILE = ''https://mentionable.dev/ns/oauth-federation/v0.1''"

definition is_sha256_hex :: "string \<Rightarrow> bool" where
  "is_sha256_hex s \<longleftrightarrow> length s = 64 \<and> list_all (\<lambda>c. c \<in> set ''0123456789abcdef'') s"

definition scope_ok :: "execution_scope \<Rightarrow> bool" where
  "scope_ok e \<longleftrightarrow>
     es_policy e \<in> {''direct-principal-v1'', ''federated-principal-v1''} \<and>
     is_sha256_hex (es_id e) \<and> identifier_ok (es_agentId e) \<and> identifier_ok (es_principalId e)"

record handoff =
  ho_principalId :: "string option"
  ho_actorId :: "string option"
  ho_authorizationKey :: "string option"
  ho_authorizationProfile :: "string option"

text \<open>The principal the environment belongs to, when the handoff may have one.\<close>

definition scope_principal :: "capabilities \<Rightarrow> handoff \<Rightarrow> string option" where
  "scope_principal caps h =
     (let principalId = get_or (ho_principalId h) [];
          key = get_or (ho_authorizationKey h) []
      in if \<not> supportsExecutionScopeV1 caps then None
         else if principalId = [] then None
         else if ho_actorId h \<noteq> None \<or> ho_authorizationKey h \<noteq> None \<or> ho_authorizationProfile h \<noteq> None then
           (if \<not> caps_include caps FEDERATED_EXECUTION_SCOPE_V1_CAPABILITY \<or>
               ho_authorizationProfile h \<noteq> Some FEDERATION_PROFILE \<or> key = [] then None
            else (case parseFederatedPrincipal key of
                    None \<Rightarrow> None
                  | Some t \<Rightarrow>
                      if Some (fp_issuer t) \<noteq> ho_actorId h \<or> fp_subject t \<noteq> principalId then None else Some key))
         else if parseFederatedPrincipal principalId \<noteq> None then None
         else Some principalId)"

definition resolveExecutionScope ::
    "(string \<Rightarrow> string) \<Rightarrow> string \<Rightarrow> capabilities \<Rightarrow> handoff \<Rightarrow> execution_scope option" where
  "resolveExecutionScope sha256 agentId caps h =
     (case scope_principal caps h of
        None \<Rightarrow> None
      | Some principalId \<Rightarrow>
          (let e = \<lparr>es_policy = executionScopePolicy principalId,
                    es_id = sha256 (executionScopePreimage agentId principalId),
                    es_agentId = agentId, es_principalId = principalId\<rparr>
           in if scope_ok e then Some e else None))"

subsection \<open>Checks of the container runtime\<close>

definition scopeDigest :: "(string \<Rightarrow> string) \<Rightarrow> string \<Rightarrow> string \<Rightarrow> string" where
  "scopeDigest sha256 agentId principalId = sha256 (executionScopePreimage agentId principalId)"

definition identityMatches :: "execution_scope \<Rightarrow> caller_context option \<Rightarrow> bool" where
  "identityMatches scope caller =
     (case caller of
        Some (CallerV2 c) \<Rightarrow>
          cc_principal c \<noteq> None \<and>
          (case parseFederatedPrincipal (es_principalId scope) of
             Some t \<Rightarrow> cc_actor c = Some (fp_issuer t) \<and> cc_principal c = Some (fp_subject t)
           | None \<Rightarrow> cc_actor c = None \<and> cc_principal c = Some (es_principalId scope))
      | _ \<Rightarrow> False)"

definition scope_matches :: "(string \<Rightarrow> string) \<Rightarrow> string \<Rightarrow> assign \<Rightarrow> execution_scope \<Rightarrow> bool" where
  "scope_matches sha256 agentId task scope \<longleftrightarrow>
     get_or (as_executionId task) [] \<noteq> [] \<and> identityMatches scope (as_caller task) \<and>
     es_policy scope = executionScopePolicy (es_principalId scope) \<and>
     es_agentId scope = agentId \<and> es_id scope = scopeDigest sha256 agentId (es_principalId scope)"

definition TRACEABILITY_EXTENSION_URI :: string where
  "TRACEABILITY_EXTENSION_URI = ''https://github.com/a2aproject/a2a-samples/extensions/traceability/v1''"

definition INPUT_FILE_MAX_BYTES :: int where "INPUT_FILE_MAX_BYTES = 5 * 1024 * 1024"
definition INPUT_IMAGE_MIME :: "string list" where
  "INPUT_IMAGE_MIME = [''image/png'', ''image/jpeg'', ''image/webp'', ''image/gif'']"

definition decodedBase64Size :: "string \<Rightarrow> int" where
  "decodedBase64Size b64 =
     (if b64 = [] then 0
      else (let pad = (if suffix ''=='' b64 then 2 else if suffix ''='' b64 then 1 else 0)
            in max 0 (int (js_length b64) * 3 div 4 - pad)))"

definition part_kind :: "obj \<Rightarrow> string option" where
  "part_kind p = str_field p ''kind''"

definition part_file :: "obj \<Rightarrow> obj" where
  "part_file p = get_or (Option.bind (map_of p ''file'') as_record) []"

definition unsupported_part :: "obj \<Rightarrow> bool" where
  "unsupported_part p \<longleftrightarrow>
     part_kind p = Some ''data'' \<or> (part_kind p = Some ''file'' \<and> get_or (str_field (part_file p) ''bytes'') [] = [])"

definition refused_file :: "string \<Rightarrow> obj \<Rightarrow> bool" where
  "refused_file kind p \<longleftrightarrow>
     (let mime = get_or (str_field (part_file p) ''mimeType'') []
      in part_kind p = Some ''file'' \<and>
         ((mime \<notin> set INPUT_IMAGE_MIME \<and> \<not> (kind = ''claude'' \<and> mime = ''application/pdf'')) \<or>
          decodedBase64Size (get_or (str_field (part_file p) ''bytes'') []) > INPUT_FILE_MAX_BYTES))"

definition names_extension :: "assign \<Rightarrow> string \<Rightarrow> bool" where
  "names_extension task uri \<longleftrightarrow>
     caps_include (as_requestedExtensions task) uri \<or> caps_include (wm_extensions (as_message task)) uri"

text \<open>\<open>Inl\<close> is the error thrown, \<open>Inr\<close> the id of the scope.\<close>

definition validate_scope :: "(string \<Rightarrow> string) \<Rightarrow> string \<Rightarrow> string \<Rightarrow> assign \<Rightarrow> string + string" where
  "validate_scope sha256 kind agentId task =
     (case as_executionScope task of
        None \<Rightarrow> Inl ''execution scope required''
      | Some scope \<Rightarrow>
          if \<not> scope_ok scope then Inl ''invalid execution scope''
          else if \<not> scope_matches sha256 agentId task scope
          then Inl ''scope does not match authenticated caller, agent and execution''
          else if names_extension task OPENAI_COMPAT_EXTENSION_URI \<or>
            map_has (get_or (wm_metadata (as_message task)) []) OPENAI_COMPAT_EXTENSION_URI \<or>
            list_ex unsupported_part (wm_parts (as_message task))
          then Inl ''container requires plain A2A text or inline files; caller tools and URI inputs are unsupported''
          else if names_extension task TRACEABILITY_EXTENSION_URI
          then Inl ''traceability output is unsupported in caller containers''
          else if list_ex (refused_file kind) (wm_parts (as_message task))
          then Inl ''unsupported caller-runtime file MIME or size''
          else Inr (es_id scope))"

subsection \<open>Laws of the scope\<close>

lemma json_scope:
  "json_text (SArr [SStr a, SStr b, SStr c, SStr d]) = json_text (SArr [SStr a', SStr b', SStr c', SStr d']) \<longleftrightarrow>
   a = a' \<and> b = b' \<and> c = c' \<and> d = d'"
  by (auto simp: joined_def json_quote_prefix)

text \<open>Environments are isolated: what is hashed for a scope determines the agent and the
  principal, so two callers share an environment only when SHA-256 collides.\<close>

theorem scope_preimage_injective:
  "executionScopePreimage agentId principalId = executionScopePreimage agentId' principalId' \<longleftrightarrow>
   agentId = agentId' \<and> principalId = principalId'"
  unfolding executionScopePreimage_def json_scope by auto

text \<open>Only the authenticated federation handoff selects a federated environment: its key is the
  encoding of a tuple whose issuer is the acting connector and whose subject is the principal. A
  direct caller gets the environment of its own principal, which is never a federated key.\<close>

theorem scope_source:
  assumes "resolveExecutionScope sha256 agentId caps h = Some e"
  shows "supportsExecutionScopeV1 caps \<and> es_agentId e = agentId \<and>
    es_id e = scopeDigest sha256 agentId (es_principalId e) \<and>
    (if es_policy e = ''federated-principal-v1''
     then caps_include caps FEDERATED_EXECUTION_SCOPE_V1_CAPABILITY \<and>
       ho_authorizationProfile h = Some FEDERATION_PROFILE \<and> ho_authorizationKey h = Some (es_principalId e) \<and>
       (\<exists>t. formatFederatedPrincipal t = Some (es_principalId e) \<and>
          ho_actorId h = Some (fp_issuer t) \<and> ho_principalId h = Some (fp_subject t))
     else ho_actorId h = None \<and> ho_authorizationKey h = None \<and> ho_authorizationProfile h = None \<and>
       ho_principalId h = Some (es_principalId e) \<and> (\<forall>t. formatFederatedPrincipal t \<noteq> Some (es_principalId e)))"
proof -
  obtain p where p: "scope_principal caps h = Some p" and e: "es_principalId e = p" "es_agentId e = agentId"
      "es_policy e = executionScopePolicy p" "es_id e = sha256 (executionScopePreimage agentId p)"
    using assms by (auto simp: resolveExecutionScope_def Let_def split: option.splits if_splits)
  have caps: "supportsExecutionScopeV1 caps" using p by (auto simp: scope_principal_def Let_def split: if_splits)
  show ?thesis
  proof (cases "parseFederatedPrincipal p")
    case (Some t)
    then have f: "formatFederatedPrincipal t = Some p" using federated_parse_format by blast
    have "caps_include caps FEDERATED_EXECUTION_SCOPE_V1_CAPABILITY \<and> ho_authorizationProfile h = Some FEDERATION_PROFILE \<and>
        ho_authorizationKey h = Some p \<and> ho_actorId h = Some (fp_issuer t) \<and> ho_principalId h = Some (fp_subject t)"
      using p Some by (auto simp: scope_principal_def Let_def split: if_splits option.splits)
    then show ?thesis using e caps f Some by (auto simp: scopeDigest_def executionScopePolicy_def)
  next
    case None
    have "ho_actorId h = None \<and> ho_authorizationKey h = None \<and> ho_authorizationProfile h = None \<and> ho_principalId h = Some p"
      using p None by (auto simp: scope_principal_def Let_def split: if_splits option.splits)
    moreover have "formatFederatedPrincipal t \<noteq> Some p" for t using None federated_format_parse by fastforce
    ultimately show ?thesis using e caps None by (simp add: scopeDigest_def executionScopePolicy_def)
  qed
qed

text \<open>The container runtime accepts exactly the identity the server resolved: when the server has
  a scope and sends the caller context of the same handoff, the client's checks of policy, agent, digest
  and identity all pass.\<close>

theorem resolved_scope_accepted:
  assumes "resolveExecutionScope sha256 agentId caps h = Some scope"
    and "Option.bind (createCanonicalCallerContext (ho_principalId h) (ho_actorId h) atts) serializeCallerContextV2 = Some caller"
    and "as_executionScope task = Some scope" and "as_caller task = Some caller"
    and "as_executionId task = Some executionId" and "executionId \<noteq> []"
  shows "scope_ok scope \<and> scope_matches sha256 agentId task scope"
proof -
  have ok: "scope_ok scope" and pol: "es_policy scope = executionScopePolicy (es_principalId scope)"
      "es_agentId scope = agentId" "es_id scope = scopeDigest sha256 agentId (es_principalId scope)"
    and p: "scope_principal caps h = Some (es_principalId scope)"
    using assms(1) by (auto simp: resolveExecutionScope_def scopeDigest_def Let_def split: option.splits if_splits)
  have c: "caller = CallerV2 \<lparr>cc_principal = ho_principalId h, cc_actor = ho_actorId h, cc_attestations = non_empty_list atts\<rparr>"
    using assms(2) by (auto simp: createCanonicalCallerContext_def serializeCallerContextV2_def Let_def
        split: if_splits option.splits)
  have "identityMatches scope (Some caller)"
  proof (cases "parseFederatedPrincipal (es_principalId scope)")
    case None
    then have "ho_actorId h = None \<and> ho_principalId h = Some (es_principalId scope)"
      using p by (auto simp: scope_principal_def Let_def split: if_splits option.splits)
    then show ?thesis using None by (simp add: identityMatches_def c)
  next
    case (Some t)
    then have "ho_actorId h = Some (fp_issuer t) \<and> ho_principalId h = Some (fp_subject t)"
      using p by (auto simp: scope_principal_def Let_def split: if_splits option.splits)
    then show ?thesis using Some by (simp add: identityMatches_def c)
  qed
  then show ?thesis using ok pol assms(3-6) by (simp add: scope_matches_def)
qed

text \<open>A direct caller.\<close>

definition sample_handoff :: handoff where
  "sample_handoff = \<lparr>ho_principalId = Some ''p'', ho_actorId = None, ho_authorizationKey = None, ho_authorizationProfile = None\<rparr>"

definition sample_caps :: capabilities where
  "sample_caps = Some [EXECUTION_SCOPE_V1_CAPABILITY, CALLER_CONTEXT_V2_CAPABILITY, TASK_REPLAY_CAPABILITY]"

definition sample_sha :: "string \<Rightarrow> string" where
  "sample_sha s = replicate 64 CHR ''a''"

definition sample_scope :: execution_scope where
  "sample_scope = \<lparr>es_policy = ''direct-principal-v1'', es_id = replicate 64 CHR ''a'', es_agentId = ''agent'',
     es_principalId = ''p''\<rparr>"

definition sample_caller :: canonical_caller where
  "sample_caller = \<lparr>cc_principal = Some ''p'', cc_actor = None, cc_attestations = None\<rparr>"

definition sample_task :: assign where
  "sample_task = \<lparr>as_taskId = ''t'', as_executionId = Some ''e'', as_contextId = ''c'',
     as_message = \<lparr>wm_role = User, wm_parts = [], wm_messageId = ''m'', wm_metadata = None, wm_extensions = None\<rparr>,
     as_requestedExtensions = None, as_caller = Some (CallerV2 sample_caller), as_executionScope = Some sample_scope\<rparr>"

lemma short_lengths: "js_length ''p'' = 1" "js_length ''agent'' = 5"
  by (simp_all add: js_length_def utf16_units_def cont_def)

lemma not_federated: "parseFederatedPrincipal ''p'' = None"
  by (simp add: parseFederatedPrincipal_def FEDERATED_PREFIX_def)

lemma sample_resolved: "resolveExecutionScope sample_sha ''agent'' sample_caps sample_handoff = Some sample_scope"
proof -
  have p: "scope_principal sample_caps sample_handoff = Some ''p''"
    by (simp add: scope_principal_def sample_caps_def sample_handoff_def not_federated supportsExecutionScopeV1_def caps_include_def)
  have "scope_ok sample_scope"
    by (simp add: scope_ok_def sample_scope_def is_sha256_hex_def identifier_ok_def short_lengths list_all_iff)
  then show ?thesis
    unfolding resolveExecutionScope_def p
    by (simp add: sample_scope_def executionScopePolicy_def not_federated sample_sha_def)
qed

lemma sample_context: "createCanonicalCallerContext (Some ''p'') None None = Some sample_caller"
  by (simp add: createCanonicalCallerContext_def v2_ok_def isEmpty_caller_def identifier_ok_def short_lengths attestations_ok_def
      non_empty_list_def sample_caller_def)

lemma scope_source_witness:
  "es_policy sample_scope \<noteq> ''federated-principal-v1'' \<and> ho_principalId sample_handoff = Some (es_principalId sample_scope)"
proof -
  have "es_policy sample_scope \<noteq> ''federated-principal-v1''" by (simp add: sample_scope_def)
  then show ?thesis using scope_source [OF sample_resolved] by simp
qed

lemma resolved_scope_accepted_witness: "scope_matches sample_sha ''agent'' sample_task sample_scope"
proof -
  have "v2_ok sample_caller \<and> \<not> isEmpty_caller sample_caller"
    using sample_context by (auto simp: createCanonicalCallerContext_def Let_def split: if_splits)
  then have "Option.bind (createCanonicalCallerContext (ho_principalId sample_handoff) (ho_actorId sample_handoff) None)
      serializeCallerContextV2 = Some (CallerV2 sample_caller)"
    by (simp add: sample_handoff_def sample_context serializeCallerContextV2_def)
  from resolved_scope_accepted [OF sample_resolved this, of sample_task "''e''"] show ?thesis by (simp add: sample_task_def)
qed

subsection \<open>Laws of the caller context\<close>

text \<open>A caller context survives the wire: what the server serialises in the first version is
  read back as the same principal and attestations, a context with an actor has no first version (a
  delegated identity is never collapsed into its principal), and both versions stay within the bounds of their
  schema and are never empty.\<close>

theorem caller_context_roundtrip:
  "(serializeCallerContextV1 c = Some w \<longrightarrow>
      cc_actor c = None \<and>
      (\<exists>a p. w = CallerV1 a p \<and> v1_ok a p \<and>
         canonicalizeCallerContextV1 a p = Some (c\<lparr>cc_attestations := non_empty_list (cc_attestations c)\<rparr>))) \<and>
   (serializeCallerContextV2 c = Some w \<longrightarrow> w = CallerV2 c \<and> v2_ok c \<and> \<not> isEmpty_caller c)"
proof (rule conjI; rule impI)
  assume a: "serializeCallerContextV1 c = Some w"
  let ?p = "non_empty_list (cc_attestations c)"
  have idem: "non_empty_list (non_empty_list xs) = non_empty_list xs" for xs :: "attestation list option"
    by (simp add: non_empty_list_def split: option.split list.split)
  have w: "cc_actor c = None" "v1_ok (cc_principal c) ?p" "w = CallerV1 (cc_principal c) ?p"
      "\<not> (cc_principal c = None \<and> get_or ?p [] = [])"
    using a by (auto simp: serializeCallerContextV1_def Let_def split: if_splits)
  have "canonicalizeCallerContextV1 (cc_principal c) ?p = Some (c\<lparr>cc_attestations := ?p\<rparr>)"
    using w(1,2,4) by (cases c) (simp add: canonicalizeCallerContextV1_def createCanonicalCallerContext_def Let_def
        idem v2_ok_def v1_ok_def isEmpty_caller_def)
  then show "cc_actor c = None \<and> (\<exists>a p. w = CallerV1 a p \<and> v1_ok a p \<and>
     canonicalizeCallerContextV1 a p = Some (c\<lparr>cc_attestations := ?p\<rparr>))"
    using w by blast
next
  assume "serializeCallerContextV2 c = Some w"
  then show "w = CallerV2 c \<and> v2_ok c \<and> \<not> isEmpty_caller c"
    by (auto simp: serializeCallerContextV2_def split: if_splits)
qed

definition plain_caller :: canonical_caller where
  "plain_caller = \<lparr>cc_principal = Some ''p'', cc_actor = None, cc_attestations = None\<rparr>"

lemma caller_context_roundtrip_witness:
  "canonicalizeCallerContextV1 (Some ''p'') None = Some plain_caller"
proof -
  have "serializeCallerContextV1 plain_caller = Some (CallerV1 (Some ''p'') None)"
    by (simp add: serializeCallerContextV1_def plain_caller_def v1_ok_def identifier_ok_def short_lengths attestations_ok_def
        non_empty_list_def)
  then obtain a p where "CallerV1 (Some ''p'') None = CallerV1 a p"
      "canonicalizeCallerContextV1 a p = Some (plain_caller\<lparr>cc_attestations := non_empty_list (cc_attestations plain_caller)\<rparr>)"
    using caller_context_roundtrip [of plain_caller] by blast
  then show ?thesis by (simp add: plain_caller_def non_empty_list_def)
qed

end
