(* ===== verification/Scheduler.thy ===== *)
theory Scheduler
  imports Prelude
begin

text \<open>
  \<open>CallerExecutionScheduler\<close> (packages/client/src/caller-execution-scheduler.ts): admission of
  executions to caller environments. It bounds how many run at once, over all callers and per caller, and never runs two
  of one conversation together; callers take turns and a conversation is served in order.

  A waiter has the number of its \<open>acquire\<close> as identity; a live lease stands for a release callback not yet
  called. The busy set a lease captured is the one in the map as long as the lease lives, because
  it holds the lease's context until then. What the promises do is logged.
\<close>

subsection \<open>State\<close>

record waiter =
  wt_id :: nat
  wt_context :: string

record limits =
  lm_perCaller :: nat
  lm_global :: nat
  lm_queuePerCaller :: nat
  lm_queueLimit :: nat

datatype sched_event = Admitted_to nat string string | Refused nat string

record sched =
  sc_queues :: "(string, waiter list) jsmap"
  sc_busy :: "(string, string list) jsmap"
  sc_running :: nat
  sc_queued :: nat
  sc_leases :: "(nat, string \<times> string) jsmap"
  sc_next :: nat
  sc_log :: "sched_event list"

definition new_scheduler :: sched where
  "new_scheduler = \<lparr>sc_queues = [], sc_busy = [], sc_running = 0, sc_queued = 0, sc_leases = [], sc_next = 0, sc_log = []\<rparr>"

abbreviation queue_of :: "string \<Rightarrow> sched \<Rightarrow> waiter list" where
  "queue_of scope s \<equiv> get_or (map_of (sc_queues s) scope) []"

abbreviation busy_of :: "string \<Rightarrow> sched \<Rightarrow> string list" where
  "busy_of scope s \<equiv> get_or (map_of (sc_busy s) scope) []"

definition log_event :: "sched_event \<Rightarrow> sched \<Rightarrow> sched" where
  "log_event e s = s\<lparr>sc_log := sc_log s @ [e]\<rparr>"

subsection \<open>Operations\<close>

definition remove_waiter :: "string \<Rightarrow> nat \<Rightarrow> sched \<Rightarrow> bool \<times> sched" where
  "remove_waiter scope i s =
     (if i \<notin> wt_id ` set (queue_of scope s) then (False, s)
      else (let q = filter (\<lambda>w. wt_id w \<noteq> i) (queue_of scope s)
            in (True, s\<lparr>sc_queues := (if q = [] then map_del scope (sc_queues s) else map_set scope q (sc_queues s)),
                        sc_queued := sc_queued s - 1\<rparr>)))"

text \<open>The first scope, in the order of the map, that is below its limit and has a waiter whose context is idle.\<close>

fun pick_from :: "limits \<Rightarrow> sched \<Rightarrow> string list \<Rightarrow> (string \<times> waiter) option" where
  "pick_from lim s [] = None"
| "pick_from lim s (scope # scopes) =
     (if length (busy_of scope s) \<ge> lm_perCaller lim then pick_from lim s scopes
      else (case List.find (\<lambda>w. wt_context w \<notin> set (busy_of scope s)) (queue_of scope s) of
              None \<Rightarrow> pick_from lim s scopes
            | Some w \<Rightarrow> Some (scope, w)))"

definition pick :: "limits \<Rightarrow> sched \<Rightarrow> (string \<times> waiter) option" where
  "pick lim s = pick_from lim s (map_keys (sc_queues s))"

definition rotate_scope :: "string \<Rightarrow> sched \<Rightarrow> sched" where
  "rotate_scope scope s =
     (case map_of (sc_queues s) scope of
        None \<Rightarrow> s
      | Some q \<Rightarrow> s\<lparr>sc_queues := map_del scope (sc_queues s) @ [(scope, q)]\<rparr>)"

definition admit :: "string \<Rightarrow> waiter \<Rightarrow> sched \<Rightarrow> sched" where
  "admit scope w s =
     (let s1 = rotate_scope scope (snd (remove_waiter scope (wt_id w) s))
      in log_event (Admitted_to (wt_id w) scope (wt_context w))
           (s1\<lparr>sc_busy := map_set scope (busy_of scope s1 @ [wt_context w]) (sc_busy s1),
               sc_running := sc_running s1 + 1,
               sc_leases := map_set (wt_id w) (scope, wt_context w) (sc_leases s1)\<rparr>))"

definition waiters :: "sched \<Rightarrow> nat" where
  "waiters s = sum_list (map (\<lambda>p. length (snd p)) (sc_queues s))"

lemma sum_del: "map_of m k = Some v \<Longrightarrow> sum_list (map (\<lambda>p. length (snd p)) (map_del k m)) + length v \<le> sum_list (map (\<lambda>p. length (snd p)) m)"
proof (induction m)
  case (Cons p m)
  have "sum_list (map (\<lambda>p. length (snd p)) (map_del k m)) \<le> sum_list (map (\<lambda>p. length (snd p)) m)" by (induction m) auto
  with Cons show ?case by (cases p) auto
qed simp

lemma sum_set: "map_of m k = Some v \<Longrightarrow> sum_list (map (\<lambda>p. length (snd p)) (map_set k v' m)) + length v = sum_list (map (\<lambda>p. length (snd p)) m) + length v'"
  by (induction m) auto

lemma pick_from_D:
  "pick_from lim s scopes = Some (scope, w) \<Longrightarrow>
   scope \<in> set scopes \<and> length (busy_of scope s) < lm_perCaller lim \<and>
   List.find (\<lambda>w. wt_context w \<notin> set (busy_of scope s)) (queue_of scope s) = Some w"
  by (induction scopes) (auto split: if_splits option.splits)

lemma pick_D:
  assumes "pick lim s = Some (scope, w)"
  shows "map_of (sc_queues s) scope = Some (queue_of scope s)" "w \<in> set (queue_of scope s)"
    "wt_context w \<notin> set (busy_of scope s)" "length (busy_of scope s) < lm_perCaller lim"
proof -
  note p = pick_from_D [OF assms [unfolded pick_def]]
  then show "length (busy_of scope s) < lm_perCaller lim" by simp
  show "w \<in> set (queue_of scope s)" "wt_context w \<notin> set (busy_of scope s)"
    using p find_Some_D by fast+
  then show "map_of (sc_queues s) scope = Some (queue_of scope s)"
    by (cases "map_of (sc_queues s) scope") auto
qed

lemma filter_shorter: "w \<in> set q \<Longrightarrow> length (filter (\<lambda>v. wt_id v \<noteq> wt_id w) q) < length q"
  by (rule length_filter_less) auto

lemma admit_waiters:
  assumes q: "map_of (sc_queues s) scope = Some q" and w: "w \<in> set q"
  shows "waiters (admit scope w s) < waiters s"
proof -
  let ?q = "filter (\<lambda>v. wt_id v \<noteq> wt_id w) q"
  have l: "length ?q < length q" using filter_shorter [OF w] .
  have r: "snd (remove_waiter scope (wt_id w) s) =
      s\<lparr>sc_queues := (if ?q = [] then map_del scope (sc_queues s) else map_set scope ?q (sc_queues s)),
        sc_queued := sc_queued s - 1\<rparr>"
    using q w by (auto simp: remove_waiter_def)
  show ?thesis
  proof (cases "?q = []")
    case True
    have "sum_list (map (\<lambda>p. length (snd p)) (map_del scope (sc_queues s))) < waiters s"
      using sum_del [OF q] l unfolding waiters_def by linarith
    then show ?thesis
      using True unfolding admit_def Let_def r by (simp add: rotate_scope_def log_event_def waiters_def)
  next
    case False
    have "map_of (map_set scope ?q (sc_queues s)) scope = Some ?q" by simp
    from sum_del [OF this] sum_set [OF q, of ?q] l False show ?thesis
      unfolding admit_def Let_def r by (simp add: rotate_scope_def log_event_def waiters_def)
  qed
qed

function drain :: "limits \<Rightarrow> sched \<Rightarrow> sched" where
  "drain lim s =
     (if sc_running s < lm_global lim
      then (case pick lim s of None \<Rightarrow> s | Some (scope, w) \<Rightarrow> drain lim (admit scope w s))
      else s)"
  by auto
termination
  by (relation "measure (\<lambda>(lim, s). waiters s)") (auto intro: admit_waiters pick_D)

declare drain.simps [simp del]

definition acquire :: "limits \<Rightarrow> string \<Rightarrow> string \<Rightarrow> bool \<Rightarrow> sched \<Rightarrow> sched" where
  "acquire lim scope context aborted s =
     (let i = sc_next s; s0 = s\<lparr>sc_next := i + 1\<rparr>
      in if aborted then log_event (Refused i ''execution aborted'') s0
         else (let w = \<lparr>wt_id = i, wt_context = context\<rparr>;
                   s1 = drain lim (s0\<lparr>sc_queues := map_set scope (queue_of scope s0 @ [w]) (sc_queues s0),
                                      sc_queued := sc_queued s0 + 1\<rparr>)
               in if i \<in> wt_id ` set (queue_of scope s1) \<and>
                     (sc_queued s1 > lm_queueLimit lim \<or> length (queue_of scope s1) > lm_queuePerCaller lim)
                  then log_event (Refused i ''Caller execution queue full'') (snd (remove_waiter scope i s1))
                  else s1))"

definition abort_waiter :: "limits \<Rightarrow> string \<Rightarrow> nat \<Rightarrow> sched \<Rightarrow> sched" where
  "abort_waiter lim scope i s =
     (case remove_waiter scope i s of
        (False, s1) \<Rightarrow> s1
      | (True, s1) \<Rightarrow> drain lim (log_event (Refused i ''execution aborted'') s1))"

definition release_lease :: "limits \<Rightarrow> nat \<Rightarrow> sched \<Rightarrow> sched" where
  "release_lease lim i s =
     (case map_of (sc_leases s) i of
        None \<Rightarrow> s
      | Some (scope, context) \<Rightarrow>
          (let b = removeAll context (busy_of scope s)
           in drain lim (s\<lparr>sc_leases := map_del i (sc_leases s),
                           sc_busy := (if b = [] then map_del scope (sc_busy s) else map_set scope b (sc_busy s)),
                           sc_running := sc_running s - 1\<rparr>)))"

inductive sched_step :: "limits \<Rightarrow> sched \<Rightarrow> sched \<Rightarrow> bool" for lim where
  acquires: "sched_step lim s (acquire lim scope context aborted s)"
| aborts: "sched_step lim s (abort_waiter lim scope i s)"
| releases: "sched_step lim s (release_lease lim i s)"

end
