(* ===== verification/SchedulerFacts.thy ===== *)
theory SchedulerFacts
  imports Scheduler
begin

text \<open>
  What the scheduler guarantees under every interleaving of arrivals, aborts and releases: the bounds, one
  execution per conversation, no idle capacity while somebody eligible waits, and order within a conversation.
\<close>

subsection \<open>Views of the operations\<close>

lemma total_del:
  "distinct (map_keys m) \<Longrightarrow> map_of m k = Some v \<Longrightarrow>
   sum_list (map (\<lambda>p. length (snd p)) (map_del k m)) + length v = sum_list (map (\<lambda>p. length (snd p)) m)"
proof (induction m)
  case (Cons p m)
  show ?case
  proof (cases "fst p = k")
    case True
    then have "map_of m k = None" using Cons.prems(1) by (cases p) (simp add: map_of_eq_None_iff)
    then have "map_del k (p # m) = m" using True by (cases p) (simp add: map_del_absent)
    then show ?thesis using True Cons.prems(2) by (cases p) simp
  next
    case False
    then show ?thesis using Cons by (cases p) simp
  qed
qed simp

lemma waiter_mem: "i \<in> wt_id ` set (queue_of scope s) \<Longrightarrow> map_of (sc_queues s) scope = Some (queue_of scope s)"
  by (cases "map_of (sc_queues s) scope") auto

lemma filter_one_less:
  assumes "sorted_wrt (<) (map wt_id q)" and "i \<in> wt_id ` set q"
  shows "Suc (length (filter (\<lambda>w. wt_id w \<noteq> i) q)) = length q"
  using assms
proof (induction q)
  case (Cons w q)
  show ?case
  proof (cases "wt_id w = i")
    case True
    then have "\<forall>v \<in> set q. wt_id v \<noteq> i" using Cons.prems(1) by auto
    then have "filter (\<lambda>v. wt_id v \<noteq> i) q = q" by (simp add: filter_id_conv)
    then show ?thesis using True by simp
  next
    case False
    then show ?thesis using Cons by auto
  qed
qed simp

text \<open>Removal of a waiter that is there.\<close>

lemma removed_view:
  assumes d: "distinct (map_keys (sc_queues s))" and so: "sorted_wrt (<) (map wt_id (queue_of scope s))"
    and i: "i \<in> wt_id ` set (queue_of scope s)"
  defines "t \<equiv> snd (remove_waiter scope i s)"
  shows "queue_of sc t = (if sc = scope then filter (\<lambda>w. wt_id w \<noteq> i) (queue_of scope s) else queue_of sc s)"
    "distinct (map_keys (sc_queues t))"
    "map_of (sc_queues t) sc = Some q \<Longrightarrow> q \<noteq> [] \<or> map_of (sc_queues s) sc = Some q"
    "Suc (waiters t) = waiters s" "sc_queued t = sc_queued s - 1"
    "sc_busy t = sc_busy s" "sc_running t = sc_running s" "sc_leases t = sc_leases s" "sc_next t = sc_next s" "sc_log t = sc_log s"
proof -
  let ?q = "queue_of scope s" and ?f = "filter (\<lambda>w. wt_id w \<noteq> i) (queue_of scope s)"
  have m: "map_of (sc_queues s) scope = Some ?q" by (rule waiter_mem [OF i])
  have t: "t = s\<lparr>sc_queues := (if ?f = [] then map_del scope (sc_queues s) else map_set scope ?f (sc_queues s)),
      sc_queued := sc_queued s - 1\<rparr>"
    using i by (simp add: t_def remove_waiter_def Let_def)
  show "queue_of sc t = (if sc = scope then ?f else queue_of sc s)"
    unfolding t by simp
  show "distinct (map_keys (sc_queues t))" unfolding t using d by (simp split: if_split)
  show "map_of (sc_queues t) sc = Some q \<Longrightarrow> q \<noteq> [] \<or> map_of (sc_queues s) sc = Some q"
    unfolding t by (auto split: if_splits)
  have l: "Suc (length ?f) = length ?q" by (rule filter_one_less [OF so i])
  have "waiters (s\<lparr>sc_queues := map_del scope (sc_queues s)\<rparr>) + length ?q = waiters s"
    unfolding waiters_def using total_del [OF d m] by simp
  moreover have "waiters (s\<lparr>sc_queues := map_set scope ?f (sc_queues s)\<rparr>) + length ?q = waiters s + length ?f"
    unfolding waiters_def using sum_set [OF m, of ?f] by simp
  ultimately show "Suc (waiters t) = waiters s"
    unfolding t using l by (auto simp: waiters_def split: if_split)
  show "sc_queued t = sc_queued s - 1" "sc_busy t = sc_busy s" "sc_running t = sc_running s" "sc_leases t = sc_leases s"
    "sc_next t = sc_next s" "sc_log t = sc_log s"
    unfolding t by simp_all
qed

lemma rotated_view:
  assumes "distinct (map_keys (sc_queues s))"
  shows "map_of (sc_queues (rotate_scope scope s)) = map_of (sc_queues s)"
    "distinct (map_keys (sc_queues (rotate_scope scope s)))" "waiters (rotate_scope scope s) = waiters s"
    "sc_queued (rotate_scope scope s) = sc_queued s" "sc_busy (rotate_scope scope s) = sc_busy s"
    "sc_running (rotate_scope scope s) = sc_running s" "sc_leases (rotate_scope scope s) = sc_leases s"
    "sc_next (rotate_scope scope s) = sc_next s" "sc_log (rotate_scope scope s) = sc_log s"
proof -
  have d: "distinct (map_keys (map_del scope (sc_queues s)))" "scope \<notin> fst ` set (map_del scope (sc_queues s))"
    using assms by simp_all
  show "map_of (sc_queues (rotate_scope scope s)) = map_of (sc_queues s)"
    by (rule ext) (simp add: rotate_scope_def map_add_def split: option.split)
  show "distinct (map_keys (sc_queues (rotate_scope scope s)))"
    using d assms by (simp add: rotate_scope_def split: option.split)
  show "waiters (rotate_scope scope s) = waiters s"
    using total_del [OF assms] by (simp add: rotate_scope_def waiters_def split: option.split)
qed (simp_all add: rotate_scope_def split: option.split)

subsection \<open>The invariant\<close>

text \<open>The ids admitted so far for one conversation, in order.\<close>

definition admitted :: "string \<Rightarrow> string \<Rightarrow> sched \<Rightarrow> nat list" where
  "admitted scope c s =
     List.map_filter (\<lambda>e. case e of Admitted_to i sc c' \<Rightarrow> if sc = scope \<and> c' = c then Some i else None | _ \<Rightarrow> None) (sc_log s)"

abbreviation waiting_ids :: "sched \<Rightarrow> nat set" where
  "waiting_ids s \<equiv> {wt_id w | w scope. w \<in> set (queue_of scope s)}"

definition queues_ok :: "sched \<Rightarrow> bool" where
  "queues_ok s \<longleftrightarrow>
     distinct (map_keys (sc_queues s)) \<and> sc_queued s = waiters s \<and>
     (\<forall>scope. sorted_wrt (<) (map wt_id (queue_of scope s)) \<and> (\<forall>w \<in> set (queue_of scope s). wt_id w < sc_next s)) \<and>
     (\<forall>scope scope' w w'. w \<in> set (queue_of scope s) \<longrightarrow> w' \<in> set (queue_of scope' s) \<longrightarrow> wt_id w = wt_id w' \<longrightarrow> scope = scope')"

definition leases_ok :: "limits \<Rightarrow> sched \<Rightarrow> bool" where
  "leases_ok lim s \<longleftrightarrow>
     distinct (map_keys (sc_leases s)) \<and> sc_running s = length (sc_leases s) \<and> sc_running s \<le> lm_global lim \<and>
     (\<forall>i \<in> fst ` set (sc_leases s). i < sc_next s \<and> i \<notin> waiting_ids s) \<and>
     (\<forall>scope. distinct (busy_of scope s) \<and> length (busy_of scope s) \<le> lm_perCaller lim \<and>
        (\<forall>c. c \<in> set (busy_of scope s) \<longleftrightarrow> (\<exists>i. map_of (sc_leases s) i = Some (scope, c)))) \<and>
     (\<forall>i j x. map_of (sc_leases s) i = Some x \<longrightarrow> map_of (sc_leases s) j = Some x \<longrightarrow> i = j)"

definition order_ok :: "sched \<Rightarrow> bool" where
  "order_ok s \<longleftrightarrow>
     (\<forall>scope c. sorted_wrt (<) (admitted scope c s) \<and> (\<forall>i \<in> set (admitted scope c s). i < sc_next s \<and>
        (\<forall>w \<in> set (queue_of scope s). wt_context w = c \<longrightarrow> i < wt_id w)))"

definition core_ok :: "limits \<Rightarrow> sched \<Rightarrow> bool" where
  "core_ok lim s \<longleftrightarrow> queues_ok s \<and> leases_ok lim s \<and> order_ok s"

definition idle_ok :: "limits \<Rightarrow> sched \<Rightarrow> bool" where
  "idle_ok lim s \<longleftrightarrow> (sc_running s < lm_global lim \<longrightarrow> pick lim s = None)"

lemma queues_ok_D:
  assumes "queues_ok s"
  shows "distinct (map_keys (sc_queues s))" "sc_queued s = waiters s" "sorted_wrt (<) (map wt_id (queue_of scope s))"
    "w \<in> set (queue_of scope s) \<Longrightarrow> wt_id w < sc_next s"
    "w \<in> set (queue_of scope s) \<Longrightarrow> w' \<in> set (queue_of scope' s) \<Longrightarrow> wt_id w = wt_id w' \<Longrightarrow> scope = scope'"
  using assms unfolding queues_ok_def by blast+

lemma same_waiter: "sorted_wrt (<) (map wt_id q) \<Longrightarrow> w \<in> set q \<Longrightarrow> v \<in> set q \<Longrightarrow> wt_id v = wt_id w \<Longrightarrow> v = w"
  by (induction q) auto

lemma sorted_map_filter: "sorted_wrt (<) (map wt_id q) \<Longrightarrow> sorted_wrt (<) (map wt_id (filter P q))"
  by (induction q) auto

lemma lease_not_waiting:
  assumes "leases_ok lim s" and "i \<in> fst ` set (sc_leases s)"
  shows "i \<notin> waiting_ids s"
proof -
  have "\<forall>i \<in> fst ` set (sc_leases s). i < sc_next s \<and> i \<notin> waiting_ids s"
    using assms(1) unfolding leases_ok_def by (elim conjE) assumption
  from bspec [OF this assms(2)] show ?thesis by (rule conjunct2)
qed

text \<open>Removing a waiter keeps everything.\<close>

lemma remove_core:
  assumes core: "core_ok lim s" and i: "i \<in> wt_id ` set (queue_of scope s)"
  shows "core_ok lim (snd (remove_waiter scope i s))"
proof -
  have q: "queues_ok s" "leases_ok lim s" "order_ok s" using core by (simp_all add: core_ok_def)
  note D = queues_ok_D [OF q(1)]
  define t where "t = snd (remove_waiter scope i s)"
  note v = removed_view [OF D(1) D(3) i, folded t_def]
  have sub: "w \<in> set (queue_of sc t) \<Longrightarrow> w \<in> set (queue_of sc s)" for w sc
    unfolding v(1) by (simp split: if_splits)
  have "queues_ok t"
    unfolding queues_ok_def
  proof (intro conjI allI impI ballI)
    show "distinct (map_keys (sc_queues t))" "sc_queued t = waiters t" using v(2,4,5) D(2) by simp_all
    show "sorted_wrt (<) (map wt_id (queue_of sc t))" for sc
      unfolding v(1) using sorted_map_filter [OF D(3)] D(3) by simp
    show "wt_id w < sc_next t" if "w \<in> set (queue_of sc t)" for w sc using D(4) [OF sub [OF that]] v(9) by simp
    show "sc = sc'" if "w \<in> set (queue_of sc t)" "w' \<in> set (queue_of sc' t)" "wt_id w = wt_id w'" for sc sc' w w'
      using D(5) [OF sub [OF that(1)] sub [OF that(2)] that(3)] .
  qed
  moreover have "leases_ok lim t"
    using q(2) sub unfolding leases_ok_def v(6-10) by blast
  moreover have "admitted sc c t = admitted sc c s" for sc c by (simp add: admitted_def v(10))
  then have "order_ok t" using q(3) sub unfolding order_ok_def v(9) by metis
  ultimately show ?thesis by (simp add: core_ok_def t_def)
qed

lemma rotate_core: "core_ok lim s \<Longrightarrow> core_ok lim (rotate_scope scope s)"
proof -
  assume c: "core_ok lim s"
  then have d: "distinct (map_keys (sc_queues s))" by (simp add: core_ok_def queues_ok_def)
  note v = rotated_view [OF d, of scope]
  show ?thesis
    using c unfolding core_ok_def queues_ok_def leases_ok_def order_ok_def admitted_def v by (simp add: v(2))
qed

subsection \<open>Admission\<close>

lemma find_least:
  "sorted_wrt (<) (map wt_id q) \<Longrightarrow> List.find P q = Some w \<Longrightarrow> v \<in> set q \<Longrightarrow> P v \<Longrightarrow> wt_id w \<le> wt_id v"
  by (induction q) (auto split: if_splits)

lemma admitted_log:
  "admitted sc c (log_event (Admitted_to i scope ctx) s) = admitted sc c s @ (if sc = scope \<and> c = ctx then [i] else [])"
  "admitted sc c (log_event (Refused i r) s) = admitted sc c s"
  by (simp_all add: admitted_def log_event_def map_filter_def)

lemma admit_core:
  assumes core: "core_ok lim s" and p: "pick lim s = Some (scope, w)" and g: "sc_running s < lm_global lim"
  shows "core_ok lim (admit scope w s)"
proof -
  note P = pick_D [OF p]
  have pf: "List.find (\<lambda>w. wt_context w \<notin> set (busy_of scope s)) (queue_of scope s) = Some w"
    using pick_from_D p by (simp add: pick_def)
  have Q: "queues_ok s" "leases_ok lim s" "order_ok s" using core by (simp_all add: core_ok_def)
  note D = queues_ok_D [OF Q(1)]
  have i: "wt_id w \<in> wt_id ` set (queue_of scope s)" using P(2) by simp
  define r where "r = snd (remove_waiter scope (wt_id w) s)"
  define t where "t = rotate_scope scope r"
  define u where "u = t\<lparr>sc_busy := map_set scope (busy_of scope t @ [wt_context w]) (sc_busy t),
      sc_running := sc_running t + 1, sc_leases := map_set (wt_id w) (scope, wt_context w) (sc_leases t)\<rparr>"
  have u: "admit scope w s = log_event (Admitted_to (wt_id w) scope (wt_context w)) u"
    by (simp add: admit_def u_def t_def r_def Let_def)
  have rc: "core_ok lim r" unfolding r_def by (rule remove_core [OF core i])
  have tc: "core_ok lim t" unfolding t_def by (rule rotate_core [OF rc])
  note vr = removed_view [OF D(1) D(3) i, folded r_def]
  note vt = rotated_view [OF vr(2), of scope, folded t_def]
  have qt: "queue_of sc t = (if sc = scope then filter (\<lambda>v. wt_id v \<noteq> wt_id w) (queue_of scope s) else queue_of sc s)" for sc
    unfolding vt(1) by (rule vr(1))
  have bt: "sc_busy t = sc_busy s" "sc_leases t = sc_leases s" "sc_running t = sc_running s" "sc_next t = sc_next s"
    "admitted sc c t = admitted sc c s" for sc c
    using vr vt by (simp_all add: admitted_def)
  have gone: "wt_id w \<noteq> wt_id v" if "v \<in> set (queue_of sc t)" for v sc
    using that D(5) [OF P(2), of v sc] unfolding qt by (auto split: if_splits)
  have fresh: "wt_id w \<notin> fst ` set (sc_leases s)" using Q(2) P(2) unfolding leases_ok_def by blast
  have TQ: "queues_ok t" "leases_ok lim t" "order_ok t" using tc by (simp_all add: core_ok_def)
  have "queues_ok u" using TQ(1) unfolding queues_ok_def u_def waiters_def by simp
  moreover have "leases_ok lim u"
    unfolding leases_ok_def
  proof (intro conjI allI impI ballI)
    have len: "length (map_set (wt_id w) x (sc_leases s)) = Suc (length (sc_leases s))" for x
      using fresh by (rule length_set_fresh)
    show "distinct (map_keys (sc_leases u))" "sc_running u = length (sc_leases u)" "sc_running u \<le> lm_global lim"
      using TQ(2) g len unfolding leases_ok_def u_def bt by simp_all
    show "j < sc_next u" if "j \<in> fst ` set (sc_leases u)" for j
      using that TQ(2) D(4) [OF P(2)] unfolding leases_ok_def u_def bt by (auto simp: bt)
    show "j \<notin> waiting_ids u" if "j \<in> fst ` set (sc_leases u)" for j
    proof -
      have u': "waiting_ids u = waiting_ids t" by (simp add: u_def)
      have w': "wt_id w \<notin> waiting_ids t" using gone by blast
      have "j = wt_id w \<or> j \<in> fst ` set (sc_leases t)" using that unfolding u_def bt by auto
      then show ?thesis
        unfolding u' by (elim disjE) (simp only: w' not_False_eq_True, rule lease_not_waiting [OF TQ(2)])
    qed
    show "distinct (busy_of sc u)" for sc
      using TQ(2) P(3) unfolding leases_ok_def u_def bt by simp
    show "length (busy_of sc u) \<le> lm_perCaller lim" for sc
      using TQ(2) P(4) unfolding leases_ok_def u_def bt by simp
    show "c \<in> set (busy_of sc u) \<longleftrightarrow> (\<exists>j. map_of (sc_leases u) j = Some (sc, c))" for sc c
    proof -
      have old: "\<And>sc c. c \<in> set (busy_of sc s) \<longleftrightarrow> (\<exists>j. map_of (sc_leases s) j = Some (sc, c))"
        using Q(2) unfolding leases_ok_def by blast
      have n: "map_of (sc_leases s) (wt_id w) = None" using fresh by (simp add: map_of_eq_None_iff)
      have mu: "map_of (sc_leases u) j = (if j = wt_id w then Some (scope, wt_context w) else map_of (sc_leases s) j)" for j
        unfolding u_def bt by simp
      have new: "(\<exists>j. map_of (sc_leases u) j = Some (sc, c)) \<longleftrightarrow>
          (sc = scope \<and> c = wt_context w) \<or> (\<exists>j. map_of (sc_leases s) j = Some (sc, c))"
        unfolding mu using n by (metis option.distinct(1) option.inject prod.inject)
      show ?thesis unfolding new using old [of c sc] unfolding u_def bt by auto
    qed
    show "a = b" if "map_of (sc_leases u) a = Some x" "map_of (sc_leases u) b = Some x" for a b x
    proof -
      have no: "map_of (sc_leases s) j \<noteq> Some (scope, wt_context w)" for j
        using Q(2) P(3) unfolding leases_ok_def by blast
      have "map_of (sc_leases s) a = Some x \<Longrightarrow> map_of (sc_leases s) b = Some x \<Longrightarrow> a = b"
        using Q(2) unfolding leases_ok_def by blast
      then show ?thesis using that no unfolding u_def bt by (auto split: if_splits)
    qed
  qed
  ultimately have core_u: "queues_ok (admit scope w s)" "leases_ok lim (admit scope w s)"
    unfolding u queues_ok_def leases_ok_def waiters_def log_event_def by simp_all
  have "order_ok (admit scope w s)"
    unfolding order_ok_def u admitted_log
  proof (intro conjI allI ballI impI)
    have O: "sorted_wrt (<) (admitted sc c s)" "\<And>j. j \<in> set (admitted sc c s) \<Longrightarrow> j < sc_next s"
        "\<And>j v. j \<in> set (admitted sc c s) \<Longrightarrow> v \<in> set (queue_of sc s) \<Longrightarrow> wt_context v = c \<Longrightarrow> j < wt_id v" for sc c
      using Q(3) unfolding order_ok_def by blast+
    have au: "admitted sc c u = admitted sc c s" for sc c using bt(5) by (simp add: admitted_def u_def)
    show "sorted_wrt (<) (admitted sc c u @ (if sc = scope \<and> c = wt_context w then [wt_id w] else []))" for sc c
      using O(1) [of sc c] O(3) [of _ scope "wt_context w", OF _ P(2)] by (auto simp: au sorted_wrt_append)
    fix sc c j
    assume j: "j \<in> set (admitted sc c u @ (if sc = scope \<and> c = wt_context w then [wt_id w] else []))"
    show "j < sc_next (log_event (Admitted_to (wt_id w) scope (wt_context w)) u)"
    proof -
      have "j \<in> set (admitted sc c s) \<or> j = wt_id w" using j by (auto simp: au split: if_splits)
      moreover have "sc_next (log_event (Admitted_to (wt_id w) scope (wt_context w)) u) = sc_next s"
        by (simp add: log_event_def u_def bt)
      ultimately show ?thesis using O(2) [of j sc c] D(4) [OF P(2)] by auto
    qed
    fix v assume v: "v \<in> set (queue_of sc (log_event (Admitted_to (wt_id w) scope (wt_context w)) u))" "wt_context v = c"
    then have vt': "v \<in> set (queue_of sc t)" by (simp add: log_event_def u_def)
    then have vs: "v \<in> set (queue_of sc s)" unfolding qt by (simp split: if_splits)
    show "j < wt_id v"
    proof (cases "j \<in> set (admitted sc c s)")
      case True
      then show ?thesis using O(3) vs v(2) by blast
    next
      case False
      then have e: "sc = scope" "c = wt_context w" "j = wt_id w" using j by (auto simp: au split: if_splits)
      have "wt_id w \<le> wt_id v"
        by (rule find_least [OF D(3) pf]) (use vs v(2) e P(3) in simp_all)
      then show ?thesis using gone [OF vt'] e(3) by simp
    qed
  qed
  with core_u show ?thesis by (simp add: core_ok_def)
qed

lemma drain_core: "core_ok lim s \<Longrightarrow> core_ok lim (drain lim s) \<and> idle_ok lim (drain lim s)"
proof (induction lim s rule: drain.induct)
  case (1 lim s)
  show ?case
  proof (cases "sc_running s < lm_global lim")
    case False
    then show ?thesis using "1.prems" by (subst drain.simps, subst drain.simps) (simp add: idle_ok_def)
  next
    case True
    show ?thesis
    proof (cases "pick lim s")
      case None
      then have "drain lim s = s" using True by (subst drain.simps) simp
      then show ?thesis using None "1.prems" by (simp add: idle_ok_def)
    next
      case (Some x)
      then obtain scope w where p: "pick lim s = Some (scope, w)" by (cases x) simp
      have d: "drain lim s = drain lim (admit scope w s)" using True p by (subst drain.simps) simp
      show ?thesis unfolding d using "1.IH" [OF True p refl admit_core [OF "1.prems" p True]] .
    qed
  qed
qed

subsection \<open>The operations keep the invariant\<close>

definition bounds_ok :: "limits \<Rightarrow> sched \<Rightarrow> bool" where
  "bounds_ok lim s \<longleftrightarrow> waiters s \<le> lm_queueLimit lim \<and> (\<forall>scope. length (queue_of scope s) \<le> lm_queuePerCaller lim)"

definition sched_ok :: "limits \<Rightarrow> sched \<Rightarrow> bool" where
  "sched_ok lim s \<longleftrightarrow> core_ok lim s \<and> idle_ok lim s \<and> bounds_ok lim s"

lemma admit_shrinks:
  assumes core: "core_ok lim s" and p: "pick lim s = Some (scope, w)"
  shows "subseq (queue_of sc (admit scope w s)) (queue_of sc s)" "waiters (admit scope w s) < waiters s"
proof -
  note P = pick_D [OF p]
  have q: "queues_ok s" using core by (simp add: core_ok_def)
  note D = queues_ok_D [OF q]
  have i: "wt_id w \<in> wt_id ` set (queue_of scope s)" using P(2) by simp
  note vr = removed_view [OF D(1) D(3) i]
  have "queue_of sc (admit scope w s) = queue_of sc (snd (remove_waiter scope (wt_id w) s))"
    using rotated_view(1) [OF vr(2), of scope] by (simp add: admit_def log_event_def Let_def)
  also have "subseq \<dots> (queue_of sc s)" unfolding vr(1) by (simp split: if_split)
  finally show "subseq (queue_of sc (admit scope w s)) (queue_of sc s)" .
  show "waiters (admit scope w s) < waiters s" by (rule admit_waiters [OF P(1,2)])
qed

lemma drain_shrinks:
  "core_ok lim s \<Longrightarrow>
   subseq (queue_of sc (drain lim s)) (queue_of sc s) \<and> (drain lim s = s \<or> waiters (drain lim s) < waiters s)"
proof (induction lim s rule: drain.induct)
  case (1 lim s)
  show ?case
  proof (cases "sc_running s < lm_global lim")
    case False
    then have "drain lim s = s" by (subst drain.simps) simp
    then show ?thesis by simp
  next
    case True
    show ?thesis
    proof (cases "pick lim s")
      case None
      then have "drain lim s = s" using True by (subst drain.simps) simp
      then show ?thesis by simp
    next
      case (Some x)
      then obtain scope w where p: "pick lim s = Some (scope, w)" by (cases x) simp
      have d: "drain lim s = drain lim (admit scope w s)" using True p by (subst drain.simps) simp
      note a = admit_shrinks [OF "1.prems" p]
      note ih = "1.IH" [OF True p refl admit_core [OF "1.prems" p True]]
      then have "subseq (queue_of sc (drain lim s)) (queue_of sc s)" using a(1) [of sc] subseq_order.order_trans d by fastforce
      moreover have "waiters (drain lim s) < waiters s" using ih a(2) d by auto
      ultimately show ?thesis by simp
    qed
  qed
qed

lemma drain_bounds: "core_ok lim s \<Longrightarrow> bounds_ok lim s \<Longrightarrow> bounds_ok lim (drain lim s)"
  unfolding bounds_ok_def using drain_shrinks [of lim s] list_emb_length
  by (metis (no_types, lifting) le_trans less_imp_le order_refl)

lemma pick_from_None:
  "pick_from lim s scopes = None \<longleftrightarrow>
   (\<forall>scope \<in> set scopes. length (busy_of scope s) < lm_perCaller lim \<longrightarrow>
      (\<forall>w \<in> set (queue_of scope s). wt_context w \<in> set (busy_of scope s)))"
proof -
  define Q where "Q sc = queue_of sc s" for sc
  define B where "B sc = busy_of sc s" for sc
  note QB = Q_def [symmetric] B_def [symmetric]
  show ?thesis
    unfolding QB
  proof (induction scopes)
    case (Cons a scopes)
    show ?case
    proof (cases "List.find (\<lambda>w. wt_context w \<notin> set (B a)) (Q a)")
      case None
      then have "pick_from lim s (a # scopes) = pick_from lim s scopes" unfolding pick_from.simps QB by simp
      moreover have "\<forall>w \<in> set (Q a). wt_context w \<in> set (B a)" using None by (simp add: find_None_iff)
      ultimately show ?thesis using Cons by auto
    next
      case (Some w)
      then have "w \<in> set (Q a)" "wt_context w \<notin> set (B a)" using find_Some_D by fast+
      then show ?thesis using Cons Some unfolding pick_from.simps QB by (auto simp: not_less)
    qed
  qed simp
qed

text \<open>Nobody eligible: what \<open>pick\<close> looks for, over all scopes.\<close>

lemma pick_None:
  "pick lim s = None \<longleftrightarrow>
   (\<forall>scope. length (busy_of scope s) < lm_perCaller lim \<longrightarrow>
      (\<forall>w \<in> set (queue_of scope s). wt_context w \<in> set (busy_of scope s)))"
proof -
  have "scope \<in> fst ` set (sc_queues s)" if "w \<in> set (queue_of scope s)" for w scope
    using that by (cases "map_of (sc_queues s) scope") (auto dest: map_of_SomeD intro: rev_image_eqI)
  then show ?thesis unfolding pick_def pick_from_None set_map by blast
qed

lemma core_next: "core_ok lim s \<Longrightarrow> core_ok lim (s\<lparr>sc_next := Suc (sc_next s)\<rparr>)"
  unfolding core_ok_def queues_ok_def leases_ok_def order_ok_def admitted_def waiters_def
  by (auto simp: less_Suc_eq)

lemma core_refused: "core_ok lim (log_event (Refused i r) s) \<longleftrightarrow> core_ok lim s"
  unfolding core_ok_def queues_ok_def leases_ok_def order_ok_def admitted_log waiters_def by (simp add: log_event_def)

lemma same_refused:
  "idle_ok lim (log_event (Refused i r) s) = idle_ok lim s" "bounds_ok lim (log_event (Refused i r) s) = bounds_ok lim s"
  unfolding idle_ok_def pick_None bounds_ok_def waiters_def by (simp_all add: log_event_def)

lemma removed_rest:
  assumes ok: "core_ok lim s" and i: "i \<in> wt_id ` set (queue_of scope s)"
  shows "idle_ok lim s \<Longrightarrow> idle_ok lim (snd (remove_waiter scope i s))"
    "bounds_ok lim s \<Longrightarrow> bounds_ok lim (snd (remove_waiter scope i s))"
proof -
  have q: "queues_ok s" using ok by (simp add: core_ok_def)
  note v = removed_view [OF queues_ok_D(1,3) [OF q] i]
  show "idle_ok lim s \<Longrightarrow> idle_ok lim (snd (remove_waiter scope i s))"
    unfolding idle_ok_def pick_None v(1,6,7) by auto
  show "bounds_ok lim s \<Longrightarrow> bounds_ok lim (snd (remove_waiter scope i s))"
    unfolding bounds_ok_def v(1) using v(4) le_trans [OF length_filter_le] by fastforce
qed

lemma abort_ok: "sched_ok lim s \<Longrightarrow> sched_ok lim (abort_waiter lim scope i s)"
proof (cases "i \<in> wt_id ` set (queue_of scope s)")
  case False
  assume "sched_ok lim s"
  then show ?thesis using False by (simp add: abort_waiter_def remove_waiter_def)
next
  case True
  assume ok: "sched_ok lim s"
  let ?t = "log_event (Refused i ''execution aborted'') (snd (remove_waiter scope i s))"
  have t: "core_ok lim ?t" "bounds_ok lim ?t"
    using ok remove_core [OF _ True] removed_rest(2) [OF _ True] by (simp_all add: sched_ok_def core_refused same_refused)
  have "abort_waiter lim scope i s = drain lim ?t"
    using True by (simp add: abort_waiter_def remove_waiter_def Let_def)
  then show ?thesis using drain_core [OF t(1)] drain_bounds [OF t] by (simp add: sched_ok_def)
qed

subsection \<open>Arrivals\<close>

abbreviation pushed :: "string \<Rightarrow> waiter \<Rightarrow> sched \<Rightarrow> sched" where
  "pushed scope w s \<equiv> s\<lparr>sc_next := Suc (wt_id w), sc_queues := map_set scope (queue_of scope s @ [w]) (sc_queues s),
     sc_queued := Suc (sc_queued s)\<rparr>"

lemma sum_new: "map_of m k = None \<Longrightarrow> sum_list (map (\<lambda>p. length (snd p)) (map_set k v m)) = sum_list (map (\<lambda>p. length (snd p)) m) + length v"
  by (induction m) (auto split: if_splits)

lemma pushed_waiters: "waiters (pushed scope w s) = Suc (waiters s)"
proof (cases "map_of (sc_queues s) scope")
  case None
  then show ?thesis by (simp add: waiters_def sum_new)
next
  case (Some q)
  then show ?thesis using sum_set [OF Some, of "q @ [w]"] by (simp add: waiters_def)
qed

lemma pushed_queue: "queue_of sc (pushed scope w s) = (if sc = scope then queue_of scope s @ [w] else queue_of sc s)"
  by simp

lemma pushed_core:
  assumes core: "core_ok lim s" and w: "wt_id w = sc_next s"
  shows "core_ok lim (pushed scope w s)"
proof -
  let ?p = "pushed scope w s"
  have q: "queues_ok s" "leases_ok lim s" "order_ok s" using core by (simp_all add: core_ok_def)
  note D = queues_ok_D [OF q(1)]
  have mem: "v \<in> set (queue_of sc ?p) \<Longrightarrow> v \<in> set (queue_of sc s) \<or> (v = w \<and> sc = scope)" for v sc
    unfolding pushed_queue by (auto split: if_splits)
  have fresh: "wt_id v \<noteq> wt_id w" if "v \<in> set (queue_of sc s)" for v sc using D(4) [OF that] w by simp
  have "queues_ok ?p"
    unfolding queues_ok_def
  proof (intro conjI allI impI ballI)
    show "distinct (map_keys (sc_queues ?p))" "sc_queued ?p = waiters ?p"
      using D(1,2) pushed_waiters [where scope = scope and w = w and s = s] by simp_all
    show "sorted_wrt (<) (map wt_id (queue_of sc ?p))" for sc
      unfolding pushed_queue using D(3) D(4) [of _ scope] w by (auto simp: sorted_wrt_append)
    show "wt_id v < sc_next ?p" if "v \<in> set (queue_of sc ?p)" for v sc
      using mem [OF that] less_SucI [OF D(4) [of v sc]] w by auto
    show "sc = sc'" if "v \<in> set (queue_of sc ?p)" "v' \<in> set (queue_of sc' ?p)" "wt_id v = wt_id v'" for sc sc' v v'
      using mem [OF that(1)] mem [OF that(2)] that(3) D(5) fresh by metis
  qed
  moreover have "leases_ok lim ?p"
  proof -
    have "i < sc_next ?p \<and> i \<notin> waiting_ids ?p" if i: "i \<in> fst ` set (sc_leases s)" for i
    proof
      have "i < sc_next s" using q(2) i unfolding leases_ok_def by (elim conjE) (drule (1) bspec, erule conjunct1)
      then show "i < sc_next ?p" using w by simp
      show "i \<notin> waiting_ids ?p"
      proof
        assume "i \<in> waiting_ids ?p"
        then obtain v sc where "v \<in> set (queue_of sc ?p)" "i = wt_id v" by blast
        then have "i \<in> waiting_ids s \<or> i = wt_id w" using mem by blast
        then show False using lease_not_waiting [OF q(2) i] \<open>i < sc_next s\<close> w by simp
      qed
    qed
    then show ?thesis using q(2) unfolding leases_ok_def by simp
  qed
  moreover have "order_ok ?p"
    unfolding order_ok_def
  proof (intro conjI allI ballI impI)
    fix sc c
    have a: "admitted sc c ?p = admitted sc c s" by (simp add: admitted_def)
    show "sorted_wrt (<) (admitted sc c ?p)" using q(3) unfolding a order_ok_def by blast
    fix i assume "i \<in> set (admitted sc c ?p)"
    then have i: "i \<in> set (admitted sc c s)" unfolding a .
    then have lt: "i < sc_next s" using q(3) unfolding order_ok_def by blast
    then show "i < sc_next ?p" using w by simp
    show "i < wt_id v" if "v \<in> set (queue_of sc ?p)" "wt_context v = c" for v
      using mem [OF that(1)] that(2) q(3) i lt w unfolding order_ok_def by metis
  qed
  ultimately show ?thesis by (simp add: core_ok_def)
qed

lemma subseq_without: "subseq xs (ys @ [w]) \<Longrightarrow> w \<notin> set xs \<Longrightarrow> length xs \<le> length ys"
proof -
  assume a: "subseq xs (ys @ [w])" "w \<notin> set xs"
  have "filter (\<lambda>v. v \<noteq> w) xs = xs" using a(2) by (auto simp: filter_id_conv)
  with subseq_filter [OF a(1), of "\<lambda>v. v \<noteq> w"] have "subseq xs (filter (\<lambda>v. v \<noteq> w) (ys @ [w]))" by simp
  then have "length xs \<le> length (filter (\<lambda>v. v \<noteq> w) (ys @ [w]))" by (rule list_emb_length)
  also have "\<dots> \<le> length ys" by simp
  finally show ?thesis .
qed

lemma acquire_ok: "sched_ok lim s \<Longrightarrow> sched_ok lim (acquire lim scope context aborted s)"
proof (cases aborted)
  case True
  assume "sched_ok lim s"
  moreover have "idle_ok lim (s\<lparr>sc_next := x\<rparr>) = idle_ok lim s" "bounds_ok lim (s\<lparr>sc_next := x\<rparr>) = bounds_ok lim s" for x
    unfolding idle_ok_def pick_None bounds_ok_def waiters_def by simp_all
  ultimately show ?thesis
    using True core_next by (simp add: acquire_def Let_def sched_ok_def core_refused same_refused)
next
  case False
  assume ok: "sched_ok lim s"
  then have core: "core_ok lim s" and bo: "bounds_ok lim s" by (simp_all add: sched_ok_def)
  define w where "w = \<lparr>wt_id = sc_next s, wt_context = context\<rparr>"
  have wi: "wt_id w = sc_next s" by (simp add: w_def)
  define u where "u = drain lim (pushed scope w s)"
  have pc: "core_ok lim (pushed scope w s)" by (rule pushed_core [OF core wi])
  have uc: "core_ok lim u" "idle_ok lim u" using drain_core [OF pc] by (simp_all add: u_def)
  have sub: "subseq (queue_of sc u) (if sc = scope then queue_of scope s @ [w] else queue_of sc s)" for sc
    using drain_shrinks [OF pc, of sc] unfolding u_def pushed_queue by blast
  have tot: "u = pushed scope w s \<or> waiters u \<le> waiters s" "waiters u \<le> Suc (waiters s)"
  proof -
    have "drain lim (pushed scope w s) = pushed scope w s \<or> waiters (drain lim (pushed scope w s)) < Suc (waiters s)"
      using drain_shrinks [OF pc] pushed_waiters [where scope = scope and w = w and s = s] by metis
    then show "u = pushed scope w s \<or> waiters u \<le> waiters s" "waiters u \<le> Suc (waiters s)"
      unfolding u_def using pushed_waiters [where scope = scope and w = w and s = s] by (metis less_Suc_eq_le order_refl less_imp_le)+
  qed
  have lim0: "waiters s \<le> lm_queueLimit lim" "length (queue_of sc s) \<le> lm_queuePerCaller lim" for sc
    using bo by (simp_all add: bounds_ok_def)
  have other: "length (queue_of sc u) \<le> lm_queuePerCaller lim" if "sc \<noteq> scope" for sc
    using list_emb_length [OF sub [of sc]] that lim0(2) [of sc] by simp
  have qd: "sc_queued u = waiters u" using uc(1) by (simp add: core_ok_def queues_ok_def)
  have acq: "acquire lim scope context aborted s =
      (if wt_id w \<in> wt_id ` set (queue_of scope u) \<and>
          (sc_queued u > lm_queueLimit lim \<or> length (queue_of scope u) > lm_queuePerCaller lim)
       then log_event (Refused (wt_id w) ''Caller execution queue full'') (snd (remove_waiter scope (wt_id w) u)) else u)"
  proof -
    have ud: "drain lim (s\<lparr>sc_next := sc_next s + 1, sc_queues := map_set scope (queue_of scope s @ [w]) (sc_queues s),
        sc_queued := sc_queued s + 1\<rparr>) = u"
      by (simp add: u_def w_def)
    have r: "sc_queues (s\<lparr>sc_next := n\<rparr>) = sc_queues s" "sc_queued (s\<lparr>sc_next := n\<rparr>) = sc_queued s" for n
      by simp_all
    show ?thesis
      unfolding acquire_def Let_def r w_def [symmetric] ud using False wi by (simp only: if_False)
  qed
  show ?thesis
  proof (cases "wt_id w \<in> wt_id ` set (queue_of scope u)")
    case False
    then have "u \<noteq> pushed scope w s" using pushed_queue [where sc = scope and scope = scope and w = w and s = s] by auto
    then have "waiters u \<le> waiters s" using tot by blast
    moreover have "length (queue_of scope u) \<le> length (queue_of scope s)"
      using subseq_without [of "queue_of scope u" "queue_of scope s" w] sub [of scope] False by auto
    ultimately have "bounds_ok lim u"
      unfolding bounds_ok_def using lim0 other le_trans by (metis (no_types, lifting))
    then show ?thesis using acq False uc by (simp add: sched_ok_def)
  next
    case True
    show ?thesis
    proof (cases "sc_queued u > lm_queueLimit lim \<or> length (queue_of scope u) > lm_queuePerCaller lim")
      case over: True
      let ?t = "snd (remove_waiter scope (wt_id w) u)"
      have q: "queues_ok u" using uc(1) by (simp add: core_ok_def)
      note v = removed_view [OF queues_ok_D(1,3) [OF q] True]
      have "Suc (length (filter (\<lambda>v. wt_id v \<noteq> wt_id w) (queue_of scope u))) \<le> Suc (length (queue_of scope s))"
        using filter_one_less [OF queues_ok_D(3) [OF q] True] list_emb_length [OF sub [of scope]] by simp
      then have "length (queue_of sc ?t) \<le> lm_queuePerCaller lim" for sc
        unfolding v(1) using other lim0(2) [of scope] by (simp split: if_split)
      moreover have "waiters ?t \<le> lm_queueLimit lim" using v(4) tot(2) lim0(1) by simp
      ultimately have "bounds_ok lim ?t" by (simp add: bounds_ok_def)
      then show ?thesis
        using acq True over remove_core [OF uc(1) True] removed_rest(1) [OF uc(1) True uc(2)]
        by (simp add: sched_ok_def core_refused same_refused)
    next
      case False
      then have "bounds_ok lim u" unfolding bounds_ok_def using qd other not_le by metis
      then show ?thesis using acq False uc by (simp add: sched_ok_def)
    qed
  qed
qed

subsection \<open>Releases\<close>

lemma release_core:
  assumes core: "core_ok lim s" and l: "map_of (sc_leases s) i = Some (scope, c)"
  defines "b \<equiv> removeAll c (busy_of scope s)"
  defines "t \<equiv> s\<lparr>sc_leases := map_del i (sc_leases s),
    sc_busy := (if b = [] then map_del scope (sc_busy s) else map_set scope b (sc_busy s)), sc_running := sc_running s - 1\<rparr>"
  shows "core_ok lim t"
proof -
  have q: "queues_ok s" "leases_ok lim s" "order_ok s" using core by (simp_all add: core_ok_def)
  have bt: "busy_of sc t = (if sc = scope then b else busy_of sc s)" for sc by (simp add: t_def)
  have lt: "map_of (sc_leases t) j = (if j = i then None else map_of (sc_leases s) j)" for j by (simp add: t_def)
  have L: "distinct (map_keys (sc_leases s))" "sc_running s = length (sc_leases s)" "sc_running s \<le> lm_global lim"
      "\<And>sc. distinct (busy_of sc s)" "\<And>sc. length (busy_of sc s) \<le> lm_perCaller lim"
      "\<And>sc c. c \<in> set (busy_of sc s) \<longleftrightarrow> (\<exists>i. map_of (sc_leases s) i = Some (sc, c))"
      "\<And>i j x. map_of (sc_leases s) i = Some x \<Longrightarrow> map_of (sc_leases s) j = Some x \<Longrightarrow> i = j"
      "\<forall>i \<in> fst ` set (sc_leases s). i < sc_next s \<and> i \<notin> waiting_ids s"
    using q(2) unfolding leases_ok_def by blast+
  have len: "Suc (length (map_del i (sc_leases s))) = length (sc_leases s)"
    using l L(1)
  proof (induction "sc_leases s" arbitrary: s)
    case (Cons p m)
    show ?case using Cons.prems Cons.hyps(1) [of "s\<lparr>sc_leases := m\<rparr>"] unfolding Cons.hyps(2) [symmetric]
      by (cases p) (auto simp: map_del_absent map_of_eq_None_iff split: if_splits)
  qed simp
  have "leases_ok lim t"
    unfolding leases_ok_def
  proof (intro conjI allI impI ballI)
    show "distinct (map_keys (sc_leases t))" using L(1) by (simp add: t_def)
    show "sc_running t = length (sc_leases t)" using L(2) len by (simp add: t_def)
    show "sc_running t \<le> lm_global lim" using L(3) by (simp add: t_def)
    show "j < sc_next t" if "j \<in> fst ` set (sc_leases t)" for j
      using that bspec [OF L(8), of j] by (simp add: t_def)
    show "j \<notin> waiting_ids t" if j: "j \<in> fst ` set (sc_leases t)" for j
    proof -
      have "j \<in> fst ` set (sc_leases s)" using j by (simp add: t_def)
      moreover have "waiting_ids t = waiting_ids s" by (simp add: t_def)
      ultimately show ?thesis using lease_not_waiting [OF q(2)] by (simp only: not_False_eq_True)
    qed
    show "distinct (busy_of sc t)" for sc unfolding bt b_def using L(4) by (simp add: distinct_removeAll)
    show "length (busy_of sc t) \<le> lm_perCaller lim" for sc
      unfolding bt b_def using L(5) [of sc] le_trans [OF length_removeAll_less_eq L(5) [of scope]] by simp
    show "d \<in> set (busy_of sc t) \<longleftrightarrow> (\<exists>j. map_of (sc_leases t) j = Some (sc, d))" for sc d
    proof -
      have "d \<in> set (busy_of sc t) \<longleftrightarrow> d \<in> set (busy_of sc s) \<and> (sc, d) \<noteq> (scope, c)"
        unfolding bt b_def by auto
      also have "\<dots> \<longleftrightarrow> (\<exists>j. map_of (sc_leases s) j = Some (sc, d) \<and> j \<noteq> i)"
        unfolding L(6) using l L(7) by (metis option.inject)
      also have "\<dots> \<longleftrightarrow> (\<exists>j. map_of (sc_leases t) j = Some (sc, d))" unfolding lt by auto
      finally show ?thesis .
    qed
    show "a = b" if "map_of (sc_leases t) a = Some x" "map_of (sc_leases t) b = Some x" for a b x
      using that L(7) unfolding lt by (auto split: if_splits)
  qed
  moreover have "queues_ok t" using q(1) unfolding queues_ok_def waiters_def t_def by simp
  moreover have "order_ok t" using q(3) unfolding order_ok_def admitted_def t_def by simp
  ultimately show ?thesis by (simp add: core_ok_def)
qed

lemma release_ok: "sched_ok lim s \<Longrightarrow> sched_ok lim (release_lease lim i s)"
proof (cases "map_of (sc_leases s) i")
  case None
  assume "sched_ok lim s"
  then show ?thesis using None by (simp add: release_lease_def)
next
  case (Some x)
  assume ok: "sched_ok lim s"
  obtain scope c where x: "map_of (sc_leases s) i = Some (scope, c)" using Some by (cases x) simp
  let ?b = "removeAll c (busy_of scope s)"
  let ?t = "s\<lparr>sc_leases := map_del i (sc_leases s),
    sc_busy := (if ?b = [] then map_del scope (sc_busy s) else map_set scope ?b (sc_busy s)), sc_running := sc_running s - 1\<rparr>"
  have t: "core_ok lim ?t" by (rule release_core [OF _ x]) (use ok in \<open>simp add: sched_ok_def\<close>)
  moreover have "bounds_ok lim ?t" using ok unfolding sched_ok_def bounds_ok_def waiters_def by simp
  moreover have "release_lease lim i s = drain lim ?t" using x by (simp add: release_lease_def Let_def)
  ultimately show ?thesis using drain_core [OF t] drain_bounds [OF t] by (simp add: sched_ok_def)
qed

lemma new_scheduler_ok: "sched_ok lim new_scheduler"
  unfolding sched_ok_def core_ok_def queues_ok_def leases_ok_def order_ok_def idle_ok_def pick_None bounds_ok_def
  by (simp add: new_scheduler_def waiters_def admitted_def map_filter_def)

interpretation sc: invariant_system "\<lambda>s. s = new_scheduler" "sched_step lim" "sched_ok lim" for lim
proof unfold_locales
  show "sched_ok lim t" if "sched_ok lim s" "sched_step lim s t" for s t
    using that(2,1) by cases (simp_all only: acquire_ok abort_ok release_ok)
qed (simp add: new_scheduler_ok)

subsection \<open>What callers rely on\<close>

text \<open>Claim C19. Under every interleaving of arrivals, aborts and releases, admission stays within the global
  limit and the limit per caller, the counter is the number of live leases, no two live leases run one conversation, the queues
  stay within their limits, and no capacity is left idle while a waiter of a caller below its limit has an
  idle conversation.\<close>

theorem admission_is_safe:
  assumes "(sched_step lim)\<^sup>*\<^sup>* new_scheduler s"
  shows "sc_running s = length (sc_leases s) \<and> length (sc_leases s) \<le> lm_global lim \<and>
    (\<forall>scope. distinct (busy_of scope s) \<and> length (busy_of scope s) \<le> lm_perCaller lim \<and>
       (\<forall>c. c \<in> set (busy_of scope s) \<longleftrightarrow> (\<exists>i. map_of (sc_leases s) i = Some (scope, c)))) \<and>
    (\<forall>i j x. map_of (sc_leases s) i = Some x \<and> map_of (sc_leases s) j = Some x \<longrightarrow> i = j) \<and>
    sc_queued s \<le> lm_queueLimit lim \<and> (\<forall>scope. length (queue_of scope s) \<le> lm_queuePerCaller lim) \<and>
    (sc_running s < lm_global lim \<longrightarrow>
       (\<forall>scope. length (busy_of scope s) < lm_perCaller lim \<longrightarrow>
          (\<forall>w \<in> set (queue_of scope s). wt_context w \<in> set (busy_of scope s))))"
proof -
  have ok: "sched_ok lim s" using sc.reachable_inv [of new_scheduler lim s] assms by simp
  then have l: "leases_ok lim s" "idle_ok lim s" "bounds_ok lim s" "sc_queued s = waiters s"
    by (simp_all add: sched_ok_def core_ok_def queues_ok_def)
  note L = l(1) [unfolded leases_ok_def]
  have "sc_running s = length (sc_leases s)" using L by (elim conjE) assumption
  moreover have "length (sc_leases s) \<le> lm_global lim" using L by (elim conjE) simp
  moreover have "\<forall>scope. distinct (busy_of scope s) \<and> length (busy_of scope s) \<le> lm_perCaller lim \<and>
       (\<forall>c. c \<in> set (busy_of scope s) \<longleftrightarrow> (\<exists>i. map_of (sc_leases s) i = Some (scope, c)))"
    using L by (elim conjE) assumption
  moreover have "\<forall>i j x. map_of (sc_leases s) i = Some x \<and> map_of (sc_leases s) j = Some x \<longrightarrow> i = j"
  proof -
    have "\<forall>i j x. map_of (sc_leases s) i = Some x \<longrightarrow> map_of (sc_leases s) j = Some x \<longrightarrow> i = j"
      using L by (elim conjE) assumption
    then show ?thesis by blast
  qed
  moreover have "waiters s \<le> lm_queueLimit lim" using l(3) unfolding bounds_ok_def by (elim conjE) assumption
  moreover have "\<forall>scope. length (queue_of scope s) \<le> lm_queuePerCaller lim"
    using l(3) unfolding bounds_ok_def by (elim conjE) assumption
  moreover note l(2) [unfolded idle_ok_def pick_None]
  ultimately show ?thesis unfolding l(4) by (intro conjI) assumption+
qed

text \<open>Claim C20. A conversation is served in order: the executions of one conversation are admitted in the order
  in which they arrived, and whoever still waits arrived after everybody admitted.\<close>

theorem conversation_is_fifo:
  assumes "(sched_step lim)\<^sup>*\<^sup>* new_scheduler s"
  shows "sorted_wrt (<) (admitted scope c s) \<and>
    (\<forall>i \<in> set (admitted scope c s). \<forall>w \<in> set (queue_of scope s). wt_context w = c \<longrightarrow> i < wt_id w)"
proof -
  have "sched_ok lim s" using sc.reachable_inv [of new_scheduler lim s] assms by simp
  then have "order_ok s" by (simp add: sched_ok_def core_ok_def)
  then show ?thesis unfolding order_ok_def by blast
qed

text \<open>Two callers, one slot each, two slots in all.\<close>

definition sample_limits :: limits where
  "sample_limits = \<lparr>lm_perCaller = 1, lm_global = 2, lm_queuePerCaller = 1, lm_queueLimit = 2\<rparr>"

definition sample_sched :: sched where
  "sample_sched = release_lease sample_limits 0 (acquire sample_limits ''s1'' ''c2'' False
     (acquire sample_limits ''s1'' ''c1'' False new_scheduler))"

lemma drain_eval:
  "pick lim s = None \<Longrightarrow> drain lim s = s"
  "sc_running s < lm_global lim \<Longrightarrow> pick lim s = Some (scope, w) \<Longrightarrow> drain lim s = drain lim (admit scope w s)"
  by (subst drain.simps, simp)+

lemmas sched_eval = new_scheduler_def acquire_def release_lease_def drain_eval pick_def admit_def remove_waiter_def
  rotate_scope_def log_event_def sample_limits_def sample_sched_def admitted_def map_filter_simps

lemma sample_sched_steps: "(sched_step sample_limits)\<^sup>*\<^sup>* new_scheduler sample_sched"
  unfolding sample_sched_def
  by (meson rtranclp.intros sched_step.intros)

lemma sample_sched_state:
  "map_of (sc_leases sample_sched) 1 = Some (''s1'', ''c2'')" "sc_running sample_sched = 1"
  "admitted ''s1'' ''c2'' sample_sched = [1]"
  by (simp_all add: sched_eval Let_def)

lemma admission_is_safe_witness:
  "length (sc_leases sample_sched) = 1 \<and> ''c2'' \<in> set (busy_of ''s1'' sample_sched)"
proof -
  note a = admission_is_safe [OF sample_sched_steps]
  have "''c2'' \<in> set (busy_of ''s1'' sample_sched)" using a sample_sched_state(1) by blast
  then show ?thesis using a sample_sched_state(2) by simp
qed

lemma conversation_is_fifo_witness:
  "admitted ''s1'' ''c2'' sample_sched = [1] \<and> sorted_wrt (<) (admitted ''s1'' ''c2'' sample_sched)"
  using conversation_is_fifo [OF sample_sched_steps] sample_sched_state(3) by blast

end
