(* ===== verification/Broker.thy ===== *)
theory Broker
  imports Wire Text
begin

text \<open>
  \<open>RemoteApprovalBroker\<close> (packages/client/src/remote-approval.ts): what a backend's request to use a tool
  turns into while it waits for the decision of the server.

  A run is one call of \<open>run\<close>, with its lifecycle signal. The request id is a fresh UUID. Whether a frame could be
  emitted is an argument of the operations that emit one, as is what the request's input
  amounts to: \<open>None\<close> when it does not serialise, otherwise its object and its size in
  bytes.
\<close>

subsection \<open>State\<close>

type_synonym runref = nat

record broker_run =
  br_taskId :: string
  br_executionId :: "string option"
  br_enabled :: bool
  br_aborted :: bool

record pending_approval =
  pa_run :: runref
  pa_taskId :: string
  pa_executionId :: string
  pa_expires :: int

text \<open>\<open>bk_heard\<close> and \<open>bk_asked\<close> are the history: what the server resolved and what was asked.\<close>

record broker =
  bk_now :: int
  bk_timeoutMs :: int
  bk_runs :: "(runref, broker_run) jsmap"
  bk_pending :: "(string, pending_approval) jsmap"
  bk_settled :: "(string \<times> decision) list"
  bk_emitted :: "(string \<times> string \<times> task_body) list"
  bk_asked :: "(string, pending_approval) jsmap"
  bk_heard :: "(string \<times> string \<times> string \<times> decision \<times> int) list"

definition new_broker :: "int \<Rightarrow> int \<Rightarrow> broker" where
  "new_broker timeoutMs now = \<lparr>bk_now = now, bk_timeoutMs = timeoutMs, bk_runs = [], bk_pending = [], bk_settled = [],
     bk_emitted = [], bk_asked = [], bk_heard = []\<rparr>"

subsection \<open>Operations\<close>

text \<open>\<open>finish\<close>: only the first call settles; without a receipt the decision is a refusal.\<close>

definition finish_approval :: "bool \<Rightarrow> string \<Rightarrow> decision \<Rightarrow> broker \<Rightarrow> broker" where
  "finish_approval sent rid d s =
     (case map_of (bk_pending s) rid of
        None \<Rightarrow> s
      | Some p \<Rightarrow>
          (let s1 = s\<lparr>bk_pending := map_del rid (bk_pending s)\<rparr>
           in if sent
              then s1\<lparr>bk_emitted := bk_emitted s1 @ [(pa_taskId p, pa_executionId p, ApprovalReceivedB rid d)],
                      bk_settled := bk_settled s1 @ [(rid, d)]\<rparr>
              else s1\<lparr>bk_settled := bk_settled s1 @ [(rid, Deny)]\<rparr>))"

definition settle_now :: "string \<Rightarrow> decision \<Rightarrow> broker \<Rightarrow> broker" where
  "settle_now rid d s = s\<lparr>bk_settled := bk_settled s @ [(rid, d)]\<rparr>"

definition start_broker_run :: "runref \<Rightarrow> string \<Rightarrow> string option \<Rightarrow> bool \<Rightarrow> bool \<Rightarrow> broker \<Rightarrow> broker" where
  "start_broker_run r taskId executionId enabled aborted s =
     s\<lparr>bk_runs := map_set r \<lparr>br_taskId = taskId, br_executionId = executionId, br_enabled = enabled, br_aborted = aborted\<rparr>
        (bk_runs s)\<rparr>"

definition request_tool ::
    "bool \<Rightarrow> bool \<Rightarrow> runref \<Rightarrow> string \<Rightarrow> string \<Rightarrow> (obj \<times> nat) option \<Rightarrow> (int \<Rightarrow> string) \<Rightarrow> bool \<Rightarrow> broker \<Rightarrow> broker" where
  "request_tool sent receipt_sent r rid toolName input render backend_aborted s =
     (case map_of (bk_runs s) r of
        None \<Rightarrow> s
      | Some run \<Rightarrow>
          let executionId = get_or (br_executionId run) []
          in if \<not> br_enabled run \<or> executionId = [] \<or> br_aborted run \<or> backend_aborted then settle_now rid Deny s
             else if list_ex (\<lambda>p. pa_executionId p = executionId) (map_vals (bk_pending s)) then settle_now rid Deny s
             else if toolName = [] \<or> js_length toolName > 256 then settle_now rid Deny s
             else (case input of
                     None \<Rightarrow> settle_now rid Deny s
                   | Some (frozen, nbytes) \<Rightarrow>
                       if nbytes > 64 * 1024 then settle_now rid Deny s
                       else
                         (let expires = bk_now s + bk_timeoutMs s;
                              p = \<lparr>pa_run = r, pa_taskId = br_taskId run, pa_executionId = executionId, pa_expires = expires\<rparr>;
                              req = \<lparr>rq_requestId = rid, rq_toolName = toolName, rq_input = frozen,
                                     rq_expiresAt = render expires, rq_expiresMs = expires, rq_jsonLength = nbytes\<rparr>;
                              s1 = s\<lparr>bk_pending := map_set rid p (bk_pending s), bk_asked := map_set rid p (bk_asked s)\<rparr>
                          in if sent
                             then s1\<lparr>bk_emitted := bk_emitted s1 @ [(pa_taskId p, executionId, ApprovalRequestB req)]\<rparr>
                             else finish_approval receipt_sent rid Deny s1)))"

text \<open>A frame \<open>approval.resolve\<close>.\<close>

definition resolve_approval :: "bool \<Rightarrow> string \<Rightarrow> string \<Rightarrow> string \<Rightarrow> decision \<Rightarrow> broker \<Rightarrow> broker" where
  "resolve_approval sent taskId executionId rid d s =
     (let s1 = s\<lparr>bk_heard := bk_heard s @ [(taskId, executionId, rid, d, bk_now s)]\<rparr>
      in case map_of (bk_pending s) rid of
           None \<Rightarrow> s1
         | Some p \<Rightarrow>
             if pa_taskId p = taskId \<and> pa_executionId p = executionId
             then finish_approval sent rid (if bk_now s \<ge> pa_expires p then Deny else d) s1
             else s1)"

text \<open>The timer of a request, its backend signal, and the end of the run, which denies everything the run still
  waits for. \<open>sent\<close> says which receipts could be emitted.\<close>

definition deny_request :: "bool \<Rightarrow> string \<Rightarrow> broker \<Rightarrow> broker" where
  "deny_request sent rid s = finish_approval sent rid Deny s"

definition end_broker_run :: "(string \<Rightarrow> bool) \<Rightarrow> runref \<Rightarrow> broker \<Rightarrow> broker" where
  "end_broker_run sent r s =
     (let s1 = (case map_of (bk_runs s) r of
                  None \<Rightarrow> s
                | Some run \<Rightarrow> s\<lparr>bk_runs := map_set r (run\<lparr>br_aborted := True\<rparr>) (bk_runs s)\<rparr>)
      in fold (\<lambda>rid. finish_approval (sent rid) rid Deny)
           (map fst (filter (\<lambda>(rid, p). pa_run p = r) (bk_pending s1))) s1)"

inductive broker_step :: "broker \<Rightarrow> broker \<Rightarrow> bool" where
  time: "t \<ge> bk_now s \<Longrightarrow> broker_step s (s\<lparr>bk_now := t\<rparr>)"
| starts: "r \<notin> fst ` set (bk_runs s) \<Longrightarrow> broker_step s (start_broker_run r t e en ab s)"
| asks: "rid \<notin> fst ` set (bk_asked s) \<union> fst ` set (bk_settled s) \<Longrightarrow>
     broker_step s (request_tool sent rsent r rid tn input render ba s)"
| resolves: "broker_step s (resolve_approval sent t e rid d s)"
| denies: "broker_step s (deny_request sent rid s)"
| ends: "broker_step s (end_broker_run sents r s)"

subsection \<open>Invariant\<close>

definition granted :: "broker \<Rightarrow> string \<Rightarrow> bool" where
  "granted s rid \<longleftrightarrow>
     (\<exists>p at. map_of (bk_asked s) rid = Some p \<and>
        (pa_taskId p, pa_executionId p, rid, Allow_once, at) \<in> set (bk_heard s) \<and> at < pa_expires p \<and>
        (pa_taskId p, pa_executionId p, ApprovalReceivedB rid Allow_once) \<in> set (bk_emitted s))"

definition broker_inv :: "broker \<Rightarrow> bool" where
  "broker_inv s \<longleftrightarrow>
     distinct (map_keys (bk_pending s)) \<and> distinct (map fst (bk_settled s)) \<and>
     (\<forall>rid p. map_of (bk_pending s) rid = Some p \<longrightarrow> map_of (bk_asked s) rid = Some p \<and> rid \<notin> fst ` set (bk_settled s)) \<and>
     (\<forall>rid rid' p p'. map_of (bk_pending s) rid = Some p \<and> map_of (bk_pending s) rid' = Some p' \<and>
        pa_executionId p = pa_executionId p' \<longrightarrow> rid = rid') \<and>
     (\<forall>rid. (rid, Allow_once) \<in> set (bk_settled s) \<longrightarrow> granted s rid)"

lemma broker_inv_D:
  assumes "broker_inv s"
  shows "distinct (map_keys (bk_pending s))" "distinct (map fst (bk_settled s))"
    "map_of (bk_pending s) rid = Some p \<Longrightarrow> map_of (bk_asked s) rid = Some p"
    "map_of (bk_pending s) rid = Some p \<Longrightarrow> rid \<notin> fst ` set (bk_settled s)"
    "map_of (bk_pending s) rid = Some p \<Longrightarrow> map_of (bk_pending s) rid' = Some p' \<Longrightarrow>
       pa_executionId p = pa_executionId p' \<Longrightarrow> rid = rid'"
    "(rid, Allow_once) \<in> set (bk_settled s) \<Longrightarrow> granted s rid"
  using assms unfolding broker_inv_def by blast+

lemma broker_invI:
  assumes "distinct (map_keys (bk_pending s))" "distinct (map fst (bk_settled s))"
    "\<And>rid p. map_of (bk_pending s) rid = Some p \<Longrightarrow> map_of (bk_asked s) rid = Some p \<and> rid \<notin> fst ` set (bk_settled s)"
    "\<And>rid rid' p p'. map_of (bk_pending s) rid = Some p \<Longrightarrow> map_of (bk_pending s) rid' = Some p' \<Longrightarrow>
       pa_executionId p = pa_executionId p' \<Longrightarrow> rid = rid'"
    "\<And>rid. (rid, Allow_once) \<in> set (bk_settled s) \<Longrightarrow> granted s rid"
  shows "broker_inv s"
  using assms unfolding broker_inv_def by blast

text \<open>A grant stays a grant as the history grows.\<close>

lemma granted_mono:
  assumes "granted s rid" and "\<And>p. map_of (bk_asked s) rid = Some p \<Longrightarrow> map_of (bk_asked t) rid = Some p"
    and "set (bk_heard s) \<subseteq> set (bk_heard t)" and "set (bk_emitted s) \<subseteq> set (bk_emitted t)"
  shows "granted t rid"
  using assms unfolding granted_def by blast

lemma finish_inv:
  assumes inv: "broker_inv s" and allow: "sent \<Longrightarrow> d = Allow_once \<Longrightarrow> map_of (bk_pending s) rid \<noteq> None \<Longrightarrow>
      \<exists>p at. map_of (bk_pending s) rid = Some p \<and>
        (pa_taskId p, pa_executionId p, rid, Allow_once, at) \<in> set (bk_heard s) \<and> at < pa_expires p"
  shows "broker_inv (finish_approval sent rid d s)"
proof (cases "map_of (bk_pending s) rid")
  case None
  then show ?thesis using inv by (simp add: finish_approval_def)
next
  case (Some p)
  note D = broker_inv_D [OF inv]
  let ?t = "finish_approval sent rid d s"
  have f: "bk_pending ?t = map_del rid (bk_pending s)" "bk_asked ?t = bk_asked s" "bk_heard ?t = bk_heard s"
    "bk_settled ?t = bk_settled s @ [(rid, if sent then d else Deny)]"
    "bk_emitted ?t = bk_emitted s @ (if sent then [(pa_taskId p, pa_executionId p, ApprovalReceivedB rid d)] else [])"
    using Some by (simp_all add: finish_approval_def Let_def)
  show ?thesis
  proof (rule broker_invI)
    show "distinct (map_keys (bk_pending ?t))" "distinct (map fst (bk_settled ?t))"
      using D(1,2) D(4) [OF Some] by (simp_all add: f)
    show "map_of (bk_asked ?t) rid' = Some p' \<and> rid' \<notin> fst ` set (bk_settled ?t)" if "map_of (bk_pending ?t) rid' = Some p'" for rid' p'
      using that D(3) [of rid' p'] D(4) [of rid' p'] by (simp add: f split: if_splits)
    show "a = b" if "map_of (bk_pending ?t) a = Some q" "map_of (bk_pending ?t) b = Some q'" "pa_executionId q = pa_executionId q'" for a b q q'
      using that D(5) by (simp add: f split: if_splits)
    show "granted ?t rid'" if a: "(rid', Allow_once) \<in> set (bk_settled ?t)" for rid'
    proof (cases "(rid', Allow_once) \<in> set (bk_settled s)")
      case True
      from D(6) [OF this] show ?thesis by (rule granted_mono) (auto simp: f)
    next
      case False
      then have r: "rid' = rid" "sent" "d = Allow_once" using a by (auto simp: f split: if_splits)
      then obtain at where "(pa_taskId p, pa_executionId p, rid, Allow_once, at) \<in> set (bk_heard s)" "at < pa_expires p"
        using allow Some by auto
      then show ?thesis unfolding granted_def f using D(3) [OF Some] r(1) by (auto simp: r(2,3))
    qed
  qed
qed

lemma deny_inv: "broker_inv s \<Longrightarrow> broker_inv (finish_approval sent rid Deny s)"
  by (rule finish_inv) simp_all

lemma broker_inv_same:
  "bk_pending t = bk_pending s \<Longrightarrow> bk_asked t = bk_asked s \<Longrightarrow> bk_settled t = bk_settled s \<Longrightarrow>
   set (bk_heard s) \<subseteq> set (bk_heard t) \<Longrightarrow> set (bk_emitted s) \<subseteq> set (bk_emitted t) \<Longrightarrow> broker_inv s \<Longrightarrow> broker_inv t"
  unfolding broker_inv_def using granted_mono [of s _ t] by simp

lemma settle_inv:
  assumes "broker_inv s" and "rid \<notin> fst ` set (bk_asked s) \<union> fst ` set (bk_settled s)"
  shows "broker_inv (settle_now rid Deny s)"
proof -
  note D = broker_inv_D [OF assms(1)]
  have np: "map_of (bk_pending s) rid = None"
    using D(3) [of rid] assms(2) by (cases "map_of (bk_pending s) rid") (auto dest: map_of_SomeD intro: rev_image_eqI)
  show ?thesis
  proof (rule broker_invI)
    show "map_of (bk_asked (settle_now rid Deny s)) a = Some p \<and> a \<notin> fst ` set (bk_settled (settle_now rid Deny s))"
      if "map_of (bk_pending (settle_now rid Deny s)) a = Some p" for a p
      using that D(3) [of a p] D(4) [of a p] np by (auto simp: settle_now_def)
    show "granted (settle_now rid Deny s) a" if "(a, Allow_once) \<in> set (bk_settled (settle_now rid Deny s))" for a
      by (rule granted_mono [OF D(6)]) (use that in \<open>auto simp: settle_now_def\<close>)
    show "a = b" if "map_of (bk_pending (settle_now rid Deny s)) a = Some q"
      "map_of (bk_pending (settle_now rid Deny s)) b = Some q'" "pa_executionId q = pa_executionId q'" for a b q q'
      using that D(5) by (simp add: settle_now_def)
  qed (use D(1,2) assms(2) in \<open>simp_all add: settle_now_def\<close>)
qed

lemma request_inv:
  assumes inv: "broker_inv s" and fr: "rid \<notin> fst ` set (bk_asked s) \<union> fst ` set (bk_settled s)"
  shows "broker_inv (request_tool sent rsent r rid tn input render ba s)"
proof (cases "map_of (bk_runs s) r")
  case None
  then show ?thesis using inv by (simp add: request_tool_def)
next
  case (Some run)
  note D = broker_inv_D [OF inv]
  define e where "e = get_or (br_executionId run) []"
  define p where "p = \<lparr>pa_run = r, pa_taskId = br_taskId run, pa_executionId = e, pa_expires = bk_now s + bk_timeoutMs s\<rparr>"
  define s1 where "s1 = s\<lparr>bk_pending := map_set rid p (bk_pending s), bk_asked := map_set rid p (bk_asked s)\<rparr>"
  have i1: "broker_inv s1" if no: "\<not> list_ex (\<lambda>p. pa_executionId p = e) (map_vals (bk_pending s))"
  proof (rule broker_invI)
    have other: "pa_executionId q \<noteq> e" if "map_of (bk_pending s) a = Some q" for a q
      using no map_of_SomeD [OF that] by (fastforce simp: list_ex_iff)
    have na: "map_of (bk_asked s) rid = None" using fr by (simp add: map_of_eq_None_iff)
    show "map_of (bk_asked s1) a = Some q \<and> a \<notin> fst ` set (bk_settled s1)" if "map_of (bk_pending s1) a = Some q" for a q
      using that D(3) [of a q] D(4) [of a q] fr by (auto simp: s1_def split: if_splits)
    show "a = b" if "map_of (bk_pending s1) a = Some q" "map_of (bk_pending s1) b = Some q'"
      "pa_executionId q = pa_executionId q'" for a b q q'
      using that D(5) [of a q b q'] other [of a q] other [of b q'] by (auto simp: s1_def p_def split: if_splits)
    show "granted s1 a" if "(a, Allow_once) \<in> set (bk_settled s1)" for a
      by (rule granted_mono [OF D(6)]) (use that na in \<open>auto simp: s1_def\<close>)
  qed (use D(1,2) in \<open>simp_all add: s1_def\<close>)
  have i2: "broker_inv (s1\<lparr>bk_emitted := bk_emitted s1 @ xs\<rparr>)"
    if "\<not> list_ex (\<lambda>p. pa_executionId p = e) (map_vals (bk_pending s))" for xs
    by (rule broker_inv_same [OF _ _ _ _ _ i1 [OF that]]) auto
  show ?thesis
    unfolding request_tool_def Let_def Some option.case e_def [symmetric]
    using settle_inv [OF inv fr] i2 deny_inv [OF i1]
    by (auto simp: s1_def p_def split: option.split)
qed

lemma resolve_inv:
  assumes "broker_inv s"
  shows "broker_inv (resolve_approval sent taskId executionId rid d s)"
proof -
  let ?s1 = "s\<lparr>bk_heard := bk_heard s @ [(taskId, executionId, rid, d, bk_now s)]\<rparr>"
  have i1: "broker_inv ?s1" by (rule broker_inv_same [OF _ _ _ _ _ assms]) auto
  have "broker_inv (finish_approval sent rid (if bk_now s \<ge> pa_expires p then Deny else d) ?s1)"
    if "map_of (bk_pending s) rid = Some p" "pa_taskId p = taskId" "pa_executionId p = executionId" for p
    by (rule finish_inv [OF i1]) (use that in \<open>auto split: if_splits\<close>)
  then show ?thesis using i1 by (auto simp: resolve_approval_def Let_def split: option.split)
qed

lemma end_inv: "broker_inv s \<Longrightarrow> broker_inv (end_broker_run sents r s)"
proof -
  assume i: "broker_inv s"
  have f: "broker_inv (fold (\<lambda>rid. finish_approval (sents rid) rid Deny) rids t)" if "broker_inv t" for rids t
    using that by (induction rids arbitrary: t) (simp_all add: deny_inv)
  have "broker_inv (s\<lparr>bk_runs := x\<rparr>)" for x by (rule broker_inv_same [OF _ _ _ _ _ i]) auto
  then show ?thesis using i f by (simp add: end_broker_run_def Let_def split: option.split)
qed

lemma broker_step_inv: "broker_step s t \<Longrightarrow> broker_inv s \<Longrightarrow> broker_inv t"
proof (induction rule: broker_step.induct)
  case (time t s)
  then show ?case by (auto intro: broker_inv_same [of _ s])
next
  case (starts r s t e en ab)
  then show ?case by (auto simp: start_broker_run_def intro: broker_inv_same [of _ s])
next
  case (denies s sent rid)
  then show ?case by (simp add: deny_request_def deny_inv)
next
  case (asks rid s sent rsent r tn input render ba)
  then show ?case using request_inv by blast
qed (simp_all only: resolve_inv end_inv)

interpretation bk: invariant_system "\<lambda>s. s = new_broker timeoutMs now" broker_step broker_inv for timeoutMs now
proof unfold_locales
  show "broker_inv s" if "s = new_broker timeoutMs now" for s
    using that by (simp add: new_broker_def broker_inv_def)
qed (rule broker_step_inv)

text \<open>Claim C21. A backend may use a tool only when the server said so: in every reachable state a request that
  settled with permission was asked, the server resolved this very request of this task and execution with permission
  before it expired, and a receipt of that permission was emitted. No request settles twice, and an
  execution waits for at most one request at a time.\<close>

theorem permission_was_granted:
  assumes "broker_step\<^sup>*\<^sup>* (new_broker timeoutMs now) s"
  shows "(\<forall>rid. (rid, Allow_once) \<in> set (bk_settled s) \<longrightarrow> granted s rid) \<and>
    distinct (map fst (bk_settled s)) \<and>
    (\<forall>rid rid' p p'. map_of (bk_pending s) rid = Some p \<and> map_of (bk_pending s) rid' = Some p' \<and>
       pa_executionId p = pa_executionId p' \<longrightarrow> rid = rid')"
proof -
  have "broker_inv s" using bk.reachable_inv [of "new_broker timeoutMs now" timeoutMs now s] assms by simp
  then show ?thesis unfolding broker_inv_def by blast
qed

lemma fold_finish_pending:
  "map_of (bk_pending (fold (\<lambda>rid. finish_approval (sents rid) rid Deny) rids s)) a =
     (if a \<in> set rids then None else map_of (bk_pending s) a)"
proof (induction rids arbitrary: s)
  case (Cons x rids)
  have "map_of (bk_pending (finish_approval (sents x) x Deny s)) a = (if a = x then None else map_of (bk_pending s) a)" for a
    by (simp add: finish_approval_def Let_def split: option.split)
  then show ?case by (simp add: Cons.IH)
qed simp

text \<open>The end of a run leaves nothing pending: every request it still waited for is denied, and no later
  resolution can change that.\<close>

theorem ended_run_waits_for_nothing:
  assumes "distinct (map_keys (bk_pending s))"
  shows "(\<forall>rid. map_of (bk_pending (end_broker_run sents r s)) rid =
       (case map_of (bk_pending s) rid of
          Some p \<Rightarrow> if pa_run p = r then None else Some p
        | None \<Rightarrow> None)) \<and>
    (\<forall>rid p. map_of (bk_pending s) rid = Some p \<and> pa_run p = r \<longrightarrow>
       resolve_approval sent t e rid d (end_broker_run sents r s) =
         (end_broker_run sents r s)\<lparr>bk_heard := bk_heard (end_broker_run sents r s) @ [(t, e, rid, d, bk_now (end_broker_run sents r s))]\<rparr>)"
proof -
  let ?t = "end_broker_run sents r s"
  have m: "map_of (bk_pending ?t) rid =
      (if \<exists>p. map_of (bk_pending s) rid = Some p \<and> pa_run p = r then None else map_of (bk_pending s) rid)" for rid
  proof -
    have "rid \<in> set (map fst (filter (\<lambda>(rid, p). pa_run p = r) (bk_pending s))) \<longleftrightarrow>
        (\<exists>p. map_of (bk_pending s) rid = Some p \<and> pa_run p = r)"
      using map_of_mem [OF assms] by force
    then show ?thesis by (auto simp: end_broker_run_def Let_def fold_finish_pending split: option.split)
  qed
  show ?thesis
  proof (intro conjI allI impI)
    show "map_of (bk_pending ?t) rid =
        (case map_of (bk_pending s) rid of Some p \<Rightarrow> if pa_run p = r then None else Some p | None \<Rightarrow> None)" for rid
      unfolding m by (auto split: option.split)
    show "resolve_approval sent t e rid d ?t = ?t\<lparr>bk_heard := bk_heard ?t @ [(t, e, rid, d, bk_now ?t)]\<rparr>"
      if "map_of (bk_pending s) rid = Some p \<and> pa_run p = r" for rid p
    proof -
      have "map_of (bk_pending ?t) rid = None" unfolding m using that by auto
      then show ?thesis by (simp add: resolve_approval_def)
    qed
  qed
qed

text \<open>A run that asks once and is allowed.\<close>

definition sample_broker :: broker where
  "sample_broker = resolve_approval True ''t'' ''e'' ''r'' Allow_once
     (request_tool True True 0 ''r'' ''Bash'' (Some ([], 2)) (\<lambda>_. ''later'') False
        (start_broker_run 0 ''t'' (Some ''e'') True False (new_broker 600000 0)))"

lemma sample_broker_steps: "broker_step\<^sup>*\<^sup>* (new_broker 600000 0) sample_broker"
proof -
  let ?s1 = "start_broker_run 0 ''t'' (Some ''e'') True False (new_broker 600000 0)"
  let ?s2 = "request_tool True True 0 ''r'' ''Bash'' (Some ([], 2)) (\<lambda>_. ''later'') False ?s1"
  have "broker_step (new_broker 600000 0) ?s1" by (rule broker_step.starts) (simp add: new_broker_def)
  moreover have "broker_step ?s1 ?s2" by (rule broker_step.asks) (simp add: start_broker_run_def new_broker_def)
  moreover have "broker_step ?s2 sample_broker" unfolding sample_broker_def by (rule broker_step.resolves)
  ultimately show ?thesis by auto
qed

lemma permission_was_granted_witness: "bk_settled sample_broker = [(''r'', Allow_once)] \<and> granted sample_broker ''r''"
proof -
  have "bk_settled sample_broker = [(''r'', Allow_once)]"
    by (simp add: sample_broker_def resolve_approval_def request_tool_def start_broker_run_def new_broker_def
        finish_approval_def Let_def js_length_def utf16_units_def cont_def)
  then show ?thesis using permission_was_granted [OF sample_broker_steps] by simp
qed

definition waiting_broker :: broker where
  "waiting_broker = request_tool True True 0 ''r'' ''Bash'' (Some ([], 2)) (\<lambda>_. ''later'') False
     (start_broker_run 0 ''t'' (Some ''e'') True False (new_broker 600000 0))"

lemma ended_run_waits_for_nothing_witness:
  "map_has (bk_pending waiting_broker) ''r'' \<and>
   map_of (bk_pending (end_broker_run (\<lambda>_. True) 0 waiting_broker)) ''r'' = None"
proof -
  obtain p where p: "bk_pending waiting_broker = [(''r'', p)]" "pa_run p = 0"
    by (simp add: waiting_broker_def request_tool_def start_broker_run_def new_broker_def Let_def js_length_def utf16_units_def cont_def)
  then have "distinct (map_keys (bk_pending waiting_broker))" by simp
  from ended_run_waits_for_nothing [OF this] p show ?thesis by (simp only: map_of.simps) simp
qed

end
