(* ===== verification/Gate.thy ===== *)
theory Gate
  imports Output Pricing Usage
begin

text \<open>
  The payment gate in front of an agent (packages/server/src/x402/gate.ts): how the outcomes of the
  payment library become the events of a task. The library itself (the merchant gate, its store of
  offerings and its rendering of metadata) is outside the repository: its outcomes are the values of
  the datatypes here, its renderers the functions of \<open>x402_sdk\<close>.
\<close>

subsection \<open>What the payment library answers\<close>

datatype obligation = SettledObligation json | DeferredObligation

datatype sdk_open =
    RequestPayment string obj
  | RefusePayment string string "json option"
  | HandledPayment obj
  | ProceedPaid "obligation option"

datatype sdk_delivery = DeliveryAuthorized | DeliveryRefused

datatype sdk_settle = SettleFailed string string "json option" | SettleDone obj

text \<open>An event of the library: \<open>error\<close>, \<open>done\<close> or another, with its metadata.\<close>

datatype sdk_event = SdkError "obj option" | SdkDone "obj option" | SdkOther

record x402_sdk =
  sdk_failedEvent :: "string \<Rightarrow> string \<Rightarrow> json option \<Rightarrow> sdk_event"
  sdk_completedEvent :: "json \<Rightarrow> sdk_event"
  sdk_stateName :: "task_state \<Rightarrow> string"

text \<open>The library during one step of the executor.\<close>

record payments =
  py_sdk :: x402_sdk
  py_settle :: "meterable \<Rightarrow> sdk_settle"
  py_delivery :: sdk_delivery

subsection \<open>Outcomes of the gate\<close>

datatype settlement = Settled obj | Deferred

datatype gate_outcome = Proceed "settlement option" | Halt status_event

definition gate_status_event ::
    "x402_sdk \<Rightarrow> int \<Rightarrow> string \<Rightarrow> string \<Rightarrow> task_state \<Rightarrow> string \<Rightarrow> obj \<Rightarrow> status_event" where
  "gate_status_event sdk now taskId contextId st txt md =
     \<lparr>se_taskId = taskId, se_contextId = contextId, se_final = True,
      se_status = \<lparr>st_state = st, st_timestamp = Some (Iso now),
        st_message = Some \<lparr>m_messageId = taskId @ ''-x402-'' @ sdk_stateName sdk st, m_role = Agent,
          m_parts = [[(''text'', JStr txt)]], m_metadata = Some md, m_extensions = None,
          m_taskId = Some taskId, m_contextId = Some contextId\<rparr>\<rparr>,
      se_metadata = None\<rparr>"

definition gate_failed_event ::
    "x402_sdk \<Rightarrow> int \<Rightarrow> string \<Rightarrow> string \<Rightarrow> string \<Rightarrow> string \<Rightarrow> json option \<Rightarrow> status_event" where
  "gate_failed_event sdk now taskId contextId code reason receipt =
     gate_status_event sdk now taskId contextId FAILED reason
       (case sdk_failedEvent sdk code reason receipt of SdkError md \<Rightarrow> get_or md [] | _ \<Rightarrow> [])"

definition authorizeDelivery ::
    "x402_sdk \<Rightarrow> int \<Rightarrow> string \<Rightarrow> string \<Rightarrow> sdk_delivery \<Rightarrow> status_event option" where
  "authorizeDelivery sdk now taskId contextId outcome =
     (case outcome of
        DeliveryAuthorized \<Rightarrow> None
      | DeliveryRefused \<Rightarrow>
          Some (gate_failed_event sdk now taskId contextId ''SETTLEMENT_FAILED''
            ''Payment authorization is no longer available for delivery.'' None))"

text \<open>\<open>version\<close> is the wire version of the deployment, \<open>outcome\<close> what the library answers when it
  is asked: metered pricing on version 1 never reaches it.\<close>

definition gate_open ::
    "x402_sdk \<Rightarrow> nat \<Rightarrow> int \<Rightarrow> x402_pricing \<Rightarrow> string \<Rightarrow> string \<Rightarrow> sdk_open \<Rightarrow> gate_outcome" where
  "gate_open sdk version now pricing taskId contextId outcome =
     (if (case pricing of UptoPricing _ _ _ _ _ \<Rightarrow> True | _ \<Rightarrow> False) \<and> version = 1 then
        Halt (gate_failed_event sdk now taskId contextId ''invalid_x402_version''
          ''Metered pricing requires x402 V2, which this deployment does not serve.'' None)
      else case outcome of
        RequestPayment txt md \<Rightarrow> Halt (gate_status_event sdk now taskId contextId INPUT_REQUIRED txt md)
      | RefusePayment code reason receipt \<Rightarrow>
          Halt (gate_failed_event sdk now taskId contextId code reason receipt)
      | HandledPayment md \<Rightarrow>
          Halt (gate_status_event sdk now taskId contextId COMPLETED
            ''The payment operation completed; no agent work was performed.'' md)
      | ProceedPaid None \<Rightarrow> Proceed None
      | ProceedPaid (Some DeferredObligation) \<Rightarrow> Proceed (Some Deferred)
      | ProceedPaid (Some (SettledObligation receipt)) \<Rightarrow>
          Proceed (Some (Settled (case sdk_completedEvent sdk receipt of SdkDone md \<Rightarrow> get_or md [] | _ \<Rightarrow> []))))"

definition gate_settle ::
    "x402_sdk \<Rightarrow> int \<Rightarrow> string \<Rightarrow> string \<Rightarrow> sdk_settle \<Rightarrow> status_event + obj" where
  "gate_settle sdk now taskId contextId result =
     (case result of
        SettleFailed code reason receipt \<Rightarrow> Inl (gate_failed_event sdk now taskId contextId code reason receipt)
      | SettleDone md \<Rightarrow> Inr md)"

text \<open>\<open>clear\<close> keeps the record of an offering whose failure is indeterminate: it says whether the
  offering is dropped. The flag is \<open>None\<close> when the store throws.\<close>

definition gate_clears :: "bool option \<Rightarrow> bool" where
  "gate_clears indeterminate = (indeterminate = Some False)"

subsection \<open>Laws\<close>

lemma gate_failed_state [simp]:
  "st_state (se_status (gate_failed_event sdk now t c code reason receipt)) = FAILED"
  by (simp add: gate_failed_event_def gate_status_event_def)

text \<open>An unpaid turn never proceeds: the gate lets a turn run only when the library said so.\<close>

lemma gate_proceeds:
  "gate_open sdk v now p t c out = Proceed st \<Longrightarrow> \<exists>ob. out = ProceedPaid ob \<and> (st = None \<longleftrightarrow> ob = None)"
  by (auto simp: gate_open_def split: if_splits sdk_open.splits option.splits obligation.splits)

lemma refusal_fails:
  "authorizeDelivery sdk now t c d = Some e \<Longrightarrow> st_state (se_status e) = FAILED"
  by (auto simp: authorizeDelivery_def split: sdk_delivery.splits)

lemma settle_failure_fails:
  "gate_settle sdk now t c res = Inl e \<Longrightarrow> st_state (se_status e) = FAILED"
  by (auto simp: gate_settle_def split: sdk_settle.splits)

end
