(* ===== verification/Executor.thy ===== *)
theory Executor
  imports Ws Callers Gate
begin

text \<open>
  \<open>WSForwardingExecutor\<close> (packages/server/src/executor.ts): how a message to an agent becomes a
  task on its connection, and the frames of the agent the events of a stream.

  Every call of \<open>executeStream\<close> creates one queue, one abort controller and one binding; one
  reference names the three. \<open>ex_acs\<close> holds the \<open>abortControllers\<close> of every executor, by agent and
  task. A yield is appended to \<open>rn_yields\<close>; what the code does after it runs at the next
  resumption. The task store and the payment library are outside: their answers are arguments, the
  calls are logged. A \<open>turn\<close> becomes a \<open>pending\<close> dispatch and that a \<open>run\<close>, so that other
  operations may come in wherever the code awaits.
\<close>

subsection \<open>State\<close>

text \<open>The terminal states of A2A, \<open>TERMINAL_STATES\<close> of the SDK.\<close>

definition terminal_state :: "task_state \<Rightarrow> bool" where
  "terminal_state st \<longleftrightarrow> st \<in> {COMPLETED, CANCELED, FAILED, REJECTED}"

record patch =
  pt_status :: "task_status option"
  pt_history :: "message list option"
  pt_artifacts :: "artifact list option"

datatype exec_effect =
    UpdateTask string patch
  | MarkExecution string "string option"
  | GateSettle string meterable
  | GateClear string
  | GateAuthorize string

datatype phase = Looping | Breaking | Done

record stream_run =
  rn_agentId :: string
  rn_taskId :: string
  rn_contextId :: string
  rn_executionId :: "string option"
  rn_requestedExtensions :: "string list option"
  rn_ref :: bref
  rn_settlement :: "settlement option"
  rn_task :: task
  rn_history :: "message list"
  rn_prior :: "artifact list"
  rn_accumulated :: "artifact list"
  rn_watchdog :: "int option"
  rn_sawFinal :: bool
  rn_authorized :: bool
  rn_yields :: "event list"
  rn_phase :: phase

record exec =
  ex_srv :: srv
  ex_inactivityMs :: int
  ex_acs :: "(string \<times> string, bref) jsmap"
  ex_aborted :: "bref \<Rightarrow> bool"
  ex_runs :: "(bref, stream_run) jsmap"
  ex_log :: "exec_effect list"

record turn =
  tn_agentId :: string
  tn_task :: task
  tn_message :: message
  tn_handoff :: handoff
  tn_presented :: "attestation list option"

record pending =
  pn_turn :: turn
  pn_run :: stream_run
  pn_binding :: binding
  pn_caller :: "caller_context option"
  pn_scope :: "execution_scope option"

definition log_effect :: "exec_effect \<Rightarrow> exec \<Rightarrow> exec" where
  "log_effect x e = e\<lparr>ex_log := ex_log e @ [x]\<rparr>"

definition status_patch :: "task_status \<Rightarrow> message list option \<Rightarrow> patch" where
  "status_patch st h = \<lparr>pt_status = Some st, pt_history = h, pt_artifacts = None\<rparr>"

definition on_srv :: "(srv \<Rightarrow> srv) \<Rightarrow> exec \<Rightarrow> exec" where
  "on_srv f e = e\<lparr>ex_srv := f (ex_srv e)\<rparr>"

definition set_run :: "stream_run \<Rightarrow> exec \<Rightarrow> exec" where
  "set_run rn e = e\<lparr>ex_runs := map_set (rn_ref rn) rn (ex_runs e)\<rparr>"

definition drop_ac :: "string \<Rightarrow> string \<Rightarrow> bref \<Rightarrow> exec \<Rightarrow> exec" where
  "drop_ac agentId taskId r e =
     (if map_of (ex_acs e) (agentId, taskId) = Some r
      then e\<lparr>ex_acs := map_del (agentId, taskId) (ex_acs e)\<rparr> else e)"

definition yields :: "event \<Rightarrow> stream_run \<Rightarrow> stream_run" where
  "yields ev rn = rn\<lparr>rn_yields := rn_yields rn @ [ev]\<rparr>"

subsection \<open>A turn comes in\<close>

definition IDENTITY_VC_PRESENTED_METADATA_KEY :: string where
  "IDENTITY_VC_PRESENTED_METADATA_KEY = ''_identityVcPresented''"

text \<open>The identity the HTTP layer put into the metadata; \<open>presented\<close> is its typed value under the
  key that is deleted.\<close>

definition meta_string :: "obj option \<Rightarrow> string \<Rightarrow> string option" where
  "meta_string md k = Option.bind md (\<lambda>m. str_field m k)"

definition open_turn :: "string \<Rightarrow> task \<Rightarrow> message \<Rightarrow> attestation list option \<Rightarrow> turn" where
  "open_turn agentId task msg presented =
     (let md = m_metadata msg
      in \<lparr>tn_agentId = agentId, tn_task = task,
          tn_message = msg\<lparr>m_metadata := map_option (map_del IDENTITY_VC_PRESENTED_METADATA_KEY) md\<rparr>,
          tn_handoff = \<lparr>ho_principalId = meta_string md ''_principalId'', ho_actorId = meta_string md ''_actorId'',
            ho_authorizationKey = meta_string md ''_authorizationKey'',
            ho_authorizationProfile = meta_string md ''_authorizationProfile''\<rparr>,
          tn_presented = presented\<rparr>)"

definition turn_context :: "turn \<Rightarrow> string" where
  "turn_context tn = get_or (t_contextId (tn_task tn)) (t_id (tn_task tn))"

definition agent_caps :: "string \<Rightarrow> exec \<Rightarrow> capabilities" where
  "agent_caps agentId e = Option.bind (getAgent agentId (ex_srv e)) cn_protocolCapabilities"

definition scope_required :: "(string \<Rightarrow> string) \<Rightarrow> turn \<Rightarrow> exec \<Rightarrow> bool" where
  "scope_required sha256 tn e \<longleftrightarrow>
     caps_include (agent_caps (tn_agentId tn) e) CALLER_RUNTIME_V1_CAPABILITY \<and>
     resolveExecutionScope sha256 (tn_agentId tn) (agent_caps (tn_agentId tn) e) (tn_handoff tn) = None"

text \<open>A turn that ends before it is dispatched shows \<open>ev\<close> and saves the task. The result is the
  event yielded and the task as it is left.\<close>

definition end_turn :: "turn \<Rightarrow> status_event \<Rightarrow> exec \<Rightarrow> event \<times> task \<times> exec" where
  "end_turn tn ev e =
     (let t = tn_task tn;
          history = appendHistoryMessage (appendHistoryMessage (get_or (t_history t) []) (Some (tn_message tn)))
                      (st_message (se_status ev));
          t' = t\<lparr>t_status := se_status ev, t_history := Some history\<rparr>
      in (StatusEvent ev, t', log_effect (UpdateTask (t_id t) (status_patch (se_status ev) (Some history))) e))"

definition scope_refusal :: "string \<Rightarrow> turn \<Rightarrow> exec \<Rightarrow> event \<times> task \<times> exec" where
  "scope_refusal uuid tn e =
     end_turn tn
       \<lparr>se_taskId = t_id (tn_task tn), se_contextId = turn_context tn, se_final = True,
        se_status = \<lparr>st_state = FAILED, st_timestamp = Some (Iso (clock (ex_srv e))),
          st_message = Some \<lparr>m_messageId = uuid, m_role = Agent,
            m_parts = [[(''text'', JStr ''container runtime requires a supported authenticated caller scope'')]],
            m_metadata = None, m_extensions = None, m_taskId = Some (t_id (tn_task tn)),
            m_contextId = Some (turn_context tn)\<rparr>\<rparr>,
        se_metadata = None\<rparr> e"

definition gate_halt :: "status_event \<Rightarrow> turn \<Rightarrow> exec \<Rightarrow> event \<times> task \<times> exec" where
  "gate_halt ev tn e = end_turn tn ev e"

subsection \<open>The binding and what the agent is told\<close>

text \<open>\<open>uuid\<close> is the random id of the execution, used when the agent can replay.\<close>

definition prepare ::
    "(string \<Rightarrow> string) \<Rightarrow> string \<Rightarrow> settlement option \<Rightarrow> turn \<Rightarrow> exec \<Rightarrow> pending \<times> exec" where
  "prepare sha256 uuid st tn e =
     (let s = ex_srv e; r = next_ref s; t = tn_task tn; ho = tn_handoff tn; msg = tn_message tn;
          caps = agent_caps (tn_agentId tn) e;
          version = selectCallerContextVersion caps;
          hasCallerInput = (ho_principalId ho \<noteq> None \<or> ho_actorId ho \<noteq> None \<or> get_or (tn_presented tn) [] \<noteq> []);
          canonical = (if version \<noteq> None \<and> hasCallerInput
                       then createCanonicalCallerContext (ho_principalId ho) (ho_actorId ho) (tn_presented tn)
                       else None);
          caller = serializeCallerContext canonical version;
          scope = (if caller = None then None else resolveExecutionScope sha256 (tn_agentId tn) caps ho);
          executionId = (if caps_include caps TASK_REPLAY_CAPABILITY then Some uuid else None);
          b = \<lparr>b_agentId = tn_agentId tn, b_taskId = t_id t, b_executionId = executionId,
               b_nextClientSeq = map_option (\<lambda>_. 0) executionId, b_contextId = turn_context tn,
               b_principalId = ho_principalId ho, b_actorId = ho_actorId ho,
               b_authorizationProfile = ho_authorizationProfile ho, b_authorizationKey = ho_authorizationKey ho,
               b_requestedExtensions = m_extensions msg, b_heartbeats = None, b_usage = None\<rparr>;
          rn = \<lparr>rn_agentId = tn_agentId tn, rn_taskId = t_id t, rn_contextId = turn_context tn,
               rn_executionId = executionId, rn_requestedExtensions = m_extensions msg, rn_ref = r,
               rn_settlement = st, rn_task = t,
               rn_history = appendHistoryMessage (get_or (t_history t) []) (Some msg),
               rn_prior = (if executionId = None then get_or (t_artifacts t) [] else []),
               rn_accumulated = [], rn_watchdog = None, rn_sawFinal = False, rn_authorized = False,
               rn_yields = [], rn_phase = Looping\<rparr>
      in (\<lparr>pn_turn = tn, pn_run = rn, pn_binding = b, pn_caller = caller, pn_scope = scope\<rparr>,
          e\<lparr>ex_srv := s\<lparr>next_ref := Suc r, objs := (objs s)(r := b), queues := (queues s)(r := new_queue)\<rparr>,
            ex_aborted := (ex_aborted e)(r := False)\<rparr>))"

text \<open>What the task store answers inside \<open>serializeDispatch\<close>; \<open>NoGetTask\<close> is a store without it.\<close>

datatype stored = NoGetTask | GetFails | Stored "task option"
datatype marking = NoMarking | MarkFails | Marked
datatype guard = Interrupted task | NotOwner | MayDispatch | NotRecorded

definition held_by_other :: "stream_run \<Rightarrow> exec \<Rightarrow> bool" where
  "held_by_other rn e \<longleftrightarrow>
     (case getBinding (rn_taskId rn) (ex_srv e) of
        None \<Rightarrow> False
      | Some h \<Rightarrow> b_agentId (objs (ex_srv e) h) \<noteq> rn_agentId rn)"

definition dispatch_guard :: "stored \<Rightarrow> pending \<Rightarrow> exec \<Rightarrow> guard" where
  "dispatch_guard st p e =
     (case st of
        NoGetTask \<Rightarrow> MayDispatch
      | GetFails \<Rightarrow> NotRecorded
      | Stored (Some t) \<Rightarrow>
          if terminal_state (st_state (t_status t)) then Interrupted t
          else if held_by_other (pn_run p) e then NotOwner else MayDispatch
      | Stored None \<Rightarrow> if held_by_other (pn_run p) e then NotOwner else MayDispatch)"

definition mark_execution :: "stored \<Rightarrow> marking \<Rightarrow> pending \<Rightarrow> exec \<Rightarrow> bool \<times> exec" where
  "mark_execution st m p e =
     (if st = NoGetTask \<or> m = NoMarking then (True, e)
      else if m = MarkFails then (False, e)
      else (True, log_effect (MarkExecution (rn_taskId (pn_run p)) (rn_executionId (pn_run p))) e))"

datatype dispatched = NotBound | Threw string | Sent bool

definition bound_task :: "stream_run \<Rightarrow> task" where
  "bound_task rn =
     (let t = rn_task rn
      in t\<lparr>t_metadata := withExecutionMarker (t_metadata t) (rn_executionId rn),
           t_artifacts := (if rn_executionId rn = None then t_artifacts t else None),
           t_history := Some (rn_history rn)\<rparr>)"

definition assign_frame :: "pending \<Rightarrow> obj list \<Rightarrow> assign" where
  "assign_frame p parts =
     (let rn = pn_run p; msg = tn_message (pn_turn p)
      in \<lparr>as_taskId = rn_taskId rn, as_executionId = rn_executionId rn, as_contextId = rn_contextId rn,
          as_message = \<lparr>wm_role = m_role msg, wm_parts = parts, wm_messageId = m_messageId msg,
            wm_metadata = stripInternalMetadata (m_metadata msg), wm_extensions = m_extensions msg\<rparr>,
          as_requestedExtensions = m_extensions msg, as_caller = pn_caller p, as_executionScope = pn_scope p\<rparr>)"

text \<open>The closure \<open>dispatch\<close>. The parts are converted after the task is bound, and that may throw.\<close>

definition dispatch :: "pending \<Rightarrow> exec \<Rightarrow> dispatched \<times> pending \<times> exec" where
  "dispatch p e =
     (let rn = pn_run p; r = rn_ref rn
      in if \<not> fst (bindTask r (ex_srv e)) then (NotBound, p, e)
         else
           (let e1 = e\<lparr>ex_srv := snd (bindTask r (ex_srv e)),
                       ex_acs := map_set (rn_agentId rn, rn_taskId rn) r (ex_acs e)\<rparr>;
                p1 = p\<lparr>pn_run := rn\<lparr>rn_task := bound_task rn\<rparr>\<rparr>
            in case partsToWire (m_parts (tn_message (pn_turn p))) of
                 Inl err \<Rightarrow> (Threw err, p1, e1)
               | Inr parts \<Rightarrow>
                   (let (sent, s2) = sendToAgent (rn_agentId rn) (TaskAssign (assign_frame p parts)) (ex_srv e1)
                    in (Sent sent, p1, e1\<lparr>ex_srv := s2\<rparr>))))"

subsection \<open>Settling a terminal event\<close>

definition settleTerminal ::
    "payments \<Rightarrow> settlement option \<Rightarrow> status_event \<Rightarrow> bref \<Rightarrow> string \<Rightarrow> string \<Rightarrow>
     exec \<Rightarrow> status_event \<times> exec" where
  "settleTerminal py st ev r taskId contextId e =
     (case st of
        None \<Rightarrow> (ev, e)
      | Some (Settled md) \<Rightarrow> (withReceipt ev md taskId contextId, log_effect (GateClear taskId) e)
      | Some Deferred \<Rightarrow>
          if st_state (se_status ev) \<noteq> COMPLETED then (ev, log_effect (GateClear taskId) e)
          else
            (let usage = ru_usage (readTaskUsage (b_usage (objs (ex_srv e) r))
                           (Option.bind (st_message (se_status ev)) m_metadata));
                 e1 = log_effect (GateClear taskId) (log_effect (GateSettle taskId usage) e)
             in case gate_settle (py_sdk py) (clock (ex_srv e)) taskId contextId (py_settle py usage) of
                  Inl failed \<Rightarrow> (failed, e1)
                | Inr md \<Rightarrow> (withReceipt ev md taskId contextId, e1)))"

definition exec_failed ::
    "stream_run \<Rightarrow> string \<Rightarrow> string \<Rightarrow> string \<Rightarrow> string \<Rightarrow> int \<Rightarrow> status_event" where
  "exec_failed rn sfx txt code msg now =
     \<lparr>se_taskId = rn_taskId rn, se_contextId = rn_contextId rn, se_final = True,
      se_status = \<lparr>st_state = FAILED, st_timestamp = Some (Iso now),
        st_message = Some \<lparr>m_messageId = rn_taskId rn @ ''-'' @ sfx, m_role = Agent,
          m_parts = [[(''text'', JStr txt)]],
          m_metadata = fst (terminalErrorMessageFields code msg (rn_requestedExtensions rn)),
          m_extensions = snd (terminalErrorMessageFields code msg (rn_requestedExtensions rn)),
          m_taskId = Some (rn_taskId rn), m_contextId = Some (rn_contextId rn)\<rparr>\<rparr>,
      se_metadata = None\<rparr>"

subsection \<open>The end of a dispatch\<close>

text \<open>The task was terminal in the store: its status is shown again.\<close>

definition interrupted_turn ::
    "payments \<Rightarrow> pending \<Rightarrow> task \<Rightarrow> exec \<Rightarrow> event \<times> task \<times> exec" where
  "interrupted_turn py p stored_task e =
     (let rn = pn_run p;
          e1 = on_srv (finish_sink (rn_ref rn)) e;
          ev = \<lparr>se_taskId = rn_taskId rn, se_contextId = rn_contextId rn, se_final = True,
                se_status = t_status stored_task, se_metadata = None\<rparr>;
          (shown, e2) = settleTerminal py (rn_settlement rn) ev (rn_ref rn) (rn_taskId rn) (rn_contextId rn) e1
      in (StatusEvent shown,
          (rn_task rn)\<lparr>t_status := se_status shown, t_history := t_history stored_task,
             t_artifacts := t_artifacts stored_task, t_metadata := t_metadata stored_task\<rparr>, e2))"

text \<open>The dispatch was refused: \<open>owner\<close> when another agent holds the task, else it was not recorded.\<close>

definition rejected_turn ::
    "payments \<Rightarrow> bool \<Rightarrow> pending \<Rightarrow> exec \<Rightarrow> event \<times> task \<times> exec" where
  "rejected_turn py owner p e =
     (let rn = pn_run p; t = rn_task rn;
          e1 = on_srv (finish_sink (rn_ref rn)) e;
          ev = (if owner
                then exec_failed rn ''owner-mismatch'' ''task ownership validation failed'' ''task_owner_mismatch''
                       ''task ownership validation failed'' (clock (ex_srv e))
                else exec_failed rn ''persist-failed'' ''task dispatch could not be recorded'' ''task_persist_failed''
                       ''task dispatch could not be recorded'' (clock (ex_srv e)));
          (shown, e2) = settleTerminal py (rn_settlement rn) ev (rn_ref rn) (rn_taskId rn) (rn_contextId rn) e1;
          history = appendHistoryMessage
            (appendHistoryMessage (get_or (t_history t) []) (Some (tn_message (pn_turn p)))) (st_message (se_status shown))
      in (StatusEvent shown, t\<lparr>t_status := se_status shown, t_history := Some history\<rparr>,
          log_effect (UpdateTask (rn_taskId rn) (status_patch (se_status shown) (Some history))) e2))"

definition unreachable_turn ::
    "payments \<Rightarrow> pending \<Rightarrow> exec \<Rightarrow> event \<times> task \<times> exec" where
  "unreachable_turn py p e =
     (let rn = pn_run p;
          ev = exec_failed rn ''unreach'' ''client not connected'' ''client_not_connected'' ''client not connected''
                 (clock (ex_srv e));
          (shown, e1) = settleTerminal py (rn_settlement rn) ev (rn_ref rn) (rn_taskId rn) (rn_contextId rn) e;
          history = appendHistoryMessage (rn_history rn) (st_message (se_status shown));
          e2 = drop_ac (rn_agentId rn) (rn_taskId rn) (rn_ref rn)
                 (on_srv (unbindTask (rn_taskId rn) (rn_ref rn)) e1)
      in (StatusEvent shown, (rn_task rn)\<lparr>t_status := se_status shown, t_history := Some history\<rparr>,
          log_effect (UpdateTask (rn_taskId rn) (status_patch (se_status shown) (Some history))) e2))"

text \<open>The whole of \<open>serializeDispatch\<close> and what follows it: a turn that ended, or the stream that
  starts.\<close>

datatype started = Ended event task | Started

definition arm_watchdog :: "stream_run \<Rightarrow> exec \<Rightarrow> stream_run" where
  "arm_watchdog rn e =
     (if ex_inactivityMs e \<le> 0 then rn
      else rn\<lparr>rn_watchdog := Some (clock (ex_srv e) + ex_inactivityMs e)\<rparr>)"

definition ended :: "event \<times> task \<times> exec \<Rightarrow> started \<times> exec" where
  "ended x = (Ended (fst x) (fst (snd x)), snd (snd x))"

definition dispatch_turn ::
    "payments \<Rightarrow> stored \<Rightarrow> marking \<Rightarrow> pending \<Rightarrow> exec \<Rightarrow> started \<times> exec" where
  "dispatch_turn py st m p e =
     (case dispatch_guard st p e of
        Interrupted t \<Rightarrow> ended (interrupted_turn py p t e)
      | NotOwner \<Rightarrow> ended (rejected_turn py True p e)
      | NotRecorded \<Rightarrow> ended (rejected_turn py False p e)
      | MayDispatch \<Rightarrow>
          if \<not> fst (mark_execution st m p e) then ended (rejected_turn py False p e)
          else (case dispatch p (snd (mark_execution st m p e)) of
                  (NotBound, p1, e1) \<Rightarrow> ended (rejected_turn py True p1 e1)
                | (Threw err, p1, e1) \<Rightarrow> ended (rejected_turn py False p1 e1)
                | (Sent sent, p1, e1) \<Rightarrow>
                    if sent then (Started, set_run (arm_watchdog (pn_run p1) e1) e1)
                    else ended (unreachable_turn py p1 e1)))"

subsection \<open>The stream\<close>

text \<open>What the outside answers during one step of the loop: the payment library, and whether
  \<open>updateTask\<close> succeeds.\<close>

record answers =
  an_pay :: payments
  an_storeOk :: bool

text \<open>The \<open>finally\<close> block.\<close>

definition close_stream :: "stream_run \<Rightarrow> exec \<Rightarrow> exec" where
  "close_stream rn e =
     set_run (rn\<lparr>rn_watchdog := None, rn_phase := Done\<rparr>)
       (drop_ac (rn_agentId rn) (rn_taskId rn) (rn_ref rn)
         (on_srv (unbindTask (rn_taskId rn) (rn_ref rn)) e))"

text \<open>The loop ended: the task is saved, then \<open>finally\<close>.\<close>

definition finish_stream :: "stream_run \<Rightarrow> exec \<Rightarrow> exec" where
  "finish_stream rn e =
     (let t = rn_task rn;
          st = (if \<not> terminal_state (st_state (t_status t)) \<and> ex_aborted e (rn_ref rn)
                then \<lparr>st_state = CANCELED, st_timestamp = Some (Iso (clock (ex_srv e))), st_message = None\<rparr>
                else t_status t);
          pt = \<lparr>pt_status = Some st, pt_history = t_history t,
                pt_artifacts = (if rn_accumulated rn = [] then None else t_artifacts t)\<rparr>
      in close_stream (rn\<lparr>rn_task := t\<lparr>t_status := st\<rparr>\<rparr>) (log_effect (UpdateTask (rn_taskId rn) pt) e))"

definition carries_output :: "event \<Rightarrow> bool" where
  "carries_output ev =
     (case ev of
        ArtifactEvent _ \<Rightarrow> True
      | StatusEvent s \<Rightarrow> (case st_message (se_status s) of None \<Rightarrow> False | Some m \<Rightarrow> m_parts m \<noteq> []))"

text \<open>No output crosses the publication boundary before the payment is authorised.\<close>

definition authorize :: "answers \<Rightarrow> stream_run \<Rightarrow> event \<Rightarrow> exec \<Rightarrow> event \<times> stream_run \<times> exec" where
  "authorize an rn ev e =
     (if rn_settlement rn \<noteq> None \<and> \<not> rn_authorized rn \<and> carries_output ev then
        (let e1 = log_effect (GateAuthorize (rn_taskId rn)) e
         in case authorizeDelivery (py_sdk (an_pay an)) (clock (ex_srv e)) (rn_taskId rn) (rn_contextId rn)
                   (py_delivery (an_pay an)) of
              Some refusal \<Rightarrow>
                (StatusEvent refusal, rn,
                 on_srv (send_agent (rn_agentId rn) (TaskCancel (rn_taskId rn) (rn_executionId rn))) e1)
            | None \<Rightarrow> (ev, rn\<lparr>rn_authorized := True\<rparr>, e1))
      else (ev, rn, e))"

definition on_artifact :: "artifact_event \<Rightarrow> stream_run \<Rightarrow> exec \<Rightarrow> exec" where
  "on_artifact a rn e =
     (let acc = appendArtifactChunk (rn_accumulated rn) a
      in set_run (yields (ArtifactEvent a)
           (rn\<lparr>rn_accumulated := acc, rn_task := (rn_task rn)\<lparr>t_artifacts := Some (taskArtifacts (rn_prior rn) acc)\<rparr>\<rparr>)) e)"

definition on_terminal :: "answers \<Rightarrow> status_event \<Rightarrow> stream_run \<Rightarrow> exec \<Rightarrow> exec" where
  "on_terminal an ev rn e =
     (let (shown, e1) = settleTerminal (an_pay an) (rn_settlement rn) ev (rn_ref rn) (rn_taskId rn) (rn_contextId rn) e;
          history = appendHistoryMessage (rn_history rn) (st_message (se_status shown));
          t = rn_task rn;
          arts = (if rn_accumulated rn = [] then t_artifacts t
                  else Some (taskArtifacts (rn_prior rn) (rn_accumulated rn)))
      in set_run (yields (StatusEvent (withOrigin (rn_executionId rn) shown))
           (rn\<lparr>rn_history := history, rn_phase := Breaking,
              rn_task := t\<lparr>t_history := Some history, t_status := se_status shown, t_artifacts := arts\<rparr>\<rparr>)) e1)"

text \<open>A status that is not terminal is saved when the task enters or leaves \<open>auth-required\<close>; a
  store that throws there ends the generator through \<open>finally\<close>.\<close>

definition on_progress :: "answers \<Rightarrow> status_event \<Rightarrow> stream_run \<Rightarrow> exec \<Rightarrow> exec" where
  "on_progress an ev rn e =
     (let t = rn_task rn;
          history = appendHistoryMessage (rn_history rn) (st_message (se_status ev));
          rn1 = rn\<lparr>rn_history := history, rn_task := t\<lparr>t_history := Some history, t_status := se_status ev\<rparr>\<rparr>;
          crossing = ((st_state (t_status t) = AUTH_REQUIRED) \<noteq> (st_state (se_status ev) = AUTH_REQUIRED));
          shown = yields (StatusEvent (withOrigin (rn_executionId rn) ev)) rn1
      in if \<not> crossing then set_run shown e
         else if an_storeOk an
         then set_run shown (log_effect (UpdateTask (rn_taskId rn) (status_patch (se_status ev) (Some history))) e)
         else close_stream rn1 e)"

definition on_event :: "answers \<Rightarrow> event \<Rightarrow> stream_run \<Rightarrow> exec \<Rightarrow> exec" where
  "on_event an ev0 rn0 e0 =
     (let (ev, rn, e) = authorize an (arm_watchdog rn0 e0) ev0 e0
      in case ev of
           ArtifactEvent a \<Rightarrow> on_artifact a rn e
         | StatusEvent s \<Rightarrow>
             (let rn1 = rn\<lparr>rn_sawFinal := rn_sawFinal rn \<or> se_final s\<rparr>
              in if terminal_state (st_state (se_status s)) then on_terminal an s rn1 e
                 else on_progress an s rn1 e))"

text \<open>The consumer asks for the next event of the generator.\<close>

definition resume :: "answers \<Rightarrow> stream_run \<Rightarrow> exec \<Rightarrow> exec" where
  "resume an rn e =
     (case rn_phase rn of
        Done \<Rightarrow> e
      | Breaking \<Rightarrow> finish_stream rn e
      | Looping \<Rightarrow>
          (let (res, q) = q_next (ex_aborted e (rn_ref rn)) (queues (ex_srv e) (rn_ref rn));
               e1 = on_srv (upd_queue (rn_ref rn) (\<lambda>_. q)) e
           in case res of
                IYield ev \<Rightarrow> on_event an ev rn e1
              | IDone \<Rightarrow> finish_stream rn e1
              | IThrow _ \<Rightarrow> close_stream rn e1
              | IParked \<Rightarrow> e1))"

text \<open>The consumer abandons the generator while it is suspended at a yield.\<close>

definition abandon :: "stream_run \<Rightarrow> exec \<Rightarrow> exec" where
  "abandon rn e = (if rn_phase rn = Done then e else close_stream rn e)"

text \<open>The inactivity timer of the stream fires.\<close>

definition watchdog_fires :: "stream_run \<Rightarrow> exec \<Rightarrow> exec" where
  "watchdog_fires rn e =
     (if waiting (objs (ex_srv e) (rn_ref rn)) (ex_srv e) \<noteq> None then set_run (arm_watchdog rn e) e
      else set_run (rn\<lparr>rn_watchdog := None\<rparr>)
        (on_srv (\<lambda>s. finish_sink (rn_ref rn) (pushStatus (rn_ref rn)
           (exec_failed rn ''inactivity'' ''task timed out: no activity from the connected agent''
              ''inactivity_timeout'' ''no activity from the connected agent'' (clock s)) s)) e))"

subsection \<open>Cancellation\<close>

definition cancel_event :: "string \<Rightarrow> string \<Rightarrow> int \<Rightarrow> status_event" where
  "cancel_event taskId contextId now =
     \<lparr>se_taskId = taskId, se_contextId = contextId, se_final = True,
      se_status = \<lparr>st_state = CANCELED, st_timestamp = Some (Iso now), st_message = None\<rparr>, se_metadata = None\<rparr>"

text \<open>The abort of a controller: the flag, and the listener of a parked iteration.\<close>

definition abort_ac :: "bref \<Rightarrow> exec \<Rightarrow> exec" where
  "abort_ac r e =
     (if ex_aborted e r then e
      else on_srv (upd_queue r q_abort) (e\<lparr>ex_aborted := (ex_aborted e)(r := True)\<rparr>))"

text \<open>\<open>latest\<close> is what the store holds, \<open>None\<close> when it holds nothing or has no \<open>getTask\<close>.\<close>

definition cancelCurrent :: "string \<Rightarrow> task \<Rightarrow> task option \<Rightarrow> exec \<Rightarrow> string + task \<times> exec" where
  "cancelCurrent agentId task0 latest e =
     (let t = get_or latest task0; taskId = t_id t; contextId = get_or (t_contextId t) taskId;
          s = ex_srv e; b = getBinding taskId s
      in if terminal_state (st_state (t_status t)) then Inl ''Task cannot be canceled''
         else if (case b of None \<Rightarrow> False | Some r \<Rightarrow> b_agentId (objs s r) \<noteq> agentId)
         then Inl ''Task cannot be canceled''
         else
           (let e1 = on_srv (send_agent agentId (TaskCancel taskId
                       (case b of None \<Rightarrow> None | Some r \<Rightarrow> b_executionId (objs s r)))) e;
                e2 = (case b of
                        None \<Rightarrow> e1
                      | Some r \<Rightarrow> on_srv (\<lambda>s. finish_sink r (pushStatus r (cancel_event taskId contextId (clock s)) s)) e1);
                e3 = (case map_of (ex_acs e2) (agentId, taskId) of None \<Rightarrow> e2 | Some r \<Rightarrow> abort_ac r e2);
                st = \<lparr>st_state = CANCELED, st_timestamp = Some (Iso (clock s)), st_message = None\<rparr>
            in Inr (t\<lparr>t_status := st\<rparr>,
                    log_effect (UpdateTask taskId \<lparr>pt_status = Some st, pt_history = None, pt_artifacts = None\<rparr>) e3)))"

subsection \<open>\<open>message/send\<close>\<close>

text \<open>\<open>execute\<close> drains the stream and saves a snapshot of the task after every event that is not
  its end.\<close>

definition unary_snapshot :: "event \<Rightarrow> task \<Rightarrow> patch option" where
  "unary_snapshot ev t =
     (case ev of
        ArtifactEvent _ \<Rightarrow> Some \<lparr>pt_status = None, pt_history = None, pt_artifacts = t_artifacts t\<rparr>
      | StatusEvent s \<Rightarrow>
          if terminal_state (st_state (se_status s)) then None
          else Some (status_patch (t_status t) (t_history t)))"

definition execute_saves :: "(event \<times> task) list \<Rightarrow> string \<Rightarrow> exec \<Rightarrow> exec" where
  "execute_saves evs taskId e =
     fold (\<lambda>(ev, t) e. case unary_snapshot ev t of None \<Rightarrow> e | Some pt \<Rightarrow> log_effect (UpdateTask taskId pt) e) evs e"

subsection \<open>Steps\<close>

text \<open>The executors of a server with the dispatches under way. The rest of the server may do
  anything that orphans no stream (\<open>closes\<close>), which every operation of it is shown to satisfy.\<close>

inductive exec_step :: "exec \<times> pending list \<Rightarrow> exec \<times> pending list \<Rightarrow> bool" where
  Server: "closes (ex_srv e) s \<Longrightarrow> next_ref (ex_srv e) \<le> next_ref s \<Longrightarrow> exec_step (e, ps) (e\<lparr>ex_srv := s\<rparr>, ps)"
| Prepare: "prepare sha256 uuid st tn e = (p, e') \<Longrightarrow> exec_step (e, ps) (e', p # ps)"
| Dispatch: "p \<in> set ps \<Longrightarrow> dispatch_turn py sto m p e = (res, e') \<Longrightarrow> exec_step (e, ps) (e', remove1 p ps)"
| Resume: "map_of (ex_runs e) r = Some rn \<Longrightarrow> exec_step (e, ps) (resume an rn e, ps)"
| Abandon: "map_of (ex_runs e) r = Some rn \<Longrightarrow> exec_step (e, ps) (abandon rn e, ps)"
| Watchdog: "map_of (ex_runs e) r = Some rn \<Longrightarrow> rn_watchdog rn = Some due \<Longrightarrow> due \<le> clock (ex_srv e) \<Longrightarrow>
    exec_step (e, ps) (watchdog_fires rn e, ps)"
| Cancel: "cancelCurrent agentId t latest e = Inr (t', e') \<Longrightarrow> exec_step (e, ps) (e', ps)"

text \<open>A server that has just started.\<close>

definition exec_init :: "exec \<times> pending list \<Rightarrow> bool" where
  "exec_init x \<longleftrightarrow> ex_runs (fst x) = [] \<and> ex_acs (fst x) = [] \<and> snd x = [] \<and> queue_inv (ex_srv (fst x))"

end
