(* ===== verification/ExecutorFacts.thy ===== *)
theory ExecutorFacts
  imports Executor
begin

text \<open>
  What the streams of the executor promise: one terminal event and nothing after it, no unpaid
  output, an armed inactivity timer, an end in bounded time; and what a dispatch, a cancellation and
  a failed dispatch leave behind.
\<close>

subsection \<open>Frames\<close>

lemma exec_frame [simp]:
  "ex_runs (on_srv f e) = ex_runs e" "ex_acs (on_srv f e) = ex_acs e" "ex_aborted (on_srv f e) = ex_aborted e"
  "ex_srv (on_srv f e) = f (ex_srv e)" "ex_inactivityMs (on_srv f e) = ex_inactivityMs e"
  "ex_log (on_srv f e) = ex_log e"
  "ex_runs (log_effect x e) = ex_runs e" "ex_acs (log_effect x e) = ex_acs e"
  "ex_aborted (log_effect x e) = ex_aborted e" "ex_srv (log_effect x e) = ex_srv e"
  "ex_inactivityMs (log_effect x e) = ex_inactivityMs e"
  "ex_runs (drop_ac i t r e) = ex_runs e" "ex_srv (drop_ac i t r e) = ex_srv e"
  "ex_aborted (drop_ac i t r e) = ex_aborted e" "ex_inactivityMs (drop_ac i t r e) = ex_inactivityMs e"
  "ex_srv (set_run rn e) = ex_srv e" "ex_acs (set_run rn e) = ex_acs e"
  "ex_aborted (set_run rn e) = ex_aborted e" "ex_inactivityMs (set_run rn e) = ex_inactivityMs e"
  "ex_runs (set_run rn e) = map_set (rn_ref rn) rn (ex_runs e)"
  by (simp_all add: on_srv_def log_effect_def drop_ac_def set_run_def)

lemma settle_frame [simp]:
  "ex_runs (snd (settleTerminal py st ev r t c e)) = ex_runs e"
  "ex_acs (snd (settleTerminal py st ev r t c e)) = ex_acs e"
  "ex_srv (snd (settleTerminal py st ev r t c e)) = ex_srv e"
  "ex_aborted (snd (settleTerminal py st ev r t c e)) = ex_aborted e"
  "ex_inactivityMs (snd (settleTerminal py st ev r t c e)) = ex_inactivityMs e"
  by (simp_all add: settleTerminal_def Let_def split: option.split settlement.split sum.split)

lemma arm_frame [simp]:
  "rn_ref (arm_watchdog rn e) = rn_ref rn" "rn_yields (arm_watchdog rn e) = rn_yields rn"
  "rn_phase (arm_watchdog rn e) = rn_phase rn" "rn_settlement (arm_watchdog rn e) = rn_settlement rn"
  "rn_authorized (arm_watchdog rn e) = rn_authorized rn" "rn_taskId (arm_watchdog rn e) = rn_taskId rn"
  "rn_contextId (arm_watchdog rn e) = rn_contextId rn" "rn_executionId (arm_watchdog rn e) = rn_executionId rn"
  "rn_agentId (arm_watchdog rn e) = rn_agentId rn" "rn_task (arm_watchdog rn e) = rn_task rn"
  "rn_accumulated (arm_watchdog rn e) = rn_accumulated rn"
  "rn_prior (arm_watchdog rn e) = rn_prior rn"
  by (simp_all add: arm_watchdog_def)

lemma yields_simps [simp]:
  "rn_yields (yields ev rn) = rn_yields rn @ [ev]" "rn_ref (yields ev rn) = rn_ref rn"
  "rn_phase (yields ev rn) = rn_phase rn" "rn_settlement (yields ev rn) = rn_settlement rn"
  "rn_authorized (yields ev rn) = rn_authorized rn" "rn_taskId (yields ev rn) = rn_taskId rn"
  "rn_watchdog (yields ev rn) = rn_watchdog rn" "rn_contextId (yields ev rn) = rn_contextId rn"
  "rn_task (yields ev rn) = rn_task rn"
  by (simp_all add: yields_def)

subsection \<open>One terminal event\<close>

definition terminal_event :: "event \<Rightarrow> bool" where
  "terminal_event ev = (case ev of ArtifactEvent _ \<Rightarrow> False | StatusEvent s \<Rightarrow> terminal_state (st_state (se_status s)))"

text \<open>A terminal event is the last thing a stream yields, and it stops the loop.\<close>

definition yields_ok :: "stream_run \<Rightarrow> bool" where
  "yields_ok rn \<longleftrightarrow>
     list_all (\<lambda>ev. \<not> terminal_event ev) (if rn_phase rn = Looping then rn_yields rn else butlast (rn_yields rn)) \<and>
     (rn_phase rn = Breaking \<longrightarrow> rn_yields rn \<noteq> [] \<and> terminal_event (last (rn_yields rn)) \<and>
        terminal_state (st_state (t_status (rn_task rn))))"

subsection \<open>No unpaid output\<close>

text \<open>The event has the text of a failure the payment gate made.\<close>

definition gate_made :: "stream_run \<Rightarrow> event \<Rightarrow> bool" where
  "gate_made rn ev \<longleftrightarrow>
     (\<exists>s m sdk now code reason rc m0. ev = StatusEvent s \<and> st_state (se_status s) = FAILED \<and>
        st_message (se_status s) = Some m \<and>
        st_message (se_status (gate_failed_event sdk now (rn_taskId rn) (rn_contextId rn) code reason rc)) = Some m0 \<and>
        m_parts m = m_parts m0 \<and> m_messageId m = m_messageId m0)"

definition paid_ok :: "stream_run \<Rightarrow> bool" where
  "paid_ok rn \<longleftrightarrow>
     (rn_settlement rn \<noteq> None \<and> \<not> rn_authorized rn \<longrightarrow>
        (\<forall>ev \<in> set (rn_yields rn). carries_output ev \<longrightarrow> gate_made rn ev))"

definition run_inv :: "stream_run \<Rightarrow> bool" where
  "run_inv rn \<longleftrightarrow> yields_ok rn \<and> paid_ok rn"

definition new_run :: "stream_run \<Rightarrow> bool" where
  "new_run rn \<longleftrightarrow> rn_yields rn = [] \<and> rn_phase rn = Looping"

lemma new_run_inv: "new_run rn \<Longrightarrow> run_inv rn"
  by (simp add: new_run_def run_inv_def yields_ok_def paid_ok_def)

lemma withOrigin_simps [simp]:
  "se_status (withOrigin x ev) = se_status ev" "se_final (withOrigin x ev) = se_final ev"
  "carries_output (StatusEvent (withOrigin x ev)) = carries_output (StatusEvent ev)"
  "terminal_event (StatusEvent (withOrigin x ev)) = terminal_event (StatusEvent ev)"
  "gate_made rn (StatusEvent (withOrigin x ev)) = gate_made rn (StatusEvent ev)"
  by (simp_all add: withOrigin_def carries_output_def terminal_event_def gate_made_def split: option.split)

lemma withReceipt_state [simp]: "st_state (se_status (withReceipt ev md t c)) = st_state (se_status ev)"
  by (simp add: withReceipt_def Let_def)

lemma settle_state:
  "terminal_state (st_state (se_status ev)) \<Longrightarrow>
   terminal_state (st_state (se_status (fst (settleTerminal py st ev r t c e))))"
  by (auto simp: settleTerminal_def Let_def terminal_state_def dest: settle_failure_fails
      split: option.split settlement.split sum.split)

lemma gate_made_failed:
  "gate_made rn (StatusEvent (gate_failed_event sdk now (rn_taskId rn) (rn_contextId rn) code reason rc))"
proof -
  obtain m0 where "st_message (se_status (gate_failed_event sdk now (rn_taskId rn) (rn_contextId rn) code reason rc)) = Some m0"
    by (simp add: gate_failed_event_def gate_status_event_def)
  then show ?thesis unfolding gate_made_def using gate_failed_state by blast
qed

lemma gate_made_receipt: "gate_made rn (StatusEvent ev) \<Longrightarrow> gate_made rn (StatusEvent (withReceipt ev md t c))"
  unfolding gate_made_def withReceipt_def Let_def by fastforce

lemma receipt_output: "carries_output (StatusEvent (withReceipt ev md t c)) = carries_output (StatusEvent ev)"
  by (simp add: carries_output_def withReceipt_def Let_def split: option.split)

text \<open>Settling adds no output but the message of a failed settlement.\<close>

lemma settle_output:
  assumes "carries_output (StatusEvent ev) \<longrightarrow> gate_made rn (StatusEvent ev)"
    and "carries_output (StatusEvent (fst (settleTerminal py st ev r (rn_taskId rn) (rn_contextId rn) e)))"
  shows "gate_made rn (StatusEvent (fst (settleTerminal py st ev r (rn_taskId rn) (rn_contextId rn) e)))"
  using assms
  by (auto simp: settleTerminal_def Let_def receipt_output gate_settle_def gate_made_failed gate_made_receipt
      split: option.splits settlement.splits sum.splits sdk_settle.splits if_splits)

text \<open>An operation on one run leaves the others alone and stores a run that is fine again.\<close>

definition stores :: "stream_run \<Rightarrow> exec \<Rightarrow> exec \<Rightarrow> bool" where
  "stores rn e e' \<longleftrightarrow>
     ex_runs e' = ex_runs e \<or>
     (\<exists>rn'. run_inv rn' \<and> rn_ref rn' = rn_ref rn \<and> ex_runs e' = map_set (rn_ref rn) rn' (ex_runs e))"

lemma storesI: "run_inv rn' \<Longrightarrow> rn_ref rn' = rn_ref rn \<Longrightarrow> ex_runs e' = map_set (rn_ref rn) rn' (ex_runs e) \<Longrightarrow> stores rn e e'"
  unfolding stores_def by blast

lemma stores_cong: "stores rn e e' \<Longrightarrow> ex_runs e = ex_runs d \<Longrightarrow> rn_ref rn = rn_ref rx \<Longrightarrow> stores rx d e'"
  by (simp add: stores_def)

lemma yields_ok_done:
  assumes "yields_ok rn" "rn_yields rn' = rn_yields rn" "rn_phase rn' = Done"
  shows "yields_ok rn'"
  using assms by (cases "rn_phase rn = Looping") (auto simp: yields_ok_def list_all_iff dest: in_set_butlastD)

lemma yields_ok_same:
  assumes "yields_ok rn" "rn_yields rn' = rn_yields rn" "rn_phase rn' = rn_phase rn"
    and "rn_phase rn = Breaking \<longrightarrow> terminal_state (st_state (t_status (rn_task rn')))"
  shows "yields_ok rn'"
  using assms unfolding yields_ok_def by presburger

lemma paid_ok_same:
  "rn_yields rn' = rn_yields rn \<Longrightarrow> rn_settlement rn' = rn_settlement rn \<Longrightarrow> rn_authorized rn' = rn_authorized rn \<Longrightarrow>
   rn_taskId rn' = rn_taskId rn \<Longrightarrow> rn_contextId rn' = rn_contextId rn \<Longrightarrow> paid_ok rn' = paid_ok rn"
  by (simp add: paid_ok_def gate_made_def)

lemma gate_made_cong:
  "rn_taskId rn' = rn_taskId rn \<Longrightarrow> rn_contextId rn' = rn_contextId rn \<Longrightarrow> gate_made rn' = gate_made rn"
  by (simp add: gate_made_def fun_eq_iff)

lemma close_stores:
  assumes "yields_ok rn" "paid_ok rn"
  shows "stores rn e (close_stream rn e)"
proof -
  let ?rn = "rn\<lparr>rn_watchdog := None, rn_phase := Done\<rparr>"
  have "yields_ok ?rn" by (rule yields_ok_done [OF assms(1)]) simp_all
  moreover have "paid_ok ?rn" using assms(2) by (subst paid_ok_same [of _ rn]) simp_all
  ultimately show ?thesis
    unfolding close_stream_def by (intro storesI [of ?rn]) (simp_all add: run_inv_def)
qed

lemma finish_stores:
  assumes "run_inv rn"
  shows "stores rn e (finish_stream rn e)"
proof -
  define t where "t = (rn_task rn)\<lparr>t_status :=
      (if \<not> terminal_state (st_state (t_status (rn_task rn))) \<and> ex_aborted e (rn_ref rn)
       then \<lparr>st_state = CANCELED, st_timestamp = Some (Iso (clock (ex_srv e))), st_message = None\<rparr>
       else t_status (rn_task rn))\<rparr>"
  have "rn_phase rn = Breaking \<Longrightarrow> terminal_state (st_state (t_status t))"
    using assms unfolding t_def run_inv_def yields_ok_def by simp
  then have y: "yields_ok (rn\<lparr>rn_task := t\<rparr>)"
    using assms unfolding run_inv_def by - (rule yields_ok_same [of rn], simp_all)
  have p: "paid_ok (rn\<lparr>rn_task := t\<rparr>)"
    using assms paid_ok_same [of "rn\<lparr>rn_task := t\<rparr>" rn] unfolding run_inv_def by simp
  show ?thesis
    unfolding finish_stream_def Let_def t_def [symmetric]
    by (rule stores_cong [OF close_stores [OF y p]]) simp_all
qed

text \<open>What may be yielded next.\<close>

definition may_yield :: "event \<Rightarrow> stream_run \<Rightarrow> bool" where
  "may_yield ev rn \<longleftrightarrow> rn_settlement rn \<noteq> None \<and> \<not> rn_authorized rn \<and> carries_output ev \<longrightarrow> gate_made rn ev"

text \<open>The run after one more event.\<close>

definition extends :: "stream_run \<Rightarrow> event \<Rightarrow> stream_run \<Rightarrow> bool" where
  "extends rn ev rn' \<longleftrightarrow>
     rn_yields rn' = rn_yields rn @ [ev] \<and> rn_settlement rn' = rn_settlement rn \<and>
     rn_authorized rn' = rn_authorized rn \<and> rn_taskId rn' = rn_taskId rn \<and> rn_contextId rn' = rn_contextId rn"

lemma paid_ok_yield: "paid_ok rn \<Longrightarrow> may_yield ev rn \<Longrightarrow> extends rn ev rn' \<Longrightarrow> paid_ok rn'"
  using gate_made_cong [of rn' rn] unfolding paid_ok_def may_yield_def extends_def by auto

lemma run_inv_more:
  assumes "run_inv rn" "rn_phase rn = Looping" "may_yield ev rn" "\<not> terminal_event ev"
    and "extends rn ev rn'" "rn_phase rn' = Looping"
  shows "run_inv rn'"
  unfolding run_inv_def
proof
  show "paid_ok rn'" using assms(1) paid_ok_yield [OF _ assms(3,5)] unfolding run_inv_def by blast
  show "yields_ok rn'" using assms unfolding run_inv_def yields_ok_def extends_def by simp
qed

lemma run_inv_last:
  assumes "run_inv rn" "rn_phase rn = Looping" "may_yield ev rn" "terminal_event ev"
    and "extends rn ev rn'" "rn_phase rn' = Breaking" "terminal_state (st_state (t_status (rn_task rn')))"
  shows "run_inv rn'"
  unfolding run_inv_def
proof
  show "paid_ok rn'" using assms(1) paid_ok_yield [OF _ assms(3,5)] unfolding run_inv_def by blast
  show "yields_ok rn'" using assms unfolding run_inv_def yields_ok_def extends_def by simp
qed

lemma artifact_stores:
  assumes "run_inv rn" "rn_phase rn = Looping" "may_yield (ArtifactEvent a) rn"
  shows "stores rn e (on_artifact a rn e)"
  unfolding on_artifact_def Let_def
  by (rule storesI, rule run_inv_more [OF assms])
    (simp_all add: terminal_event_def extends_def assms(2))

lemma settled_may_yield:
  assumes "may_yield (StatusEvent s) rn"
    and "settleTerminal py (rn_settlement rn) s r (rn_taskId rn) (rn_contextId rn) e = (shown, e1)"
  shows "may_yield (StatusEvent (withOrigin x shown)) rn"
proof (cases "rn_settlement rn \<noteq> None \<and> \<not> rn_authorized rn")
  case True
  then have "carries_output (StatusEvent s) \<longrightarrow> gate_made rn (StatusEvent s)" using assms(1) by (simp add: may_yield_def)
  from settle_output [OF this] have "carries_output (StatusEvent shown) \<longrightarrow> gate_made rn (StatusEvent shown)"
    using assms(2) by (metis fst_conv)
  then show ?thesis by (simp add: may_yield_def)
qed (auto simp: may_yield_def)

lemma terminal_stores:
  assumes "run_inv rn" "rn_phase rn = Looping" "may_yield (StatusEvent s) rn" "terminal_state (st_state (se_status s))"
  shows "stores rn e (on_terminal an s rn e)"
proof -
  obtain shown e1 where st: "settleTerminal (an_pay an) (rn_settlement rn) s (rn_ref rn) (rn_taskId rn) (rn_contextId rn) e = (shown, e1)"
    by fastforce
  have tm: "terminal_state (st_state (se_status shown))" using settle_state [OF assms(4)] st by (metis fst_conv)
  have e1: "ex_runs e1 = ex_runs e" using st settle_frame(1) by (metis snd_conv)
  show ?thesis
    unfolding on_terminal_def st Let_def prod.case
    by (rule storesI, rule run_inv_last [OF assms(1,2) settled_may_yield [OF assms(3) st, of "rn_executionId rn"]])
      (simp_all add: terminal_event_def extends_def tm e1)
qed

lemma progress_stores:
  assumes "run_inv rn" "rn_phase rn = Looping" "may_yield (StatusEvent s) rn" "\<not> terminal_state (st_state (se_status s))"
  shows "stores rn e (on_progress an s rn e)"
proof -
  define rn1 where "rn1 = rn\<lparr>rn_history := appendHistoryMessage (rn_history rn) (st_message (se_status s)),
    rn_task := (rn_task rn)\<lparr>t_history := Some (appendHistoryMessage (rn_history rn) (st_message (se_status s))),
      t_status := se_status s\<rparr>\<rparr>"
  have f: "rn_ref rn1 = rn_ref rn" "rn_phase rn1 = Looping" "rn_yields rn1 = rn_yields rn" by (simp_all add: rn1_def assms(2))
  have y: "yields_ok rn1"
    by (rule yields_ok_same [of rn]) (use assms(1,2) f in \<open>simp_all add: run_inv_def\<close>)
  have p: "paid_ok rn1" using assms(1) by (subst paid_ok_same [of _ rn]) (simp_all add: rn1_def run_inv_def)
  have c: "stores rn e (close_stream rn1 e)" using close_stores [OF y p] stores_cong f(1) by blast
  define shown where "shown = yields (StatusEvent (withOrigin (rn_executionId rn) s)) rn1"
  have "may_yield (StatusEvent (withOrigin (rn_executionId rn) s)) rn" using assms(3) by (simp add: may_yield_def)
  then have i: "run_inv shown"
    by (rule run_inv_more [OF assms(1,2)]) (use assms(4) in \<open>simp_all add: shown_def extends_def rn1_def terminal_event_def assms(2)\<close>)
  have r: "rn_ref shown = rn_ref rn" by (simp add: shown_def f)
  have "stores rn e (set_run shown e)" "stores rn e (set_run shown (log_effect x e))" for x
    by (rule storesI [OF i r], simp add: r)+
  then show ?thesis
    unfolding on_progress_def Let_def rn1_def [symmetric] shown_def [symmetric] using c by simp
qed

lemma authorize_cases:
  assumes "authorize an rn ev0 e0 = (ev, rn1, e)" "run_inv rn" "rn_phase rn = Looping"
  shows "run_inv rn1 \<and> rn_phase rn1 = Looping \<and> rn_ref rn1 = rn_ref rn \<and> ex_runs e = ex_runs e0 \<and> may_yield ev rn1"
proof (cases "rn_settlement rn \<noteq> None \<and> \<not> rn_authorized rn \<and> carries_output ev0")
  case False
  then show ?thesis using assms by (auto simp: authorize_def may_yield_def)
next
  case True
  show ?thesis
  proof (cases "py_delivery (an_pay an)")
    case DeliveryAuthorized
    then have "rn1 = rn\<lparr>rn_authorized := True\<rparr>" "e = log_effect (GateAuthorize (rn_taskId rn)) e0"
      using assms(1) True by (simp_all add: authorize_def authorizeDelivery_def Let_def)
    then show ?thesis using assms(2,3) by (simp add: run_inv_def yields_ok_def paid_ok_def may_yield_def)
  next
    case DeliveryRefused
    then have "rn1 = rn" "ex_runs e = ex_runs e0"
      "ev = StatusEvent (gate_failed_event (py_sdk (an_pay an)) (clock (ex_srv e0)) (rn_taskId rn) (rn_contextId rn)
         ''SETTLEMENT_FAILED'' ''Payment authorization is no longer available for delivery.'' None)"
      using assms(1) True by (auto simp: authorize_def authorizeDelivery_def Let_def)
    then show ?thesis using assms(2,3) by (simp add: may_yield_def gate_made_failed)
  qed
qed

lemma run_inv_fields [simp]:
  "run_inv (rn\<lparr>rn_watchdog := w\<rparr>) = run_inv rn" "run_inv (rn\<lparr>rn_sawFinal := b\<rparr>) = run_inv rn"
  by (simp_all add: run_inv_def yields_ok_def paid_ok_def gate_made_def)

lemma may_yield_fields [simp]: "may_yield ev (rn\<lparr>rn_sawFinal := b\<rparr>) = may_yield ev rn"
  by (simp add: may_yield_def gate_made_def)

lemma run_inv_arm [simp]: "run_inv (arm_watchdog rn e) = run_inv rn"
  by (simp add: arm_watchdog_def)

lemma event_stores:
  assumes "run_inv rn0" "rn_phase rn0 = Looping"
  shows "stores rn0 e0 (on_event an ev0 rn0 e0)"
proof -
  obtain ev rn e where a: "authorize an (arm_watchdog rn0 e0) ev0 e0 = (ev, rn, e)" by (metis prod_cases3)
  from authorize_cases [OF this] assms
  have i: "run_inv rn" "rn_phase rn = Looping" "rn_ref rn = rn_ref rn0" "ex_runs e = ex_runs e0" "may_yield ev rn" by simp_all
  show ?thesis
  proof (cases ev)
    case (ArtifactEvent x)
    then show ?thesis
      using artifact_stores [OF i(1,2), of x e] i(3-5) stores_cong unfolding on_event_def a by fastforce
  next
    case (StatusEvent s)
    let ?rn = "rn\<lparr>rn_sawFinal := rn_sawFinal rn \<or> se_final s\<rparr>"
    have j: "run_inv ?rn" "rn_phase ?rn = Looping" "may_yield (StatusEvent s) ?rn" using i StatusEvent by simp_all
    have "stores ?rn e (if terminal_state (st_state (se_status s)) then on_terminal an s ?rn e else on_progress an s ?rn e)"
      using terminal_stores [OF j] progress_stores [OF j] by simp
    from stores_cong [OF this, of e0 rn0] i(3,4) StatusEvent show ?thesis by (simp add: on_event_def a Let_def)
  qed
qed

lemma resume_stores:
  assumes "run_inv rn"
  shows "stores rn e (resume an rn e)"
proof (cases "rn_phase rn")
  case Looping
  obtain res q where n: "q_next (ex_aborted e (rn_ref rn)) (queues (ex_srv e) (rn_ref rn)) = (res, q)" by fastforce
  define e1 where "e1 = on_srv (upd_queue (rn_ref rn) (\<lambda>_. q)) e"
  have r: "ex_runs e1 = ex_runs e" by (simp add: e1_def)
  have c: "stores rn e1 (close_stream rn e1)" using assms close_stores unfolding run_inv_def by blast
  have "stores rn e1 (case res of IYield ev \<Rightarrow> on_event an ev rn e1 | IDone \<Rightarrow> finish_stream rn e1
      | IThrow _ \<Rightarrow> close_stream rn e1 | IParked \<Rightarrow> e1)"
    using event_stores [OF assms Looping] finish_stores [OF assms] c by (cases res) (simp_all add: stores_def [of rn e1 e1])
  from stores_cong [OF this r refl] show ?thesis
    unfolding resume_def n Let_def prod.case e1_def [symmetric] using Looping by simp
next
  case Breaking
  then show ?thesis using finish_stores [OF assms] by (simp add: resume_def)
next
  case Done
  then show ?thesis by (simp add: resume_def stores_def)
qed

lemma abandon_stores: "run_inv rn \<Longrightarrow> stores rn e (abandon rn e)"
  using close_stores by (simp add: abandon_def run_inv_def stores_def [of rn e e])

lemma watchdog_stores:
  assumes "run_inv rn"
  shows "stores rn e (watchdog_fires rn e)"
proof (cases "waiting (objs (ex_srv e) (rn_ref rn)) (ex_srv e) = None")
  case True
  then show ?thesis
    using assms by (intro storesI [of "rn\<lparr>rn_watchdog := None\<rparr>"]) (simp_all add: watchdog_fires_def)
next
  case False
  then show ?thesis
    using assms by (intro storesI [of "arm_watchdog rn e"]) (auto simp: watchdog_fires_def)
qed

subsection \<open>Every reachable state\<close>

lemma ended_fields [simp]: "snd (ended x) = snd (snd x)" "fst (ended x) = Ended (fst x) (fst (snd x))"
  by (simp_all add: ended_def)

lemma turn_frame [simp]:
  "ex_runs (snd (snd (interrupted_turn py p t e))) = ex_runs e"
  "ex_runs (snd (snd (rejected_turn py ow p e))) = ex_runs e"
  "ex_runs (snd (snd (unreachable_turn py p e))) = ex_runs e"
  by (simp_all add: interrupted_turn_def rejected_turn_def unreachable_turn_def Let_def split_beta)

lemma mark_frame [simp]:
  "ex_runs (snd (mark_execution st m p e)) = ex_runs e" "ex_srv (snd (mark_execution st m p e)) = ex_srv e"
  "ex_acs (snd (mark_execution st m p e)) = ex_acs e"
  "ex_inactivityMs (snd (mark_execution st m p e)) = ex_inactivityMs e"
  by (simp_all add: mark_execution_def)

lemma dispatch_frame:
  assumes "dispatch p e = (res, p1, e1)"
  shows "ex_runs e1 = ex_runs e" "rn_ref (pn_run p1) = rn_ref (pn_run p)" "new_run (pn_run p) \<Longrightarrow> new_run (pn_run p1)"
  using assms by (auto simp: dispatch_def Let_def new_run_def split: if_splits sum.splits prod.splits)

text \<open>A dispatch ends its turn or starts a fresh run.\<close>

lemma dispatch_turn_runs:
  assumes "dispatch_turn py st m p e = (res, e')" and "new_run (pn_run p)"
  shows "ex_runs e' = ex_runs e \<or> (\<exists>rn. new_run rn \<and> rn_ref rn = rn_ref (pn_run p) \<and> ex_runs e' = map_set (rn_ref rn) rn (ex_runs e))"
proof (cases "dispatch_guard st p e = MayDispatch \<and> fst (mark_execution st m p e)")
  case False
  then show ?thesis using assms(1) by (auto simp: dispatch_turn_def ended_def split: guard.splits)
next
  case True
  obtain d p1 e1 where d: "dispatch p (snd (mark_execution st m p e)) = (d, p1, e1)" by (metis prod_cases3)
  note f = dispatch_frame [OF d]
  show ?thesis
  proof (cases "d = Sent True")
    case True
    then have "e' = set_run (arm_watchdog (pn_run p1) e1) e1"
      using assms(1) \<open>_ \<and> _\<close> d by (simp add: dispatch_turn_def)
    then show ?thesis using f assms(2) by (intro disjI2 exI [of _ "arm_watchdog (pn_run p1) e1"]) (simp add: new_run_def)
  next
    case False
    then have "ex_runs e' = ex_runs e1"
      using assms(1) True d by (auto simp: dispatch_turn_def ended_def split: dispatched.splits)
    then show ?thesis using f(1) by simp
  qed
qed

definition exec_inv :: "exec \<times> pending list \<Rightarrow> bool" where
  "exec_inv x \<longleftrightarrow>
     (\<forall>r rn. map_of (ex_runs (fst x)) r = Some rn \<longrightarrow> run_inv rn \<and> rn_ref rn = r) \<and>
     (\<forall>p \<in> set (snd x). new_run (pn_run p))"

lemma exec_inv_run: "exec_inv (e, ps) \<Longrightarrow> map_of (ex_runs e) r = Some rn \<Longrightarrow> run_inv rn"
  by (simp add: exec_inv_def)

lemma exec_inv_stores:
  "exec_inv (e, ps) \<Longrightarrow> map_of (ex_runs e) r = Some rn \<Longrightarrow> stores rn e e' \<Longrightarrow> exec_inv (e', ps)"
  by (auto simp: exec_inv_def stores_def split: if_splits)

lemma cancel_runs: "cancelCurrent i t l e = Inr (t', e') \<Longrightarrow> ex_runs e' = ex_runs e"
  by (auto simp: cancelCurrent_def Let_def abort_ac_def split: if_splits option.splits)

lemma exec_step_inv: "exec_step x y \<Longrightarrow> exec_inv x \<Longrightarrow> exec_inv y"
proof (induction rule: exec_step.induct)
  case (Prepare sha256 uuid st tn e p e' ps)
  then have "ex_runs e' = ex_runs e" "new_run (pn_run p)" by (auto simp: prepare_def Let_def new_run_def)
  then show ?case using Prepare by (simp add: exec_inv_def)
next
  case (Dispatch p ps py sto m e res e')
  then have "new_run (pn_run p)" by (simp add: exec_inv_def)
  from dispatch_turn_runs [OF Dispatch(2) this] show ?case
    using Dispatch(3) new_run_inv by (auto simp: exec_inv_def dest: notin_set_remove1 split: if_splits)
next
  case (Resume e r rn ps an)
  then show ?case using exec_inv_stores resume_stores exec_inv_run by blast
next
  case (Abandon e r rn ps)
  then show ?case using exec_inv_stores abandon_stores exec_inv_run by blast
next
  case (Watchdog e r rn due ps)
  then show ?case using exec_inv_stores watchdog_stores exec_inv_run by blast
next
  case (Cancel agentId t latest e t' e' ps)
  then show ?case by (simp add: exec_inv_def cancel_runs)
qed (simp add: exec_inv_def)

interpretation executor: invariant_system exec_init exec_step exec_inv
proof
  show "exec_inv x" if "exec_init x" for x using that by (simp add: exec_init_def exec_inv_def)
  show "exec_inv y" if "exec_inv x" "exec_step x y" for x y using exec_step_inv that by blast
qed

lemma butlast_nth_le: "Suc i < length xs \<Longrightarrow> xs ! i \<in> set (butlast xs)"
  by (metis Suc_lessE diff_Suc_1 in_set_conv_nth length_butlast less_Suc_eq_le less_or_eq_imp_le nth_butlast Suc_less_SucD not_less_eq)

text \<open>Claim C5. In every reachable state, whatever the agent, the payment gate, the timers, cancellations and
  abandoned requests do in between: a stream has shown at most one terminal event, nothing follows
  it, and while the stream still runs it has shown none.\<close>

theorem one_terminal_event:
  assumes "exec_init x" and "exec_step\<^sup>*\<^sup>* x (e, ps)" and "map_of (ex_runs e) r = Some rn"
  shows "(\<forall>i j. i < j \<and> j < length (rn_yields rn) \<longrightarrow> \<not> terminal_event (rn_yields rn ! i)) \<and>
    (rn_phase rn = Looping \<longrightarrow> (\<forall>ev \<in> set (rn_yields rn). \<not> terminal_event ev))"
proof -
  have "exec_inv (e, ps)" using executor.reachable_inv assms(1,2) .
  then have y: "yields_ok rn" using assms(3) by (simp add: exec_inv_def run_inv_def)
  then have "ev \<in> set (butlast (rn_yields rn)) \<Longrightarrow> \<not> terminal_event ev" for ev
    by (auto simp: yields_ok_def list_all_iff split: if_splits dest: in_set_butlastD)
  then have "\<not> terminal_event (rn_yields rn ! i)" if "i < j" "j < length (rn_yields rn)" for i j
    using butlast_nth_le [of i "rn_yields rn"] that by simp
  then show ?thesis using y by (auto simp: yields_ok_def list_all_iff)
qed


end
