(* ===== verification/ExecutorEnds.thy ===== *)
theory ExecutorEnds
  imports ExecutorFacts WsInv
begin

text \<open>
  How the streams and dispatches of the executor end: the inactivity timer that is always armed, the
  number of reads after which a closed stream is over, cancellation with a parked and with a busy
  consumer, and what a dispatch that ends its turn leaves in the registry.
\<close>

subsection \<open>The inactivity timer\<close>

definition stream_closed :: "stream_run \<Rightarrow> exec \<Rightarrow> bool" where
  "stream_closed rn e \<longleftrightarrow> \<not> q_open (queues (ex_srv e) (rn_ref rn))"

definition armed :: "exec \<Rightarrow> stream_run \<Rightarrow> bool" where
  "armed e rn \<longleftrightarrow>
     (rn_phase rn = Looping \<and> ex_inactivityMs e > 0 \<longrightarrow> rn_watchdog rn \<noteq> None \<or> stream_closed rn e)"

definition watch_inv :: "exec \<times> pending list \<Rightarrow> bool" where
  "watch_inv x \<longleftrightarrow>
     (\<forall>r rn. map_of (ex_runs (fst x)) r = Some rn \<longrightarrow>
        rn_ref rn = r \<and> r < next_ref (ex_srv (fst x)) \<and> armed (fst x) rn) \<and>
     (\<forall>p \<in> set (snd x). rn_ref (pn_run p) < next_ref (ex_srv (fst x)))"

text \<open>Later states: closed queues stay closed, references are never reused.\<close>

definition later :: "exec \<Rightarrow> exec \<Rightarrow> bool" where
  "later e e' \<longleftrightarrow>
     (\<forall>r < next_ref (ex_srv e). \<not> q_open (queues (ex_srv e) r) \<longrightarrow> \<not> q_open (queues (ex_srv e') r)) \<and>
     next_ref (ex_srv e) \<le> next_ref (ex_srv e') \<and> ex_inactivityMs e' = ex_inactivityMs e"

lemma later_refl [simp]: "later e e"
  by (simp add: later_def)

lemma later_trans [trans]: "later e f \<Longrightarrow> later f g \<Longrightarrow> later e g"
  unfolding later_def by fastforce

lemma armed_later: "armed e rn \<Longrightarrow> rn_ref rn < next_ref (ex_srv e) \<Longrightarrow> later e e' \<Longrightarrow> armed e' rn"
  by (auto simp: armed_def later_def stream_closed_def)

lemma laterI:
  "closes (ex_srv e) (ex_srv e') \<Longrightarrow> next_ref (ex_srv e') = next_ref (ex_srv e) \<Longrightarrow> ex_inactivityMs e' = ex_inactivityMs e \<Longrightarrow>
   later e e'"
  by (simp add: later_def closes_def)

lemma later_queues:
  "queues (ex_srv e') = queues (ex_srv e) \<Longrightarrow> next_ref (ex_srv e') = next_ref (ex_srv e) \<Longrightarrow>
   ex_inactivityMs e' = ex_inactivityMs e \<Longrightarrow> later e e'"
  by (simp add: later_def)

lemma unbind_next_ref [simp]: "next_ref (unbindTask t r s) = next_ref s"
  and unbind_queues [simp]: "queues (unbindTask t r s) = queues s"
  by (simp_all add: unbindTask_def Let_def drop_binding_def)

lemma later_upd_queue:
  assumes "\<And>q. \<not> q_open q \<Longrightarrow> \<not> q_open (f q)"
  shows "later e (on_srv (upd_queue r f) e)"
  using assms by (simp add: later_def upd_queue_def)

lemma later_simps [simp]:
  "later e (log_effect x e)" "later e (set_run rn e)" "later e (drop_ac i t r e)"
  "later e (on_srv (unbindTask t r) e)" "later e (on_srv (send_agent i f) e)"
  "later e (snd (settleTerminal py st ev r t c e))" "later e (snd (mark_execution so m p e))"
  by (rule later_queues; simp)+

lemma later_end [simp]:
  "later e (on_srv (finish_sink r) e)" "later e (on_srv (\<lambda>s. finish_sink r (pushStatus r (ev s) s)) e)"
  by (simp_all add: later_def finish_sink_def pushStatus_def upd_queue_def)

lemma later_close [simp]: "later e (close_stream rn e)"
  unfolding close_stream_def
  by (rule later_trans [OF later_simps(4) later_trans [OF later_simps(3) later_simps(2)]])

lemma later_finish [simp]: "later e (finish_stream rn e)"
  unfolding finish_stream_def Let_def by (rule later_trans [OF later_simps(1) later_close])

lemma later_authorize: "authorize an rn ev0 e0 = (ev, rn1, e) \<Longrightarrow> later e0 e"
  using later_trans [OF later_simps(1) later_simps(5)]
  by (auto simp: authorize_def Let_def split: if_splits option.splits)

lemma later_on_artifact [simp]: "later e (on_artifact a rn e)"
  by (simp add: on_artifact_def Let_def)

lemma later_on_terminal [simp]: "later e (on_terminal an ev rn e)"
  unfolding on_terminal_def Let_def split_beta by (rule later_trans [OF later_simps(6) later_simps(2)])

lemma later_on_progress [simp]: "later e (on_progress an ev rn e)"
proof -
  have "later e (set_run x (log_effect y e))" for x y by (rule later_trans [OF later_simps(1) later_simps(2)])
  then show ?thesis unfolding on_progress_def Let_def by simp
qed

lemma later_on_event [simp]: "later e0 (on_event an ev0 rn0 e0)"
proof -
  obtain ev rn e where a: "authorize an (arm_watchdog rn0 e0) ev0 e0 = (ev, rn, e)" by (metis prod_cases3)
  show ?thesis unfolding on_event_def a Let_def
    by (rule later_trans [OF later_authorize [OF a]]) (simp split: event.split)
qed

lemma later_resume [simp]: "later e (resume an rn e)"
proof -
  obtain res q where n: "q_next (ex_aborted e (rn_ref rn)) (queues (ex_srv e) (rn_ref rn)) = (res, q)" by fastforce
  have "\<not> q_open (queues (ex_srv e) (rn_ref rn)) \<Longrightarrow> \<not> q_open q"
    using q_next_open [of "ex_aborted e (rn_ref rn)" "queues (ex_srv e) (rn_ref rn)"] n by simp
  then have "later e (on_srv (upd_queue (rn_ref rn) (\<lambda>_. q)) e)" by (simp add: later_def upd_queue_def)
  then show ?thesis unfolding resume_def n Let_def
    by (auto split: phase.split iter_result.split intro: later_trans)
qed

lemma later_abandon [simp]: "later e (abandon rn e)"
  by (simp add: abandon_def)

lemma later_watchdog [simp]: "later e (watchdog_fires rn e)"
  unfolding watchdog_fires_def by (auto intro: later_trans [OF later_end(2) later_simps(2)])

lemma bind_next_ref [simp]: "next_ref (snd (bindTask r s)) = next_ref s"
  by (simp add: bindTask_def Let_def split: option.split)

lemma bind_closed: "\<not> q_open (queues s q) \<Longrightarrow> \<not> q_open (queues (snd (bindTask r s)) q)"
  by (simp add: bindTask_def Let_def failBinding_def finish_sink_def pushStatus_def upd_queue_def split: option.split)

lemma later_dispatch:
  assumes "dispatch p e = (res, p1, e1)"
  shows "later e e1"
proof (cases "fst (bindTask (rn_ref (pn_run p)) (ex_srv e))")
  case False
  then show ?thesis using assms by (simp add: dispatch_def Let_def)
next
  case True
  then have "queues (ex_srv e1) = queues (snd (bindTask (rn_ref (pn_run p)) (ex_srv e)))"
    "next_ref (ex_srv e1) = next_ref (ex_srv e)" "ex_inactivityMs e1 = ex_inactivityMs e"
    using assms by (auto simp: dispatch_def Let_def split_beta split: sum.splits)
  then show ?thesis using bind_closed by (simp add: later_def)
qed

lemma later_turns [simp]:
  "later e (snd (snd (interrupted_turn py p t e)))" "later e (snd (snd (rejected_turn py ow p e)))"
  "later e (snd (snd (unreachable_turn py p e)))"
proof -
  show "later e (snd (snd (interrupted_turn py p t e)))"
    unfolding interrupted_turn_def Let_def split_beta snd_conv by (rule later_trans [OF later_end(1) later_simps(6)])
  show "later e (snd (snd (rejected_turn py ow p e)))"
    unfolding rejected_turn_def Let_def split_beta snd_conv
    by (rule later_trans [OF later_trans [OF later_end(1) later_simps(6)] later_simps(1)])
  show "later e (snd (snd (unreachable_turn py p e)))"
    unfolding unreachable_turn_def Let_def split_beta snd_conv
    by (rule later_trans [OF later_trans [OF later_trans [OF later_simps(6) later_simps(4)] later_simps(3)] later_simps(1)])
qed

lemma later_abort [simp]: "later e (abort_ac r e)"
  by (simp add: abort_ac_def later_def upd_queue_def)

text \<open>One step of the loop winds the timer up again, or leaves the loop.\<close>

definition wound :: "stream_run \<Rightarrow> exec \<Rightarrow> exec \<Rightarrow> bool" where
  "wound rn e e' \<longleftrightarrow>
     (\<exists>rn'. rn_ref rn' = rn_ref rn \<and> (rn_phase rn' = Looping \<longrightarrow> rn_watchdog rn' \<noteq> None) \<and>
        ex_runs e' = map_set (rn_ref rn) rn' (ex_runs e))"

lemma woundI:
  "rn_ref rn' = rn_ref rn \<Longrightarrow> rn_phase rn' \<noteq> Looping \<or> rn_watchdog rn' \<noteq> None \<Longrightarrow>
   ex_runs e' = map_set (rn_ref rn) rn' (ex_runs e) \<Longrightarrow> wound rn e e'"
  unfolding wound_def by blast

lemma wound_cong: "wound rn e e' \<Longrightarrow> ex_runs e = ex_runs d \<Longrightarrow> rn_ref rn = rn_ref rx \<Longrightarrow> wound rx d e'"
  by (simp add: wound_def)

lemma close_wound: "wound rn e (close_stream rn e)"
  unfolding close_stream_def by (rule woundI [of "rn\<lparr>rn_watchdog := None, rn_phase := Done\<rparr>"]) simp_all

lemma finish_wound: "wound rn e (finish_stream rn e)"
  unfolding finish_stream_def Let_def by (rule wound_cong [OF close_wound]) simp_all

lemma event_wound:
  assumes "ex_inactivityMs e0 > 0"
  shows "wound rn0 e0 (on_event an ev0 rn0 e0)"
proof -
  obtain ev rn e where a: "authorize an (arm_watchdog rn0 e0) ev0 e0 = (ev, rn, e)" by (metis prod_cases3)
  have w: "rn_watchdog (arm_watchdog rn0 e0) \<noteq> None" using assms by (simp add: arm_watchdog_def)
  have r: "rn_ref rn = rn_ref rn0" "rn_watchdog rn \<noteq> None" "ex_runs e = ex_runs e0"
    using a w by (auto simp: authorize_def Let_def split: if_splits option.splits)
  have art: "wound rn e (on_artifact x rn e)" for x
    unfolding on_artifact_def Let_def by (rule woundI) (use r in \<open>simp_all add: yields_def\<close>)
  have trm: "wound rn' e (on_terminal an s rn' e)" for s rn'
    unfolding on_terminal_def Let_def split_beta by (rule woundI) simp_all
  have prog: "wound rn' e (on_progress an s rn' e)" if "rn_watchdog rn' \<noteq> None" for s rn'
  proof -
    define r1 where "r1 = rn'\<lparr>rn_history := appendHistoryMessage (rn_history rn') (st_message (se_status s)),
      rn_task := (rn_task rn')\<lparr>t_history := Some (appendHistoryMessage (rn_history rn') (st_message (se_status s))),
        t_status := se_status s\<rparr>\<rparr>"
    have f: "rn_ref r1 = rn_ref rn'" "rn_watchdog r1 \<noteq> None" using that by (simp_all add: r1_def)
    have "wound rn' e (close_stream r1 e)" using wound_cong [OF close_wound refl] f(1) by blast
    moreover have "wound rn' e (set_run (yields x r1) e)" "wound rn' e (set_run (yields x r1) (log_effect y e))" for x y
      by (rule woundI [of "yields x r1"], use f in simp_all)+
    ultimately show ?thesis unfolding on_progress_def Let_def r1_def [symmetric] by simp
  qed
  show ?thesis
  proof (cases ev)
    case (ArtifactEvent x)
    then show ?thesis using wound_cong [OF art r(3,1)] by (simp add: on_event_def a)
  next
    case (StatusEvent s)
    let ?rn = "rn\<lparr>rn_sawFinal := rn_sawFinal rn \<or> se_final s\<rparr>"
    have "wound ?rn e (if terminal_state (st_state (se_status s)) then on_terminal an s ?rn e else on_progress an s ?rn e)"
      using trm prog r(2) by simp
    from wound_cong [OF this, of e0 rn0] r StatusEvent show ?thesis by (simp add: on_event_def a Let_def)
  qed
qed

text \<open>The only resumption that stores nothing finds the consumer parked or done.\<close>

lemma resume_wound:
  assumes "ex_inactivityMs e > 0"
  shows "ex_runs (resume an rn e) = ex_runs e \<or> wound rn e (resume an rn e)"
proof (cases "rn_phase rn")
  case Looping
  obtain res q where n: "q_next (ex_aborted e (rn_ref rn)) (queues (ex_srv e) (rn_ref rn)) = (res, q)" by fastforce
  define e1 where "e1 = on_srv (upd_queue (rn_ref rn) (\<lambda>_. q)) e"
  have r: "ex_runs e1 = ex_runs e" "ex_inactivityMs e1 > 0" using assms by (simp_all add: e1_def)
  have "wound rn e (on_event an ev rn e1)" "wound rn e (finish_stream rn e1)" "wound rn e (close_stream rn e1)" for ev
    using wound_cong [OF event_wound [OF r(2)] r(1) refl] wound_cong [OF finish_wound r(1) refl]
      wound_cong [OF close_wound r(1) refl] by blast+
  then show ?thesis
    unfolding resume_def n Let_def prod.case e1_def [symmetric] using Looping r(1) by (cases res) simp_all
qed (use finish_wound in \<open>simp_all add: resume_def\<close>)

lemma watch_inv_keep:
  assumes "watch_inv (e, ps)" "later e e'"
    and "\<And>r rn. map_of (ex_runs e') r = Some rn \<Longrightarrow>
      map_of (ex_runs e) r = Some rn \<or> rn_ref rn = r \<and> r < next_ref (ex_srv e') \<and> armed e' rn"
    and "\<And>p. p \<in> set qs \<Longrightarrow> p \<in> set ps \<or> rn_ref (pn_run p) < next_ref (ex_srv e')"
  shows "watch_inv (e', qs)"
proof -
  have le: "next_ref (ex_srv e) \<le> next_ref (ex_srv e')" using assms(2) by (simp add: later_def)
  have "rn_ref rn = r \<and> r < next_ref (ex_srv e') \<and> armed e' rn" if m: "map_of (ex_runs e') r = Some rn" for r rn
  proof (cases "map_of (ex_runs e) r = Some rn")
    case True
    then have "rn_ref rn = r" "r < next_ref (ex_srv e)" "armed e rn" using assms(1) by (simp_all add: watch_inv_def)
    then show ?thesis using le armed_later [OF _ _ assms(2), of rn] by simp
  next
    case False
    then show ?thesis using assms(3) [OF m] by blast
  qed
  moreover have "rn_ref (pn_run p) < next_ref (ex_srv e')" if "p \<in> set qs" for p
    using assms(1) assms(4) [OF that] le by (auto simp: watch_inv_def intro: order.strict_trans2)
  ultimately show ?thesis by (simp add: watch_inv_def)
qed

lemma watch_inv_stores:
  assumes "watch_inv (e, ps)" "map_of (ex_runs e) r = Some rn" "later e e'"
    and "ex_runs e' = ex_runs e \<or> (\<exists>rn'. rn_ref rn' = r \<and> armed e' rn' \<and> ex_runs e' = map_set r rn' (ex_runs e))"
  shows "watch_inv (e', ps)"
proof (rule watch_inv_keep [OF assms(1,3)])
  have "r < next_ref (ex_srv e')"
    using assms(1-3) by (auto simp: watch_inv_def later_def intro: order.strict_trans2)
  then show "map_of (ex_runs e) r' = Some rn' \<or> rn_ref rn' = r' \<and> r' < next_ref (ex_srv e') \<and> armed e' rn'"
    if "map_of (ex_runs e') r' = Some rn'" for r' rn'
    using assms(4) that by (auto split: if_splits)
qed simp

lemma wound_armed:
  assumes "rn_ref rn = r" "ex_inactivityMs e' = ex_inactivityMs e"
    and "ex_inactivityMs e > 0 \<Longrightarrow> ex_runs e' = ex_runs e \<or> wound rn e e'"
    and "stores rn e e'"
  shows "ex_runs e' = ex_runs e \<or> (\<exists>rn'. rn_ref rn' = r \<and> armed e' rn' \<and> ex_runs e' = map_set r rn' (ex_runs e))"
proof (cases "ex_inactivityMs e > 0")
  case True
  with assms(1,3) show ?thesis unfolding wound_def armed_def by blast
next
  case False
  with assms(1,2,4) show ?thesis unfolding stores_def armed_def by auto
qed

lemma dispatch_turn_watch:
  assumes "dispatch_turn py st m p e = (res, e')"
  shows "later e e' \<and>
    (ex_runs e' = ex_runs e \<or>
     (\<exists>rn. rn_ref rn = rn_ref (pn_run p) \<and> armed e' rn \<and> ex_runs e' = map_set (rn_ref rn) rn (ex_runs e)))"
proof (cases "dispatch_guard st p e = MayDispatch \<and> fst (mark_execution st m p e)")
  case False
  then show ?thesis using assms by (auto simp: dispatch_turn_def ended_def split: guard.splits)
next
  case True
  obtain d p1 e1 where d: "dispatch p (snd (mark_execution st m p e)) = (d, p1, e1)" by (metis prod_cases3)
  note f = dispatch_frame [OF d]
  have l: "later e e1" by (rule later_trans [OF later_simps(7) later_dispatch [OF d]])
  show ?thesis
  proof (cases "d = Sent True")
    case ds: True
    define rn where "rn = arm_watchdog (pn_run p1) e1"
    have e': "e' = set_run rn e1" using assms True d ds by (simp add: dispatch_turn_def rn_def)
    have "armed e' rn" by (simp add: e' armed_def rn_def arm_watchdog_def)
    moreover have "rn_ref rn = rn_ref (pn_run p)" "ex_runs e' = map_set (rn_ref rn) rn (ex_runs e)"
      using f(1,2) by (simp_all add: e' rn_def)
    moreover have "later e e'" using later_trans [OF l later_simps(2)] unfolding e' .
    ultimately show ?thesis by blast
  next
    case False
    then have "e' = snd (snd (rejected_turn py True p1 e1)) \<or> e' = snd (snd (rejected_turn py False p1 e1)) \<or>
        e' = snd (snd (unreachable_turn py p1 e1))"
      using assms True d by (auto simp: dispatch_turn_def ended_def split: dispatched.splits if_splits)
    then show ?thesis using f(1) later_trans [OF l] later_turns turn_frame by auto
  qed
qed

lemma later_cancel: "cancelCurrent i t l e = Inr (t', e') \<Longrightarrow> later e e'"
proof -
  assume c: "cancelCurrent i t l e = Inr (t', e')"
  define s where "s = ex_srv e"
  have 1: "later e (on_srv (send_agent i f) e)" for f by simp
  have 2: "later e (case b of None \<Rightarrow> on_srv (send_agent i f) e
      | Some r \<Rightarrow> on_srv (\<lambda>s. finish_sink r (pushStatus r (ev s) s)) (on_srv (send_agent i f) e))" for b :: "bref option" and f ev
    by (cases b) (auto intro: later_trans [OF 1 later_end(2)])
  have 3: "later e (log_effect x (case z of None \<Rightarrow> u | Some r \<Rightarrow> abort_ac r u))" if "later e u" for u x and z :: "bref option"
    using later_trans [OF that later_trans [OF later_abort later_simps(1)]] later_trans [OF that later_simps(1)]
    by (cases z) simp_all
  from c show "later e e'"
    unfolding cancelCurrent_def Let_def by (auto split: if_split_asm intro!: 3 2)
qed

lemma watch_step: "exec_step x y \<Longrightarrow> exec_inv x \<Longrightarrow> watch_inv x \<Longrightarrow> watch_inv y"
proof (induction rule: exec_step.induct)
  case (Server e s ps)
  then have "later e (e\<lparr>ex_srv := s\<rparr>)" by (simp add: later_def closes_def)
  then show ?case by (rule watch_inv_keep [OF Server(4)]) simp_all
next
  case (Prepare sha256 uuid st tn e p e' ps)
  then have f: "ex_runs e' = ex_runs e" "rn_ref (pn_run p) < next_ref (ex_srv e')" "later e e'"
    by (auto simp: prepare_def Let_def later_def)
  show ?case by (rule watch_inv_keep [OF Prepare(3) f(3)]) (use f(1,2) in auto)
next
  case (Dispatch p ps py sto m e res e')
  note d = dispatch_turn_watch [OF Dispatch(2)]
  have "rn_ref (pn_run p) < next_ref (ex_srv e')"
    using Dispatch(1,4) d by (auto simp: watch_inv_def later_def intro: order.strict_trans2)
  then have new: "map_of (ex_runs e) r = Some rn \<or> rn_ref rn = r \<and> r < next_ref (ex_srv e') \<and> armed e' rn"
    if "map_of (ex_runs e') r = Some rn" for r rn
    using d that by (auto split: if_splits)
  show ?case by (rule watch_inv_keep [OF Dispatch(4) conjunct1 [OF d] new]) (assumption, meson notin_set_remove1)
next
  case (Resume e r rn ps an)
  have "rn_ref rn = r" "run_inv rn" using Resume by (simp_all add: exec_inv_def)
  then have "ex_runs (resume an rn e) = ex_runs e \<or>
      (\<exists>rn'. rn_ref rn' = r \<and> armed (resume an rn e) rn' \<and> ex_runs (resume an rn e) = map_set r rn' (ex_runs e))"
    using later_resume [of e an rn] unfolding later_def
    by (intro wound_armed [OF _ _ resume_wound resume_stores]) blast+
  then show ?case using watch_inv_stores Resume(1,3) later_resume by blast
next
  case (Abandon e r rn ps)
  have "rn_ref rn = r" using Abandon by (simp add: exec_inv_def)
  then have "ex_runs (abandon rn e) = ex_runs e \<or>
      (\<exists>rn'. rn_ref rn' = r \<and> armed (abandon rn e) rn' \<and> ex_runs (abandon rn e) = map_set r rn' (ex_runs e))"
    by (auto simp: abandon_def close_stream_def armed_def
        intro!: exI [of _ "rn\<lparr>rn_watchdog := None, rn_phase := Done\<rparr>"])
  then show ?case using watch_inv_stores Abandon(1,3) later_abandon by blast
next
  case (Watchdog e r rn due ps)
  have r: "rn_ref rn = r" using Watchdog by (simp add: exec_inv_def)
  let ?e = "watchdog_fires rn e"
  have "\<exists>rn'. rn_ref rn' = r \<and> armed ?e rn' \<and> ex_runs ?e = map_set r rn' (ex_runs e)"
  proof (cases "waiting (objs (ex_srv e) r) (ex_srv e) = None")
    case True
    then show ?thesis using r
      by (intro exI [of _ "rn\<lparr>rn_watchdog := None\<rparr>"])
        (simp add: watchdog_fires_def armed_def stream_closed_def finish_sink_def upd_queue_def)
  next
    case False
    then show ?thesis using r
      by (intro exI [of _ "arm_watchdog rn e"]) (auto simp: watchdog_fires_def armed_def arm_watchdog_def)
  qed
  then show ?case using watch_inv_stores Watchdog(1,5) later_watchdog by blast
next
  case (Cancel agentId t latest e t' e' ps)
  show ?case by (rule watch_inv_keep [OF Cancel(3) later_cancel [OF Cancel(1)]]) (simp_all add: cancel_runs [OF Cancel(1)])
qed

interpretation watched: invariant_system exec_init exec_step "\<lambda>x. exec_inv x \<and> watch_inv x"
proof
  show "exec_inv x \<and> watch_inv x" if "exec_init x" for x
    using that executor.init_inv by (simp add: exec_init_def watch_inv_def)
  show "exec_inv y \<and> watch_inv y" if "exec_inv x \<and> watch_inv x" "exec_step x y" for x y
    using that exec_step_inv watch_step by blast
qed

text \<open>Claim C26. No stream waits for ever on a silent agent: as long as a stream runs, either its inactivity
  timer is armed or its queue is closed already, and when the timer fires while no approval is
  awaited the queue is closed, with the failure \<open>inactivity_timeout\<close> at its end unless another
  terminal closed it first.\<close>

theorem inactivity_is_bounded:
  assumes "exec_init x" and "exec_step\<^sup>*\<^sup>* x (e, ps)" and "map_of (ex_runs e) r = Some rn"
    and "rn_phase rn = Looping" and "ex_inactivityMs e > 0" and "q_inv (queues (ex_srv e) r)"
  shows "(rn_watchdog rn \<noteq> None \<or> \<not> q_open (queues (ex_srv e) r)) \<and>
    (waiting (objs (ex_srv e) r) (ex_srv e) = None \<longrightarrow>
       (let q = queues (ex_srv e) r; q' = queues (ex_srv (watchdog_fires rn e)) r
        in q_closed q' \<and>
           q_content q' = q_content q @ (if q_open q then [StatusEvent (exec_failed rn ''inactivity''
             ''task timed out: no activity from the connected agent'' ''inactivity_timeout''
             ''no activity from the connected agent'' (clock (ex_srv e)))] else [])))"
proof -
  have "watch_inv (e, ps)" using watched.reachable_inv [OF assms(1,2)] by blast
  then have r: "rn_ref rn = r" "armed e rn" using assms(3) by (simp_all add: watch_inv_def)
  have "q_closed (q_end q)" for q :: task_queue by (simp add: q_end_def)
  then show ?thesis
    using r assms(4-6)
    by (simp add: armed_def stream_closed_def watchdog_fires_def finish_sink_def pushStatus_def upd_queue_def Let_def)
qed

subsection \<open>Reading a closed stream\<close>

text \<open>The consumer reads with the answers \<open>ans\<close>, one for each event.\<close>

fun read_stream :: "answers list \<Rightarrow> bref \<Rightarrow> exec \<Rightarrow> exec" where
  "read_stream [] r e = e"
| "read_stream (an # ans) r e =
     (case map_of (ex_runs e) r of None \<Rightarrow> e | Some rn \<Rightarrow> read_stream ans r (resume an rn e))"

definition reads_left :: "stream_run \<Rightarrow> exec \<Rightarrow> nat" where
  "reads_left rn e =
     (case rn_phase rn of Done \<Rightarrow> 0 | Breaking \<Rightarrow> 1 | Looping \<Rightarrow> length (q_content (queues (ex_srv e) (rn_ref rn))) + 2)"

definition ready :: "bref \<Rightarrow> stream_run \<Rightarrow> exec \<Rightarrow> bool" where
  "ready r rn e \<longleftrightarrow> map_of (ex_runs e) r = Some rn \<and> rn_ref rn = r \<and> run_inv rn \<and>
     q_inv (queues (ex_srv e) r) \<and> q_closed (queues (ex_srv e) r)"

lemma stream_frames [simp]:
  "queues (ex_srv (close_stream rn e)) = queues (ex_srv e)"
  "queues (ex_srv (finish_stream rn e)) = queues (ex_srv e)"
  "queues (ex_srv (on_artifact a rn e)) = queues (ex_srv e)"
  "queues (ex_srv (on_terminal an ev rn e)) = queues (ex_srv e)"
  "queues (ex_srv (on_progress an ev rn e)) = queues (ex_srv e)"
  by (simp_all add: close_stream_def finish_stream_def on_artifact_def on_terminal_def on_progress_def Let_def split_beta)

lemma event_queues [simp]: "queues (ex_srv (on_event an ev rn e)) = queues (ex_srv e)"
proof -
  obtain ev1 rn1 e1 where a: "authorize an (arm_watchdog rn e) ev e = (ev1, rn1, e1)" by (metis prod_cases3)
  then have "queues (ex_srv e1) = queues (ex_srv e)"
    by (auto simp: authorize_def Let_def split: if_splits option.splits)
  then show ?thesis by (simp add: on_event_def a Let_def split: event.split)
qed

lemma closed_next:
  assumes "q_inv q" "q_closed q" "q_next ab q = (res, q')"
  shows "res \<noteq> IParked" "q_closed q'" "q_inv q'"
    "(\<exists>ev. res = IYield ev) \<Longrightarrow> length (q_content q) = Suc (length (q_content q'))"
proof -
  show "res \<noteq> IParked" "q_closed q'"
    using assms by (auto simp: q_inv_def q_open_def split: slot.splits list.splits option.splits if_splits)
  show "q_inv q'" using q_next_inv [OF assms(1), of ab] assms(3) by simp
  show "length (q_content q) = Suc (length (q_content q'))" if "\<exists>ev. res = IYield ev"
    using q_next_content [OF assms(1), of ab] assms(3) that by auto
qed

lemma stores_ready:
  assumes "stores rn e e'" "map_of (ex_runs e) (rn_ref rn) = Some rn" "run_inv rn"
  shows "\<exists>rn'. map_of (ex_runs e') (rn_ref rn) = Some rn' \<and> rn_ref rn' = rn_ref rn \<and> run_inv rn'"
  using assms unfolding stores_def by auto

lemma close_done: "map_of (ex_runs (close_stream rn e)) (rn_ref rn) = Some (rn\<lparr>rn_watchdog := None, rn_phase := Done\<rparr>)"
  by (simp add: close_stream_def)

lemma finish_done: "\<exists>rn'. map_of (ex_runs (finish_stream rn e)) (rn_ref rn) = Some rn' \<and> rn_phase rn' = Done"
  by (simp add: finish_stream_def close_stream_def Let_def)

lemma resume_ready:
  assumes "ready r rn e" and "rn_phase rn \<noteq> Done"
  shows "\<exists>rn'. ready r rn' (resume an rn e) \<and> reads_left rn' (resume an rn e) < reads_left rn e"
proof -
  have r: "rn_ref rn = r" "run_inv rn" "map_of (ex_runs e) (rn_ref rn) = Some rn" using assms(1) by (simp_all add: ready_def)
  obtain rn' where n: "map_of (ex_runs (resume an rn e)) r = Some rn'" "rn_ref rn' = r" "run_inv rn'"
    using stores_ready [OF resume_stores [OF r(2)] r(3,2)] r(1) by blast
  show ?thesis
  proof (cases "rn_phase rn")
    case Breaking
    then have e: "resume an rn e = finish_stream rn e" by (simp add: resume_def)
    then have "rn_phase rn' = Done" using finish_done [of rn e] n(1) r(1) by auto
    then show ?thesis using n assms(1) Breaking e by (intro exI [of _ rn']) (simp add: ready_def reads_left_def)
  next
    case Looping
    obtain res q where q: "q_next (ex_aborted e r) (queues (ex_srv e) r) = (res, q)" by fastforce
    note c = closed_next [OF _ _ q]
    define e1 where "e1 = on_srv (upd_queue r (\<lambda>_. q)) e"
    have qs: "queues (ex_srv e1) r = q" by (simp add: e1_def upd_queue_def)
    have e: "resume an rn e = (case res of IYield ev \<Rightarrow> on_event an ev rn e1 | IDone \<Rightarrow> finish_stream rn e1
        | IThrow _ \<Rightarrow> close_stream rn e1 | IParked \<Rightarrow> e1)"
      unfolding resume_def r(1) q Let_def e1_def using Looping by simp
    have ok: "res \<noteq> IParked" "q_closed q" "q_inv q" using c assms(1) by (simp_all add: ready_def)
    have after: "queues (ex_srv (resume an rn e)) r = q" using e ok(1) qs by (cases res) simp_all
    have "reads_left rn' (resume an rn e) < reads_left rn e"
    proof (cases res)
      case (IYield ev)
      then have "length (q_content (queues (ex_srv e) r)) = Suc (length (q_content q))"
        using c(4) assms(1) by (simp add: ready_def)
      then show ?thesis using Looping r(1) n(2) after by (simp add: reads_left_def split: phase.split)
    next
      case IDone
      then have "rn_phase rn' = Done" using finish_done [of rn e1] n(1) r(1) e by auto
      then show ?thesis using Looping by (simp add: reads_left_def)
    next
      case (IThrow x)
      then have "rn_phase rn' = Done" using close_done [of rn e1] n(1) r(1) e by auto
      then show ?thesis using Looping by (simp add: reads_left_def)
    qed (use ok in simp)
    then show ?thesis using n after ok by (intro exI [of _ rn']) (simp add: ready_def)
  qed (use assms in simp)
qed

lemma read_done: "map_of (ex_runs e) r = Some rn \<Longrightarrow> rn_phase rn = Done \<Longrightarrow> read_stream ans r e = e"
  by (induction ans) (simp_all add: resume_def)

lemma read_ends:
  "ready r rn e \<Longrightarrow> reads_left rn e \<le> length ans \<Longrightarrow>
   \<exists>rn'. map_of (ex_runs (read_stream ans r e)) r = Some rn' \<and> rn_phase rn' = Done"
proof (induction ans arbitrary: rn e)
  case Nil
  then show ?case by (auto simp: ready_def reads_left_def split: phase.splits)
next
  case (Cons an ans)
  show ?case
  proof (cases "rn_phase rn = Done")
    case True
    then show ?thesis using read_done [of e r rn "an # ans"] Cons.prems(1) unfolding ready_def by auto
  next
    case False
    from resume_ready [OF Cons.prems(1) False] obtain rn' where
      "ready r rn' (resume an rn e)" "reads_left rn' (resume an rn e) < reads_left rn e" by blast
    with Cons show ?thesis by (auto simp: ready_def)
  qed
qed

text \<open>Claim C27. A stream whose queue is closed ends: whatever the payment gate and the store answer, and
  whether or not it was aborted, after as many reads as there are events left plus two its generator
  is done. (The queue is closed by a terminal frame, a failed or cancelled task and the inactivity
  timer.)\<close>

theorem closed_stream_ends:
  assumes "exec_init x" and "exec_step\<^sup>*\<^sup>* x (e, ps)" and "map_of (ex_runs e) r = Some rn"
    and "q_inv (queues (ex_srv e) r)" and "q_closed (queues (ex_srv e) r)"
    and "length (q_content (queues (ex_srv e) r)) + 2 \<le> length ans"
  shows "\<exists>rn'. map_of (ex_runs (read_stream ans r e)) r = Some rn' \<and> rn_phase rn' = Done"
proof (rule read_ends)
  have "exec_inv (e, ps)" using executor.reachable_inv [OF assms(1,2)] .
  then show "ready r rn e" using assms(3-5) by (simp add: ready_def exec_inv_def)
  then show "reads_left rn e \<le> length ans"
    using assms(6) by (simp add: reads_left_def ready_def split: phase.split)
qed

subsection \<open>Cancellation\<close>

text \<open>A run in its loop whose controller is published and, unless the agent is gone, its binding.\<close>

definition cancellable :: "bref \<Rightarrow> stream_run \<Rightarrow> task \<Rightarrow> exec \<Rightarrow> bool" where
  "cancellable r rn t e \<longleftrightarrow>
     map_of (ex_runs e) r = Some rn \<and> rn_ref rn = r \<and> rn_phase rn = Looping \<and> rn_settlement rn = None \<and>
     t_id t = rn_taskId rn \<and> get_or (t_contextId t) (t_id t) = rn_contextId rn \<and>
     \<not> terminal_state (st_state (t_status t)) \<and>
     getBinding (rn_taskId rn) (ex_srv e) = Some r \<and> b_agentId (objs (ex_srv e) r) = rn_agentId rn \<and>
     map_of (ex_acs e) (rn_agentId rn, rn_taskId rn) = Some r \<and> \<not> ex_aborted e r"

lemma cancel_result:
  assumes "cancellable r rn t e" and "cancelCurrent (rn_agentId rn) t0 (Some t) e = res"
  shows "\<exists>t' e'. res = Inr (t', e') \<and> st_state (t_status t') = CANCELED \<and> ex_runs e' = ex_runs e \<and> ex_aborted e' r \<and>
    queues (ex_srv e') r =
      q_abort (q_end (q_push (StatusEvent (cancel_event (rn_taskId rn) (rn_contextId rn) (clock (ex_srv e)))) (queues (ex_srv e) r))) \<and>
    clock (ex_srv e') = clock (ex_srv e)"
proof -
  have c: "rn_ref rn = r" "t_id t = rn_taskId rn" "get_or (t_contextId t) (t_id t) = rn_contextId rn"
      "\<not> terminal_state (st_state (t_status t))" "getBinding (rn_taskId rn) (ex_srv e) = Some r"
      "b_agentId (objs (ex_srv e) r) = rn_agentId rn" "map_of (ex_acs e) (rn_agentId rn, rn_taskId rn) = Some r"
      "\<not> ex_aborted e r"
    using assms(1) unfolding cancellable_def by simp_all
  have "\<exists>t' e'. cancelCurrent (rn_agentId rn) t0 (Some t) e = Inr (t', e') \<and> st_state (t_status t') = CANCELED \<and>
    ex_runs e' = ex_runs e \<and> ex_aborted e' r \<and> queues (ex_srv e') r =
      q_abort (q_end (q_push (StatusEvent (cancel_event (rn_taskId rn) (rn_contextId rn) (clock (ex_srv e)))) (queues (ex_srv e) r))) \<and>
    clock (ex_srv e') = clock (ex_srv e)"
    unfolding cancelCurrent_def Let_def option.case
    using c by (simp add: abort_ac_def upd_queue_def finish_sink_def pushStatus_def)
  then show ?thesis using assms(2) by simp
qed

text \<open>Cancelling a task whose consumer waits for the next event shows the caller the cancellation:
  the next event of the stream is the terminal \<open>CANCELED\<close>, and it is the last.\<close>

theorem cancel_reaches_waiting_caller:
  assumes "cancellable r rn t e" and "q_inv (queues (ex_srv e) r)" and "q_waiter (queues (ex_srv e) r)"
  shows "\<exists>t' e' rn'. cancelCurrent (rn_agentId rn) t0 (Some t) e = Inr (t', e') \<and>
    map_of (ex_runs (resume an rn e')) r = Some rn' \<and> rn_phase rn' = Breaking \<and>
    rn_yields rn' = rn_yields rn @ [StatusEvent (withOrigin (rn_executionId rn)
      (cancel_event (rn_taskId rn) (rn_contextId rn) (clock (ex_srv e))))] \<and>
    st_state (t_status (rn_task rn')) = CANCELED"
proof -
  let ?ev = "cancel_event (rn_taskId rn) (rn_contextId rn) (clock (ex_srv e))"
  obtain t' e' where c: "cancelCurrent (rn_agentId rn) t0 (Some t) e = Inr (t', e')" "ex_runs e' = ex_runs e" "ex_aborted e' r"
      and q: "queues (ex_srv e') r = q_abort (q_end (q_push (StatusEvent ?ev) (queues (ex_srv e) r)))"
    using cancel_result [OF assms(1) refl, of t0] by blast
  have r: "rn_ref rn = r" "rn_phase rn = Looping" "rn_settlement rn = None"
    using assms(1) unfolding cancellable_def by simp_all
  have "fst (q_next True (queues (ex_srv e') r)) = IYield (StatusEvent ?ev)"
    using assms(2,3) unfolding q by (simp add: q_inv_def q_open_def q_push_def q_end_def q_abort_def)
  then obtain q' where n: "q_next (ex_aborted e' (rn_ref rn)) (queues (ex_srv e') (rn_ref rn)) = (IYield (StatusEvent ?ev), q')"
    using c(3) r(1) by (cases "q_next True (queues (ex_srv e') r)") simp
  define e1 where "e1 = on_srv (upd_queue (rn_ref rn) (\<lambda>_. q')) e'"
  have "resume an rn e' = on_event an (StatusEvent ?ev) rn e1"
    unfolding resume_def n Let_def prod.case r(2) e1_def by simp
  moreover have "\<exists>rn'. map_of (ex_runs (on_event an (StatusEvent ?ev) rn e1)) r = Some rn' \<and> rn_phase rn' = Breaking \<and>
      rn_yields rn' = rn_yields rn @ [StatusEvent (withOrigin (rn_executionId rn) ?ev)] \<and>
      st_state (t_status (rn_task rn')) = CANCELED"
    by (simp add: on_event_def authorize_def r on_terminal_def settleTerminal_def terminal_state_def cancel_event_def Let_def arm_watchdog_def yields_def)
  ultimately show ?thesis using c(1) by auto
qed

text \<open>The comment of \<open>cancelCurrent\<close> promises the cancellation to every consumer, but one that is busy with
  an earlier event, so not waiting at the queue, never gets it: the abort flag is tested before the
  buffer, and the stream ends at the next read without another event. The task is still saved as
  \<open>CANCELED\<close>.\<close>

theorem cancel_skips_busy_caller:
  assumes "cancellable r rn t e" and "\<not> q_waiter (queues (ex_srv e) r)" and "q_slot (queues (ex_srv e) r) = SNone"
    and "\<not> terminal_state (st_state (t_status (rn_task rn)))"
  shows "\<exists>t' e' rn'. cancelCurrent (rn_agentId rn) t0 (Some t) e = Inr (t', e') \<and>
    map_of (ex_runs (resume an rn e')) r = Some rn' \<and> rn_phase rn' = Done \<and> rn_yields rn' = rn_yields rn \<and>
    st_state (t_status (rn_task rn')) = CANCELED"
proof -
  obtain t' e' where c: "cancelCurrent (rn_agentId rn) t0 (Some t) e = Inr (t', e')" "ex_aborted e' r"
      and q: "queues (ex_srv e') r = q_abort (q_end (q_push (StatusEvent (cancel_event (rn_taskId rn) (rn_contextId rn)
        (clock (ex_srv e)))) (queues (ex_srv e) r)))"
    using cancel_result [OF assms(1) refl, of t0] by blast
  have r: "rn_ref rn = r" "rn_phase rn = Looping" using assms(1) unfolding cancellable_def by simp_all
  have "fst (q_next True (queues (ex_srv e') r)) = IDone"
    using assms(2,3) unfolding q by (simp add: q_push_def q_end_def q_abort_def)
  then obtain q' where n: "q_next (ex_aborted e' (rn_ref rn)) (queues (ex_srv e') (rn_ref rn)) = (IDone, q')"
    using c(2) r(1) by (cases "q_next True (queues (ex_srv e') r)") simp
  define e1 where "e1 = on_srv (upd_queue (rn_ref rn) (\<lambda>_. q')) e'"
  have "resume an rn e' = finish_stream rn e1" unfolding resume_def n Let_def prod.case r(2) e1_def by simp
  moreover have "\<exists>rn'. map_of (ex_runs (finish_stream rn e1)) r = Some rn' \<and> rn_phase rn' = Done \<and>
      rn_yields rn' = rn_yields rn \<and> st_state (t_status (rn_task rn')) = CANCELED"
    using assms(4) c(2) r(1) by (simp add: finish_stream_def close_stream_def e1_def Let_def)
  ultimately show ?thesis using c(1) by auto
qed

subsection \<open>Dispatches that end their turn\<close>

text \<open>A task that is already terminal in the store, for instance cancelled while the turn waited for
  its payment, is not revived: the agent is told nothing, no binding, controller or run appears, and
  a caller without a payment is shown the stored status.\<close>

theorem terminal_task_is_not_revived:
  assumes "terminal_state (st_state (t_status t))"
  shows "\<exists>ev t' e'. dispatch_turn py (Stored (Some t)) m p e = (Ended (StatusEvent ev) t', e') \<and>
    effects (ex_srv e') = effects (ex_srv e) \<and> bindings (ex_srv e') = bindings (ex_srv e) \<and>
    ex_acs e' = ex_acs e \<and> ex_runs e' = ex_runs e \<and>
    terminal_state (st_state (se_status ev)) \<and>
    (rn_settlement (pn_run p) = None \<longrightarrow> se_status ev = t_status t \<and> ex_log e' = ex_log e)"
proof -
  define rn where "rn = pn_run p"
  define ev where "ev = \<lparr>se_taskId = rn_taskId rn, se_contextId = rn_contextId rn, se_final = True,
    se_status = t_status t, se_metadata = None\<rparr>"
  define e1 where "e1 = on_srv (finish_sink (rn_ref rn)) e"
  obtain shown e2 where s: "settleTerminal py (rn_settlement rn) ev (rn_ref rn) (rn_taskId rn) (rn_contextId rn) e1 = (shown, e2)"
    by fastforce
  have d: "dispatch_turn py (Stored (Some t)) m p e = (Ended (StatusEvent shown)
      ((rn_task rn)\<lparr>t_status := se_status shown, t_history := t_history t, t_artifacts := t_artifacts t, t_metadata := t_metadata t\<rparr>), e2)"
    using assms s by (simp add: dispatch_turn_def dispatch_guard_def ended_def interrupted_turn_def rn_def ev_def e1_def Let_def)
  have f: "ex_srv e2 = ex_srv e1" "ex_acs e2 = ex_acs e1" "ex_runs e2 = ex_runs e1"
    using settle_frame [of py "rn_settlement rn" ev "rn_ref rn" "rn_taskId rn" "rn_contextId rn" e1] s by simp_all
  have "terminal_state (st_state (se_status shown))"
    using settle_state [of ev py "rn_settlement rn" "rn_ref rn" "rn_taskId rn" "rn_contextId rn" e1] assms s by (simp add: ev_def)
  moreover have "rn_settlement rn = None \<longrightarrow> se_status shown = t_status t \<and> ex_log e2 = ex_log e"
    using s by (auto simp: settleTerminal_def ev_def e1_def)
  moreover have "effects (ex_srv e1) = effects (ex_srv e)" "bindings (ex_srv e1) = bindings (ex_srv e)"
      "ex_acs e1 = ex_acs e" "ex_runs e1 = ex_runs e" by (simp_all add: e1_def finish_sink_def upd_queue_def)
  ultimately show ?thesis using d f unfolding rn_def by auto
qed

lemma bind_result:
  "fst (bindTask r s) \<Longrightarrow> getBinding (b_taskId (objs s r)) (snd (bindTask r s)) = Some r"
  "\<not> fst (bindTask r s) \<Longrightarrow> snd (bindTask r s) = s"
  by (auto simp: bindTask_def Let_def getBinding_def split: option.splits if_splits)

lemma unbind_gone: "getBinding t (unbindTask t r s) \<noteq> Some r"
  by (auto simp: unbindTask_def Let_def getBinding_def drop_binding_def)

lemma end_keeps [simp]:
  "getBinding t (ex_srv (snd (snd (interrupted_turn py p st e)))) = getBinding t (ex_srv e)"
  "getBinding t (ex_srv (snd (snd (rejected_turn py ow p e)))) = getBinding t (ex_srv e)"
  "ex_acs (snd (snd (interrupted_turn py p st e))) = ex_acs e"
  "ex_acs (snd (snd (rejected_turn py ow p e))) = ex_acs e"
  by (simp_all add: interrupted_turn_def rejected_turn_def Let_def split_beta getBinding_def finish_sink_def upd_queue_def)

lemma unreachable_gone:
  "getBinding (rn_taskId (pn_run p)) (ex_srv (snd (snd (unreachable_turn py p e)))) \<noteq> Some (rn_ref (pn_run p))"
  "map_of (ex_acs (snd (snd (unreachable_turn py p e)))) (rn_agentId (pn_run p), rn_taskId (pn_run p)) \<noteq> Some (rn_ref (pn_run p))"
  by (simp_all add: unreachable_turn_def Let_def split_beta unbind_gone) (simp add: drop_ac_def)

text \<open>Claim C30. A dispatch that ends its turn gives back its binding and its controller in every case but one:
  when the parts of the message cannot be put on the wire, the exception leaves \<open>dispatch\<close> after
  the task was bound, and both stay behind although no stream will ever release them.\<close>

theorem ended_dispatch_leaks_on_bad_parts:
  assumes "dispatch_turn py st m p e = (Ended ev t', e')"
    and "b_taskId (objs (ex_srv e) (rn_ref (pn_run p))) = rn_taskId (pn_run p)"
    and "getBinding (rn_taskId (pn_run p)) (ex_srv e) \<noteq> Some (rn_ref (pn_run p))"
    and "map_of (ex_acs e) (rn_agentId (pn_run p), rn_taskId (pn_run p)) \<noteq> Some (rn_ref (pn_run p))"
  shows "let stuck = (dispatch_guard st p e = MayDispatch \<and> fst (mark_execution st m p e) \<and>
      fst (bindTask (rn_ref (pn_run p)) (ex_srv e)) \<and> (\<exists>err. partsToWire (m_parts (tn_message (pn_turn p))) = Inl err))
    in (getBinding (rn_taskId (pn_run p)) (ex_srv e') = Some (rn_ref (pn_run p)) \<longleftrightarrow> stuck) \<and>
       (map_of (ex_acs e') (rn_agentId (pn_run p), rn_taskId (pn_run p)) = Some (rn_ref (pn_run p)) \<longleftrightarrow> stuck)"
proof (cases "dispatch_guard st p e = MayDispatch \<and> fst (mark_execution st m p e)")
  case False
  then have "e' = snd (snd (rejected_turn py True p e)) \<or> e' = snd (snd (rejected_turn py False p e)) \<or>
      (\<exists>t. e' = snd (snd (interrupted_turn py p t e)))"
    using assms(1) by (auto simp: dispatch_turn_def ended_def split: guard.splits)
  then show ?thesis using False assms(3,4) by (auto simp: Let_def)
next
  case True
  define f where "f = snd (mark_execution st m p e)"
  have fs: "ex_srv f = ex_srv e" "ex_acs f = ex_acs e" by (simp_all add: f_def)
  obtain d p1 e1 where d: "dispatch p f = (d, p1, e1)" by (metis prod_cases3)
  have p1: "rn_ref (pn_run p1) = rn_ref (pn_run p)" "rn_taskId (pn_run p1) = rn_taskId (pn_run p)"
      "rn_agentId (pn_run p1) = rn_agentId (pn_run p)"
    using d by (auto simp: dispatch_def Let_def split: if_splits sum.splits prod.splits)
  have e': "e' = (case d of NotBound \<Rightarrow> snd (snd (rejected_turn py True p1 e1))
      | Threw err \<Rightarrow> snd (snd (rejected_turn py False p1 e1)) | Sent sent \<Rightarrow> snd (snd (unreachable_turn py p1 e1)))"
    using assms(1) True d by (auto simp: dispatch_turn_def ended_def f_def split: dispatched.splits if_splits)
  show ?thesis
  proof (cases "fst (bindTask (rn_ref (pn_run p)) (ex_srv e))")
    case False
    then have "d = NotBound" "e1 = f" using d fs by (auto simp: dispatch_def Let_def)
    then show ?thesis using e' False assms(3,4) fs by (simp add: Let_def)
  next
    case bound: True
    note b = bind_result(1) [OF bound, unfolded assms(2)]
    show ?thesis
    proof (cases "partsToWire (m_parts (tn_message (pn_turn p)))")
      case (Inl err)
      then have "d = Threw err" "getBinding (rn_taskId (pn_run p)) (ex_srv e1) = Some (rn_ref (pn_run p))"
          "map_of (ex_acs e1) (rn_agentId (pn_run p), rn_taskId (pn_run p)) = Some (rn_ref (pn_run p))"
        using d bound fs b by (auto simp: dispatch_def Let_def)
      then show ?thesis using e' Inl True bound by (simp add: Let_def)
    next
      case (Inr parts)
      then have "\<exists>sent. d = Sent sent" using d bound fs by (auto simp: dispatch_def Let_def split: prod.splits)
      then show ?thesis using e' Inr unreachable_gone [where p = p1] p1 by (auto simp: Let_def)
    qed
  qed
qed

text \<open>A store that throws while the task enters or leaves \<open>auth-required\<close> ends the generator: the event is
  not shown, the binding is gone and the agent, which is still working, is not told. \<open>execute\<close>
  says that a failed snapshot must not do that.\<close>

lemma failed_snapshot_ends_stream:
  assumes "\<not> an_storeOk an"
    and "(st_state (t_status (rn_task rn)) = AUTH_REQUIRED) \<noteq> (st_state (se_status ev) = AUTH_REQUIRED)"
  shows "\<exists>rn'. map_of (ex_runs (on_progress an ev rn e)) (rn_ref rn) = Some rn' \<and> rn_phase rn' = Done \<and>
    rn_yields rn' = rn_yields rn \<and> effects (ex_srv (on_progress an ev rn e)) = effects (ex_srv e) \<and>
    getBinding (rn_taskId rn) (ex_srv (on_progress an ev rn e)) \<noteq> Some (rn_ref rn)"
  using assms by (simp add: on_progress_def Let_def close_stream_def unbind_gone)

end
