(* ===== verification/ExecutorSamples.thy ===== *)
theory ExecutorSamples
  imports ExecutorEnds Frames
begin

text \<open>
  One turn of a concrete executor, from the message to the end of its stream: the witnesses of the
  properties of \<open>ExecutorFacts\<close> and \<open>ExecutorEnds\<close>.
\<close>

definition ex_sdk :: x402_sdk where
  "ex_sdk = \<lparr>sdk_failedEvent = (\<lambda>_ _ _. SdkError None), sdk_completedEvent = (\<lambda>_. SdkDone None),
     sdk_stateName = (\<lambda>_. ''failed'')\<rparr>"

definition ex_answers :: answers where
  "ex_answers = \<lparr>an_pay = \<lparr>py_sdk = ex_sdk, py_settle = (\<lambda>_. SettleDone []), py_delivery = DeliveryRefused\<rparr>, an_storeOk = True\<rparr>"

definition ex_task :: task where
  "ex_task = \<lparr>t_id = ''t'', t_contextId = None, t_status = \<lparr>st_state = SUBMITTED, st_timestamp = None, st_message = None\<rparr>,
     t_history = None, t_artifacts = None, t_metadata = None\<rparr>"

definition ex_message :: "obj list \<Rightarrow> message" where
  "ex_message parts = \<lparr>m_messageId = ''m'', m_role = User, m_parts = parts, m_metadata = None, m_extensions = None,
     m_taskId = None, m_contextId = None\<rparr>"

definition hello_parts :: "obj list" where "hello_parts = [[(''text'', JStr ''hi'')]]"

definition start_exec :: exec where
  "start_exec = \<lparr>ex_srv = (empty_srv 30000)\<lparr>agents := [(''a'', sample_conn)]\<rparr>, ex_inactivityMs = 1000, ex_acs = [],
     ex_aborted = (\<lambda>_. False), ex_runs = [], ex_log = []\<rparr>"

definition ex_prepared :: "obj list \<Rightarrow> settlement option \<Rightarrow> pending \<times> exec" where
  "ex_prepared parts st = prepare (\<lambda>_. []) ''e'' st (open_turn ''a'' ex_task (ex_message parts) None) start_exec"

definition ex_started :: "settlement option \<Rightarrow> started \<times> exec" where
  "ex_started st = dispatch_turn (an_pay ex_answers) (Stored None) Marked (fst (ex_prepared hello_parts st)) (snd (ex_prepared hello_parts st))"

lemmas ex_defs = ex_sdk_def ex_answers_def ex_task_def ex_message_def hello_parts_def start_exec_def empty_srv_def
  sample_conn_def sample_card_def sample_binding_def

lemmas prepare_defs = ex_prepared_def prepare_def open_turn_def turn_context_def agent_caps_def getAgent_def
  caps_include_def capability_defs meta_string_def appendHistoryMessage_def selectCallerContextVersion_def
  serializeCallerContext_def Let_def

lemma wire_hello: "partsToWire hello_parts = Inr [[(''kind'', JStr ''text''), (''text'', JStr ''hi'')]]"
  by (simp add: hello_parts_def str_field_def partToWire_def)

text \<open>The run that starts.\<close>

definition ex_run :: "settlement option \<Rightarrow> stream_run" where
  "ex_run st = the (map_of (ex_runs (snd (ex_started st))) 0)"

lemma ex_init: "exec_init (start_exec, [])"
  by (simp add: exec_init_def start_exec_def queue_inv_def empty_srv_def)

lemma ex_prepared_facts:
  "rn_ref (pn_run (fst (ex_prepared parts st))) = 0" "rn_taskId (pn_run (fst (ex_prepared parts st))) = ''t''"
  "rn_agentId (pn_run (fst (ex_prepared parts st))) = ''a''" "rn_settlement (pn_run (fst (ex_prepared parts st))) = st"
  "rn_contextId (pn_run (fst (ex_prepared parts st))) = ''t''"
  "rn_authorized (pn_run (fst (ex_prepared parts st))) = False"
  "new_run (pn_run (fst (ex_prepared parts st)))"
  "bindings (ex_srv (snd (ex_prepared parts st))) = []" "ex_acs (snd (ex_prepared parts st)) = []"
  "ex_runs (snd (ex_prepared parts st)) = []"
  "b_taskId (objs (ex_srv (snd (ex_prepared parts st))) 0) = ''t''"
  "b_agentId (objs (ex_srv (snd (ex_prepared parts st))) 0) = ''a''"
  "queues (ex_srv (snd (ex_prepared parts st))) 0 = new_queue"
  "agents (ex_srv (snd (ex_prepared parts st))) = [(''a'', sample_conn)]"
  "ex_inactivityMs (snd (ex_prepared parts st)) = 1000" "ex_aborted (snd (ex_prepared parts st)) 0 = False"
  "entries (ex_srv (snd (ex_prepared parts st))) = []"
  "t_status (rn_task (pn_run (fst (ex_prepared parts st)))) = t_status ex_task"
  "tn_message (pn_turn (fst (ex_prepared parts st))) = ex_message parts"
  by (simp_all add: prepare_defs start_exec_def empty_srv_def ex_task_def ex_message_def new_run_def)

lemma ex_guard: "dispatch_guard (Stored None) (fst (ex_prepared parts st)) (snd (ex_prepared parts st)) = MayDispatch"
  by (simp add: dispatch_guard_def held_by_other_def getBinding_def ex_prepared_facts)

lemma ex_bind: "fst (bindTask 0 (ex_srv (snd (ex_prepared parts st))))"
    "bindings (snd (bindTask 0 (ex_srv (snd (ex_prepared parts st))))) = [(''t'', 0)]"
    "queues (snd (bindTask 0 (ex_srv (snd (ex_prepared parts st))))) 0 = new_queue"
    "objs (snd (bindTask 0 (ex_srv (snd (ex_prepared parts st))))) = objs (ex_srv (snd (ex_prepared parts st)))"
    "agents (snd (bindTask 0 (ex_srv (snd (ex_prepared parts st))))) = [(''a'', sample_conn)]"
  by (simp_all add: bindTask_def Let_def getBinding_def ex_prepared_facts)

lemma ex_started_facts:
  "fst (ex_started st) = Started" "map_of (ex_runs (snd (ex_started st))) 0 = Some (ex_run st)"
  "rn_ref (ex_run st) = 0" "rn_phase (ex_run st) = Looping" "rn_yields (ex_run st) = []"
  "rn_settlement (ex_run st) = st" "rn_agentId (ex_run st) = ''a''" "rn_taskId (ex_run st) = ''t''"
  "rn_contextId (ex_run st) = ''t''" "rn_authorized (ex_run st) = False"
  "queues (ex_srv (snd (ex_started st))) 0 = new_queue" "bindings (ex_srv (snd (ex_started st))) = [(''t'', 0)]"
  "b_agentId (objs (ex_srv (snd (ex_started st))) 0) = ''a''" "ex_acs (snd (ex_started st)) = [((''a'', ''t''), 0)]"
  "ex_inactivityMs (snd (ex_started st)) = 1000" "ex_aborted (snd (ex_started st)) 0 = False"
  "t_status (rn_task (ex_run st)) = t_status ex_task"
proof -
  let ?p = "fst (ex_prepared hello_parts st)" and ?e = "snd (ex_prepared hello_parts st)"
  define e1 where "e1 = snd (mark_execution (Stored None) Marked ?p ?e)"
  have e1: "ex_srv e1 = ex_srv ?e" "ex_acs e1 = []" "ex_runs e1 = []" "ex_inactivityMs e1 = 1000" "ex_aborted e1 0 = False"
    by (simp_all add: e1_def ex_prepared_facts mark_execution_def log_effect_def)
  define p2 where "p2 = ?p\<lparr>pn_run := (pn_run ?p)\<lparr>rn_task := bound_task (pn_run ?p)\<rparr>\<rparr>"
  define s2 where "s2 = snd (sendToAgent ''a'' (TaskAssign (assign_frame ?p [[(''kind'', JStr ''text''), (''text'', JStr ''hi'')]]))
     (snd (bindTask 0 (ex_srv ?e))))"
  define e2 where "e2 = e1\<lparr>ex_srv := s2, ex_acs := [((''a'', ''t''), 0)]\<rparr>"
  have "m_parts (ex_message hello_parts) = hello_parts" by (simp add: ex_message_def)
  moreover have "fst (sendToAgent ''a'' f (snd (bindTask 0 (ex_srv ?e))))" for f
    by (simp add: sendToAgent_def getAgent_def ex_bind ex_prepared_facts)
  ultimately have d: "dispatch ?p e1 = (Sent True, p2, e2)"
    by (simp add: dispatch_def Let_def ex_prepared_facts e1 ex_bind wire_hello p2_def e2_def s2_def split_beta)
  have s: "ex_started st = (Started, set_run (arm_watchdog (pn_run p2) e2) e2)"
    using d by (simp add: ex_started_def dispatch_turn_def ex_guard e1_def mark_execution_def)
  have p: "rn_ref (pn_run p2) = 0" by (simp add: p2_def ex_prepared_facts)
  have r: "ex_run st = arm_watchdog (pn_run p2) e2" by (simp add: ex_run_def s p)
  have bt: "t_status (bound_task rn) = t_status (rn_task rn)" for rn by (simp add: bound_task_def Let_def)
  show "fst (ex_started st) = Started" "map_of (ex_runs (snd (ex_started st))) 0 = Some (ex_run st)"
    "rn_ref (ex_run st) = 0" by (simp_all add: s r p)
  show "rn_phase (ex_run st) = Looping" "rn_yields (ex_run st) = []" "rn_settlement (ex_run st) = st"
    "rn_agentId (ex_run st) = ''a''" "rn_taskId (ex_run st) = ''t''" "rn_contextId (ex_run st) = ''t''"
    "rn_authorized (ex_run st) = False" "t_status (rn_task (ex_run st)) = t_status ex_task"
    using ex_prepared_facts(7) [of hello_parts st]
    by (simp_all add: r p2_def ex_prepared_facts new_run_def bt)
  show "queues (ex_srv (snd (ex_started st))) 0 = new_queue" "bindings (ex_srv (snd (ex_started st))) = [(''t'', 0)]"
    "b_agentId (objs (ex_srv (snd (ex_started st))) 0) = ''a''" "ex_acs (snd (ex_started st)) = [((''a'', ''t''), 0)]"
    "ex_inactivityMs (snd (ex_started st)) = 1000" "ex_aborted (snd (ex_started st)) 0 = False"
    by (simp_all add: s e2_def s2_def ex_bind ex_prepared_facts e1)
qed

lemma ex_reached: "exec_step\<^sup>*\<^sup>* (start_exec, []) (snd (ex_started st), [])"
proof -
  have 1: "exec_step (start_exec, []) (snd (ex_prepared hello_parts st), [fst (ex_prepared hello_parts st)])"
    by (rule exec_step.Prepare) (simp add: ex_prepared_def)
  have 2: "exec_step (snd (ex_prepared hello_parts st), [fst (ex_prepared hello_parts st)])
      (snd (ex_started st), remove1 (fst (ex_prepared hello_parts st)) [fst (ex_prepared hello_parts st)])"
    by (rule exec_step.Dispatch [where res = "fst (ex_started st)"]) (simp_all add: ex_started_def)
  from 1 2 show ?thesis by simp
qed

subsection \<open>Witnesses\<close>

text \<open>The agent sends an artifact and completes.\<close>

definition ex_artifact :: artifact_event where
  "ex_artifact = \<lparr>ae_taskId = ''t'', ae_contextId = ''t'', ae_artifact = \<lparr>ar_artifactId = ''x'', ar_name = None,
     ar_parts = [[(''text'', JStr ''out'')]], ar_metadata = None, ar_extensions = None\<rparr>, ae_append = None, ae_lastChunk = None\<rparr>"

definition ex_answered :: "settlement option \<Rightarrow> exec" where
  "ex_answered st = on_srv (finish_sink 0) (on_srv (pushStatus 0 (cancel_event ''t'' ''t'' 0))
     (on_srv (pushArtifact 0 ex_artifact) (snd (ex_started st))))"

lemma ex_answered_facts:
  "map_of (ex_runs (ex_answered st)) 0 = Some (ex_run st)"
  "queues (ex_srv (ex_answered st)) 0 = \<lparr>q_buffer = [ArtifactEvent ex_artifact, StatusEvent (cancel_event ''t'' ''t'' 0)],
     q_waiter = False, q_closed = True, q_failure = None, q_slot = SNone\<rparr>"
  "ex_aborted (ex_answered st) 0 = False"
  by (simp_all add: ex_answered_def ex_started_facts sink_defs new_queue_def q_push_def q_end_def)

lemma ex_answered_reached: "exec_step\<^sup>*\<^sup>* (start_exec, []) (ex_answered st, [])"
proof -
  have st: "exec_step (e, []) (on_srv f e, [])" if "closes (ex_srv e) (f (ex_srv e))" "next_ref (f (ex_srv e)) = next_ref (ex_srv e)" for e f
    using exec_step.Server [of e "f (ex_srv e)" "[]"] that by (simp add: on_srv_def)
  have "exec_step (e, []) (on_srv (pushArtifact r a) e, [])" "exec_step (e, []) (on_srv (pushStatus r ev) e, [])"
      "exec_step (e, []) (on_srv (finish_sink r) e, [])" for e r a ev
    by (rule st, simp, simp)+
  then show ?thesis unfolding ex_answered_def using ex_reached [of st] by (meson rtranclp.rtrancl_into_rtrancl)
qed

text \<open>The first read.\<close>

definition ex_read :: "settlement option \<Rightarrow> exec" where
  "ex_read st = resume ex_answers (ex_run st) (ex_answered st)"

lemma ex_read_reached: "exec_step\<^sup>*\<^sup>* (start_exec, []) (ex_read st, [])"
proof -
  have "exec_step (ex_answered st, []) (ex_read st, [])"
    unfolding ex_read_def by (rule exec_step.Resume [OF ex_answered_facts(1)])
  then show ?thesis using ex_answered_reached [of st] by (meson rtranclp.rtrancl_into_rtrancl)
qed

lemma ex_read_event:
  "\<exists>e1. ex_read st = on_event ex_answers (ArtifactEvent ex_artifact) (ex_run st) e1 \<and> ex_runs e1 = ex_runs (ex_answered st)"
  using ex_answered_facts [of st] by (simp add: ex_read_def resume_def ex_started_facts) fastforce

lemma ex_free_read:
  "\<exists>rn. map_of (ex_runs (ex_read None)) 0 = Some rn \<and> rn_yields rn = [ArtifactEvent ex_artifact] \<and> rn_phase rn = Looping"
proof -
  obtain e1 where e: "ex_read None = on_event ex_answers (ArtifactEvent ex_artifact) (ex_run None) e1" using ex_read_event by blast
  show ?thesis unfolding e by (simp add: on_event_def authorize_def ex_started_facts on_artifact_def Let_def)
qed

lemma one_terminal_event_witness:
  "\<exists>rn. map_of (ex_runs (ex_read None)) 0 = Some rn \<and> rn_yields rn = [ArtifactEvent ex_artifact] \<and>
     \<not> terminal_event (hd (rn_yields rn))"
proof -
  obtain rn where m: "map_of (ex_runs (ex_read None)) 0 = Some rn" "rn_yields rn = [ArtifactEvent ex_artifact]" "rn_phase rn = Looping"
    using ex_free_read by blast
  then show ?thesis using one_terminal_event [OF ex_init ex_read_reached m(1)] by auto
qed

text \<open>The payment library refuses the delivery of the artifact.\<close>

lemma ex_paid_read:
  "\<exists>rn ev. map_of (ex_runs (ex_read (Some Deferred))) 0 = Some rn \<and> rn_yields rn = [ev] \<and> carries_output ev \<and>
     rn_settlement rn = Some Deferred \<and> \<not> rn_authorized rn"
proof -
  obtain e1 where e: "ex_read (Some Deferred) = on_event ex_answers (ArtifactEvent ex_artifact) (ex_run (Some Deferred)) e1"
    using ex_read_event by blast
  show ?thesis
    unfolding e
    by (simp add: on_event_def authorize_def ex_started_facts Let_def authorizeDelivery_def ex_answers_def terminal_state_def
        on_terminal_def settleTerminal_def carries_output_def gate_failed_event_def gate_status_event_def)
qed


lemma inactivity_is_bounded_witness: "\<exists>due. rn_watchdog (ex_run None) = Some due"
proof -
  have "ex_inactivityMs (snd (ex_started None)) > 0" "q_inv (queues (ex_srv (snd (ex_started None))) 0)"
    by (simp_all add: ex_started_facts)
  from inactivity_is_bounded [OF ex_init ex_reached ex_started_facts(2,4) this] show ?thesis
    by (simp add: ex_started_facts)
qed

lemma closed_stream_ends_witness:
  "\<exists>rn. map_of (ex_runs (read_stream (replicate 4 ex_answers) 0 (ex_answered None))) 0 = Some rn \<and> rn_phase rn = Done"
proof -
  have "q_inv (queues (ex_srv (ex_answered None)) 0)" "q_closed (queues (ex_srv (ex_answered None)) 0)"
    "length (q_content (queues (ex_srv (ex_answered None)) 0)) + 2 \<le> length (replicate 4 ex_answers)"
    by (simp_all add: ex_answered_facts q_inv_def q_content_def)
  from closed_stream_ends [OF ex_init ex_answered_reached ex_answered_facts(1) this] show ?thesis .
qed

text \<open>A consumer that waits at the queue and one that does not.\<close>

definition ex_parked :: exec where
  "ex_parked = on_srv (upd_queue 0 (\<lambda>q. q\<lparr>q_waiter := True\<rparr>)) (snd (ex_started None))"

lemma ex_cancellable:
  "cancellable 0 (ex_run None) ex_task (snd (ex_started None))" "cancellable 0 (ex_run None) ex_task ex_parked"
  by (simp_all add: cancellable_def ex_parked_def ex_started_facts getBinding_def upd_queue_def)
    (simp_all add: ex_task_def terminal_state_def)

lemma cancel_reaches_waiting_caller_witness:
  "\<exists>t' e' rn'. cancelCurrent ''a'' ex_task (Some ex_task) ex_parked = Inr (t', e') \<and>
     map_of (ex_runs (resume ex_answers (ex_run None) e')) 0 = Some rn' \<and> length (rn_yields rn') = 1"
proof -
  have "q_inv (queues (ex_srv ex_parked) 0)" "q_waiter (queues (ex_srv ex_parked) 0)"
    by (simp_all add: ex_parked_def upd_queue_def ex_started_facts queue_defs)
  from cancel_reaches_waiting_caller [OF ex_cancellable(2) this, of ex_task ex_answers] show ?thesis
    by (auto simp: ex_started_facts)
qed

lemma cancel_skips_busy_caller_witness:
  "\<exists>t' e' rn'. cancelCurrent ''a'' ex_task (Some ex_task) (snd (ex_started None)) = Inr (t', e') \<and>
     map_of (ex_runs (resume ex_answers (ex_run None) e')) 0 = Some rn' \<and> rn_yields rn' = [] \<and> rn_phase rn' = Done"
proof -
  have "\<not> q_waiter (queues (ex_srv (snd (ex_started None))) 0)" "q_slot (queues (ex_srv (snd (ex_started None))) 0) = SNone"
    by (simp_all add: ex_started_facts new_queue_def)
  moreover have "\<not> terminal_state (st_state (t_status (rn_task (ex_run None))))"
    by (simp add: ex_started_facts ex_task_def terminal_state_def)
  ultimately show ?thesis using cancel_skips_busy_caller [OF ex_cancellable(1), of ex_task ex_answers]
    by (auto simp: ex_started_facts)
qed

definition ex_canceled :: task where
  "ex_canceled = ex_task\<lparr>t_status := \<lparr>st_state = CANCELED, st_timestamp = None, st_message = None\<rparr>\<rparr>"

lemma terminal_task_is_not_revived_witness:
  "ex_acs (snd (dispatch_turn (an_pay ex_answers) (Stored (Some ex_canceled)) Marked (fst (ex_prepared hello_parts None))
     (snd (ex_prepared hello_parts None)))) = []"
proof -
  have "terminal_state (st_state (t_status ex_canceled))" by (simp add: ex_canceled_def terminal_state_def)
  from terminal_task_is_not_revived [OF this, of "an_pay ex_answers" Marked "fst (ex_prepared hello_parts None)"
      "snd (ex_prepared hello_parts None)"] show ?thesis
    by (auto simp: ex_prepared_facts)
qed

definition bad_parts :: "obj list" where "bad_parts = [[(''data'', JStr ''x'')]]"

lemma ended_dispatch_leaks_on_bad_parts_witness:
  "\<exists>ev t' e'. dispatch_turn (an_pay ex_answers) (Stored None) Marked (fst (ex_prepared bad_parts None)) (snd (ex_prepared bad_parts None))
     = (Ended ev t', e') \<and> getBinding ''t'' (ex_srv e') = Some 0"
proof -
  let ?p = "fst (ex_prepared bad_parts None)" and ?e = "snd (ex_prepared bad_parts None)"
  have w: "partsToWire (m_parts (tn_message (pn_turn ?p))) = Inl ''A2A DataPart.data must be an object''"
    by (simp add: ex_prepared_facts ex_message_def bad_parts_def partToWire_def str_field_def)
  have m: "fst (mark_execution (Stored None) Marked ?p ?e)" by (simp add: mark_execution_def)
  obtain p1 e1 where "dispatch ?p (snd (mark_execution (Stored None) Marked ?p ?e)) = (Threw ''A2A DataPart.data must be an object'', p1, e1)"
    using w by (simp add: dispatch_def Let_def ex_prepared_facts ex_bind)
  then have d: "\<exists>ev t' e'. dispatch_turn (an_pay ex_answers) (Stored None) Marked ?p ?e = (Ended ev t', e')"
    using m by (simp add: dispatch_turn_def ex_guard ended_def)
  then obtain ev t' e' where e: "dispatch_turn (an_pay ex_answers) (Stored None) Marked ?p ?e = (Ended ev t', e')" by blast
  show ?thesis
    using ended_dispatch_leaks_on_bad_parts [OF e] e w m
    by (auto simp: ex_prepared_facts getBinding_def ex_guard ex_bind Let_def)
qed

end
