(* ===== verification/TaskStore.thy ===== *)
theory TaskStore
  imports Executor "HOL-Library.Product_Lexorder"
begin

text \<open>
  \<open>PostgresTaskStore\<close> (packages/server/src/postgres-task-store.ts) over the rows of
  \<open>infra.a2a_tasks\<close>: what is stripped before a task is persisted, which request may write which row
  (\<open>ExecutionWriter\<close> in packages/server/src/execution-marker.ts), listing, replay and retention.

  A statement is one step: a transaction reads its row \<open>FOR UPDATE\<close>. The table is an association
  list by task id; \<open>now\<close> is the clock of the database, \<open>collate\<close> the order of its text. Writing a
  task as JSON and reading it back is the identity.
\<close>

subsection \<open>Rows\<close>

record row =
  rw_task :: task
  rw_context :: string
  rw_state :: task_state
  rw_owner_principal :: "string option"
  rw_owner_agent :: "string option"
  rw_owner_actor :: "string option"
  rw_profile :: "string option"
  rw_key :: "string option"
  rw_dispatch :: "string option"
  rw_revoked :: bool
  rw_created :: int
  rw_updated :: int

type_synonym table = "(string, row) jsmap"

record list_access =
  la_agentId :: string
  la_principalId :: "string option"

text \<open>\<open>sc_listAccess\<close> is the optional callback and what it returns for the current request.\<close>

record store_cfg =
  sg_keepEnvelope :: bool
  sg_ownerAgent :: "string option"
  sg_listAccess :: "list_access option option"

text \<open>The holder of the current request.\<close>

record writer =
  ew_message :: bool
  ew_marked :: bool
  ew_dispatchId :: "string option"
  ew_executionId :: "string option"
  ew_artifacts :: "artifact list option"

definition markMessageRequest :: "writer option \<Rightarrow> writer option" where
  "markMessageRequest w = map_option (\<lambda>x. x\<lparr>ew_message := True\<rparr>) w"

subsection \<open>What is stripped\<close>

definition secret_keys :: "string list" where
  "secret_keys = [''_bearerToken'', ''_principalId'', ''_actorId'', ''_authorizationProfile'', ''_authorizationKey'',
     IDENTITY_VC_PRESENTED_METADATA_KEY]"

definition without_secrets :: "obj \<Rightarrow> obj option" where
  "without_secrets md =
     (let rest = filter (\<lambda>(k, v). k \<notin> set secret_keys) md in if rest = [] then None else Some rest)"

definition stripMessageMetadata :: "message \<Rightarrow> message" where
  "stripMessageMetadata m = m\<lparr>m_metadata := without_secrets (get_or (m_metadata m) [])\<rparr>"

definition stripTaskMetadata :: "obj option \<Rightarrow> obj option" where
  "stripTaskMetadata md = Option.bind md without_secrets"

definition stripPersistedEnvelope :: "task \<Rightarrow> task" where
  "stripPersistedEnvelope t =
     (case Option.bind (t_metadata t) (\<lambda>md. map_of md OPENAI_COMPAT_EXTENSION_URI) of
        Some (JObj ext) \<Rightarrow>
          if \<not> map_has ext ''chat_completions_request'' then t
          else
            (let restExt = map_del ''chat_completions_request'' ext; md = get_or (t_metadata t) [];
                 next = (if restExt \<noteq> [] then map_set OPENAI_COMPAT_EXTENSION_URI (JObj restExt) md
                         else map_del OPENAI_COMPAT_EXTENSION_URI md)
             in t\<lparr>t_metadata := (if next = [] then None else Some next)\<rparr>)
      | _ \<Rightarrow> t)"

definition stripSensitiveMetadata :: "bool \<Rightarrow> task \<Rightarrow> task" where
  "stripSensitiveMetadata preserveEnvelope t =
     (let base = (if preserveEnvelope then t else stripPersistedEnvelope t)
      in base\<lparr>t_metadata := stripTaskMetadata (t_metadata base),
              t_history := map_option (map stripMessageMetadata) (t_history base),
              t_status := (t_status base)\<lparr>st_message := map_option stripMessageMetadata (st_message (t_status base))\<rparr>\<rparr>)"

text \<open>\<open>/^(1|true|yes|on)$/i\<close>.\<close>

definition parsePersistRequestEnvelope :: "string option \<Rightarrow> bool" where
  "parsePersistRequestEnvelope raw =
     (map lower_char (get_or raw []) \<in> set [''1'', ''true'', ''yes'', ''on''])"

subsection \<open>Owners\<close>

record auth_binding =
  ab_principalId :: "string option"
  ab_actorId :: "string option"
  ab_profileId :: "string option"
  ab_authorizationKey :: "string option"

definition authorizationBindingFromMetadata :: "obj option \<Rightarrow> auth_binding" where
  "authorizationBindingFromMetadata md =
     \<lparr>ab_principalId = meta_string md ''_principalId'', ab_actorId = meta_string md ''_actorId'',
      ab_profileId = meta_string md ''_authorizationProfile'',
      ab_authorizationKey = meta_string md ''_authorizationKey''\<rparr>"

fun first_field :: "string \<Rightarrow> message list \<Rightarrow> string option" where
  "first_field key [] = None"
| "first_field key (m # ms) =
     (case meta_string (m_metadata m) key of Some v \<Rightarrow> Some v | None \<Rightarrow> first_field key ms)"

definition extractAuthorizationField :: "task \<Rightarrow> string \<Rightarrow> string option" where
  "extractAuthorizationField t key =
     coalesce (first_field key (get_or (t_history t) []))
       (Option.bind (st_message (t_status t)) (\<lambda>m. meta_string (m_metadata m) key))"

definition extractOwnerPrincipal :: "task \<Rightarrow> string option" where
  "extractOwnerPrincipal t = extractAuthorizationField t ''_principalId''"

subsection \<open>Reading and writing one row\<close>

definition row_visible :: "store_cfg \<Rightarrow> row \<Rightarrow> bool" where
  "row_visible cfg r \<longleftrightarrow> sg_ownerAgent cfg = None \<or> rw_owner_agent r = sg_ownerAgent cfg"

definition find_row :: "store_cfg \<Rightarrow> string \<Rightarrow> table \<Rightarrow> row option" where
  "find_row cfg taskId db =
     (case map_of db taskId of None \<Rightarrow> None | Some r \<Rightarrow> if row_visible cfg r then Some r else None)"

definition getTask :: "store_cfg \<Rightarrow> string \<Rightarrow> table \<Rightarrow> task option" where
  "getTask cfg taskId db = map_option (\<lambda>r. normalizeTaskParts (rw_task r)) (find_row cfg taskId db)"

definition lockTask :: "store_cfg \<Rightarrow> string \<Rightarrow> table \<Rightarrow> (task \<times> string option) option" where
  "lockTask cfg taskId db =
     map_option (\<lambda>r. (normalizeTaskParts (rw_task r), rw_dispatch r)) (find_row cfg taskId db)"

text \<open>\<open>INSERT ... ON CONFLICT (task_id) DO UPDATE\<close>: the owner columns are written once, and a store
  that belongs to an agent leaves the rows of another alone.\<close>

definition writeTask :: "store_cfg \<Rightarrow> int \<Rightarrow> task \<Rightarrow> auth_binding option \<Rightarrow> table \<Rightarrow> table" where
  "writeTask cfg now t initial db =
     (let owner = coalesce (Option.bind initial ab_principalId) (extractOwnerPrincipal t);
          actor = coalesce (Option.bind initial ab_actorId) (extractAuthorizationField t ''_actorId'');
          profile = coalesce (Option.bind initial ab_profileId) (extractAuthorizationField t ''_authorizationProfile'');
          key = coalesce (Option.bind initial ab_authorizationKey) (extractAuthorizationField t ''_authorizationKey'');
          persisted = stripSensitiveMetadata (sg_keepEnvelope cfg) t;
          contextId = get_or (t_contextId t) (t_id t)
      in case map_of db (t_id t) of
           None \<Rightarrow>
             map_set (t_id t)
               \<lparr>rw_task = persisted, rw_context = contextId, rw_state = st_state (t_status t),
                rw_owner_principal = owner, rw_owner_agent = sg_ownerAgent cfg, rw_owner_actor = actor,
                rw_profile = profile, rw_key = key, rw_dispatch = None, rw_revoked = False,
                rw_created = now, rw_updated = now\<rparr> db
         | Some old \<Rightarrow>
             if row_visible cfg old then
               map_set (t_id t)
                 (old\<lparr>rw_task := persisted, rw_context := contextId, rw_state := st_state (t_status t),
                    rw_owner_principal := coalesce (rw_owner_principal old) owner,
                    rw_owner_actor := coalesce (rw_owner_actor old) actor,
                    rw_profile := coalesce (rw_profile old) profile,
                    rw_key := coalesce (rw_key old) key, rw_updated := now\<rparr>) db
             else db)"

text \<open>The two ids are random UUIDs, the second used when the caller names no context.\<close>

definition createTask ::
    "store_cfg \<Rightarrow> int \<Rightarrow> string \<Rightarrow> string \<Rightarrow> string option \<Rightarrow> obj option \<Rightarrow> table \<Rightarrow> task \<times> table" where
  "createTask cfg now taskId uuid contextId md db =
     (let t = \<lparr>t_id = taskId, t_contextId = Some (get_or contextId uuid),
               t_status = \<lparr>st_state = SUBMITTED, st_timestamp = Some (Iso now), st_message = None\<rparr>,
               t_history = None, t_artifacts = None,
               t_metadata = withExecutionMarker (stripTaskMetadata md) None\<rparr>
      in (t, writeTask cfg now t (Some (authorizationBindingFromMetadata md)) db))"

definition deleteTask :: "store_cfg \<Rightarrow> string \<Rightarrow> table \<Rightarrow> table" where
  "deleteTask cfg taskId db =
     (case find_row cfg taskId db of None \<Rightarrow> db | Some _ \<Rightarrow> map_del taskId db)"

subsection \<open>Updates\<close>

record task_update =
  tu_status :: "task_status option"
  tu_artifacts :: "artifact list option"
  tu_history :: "message list option"
  tu_metadata :: "obj option"

definition merge_update :: "task_update \<Rightarrow> writer option \<Rightarrow> task \<Rightarrow> task" where
  "merge_update u w t =
     (let next = t\<lparr>t_status := get_or (tu_status u) (t_status t), t_artifacts := coalesce (tu_artifacts u) (t_artifacts t),
                  t_history := coalesce (tu_history u) (t_history t), t_metadata := coalesce (tu_metadata u) (t_metadata t)\<rparr>
      in case w of
           Some x \<Rightarrow>
             if ew_marked x
             then (case ew_artifacts x of
                     Some arts \<Rightarrow> next\<lparr>t_artifacts := (if arts = [] then None else Some arts)\<rparr>
                   | None \<Rightarrow> next)
             else next
         | None \<Rightarrow> next)"

definition same_dispatch :: "writer \<Rightarrow> string option \<Rightarrow> bool" where
  "same_dispatch w dispatchId \<longleftrightarrow> ew_dispatchId w \<noteq> None \<and> ew_dispatchId w = dispatchId"

datatype skip_reason = Canceled_row | Not_dispatched | Superseded

text \<open>The rules of \<open>ExecutionWriter\<close>.\<close>

definition stale_write :: "writer option \<Rightarrow> string option \<Rightarrow> skip_reason option" where
  "stale_write w dispatchId =
     (case w of
        None \<Rightarrow> None
      | Some x \<Rightarrow>
          if \<not> ew_message x then None
          else if \<not> ew_marked x then (if dispatchId \<noteq> None then Some Not_dispatched else None)
          else if \<not> same_dispatch x dispatchId then Some Superseded else None)"

definition keeps_cancel :: "writer option \<Rightarrow> task \<Rightarrow> string option \<Rightarrow> bool" where
  "keeps_cancel w t dispatchId \<longleftrightarrow>
     (case w of
        None \<Rightarrow> False
      | Some x \<Rightarrow> ew_message x \<and> st_state (t_status t) = CANCELED \<and> (\<not> ew_marked x \<or> same_dispatch x dispatchId))"

text \<open>\<open>collate\<close> orders task ids; \<open>drop 10\<close> is \<open>OFFSET 10\<close>.\<close>

definition MAX_CONTEXT_TASKS :: nat where "MAX_CONTEXT_TASKS = 10"

definition newest_first :: "(string \<Rightarrow> int) \<Rightarrow> (string \<times> row) list \<Rightarrow> (string \<times> row) list" where
  "newest_first collate rows = sort_key (\<lambda>(k, r). (- rw_created r, - collate k)) rows"

definition enforceRetention :: "store_cfg \<Rightarrow> (string \<Rightarrow> int) \<Rightarrow> task \<Rightarrow> table \<Rightarrow> table" where
  "enforceRetention cfg collate t db =
     (case extractOwnerPrincipal t of
        None \<Rightarrow> db
      | Some owner \<Rightarrow>
          if owner = [] \<or> \<not> terminal_state (st_state (t_status t)) then db
          else
            (let mine = filter (\<lambda>(k, r). row_visible cfg r \<and> rw_context r = get_or (t_contextId t) (t_id t) \<and>
                          rw_owner_principal r = Some owner \<and> terminal_state (rw_state r)) db;
                 gone = map fst (drop MAX_CONTEXT_TASKS (newest_first collate mine))
             in filter (\<lambda>(k, r). k \<notin> set gone) db))"

definition updateTask ::
    "store_cfg \<Rightarrow> (string \<Rightarrow> int) \<Rightarrow> int \<Rightarrow> writer option \<Rightarrow> string \<Rightarrow> task_update \<Rightarrow> table \<Rightarrow>
     string + task \<times> table" where
  "updateTask cfg collate now w taskId u db =
     (case lockTask cfg taskId db of
        None \<Rightarrow> Inl (''Task not found: '' @ taskId)
      | Some (existing, dispatchId) \<Rightarrow>
          if keeps_cancel w existing dispatchId then Inr (existing, db)
          else
            (let next = merge_update u w existing
             in case stale_write w dispatchId of
                  Some reason \<Rightarrow>
                    Inr (next\<lparr>t_metadata := withExecutionMarker (t_metadata next)
                           (case w of Some x \<Rightarrow> if ew_marked x then ew_executionId x else None | None \<Rightarrow> None)\<rparr>, db)
                | None \<Rightarrow>
                    (let kept = next\<lparr>t_metadata := withExecutionMarker (t_metadata next)
                                   (executionMarker (t_metadata existing))\<rparr>
                     in Inr (kept, enforceRetention cfg collate kept (writeTask cfg now kept None db)))))"

text \<open>\<open>uuid\<close> names the dispatch of an agent that cannot replay.\<close>

definition markExecution ::
    "store_cfg \<Rightarrow> int \<Rightarrow> string \<Rightarrow> string \<Rightarrow> string option \<Rightarrow> artifact list \<Rightarrow> writer option \<Rightarrow> table \<Rightarrow>
     string + writer option \<times> table" where
  "markExecution cfg now uuid taskId executionId arts w db =
     (case lockTask cfg taskId db of
        None \<Rightarrow> Inl (''Task not found: '' @ taskId)
      | Some (t, _) \<Rightarrow>
          (let dispatchId = get_or executionId uuid;
               t' = t\<lparr>t_artifacts := (if executionId = None then t_artifacts t else None),
                      t_status := \<lparr>st_state = WORKING, st_timestamp = Some (Iso now), st_message = None\<rparr>,
                      t_metadata := withExecutionMarker (t_metadata t) executionId\<rparr>;
               db1 = writeTask cfg now t' None db;
               db2 = (case map_of db1 taskId of
                        None \<Rightarrow> db1 | Some r \<Rightarrow> map_set taskId (r\<lparr>rw_dispatch := Some dispatchId\<rparr>) db1)
           in Inr (map_option (\<lambda>x. x\<lparr>ew_message := True, ew_marked := True, ew_dispatchId := Some dispatchId,
                     ew_executionId := executionId,
                     ew_artifacts := (if executionId = None then None else Some arts)\<rparr>) w, db2)))"

subsection \<open>Listing\<close>

definition PUBLIC_TASK_PROFILE :: string where "PUBLIC_TASK_PROFILE = ''vicoop:public-task:v1''"

definition state_text :: "task_state \<Rightarrow> string" where
  "state_text st =
     (case st of SUBMITTED \<Rightarrow> ''submitted'' | WORKING \<Rightarrow> ''working'' | INPUT_REQUIRED \<Rightarrow> ''input-required''
      | AUTH_REQUIRED \<Rightarrow> ''auth-required'' | COMPLETED \<Rightarrow> ''completed'' | CANCELED \<Rightarrow> ''canceled''
      | FAILED \<Rightarrow> ''failed'' | REJECTED \<Rightarrow> ''rejected'')"

text \<open>\<open>String(status).toLowerCase().replace(/^task_state_/, '').replaceAll('_', '-')\<close>.\<close>

definition status_filter :: "string \<Rightarrow> string" where
  "status_filter s =
     (let l = map lower_char s;
          r = (if startsWith l ''task_state_'' then drop 11 l else l)
      in map (\<lambda>c. if c = CHR ''_'' then CHR ''-'' else c) r)"

text \<open>\<open>lp_after\<close> is \<open>Date.parse\<close> of the timestamp: \<open>Some None\<close> when it is not one.\<close>

record list_params =
  lp_pageSize :: "int option"
  lp_pageToken :: "string option"
  lp_contextId :: "string option"
  lp_status :: "string option"
  lp_after :: "int option option"
  lp_historyLength :: "int option"
  lp_includeArtifacts :: bool

record list_result =
  lr_tasks :: "task list"
  lr_nextPageToken :: string
  lr_pageSize :: int
  lr_totalSize :: nat

text \<open>\<open>Number(token)\<close>: blank is zero, a decimal number itself, \<open>other\<close> reads the remaining forms.
  Then the offset: a safe integer that is not negative, else zero.\<close>

definition page_offset :: "(string \<Rightarrow> js_number) \<Rightarrow> string option \<Rightarrow> nat" where
  "page_offset other token =
     (let s = js_trim (get_or token ''0'');
          n = (if s = [] then NInt 0 else if list_all is_digit s then NInt (int (nat_of_string s)) else other s)
      in case n of NInt i \<Rightarrow> if 0 \<le> i \<and> i \<le> 2 ^ 53 - 1 then nat i else 0 | _ \<Rightarrow> 0)"

definition page_size :: "int option \<Rightarrow> int" where
  "page_size p = min (max (get_or p 50) 1) 100"

text \<open>The \<open>WHERE\<close> clause. \<open>instant\<close> reads a stored timestamp.\<close>

definition caller_may_list :: "store_cfg \<Rightarrow> row \<Rightarrow> bool" where
  "caller_may_list cfg r \<longleftrightarrow>
     (case sg_listAccess cfg of
        None \<Rightarrow> True
      | Some acc \<Rightarrow>
          (let principal = Option.bind acc la_principalId
           in rw_owner_principal r = principal \<and>
              rw_profile r = (if principal = None then Some PUBLIC_TASK_PROFILE else None) \<and>
              rw_owner_actor r = None \<and> rw_key r = None \<and> \<not> rw_revoked r))"

definition list_matches :: "(timestamp \<Rightarrow> int option) \<Rightarrow> store_cfg \<Rightarrow> list_params \<Rightarrow> row \<Rightarrow> bool" where
  "list_matches instant cfg p r \<longleftrightarrow>
     row_visible cfg r \<and> caller_may_list cfg r \<and>
     (case lp_contextId p of None \<Rightarrow> True | Some c \<Rightarrow> rw_context r = c) \<and>
     (case lp_status p of None \<Rightarrow> True | Some st \<Rightarrow> state_text (st_state (t_status (rw_task r))) = status_filter st) \<and>
     (case lp_after p of
        Some (Some after) \<Rightarrow>
          (case Option.bind (st_timestamp (t_status (rw_task r))) instant of None \<Rightarrow> False | Some t \<Rightarrow> after \<le> t)
      | _ \<Rightarrow> True)"

definition latest_first :: "(string \<Rightarrow> int) \<Rightarrow> (string \<times> row) list \<Rightarrow> row list" where
  "latest_first collate rows = map snd (sort_key (\<lambda>(k, r). (- rw_updated r, - collate k)) rows)"

text \<open>\<open>xs.slice(-n)\<close>.\<close>

definition last_n :: "int \<Rightarrow> 'a list \<Rightarrow> 'a list" where
  "last_n n xs = (if n = 0 then xs else if n > 0 then drop (length xs - nat n) xs else drop (nat (- n)) xs)"

definition list_view :: "list_params \<Rightarrow> task \<Rightarrow> task" where
  "list_view p t =
     (let t1 = (case lp_historyLength p of
                  None \<Rightarrow> t
                | Some n \<Rightarrow> t\<lparr>t_history := Some (if n = 0 then [] else last_n n (get_or (t_history t) []))\<rparr>)
      in normalizeTaskParts (if lp_includeArtifacts p then t1 else t1\<lparr>t_artifacts := None\<rparr>))"

definition empty_list :: "list_params \<Rightarrow> list_result" where
  "empty_list p = \<lparr>lr_tasks = [], lr_nextPageToken = [], lr_pageSize = page_size (lp_pageSize p), lr_totalSize = 0\<rparr>"

definition listing_denied :: "store_cfg \<Rightarrow> bool" where
  "listing_denied cfg \<longleftrightarrow>
     (case sg_listAccess cfg of
        None \<Rightarrow> False
      | Some None \<Rightarrow> True
      | Some (Some a) \<Rightarrow> get_or (la_principalId a) [] = [] \<or> Some (la_agentId a) \<noteq> sg_ownerAgent cfg)"

definition matching_rows ::
    "(timestamp \<Rightarrow> int option) \<Rightarrow> (string \<Rightarrow> int) \<Rightarrow> store_cfg \<Rightarrow> list_params \<Rightarrow> table \<Rightarrow> row list" where
  "matching_rows instant collate cfg p db = latest_first collate (filter (\<lambda>(k, r). list_matches instant cfg p r) db)"

definition listTasks ::
    "(timestamp \<Rightarrow> int option) \<Rightarrow> (string \<Rightarrow> int) \<Rightarrow> (string \<Rightarrow> js_number) \<Rightarrow> store_cfg \<Rightarrow> list_params \<Rightarrow> table \<Rightarrow> list_result" where
  "listTasks instant collate other cfg p db =
     (if lp_after p = Some None then empty_list p
      else if listing_denied cfg then empty_list p
      else
        (let rows = matching_rows instant collate cfg p db;
             offset = page_offset other (lp_pageToken p);
             tasks = map (\<lambda>r. list_view p (rw_task r)) (take (nat (page_size (lp_pageSize p))) (drop offset rows));
             nextOffset = offset + length tasks
         in \<lparr>lr_tasks = tasks,
             lr_nextPageToken = (if nextOffset < length rows then string_of_nat nextOffset else []),
             lr_pageSize = page_size (lp_pageSize p), lr_totalSize = length rows\<rparr>))"

subsection \<open>Replay and retention\<close>

definition loadByContextId ::
    "store_cfg \<Rightarrow> (string \<Rightarrow> int) \<Rightarrow> string \<Rightarrow> string \<Rightarrow> string option \<Rightarrow> table \<Rightarrow> task list" where
  "loadByContextId cfg collate contextId principalId exclude db =
     (let rows = filter (\<lambda>(k, r). row_visible cfg r \<and> rw_context r = contextId \<and> rw_owner_principal r = Some principalId \<and>
                   \<not> (get_or exclude [] \<noteq> [] \<and> k = get_or exclude [])) db
      in rev (map (\<lambda>(k, r). normalizeTaskParts (stripPersistedEnvelope (rw_task r)))
                (take MAX_CONTEXT_TASKS (newest_first collate rows))))"

text \<open>The rows of one agent and context go together; \<open>day\<close> is a day in the unit of the clock.\<close>

definition same_context :: "row \<Rightarrow> row \<Rightarrow> bool" where
  "same_context a b \<longleftrightarrow> rw_context a = rw_context b \<and> rw_owner_agent a = rw_owner_agent b"

definition stale_context :: "int \<Rightarrow> table \<Rightarrow> row \<Rightarrow> bool" where
  "stale_context limit db r \<longleftrightarrow>
     list_all (\<lambda>(k, x). same_context x r \<longrightarrow> rw_updated x < limit \<and> terminal_state (rw_state x)) db"

definition pruneStaleContexts :: "int \<Rightarrow> int \<Rightarrow> int \<Rightarrow> table \<Rightarrow> nat \<times> table" where
  "pruneStaleContexts now day retentionDays db =
     (let kept = filter (\<lambda>(k, r). \<not> stale_context (now - retentionDays * day) db r) db
      in (length db - length kept, kept))"

end
