(* ===== verification/TextFacts.thy ===== *)
theory TextFacts
  imports CallerText
begin

text \<open>How \<open>trim\<close> and \<open>toLowerCase\<close> act on the code points of a string: both are idempotent and they commute.\<close>

subsection \<open>Code points\<close>

definition wf_points :: "string list \<Rightarrow> bool" where
  "wf_points ps \<longleftrightarrow> (\<forall>p \<in> set ps. p \<noteq> [] \<and> list_all cont (tl p)) \<and> (\<forall>p \<in> set (tl ps). \<not> cont (hd p))"

lemma points_wf: "wf_points (points s)"
proof (induction s rule: points.induct)
  case (2 c cs)
  have hd: "\<not> cont (hd p)" if "p \<in> set (points (dropWhile cont cs))" for p
  proof (cases "dropWhile cont cs")
    case (Cons x xs)
    then have "\<not> cont x" by (metis hd_dropWhile list.distinct(1) list.sel(1))
    then show ?thesis using that 2 Cons by (auto simp: wf_points_def)
  next
    case Nil
    with that show ?thesis by (simp only: points.simps list.set empty_iff)
  qed
  moreover have "list_all cont (takeWhile cont cs)" by (auto simp: list_all_iff dest: set_takeWhileD)
  ultimately show ?case using 2 unfolding wf_points_def points.simps list.sel by force
qed (simp add: wf_points_def)

lemma new_point: "r = [] \<or> \<not> cont (hd r) \<Longrightarrow> takeWhile cont r = [] \<and> dropWhile cont r = r"
  by (cases r) simp_all

lemma points_concat: "wf_points ps \<Longrightarrow> points (concat ps) = ps"
proof (induction ps)
  case (Cons p ps)
  obtain c cs where p: "p = c # cs" "list_all cont cs" using Cons.prems by (cases p) (simp_all add: wf_points_def)
  have hd: "concat ps = [] \<or> \<not> cont (hd (concat ps))"
  proof (cases ps)
    case (Cons q qs)
    then have "q \<noteq> []" "\<not> cont (hd q)" using Cons.prems by (simp_all add: wf_points_def)
    then show ?thesis using Cons by simp
  qed simp
  have "wf_points ps" using Cons.prems by (cases ps) (simp_all add: wf_points_def)
  moreover have "takeWhile cont (cs @ concat ps) = cs" "dropWhile cont (cs @ concat ps) = concat ps"
  proof -
    have "takeWhile cont (concat ps) = []" "dropWhile cont (concat ps) = concat ps" using new_point [OF hd] by blast+
    then show "takeWhile cont (cs @ concat ps) = cs" "dropWhile cont (cs @ concat ps) = concat ps"
      using p(2) takeWhile_append2 [of cs cont "concat ps"] dropWhile_append2 [of cs cont "concat ps"] by (simp_all add: list_all_iff)
  qed
  ultimately show ?case using Cons.IH p by simp
qed simp

lemma wf_points_drop: "wf_points (as @ bs) \<Longrightarrow> wf_points bs"
  by (cases as; cases bs) (auto simp: wf_points_def)

lemma wf_points_take: "wf_points (as @ bs) \<Longrightarrow> wf_points as"
  by (cases as) (auto simp: wf_points_def)

subsection \<open>Trim\<close>

definition trim_points :: "string list \<Rightarrow> string list" where
  "trim_points ps = rev (dropWhile is_space (rev (dropWhile is_space ps)))"

lemma js_trim_points: "js_trim s = concat (trim_points (points s))"
  by (simp add: js_trim_def trim_points_def)

lemma trim_points_infix: "\<exists>as bs. ps = as @ trim_points ps @ bs"
proof -
  let ?d = "dropWhile is_space ps"
  have 1: "ps = takeWhile is_space ps @ ?d" by simp
  have "rev ?d = takeWhile is_space (rev ?d) @ dropWhile is_space (rev ?d)" by simp
  then have "?d = trim_points ps @ rev (takeWhile is_space (rev ?d))"
    unfolding trim_points_def by (metis rev_append rev_rev_ident)
  then show ?thesis using 1 by metis
qed

lemma points_trim: "points (js_trim s) = trim_points (points s)"
proof -
  obtain as bs where ab: "points s = as @ trim_points (points s) @ bs" using trim_points_infix by blast
  have "wf_points (as @ trim_points (points s) @ bs)" unfolding ab [symmetric] by (rule points_wf)
  then have "wf_points (trim_points (points s))" by (metis wf_points_drop wf_points_take)
  then show ?thesis by (simp add: js_trim_points points_concat)
qed

lemma trim_points_idem: "trim_points (trim_points ps) = trim_points ps"
proof (cases "trim_points ps = []")
  case False
  let ?d = "dropWhile is_space ps"
  have last: "\<not> is_space (last (trim_points ps))"
    using False unfolding trim_points_def by (metis hd_dropWhile last_rev rev_is_Nil_conv)
  have "hd (trim_points ps) = hd ?d"
  proof -
    have "rev ?d = takeWhile is_space (rev ?d) @ dropWhile is_space (rev ?d)" by simp
    then have "?d = trim_points ps @ rev (takeWhile is_space (rev ?d))"
      unfolding trim_points_def by (metis rev_append rev_rev_ident)
    then show ?thesis using False by (metis hd_append2)
  qed
  moreover have "?d \<noteq> []"
  proof
    assume "?d = []"
    then show False using False by (simp add: trim_points_def del: dropWhile_eq_Nil_conv)
  qed
  ultimately have hd: "\<not> is_space (hd (trim_points ps))" by (metis hd_dropWhile)
  have "dropWhile is_space (trim_points ps) = trim_points ps" using hd False by (cases "trim_points ps") simp_all
  moreover have "dropWhile is_space (rev (trim_points ps)) = rev (trim_points ps)"
    using last False by (cases "trim_points ps" rule: rev_cases) simp_all
  ultimately show ?thesis by (simp add: trim_points_def [of "trim_points ps"])
next
  case True
  show ?thesis unfolding True by (simp add: trim_points_def)
qed

lemma js_trim_idem [simp]: "js_trim (js_trim s) = js_trim s"
  by (simp add: js_trim_points [of "js_trim s"] points_trim trim_points_idem) (simp add: js_trim_points)

subsection \<open>Plain text\<close>

definition plain_char :: "char \<Rightarrow> bool" where
  "plain_char c \<longleftrightarrow> 32 < (of_char c :: nat) \<and> (of_char c :: nat) < 128"

lemma points_plain: "list_all plain_char s \<Longrightarrow> points s = map (\<lambda>c. [c]) s"
proof (induction s)
  case (Cons c s)
  have "takeWhile cont s = [] \<and> dropWhile cont s = s" using Cons.prems by (cases s) (auto simp: cont_def plain_char_def)
  then show ?case using Cons by simp
qed simp

lemma trim_plain: "list_all plain_char s \<Longrightarrow> js_trim s = s"
proof -
  assume d: "list_all plain_char s"
  have ns: "\<not> is_space [c]" if "plain_char c" for c using that by (auto simp: is_space_def plain_char_def)
  have dw: "dropWhile is_space (map (\<lambda>c. [c]) xs) = map (\<lambda>c. [c]) xs" if "list_all plain_char xs" for xs
    using that ns by (cases xs) simp_all
  have "list_all plain_char (rev s)" using d by (simp add: list_all_iff)
  then show ?thesis using dw [of s] dw [of "rev s"] d by (simp add: js_trim_def points_plain rev_map [symmetric] concat_map_singleton)
qed

subsection \<open>Lower case\<close>

lemma lower_char_code: "(of_char (lower_char c) :: nat) =
    (if 65 \<le> (of_char c :: nat) \<and> (of_char c :: nat) \<le> 90 then of_char c + 32 else of_char c)"
  by (simp add: lower_char_def Let_def)

lemma lower_char_idem [simp]: "lower_char (lower_char c) = lower_char c"
  by (rule lower_char_id) (auto simp: lower_char_code)

lemma lower_idem [simp]: "lower (lower s) = lower s"
  by (simp add: comp_def)

lemma cont_lower [simp]: "cont (lower_char c) = cont c"
  by (simp add: cont_def lower_char_code)

lemma points_lower: "points (lower s) = map lower (points s)"
proof (induction s rule: points.induct)
  case (2 c cs)
  have "takeWhile cont (lower cs) = lower (takeWhile cont cs)" "dropWhile cont (lower cs) = lower (dropWhile cont cs)"
    by (simp_all add: takeWhile_map dropWhile_map comp_def)
  then show ?case using 2 by simp
qed simp

lemma lower_wide: "list_all (\<lambda>c. 128 \<le> (of_char c :: nat)) w \<Longrightarrow> lower p = w \<longleftrightarrow> p = w"
proof (induction w arbitrary: p)
  case (Cons c w)
  have "lower_char x = c \<longleftrightarrow> x = c" for x
  proof (cases "65 \<le> (of_char x :: nat) \<and> (of_char x :: nat) \<le> 90")
    case True
    then have "(of_char (lower_char x) :: nat) \<le> 122" by (simp add: lower_char_code)
    moreover have "128 \<le> (of_char c :: nat)" using Cons.prems by simp
    ultimately show ?thesis using True by auto
  qed (auto simp: lower_char_def Let_def)
  then show ?case using Cons by (cases p) simp_all
qed simp

lemma is_space_lower: "is_space (lower p) = is_space p"
proof -
  have w: "\<forall>w \<in> set wide_spaces. list_all (\<lambda>c. 128 \<le> (of_char c :: nat)) w" by (simp add: wide_spaces_def bytes_def)
  then have "(\<exists>w \<in> set wide_spaces. lower p = w) \<longleftrightarrow> (\<exists>w \<in> set wide_spaces. p = w)"
    using lower_wide by (intro bex_cong) simp_all
  then have "lower p \<in> set wide_spaces \<longleftrightarrow> p \<in> set wide_spaces" by simp
  moreover have "(of_char (lower_char c) :: nat) \<in> {9, 10, 11, 12, 13, 32} \<longleftrightarrow> (of_char c :: nat) \<in> {9, 10, 11, 12, 13, 32}" for c
    by (auto simp: lower_char_code)
  ultimately show ?thesis
  proof (cases p)
    case (Cons c cs)
    then show ?thesis using \<open>lower p \<in> set wide_spaces \<longleftrightarrow> p \<in> set wide_spaces\<close>
      \<open>\<And>c. (of_char (lower_char c) :: nat) \<in> {9, 10, 11, 12, 13, 32} \<longleftrightarrow> (of_char c :: nat) \<in> {9, 10, 11, 12, 13, 32}\<close>
      by (cases cs) (simp_all add: is_space_def)
  qed (simp add: is_space_def)
qed

lemma trim_lower: "js_trim (lower s) = lower (js_trim s)"
proof -
  have dw: "dropWhile is_space (map lower ps) = map lower (dropWhile is_space ps)" for ps
    by (simp add: dropWhile_map comp_def is_space_lower)
  show ?thesis by (simp add: js_trim_def points_lower dw rev_map map_concat)
qed

end
