(* ===== verification/TaskStoreFacts.thy ===== *)
theory TaskStoreFacts
  imports TaskStore TextFacts
begin

text \<open>
  What the task store promises: nothing secret is persisted, owners are written once, a store never
  touches another agent's rows, only the latest dispatch of a task writes it and a cancelled task
  stays cancelled, pages cover a listing, and retention deletes nothing but old finished tasks.
\<close>

subsection \<open>Steps of the table\<close>

text \<open>Every operation that writes, by a store configured as \<open>cfg\<close>. A task is created under a fresh id; a
  revocation marks the rows of a caller.\<close>

inductive store_step :: "store_cfg \<Rightarrow> table \<Rightarrow> table \<Rightarrow> bool" where
  Create: "map_of db taskId = None \<Longrightarrow> createTask cfg now taskId uuid contextId md db = (t, db') \<Longrightarrow> store_step cfg db db'"
| Update: "updateTask cfg collate now w taskId u db = Inr (t, db') \<Longrightarrow> store_step cfg db db'"
| Mark: "markExecution cfg now uuid taskId executionId arts w db = Inr (w', db') \<Longrightarrow> store_step cfg db db'"
| Delete: "store_step cfg db (deleteTask cfg taskId db)"

definition clean_metadata :: "obj option \<Rightarrow> bool" where
  "clean_metadata md \<longleftrightarrow> list_all (\<lambda>(k, v). k \<notin> set secret_keys) (get_or md [])"

definition clean_message :: "message \<Rightarrow> bool" where
  "clean_message m \<longleftrightarrow> clean_metadata (m_metadata m)"

definition clean_task :: "task \<Rightarrow> bool" where
  "clean_task t \<longleftrightarrow> clean_metadata (t_metadata t) \<and> list_all clean_message (get_or (t_history t) []) \<and>
     (case st_message (t_status t) of None \<Rightarrow> True | Some m \<Rightarrow> clean_message m)"

definition row_ok :: "string \<Rightarrow> row \<Rightarrow> bool" where
  "row_ok k r \<longleftrightarrow> t_id (rw_task r) = k \<and> clean_task (rw_task r) \<and> rw_state r = st_state (t_status (rw_task r))"

definition table_ok :: "table \<Rightarrow> bool" where
  "table_ok db \<longleftrightarrow> distinct (map_keys db) \<and> (\<forall>k r. map_of db k = Some r \<longrightarrow> row_ok k r)"

subsection \<open>Stripping\<close>

lemma clean_without [simp]: "clean_metadata (without_secrets md)"
  by (simp add: clean_metadata_def without_secrets_def Let_def list_all_iff)

lemma clean_none: "clean_metadata None"
  by (simp add: clean_metadata_def)

lemma clean_stripped_message [simp]: "clean_message (stripMessageMetadata m)"
  by (simp add: clean_message_def stripMessageMetadata_def)

lemma envelope_keeps [simp]:
  "t_id (stripPersistedEnvelope t) = t_id t" "t_status (stripPersistedEnvelope t) = t_status t"
  by (simp_all add: stripPersistedEnvelope_def Let_def split: option.split json.split)

lemma stripped_keeps [simp]:
  "t_id (stripSensitiveMetadata b t) = t_id t"
  "st_state (t_status (stripSensitiveMetadata b t)) = st_state (t_status t)"
  by (simp_all add: stripSensitiveMetadata_def Let_def)

lemma stripped_clean [simp]: "clean_task (stripSensitiveMetadata b t)"
proof -
  have "clean_metadata (stripTaskMetadata md)" for md
    by (cases md) (simp_all add: stripTaskMetadata_def clean_none)
  moreover have "list_all clean_message (get_or (map_option (map stripMessageMetadata) h) [])" for h
    by (cases h) (simp_all add: list_all_iff)
  ultimately show ?thesis
    by (simp add: clean_task_def stripSensitiveMetadata_def Let_def split: option.split)
qed

lemma normalized_keeps [simp]:
  "t_id (normalizeTaskParts t) = t_id t" "st_state (t_status (normalizeTaskParts t)) = st_state (t_status t)"
  "t_metadata (normalizeTaskParts t) = t_metadata t" "t_contextId (normalizeTaskParts t) = t_contextId t"
  by (simp_all add: normalizeTaskParts_def)

lemma merged_keeps [simp]:
  "t_id (merge_update u w t) = t_id t" "t_contextId (merge_update u w t) = t_contextId t"
  by (simp_all add: merge_update_def Let_def split: option.split)

subsection \<open>One row\<close>

lemma map_of_filter_row:
  "distinct (map_keys db) \<Longrightarrow>
   map_of (filter (\<lambda>(k, r). P k r) db) k = (case map_of db k of None \<Rightarrow> None | Some r \<Rightarrow> if P k r then Some r else None)"
proof (induction db)
  case (Cons kr db)
  obtain k' r where kr: "kr = (k', r)" by (cases kr)
  show ?case
  proof (cases "k' = k")
    case True
    then have none: "map_of db k = None" using Cons.prems kr by (simp add: map_of_eq_None_iff)
    then have "map_of (filter (\<lambda>(k, r). P k r) db) k = None" using Cons kr by simp
    then show ?thesis using True kr by simp
  qed (use Cons kr in simp)
qed simp

lemma find_row_Some: "find_row cfg k db = Some r \<longleftrightarrow> map_of db k = Some r \<and> row_visible cfg r"
  by (cases "map_of db k") (auto simp: find_row_def)

lemma find_row_None: "find_row cfg k db = None \<longleftrightarrow> (\<forall>r. map_of db k = Some r \<longrightarrow> \<not> row_visible cfg r)"
  by (cases "map_of db k") (auto simp: find_row_def)

text \<open>What a write does to the row of its task: nothing when the row is another agent's, else the columns of
  the owner keep what they had.\<close>

definition owners_kept :: "row \<Rightarrow> row \<Rightarrow> bool" where
  "owners_kept old r \<longleftrightarrow> rw_owner_agent r = rw_owner_agent old \<and>
     (rw_owner_principal old \<noteq> None \<longrightarrow> rw_owner_principal r = rw_owner_principal old) \<and>
     (rw_owner_actor old \<noteq> None \<longrightarrow> rw_owner_actor r = rw_owner_actor old) \<and>
     (rw_profile old \<noteq> None \<longrightarrow> rw_profile r = rw_profile old) \<and> (rw_key old \<noteq> None \<longrightarrow> rw_key r = rw_key old) \<and>
     rw_revoked r = rw_revoked old \<and> rw_created r = rw_created old \<and> rw_dispatch r = rw_dispatch old"

lemma coalesce_kept: "x \<noteq> None \<longrightarrow> coalesce x y = x"
  by (cases x) simp_all

lemma writeTask_cases:
  obtains (foreign) old where "map_of db (t_id t) = Some old" "\<not> row_visible cfg old" "writeTask cfg now t ib db = db"
  | (written) r where "writeTask cfg now t ib db = map_set (t_id t) r db"
      "rw_task r = stripSensitiveMetadata (sg_keepEnvelope cfg) t" "rw_state r = st_state (t_status t)"
      "map_of db (t_id t) = None \<Longrightarrow> rw_owner_agent r = sg_ownerAgent cfg"
      "\<And>old. map_of db (t_id t) = Some old \<Longrightarrow> row_visible cfg old \<and> owners_kept old r"
proof (cases "map_of db (t_id t)")
  case None
  show ?thesis by (rule written, simp only: writeTask_def Let_def None option.case, simp_all add: None)
next
  case (Some old)
  show ?thesis
  proof (cases "row_visible cfg old")
    case True
    show ?thesis
      by (rule written, simp only: writeTask_def Let_def Some option.case True if_True)
        (simp_all add: Some True owners_kept_def coalesce_kept)
  next
    case False
    then show ?thesis using Some by (intro foreign) (simp_all add: writeTask_def Let_def)
  qed
qed

lemma writeTask_other: "k \<noteq> t_id t \<Longrightarrow> map_of (writeTask cfg now t ib db) k = map_of db k"
  by (rule writeTask_cases [of db t cfg now ib]) simp_all

lemma writeTask_row:
  assumes "map_of (writeTask cfg now t ib db) (t_id t) = Some r"
  shows "map_of db (t_id t) = Some r \<or>
    rw_task r = stripSensitiveMetadata (sg_keepEnvelope cfg) t \<and> rw_state r = st_state (t_status t)"
  by (rule writeTask_cases [of db t cfg now ib]) (use assms in simp_all)

lemma writeTask_keys: "distinct (map_keys db) \<Longrightarrow> distinct (map_keys (writeTask cfg now t ib db))"
  by (rule writeTask_cases [of db t cfg now ib]) simp_all

lemma writeTask_ok: "table_ok db \<Longrightarrow> table_ok (writeTask cfg now t ib db)"
  unfolding table_ok_def
proof (intro conjI allI impI)
  fix k r assume db: "distinct (map_keys db) \<and> (\<forall>k r. map_of db k = Some r \<longrightarrow> row_ok k r)"
    and m: "map_of (writeTask cfg now t ib db) k = Some r"
  show "row_ok k r"
  proof (cases "k = t_id t")
    case True
    with writeTask_row [of cfg now t ib db r] m db show ?thesis by (auto simp: row_ok_def)
  qed (use m db writeTask_other in auto)
qed (use writeTask_keys in blast)

lemma table_ok_filter: "table_ok db \<Longrightarrow> table_ok (filter (\<lambda>(k, r). P k r) db)"
  unfolding table_ok_def by (auto simp: map_of_filter_row split: option.splits if_splits)

lemma retention_filter:
  "\<exists>gone. enforceRetention cfg collate t db = filter (\<lambda>(k, r). k \<notin> gone) db \<and>
    (\<forall>k \<in> gone. \<exists>r. (k, r) \<in> set db \<and> row_visible cfg r \<and> terminal_state (rw_state r))"
proof (cases "extractOwnerPrincipal t")
  case (Some owner)
  define mine where "mine = filter (\<lambda>(k, r). row_visible cfg r \<and> rw_context r = get_or (t_contextId t) (t_id t) \<and>
    rw_owner_principal r = Some owner \<and> terminal_state (rw_state r)) db"
  define gone where "gone = (if owner = [] \<or> \<not> terminal_state (st_state (t_status t)) then {}
    else fst ` set (drop MAX_CONTEXT_TASKS (newest_first collate mine)))"
  have "enforceRetention cfg collate t db = filter (\<lambda>(k, r). k \<notin> gone) db"
    unfolding gone_def enforceRetention_def mine_def using Some by (cases "owner = [] \<or> \<not> terminal_state (st_state (t_status t))") (simp_all add: Let_def)
  moreover have sub: "set (drop MAX_CONTEXT_TASKS (newest_first collate mine)) \<subseteq> set mine"
    using set_drop_subset [of MAX_CONTEXT_TASKS "newest_first collate mine"] by (simp add: newest_first_def)
  moreover have "\<exists>r. (k, r) \<in> set db \<and> row_visible cfg r \<and> terminal_state (rw_state r)" if "k \<in> gone" for k
  proof -
    from that have "k \<in> fst ` set (drop MAX_CONTEXT_TASKS (newest_first collate mine))"
      unfolding gone_def by (cases "owner = [] \<or> \<not> terminal_state (st_state (t_status t))") simp_all
    then have "k \<in> fst ` set mine" using sub by blast
    then obtain r where "(k, r) \<in> set mine" by force
    then show ?thesis unfolding mine_def by (intro exI [of _ r]) simp
  qed
  ultimately show ?thesis by blast
qed (intro exI [of _ "{}"], simp add: enforceRetention_def)

subsection \<open>Updates\<close>

text \<open>When a write is not stale.\<close>

definition may_write :: "writer option \<Rightarrow> row \<Rightarrow> bool" where
  "may_write w r \<longleftrightarrow>
     (case w of
        None \<Rightarrow> True
      | Some x \<Rightarrow>
          \<not> ew_message x \<or>
          st_state (t_status (rw_task r)) \<noteq> CANCELED \<and>
            (if ew_marked x then ew_dispatchId x \<noteq> None \<and> ew_dispatchId x = rw_dispatch r else rw_dispatch r = None))"

lemma updateTask_cases:
  assumes "updateTask cfg collate now w taskId u db = Inr (t, db')"
  obtains (skipped) "db' = db"
  | (written) r where "find_row cfg taskId db = Some r" "may_write w r" "t_id t = t_id (rw_task r)"
      "db' = enforceRetention cfg collate t (writeTask cfg now t None db)"
proof -
  obtain r where r: "find_row cfg taskId db = Some r"
    using assms by (cases "find_row cfg taskId db") (simp_all add: updateTask_def lockTask_def)
  define e where "e = normalizeTaskParts (rw_task r)"
  define next_task where "next_task = merge_update u w e"
  have lock: "lockTask cfg taskId db = Some (e, rw_dispatch r)" by (simp add: lockTask_def r e_def)
  have id: "t_id next_task = t_id (rw_task r)" by (simp add: next_task_def e_def)
  show ?thesis
  proof (cases "keeps_cancel w e (rw_dispatch r)")
    case True
    then show ?thesis using assms by (intro skipped) (simp add: updateTask_def lock)
  next
    case keep: False
    show ?thesis
    proof (cases "stale_write w (rw_dispatch r)")
      case None
      define k where "k = next_task\<lparr>t_metadata := withExecutionMarker (t_metadata next_task) (executionMarker (t_metadata e))\<rparr>"
      have "updateTask cfg collate now w taskId u db = Inr (k, enforceRetention cfg collate k (writeTask cfg now k None db))"
        unfolding k_def next_task_def by (simp only: updateTask_def lock keep None Let_def option.case prod.case if_False)
      then have "Inr (k, enforceRetention cfg collate k (writeTask cfg now k None db)) = (Inr (t, db') :: string + task \<times> table)"
        using assms by (rule subst)
      then have t: "t = k" and db': "db' = enforceRetention cfg collate k (writeTask cfg now k None db)" by blast+
      have "may_write w r"
      proof (cases w)
        case (Some x)
        have c: "st_state (t_status (rw_task r)) = st_state (t_status e)" by (simp add: e_def)
        show ?thesis
          using keep None unfolding may_write_def stale_write_def keeps_cancel_def Some same_dispatch_def c
          by (cases "ew_message x"; cases "ew_marked x"; cases "rw_dispatch r") (auto split: if_splits)
      qed (simp add: may_write_def)
      then show ?thesis using r id t db' by (intro written [of r]) (simp_all add: k_def)
    next
      case (Some reason)
      then show ?thesis using assms by (intro skipped) (simp add: updateTask_def lock keep Let_def)
    qed
  qed
qed

lemma retained_row:
  assumes "distinct (map_keys db)" "map_of (enforceRetention cfg collate t db) k = Some r"
  shows "map_of db k = Some r"
proof -
  obtain gone where g: "enforceRetention cfg collate t db = filter (\<lambda>(k, r). k \<notin> gone) db" using retention_filter by blast
  show ?thesis using assms(2) unfolding g map_of_filter_row [OF assms(1)]
    by (cases "map_of db k") (simp_all split: if_splits)
qed

lemma table_ok_retention: "table_ok db \<Longrightarrow> table_ok (enforceRetention cfg collate t db)"
  using retention_filter [of cfg collate t db] table_ok_filter [of db "\<lambda>k r. k \<notin> gone" for gone] by force

lemma table_okD: "table_ok db \<Longrightarrow> find_row cfg k db = Some r \<Longrightarrow> t_id (rw_task r) = k \<and> row_visible cfg r \<and> map_of db k = Some r"
  by (simp add: table_ok_def row_ok_def find_row_Some)

lemma markExecution_cases:
  assumes "markExecution cfg now uuid taskId executionId arts w db = Inr (w', db')"
  obtains r t db1 where "find_row cfg taskId db = Some r" "t_id t = t_id (rw_task r)"
    "db1 = writeTask cfg now t None db"
    "db' = db1 \<or> (\<exists>q d. map_of db1 taskId = Some q \<and> db' = map_set taskId (q\<lparr>rw_dispatch := Some d\<rparr>) db1)"
proof -
  obtain r where r: "find_row cfg taskId db = Some r"
    using assms by (cases "find_row cfg taskId db") (simp_all add: markExecution_def lockTask_def)
  define t' where "t' = (normalizeTaskParts (rw_task r))
    \<lparr>t_artifacts := (if executionId = None then t_artifacts (normalizeTaskParts (rw_task r)) else None),
     t_status := \<lparr>st_state = WORKING, st_timestamp = Some (Iso now), st_message = None\<rparr>,
     t_metadata := withExecutionMarker (t_metadata (normalizeTaskParts (rw_task r))) executionId\<rparr>"
  define db1 where "db1 = writeTask cfg now t' None db"
  have lock: "lockTask cfg taskId db = Some (normalizeTaskParts (rw_task r), rw_dispatch r)" by (simp add: lockTask_def r)
  have "db' = (case map_of db1 taskId of None \<Rightarrow> db1
      | Some q \<Rightarrow> map_set taskId (q\<lparr>rw_dispatch := Some (get_or executionId uuid)\<rparr>) db1)"
    using assms unfolding markExecution_def lock db1_def t'_def by (simp only: option.case prod.case Let_def sum.inject prod.inject)
  then have "db' = db1 \<or> (\<exists>q d. map_of db1 taskId = Some q \<and> db' = map_set taskId (q\<lparr>rw_dispatch := Some d\<rparr>) db1)"
    by (cases "map_of db1 taskId") auto
  then show ?thesis using r db1_def by (intro that [of r t' db1]) (simp_all add: t'_def)
qed

text \<open>Whatever a step does to the table, a row that is still there afterwards is the row it was, or the row written
  by a store that may see it, with its owner.\<close>

definition same_owner :: "row \<Rightarrow> row \<Rightarrow> bool" where
  "same_owner old r \<longleftrightarrow> rw_owner_agent r = rw_owner_agent old \<and> rw_created r = rw_created old \<and>
     rw_revoked r = rw_revoked old \<and>
     (rw_owner_principal old \<noteq> None \<longrightarrow> rw_owner_principal r = rw_owner_principal old) \<and>
     (rw_owner_actor old \<noteq> None \<longrightarrow> rw_owner_actor r = rw_owner_actor old) \<and>
     (rw_profile old \<noteq> None \<longrightarrow> rw_profile r = rw_profile old) \<and> (rw_key old \<noteq> None \<longrightarrow> rw_key r = rw_key old)"

lemma owners_kept_same: "owners_kept old r \<Longrightarrow> same_owner old r" "same_owner r r"
  "same_owner old r \<Longrightarrow> same_owner old (r\<lparr>rw_dispatch := d\<rparr>)"
  by (simp_all add: owners_kept_def same_owner_def)

lemma written_row:
  assumes "map_of db k = Some old" "map_of (writeTask cfg now t ib db) k = Some r"
  shows "r = old \<or> k = t_id t \<and> row_visible cfg old \<and> owners_kept old r"
proof (cases rule: writeTask_cases [of db t cfg now ib])
  case (written q)
  then show ?thesis using assms by (cases "k = t_id t") auto
qed (use assms in simp)

lemma deleted_row: "map_of (deleteTask cfg taskId db) k = (if k = taskId \<and> find_row cfg taskId db \<noteq> None then None else map_of db k)"
  by (cases "find_row cfg taskId db") (simp_all add: deleteTask_def)

lemma step_row:
  assumes "store_step cfg db db'" "table_ok db" "map_of db k = Some old" "map_of db' k = Some r"
  shows "r = old \<or> row_visible cfg old \<and> same_owner old r"
  using assms(1)
proof cases
  case (Create taskId now uuid contextId md t)
  then have "db' = writeTask cfg now t (Some (authorizationBindingFromMetadata md)) db" "t_id t = taskId"
    by (auto simp: createTask_def Let_def)
  then show ?thesis using written_row [OF assms(3)] assms(4) Create(1) assms(3) by fastforce
next
  case (Update collate now w taskId u t)
  have ok: "distinct (map_keys (writeTask cfg now t None db))" using assms(2) writeTask_keys by (simp add: table_ok_def)
  from Update show ?thesis
  proof (cases rule: updateTask_cases)
    case (written q)
    then have "map_of (writeTask cfg now t None db) k = Some r" using retained_row [OF ok] assms(4) by blast
    then show ?thesis using written_row [OF assms(3)] owners_kept_same(1) by blast
  qed (use assms in simp)
next
  case (Mark now uuid taskId executionId arts w w')
  from Mark show ?thesis
  proof (cases rule: markExecution_cases)
    case (1 q t db1)
    have vis: "k = taskId \<Longrightarrow> row_visible cfg old" using 1(1) assms(3) by (simp add: find_row_Some)
    have "\<exists>r1. map_of db1 k = Some r1 \<and> (r = r1 \<or> k = taskId \<and> (\<exists>d. r = r1\<lparr>rw_dispatch := Some d\<rparr>))"
      using 1(4) assms(4) by (auto split: if_splits)
    then obtain r1 where r1: "map_of db1 k = Some r1" "r = r1 \<or> k = taskId \<and> (\<exists>d. r = r1\<lparr>rw_dispatch := Some d\<rparr>)" by blast
    have "r1 = old \<or> row_visible cfg old \<and> owners_kept old r1" using written_row [OF assms(3)] r1(1) 1(3) by blast
    then show ?thesis using r1(2) vis owners_kept_same by metis
  qed
next
  case (Delete taskId)
  then show ?thesis using assms by (simp add: deleted_row split: if_splits)
qed

subsection \<open>Every table\<close>

lemma step_ok:
  assumes "table_ok db" "store_step cfg db db'"
  shows "table_ok db'"
  using assms(2)
proof cases
  case (Create taskId now uuid contextId md t)
  then show ?thesis using writeTask_ok [OF assms(1)] by (auto simp: createTask_def Let_def)
next
  case (Update collate now w taskId u t)
  then show ?thesis
    by (cases rule: updateTask_cases) (use assms table_ok_retention writeTask_ok in simp_all)
next
  case (Mark now uuid taskId executionId arts w w')
  then show ?thesis
  proof (cases rule: markExecution_cases)
    case (1 r t db1)
    then have ok: "table_ok db1" using writeTask_ok [OF assms(1)] by simp
    then have "table_ok (map_set taskId (q\<lparr>rw_dispatch := d\<rparr>) db1)" if "map_of db1 taskId = Some q" for q d
      using that by (simp add: table_ok_def row_ok_def)
    then show ?thesis using 1(4) ok by blast
  qed
next
  case (Delete taskId)
  then show ?thesis using assms(1)
    by (cases "find_row cfg taskId db") (simp_all add: deleteTask_def table_ok_def distinct_delete)
qed

interpretation task_table: invariant_system "\<lambda>db. db = []" "\<lambda>db db'. \<exists>cfg. store_step cfg db db'" table_ok
proof unfold_locales
  show "table_ok db" if "db = []" for db using that by (simp add: table_ok_def)
  show "table_ok db'" if "table_ok db" "\<exists>cfg. store_step cfg db db'" for db db' using that step_ok by blast
qed

subsection \<open>Properties\<close>


text \<open>
  Rows belong to who wrote them first. An operation of a store that serves an agent leaves the rows of other
  agents as they are, and no operation of any store changes the agent, the principal, the actor, the profile or
  the key a row already names, or lifts a revocation; a row is otherwise only ever removed.
\<close>

theorem rows_keep_their_owner:
  assumes "store_step cfg db db'" "table_ok db" "map_of db k = Some old" "map_of db' k = Some r"
  shows "same_owner old r \<and> (sg_ownerAgent cfg = None \<or> rw_owner_agent old = sg_ownerAgent cfg \<or> r = old)"
  using step_row [OF assms] owners_kept_same(2) by (auto simp: row_visible_def)

text \<open>
  Claim C17. Only the current dispatch writes. When the update of a message request changes the table, its row was not
  cancelled, and the request either holds the dispatch recorded in the row, or has not dispatched and no
  request ever dispatched that task.
\<close>

theorem only_current_dispatch_writes:
  assumes "updateTask cfg collate now (Some w) taskId u db = Inr (t, db')" "ew_message w" "db' \<noteq> db"
  shows "\<exists>r. map_of db taskId = Some r \<and> row_visible cfg r \<and> st_state (t_status (rw_task r)) \<noteq> CANCELED \<and>
    (if ew_marked w then ew_dispatchId w \<noteq> None \<and> ew_dispatchId w = rw_dispatch r else rw_dispatch r = None)"
  using assms(1)
proof (cases rule: updateTask_cases)
  case (written r)
  then show ?thesis using assms(2) unfolding may_write_def find_row_Some
    by (intro exI [of _ r], cases "rw_dispatch r") auto
qed (use assms(3) in simp)

text \<open>The updates of message requests, of any store.\<close>

inductive message_update :: "table \<Rightarrow> table \<Rightarrow> bool" where
  "ew_message w \<Longrightarrow> updateTask cfg collate now (Some w) taskId u db = Inr (t, db') \<Longrightarrow> message_update db db'"

lemma update_other_row:
  assumes "updateTask cfg collate now w taskId u db = Inr (t, db')" "table_ok db" "map_of db k = Some r"
    "\<not> may_write w r \<or> k \<noteq> taskId"
  shows "map_of db' k = None \<or> map_of db' k = Some r"
  using assms(1)
proof (cases rule: updateTask_cases)
  case (written q)
  have ok: "distinct (map_keys (writeTask cfg now t None db))" using assms(2) writeTask_keys by (simp add: table_ok_def)
  have id: "t_id t = taskId" and q: "map_of db taskId = Some q" using table_okD [OF assms(2) written(1)] written(3) by simp_all
  then have "k \<noteq> taskId" using assms(3,4) written(2) by auto
  then have "map_of (writeTask cfg now t None db) k = Some r" using writeTask_other assms(3) id by simp
  then show ?thesis using retained_row [OF ok] written(4) by (metis option.exhaust option.inject)
qed (use assms(3) in simp)

lemma cancelled_row_kept:
  assumes "message_update\<^sup>*\<^sup>* db db'" "table_ok db" "map_of db k = Some r" "st_state (t_status (rw_task r)) = CANCELED"
  shows "table_ok db' \<and> (map_of db' k = None \<or> map_of db' k = Some r)"
  using assms(1)
proof (induction rule: rtranclp_induct)
  case base
  then show ?case using assms by simp
next
  case (step db1 db2)
  from step(2) obtain w cfg collate now taskId u t where
    u: "ew_message w" "updateTask cfg collate now (Some w) taskId u db1 = Inr (t, db2)" by cases blast
  have ok: "table_ok db2" using step.IH step_ok Update [OF u(2)] by blast
  have nw: "\<not> may_write (Some w) r" using u(1) assms(4) by (simp add: may_write_def)
  have "map_of db2 k = None \<or> map_of db2 k = Some r"
  proof (cases "map_of db1 k")
    case (Some r1)
    then have "r1 = r" using step.IH by simp
    then show ?thesis using update_other_row [OF u(2)] step.IH Some nw by blast
  next
    case None
    have "map_of db2 k = None"
    proof (rule ccontr)
      assume "map_of db2 k \<noteq> None"
      then obtain r2 where r2: "map_of db2 k = Some r2" by auto
      from u(2) show False
      proof (cases rule: updateTask_cases)
        case (written q)
        have ok1: "distinct (map_keys (writeTask cfg now t None db1))" using step.IH writeTask_keys by (simp add: table_ok_def)
        have "t_id t = taskId \<and> map_of db1 taskId = Some q" using table_okD [OF _ written(1)] step.IH written(3) by simp
        then have "map_of (writeTask cfg now t None db1) k = None" using writeTask_other [of k t] None by fastforce
        then show False using retained_row [OF ok1] r2 written(4) by fastforce
      qed (use None r2 in simp)
    qed
    then show ?thesis ..
  qed
  with ok show ?case ..
qed

text \<open>
  Claim C18. A cancelled task stays cancelled. Whatever updates the requests that still work on it make after
  \<open>tasks/cancel\<close> has committed, through whichever stores and in whichever order, the row is either the cancelled row
  unchanged or was removed by retention; and while it is there, a new dispatch of the task is interrupted
  with the cancelled task instead of reaching an agent.
\<close>

theorem cancelled_task_stays_cancelled:
  assumes "message_update\<^sup>*\<^sup>* db db'" "table_ok db" "map_of db k = Some r" "st_state (t_status (rw_task r)) = CANCELED"
  shows "getTask cfg k db' = None \<or>
    getTask cfg k db' = Some (normalizeTaskParts (rw_task r)) \<and>
    dispatch_guard (Stored (getTask cfg k db')) p e = Interrupted (normalizeTaskParts (rw_task r))"
proof -
  consider "map_of db' k = None" | "map_of db' k = Some r" using cancelled_row_kept [OF assms] by metis
  then show ?thesis
    by cases (cases "row_visible cfg r"; simp add: getTask_def find_row_def dispatch_guard_def assms(4) terminal_state_def)+
qed

subsection \<open>Paging\<close>

lemma trim_digits: "list_all is_digit s \<Longrightarrow> js_trim s = s"
  by (rule trim_plain) (auto simp: list_all_iff is_digit_def plain_char_def)

lemma page_offset_next: "n < 2 ^ 53 \<Longrightarrow> page_offset other (Some (string_of_nat n)) = n"
  by (simp add: page_offset_def Let_def trim_digits string_of_nat_digits)

text \<open>A client that follows \<open>nextPageToken\<close> from the page \<open>p\<close> asks for.\<close>

fun read_pages ::
    "(timestamp \<Rightarrow> int option) \<Rightarrow> (string \<Rightarrow> int) \<Rightarrow> (string \<Rightarrow> js_number) \<Rightarrow> store_cfg \<Rightarrow> table \<Rightarrow> nat \<Rightarrow>
     list_params \<Rightarrow> task list" where
  "read_pages instant collate other cfg db 0 p = []"
| "read_pages instant collate other cfg db (Suc n) p =
     (let r = listTasks instant collate other cfg p db
      in lr_tasks r @
         (if lr_nextPageToken r = [] then []
          else read_pages instant collate other cfg db n (p\<lparr>lp_pageToken := Some (lr_nextPageToken r)\<rparr>)))"

lemma matching_token [simp]: "matching_rows instant collate cfg (p\<lparr>lp_pageToken := q\<rparr>) db = matching_rows instant collate cfg p db"
proof -
  have "list_matches instant cfg (p\<lparr>lp_pageToken := q\<rparr>) = list_matches instant cfg p" by (rule ext) (simp add: list_matches_def)
  then show ?thesis by (simp add: matching_rows_def)
qed

lemma view_token [simp]: "list_view (p\<lparr>lp_pageToken := q\<rparr>) t = list_view p t"
  by (simp add: list_view_def)

lemma pages_from:
  assumes "lp_after p \<noteq> Some None" "\<not> listing_denied cfg" "page_offset other (lp_pageToken p) = off"
    and "length (matching_rows instant collate cfg p db) < 2 ^ 53" "off \<le> length (matching_rows instant collate cfg p db)"
    and "length (matching_rows instant collate cfg p db) \<le> off + n"
  shows "read_pages instant collate other cfg db (Suc n) p =
    map (\<lambda>r. list_view p (rw_task r)) (drop off (matching_rows instant collate cfg p db))"
  using assms
proof (induction n arbitrary: p off)
  case 0
  then show ?case by (simp add: listTasks_def Let_def)
next
  case (Suc n)
  define rows where "rows = matching_rows instant collate cfg p db"
  define sz where "sz = nat (page_size (lp_pageSize p))"
  have sz: "1 \<le> sz" unfolding sz_def page_size_def by linarith
  define page where "page = map (\<lambda>r. list_view p (rw_task r)) (take sz (drop off rows))"
  have list: "listTasks instant collate other cfg p db =
      \<lparr>lr_tasks = page,
       lr_nextPageToken = (if off + length page < length rows then string_of_nat (off + length page) else []),
       lr_pageSize = page_size (lp_pageSize p), lr_totalSize = length rows\<rparr>"
    using Suc.prems(1-3) by (simp add: listTasks_def Let_def rows_def page_def sz_def)
  have len: "length page = min sz (length rows - off)" by (simp add: page_def)
  show ?case
  proof (cases "off + length page < length rows")
    case True
    let ?p = "p\<lparr>lp_pageToken := Some (string_of_nat (off + length page))\<rparr>"
    have "length page = sz" using True len by linarith
    then have "length rows \<le> off + length page + n" using Suc.prems(6) sz unfolding rows_def [symmetric] by linarith
    then have "read_pages instant collate other cfg db (Suc n) ?p =
        map (\<lambda>r. list_view ?p (rw_task r)) (drop (off + length page) rows)"
      using Suc.IH [of ?p "off + length page"] Suc.prems True page_offset_next [of "off + length page" other]
      by (simp add: rows_def del: read_pages.simps)
    then have "read_pages instant collate other cfg db (Suc (Suc n)) p =
        page @ map (\<lambda>r. list_view p (rw_task r)) (drop (off + length page) rows)"
      using True by (subst read_pages.simps) (simp add: list string_of_nat_digits Let_def del: read_pages.simps)
    also have "\<dots> = map (\<lambda>r. list_view p (rw_task r)) (drop off rows)"
      using \<open>length page = sz\<close> unfolding page_def
      by (metis add.commute append_take_drop_id drop_drop length_map map_append)
    finally show ?thesis by (simp add: rows_def)
  next
    case False
    then have "take sz (drop off rows) = drop off rows" using len Suc.prems(5) unfolding rows_def [symmetric] by simp
    then show ?thesis using False by (subst read_pages.simps) (simp add: list Let_def page_def rows_def)
  qed
qed

text \<open>
  Claim C32. Pages cover a listing. Following the page tokens of a listing that may be seen, over a table that does not
  change, ends after at most one page more than there are tasks and returns every matching task exactly once, in the
  order of the listing, whatever the page size asked for.
\<close>

theorem pages_cover_listing:
  assumes "lp_after p \<noteq> Some None" "\<not> listing_denied cfg" "lp_pageToken p = None" "length db < 2 ^ 53" "length db < fuel"
  shows "read_pages instant collate other cfg db fuel p =
    map (\<lambda>r. list_view p (rw_task r)) (matching_rows instant collate cfg p db)"
proof -
  obtain n where n: "fuel = Suc n" using assms(5) by (cases fuel) simp_all
  have "length (matching_rows instant collate cfg p db) \<le> length db" by (simp add: matching_rows_def latest_first_def)
  moreover have "page_offset other None = 0" by (simp add: page_offset_def Let_def trim_digits is_digit_def nat_of_string_def)
  ultimately show ?thesis using pages_from [of p cfg other 0 instant collate db n] assms n by simp
qed

subsection \<open>Retention\<close>

lemma take_by_keys:
  "distinct (map fst xs) \<Longrightarrow> filter (\<lambda>(k, r). k \<notin> set (map fst (drop n xs))) xs = take n xs"
proof -
  assume d: "distinct (map fst xs)"
  have dd: "distinct (map fst (take n xs) @ map fst (drop n xs))" using d by (simp add: map_append [symmetric] del: map_append)
  have "filter (\<lambda>(k, r). k \<notin> set (map fst (drop n xs))) (take n xs @ drop n xs) = take n xs"
    unfolding filter_append using dd by (subst filter_True, force, subst filter_False) force+
  then show ?thesis by simp
qed

text \<open>The finished tasks of one caller in one context, as far as the store sees them.\<close>

definition finished_rows :: "store_cfg \<Rightarrow> task \<Rightarrow> string \<Rightarrow> string \<times> row \<Rightarrow> bool" where
  "finished_rows cfg t owner kr \<longleftrightarrow>
     row_visible cfg (snd kr) \<and> rw_context (snd kr) = get_or (t_contextId t) (t_id t) \<and>
     rw_owner_principal (snd kr) = Some owner \<and> terminal_state (rw_state (snd kr))"

text \<open>
  Retention keeps the ten newest. After a task with an owner has ended, the finished tasks of that caller in
  its context are the ten newest there were, or all when there were fewer, and every other row, finished or
  not, of other callers, contexts and agents, is kept in its place.
\<close>

theorem retention_keeps_newest:
  assumes "distinct (map_keys db)" "extractOwnerPrincipal t = Some owner" "owner \<noteq> []" "terminal_state (st_state (t_status t))"
  shows "newest_first collate (filter (finished_rows cfg t owner) (enforceRetention cfg collate t db)) =
      take 10 (newest_first collate (filter (finished_rows cfg t owner) db)) \<and>
    filter (\<lambda>x. \<not> finished_rows cfg t owner x) (enforceRetention cfg collate t db) =
      filter (\<lambda>x. \<not> finished_rows cfg t owner x) db"
proof -
  define F where "F = finished_rows cfg t owner"
  define L where "L = newest_first collate (filter F db)"
  define G where "G = (\<lambda>(k, r :: row). k \<notin> set (map fst (drop 10 L)))"
  have F': "(\<lambda>(k, r). row_visible cfg r \<and> rw_context r = get_or (t_contextId t) (t_id t) \<and>
      rw_owner_principal r = Some owner \<and> terminal_state (rw_state r)) = F"
    by (rule ext, unfold F_def finished_rows_def split_beta) (rule refl)
  have ret: "enforceRetention cfg collate t db = filter G db"
    unfolding enforceRetention_def assms(2) option.case Let_def F' L_def G_def MAX_CONTEXT_TASKS_def
    using assms(3,4) by (simp del: set_map)
  have dL: "distinct (map fst L)"
    using distinct_keys_filter [OF assms(1), of F] by (simp add: L_def newest_first_def distinct_map)
  have "newest_first collate (filter F (filter G db)) = filter G L"
    by (simp add: L_def newest_first_def filter_sort filter_filter conj_commute)
  then have newest: "newest_first collate (filter F (filter G db)) = take 10 L"
    unfolding G_def take_by_keys [OF dL] .
  have "x \<in> set db \<Longrightarrow> \<not> G x \<Longrightarrow> F x" for x
  proof -
    assume x: "x \<in> set db" "\<not> G x"
    from x(2) have "fst x \<in> fst ` set (drop 10 L)" unfolding G_def by (cases x) simp
    then have "fst x \<in> fst ` set L" using set_drop_subset by fastforce
    then obtain y where y: "y \<in> set (filter F db)" "fst y = fst x" by (force simp: L_def newest_first_def)
    then have "y = x" using x(1) assms(1) by (metis filter_is_subset in_mono map_of_mem prod.collapse option.inject)
    then show "F x" using y by simp
  qed
  then have "filter (\<lambda>x. \<not> F x) (filter G db) = filter (\<lambda>x. \<not> F x) db"
    unfolding filter_filter by (intro filter_cong) auto
  then show ?thesis using newest by (simp add: ret L_def F_def)
qed

end
