(* ===== verification/TaskStoreSamples.thy ===== *)
theory TaskStoreSamples
  imports TaskStoreFacts ExecutorSamples
begin

text \<open>A small table, written by the store of one agent: the witnesses of the properties of \<open>TaskStoreFacts\<close>.\<close>

definition st_cfg :: store_cfg where
  "st_cfg = \<lparr>sg_keepEnvelope = False, sg_ownerAgent = Some ''a'', sg_listAccess = None\<rparr>"

definition st_meta :: obj where
  "st_meta = [(''_bearerToken'', JStr ''s''), (''_principalId'', JStr ''p''), (''k'', JStr ''v'')]"

definition st_table :: table where
  "st_table = snd (createTask st_cfg 1 ''t'' ''c'' None (Some st_meta) [])"

definition st_row :: row where
  "st_row =
     \<lparr>rw_task = \<lparr>t_id = ''t'', t_contextId = Some ''c'',
        t_status = \<lparr>st_state = SUBMITTED, st_timestamp = Some (Iso 1), st_message = None\<rparr>,
        t_history = None, t_artifacts = None, t_metadata = Some [(''k'', JStr ''v'')]\<rparr>,
      rw_context = ''c'', rw_state = SUBMITTED, rw_owner_principal = Some ''p'', rw_owner_agent = Some ''a'',
      rw_owner_actor = None, rw_profile = None, rw_key = None, rw_dispatch = None, rw_revoked = False,
      rw_created = 1, rw_updated = 1\<rparr>"

lemma st_table_row: "st_table = [(''t'', st_row)]"
  by (simp add: st_table_def st_row_def st_cfg_def st_meta_def createTask_def writeTask_def Let_def
      authorizationBindingFromMetadata_def meta_string_def str_field_def stripTaskMetadata_def without_secrets_def secret_keys_def
      IDENTITY_VC_PRESENTED_METADATA_KEY_def withExecutionMarker_def EXECUTION_MARKER_KEY_def APPROVAL_EXTENSION_URI_def
      stripSensitiveMetadata_def stripPersistedEnvelope_def OPENAI_COMPAT_EXTENSION_URI_def
      extractOwnerPrincipal_def extractAuthorizationField_def)

lemma st_step: "store_step st_cfg [] st_table"
  by (rule Create [of "[]" "''t''" st_cfg 1 "''c''" None "Some st_meta" "fst (createTask st_cfg 1 ''t'' ''c'' None (Some st_meta) [])"])
    (simp_all add: st_table_def)

lemma st_ok: "table_ok st_table"
  using step_ok [OF _ st_step] by (simp add: table_ok_def)


text \<open>An update of a request that has not dispatched.\<close>

definition st_writer :: writer where
  "st_writer = \<lparr>ew_message = True, ew_marked = False, ew_dispatchId = None, ew_executionId = None, ew_artifacts = None\<rparr>"

definition st_update :: task_update where
  "st_update = \<lparr>tu_status = Some \<lparr>st_state = CANCELED, st_timestamp = None, st_message = None\<rparr>, tu_artifacts = None,
     tu_history = None, tu_metadata = None\<rparr>"

definition st_canceled :: row where
  "st_canceled = st_row\<lparr>rw_task := (rw_task st_row)\<lparr>t_status := \<lparr>st_state = CANCELED, st_timestamp = None, st_message = None\<rparr>\<rparr>,
     rw_state := CANCELED, rw_updated := 2\<rparr>"

lemmas st_update_defs = updateTask_def lockTask_def find_row_def row_visible_def st_row_def st_cfg_def st_writer_def
  st_update_def keeps_cancel_def stale_write_def merge_update_def Let_def normalizeTaskParts_def executionMarker_def
  withExecutionMarker_def EXECUTION_MARKER_KEY_def APPROVAL_EXTENSION_URI_def enforceRetention_def extractOwnerPrincipal_def
  extractAuthorizationField_def writeTask_def stripSensitiveMetadata_def stripPersistedEnvelope_def stripTaskMetadata_def
  OPENAI_COMPAT_EXTENSION_URI_def without_secrets_def secret_keys_def IDENTITY_VC_PRESENTED_METADATA_KEY_def same_dispatch_def

lemma st_cancel: "updateTask st_cfg collate 2 (Some st_writer) ''t'' st_update st_table = Inr (rw_task st_canceled, [(''t'', st_canceled)])"
  by (simp add: st_table_row st_canceled_def st_update_defs)

theorem only_current_dispatch_writes_witness: "rw_dispatch st_row = None \<and> st_state (t_status (rw_task st_row)) \<noteq> CANCELED"
proof -
  have "[(''t'', st_canceled)] \<noteq> st_table" by (simp add: st_table_row st_canceled_def st_row_def)
  from only_current_dispatch_writes [OF st_cancel _ this] show ?thesis by (simp add: st_writer_def st_table_row)
qed

theorem rows_keep_their_owner_witness: "same_owner st_row st_canceled"
  using rows_keep_their_owner [OF Update [OF st_cancel] st_ok, of "''t''" st_row st_canceled] by (simp add: st_table_row)

text \<open>The same update once more: the table stays.\<close>

theorem cancelled_task_stays_cancelled_witness:
  "dispatch_guard (Stored (getTask st_cfg ''t'' [(''t'', st_canceled)])) (fst (ex_prepared [] None)) start_exec =
     Interrupted (rw_task st_canceled)"
proof -
  have ok: "table_ok [(''t'', st_canceled)]" using step_ok [OF st_ok Update [OF st_cancel]] .
  have "updateTask st_cfg (\<lambda>_. 0) 3 (Some st_writer) ''t'' st_update [(''t'', st_canceled)] =
      Inr (rw_task st_canceled, [(''t'', st_canceled)])"
    by (simp add: st_canceled_def st_update_defs)
  then have "message_update\<^sup>*\<^sup>* [(''t'', st_canceled)] [(''t'', st_canceled)]"
    by (intro r_into_rtranclp message_update.intros [of st_writer]) (simp add: st_writer_def)
  from cancelled_task_stays_cancelled [OF this ok, of "''t''" st_canceled st_cfg] show ?thesis
    by (simp add: st_canceled_def st_row_def getTask_def find_row_def row_visible_def st_cfg_def normalizeTaskParts_def)
qed

text \<open>Two pages of one task each.\<close>

definition st_pages :: table where
  "st_pages = [(''t'', st_row), (''u'', st_canceled)]"

definition st_params :: list_params where
  "st_params = \<lparr>lp_pageSize = Some 1, lp_pageToken = None, lp_contextId = None, lp_status = None, lp_after = None,
     lp_historyLength = None, lp_includeArtifacts = True\<rparr>"

theorem pages_cover_listing_witness:
  "read_pages (\<lambda>_. None) (\<lambda>_. 0) (\<lambda>_. NInt 0) st_cfg st_pages 3 st_params = [rw_task st_canceled, rw_task st_row]"
proof -
  have "matching_rows (\<lambda>_. None) (\<lambda>_. 0) st_cfg st_params st_pages = [st_canceled, st_row]"
    by (simp add: matching_rows_def latest_first_def st_pages_def list_matches_def row_visible_def caller_may_list_def
        st_cfg_def st_params_def st_row_def st_canceled_def)
  then show ?thesis
    using pages_cover_listing [of st_params st_cfg st_pages 3 "\<lambda>_. None" "\<lambda>_. 0" "\<lambda>_. NInt 0"]
    by (simp add: st_params_def st_cfg_def st_pages_def listing_denied_def list_view_def normalizeTaskParts_def st_canceled_def st_row_def)
qed

text \<open>Eleven finished tasks, of which the oldest goes.\<close>

definition st_finished :: "nat \<Rightarrow> string \<times> row" where
  "st_finished n = (string_of_nat n, st_canceled\<lparr>rw_created := int n\<rparr>)"

definition st_owned :: task where
  "st_owned = (rw_task st_canceled)\<lparr>t_history := Some [(ex_message [])\<lparr>m_metadata := Some [(''_principalId'', JStr ''p'')]\<rparr>]\<rparr>"

theorem retention_keeps_newest_witness:
  "newest_first (\<lambda>_. 0) (filter (finished_rows st_cfg st_owned ''p'') (enforceRetention st_cfg (\<lambda>_. 0) st_owned (map st_finished [0..<11]))) =
     map st_finished (rev [1..<11])"
proof -
  have d: "distinct (map_keys (map st_finished [0..<11]))"
    by (simp add: distinct_map inj_on_def st_finished_def string_of_nat_inj comp_def)
  have o: "extractOwnerPrincipal st_owned = Some ''p''" "terminal_state (st_state (t_status st_owned))"
    by (simp_all add: st_owned_def ex_message_def extractOwnerPrincipal_def extractAuthorizationField_def meta_string_def str_field_def st_row_def
        st_canceled_def terminal_state_def)
  have f: "filter (finished_rows st_cfg st_owned ''p'') (map st_finished [0..<11]) = map st_finished [0..<11]"
    by (simp add: finished_rows_def st_finished_def st_owned_def st_cfg_def row_visible_def st_canceled_def st_row_def
        terminal_state_def)
  have "newest_first (\<lambda>_. 0) (map st_finished [0..<11]) = map st_finished (rev [0..<11])"
    by (simp add: newest_first_def st_finished_def upt_rec)
  then show ?thesis
    using retention_keeps_newest [OF d o(1) _ o(2), where cfg = st_cfg and collate = "\<lambda>_. 0"] f by (simp add: upt_rec)
qed

end
