(* ===== verification/Principals.thy ===== *)
theory Principals
  imports TextFacts
begin

text \<open>
  The principals of \<open>agents.allowed_callers\<close> (packages/server/src/auth/principal.ts): what an
  entry may be, its normal form, and which verified caller it admits. \<open>lower\<close> is \<open>toLowerCase\<close>
  on ASCII and keeps every other character.
\<close>

subsection \<open>Data\<close>

datatype parsed_principal =
    Eth string
  | Google_sub string
  | Google_email string
  | Google_domain string
  | Apikey string
  | Federated_tuple federated

text \<open>The \<open>tokenExchange\<close> part of a verified caller.\<close>

record exchange_grant =
  xg_tokenId :: string
  xg_profileId :: string
  xg_agentId :: string
  xg_resource :: string
  xg_actorId :: string
  xg_scopes :: "string list"
  xg_allowedCaller :: string
  xg_taskId :: "string option"
  xg_attestations :: "attestation list option"

record verified_caller =
  vc_principalId :: string
  vc_actorId :: "string option"
  vc_tokenExchange :: "exchange_grant option"
  vc_email :: "string option"
  vc_emailVerified :: bool
  vc_hostedDomain :: "string option"

subsection \<open>Formats\<close>

definition in_range :: "char \<Rightarrow> nat \<Rightarrow> nat \<Rightarrow> bool" where
  "in_range c a b \<longleftrightarrow> a \<le> of_char c \<and> of_char c \<le> b"

definition hex_digit :: "char \<Rightarrow> bool" where
  "hex_digit c \<longleftrightarrow> is_digit c \<or> in_range c 97 102 \<or> in_range c 65 70"

text \<open>\<open>/^0x[0-9a-f]{40}$/i\<close>, \<open>/^[a-z0-9-]+(?:\.[a-z0-9-]+)+$/\<close> and \<open>/^[A-Za-z0-9_-]+$/\<close>.\<close>

definition eth_address :: "string \<Rightarrow> bool" where
  "eth_address s \<longleftrightarrow> startsWith (lower s) ''0x'' \<and> length s = 42 \<and> list_all hex_digit (drop 2 s)"

definition domain_char :: "char \<Rightarrow> bool" where
  "domain_char c \<longleftrightarrow> is_digit c \<or> in_range c 97 122 \<or> c = CHR ''-''"

fun split_at :: "char \<Rightarrow> string \<Rightarrow> string list" where
  "split_at c [] = [[]]"
| "split_at c (x # xs) =
     (if x = c then [] # split_at c xs
      else (case split_at c xs of [] \<Rightarrow> [[x]] | w # ws \<Rightarrow> (x # w) # ws))"

definition domain_name :: "string \<Rightarrow> bool" where
  "domain_name s \<longleftrightarrow>
     (let labels = split_at CHR ''.'' s
      in 2 \<le> length labels \<and> list_all (\<lambda>l. l \<noteq> [] \<and> list_all domain_char l) labels)"

definition key_char :: "char \<Rightarrow> bool" where
  "key_char c \<longleftrightarrow> is_digit c \<or> in_range c 97 122 \<or> in_range c 65 90 \<or> c \<in> set ''_-''"

definition key_id :: "string \<Rightarrow> bool" where
  "key_id s \<longleftrightarrow> s \<noteq> [] \<and> list_all key_char s"

subsection \<open>Parsing\<close>

definition parse_email :: "string \<Rightarrow> parsed_principal option" where
  "parse_email email =
     (let local = takeWhile (\<lambda>c. c \<noteq> CHR ''@'') email; domain = drop (length local + 1) email
      in if email = [] \<or> CHR ''@'' \<notin> set email then None
         else if CHR ''@'' \<in> set domain then None
         else if local = [] \<or> domain = [] then None
         else Some (Google_email (lower email)))"

definition parsePrincipal :: "string \<Rightarrow> parsed_principal option" where
  "parsePrincipal s =
     (if s = [] then None
      else if startsWith s ''eth:'' then
        (if eth_address (drop 4 s) then Some (Eth (lower (drop 4 s))) else None)
      else if startsWith s ''google:sub:'' then
        (if drop 11 s = [] then None else Some (Google_sub (drop 11 s)))
      else if startsWith s ''google:email:'' then parse_email (drop 13 s)
      else if startsWith s ''google:domain:'' then
        (let domain = drop 14 s
         in if domain = [] then None
            else if domain_name (lower domain) then Some (Google_domain (lower domain)) else None)
      else if startsWith s ''apikey:'' then
        (if key_id (drop 7 s) then Some (Apikey (drop 7 s)) else None)
      else map_option Federated_tuple (parseFederatedPrincipal s))"

text \<open>The normal form of a parsed principal.\<close>

definition principal_text :: "parsed_principal \<Rightarrow> string option" where
  "principal_text p =
     (case p of
        Eth a \<Rightarrow> Some (''eth:'' @ a)
      | Google_sub s \<Rightarrow> Some (''google:sub:'' @ s)
      | Google_email e \<Rightarrow> Some (''google:email:'' @ e)
      | Google_domain d \<Rightarrow> Some (''google:domain:'' @ d)
      | Apikey k \<Rightarrow> Some (''apikey:'' @ k)
      | Federated_tuple f \<Rightarrow> formatFederatedPrincipal f)"

definition validatePrincipal :: "string \<Rightarrow> string option" where
  "validatePrincipal raw =
     (let trimmed = js_trim raw
      in if trimmed = [] then None
         else if eth_address trimmed then Some (''eth:'' @ lower trimmed)
         else Option.bind (parsePrincipal trimmed) principal_text)"

subsection \<open>Matching\<close>

definition matchPrincipal :: "string \<Rightarrow> verified_caller \<Rightarrow> bool" where
  "matchPrincipal entry caller =
     (case parsePrincipal entry of
        None \<Rightarrow> False
      | Some (Eth address) \<Rightarrow>
          startsWith (vc_principalId caller) ''eth:'' \<and> lower (drop 4 (vc_principalId caller)) = address
      | Some (Google_sub sub) \<Rightarrow> vc_principalId caller = ''google:'' @ sub
      | Some (Google_email email) \<Rightarrow>
          vc_emailVerified caller \<and>
          (case vc_email caller of None \<Rightarrow> False | Some e \<Rightarrow> e \<noteq> [] \<and> lower e = email)
      | Some (Google_domain domain) \<Rightarrow>
          vc_emailVerified caller \<and>
          ((case vc_hostedDomain caller of None \<Rightarrow> False | Some d \<Rightarrow> d \<noteq> [] \<and> lower d = domain) \<or>
           (case vc_email caller of None \<Rightarrow> False | Some e \<Rightarrow> e \<noteq> [] \<and> suffix (CHR ''@'' # domain) (lower e)))
      | Some (Apikey keyId) \<Rightarrow> vc_principalId caller = ''apikey:'' @ keyId
      | Some (Federated_tuple f) \<Rightarrow>
          (case vc_tokenExchange caller of None \<Rightarrow> False | Some g \<Rightarrow> xg_allowedCaller g = entry))"

subsection \<open>The normal form\<close>

lemma lower_hex: "list_all hex_digit s \<Longrightarrow> list_all hex_digit (lower s)"
proof (induction s)
  case (Cons c s)
  have "hex_digit (lower_char c)" if "hex_digit c"
    using that by (auto simp: hex_digit_def in_range_def is_digit_def lower_char_code)
  then show ?case using Cons by simp
qed simp

lemma eth_lower: "eth_address s \<Longrightarrow> eth_address (lower s)"
  using lower_hex [of "drop 2 s"] by (simp add: eth_address_def drop_map comp_def)

lemma eth_plain: "eth_address s \<Longrightarrow> list_all plain_char s"
proof -
  assume e: "eth_address s"
  then obtain a b r where s: "s = a # b # r" "list_all hex_digit r" by (cases s; cases "List.tl s") (auto simp: eth_address_def)
  have "lower_char a = CHR ''0''" "lower_char b = CHR ''x''" using e s by (auto simp: eth_address_def)
  then have "plain_char a" "plain_char b"
    using lower_char_code [of a] lower_char_code [of b] by (auto simp: plain_char_def split: if_splits)
  moreover have "plain_char c" if "hex_digit c" for c using that by (auto simp: hex_digit_def in_range_def is_digit_def plain_char_def)
  ultimately show ?thesis using s by (auto simp: list_all_iff)
qed

lemma key_plain: "key_id s \<Longrightarrow> list_all plain_char s"
proof -
  have "plain_char c" if "key_char c" for c using that by (auto simp: key_char_def in_range_def is_digit_def plain_char_def)
  then show "key_id s \<Longrightarrow> list_all plain_char s" by (simp add: key_id_def list_all_iff)
qed

lemma lower_email: "parse_email e = Some p \<Longrightarrow> p = Google_email (lower e) \<and> parse_email (lower e) = Some p"
proof -
  assume p: "parse_email e = Some p"
  have at: "lower_char c = CHR ''@'' \<longleftrightarrow> c = CHR ''@''" for c
  proof -
    have code: "d = CHR ''@'' \<longleftrightarrow> (of_char d :: nat) = 64" for d
      using of_char_eq_iff [of d "CHR ''@''", where 'a = nat] by simp
    show ?thesis unfolding code by (auto simp: lower_char_code)
  qed
  have tw: "takeWhile (\<lambda>c. c \<noteq> CHR ''@'') (lower e) = lower (takeWhile (\<lambda>c. c \<noteq> CHR ''@'') e)"
    by (simp add: takeWhile_map comp_def at)
  have mem: "CHR ''@'' \<in> lower_char ` S \<longleftrightarrow> CHR ''@'' \<in> S" for S
    unfolding image_iff by (metis at)
  define loc where "loc = takeWhile (\<lambda>c. c \<noteq> CHR ''@'') e"
  define dom where "dom = drop (length loc + 1) e"
  have facts: "e \<noteq> []" "CHR ''@'' \<in> set e" "CHR ''@'' \<notin> set dom" "loc \<noteq> []" "dom \<noteq> []" "p = Google_email (lower e)"
    using p unfolding parse_email_def Let_def loc_def [symmetric] dom_def [symmetric] by (simp_all split: if_splits)
  have "drop (length (lower loc) + 1) (lower e) = lower dom" by (simp add: dom_def drop_map)
  then have "parse_email (lower e) = Some p"
    using facts unfolding parse_email_def Let_def tw loc_def [symmetric] by (simp add: mem comp_def)
  then show ?thesis using facts(6) by simp
qed

lemma lower_scheme: "lower (''google:email:'' @ r) = ''google:email:'' @ lower r"
  "lower (''google:domain:'' @ r) = ''google:domain:'' @ lower r"
  by (simp_all add: lower_char_def)

lemma parsed_normal:
  assumes "parsePrincipal s = Some q" "js_trim s = s" "principal_text q = Some p"
  shows "parsePrincipal p = Some q \<and> js_trim p = p \<and> p \<noteq> [] \<and> \<not> eth_address p"
proof -
  have noeth: "\<not> eth_address (CHR ''e'' # x)" "\<not> eth_address (CHR ''g'' # x)" "\<not> eth_address (CHR ''a'' # x)"
    "\<not> eth_address (CHR ''f'' # x)" for x
    by (simp_all add: eth_address_def lower_char_def)
  show ?thesis
  proof (cases q)
    case (Eth a)
    then have a: "s = ''eth:'' @ drop 4 s" "eth_address (drop 4 s)" "a = lower (drop 4 s)"
      using assms(1) by (auto simp: parsePrincipal_def Let_def parse_email_def prefix_def split: if_splits)
    have "list_all plain_char p" using eth_plain [OF eth_lower [OF a(2)]] assms(3) Eth a(3) by (auto simp: principal_text_def plain_char_def)
    then show ?thesis using assms(3) Eth a(2,3) noeth trim_plain
      by (auto simp: principal_text_def parsePrincipal_def eth_lower)
  next
    case (Google_sub u)
    then have "s = ''google:sub:'' @ u" "u \<noteq> []"
      using assms(1) by (auto simp: parsePrincipal_def Let_def parse_email_def prefix_def split: if_splits)
    then show ?thesis using assms Google_sub noeth by (auto simp: principal_text_def)
  next
    case (Google_email e)
    then have s: "s = ''google:email:'' @ drop 13 s" "parse_email (drop 13 s) = Some q"
      using assms(1) by (auto simp: parsePrincipal_def Let_def prefix_def split: if_splits)
    have q: "q = Google_email (lower (drop 13 s))" "parse_email (lower (drop 13 s)) = Some q" using lower_email [OF s(2)] by simp_all
    have "p = ''google:email:'' @ lower (drop 13 s)" using assms(3) q(1) by (simp add: principal_text_def)
    moreover from this have p: "p = lower s" using s(1) lower_scheme(1) by metis
    ultimately have "p = ''google:email:'' @ lower (drop 13 s)" by simp
    then have "parsePrincipal p = Some q" using q(2) by (simp add: parsePrincipal_def)
    moreover have "js_trim p = p" unfolding p trim_lower assms(2) ..
    ultimately show ?thesis using noeth \<open>p = ''google:email:'' @ lower (drop 13 s)\<close> by (auto simp del: map_append)
  next
    case (Google_domain d)
    then have s: "s = ''google:domain:'' @ drop 14 s" "domain_name (lower (drop 14 s))" "d = lower (drop 14 s)" "drop 14 s \<noteq> []"
      using assms(1) by (auto simp: parsePrincipal_def Let_def parse_email_def prefix_def split: if_splits)
    have p': "p = ''google:domain:'' @ lower (drop 14 s)" using assms(3) Google_domain s(3) by (simp add: principal_text_def)
    then have p: "p = lower s" using s(1) lower_scheme(2) by metis
    from p' have "parsePrincipal p = Some q" using s(2-4) Google_domain by (simp add: parsePrincipal_def comp_def)
    moreover have "js_trim p = p" unfolding p trim_lower assms(2) ..
    ultimately show ?thesis using noeth p' by auto
  next
    case (Apikey k)
    then have s: "s = ''apikey:'' @ k" "key_id k"
      using assms(1) by (auto simp: parsePrincipal_def Let_def parse_email_def prefix_def split: if_splits)
    then show ?thesis using assms Apikey noeth by (auto simp: principal_text_def)
  next
    case (Federated_tuple f)
    then have f: "parseFederatedPrincipal s = Some f"
      using assms(1) by (auto simp: parsePrincipal_def Let_def parse_email_def split: if_splits)
    then have "p = s" using assms(3) Federated_tuple federated_parse_format by (simp add: principal_text_def)
    moreover have "prefix FEDERATED_PREFIX s" using f by (auto simp: parseFederatedPrincipal_def split: if_splits)
    ultimately show ?thesis using assms noeth by (auto simp: FEDERATED_PREFIX_def prefix_def)
  qed
qed

text \<open>What the admin tools store for an entry is parsed to the very principal that was typed, and typing the stored
  form again stores the same string: case, surrounding white space and a missing \<open>eth:\<close> never make two entries for
  one caller, or one that admits nobody.\<close>

lemma validated_canonical:
  assumes "validatePrincipal raw = Some p"
  shows "validatePrincipal p = Some p \<and>
    parsePrincipal p = (if eth_address (js_trim raw) then Some (Eth (lower (js_trim raw))) else parsePrincipal (js_trim raw)) \<and>
    parsePrincipal p \<noteq> None"
proof (cases "eth_address (js_trim raw)")
  case True
  then have p: "p = ''eth:'' @ lower (js_trim raw)" using assms by (simp add: validatePrincipal_def Let_def split: if_splits)
  have "list_all plain_char p" using eth_plain [OF eth_lower [OF True]] by (simp add: p plain_char_def)
  then have "js_trim p = p" by (rule trim_plain)
  moreover have "parsePrincipal p = Some (Eth (lower (js_trim raw)))"
    using eth_lower [OF True] by (simp add: p parsePrincipal_def comp_def)
  moreover have "\<not> eth_address p" by (simp add: p eth_address_def lower_char_def)
  ultimately show ?thesis using True by (simp add: validatePrincipal_def Let_def principal_text_def p)
next
  case False
  then obtain q where q: "parsePrincipal (js_trim raw) = Some q" "principal_text q = Some p"
    using assms by (auto simp: validatePrincipal_def Let_def bind_eq_Some_conv split: if_splits)
  from parsed_normal [OF q(1) js_trim_idem q(2)]
  show ?thesis using q False by (simp add: validatePrincipal_def Let_def)
qed

end
