(* ===== verification/Tokens.thy ===== *)
theory Tokens
  imports Principals
begin

text \<open>
  Session tokens (packages/server/src/auth/caller-token.ts): opaque bearers of two audiences, stored by their
  hash, verified through a cache of at most a minute. \<open>sha\<close> is the hash; ids and the random part of a
  token are arguments; a query that throws answers \<open>online = False\<close>.
\<close>

subsection \<open>Data\<close>

definition CALLER_TOKEN_PREFIX :: string where "CALLER_TOKEN_PREFIX = ''vbc_caller_''"
definition OWNER_SESSION_PREFIX :: string where "OWNER_SESSION_PREFIX = ''vbc_owner_''"

datatype audience = Caller_audience | Owner_session

definition audience_text :: "audience \<Rightarrow> string" where
  "audience_text a = (case a of Caller_audience \<Rightarrow> ''caller'' | Owner_session \<Rightarrow> ''owner_session'')"

text \<open>A row of \<open>callers\<close>, filed under its token hash.\<close>

record caller_row =
  cw_id :: string
  cw_principal :: string
  cw_provider :: string
  cw_audience :: string
  cw_email :: "string option"
  cw_label :: "string option"
  cw_expires :: int
  cw_revoked :: bool
  cw_created :: int

type_synonym caller_table = "(string, caller_row) jsmap"

record cache_entry =
  ce_caller :: verified_caller
  ce_audience :: audience
  ce_expiresAt :: int

record verifier =
  vf_cache :: "(string, cache_entry) jsmap"
  vf_lastEvict :: int

definition CACHE_EVICT_INTERVAL_MS :: int where "CACHE_EVICT_INTERVAL_MS = 60000"
definition VERIFY_CACHE_MAX_ENTRIES :: nat where "VERIFY_CACHE_MAX_ENTRIES = 10000"
definition CACHE_MAX_ENTRY_TTL_MS :: int where "CACHE_MAX_ENTRY_TTL_MS = 60000"
definition DEFAULT_TTL_MS :: int where "DEFAULT_TTL_MS = 90 * 24 * 60 * 60 * 1000"

definition new_verifier :: "int \<Rightarrow> verifier" where
  "new_verifier now = \<lparr>vf_cache = [], vf_lastEvict = now\<rparr>"

subsection \<open>Tokens\<close>

definition prefixFor :: "audience \<Rightarrow> string" where
  "prefixFor a = (case a of Caller_audience \<Rightarrow> CALLER_TOKEN_PREFIX | Owner_session \<Rightarrow> OWNER_SESSION_PREFIX)"

definition audienceFromRaw :: "string \<Rightarrow> audience option" where
  "audienceFromRaw raw =
     (if startsWith raw CALLER_TOKEN_PREFIX then Some Caller_audience
      else if startsWith raw OWNER_SESSION_PREFIX then Some Owner_session else None)"

definition generateSessionToken :: "audience \<Rightarrow> string \<Rightarrow> string" where
  "generateSessionToken a random = prefixFor a @ random"

record issue_input =
  is_principalId :: string
  is_provider :: string
  is_audience :: audience
  is_email :: "string option"
  is_label :: "string option"
  is_ttlMs :: "int option"

text \<open>\<open>None\<close> when the unique hash is taken, so that the insertion throws.\<close>

definition issueSessionToken ::
    "(string \<Rightarrow> string) \<Rightarrow> int \<Rightarrow> string \<Rightarrow> string \<Rightarrow> issue_input \<Rightarrow> caller_table \<Rightarrow> (string \<times> caller_table) option" where
  "issueSessionToken sha now ident random input db =
     (let raw = generateSessionToken (is_audience input) random;
          r = \<lparr>cw_id = ident, cw_principal = is_principalId input, cw_provider = is_provider input,
               cw_audience = audience_text (is_audience input), cw_email = is_email input, cw_label = is_label input,
               cw_expires = now + get_or (is_ttlMs input) DEFAULT_TTL_MS, cw_revoked = False, cw_created = now\<rparr>
      in if map_has db (sha raw) then None else Some (raw, map_set (sha raw) r db))"

subsection \<open>Verification\<close>

definition evictExpired :: "int \<Rightarrow> verifier \<Rightarrow> verifier" where
  "evictExpired now v =
     (if now - vf_lastEvict v < CACHE_EVICT_INTERVAL_MS \<and> length (vf_cache v) \<le> VERIFY_CACHE_MAX_ENTRIES then v
      else (let kept = filter (\<lambda>(k, e). \<not> ce_expiresAt e \<le> now) (vf_cache v)
            in \<lparr>vf_cache = drop (length kept - VERIFY_CACHE_MAX_ENTRIES) kept, vf_lastEvict = now\<rparr>))"

definition mismatch :: "audience \<Rightarrow> audience \<Rightarrow> string" where
  "mismatch expected got =
     ''Token audience mismatch: this endpoint expects '' @ prefixFor expected @ ''* but got '' @ prefixFor got @ ''*''"

definition row_caller :: "caller_row \<Rightarrow> verified_caller" where
  "row_caller r =
     \<lparr>vc_principalId = cw_principal r, vc_actorId = None, vc_tokenExchange = None, vc_email = cw_email r,
      vc_emailVerified = (get_or (cw_email r) [] \<noteq> []), vc_hostedDomain = None\<rparr>"

definition verify_row :: "int \<Rightarrow> audience \<Rightarrow> caller_row option \<Rightarrow> string + caller_row" where
  "verify_row now aud row =
     (case row of
        None \<Rightarrow> Inl ''Session token not found''
      | Some r \<Rightarrow>
          if cw_revoked r then Inl ''Session token revoked''
          else if cw_expires r \<le> now then Inl ''Session token expired''
          else if cw_audience r \<noteq> audience_text aud then Inl ''Session token audience corruption''
          else Inr r)"

definition verify_uncached ::
    "(string \<Rightarrow> string) \<Rightarrow> bool \<Rightarrow> int \<Rightarrow> string \<Rightarrow> audience \<Rightarrow> caller_table \<Rightarrow> verifier \<Rightarrow>
     (string + verified_caller) \<times> verifier" where
  "verify_uncached sha online now raw aud db v =
     (if \<not> online then (Inl ''query failed'', v)
      else (case verify_row now aud (map_of db (sha raw)) of
              Inl err \<Rightarrow> (Inl err, v)
            | Inr r \<Rightarrow>
                (Inr (row_caller r),
                 v\<lparr>vf_cache := map_set raw \<lparr>ce_caller = row_caller r, ce_audience = aud,
                     ce_expiresAt = min (cw_expires r) (now + CACHE_MAX_ENTRY_TTL_MS)\<rparr> (vf_cache v)\<rparr>)))"

definition verifySessionToken ::
    "(string \<Rightarrow> string) \<Rightarrow> bool \<Rightarrow> int \<Rightarrow> string \<Rightarrow> audience option \<Rightarrow> caller_table \<Rightarrow> verifier \<Rightarrow>
     (string + verified_caller) \<times> verifier" where
  "verifySessionToken sha online now raw expected db v =
     (case audienceFromRaw raw of
        None \<Rightarrow> (Inl ''Invalid session token format'', v)
      | Some aud \<Rightarrow>
          if expected \<noteq> None \<and> expected \<noteq> Some aud then (Inl (mismatch (get_or expected aud) aud), v)
          else
            (let v1 = evictExpired now v
             in case map_of (vf_cache v1) raw of
                  None \<Rightarrow> verify_uncached sha online now raw aud db v1
                | Some e \<Rightarrow>
                    if \<not> now < ce_expiresAt e then verify_uncached sha online now raw aud db v1
                    else if expected \<noteq> None \<and> expected \<noteq> Some (ce_audience e)
                    then (Inl (''Token audience mismatch: cached audience '' @ audience_text (ce_audience e) @
                            '' does not satisfy '' @ audience_text (get_or expected aud)), v1)
                    else (Inr (ce_caller e), v1)))"

abbreviation verifyCallerToken where
  "verifyCallerToken sha online now raw \<equiv> verifySessionToken sha online now raw (Some Caller_audience)"

subsection \<open>Revocation and listing\<close>

definition revokeCallerToken :: "string \<Rightarrow> caller_table \<Rightarrow> caller_table" where
  "revokeCallerToken callerId db = map (\<lambda>(k, r). (k, if cw_id r = callerId then r\<lparr>cw_revoked := True\<rparr> else r)) db"

definition revokeSessionTokenByRaw :: "(string \<Rightarrow> string) \<Rightarrow> string \<Rightarrow> caller_table \<Rightarrow> bool \<times> caller_table" where
  "revokeSessionTokenByRaw sha raw db =
     (if audienceFromRaw raw = None then (False, db)
      else (case map_of db (sha raw) of
              None \<Rightarrow> (False, db)
            | Some r \<Rightarrow> if cw_revoked r then (False, db) else (True, map_set (sha raw) (r\<lparr>cw_revoked := True\<rparr>) db)))"

record token_filter =
  tf_principalId :: "string option"
  tf_email :: "string option"
  tf_audience :: "audience option"
  tf_includeRevoked :: bool

definition listCallerTokens :: "token_filter \<Rightarrow> caller_table \<Rightarrow> caller_row list" where
  "listCallerTokens f db =
     sort_key (\<lambda>r. - cw_created r)
       (filter (\<lambda>r. (get_or (tf_principalId f) [] = [] \<or> Some (cw_principal r) = tf_principalId f) \<and>
                    (get_or (tf_email f) [] = [] \<or> cw_email r = tf_email f) \<and>
                    (case tf_audience f of None \<Rightarrow> True | Some a \<Rightarrow> cw_audience r = audience_text a) \<and>
                    (tf_includeRevoked f \<or> \<not> cw_revoked r)) (map_vals db))"

end
