(* ===== verification/Access.thy ===== *)
theory Access
  imports Tokens TaskStore Registry
begin

text \<open>
  Who may call an agent: the rows of \<open>agents\<close> with their \<open>allowed_callers\<close>, the operations of its owner on
  them (packages/server/src/admin-api.ts, packages/server/src/caller-policy-watch.ts), and the access tokens of the
  OAuth token exchange (packages/server/src/oauth/token-exchange/store.ts) with their replay table. The row
  policies of the database and \<open>revoke_federated_caller_authorization\<close> are those of packages/server/schema.sql.
\<close>

subsection \<open>The database\<close>

record agent_row =
  ag_client :: string
  ag_owner :: string
  ag_name :: string
  ag_callers :: "string list"
  ag_approvals :: bool
  ag_created :: int

text \<open>An access token row, filed under its hash. \<open>xr_attestation\<close> is \<open>Some None\<close> when the stored JSON
  does not parse.\<close>

record exchange_row =
  xr_id :: string
  xr_profile :: string
  xr_agent :: string
  xr_resource :: "string option"
  xr_principal :: "string option"
  xr_actor :: string
  xr_allowedCaller :: "string option"
  xr_attestation :: "attestation option option"
  xr_scopes :: "string list"
  xr_task :: "string option"
  xr_expires :: int
  xr_revoked :: bool

record db =
  db_agents :: "(string, agent_row) jsmap"
  db_callers :: caller_table
  db_exchange :: "(string, exchange_row) jsmap"
  db_replays :: "(string, int) jsmap"
  db_tasks :: table

subsection \<open>Administrators and row policies\<close>

text \<open>\<open>admins\<close> are the lower-case addresses of the environment.\<close>

definition isAdmin :: "string list \<Rightarrow> string \<Rightarrow> bool" where
  "isAdmin admins principalId \<longleftrightarrow> startsWith principalId ''eth:'' \<and> lower (drop 4 principalId) \<in> set admins"

definition row_policy :: "string list \<Rightarrow> string \<Rightarrow> agent_row \<Rightarrow> bool" where
  "row_policy admins me a \<longleftrightarrow> me \<noteq> [] \<and> (ag_owner a = me \<or> isAdmin admins me)"

definition owned_row :: "string list \<Rightarrow> string \<Rightarrow> string \<Rightarrow> db \<Rightarrow> agent_row option" where
  "owned_row admins me agentId db =
     (case map_of (db_agents db) agentId of
        None \<Rightarrow> None
      | Some a \<Rightarrow> if row_policy admins me a then Some a else None)"

definition set_callers :: "string \<Rightarrow> string list \<Rightarrow> db \<Rightarrow> db" where
  "set_callers agentId callers db =
     (case map_of (db_agents db) agentId of
        None \<Rightarrow> db
      | Some a \<Rightarrow> db\<lparr>db_agents := map_set agentId (a\<lparr>ag_callers := callers\<rparr>) (db_agents db)\<rparr>)"

subsection \<open>Access tokens\<close>

definition TOKEN_EXCHANGE_ACCESS_TOKEN_PREFIX :: string where
  "TOKEN_EXCHANGE_ACCESS_TOKEN_PREFIX = ''vbc_oauth_''"

definition replay_digest :: "(string \<Rightarrow> string) \<Rightarrow> string \<Rightarrow> string \<Rightarrow> string \<Rightarrow> string" where
  "replay_digest sha profileId issuer jti = sha (component profileId @ component issuer @ component jti)"

record replay_tuple =
  rt_issuer :: string
  rt_jti :: string
  rt_expiresAt :: int

text \<open>\<open>Inl\<close> is the index of the replayed tuple.\<close>

fun insert_replays ::
    "(string \<Rightarrow> string) \<Rightarrow> string \<Rightarrow> nat \<Rightarrow> replay_tuple list \<Rightarrow> (string, int) jsmap \<Rightarrow> nat + (string, int) jsmap" where
  "insert_replays sha profileId i [] r = Inr r"
| "insert_replays sha profileId i (t # ts) r =
     (let d = replay_digest sha profileId (rt_issuer t) (rt_jti t)
      in if map_has r d then Inl i else insert_replays sha profileId (i + 1) ts (map_set d (rt_expiresAt t) r))"

text \<open>The transaction rolls back when a tuple is a replay.\<close>

definition consumeTokenExchangeReplays ::
    "(string \<Rightarrow> string) \<Rightarrow> string \<Rightarrow> replay_tuple list \<Rightarrow> db \<Rightarrow> nat option \<times> db" where
  "consumeTokenExchangeReplays sha profileId tuples db =
     (case insert_replays sha profileId 0 tuples (db_replays db) of
        Inl i \<Rightarrow> (Some i, db)
      | Inr r \<Rightarrow> (None, db\<lparr>db_replays := r\<rparr>))"

record exchange_token =
  et_tokenId :: string
  et_profileId :: string
  et_agentId :: string
  et_resource :: string
  et_principalId :: string
  et_actorId :: string
  et_allowedCaller :: string
  et_attestation :: "attestation option"
  et_scopes :: "string list"
  et_taskId :: "string option"
  et_expiresAt :: int

text \<open>\<open>t\<close> is the input with the id the row gets. The insertion selects the agent whose policy holds the
  tuple, so that no row comes of a removed one.\<close>

definition issueTokenExchangeAccessToken ::
    "(string \<Rightarrow> string) \<Rightarrow> string \<Rightarrow> exchange_token \<Rightarrow> db \<Rightarrow> string + (string \<times> exchange_token) \<times> db" where
  "issueTokenExchangeAccessToken sha random t db =
     (let raw = TOKEN_EXCHANGE_ACCESS_TOKEN_PREFIX @ random;
          r = \<lparr>xr_id = et_tokenId t, xr_profile = et_profileId t, xr_agent = et_agentId t, xr_resource = Some (et_resource t),
               xr_principal = Some (et_principalId t), xr_actor = et_actorId t, xr_allowedCaller = Some (et_allowedCaller t),
               xr_attestation = map_option Some (et_attestation t), xr_scopes = et_scopes t, xr_task = et_taskId t,
               xr_expires = et_expiresAt t, xr_revoked = False\<rparr>
      in case map_of (db_agents db) (et_agentId t) of
           None \<Rightarrow> Inl ''Failed to persist OAuth token-exchange access token''
         | Some a \<Rightarrow>
             if et_allowedCaller t \<notin> set (ag_callers a) then Inl ''Failed to persist OAuth token-exchange access token''
             else if map_has (db_exchange db) (sha raw) then Inl ''duplicate key''
             else Inr ((raw, t), db\<lparr>db_exchange := map_set (sha raw) r (db_exchange db)\<rparr>))"

definition verifyTokenExchangeAccessToken ::
    "(string \<Rightarrow> string) \<Rightarrow> int \<Rightarrow> string \<Rightarrow> string \<Rightarrow> db \<Rightarrow> string + exchange_token" where
  "verifyTokenExchangeAccessToken sha now raw expectedAgentId db =
     (if \<not> startsWith raw TOKEN_EXCHANGE_ACCESS_TOKEN_PREFIX then Inl ''Invalid OAuth token-exchange token format''
      else
        (case map_of (db_exchange db) (sha raw) of
           None \<Rightarrow> Inl ''OAuth token-exchange token not found''
         | Some r \<Rightarrow>
             (case map_of (db_agents db) (xr_agent r) of
                None \<Rightarrow> Inl ''OAuth token-exchange token not found''
              | Some a \<Rightarrow>
                  if xr_agent r \<noteq> expectedAgentId then Inl ''OAuth token-exchange token resource mismatch''
                  else if xr_resource r = None \<or> xr_principal r = None \<or> xr_allowedCaller r = None
                  then Inl ''OAuth token-exchange token has incomplete authorization context''
                  else if xr_revoked r \<or> xr_expires r \<le> now then Inl ''OAuth token-exchange token expired or revoked''
                  else if the (xr_allowedCaller r) \<notin> set (ag_callers a)
                  then Inl ''OAuth token-exchange authorization was removed''
                  else if xr_attestation r = Some None
                  then Inl ''OAuth token-exchange token has invalid normalized context''
                  else Inr \<lparr>et_tokenId = xr_id r, et_profileId = xr_profile r, et_agentId = xr_agent r,
                            et_resource = the (xr_resource r), et_principalId = the (xr_principal r), et_actorId = xr_actor r,
                            et_allowedCaller = the (xr_allowedCaller r), et_attestation = Option.bind (xr_attestation r) id,
                            et_scopes = xr_scopes r, et_taskId = xr_task r, et_expiresAt = xr_expires r\<rparr>)))"

definition revokeTokenExchangeAccessTokenByRaw :: "(string \<Rightarrow> string) \<Rightarrow> string \<Rightarrow> db \<Rightarrow> db" where
  "revokeTokenExchangeAccessTokenByRaw sha raw db =
     (if \<not> startsWith raw TOKEN_EXCHANGE_ACCESS_TOKEN_PREFIX then db
      else (case map_of (db_exchange db) (sha raw) of
              None \<Rightarrow> db
            | Some r \<Rightarrow> db\<lparr>db_exchange := map_set (sha raw) (r\<lparr>xr_revoked := True\<rparr>) (db_exchange db)\<rparr>))"

record task_authorization =
  ta_principalId :: "string option"
  ta_actorId :: "string option"
  ta_profileId :: "string option"
  ta_authorizationKey :: "string option"
  ta_revoked :: bool

definition loadTokenExchangeTaskAuthorization :: "string \<Rightarrow> string \<Rightarrow> db \<Rightarrow> task_authorization option" where
  "loadTokenExchangeTaskAuthorization agentId taskId db =
     (case map_of (db_tasks db) taskId of
        None \<Rightarrow> None
      | Some r \<Rightarrow>
          if rw_owner_agent r \<noteq> Some agentId then None
          else Some \<lparr>ta_principalId = rw_owner_principal r, ta_actorId = rw_owner_actor r, ta_profileId = rw_profile r,
                     ta_authorizationKey = rw_key r, ta_revoked = rw_revoked r\<rparr>)"

definition isTokenExchangeAuthorizationActive :: "string \<Rightarrow> string \<Rightarrow> db \<Rightarrow> bool" where
  "isTokenExchangeAuthorizationActive agentId key db \<longleftrightarrow>
     (case map_of (db_agents db) agentId of None \<Rightarrow> False | Some a \<Rightarrow> key \<in> set (ag_callers a))"

definition agentHasTokenExchangeTaskBindings :: "string \<Rightarrow> db \<Rightarrow> bool" where
  "agentHasTokenExchangeTaskBindings agentId db \<longleftrightarrow>
     list_ex (\<lambda>(k, r). rw_owner_agent r = Some agentId \<and> rw_key r \<noteq> None) (db_tasks db)"

definition sweepExpiredTokenExchangeState :: "int \<Rightarrow> db \<Rightarrow> (nat \<times> nat) \<times> db" where
  "sweepExpiredTokenExchangeState now db =
     (let x = filter (\<lambda>(k, r). \<not> (xr_expires r \<le> now \<or> xr_revoked r)) (db_exchange db);
          p = filter (\<lambda>(k, t). \<not> t \<le> now) (db_replays db)
      in ((length (db_exchange db) - length x, length (db_replays db) - length p),
          db\<lparr>db_exchange := x, db_replays := p\<rparr>))"

subsection \<open>The owner's operations\<close>

abbreviation quoted :: "string \<Rightarrow> string" where
  "quoted s \<equiv> [CHR 0x22] @ s @ [CHR 0x22]"

text \<open>\<open>AdminApiError\<close> with its status, or another exception.\<close>

datatype admin_failure = Admin_error string nat | Threw string

record caller_mutation =
  cm_principal :: string
  cm_callers :: "string list"
  cm_message :: "string option"

definition INVALID_PRINCIPAL_MESSAGE :: string where
  "INVALID_PRINCIPAL_MESSAGE =
     ''Invalid principal format. Expected eth:0x<40 hex>, 0x<40 hex>, google:sub:<sub>, google:email:<addr>, google:domain:<d>, apikey:<id>, or a canonical federated:v1 principal.''"

definition INVALID_FEDERATED_CALLER_MESSAGE :: string where
  "INVALID_FEDERATED_CALLER_MESSAGE =
     ''Invalid federated caller. Expected an exact did:web issuer, method, and subject whose canonical encoding is at most 512 bytes.''"

definition mutation :: "string \<Rightarrow> string list \<Rightarrow> string option \<Rightarrow> caller_mutation" where
  "mutation p callers message = \<lparr>cm_principal = p, cm_callers = callers, cm_message = message\<rparr>"

text \<open>The state is the database and the registry of the instance that serves the request.\<close>

definition addCaller ::
    "string list \<Rightarrow> string \<Rightarrow> string \<Rightarrow> string \<Rightarrow> db \<times> srv \<Rightarrow> admin_failure + caller_mutation \<times> db \<times> srv" where
  "addCaller admins me agentId entry st =
     (case st of (db, s) \<Rightarrow>
        (case validatePrincipal entry of
           None \<Rightarrow> Inl (Admin_error INVALID_PRINCIPAL_MESSAGE 400)
         | Some p \<Rightarrow>
             (case owned_row admins me agentId db of
                None \<Rightarrow> Inl (Admin_error ''Agent not found or not authorized.'' 404)
              | Some a \<Rightarrow>
                  if p \<in> set (ag_callers a)
                  then Inr (mutation p (ag_callers a) (Some ''Principal already in allowed callers''), db,
                         updateAllowedCallers agentId (ag_callers a) s)
                  else (let callers = ag_callers a @ [p]
                        in Inr (mutation p callers None, set_callers agentId callers db, updateAllowedCallers agentId callers s)))))"

text \<open>What the removal of a grant takes with it: its tokens, and the authority over the tasks made under it.\<close>

definition revoke_grant :: "int \<Rightarrow> string \<Rightarrow> string \<Rightarrow> db \<Rightarrow> db" where
  "revoke_grant now agentId key db =
     db\<lparr>db_exchange := map (\<lambda>(h, r). (h,
          if xr_agent r = agentId \<and> xr_allowedCaller r = Some key then r\<lparr>xr_revoked := True\<rparr> else r)) (db_exchange db),
        db_tasks := map (\<lambda>(k, r). (k,
          if rw_owner_agent r = Some agentId \<and> rw_key r = Some key \<and> \<not> rw_revoked r
          then r\<lparr>rw_revoked := True, rw_updated := now\<rparr> else r)) (db_tasks db)\<rparr>"

text \<open>The statement of schema.sql: \<open>None\<close> is no row, and the key must be a federated one.\<close>

definition revoke_federated_caller_authorization ::
    "string list \<Rightarrow> string \<Rightarrow> int \<Rightarrow> string \<Rightarrow> string \<Rightarrow> db \<Rightarrow> admin_failure + (string list \<times> bool) option \<times> db" where
  "revoke_federated_caller_authorization admins me now agentId key db =
     (if \<not> startsWith key FEDERATED_PREFIX
      then Inl (Threw ''authorization key is not a canonical federated caller'')
      else
        (case owned_row admins me agentId db of
           None \<Rightarrow> Inr (None, db)
         | Some a \<Rightarrow>
             (let removed = key \<in> set (ag_callers a);
                  callers = (if removed then filter (\<lambda>c. c \<noteq> key) (ag_callers a) else ag_callers a);
                  db1 = (if removed then set_callers agentId callers db else db)
              in Inr (Some (callers, removed), revoke_grant now agentId key db1))))"

definition revoke_api_keys :: "string \<Rightarrow> db \<Rightarrow> db" where
  "revoke_api_keys p db =
     db\<lparr>db_callers := map (\<lambda>(h, r). (h,
          if cw_provider r = ''apikey'' \<and> cw_principal r = p then r\<lparr>cw_revoked := True\<rparr> else r)) (db_callers db)\<rparr>"

definition removeCaller ::
    "string list \<Rightarrow> string \<Rightarrow> int \<Rightarrow> string \<Rightarrow> string \<Rightarrow> db \<times> srv \<Rightarrow> admin_failure + caller_mutation \<times> db \<times> srv" where
  "removeCaller admins me now agentId entry st =
     (case st of (db, s) \<Rightarrow>
        (case validatePrincipal entry of
           None \<Rightarrow> Inl (Admin_error INVALID_PRINCIPAL_MESSAGE 400)
         | Some p \<Rightarrow>
             if startsWith p FEDERATED_PREFIX then
               (case revoke_federated_caller_authorization admins me now agentId p db of
                  Inl err \<Rightarrow> Inl err
                | Inr (None, db1) \<Rightarrow> Inl (Admin_error ''Agent not found or not authorized.'' 404)
                | Inr (Some (callers, removed), db1) \<Rightarrow>
                    Inr (mutation p callers (if removed then None else Some ''Principal not in allowed callers''), db1,
                      updateAllowedCallers agentId callers s))
             else
               (case owned_row admins me agentId db of
                  None \<Rightarrow> Inl (Admin_error ''Agent not found or not authorized.'' 404)
                | Some a \<Rightarrow>
                    if p \<notin> set (ag_callers a)
                    then Inr (mutation p (ag_callers a) (Some ''Principal not in allowed callers''), db,
                           updateAllowedCallers agentId (ag_callers a) s)
                    else
                      (let callers = filter (\<lambda>c. c \<noteq> p) (ag_callers a);
                           db1 = set_callers agentId callers db;
                           db2 = (if startsWith p ''apikey:'' then revoke_api_keys p db1 else db1)
                       in Inr (mutation p callers None, db2, updateAllowedCallers agentId callers s)))))"

definition addFederatedCaller where
  "addFederatedCaller admins me agentId input st =
     (case formatFederatedPrincipal input of
        None \<Rightarrow> Inl (Admin_error INVALID_FEDERATED_CALLER_MESSAGE 400)
      | Some p \<Rightarrow> addCaller admins me agentId p st)"

definition removeFederatedCaller where
  "removeFederatedCaller admins me now agentId input st =
     (case formatFederatedPrincipal input of
        None \<Rightarrow> Inl (Admin_error INVALID_FEDERATED_CALLER_MESSAGE 400)
      | Some p \<Rightarrow> removeCaller admins me now agentId p st)"

record caller_list =
  cl_owner :: string
  cl_callers :: "string list"
  cl_federated :: "(string \<times> federated) list"
  cl_isPublic :: bool

definition listCallers :: "string list \<Rightarrow> string \<Rightarrow> string \<Rightarrow> db \<Rightarrow> admin_failure + caller_list" where
  "listCallers admins me agentId db =
     (case owned_row admins me agentId db of
        None \<Rightarrow> Inl (Admin_error ''Agent not found.'' 404)
      | Some a \<Rightarrow> Inr \<lparr>cl_owner = ag_owner a, cl_callers = ag_callers a,
          cl_federated = concat (map (\<lambda>p. case parseFederatedPrincipal p of None \<Rightarrow> [] | Some f \<Rightarrow> [(p, f)]) (ag_callers a)),
          cl_isPublic = (ag_callers a = [])\<rparr>)"

text \<open>Another instance hears of a change and reads the row again.\<close>

definition refresh_callers :: "string \<Rightarrow> db \<times> srv \<Rightarrow> srv" where
  "refresh_callers agentId st =
     (case st of (db, s) \<Rightarrow>
        if getAgent agentId s = None then s
        else (case map_of (db_agents db) agentId of None \<Rightarrow> s | Some a \<Rightarrow> updateAllowedCallers agentId (ag_callers a) s))"

subsection \<open>API keys\<close>

definition DEFAULT_API_KEY_TTL_DAYS :: int where "DEFAULT_API_KEY_TTL_DAYS = 365"
definition MAX_API_KEY_TTL_DAYS :: int where "MAX_API_KEY_TTL_DAYS = 365 * 5"
definition MS_PER_DAY :: int where "MS_PER_DAY = 24 * 60 * 60 * 1000"

text \<open>\<open>days\<close> is \<open>ttlDays\<close>. The token and key id are random. When the second statement fails the entry is
  taken back, unless that fails too (\<open>undo = False\<close>).\<close>

record api_key =
  ak_keyId :: string
  ak_apiKey :: string
  ak_label :: "string option"
  ak_expiresAt :: int
  ak_callers :: "string list"

definition issueAgentApiKey ::
    "string list \<Rightarrow> (string \<Rightarrow> string) \<Rightarrow> string \<Rightarrow> int \<Rightarrow> string \<Rightarrow> string \<Rightarrow> string \<Rightarrow> bool \<Rightarrow> bool \<Rightarrow> string \<Rightarrow> string option \<Rightarrow>
     js_number option \<Rightarrow> db \<times> srv \<Rightarrow> (admin_failure + api_key) \<times> db \<times> srv" where
  "issueAgentApiKey admins sha me now keyId ident random online undo agentId label days st =
     (case st of (db, s) \<Rightarrow>
        (let ttl = (case days of None \<Rightarrow> Some DEFAULT_API_KEY_TTL_DAYS
                    | Some (NInt n) \<Rightarrow> if 1 \<le> n \<and> n \<le> MAX_API_KEY_TTL_DAYS then Some n else None
                    | Some _ \<Rightarrow> None);
             lab = (case label of None \<Rightarrow> None | Some l \<Rightarrow> if js_trim l = [] then None else Some (js_trim l));
             p = ''apikey:'' @ keyId
         in case ttl of
              None \<Rightarrow> (Inl (Admin_error ''ttlDays must be an integer between 1 and 1825.'' 400), st)
            | Some n \<Rightarrow>
                (case owned_row admins me agentId db of
                   None \<Rightarrow> (Inl (Admin_error ''Agent not found or not authorized.'' 404), st)
                 | Some a \<Rightarrow>
                     (let callers = ag_callers a @ [p];
                          db1 = set_callers agentId callers db;
                          input = \<lparr>is_principalId = p, is_provider = ''apikey'', is_audience = Caller_audience, is_email = None,
                                   is_label = lab, is_ttlMs = Some (n * MS_PER_DAY)\<rparr>
                      in case (if online then issueSessionToken sha now ident random input (db_callers db1) else None) of
                           Some (raw, rows) \<Rightarrow>
                             (Inr \<lparr>ak_keyId = keyId, ak_apiKey = raw, ak_label = lab, ak_expiresAt = now + n * MS_PER_DAY,
                                   ak_callers = callers\<rparr>,
                              db1\<lparr>db_callers := rows\<rparr>, updateAllowedCallers agentId callers s)
                         | None \<Rightarrow>
                             (Inl (Threw ''Failed to insert session token''),
                              if undo then set_callers agentId (filter (\<lambda>c. c \<noteq> p) callers) db1 else db1, s)))))"

subsection \<open>Requester approvals and clients\<close>

definition getRequesterApprovalPolicy :: "string list \<Rightarrow> string \<Rightarrow> string \<Rightarrow> db \<Rightarrow> admin_failure + bool" where
  "getRequesterApprovalPolicy admins me agentId db =
     (case owned_row admins me agentId db of
        None \<Rightarrow> Inl (Admin_error ''Agent not found.'' 404) | Some a \<Rightarrow> Inr (ag_approvals a))"

definition setRequesterApprovalPolicy ::
    "string list \<Rightarrow> string \<Rightarrow> string \<Rightarrow> json \<Rightarrow> db \<Rightarrow> admin_failure + bool \<times> db" where
  "setRequesterApprovalPolicy admins me agentId body db =
     (case body of
        JObj [(k, JBool enabled)] \<Rightarrow>
          if k \<noteq> ''enabled'' then Inl (Admin_error (''Body must be {'' @ quoted ''enabled'' @ '': boolean}.'') 400)
          else (case owned_row admins me agentId db of
                  None \<Rightarrow> Inl (Admin_error ''Agent not found or not authorized.'' 404)
                | Some a \<Rightarrow> Inr (enabled, db\<lparr>db_agents := map_set agentId (a\<lparr>ag_approvals := enabled\<rparr>) (db_agents db)\<rparr>))
      | _ \<Rightarrow> Inl (Admin_error (''Body must be {'' @ quoted ''enabled'' @ '': boolean}.'') 400))"

text \<open>The agents of a client go with their access tokens.\<close>

definition delete_client_rows :: "string list \<Rightarrow> string \<Rightarrow> string \<Rightarrow> db \<Rightarrow> db" where
  "delete_client_rows admins me clientId db =
     (let gone = (\<lambda>a. ag_client a = clientId \<and> row_policy admins me a);
          kept = filter (\<lambda>(k, a). \<not> gone a) (db_agents db)
      in db\<lparr>db_agents := kept, db_exchange := filter (\<lambda>(h, r). map_has kept (xr_agent r)) (db_exchange db)\<rparr>)"

definition resolveClient :: "string list \<Rightarrow> string \<Rightarrow> string \<Rightarrow> db \<Rightarrow> admin_failure + string \<times> string" where
  "resolveClient admins me target db =
     (let mine = filter (\<lambda>(k, a). row_policy admins me a) (db_agents db);
          byId = filter (\<lambda>(k, a). ag_client a = target \<or> k = target) mine;
          byName = filter (\<lambda>(k, a). ag_name a = target) mine
      in case byId of
           [(k, a)] \<Rightarrow> Inr (ag_client a, ag_name a)
         | _ \<Rightarrow>
             (case byName of
                [] \<Rightarrow> Inl (Admin_error (''No client found matching '' @ quoted target @ ''.'') 404)
              | [(k, a)] \<Rightarrow> Inr (ag_client a, ag_name a)
              | _ \<Rightarrow>
                  Inl (Admin_error (''Ambiguous client name '' @ quoted target @ '' matches multiple clients ('' @
                    joined '', '' (map (\<lambda>(k, a). ag_client a) byName) @ ''). Specify client_id instead.'') 409)))"

definition deleteClientForOwner ::
    "string list \<Rightarrow> string \<Rightarrow> string \<Rightarrow> db \<times> srv \<Rightarrow> admin_failure + (string \<times> nat) \<times> db \<times> srv" where
  "deleteClientForOwner admins me target st =
     (case st of (db, s) \<Rightarrow>
        (case resolveClient admins me target db of
           Inl err \<Rightarrow> Inl err
         | Inr (clientId, name) \<Rightarrow>
             (case disconnectClient clientId s of (n, s1) \<Rightarrow>
                Inr ((clientId, n), delete_client_rows admins me clientId db, s1))))"

text \<open>What the admin agent lists: connected agents of the owner, or all for an administrator.\<close>

definition listActiveAgents :: "string list \<Rightarrow> string \<Rightarrow> db \<times> srv \<Rightarrow> connection list" where
  "listActiveAgents admins me st =
     (case st of (db, s) \<Rightarrow>
        filter (\<lambda>c. isAdmin admins me \<or>
            (case map_of (db_agents db) (cn_agentId c) of None \<Rightarrow> False | Some a \<Rightarrow> ag_owner a = me)) (listAgents s))"

end
