(* ===== verification/TokenFacts.thy ===== *)
theory TokenFacts
  imports Tokens
begin

text \<open>
  What a session token proves: an accepted token stands for a row that names its caller, is of the audience
  asked for and has not expired, and a revocation takes effect within a minute although answers are cached.
\<close>

subsection \<open>Steps\<close>

text \<open>One process with its clock, the rows and its cache.\<close>

type_synonym token_state = "int \<times> caller_table \<times> verifier"

inductive token_step :: "(string \<Rightarrow> string) \<Rightarrow> token_state \<Rightarrow> token_state \<Rightarrow> bool" for sha where
  Time: "now \<le> now' \<Longrightarrow> token_step sha (now, db, v) (now', db, v)"
| Issue: "issueSessionToken sha now ident random input db = Some (raw, db') \<Longrightarrow> token_step sha (now, db, v) (now, db', v)"
| Revoke_id: "token_step sha (now, db, v) (now, revokeCallerToken callerId db, v)"
| Revoke_raw: "token_step sha (now, db, v) (now, snd (revokeSessionTokenByRaw sha raw db), v)"
| Verify: "token_step sha (now, db, v) (now, db, snd (verifySessionToken sha online now raw expected db v))"

subsection \<open>Rows\<close>

definition same_row :: "caller_row \<Rightarrow> caller_row \<Rightarrow> bool" where
  "same_row r r' \<longleftrightarrow> (\<exists>b. r' = r\<lparr>cw_revoked := b\<rparr> \<and> (cw_revoked r \<longrightarrow> b))"

lemma same_row_refl [simp]: "same_row r r"
  by (auto simp: same_row_def intro!: exI [of _ "cw_revoked r"])

lemma same_row_facts: "same_row r r' \<Longrightarrow> row_caller r' = row_caller r \<and> cw_audience r' = cw_audience r \<and>
    cw_expires r' = cw_expires r \<and> (cw_revoked r \<longrightarrow> cw_revoked r')"
  by (auto simp: same_row_def row_caller_def)

lemma same_row_revoke: "same_row r (r\<lparr>cw_revoked := True\<rparr>)"
  by (auto simp: same_row_def)

lemma map_of_map_row: "map_of (map (\<lambda>(k, r). (k, f r)) db) h = map_option f (map_of db h)"
  by (induction db) auto

lemma step_row_kept:
  assumes "token_step sha (now, db, v) (now', db', v')" "map_of db h = Some r"
  shows "\<exists>r'. map_of db' h = Some r' \<and> same_row r r'"
  using assms(1)
proof cases
  case (Issue ident random input raw)
  then show ?thesis using assms(2) by (auto simp: issueSessionToken_def Let_def split: if_splits)
next
  case (Revoke_id callerId)
  then show ?thesis using assms(2) by (auto simp: revokeCallerToken_def map_of_map_row same_row_revoke)
next
  case (Revoke_raw raw)
  then show ?thesis using assms(2)
    by (cases "map_of db (sha raw)") (auto simp: revokeSessionTokenByRaw_def same_row_revoke)
qed (use assms(2) in auto)

subsection \<open>The cache\<close>

definition entry_ok :: "(string \<Rightarrow> string) \<Rightarrow> int \<Rightarrow> caller_table \<Rightarrow> string \<Rightarrow> cache_entry \<Rightarrow> bool" where
  "entry_ok sha now db raw e \<longleftrightarrow>
     ce_expiresAt e \<le> now + CACHE_MAX_ENTRY_TTL_MS \<and> audienceFromRaw raw = Some (ce_audience e) \<and>
     (\<exists>r. map_of db (sha raw) = Some r \<and> ce_caller e = row_caller r \<and>
          cw_audience r = audience_text (ce_audience e) \<and> ce_expiresAt e \<le> cw_expires r)"

fun cache_ok :: "(string \<Rightarrow> string) \<Rightarrow> token_state \<Rightarrow> bool" where
  "cache_ok sha (now, db, v) \<longleftrightarrow> distinct (map_keys (vf_cache v)) \<and>
     (\<forall>raw e. map_of (vf_cache v) raw = Some e \<longrightarrow> entry_ok sha now db raw e)"

lemma evict_sub:
  assumes "distinct (map_keys (vf_cache v))"
  shows "distinct (map_keys (vf_cache (evictExpired now v)))"
    "map_of (vf_cache (evictExpired now v)) raw = Some e \<Longrightarrow> map_of (vf_cache v) raw = Some e"
proof -
  define kept where "kept = filter (\<lambda>(k, e). \<not> ce_expiresAt e \<le> now) (vf_cache v)"
  have dk: "distinct (map_keys kept)" unfolding kept_def using assms by (rule distinct_keys_filter)
  have dd: "distinct (map_keys (drop n kept))" for n using dk by (simp add: drop_map [symmetric])
  have sub: "map_of (drop n kept) raw = Some e \<Longrightarrow> map_of (vf_cache v) raw = Some e" for n
  proof -
    assume "map_of (drop n kept) raw = Some e"
    then have "(raw, e) \<in> set kept" using map_of_SomeD set_drop_subset by fastforce
    then show ?thesis using map_of_mem [OF assms] by (simp add: kept_def)
  qed
  show "distinct (map_keys (vf_cache (evictExpired now v)))"
    using assms dd by (simp add: evictExpired_def Let_def kept_def)
  show "map_of (vf_cache (evictExpired now v)) raw = Some e \<Longrightarrow> map_of (vf_cache v) raw = Some e"
    using sub by (auto simp: evictExpired_def Let_def kept_def split: if_splits)
qed

text \<open>The cases of a verification: refused, answered from the cache, or from the row.\<close>

lemma verify_cases:
  assumes "verifySessionToken sha online now raw expected db v = (res, v')"
  obtains (refused) "isl res" "v' = v \<or> v' = evictExpired now v"
  | (cached) e where "map_of (vf_cache (evictExpired now v)) raw = Some e" "now < ce_expiresAt e" "res = Inr (ce_caller e)"
      "v' = evictExpired now v" "expected = None \<or> expected = Some (ce_audience e)"
  | (row) aud r where "audienceFromRaw raw = Some aud" "expected = None \<or> expected = Some aud"
      "map_of db (sha raw) = Some r" "\<not> cw_revoked r" "now < cw_expires r" "cw_audience r = audience_text aud"
      "res = Inr (row_caller r)"
      "v' = (evictExpired now v)\<lparr>vf_cache := map_set raw \<lparr>ce_caller = row_caller r, ce_audience = aud,
         ce_expiresAt = min (cw_expires r) (now + CACHE_MAX_ENTRY_TTL_MS)\<rparr> (vf_cache (evictExpired now v))\<rparr>"
proof (cases "audienceFromRaw raw")
  case None
  then show ?thesis using assms by (intro refused) (auto simp: verifySessionToken_def)
next
  case (Some aud)
  define v1 where "v1 = evictExpired now v"
  show ?thesis
  proof (cases "expected = None \<or> expected = Some aud")
    case False
    then show ?thesis using assms Some by (intro refused) (auto simp: verifySessionToken_def)
  next
    case exp: True
    define hit where "hit = (case map_of (vf_cache v1) raw of None \<Rightarrow> None | Some e \<Rightarrow> if now < ce_expiresAt e then Some e else None)"
    show ?thesis
    proof (cases hit)
      case (Some e)
      then have e: "map_of (vf_cache v1) raw = Some e" "now < ce_expiresAt e"
        unfolding hit_def by (cases "map_of (vf_cache v1) raw"; simp split: if_splits)+
      show ?thesis
      proof (cases "expected = None \<or> expected = Some (ce_audience e)")
        case True
        then show ?thesis using assms exp e \<open>audienceFromRaw raw = Some aud\<close>
          by (intro cached [of e]) (auto simp: verifySessionToken_def v1_def Let_def)
      next
        case False
        then show ?thesis using assms exp e \<open>audienceFromRaw raw = Some aud\<close>
          by (intro refused) (auto simp: verifySessionToken_def v1_def Let_def split: if_splits)
      qed
    next
      case None
      have "verifySessionToken sha online now raw expected db v = verify_uncached sha online now raw aud db v1"
        using None exp \<open>audienceFromRaw raw = Some aud\<close> unfolding hit_def verifySessionToken_def v1_def Let_def
        by (cases "map_of (vf_cache (evictExpired now v)) raw") (auto split: if_splits)
      then have u: "verify_uncached sha online now raw aud db v1 = (res, v')" using assms by simp
      show ?thesis
      proof (cases "online \<and> (\<exists>r. verify_row now aud (map_of db (sha raw)) = Inr r)")
        case True
        then obtain r where r: "verify_row now aud (map_of db (sha raw)) = Inr r" by blast
        then have "map_of db (sha raw) = Some r" "\<not> cw_revoked r" "now < cw_expires r" "cw_audience r = audience_text aud"
          by (cases "map_of db (sha raw)"; auto simp: verify_row_def split: if_splits)+
        then show ?thesis using u True r exp \<open>audienceFromRaw raw = Some aud\<close>
          by (intro row [of aud r]) (auto simp: verify_uncached_def v1_def)
      next
        case False
        then have "\<not> online \<or> (\<exists>err. verify_row now aud (map_of db (sha raw)) = Inl err)" by (metis sum.exhaust)
        then show ?thesis using u by (intro refused) (auto simp: verify_uncached_def v1_def split: if_splits)
      qed
    qed
  qed
qed

lemma entry_ok_mono:
  assumes "entry_ok sha now db raw e" "now \<le> now'" "\<And>r. map_of db (sha raw) = Some r \<Longrightarrow> \<exists>r'. map_of db' (sha raw) = Some r' \<and> same_row r r'"
  shows "entry_ok sha now' db' raw e"
proof -
  obtain r where r: "map_of db (sha raw) = Some r" "ce_caller e = row_caller r" "cw_audience r = audience_text (ce_audience e)"
    "ce_expiresAt e \<le> cw_expires r" using assms(1) by (auto simp: entry_ok_def)
  obtain r' where "map_of db' (sha raw) = Some r'" "same_row r r'" using assms(3) [OF r(1)] by blast
  then show ?thesis using assms(1,2) r same_row_facts [of r r'] by (auto simp: entry_ok_def)
qed

lemma cache_step:
  assumes "cache_ok sha s" "token_step sha s t"
  shows "cache_ok sha t"
  using assms(2)
proof cases
  case (Verify now db v online raw expected)
  obtain res v' where res: "verifySessionToken sha online now raw expected db v = (res, v')" by (metis surj_pair)
  have ok: "distinct (map_keys (vf_cache v))" "\<And>raw e. map_of (vf_cache v) raw = Some e \<Longrightarrow> entry_ok sha now db raw e"
    using assms(1) Verify(1) by auto
  have ev: "cache_ok sha (now, db, evictExpired now v)" using evict_sub [OF ok(1)] ok(2) by auto
  have "cache_ok sha (now, db, v')"
    using res
  proof (cases rule: verify_cases)
    case refused
    then show ?thesis using ev assms(1) Verify(1) by blast
  next
    case cached
    then show ?thesis using ev by simp
  next
    case (row aud r)
    have "entry_ok sha now db raw \<lparr>ce_caller = row_caller r, ce_audience = aud,
        ce_expiresAt = min (cw_expires r) (now + CACHE_MAX_ENTRY_TTL_MS)\<rparr>"
      using row by (simp add: entry_ok_def)
    then show ?thesis using ev row(8) by simp
  qed
  then show ?thesis using Verify res by simp
next
  case (Time now now' db v)
  then show ?thesis using assms(1) entry_ok_mono [of sha now db _ _ now' db] same_row_refl by (simp; blast?)
next
  case (Issue now ident random input db raw db' v)
  then show ?thesis using assms(1) entry_ok_mono [of sha now db _ _ now db'] step_row_kept [of sha now db v now db' v] assms(2) by (simp; blast?)
next
  case (Revoke_id now db v callerId)
  then show ?thesis using assms(1) entry_ok_mono [of sha now db _ _ now "revokeCallerToken callerId db"]
      step_row_kept [of sha now db v now "revokeCallerToken callerId db" v] assms(2) by (simp; blast?)
next
  case (Revoke_raw now db v raw)
  then show ?thesis using assms(1) entry_ok_mono [of sha now db _ _ now "snd (revokeSessionTokenByRaw sha raw db)"]
      step_row_kept [of sha now db v now "snd (revokeSessionTokenByRaw sha raw db)" v] assms(2) by (simp; blast?)
qed

interpretation tokens: invariant_system "\<lambda>s. \<exists>now db. s = (now, db, new_verifier now)" "token_step sha" "cache_ok sha" for sha
proof unfold_locales
  show "cache_ok sha s" if "\<exists>now db. s = (now, db, new_verifier now)" for s using that by (auto simp: new_verifier_def)
  show "cache_ok sha t" if "cache_ok sha s" "token_step sha s t" for s t using that cache_step by blast
qed

subsection \<open>Properties\<close>

lemma verified_row:
  assumes "cache_ok sha (now, db, v)" "verifySessionToken sha online now raw expected db v = (Inr c, v')"
  shows "\<exists>r aud. map_of db (sha raw) = Some r \<and> c = row_caller r \<and> now < cw_expires r \<and>
    audienceFromRaw raw = Some aud \<and> cw_audience r = audience_text aud \<and> (expected = None \<or> expected = Some aud)"
  using assms(2)
proof (cases rule: verify_cases)
  case refused
  then show ?thesis by simp
next
  case (cached e)
  have "distinct (map_keys (vf_cache v))" using assms(1) by simp
  then have "entry_ok sha now db raw e" using evict_sub(2) cached(1) assms(1) by auto
  then show ?thesis using cached by (auto simp: entry_ok_def)
next
  case (row aud r)
  then show ?thesis by auto
qed

text \<open>
  An accepted session token stands for a stored one. Whatever was issued, verified and revoked before, a
  token is accepted only if a row is stored under its hash that has not expired, has the audience of the token's
  prefix and the one the endpoint asks for, and names exactly the caller that is returned, from the cache as from
  the database.
\<close>

theorem session_token_is_backed:
  assumes "(token_step sha)\<^sup>*\<^sup>* (now0, db0, new_verifier now0) (now, db, v)"
    and "verifySessionToken sha online now raw expected db v = (Inr c, v')"
  shows "\<exists>r aud. map_of db (sha raw) = Some r \<and> c = row_caller r \<and> now < cw_expires r \<and>
    audienceFromRaw raw = Some aud \<and> cw_audience r = audience_text aud \<and> (expected = None \<or> expected = Some aud)"
proof -
  have "cache_ok sha (now, db, v)" using tokens.reachable_inv assms(1) by blast
  then show ?thesis using verified_row assms(2) by blast
qed

text \<open>Once a row is revoked, what the cache holds for its token ends a minute later.\<close>

fun fading :: "(string \<Rightarrow> string) \<Rightarrow> string \<Rightarrow> int \<Rightarrow> token_state \<Rightarrow> bool" where
  "fading sha raw limit (now, db, v) \<longleftrightarrow>
     (\<exists>r. map_of db (sha raw) = Some r \<and> cw_revoked r) \<and>
     (\<forall>e. map_of (vf_cache v) raw = Some e \<longrightarrow> ce_expiresAt e \<le> limit)"

lemma fading_step:
  assumes "cache_ok sha s" "fading sha raw limit s" "token_step sha s t"
  shows "fading sha raw limit t"
proof -
  obtain now db v now' db' v' where st: "s = (now, db, v)" "t = (now', db', v')" by (metis surj_pair)
  obtain r where r: "map_of db (sha raw) = Some r" "cw_revoked r" using assms(2) st by auto
  obtain r' where r': "map_of db' (sha raw) = Some r'" "cw_revoked r'"
    using step_row_kept [of sha now db v now' db' v' "sha raw" r] assms(3) st r same_row_facts by blast
  have lim: "map_of (vf_cache v) raw = Some e \<Longrightarrow> ce_expiresAt e \<le> limit" for e using assms(2) st by simp
  have "ce_expiresAt e \<le> limit" if "map_of (vf_cache v') raw = Some e" for e
    using assms(3)
  proof cases
    case (Verify now1 db1 v1 online raw1 expected)
    then obtain res where res: "verifySessionToken sha online now raw1 expected db v = (res, v')"
      using st by (metis prod.collapse prod.inject snd_conv)
    have d: "distinct (map_keys (vf_cache v))" using assms(1) st by simp
    from res show ?thesis
    proof (cases rule: verify_cases)
      case (row aud q)
      then have "raw1 \<noteq> raw" using r by auto
      then show ?thesis using row(8) that lim evict_sub(2) [OF d] by simp
    qed (use that lim evict_sub(2) [OF d] in auto)
  qed (use that lim st in auto)
  then show ?thesis using r' st by simp
qed

text \<open>
  Claim C34. Revocation takes effect within a minute. However a token came to be cached, and whatever happens after
  its row was revoked, sixty seconds later no endpoint accepts it, although a revocation touches no cache.
\<close>

theorem revocation_within_a_minute:
  assumes "(token_step sha)\<^sup>*\<^sup>* (now0, db0, new_verifier now0) (now1, db1, v1)"
    and "map_of db1 (sha raw) = Some r" "cw_revoked r"
    and "(token_step sha)\<^sup>*\<^sup>* (now1, db1, v1) (now, db, v)" "now1 + 60000 \<le> now"
  shows "isl (fst (verifySessionToken sha online now raw expected db v))"
proof -
  have ok1: "cache_ok sha (now1, db1, v1)" using tokens.reachable_inv assms(1) by blast
  then have f1: "fading sha raw (now1 + 60000) (now1, db1, v1)"
    using assms(2,3) by (auto simp: entry_ok_def CACHE_MAX_ENTRY_TTL_MS_def)
  have "cache_ok sha s \<and> fading sha raw (now1 + 60000) s" if "(token_step sha)\<^sup>*\<^sup>* (now1, db1, v1) s" for s
    using that by (induction rule: rtranclp_induct) (use ok1 f1 cache_step fading_step in blast)+
  from this [OF assms(4)] have d: "distinct (map_keys (vf_cache v))" and f: "fading sha raw (now1 + 60000) (now, db, v)" by simp_all
  obtain res v' where res: "verifySessionToken sha online now raw expected db v = (res, v')" by (metis surj_pair)
  from res have "isl res"
  proof (cases rule: verify_cases)
    case (cached e)
    then show ?thesis using f evict_sub(2) [OF d] assms(5) by fastforce
  next
    case (row aud q)
    then show ?thesis using f by auto
  qed
  then show ?thesis using res by simp
qed

subsection \<open>Samples\<close>

definition tk_input :: issue_input where
  "tk_input = \<lparr>is_principalId = ''google:1'', is_provider = ''google'', is_audience = Caller_audience,
     is_email = Some ''a@b.c'', is_label = None, is_ttlMs = None\<rparr>"

definition tk_row :: caller_row where
  "tk_row = \<lparr>cw_id = ''i'', cw_principal = ''google:1'', cw_provider = ''google'', cw_audience = ''caller'',
     cw_email = Some ''a@b.c'', cw_label = None, cw_expires = 7776000000, cw_revoked = False, cw_created = 0\<rparr>"

abbreviation tk_raw :: string where "tk_raw \<equiv> ''vbc_caller_x''"

definition tk_cached :: verifier where
  "tk_cached = \<lparr>vf_cache = [(tk_raw, \<lparr>ce_caller = row_caller tk_row, ce_audience = Caller_audience, ce_expiresAt = 60000\<rparr>)],
     vf_lastEvict = 0\<rparr>"

lemmas tk_defs = tk_input_def tk_row_def tk_cached_def new_verifier_def issueSessionToken_def generateSessionToken_def
  prefixFor_def audience_text_def audienceFromRaw_def CALLER_TOKEN_PREFIX_def DEFAULT_TTL_MS_def verifySessionToken_def
  evictExpired_def verify_uncached_def verify_row_def CACHE_EVICT_INTERVAL_MS_def VERIFY_CACHE_MAX_ENTRIES_def
  CACHE_MAX_ENTRY_TTL_MS_def Let_def

lemma tk_verify: "verifySessionToken id True 0 tk_raw (Some Caller_audience) [(tk_raw, tk_row)] (new_verifier 0) =
    (Inr (row_caller tk_row), tk_cached)"
  by (simp add: tk_defs)

lemma tk_steps: "(token_step id)\<^sup>*\<^sup>* (0, [], new_verifier 0) (0, [(tk_raw, tk_row)], tk_cached)"
proof -
  have "issueSessionToken id 0 ''i'' ''x'' tk_input [] = Some (tk_raw, [(tk_raw, tk_row)])" by (simp add: tk_defs)
  then have "token_step id (0, [], new_verifier 0) (0, [(tk_raw, tk_row)], new_verifier 0)" by (rule Issue)
  moreover have "token_step id (0, [(tk_raw, tk_row)], new_verifier 0) (0, [(tk_raw, tk_row)], tk_cached)"
    using Verify [of id 0 "[(tk_raw, tk_row)]" "new_verifier 0" True tk_raw "Some Caller_audience"] by (simp add: tk_verify)
  ultimately show ?thesis by (meson r_into_rtranclp rtranclp.rtrancl_into_rtrancl)
qed

theorem session_token_is_backed_witness: "cw_principal tk_row = ''google:1'' \<and> 0 < cw_expires tk_row"
proof -
  have "verifySessionToken id True 0 tk_raw (Some Caller_audience) [(tk_raw, tk_row)] tk_cached = (Inr (row_caller tk_row), tk_cached)"
    by (simp add: tk_defs)
  from session_token_is_backed [OF tk_steps this] show ?thesis by (simp add: tk_row_def)
qed

text \<open>The token is cached when it is revoked.\<close>

theorem revocation_within_a_minute_witness:
  "isl (fst (verifySessionToken id True 60000 tk_raw None [(tk_raw, tk_row\<lparr>cw_revoked := True\<rparr>)] tk_cached))"
proof -
  let ?db = "[(tk_raw, tk_row\<lparr>cw_revoked := True\<rparr>)]"
  have "token_step id (0, [(tk_raw, tk_row)], tk_cached) (0, ?db, tk_cached)"
    using Revoke_raw [of id 0 "[(tk_raw, tk_row)]" tk_cached tk_raw]
    by (simp add: revokeSessionTokenByRaw_def tk_row_def audienceFromRaw_def CALLER_TOKEN_PREFIX_def)
  with tk_steps have 1: "(token_step id)\<^sup>*\<^sup>* (0, [], new_verifier 0) (0, ?db, tk_cached)" by (rule rtranclp.rtrancl_into_rtrancl)
  have 2: "(token_step id)\<^sup>*\<^sup>* (0, ?db, tk_cached) (60000, ?db, tk_cached)" by (intro r_into_rtranclp Time) simp
  show ?thesis by (rule revocation_within_a_minute [OF 1 _ _ 2, of tk_raw "tk_row\<lparr>cw_revoked := True\<rparr>"]) (simp_all add: id_def)
qed

end
