(* ===== verification/AccessFacts.thy ===== *)
theory AccessFacts
  imports Access TaskStoreFacts TokenFacts
begin

text \<open>
  What the policies of an agent promise: every stored entry is a principal in normal form, a removed federated
  grant stays dead for the tokens and tasks it had, and an assertion buys one exchange.
\<close>

subsection \<open>Steps of the database\<close>

text \<open>Whatever the server does to the tables. A token gets a hash that is not one of \<open>H\<close>, a task an id that is
  not one of \<open>T\<close>: the random ids of later rows are none of earlier ones.\<close>

type_synonym access_state = "int \<times> db \<times> srv"

inductive db_step :: "(string \<Rightarrow> string) \<Rightarrow> string list \<Rightarrow> string set \<Rightarrow> string set \<Rightarrow> access_state \<Rightarrow> access_state \<Rightarrow> bool"
  for sha admins H T where
  Time: "now \<le> now' \<Longrightarrow> db_step sha admins H T (now, db, s) (now', db, s)"
| Register: "map_of (db_agents db) agentId = None \<Longrightarrow> ag_callers a = [] \<Longrightarrow>
    db_step sha admins H T (now, db, s) (now, db\<lparr>db_agents := map_set agentId a (db_agents db)\<rparr>, s)"
| Add: "addCaller admins me agentId entry (db, s) = Inr (m, db', s') \<Longrightarrow> db_step sha admins H T (now, db, s) (now, db', s')"
| Remove: "removeCaller admins me now agentId entry (db, s) = Inr (m, db', s') \<Longrightarrow> db_step sha admins H T (now, db, s) (now, db', s')"
| Key: "key_id keyId \<Longrightarrow> issueAgentApiKey admins sha me now keyId ident random online undo agentId label days (db, s) = (res, db', s') \<Longrightarrow>
    db_step sha admins H T (now, db, s) (now, db', s')"
| Approvals: "setRequesterApprovalPolicy admins me agentId body db = Inr (b, db') \<Longrightarrow> db_step sha admins H T (now, db, s) (now, db', s)"
| Delete_client: "deleteClientForOwner admins me target (db, s) = Inr (res, db', s') \<Longrightarrow> db_step sha admins H T (now, db, s) (now, db', s')"
| Exchange: "issueTokenExchangeAccessToken sha random t db = Inr ((raw, t'), db') \<Longrightarrow> sha raw \<notin> H \<Longrightarrow>
    db_step sha admins H T (now, db, s) (now, db', s)"
| Revoke: "db_step sha admins H T (now, db, s) (now, revokeTokenExchangeAccessTokenByRaw sha raw db, s)"
| Consume: "db_step sha admins H T (now, db, s) (now, snd (consumeTokenExchangeReplays sha profileId tuples db), s)"
| Sweep: "db_step sha admins H T (now, db, s) (now, snd (sweepExpiredTokenExchangeState now db), s)"
| Sessions: "db_step sha admins H T (now, db, s) (now, db\<lparr>db_callers := rows\<rparr>, s)"
| Tasks: "store_step cfg (db_tasks db) tasks \<Longrightarrow> \<forall>k \<in> T. map_of (db_tasks db) k = None \<longrightarrow> map_of tasks k = None \<Longrightarrow>
    db_step sha admins H T (now, db, s) (now, db\<lparr>db_tasks := tasks\<rparr>, s)"

subsection \<open>Policies\<close>

definition entries_ok :: "string list \<Rightarrow> bool" where
  "entries_ok callers \<longleftrightarrow> list_all (\<lambda>p. validatePrincipal p = Some p \<and> parsePrincipal p \<noteq> None) callers"

definition policies_ok :: "db \<Rightarrow> bool" where
  "policies_ok db \<longleftrightarrow> list_all (\<lambda>(k, a). entries_ok (ag_callers a)) (db_agents db)"

lemma validated_ok: "validatePrincipal entry = Some p \<Longrightarrow> validatePrincipal p = Some p \<and> parsePrincipal p \<noteq> None"
  using validated_canonical by blast

lemma apikey_ok: "key_id k \<Longrightarrow> validatePrincipal (''apikey:'' @ k) = Some (''apikey:'' @ k) \<and> parsePrincipal (''apikey:'' @ k) \<noteq> None"
proof -
  assume k: "key_id k"
  have "list_all plain_char (''apikey:'' @ k)" using key_plain [OF k] by (simp add: plain_char_def)
  then have "js_trim (''apikey:'' @ k) = ''apikey:'' @ k" by (rule trim_plain)
  moreover have "\<not> eth_address (''apikey:'' @ k)" by (simp add: eth_address_def lower_char_def)
  moreover have "parsePrincipal (''apikey:'' @ k) = Some (Apikey k)" using k by (simp add: parsePrincipal_def)
  ultimately show ?thesis by (simp add: validatePrincipal_def Let_def principal_text_def)
qed

lemma set_callers_fields [simp]:
  "db_exchange (set_callers i cs db) = db_exchange db" "db_tasks (set_callers i cs db) = db_tasks db"
  "db_replays (set_callers i cs db) = db_replays db"
  by (simp_all add: set_callers_def split: option.split)

lemma set_callers_row: "map_of (db_agents (set_callers i cs db)) k =
    (if k = i then map_option (\<lambda>a. a\<lparr>ag_callers := cs\<rparr>) (map_of (db_agents db) k) else map_of (db_agents db) k)"
  by (simp add: set_callers_def split: option.split)

lemma policies_get: "policies_ok db \<Longrightarrow> map_of (db_agents db) k = Some a \<Longrightarrow> entries_ok (ag_callers a)"
  using map_of_SomeD by (fastforce simp: policies_ok_def list_all_iff)

lemma policies_put:
  "policies_ok db \<Longrightarrow> entries_ok (ag_callers a) \<Longrightarrow> policies_ok (db\<lparr>db_agents := map_set k a (db_agents db)\<rparr>)"
  unfolding policies_ok_def list_all_iff by (auto dest!: mem_set_cases)

lemma policies_set: "policies_ok db \<Longrightarrow> entries_ok cs \<Longrightarrow> policies_ok (set_callers i cs db)"
  unfolding set_callers_def by (cases "map_of (db_agents db) i") (simp_all add: policies_put)

lemma policies_cong: "db_agents db' = db_agents db \<Longrightarrow> policies_ok db' = policies_ok db"
  by (simp add: policies_ok_def)

lemma owned_some: "owned_row admins me i db = Some a \<longleftrightarrow> map_of (db_agents db) i = Some a \<and> row_policy admins me a"
  by (cases "map_of (db_agents db) i") (auto simp: owned_row_def)

lemma entries_append: "entries_ok cs \<Longrightarrow> validatePrincipal p = Some p \<and> parsePrincipal p \<noteq> None \<Longrightarrow> entries_ok (cs @ [p])"
  by (simp add: entries_ok_def)

lemma entries_filter: "entries_ok cs \<Longrightarrow> entries_ok (filter P cs)"
  by (auto simp: entries_ok_def list_all_iff)

text \<open>What a removal does: a federated grant goes with all it had, another entry only leaves the list.\<close>

lemma removeCaller_cases:
  assumes "removeCaller admins me now agentId entry (db, s) = Inr (m, db', s')"
  obtains (federated) p a db1 where "validatePrincipal entry = Some p" "startsWith p FEDERATED_PREFIX"
      "owned_row admins me agentId db = Some a" "cm_principal m = p" "db' = revoke_grant now agentId p db1"
      "db1 = db \<or> db1 = set_callers agentId (filter (\<lambda>c. c \<noteq> p) (ag_callers a)) db"
      "p \<notin> set (cm_callers m)" "s' = updateAllowedCallers agentId (cm_callers m) s"
  | (absent) "db' = db" "\<not> startsWith (cm_principal m) FEDERATED_PREFIX"
  | (removed) p a where "owned_row admins me agentId db = Some a" "\<not> startsWith p FEDERATED_PREFIX" "cm_principal m = p"
      "db_agents db' = db_agents (set_callers agentId (filter (\<lambda>c. c \<noteq> p) (ag_callers a)) db)"
      "db_exchange db' = db_exchange db" "db_tasks db' = db_tasks db"
proof (cases "validatePrincipal entry")
  case None
  then show ?thesis using assms by (simp add: removeCaller_def)
next
  case (Some p)
  show ?thesis
  proof (cases "startsWith p FEDERATED_PREFIX")
    case True
    then obtain a where a: "owned_row admins me agentId db = Some a"
      using assms Some by (cases "owned_row admins me agentId db") (simp_all add: removeCaller_def revoke_federated_caller_authorization_def)
    show ?thesis
      by (rule federated [of p a "if p \<in> set (ag_callers a) then set_callers agentId (filter (\<lambda>c. c \<noteq> p) (ag_callers a)) db else db"])
        (use assms Some True a in \<open>auto simp: removeCaller_def revoke_federated_caller_authorization_def mutation_def Let_def split: if_splits\<close>)
  next
    case False
    then obtain a where a: "owned_row admins me agentId db = Some a"
      using assms Some by (cases "owned_row admins me agentId db") (simp_all add: removeCaller_def)
    show ?thesis
    proof (cases "p \<in> set (ag_callers a)")
      case True
      show ?thesis by (rule removed [of a p])
        (use assms Some False a True in \<open>auto simp: removeCaller_def mutation_def revoke_api_keys_def Let_def\<close>)
    next
      case absent': False
      show ?thesis by (rule absent) (use assms Some False a absent' in \<open>auto simp: removeCaller_def mutation_def\<close>)
    qed
  qed
qed

lemma policies_step:
  assumes "policies_ok db" "db_step sha admins H T (now, db, s) (now', db', s')"
  shows "policies_ok db'"
  using assms(2)
proof cases
  case (Register agentId a)
  then show ?thesis using assms(1) policies_put [of db a] by (simp add: entries_ok_def)
next
  case (Add me agentId entry m)
  then obtain p a where p: "validatePrincipal entry = Some p" "owned_row admins me agentId db = Some a"
    by (auto simp: addCaller_def split: option.splits)
  have "db' = db \<or> db' = set_callers agentId (ag_callers a @ [p]) db"
    using Add p by (auto simp: addCaller_def Let_def split: if_splits)
  moreover have "entries_ok (ag_callers a)" using policies_get [OF assms(1)] p(2) unfolding owned_some by blast
  ultimately show ?thesis using assms(1) policies_set entries_append validated_ok [OF p(1)] by metis
next
  case (Remove me agentId entry m)
  from Remove(2) show ?thesis
  proof (cases rule: removeCaller_cases)
    case (federated p a db1)
    have "entries_ok (ag_callers a)" using federated(3) policies_get [OF assms(1)] unfolding owned_some by blast
    then have "policies_ok db1" using federated(6) assms(1) policies_set entries_filter by metis
    then show ?thesis using federated(5) policies_cong [of db' db1] by (simp add: revoke_grant_def)
  next
    case absent
    then show ?thesis using assms(1) by simp
  next
    case (removed p a)
    have "entries_ok (ag_callers a)" using removed(1) policies_get [OF assms(1)] unfolding owned_some by blast
    then show ?thesis using removed(4) assms(1) policies_set entries_filter policies_cong by metis
  qed
next
  case (Key keyId me ident random online undo agentId label days res)
  have "db' = db \<or> (\<exists>a cs. owned_row admins me agentId db = Some a \<and> db_agents db' = db_agents cs \<and>
      (cs = set_callers agentId (ag_callers a @ [''apikey:'' @ keyId]) db \<or>
       cs = set_callers agentId (filter (\<lambda>c. c \<noteq> ''apikey:'' @ keyId) (ag_callers a @ [''apikey:'' @ keyId]))
              (set_callers agentId (ag_callers a @ [''apikey:'' @ keyId]) db)))"
    using Key unfolding issueAgentApiKey_def Let_def by (auto split: option.splits js_number.splits if_splits)
  then show ?thesis
  proof (elim disjE exE conjE)
    fix a cs assume "owned_row admins me agentId db = Some a" and cs: "db_agents db' = db_agents cs"
      "cs = set_callers agentId (ag_callers a @ [''apikey:'' @ keyId]) db"
    then have "entries_ok (ag_callers a)" using policies_get [OF assms(1)] unfolding owned_some by blast
    then show ?thesis using cs policies_cong policies_set [OF assms(1) entries_append] apikey_ok [OF Key(2)] by metis
  next
    fix a cs assume "owned_row admins me agentId db = Some a" and cs: "db_agents db' = db_agents cs"
      "cs = set_callers agentId (filter (\<lambda>c. c \<noteq> ''apikey:'' @ keyId) (ag_callers a @ [''apikey:'' @ keyId]))
              (set_callers agentId (ag_callers a @ [''apikey:'' @ keyId]) db)"
    then have "entries_ok (ag_callers a)" using policies_get [OF assms(1)] unfolding owned_some by blast
    then have e: "entries_ok (ag_callers a @ [''apikey:'' @ keyId])" using entries_append apikey_ok [OF Key(2)] by blast
    then show ?thesis using cs policies_cong policies_set [OF policies_set [OF assms(1) e] entries_filter [OF e]] by metis
  qed (use assms(1) in simp)
next
  case (Approvals me agentId body b)
  then obtain a where a: "owned_row admins me agentId db = Some a"
      "db' = db\<lparr>db_agents := map_set agentId (a\<lparr>ag_approvals := b\<rparr>) (db_agents db)\<rparr>"
    by (auto simp: setRequesterApprovalPolicy_def split: json.splits list.splits option.splits if_splits)
  have "entries_ok (ag_callers a)" using policies_get [OF assms(1)] a(1) unfolding owned_some by blast
  then show ?thesis unfolding a(2) by (intro policies_put assms(1)) simp
next
  case (Delete_client me target res)
  then obtain c where "db' = delete_client_rows admins me c db"
    by (auto simp: deleteClientForOwner_def split: sum.splits prod.splits)
  then show ?thesis using assms(1) by (auto simp: delete_client_rows_def policies_ok_def list_all_iff Let_def)
next
  case (Exchange random t raw t')
  then have "db_agents db' = db_agents db" by (auto simp: issueTokenExchangeAccessToken_def Let_def split: option.splits if_splits)
  then show ?thesis using assms(1) policies_cong by blast
next
  case (Revoke raw)
  then have "db_agents db' = db_agents db" by (simp add: revokeTokenExchangeAccessTokenByRaw_def split: option.split)
  then show ?thesis using assms(1) policies_cong by blast
next
  case (Consume profileId tuples)
  then have "db_agents db' = db_agents db" by (simp add: consumeTokenExchangeReplays_def split: sum.split)
  then show ?thesis using assms(1) policies_cong by blast
next
  case Sweep
  then have "db_agents db' = db_agents db" by (simp add: sweepExpiredTokenExchangeState_def Let_def)
  then show ?thesis using assms(1) policies_cong by blast
qed (use assms(1) in \<open>simp_all add: policies_ok_def\<close>)


subsection \<open>Every database\<close>

definition empty_db :: db where
  "empty_db = \<lparr>db_agents = [], db_callers = [], db_exchange = [], db_replays = [], db_tasks = []\<rparr>"

definition db_ok :: "access_state \<Rightarrow> bool" where
  "db_ok st \<longleftrightarrow> (case st of (now, db, s) \<Rightarrow> policies_ok db \<and> table_ok (db_tasks db))"

lemma table_ok_map:
  "table_ok db \<Longrightarrow> (\<And>k r. row_ok k r \<Longrightarrow> row_ok k (f r)) \<Longrightarrow> table_ok (map (\<lambda>(k, r). (k, f r)) db)"
  unfolding table_ok_def by (auto simp: map_of_map case_prod_unfold comp_def)

text \<open>What a step does to the tables of tasks and of access tokens.\<close>

lemma tasks_step:
  assumes "db_step sha admins H T (now, db, s) (now', db', s')"
  shows "db_tasks db' = db_tasks db \<or>
    (\<exists>agentId key. db_tasks db' = db_tasks (revoke_grant now agentId key db)) \<or>
    (\<exists>cfg. store_step cfg (db_tasks db) (db_tasks db') \<and>
      (\<forall>k \<in> T. map_of (db_tasks db) k = None \<longrightarrow> map_of (db_tasks db') k = None))"
  using assms
proof cases
  case (Add me agentId entry m)
  then show ?thesis by (auto simp: addCaller_def Let_def split: option.splits if_splits)
next
  case (Remove me agentId entry m)
  from Remove(2) show ?thesis
  proof (cases rule: removeCaller_cases)
    case (federated p a db1)
    then have "db_tasks db' = db_tasks (revoke_grant now agentId p db)" by (auto simp: revoke_grant_def)
    then show ?thesis by blast
  qed simp_all
next
  case (Key keyId me ident random online undo agentId label days res)
  then show ?thesis unfolding issueAgentApiKey_def Let_def by (auto split: option.splits js_number.splits if_splits)
next
  case (Approvals me agentId body b)
  then show ?thesis by (auto simp: setRequesterApprovalPolicy_def split: json.splits list.splits option.splits if_splits)
next
  case (Delete_client me target res)
  then show ?thesis by (auto simp: deleteClientForOwner_def delete_client_rows_def Let_def split: sum.splits prod.splits)
next
  case (Exchange random t raw t')
  then show ?thesis by (auto simp: issueTokenExchangeAccessToken_def Let_def split: option.splits if_splits)
next
  case (Revoke raw)
  then show ?thesis by (simp add: revokeTokenExchangeAccessTokenByRaw_def split: option.split)
next
  case (Consume profileId tuples)
  then show ?thesis by (simp add: consumeTokenExchangeReplays_def split: sum.split)
next
  case Sweep
  then show ?thesis by (simp add: sweepExpiredTokenExchangeState_def Let_def)
next
  case (Tasks cfg tasks)
  then show ?thesis by (intro disjI2 exI [of _ cfg]) simp
qed simp_all

text \<open>An entry of the token table after a step: one of before, at most revoked, or one under a new hash.\<close>

lemma exchange_step:
  assumes "db_step sha admins H T (now, db, s) (now', db', s')" "(h, r) \<in> set (db_exchange db')"
  shows "h \<notin> H \<or> (\<exists>q. (h, q) \<in> set (db_exchange db) \<and> xr_agent r = xr_agent q \<and> xr_allowedCaller r = xr_allowedCaller q \<and>
    (xr_revoked q \<longrightarrow> xr_revoked r))"
  using assms(1)
proof cases
  case (Add me agentId entry m)
  then show ?thesis using assms(2) by (auto simp: addCaller_def Let_def split: option.splits if_splits)
next
  case (Remove me agentId entry m)
  from Remove(2) show ?thesis
  proof (cases rule: removeCaller_cases)
    case (federated p a db1)
    have "db_exchange db1 = db_exchange db" using federated(6) by auto
    then show ?thesis using federated(5) assms(2) by (auto simp: revoke_grant_def)
  qed (use assms(2) in auto)
next
  case (Key keyId me ident random online undo agentId label days res)
  then show ?thesis using assms(2) unfolding issueAgentApiKey_def Let_def by (auto split: option.splits js_number.splits if_splits)
next
  case (Approvals me agentId body b)
  then have "db_exchange db' = db_exchange db"
    by (auto simp: setRequesterApprovalPolicy_def split: json.splits list.splits option.splits if_splits)
  then show ?thesis using assms(2) by auto
next
  case (Delete_client me target res)
  then show ?thesis using assms(2)
    by (auto simp: deleteClientForOwner_def delete_client_rows_def Let_def split: sum.splits prod.splits)
next
  case (Exchange random t raw t')
  then show ?thesis using assms(2)
    by (auto simp: issueTokenExchangeAccessToken_def Let_def split: option.splits if_splits dest!: mem_set_cases)
next
  case (Revoke raw)
  then show ?thesis using assms(2) unfolding revokeTokenExchangeAccessTokenByRaw_def
    by (auto split: option.splits if_splits dest!: mem_set_cases dest: map_of_SomeD)
next
  case (Consume profileId tuples)
  then show ?thesis using assms(2) by (auto simp: consumeTokenExchangeReplays_def split: sum.splits)
next
  case Sweep
  then show ?thesis using assms(2) by (auto simp: sweepExpiredTokenExchangeState_def Let_def)
qed (use assms(2) in auto)

lemma db_step_ok:
  assumes "db_ok st" "db_step sha admins H T st st'"
  shows "db_ok st'"
proof -
  obtain now db s where st: "st = (now, db, s)" by (cases st)
  obtain now' db' s' where st': "st' = (now', db', s')" by (cases st')
  have ok: "policies_ok db" "table_ok (db_tasks db)" using assms(1) by (simp_all add: st db_ok_def)
  have step: "db_step sha admins H T (now, db, s) (now', db', s')" using assms(2) by (simp only: st st')
  have "table_ok (db_tasks (revoke_grant now i k db))" for i k
    using table_ok_map [OF ok(2), of "\<lambda>r. if rw_owner_agent r = Some i \<and> rw_key r = Some k \<and> \<not> rw_revoked r
        then r\<lparr>rw_revoked := True, rw_updated := now\<rparr> else r"]
    by (simp add: revoke_grant_def row_ok_def)
  then have "table_ok (db_tasks db')" using tasks_step [OF step] ok(2) step_ok by metis
  then show ?thesis using policies_step [OF ok(1) step] by (simp add: db_ok_def st')
qed

interpretation database: invariant_system "\<lambda>st. \<exists>now s. st = (now, empty_db, s)" "db_step sha admins H T" db_ok for sha admins H T
proof unfold_locales
  show "db_ok st" if "\<exists>now s. st = (now, empty_db, s)" for st
    using that by (auto simp: db_ok_def empty_db_def policies_ok_def table_ok_def)
  show "db_ok t" if "db_ok st" "db_step sha admins H T st t" for st t using that db_step_ok by blast
qed

subsection \<open>A removed grant\<close>

definition bound_tasks :: "string \<Rightarrow> string \<Rightarrow> db \<Rightarrow> string set" where
  "bound_tasks agentId key db =
     {k. \<exists>r. map_of (db_tasks db) k = Some r \<and> rw_owner_agent r = Some agentId \<and> rw_key r = Some key}"

definition dead_row :: "string \<Rightarrow> string \<Rightarrow> row \<Rightarrow> bool" where
  "dead_row agentId key r \<longleftrightarrow> rw_owner_agent r = Some agentId \<and> rw_key r = Some key \<and> rw_revoked r"

definition dead_grant :: "string \<Rightarrow> string \<Rightarrow> string set \<Rightarrow> string set \<Rightarrow> db \<Rightarrow> bool" where
  "dead_grant agentId key H T db \<longleftrightarrow>
     (\<forall>(h, r) \<in> set (db_exchange db). h \<in> H \<and> xr_agent r = agentId \<and> xr_allowedCaller r = Some key \<longrightarrow> xr_revoked r) \<and>
     (\<forall>k \<in> T. \<forall>r. map_of (db_tasks db) k = Some r \<longrightarrow> dead_row agentId key r)"

lemma revoked_row: "map_of (db_tasks (revoke_grant now agentId key db)) k =
    map_option (\<lambda>r. if rw_owner_agent r = Some agentId \<and> rw_key r = Some key \<and> \<not> rw_revoked r
      then r\<lparr>rw_revoked := True, rw_updated := now\<rparr> else r) (map_of (db_tasks db) k)"
  by (simp add: revoke_grant_def map_of_map)

lemma revoked_row_dead:
  assumes "map_of (db_tasks (revoke_grant now agentId key db)) k = Some r" "k \<in> bound_tasks agentId key db"
  shows "dead_row agentId key r"
proof -
  from assms(2) obtain q where q: "map_of (db_tasks db) k = Some q" "rw_owner_agent q = Some agentId" "rw_key q = Some key"
    unfolding bound_tasks_def by blast
  show ?thesis
  proof (cases "rw_revoked q")
    case True
    then have "r = q" using assms(1) q by (simp add: revoked_row)
    then show ?thesis using True q by (simp add: dead_row_def)
  next
    case False
    then have "r = q\<lparr>rw_revoked := True, rw_updated := now\<rparr>" using assms(1) q by (simp add: revoked_row)
    then show ?thesis using q by (simp add: dead_row_def)
  qed
qed

lemma revoked_token: "(h, r) \<in> set (db_exchange (revoke_grant now agentId key db)) \<Longrightarrow> xr_agent r = agentId \<Longrightarrow>
    xr_allowedCaller r = Some key \<Longrightarrow> xr_revoked r"
proof -
  assume a: "(h, r) \<in> set (db_exchange (revoke_grant now agentId key db))" "xr_agent r = agentId" "xr_allowedCaller r = Some key"
  then obtain q where "r = (if xr_agent q = agentId \<and> xr_allowedCaller q = Some key then q\<lparr>xr_revoked := True\<rparr> else q)"
    unfolding revoke_grant_def by auto
  then show ?thesis using a(2,3) by (cases "xr_agent q = agentId \<and> xr_allowedCaller q = Some key") simp_all
qed

lemma removed_grant_dead:
  assumes "removeCaller admins me now agentId entry (db, s) = Inr (m, db1, s1)" "startsWith (cm_principal m) FEDERATED_PREFIX"
  shows "dead_grant agentId (cm_principal m) H (bound_tasks agentId (cm_principal m) db) db1"
  using assms(1)
proof (cases rule: removeCaller_cases)
  case (federated p a db2)
  have "bound_tasks agentId p db2 = bound_tasks agentId p db" using federated(6) by (auto simp: bound_tasks_def)
  then show ?thesis unfolding dead_grant_def federated(4,5) using revoked_row_dead revoked_token by blast
next
  case absent
  then show ?thesis using assms(2) by simp
next
  case (removed p a)
  then show ?thesis using assms(2) by simp
qed

lemma dead_grant_step:
  assumes "db_ok (now, db, s)" "dead_grant agentId key H T db" "db_step sha admins H T (now, db, s) (now', db', s')"
  shows "dead_grant agentId key H T db'"
proof -
  have dead: "dead_row agentId key r" if "k \<in> T" "map_of (db_tasks db) k = Some r" for k r
    using assms(2) that by (simp add: dead_grant_def)
  have "dead_row agentId key r" if k: "k \<in> T" and r: "map_of (db_tasks db') k = Some r" for k r
    using tasks_step [OF assms(3)]
  proof (elim disjE exE conjE)
    assume "db_tasks db' = db_tasks db"
    then show ?thesis using dead k r by simp
  next
    fix i q assume "db_tasks db' = db_tasks (revoke_grant now i q db)"
    then show ?thesis using dead [OF k] r by (auto simp: revoked_row dead_row_def)
  next
    fix cfg assume st: "store_step cfg (db_tasks db) (db_tasks db')"
      "\<forall>k \<in> T. map_of (db_tasks db) k = None \<longrightarrow> map_of (db_tasks db') k = None"
    then obtain old where old: "map_of (db_tasks db) k = Some old" using k r by fastforce
    have "r = old \<or> same_owner old r" using step_row [OF st(1) _ old r] assms(1) by (auto simp: db_ok_def)
    then show ?thesis using dead [OF k old] by (auto simp: same_owner_def dead_row_def)
  qed
  moreover have "xr_revoked r" if "(h, r) \<in> set (db_exchange db')" "h \<in> H" "xr_agent r = agentId" "xr_allowedCaller r = Some key" for h r
    using exchange_step [OF assms(3) that(1)] that(2-4) assms(2) unfolding dead_grant_def by fastforce
  ultimately show ?thesis by (auto simp: dead_grant_def)
qed

lemma dead_grant_steps:
  assumes "(db_step sha admins H T)\<^sup>*\<^sup>* (now, db, s) st'" "db_ok (now, db, s)" "dead_grant agentId key H T db"
  shows "db_ok st' \<and> dead_grant agentId key H T (fst (snd st'))"
  using assms(1)
proof (induction rule: rtranclp_induct)
  case base
  then show ?case using assms by simp
next
  case (step y z)
  obtain now1 db1 s1 where y: "y = (now1, db1, s1)" by (cases y)
  obtain now2 db2 s2 where z: "z = (now2, db2, s2)" by (cases z)
  show ?case using step(2,3) db_step_ok dead_grant_step unfolding y z by fastforce
qed

end
