(* ===== verification/Ingress.thy ===== *)
theory Ingress
  imports Access
begin

text \<open>
  A request of a caller on its way to an agent: authentication (packages/server/src/agent-auth.ts), what the request asks
  for and whether this caller may (packages/server/src/oauth/token-exchange/authorization.ts and
  packages/server/src/oauth/profiles/mentionable-authorization.ts), and the identity stamped on its message
  (packages/server/src/http.tsx, packages/server/src/identity-vc). SIWE verification, JSON sizes and the verification of
  credentials are arguments.
\<close>

subsection \<open>Authentication\<close>

text \<open>\<open>authHeader?.match(/^Bearer\s+(.+)$/i)?.[1]\<close>.\<close>

definition line_end :: "string \<Rightarrow> bool" where
  "line_end p \<longleftrightarrow> p \<in> {bytes [10], bytes [13], bytes [226, 128, 168], bytes [226, 128, 169]}"

definition bearer_token :: "string option \<Rightarrow> string option" where
  "bearer_token header =
     (case header of
        None \<Rightarrow> None
      | Some h \<Rightarrow>
          if \<not> startsWith (lower h) ''bearer'' then None
          else
            (let rest = points (drop 6 h); ws = takeWhile is_space rest; body = dropWhile is_space rest
             in if ws = [] then None
                else if body \<noteq> [] then (if list_ex line_end body then None else Some (concat body))
                else if length ws \<ge> 2 \<and> \<not> line_end (last ws) then Some (last ws) else None))"

datatype agent_presence = Unknown_agent | Offline_agent

definition classifyMissingAgent :: "bool \<Rightarrow> string \<Rightarrow> db \<Rightarrow> agent_presence" where
  "classifyMissingAgent online agentId db =
     (if \<not> online then Offline_agent else if map_has (db_agents db) agentId then Offline_agent else Unknown_agent)"

definition ERROR_DESCRIPTION_MAX_LEN :: nat where "ERROR_DESCRIPTION_MAX_LEN = 200"

definition header_char :: "char \<Rightarrow> bool" where
  "header_char c \<longleftrightarrow> (let n = of_char c :: nat in n = 32 \<or> n = 33 \<or> (35 \<le> n \<and> n \<le> 91) \<or> (93 \<le> n \<and> n \<le> 126))"

definition sanitizeErrorDescription :: "string \<Rightarrow> string" where
  "sanitizeErrorDescription v = take ERROR_DESCRIPTION_MAX_LEN (filter header_char v)"

text \<open>\<open>rj_challenge\<close> is the \<open>WWW-Authenticate\<close> header and \<open>rj_retryAfter\<close> the \<open>Retry-After\<close> one.\<close>

record rejection =
  rj_status :: nat
  rj_code :: int
  rj_message :: string
  rj_challenge :: "string option"
  rj_retryAfter :: "nat option"

definition challenge :: "string option \<Rightarrow> string option \<Rightarrow> string" where
  "challenge err description =
     ''Bearer '' @ joined '', '' ([''realm='' @ quoted ''vicoop-bridge''] @
       (case err of None \<Rightarrow> [] | Some e \<Rightarrow> if e = [] then [] else [''error='' @ quoted e]) @
       (case description of None \<Rightarrow> []
        | Some d \<Rightarrow> if d = [] then [] else [''error_description='' @ quoted (sanitizeErrorDescription d)]))"

definition denied :: "nat \<Rightarrow> string \<Rightarrow> string option \<Rightarrow> rejection" where
  "denied status message ch =
     \<lparr>rj_status = status, rj_code = -32001, rj_message = message, rj_challenge = ch, rj_retryAfter = None\<rparr>"

definition missing_agent :: "agent_presence \<Rightarrow> rejection" where
  "missing_agent p =
     (case p of
        Offline_agent \<Rightarrow>
          \<lparr>rj_status = 503, rj_code = -32000, rj_message = ''Agent temporarily unavailable (registered but not connected)'',
           rj_challenge = None, rj_retryAfter = Some 60\<rparr>
      | Unknown_agent \<Rightarrow>
          \<lparr>rj_status = 404, rj_code = -32000, rj_message = ''Agent not connected'', rj_challenge = None, rj_retryAfter = None\<rparr>)"

record auth_cfg =
  ac_deviceFlow :: bool
  ac_siwe :: "(string \<Rightarrow> string option) option"

definition acquisition_hint :: "auth_cfg \<Rightarrow> string" where
  "acquisition_hint cfg =
     joined '', '' ([''/auth/siwe/exchange (SIWE, intent=caller)''] @
       (if ac_deviceFlow cfg then [''/oauth/token (device flow, intent=caller)''] else []) @
       (if ac_siwe cfg \<noteq> None then [''a base64url SIWE bearer per siwe-bearer-auth/v0.1''] else []))"

definition missing_bearer_message :: "auth_cfg \<Rightarrow> string" where
  "missing_bearer_message cfg =
     (if ac_siwe cfg \<noteq> None then ''Authentication required (Bearer vbc_caller_* or SIWE bearer)''
      else ''Authentication required (Bearer vbc_caller_*)'')"

definition exchange_caller :: "exchange_token \<Rightarrow> verified_caller" where
  "exchange_caller t =
     \<lparr>vc_principalId = et_principalId t,
      vc_actorId = (if et_actorId t \<noteq> et_principalId t then Some (et_actorId t) else None),
      vc_tokenExchange = Some \<lparr>xg_tokenId = et_tokenId t, xg_profileId = et_profileId t, xg_agentId = et_agentId t,
        xg_resource = et_resource t, xg_actorId = et_actorId t, xg_scopes = et_scopes t,
        xg_allowedCaller = et_allowedCaller t, xg_taskId = et_taskId t,
        xg_attestations = map_option (\<lambda>a. [a]) (et_attestation t)\<rparr>,
      vc_email = None, vc_emailVerified = False, vc_hostedDomain = None\<rparr>"

definition siwe_caller :: "string \<Rightarrow> verified_caller" where
  "siwe_caller address = \<lparr>vc_principalId = ''eth:'' @ address, vc_actorId = None, vc_tokenExchange = None,
     vc_email = None, vc_emailVerified = False, vc_hostedDomain = None\<rparr>"

definition identify ::
    "(string \<Rightarrow> string) \<Rightarrow> auth_cfg \<Rightarrow> bool \<Rightarrow> int \<Rightarrow> connection \<Rightarrow> string \<Rightarrow> string \<Rightarrow> db \<Rightarrow> verifier \<Rightarrow>
     (rejection + verified_caller) \<times> verifier" where
  "identify sha cfg online now conn agentId bearer db v =
     (if startsWith bearer TOKEN_EXCHANGE_ACCESS_TOKEN_PREFIX then
        ((if selectCallerContextVersion (cn_protocolCapabilities conn) \<noteq> Some V2 \<or> \<not> online
          then Inl (denied 401 ''Invalid bearer token.'' (Some (challenge (Some ''invalid_token'') (Some ''invalid OAuth token-exchange token''))))
          else (case verifyTokenExchangeAccessToken sha now bearer agentId db of
                  Inl err \<Rightarrow> Inl (denied 401 ''Invalid bearer token.'' (Some (challenge (Some ''invalid_token'') (Some ''invalid OAuth token-exchange token''))))
                | Inr t \<Rightarrow> Inr (exchange_caller t))), v)
      else if startsWith bearer CALLER_TOKEN_PREFIX then
        (case verifyCallerToken sha online now bearer (db_callers db) v of (r, v1) \<Rightarrow>
           ((case r of
               Inl err \<Rightarrow> Inl (denied 401 (''Invalid bearer token. Acquire one via '' @ acquisition_hint cfg @ ''.'')
                 (Some (challenge (Some ''invalid_token'') (Some ''invalid bearer token''))))
             | Inr c \<Rightarrow> Inr c), v1))
      else if startsWith bearer OWNER_SESSION_PREFIX then
        (Inl (denied 401 (''Invalid bearer token: vbc_owner_* (owner-session) tokens are not accepted on /agents/:id. Acquire one via '' @
           acquisition_hint cfg @ ''.'')
           (Some (challenge (Some ''invalid_token'') (Some ''vbc_owner_* tokens are not accepted on /agents/:id'')))), v)
      else
        ((case ac_siwe cfg of
            Some verify \<Rightarrow>
              (case verify bearer of
                 None \<Rightarrow> Inl (denied 401 (''Invalid bearer token. Acquire one via '' @ acquisition_hint cfg @ ''.'')
                   (Some (challenge (Some ''invalid_token'') (Some ''invalid SIWE bearer''))))
               | Some address \<Rightarrow> Inr (siwe_caller address))
          | None \<Rightarrow>
              Inl (denied 401 (''Invalid bearer token: expected vbc_caller_* prefix. Acquire one via '' @ acquisition_hint cfg @ ''.'')
                (Some (challenge (Some ''invalid_token'') (Some ''expected vbc_caller_* prefix''))))), v))"

definition caller_runtime :: "connection \<Rightarrow> bool" where
  "caller_runtime conn \<longleftrightarrow> caps_include (cn_protocolCapabilities conn) CALLER_RUNTIME_V1_CAPABILITY"

definition caller_allowed :: "connection \<Rightarrow> verified_caller \<Rightarrow> bool" where
  "caller_allowed conn caller \<longleftrightarrow>
     vc_tokenExchange caller \<noteq> None \<or> (cn_allowedCallers conn = [] \<and> caller_runtime conn) \<or>
     list_ex (\<lambda>entry. matchPrincipal entry caller) (cn_allowedCallers conn)"

text \<open>\<open>Inr None\<close> is a request of nobody to a public agent.\<close>

definition agentAuth ::
    "(string \<Rightarrow> string) \<Rightarrow> auth_cfg \<Rightarrow> bool \<Rightarrow> int \<Rightarrow> string \<Rightarrow> string option \<Rightarrow> db \<Rightarrow> srv \<Rightarrow> verifier \<Rightarrow>
     (rejection + verified_caller option) \<times> verifier" where
  "agentAuth sha cfg online now agentId authorization db s v =
     (case getAgent agentId s of
        None \<Rightarrow> (Inl (missing_agent (classifyMissingAgent online agentId db)), v)
      | Some conn \<Rightarrow>
          (let bearer = bearer_token authorization
           in if cn_allowedCallers conn = [] \<and> \<not> caller_runtime conn \<and>
                 \<not> (case bearer of None \<Rightarrow> False | Some b \<Rightarrow> startsWith b TOKEN_EXCHANGE_ACCESS_TOKEN_PREFIX)
              then (Inr None, v)
              else
                (case bearer of
                   None \<Rightarrow> (Inl (denied 401 (missing_bearer_message cfg) (Some (challenge None None))), v)
                 | Some b \<Rightarrow>
                     (case identify sha cfg online now conn agentId b db v of
                        (Inl err, v1) \<Rightarrow> (Inl err, v1)
                      | (Inr caller, v1) \<Rightarrow>
                          if \<not> caller_allowed conn caller
                          then (Inl (denied 403 ''Caller not authorized for this agent''
                                 (Some (challenge (Some ''insufficient_scope'') (Some ''caller not in allowed list'')))), v1)
                          else (Inr (Some caller), v1)))))"

subsection \<open>Operations\<close>

datatype op_name =
  Agent_card | Message_send | Message_stream | Task_read | Task_cancel | Task_resubscribe | Task_push_config

datatype op_kind = Message_op | Task_op | Task_list | Agent_op

record operation =
  op_name :: op_name
  op_kind :: op_kind
  op_taskId :: "string option"

definition an_operation :: "op_name \<Rightarrow> op_kind \<Rightarrow> string option \<Rightarrow> operation" where
  "an_operation n k t = \<lparr>op_name = n, op_kind = k, op_taskId = t\<rparr>"

definition stringField :: "json option \<Rightarrow> string option" where
  "stringField v = (case Option.bind v as_string of None \<Rightarrow> None | Some s \<Rightarrow> if s = [] then None else Some s)"

abbreviation field :: "obj option \<Rightarrow> string \<Rightarrow> json option" where
  "field o1 k \<equiv> Option.bind o1 (\<lambda>x. map_of x k)"

definition taskIdFromMessage :: "obj option \<Rightarrow> string option" where
  "taskIdFromMessage params = stringField (field (Option.bind (field params ''message'') as_record) ''taskId'')"

definition taskIdFromParams :: "obj option \<Rightarrow> string option" where
  "taskIdFromParams params = coalesce (stringField (field params ''id'')) (stringField (field params ''taskId''))"

definition JSON_RPC_OPERATIONS :: "(string \<times> op_name \<times> op_kind) list" where
  "JSON_RPC_OPERATIONS =
     [(''agent/getAuthenticatedExtendedCard'', Agent_card, Agent_op), (''GetExtendedAgentCard'', Agent_card, Agent_op),
      (''message/send'', Message_send, Message_op), (''SendMessage'', Message_send, Message_op),
      (''message/stream'', Message_stream, Message_op), (''SendStreamingMessage'', Message_stream, Message_op),
      (''tasks/get'', Task_read, Task_op), (''GetTask'', Task_read, Task_op),
      (''tasks/list'', Task_read, Task_list), (''ListTasks'', Task_read, Task_list),
      (''tasks/cancel'', Task_cancel, Task_op), (''CancelTask'', Task_cancel, Task_op),
      (''tasks/resubscribe'', Task_resubscribe, Task_op), (''SubscribeToTask'', Task_resubscribe, Task_op),
      (''tasks/pushNotificationConfig/set'', Task_push_config, Task_op),
      (''tasks/pushNotificationConfig/get'', Task_push_config, Task_op),
      (''tasks/pushNotificationConfig/list'', Task_push_config, Task_op),
      (''tasks/pushNotificationConfig/delete'', Task_push_config, Task_op),
      (''CreateTaskPushNotificationConfig'', Task_push_config, Task_op),
      (''GetTaskPushNotificationConfig'', Task_push_config, Task_op),
      (''ListTaskPushNotificationConfigs'', Task_push_config, Task_op),
      (''DeleteTaskPushNotificationConfig'', Task_push_config, Task_op)]"

definition parseTokenExchangeJsonRpcOperation :: "json \<Rightarrow> bool \<Rightarrow> operation option" where
  "parseTokenExchangeJsonRpcOperation body v1 =
     (case stringField (field (as_record body) ''method'') of
        None \<Rightarrow> None
      | Some m \<Rightarrow>
          (case map_of JSON_RPC_OPERATIONS m of
             None \<Rightarrow> None
           | Some (name, kind) \<Rightarrow>
               if kind = Agent_op \<or> kind = Task_list then Some (an_operation name kind None)
               else
                 (let params = Option.bind (field (as_record body) ''params'') as_record
                  in Some (an_operation name kind
                       (if kind = Message_op then taskIdFromMessage params
                        else if name = Task_push_config
                        then stringField (field params
                               (if v1 \<or> m = ''tasks/pushNotificationConfig/set'' then ''taskId'' else ''id''))
                        else taskIdFromParams params)))))"

text \<open>\<open>decodeURIComponent\<close>: the bytes of a run of escapes must be UTF-8. \<open>None\<close> is a \<open>URIError\<close>.\<close>

definition utf8_tail :: "nat \<Rightarrow> nat \<Rightarrow> nat list \<Rightarrow> nat \<Rightarrow> bool" where
  "utf8_tail lo hi bs n \<longleftrightarrow> n \<le> length bs \<and> 0 < n \<and> lo \<le> hd bs \<and> hd bs \<le> hi \<and>
     list_all (\<lambda>b. 128 \<le> b \<and> b \<le> 191) (take n bs)"

function utf8_ok :: "nat list \<Rightarrow> bool" where
  "utf8_ok [] = True"
| "utf8_ok (b # bs) =
     (if b < 128 then utf8_ok bs
      else if 194 \<le> b \<and> b \<le> 223 then utf8_tail 128 191 bs 1 \<and> utf8_ok (drop 1 bs)
      else if b = 224 then utf8_tail 160 191 bs 2 \<and> utf8_ok (drop 2 bs)
      else if b = 237 then utf8_tail 128 159 bs 2 \<and> utf8_ok (drop 2 bs)
      else if 225 \<le> b \<and> b \<le> 239 then utf8_tail 128 191 bs 2 \<and> utf8_ok (drop 2 bs)
      else if b = 240 then utf8_tail 144 191 bs 3 \<and> utf8_ok (drop 3 bs)
      else if b = 244 then utf8_tail 128 143 bs 3 \<and> utf8_ok (drop 3 bs)
      else if 241 \<le> b \<and> b \<le> 243 then utf8_tail 128 191 bs 3 \<and> utf8_ok (drop 3 bs)
      else False)"
  by pat_completeness auto
termination by (relation "measure length") auto

definition hex_val :: "char \<Rightarrow> nat option" where
  "hex_val c =
     (if is_digit c then Some (of_char c - 48)
      else if in_range c 97 102 then Some (of_char c - 87)
      else if in_range c 65 70 then Some (of_char c - 55) else None)"

definition flush_bytes :: "nat list \<Rightarrow> string option \<Rightarrow> string option" where
  "flush_bytes acc rest = (if utf8_ok (rev acc) then map_option ((@) (bytes (rev acc))) rest else None)"

fun decode_uri :: "nat list \<Rightarrow> string \<Rightarrow> string option" where
  "decode_uri acc [] = flush_bytes acc (Some [])"
| "decode_uri acc (c # cs) =
     (if c = CHR ''%'' then
        (case cs of
           a # b # rest \<Rightarrow>
             (case (hex_val a, hex_val b) of
                (Some x, Some y) \<Rightarrow> decode_uri ((16 * x + y) # acc) rest
              | _ \<Rightarrow> None)
         | _ \<Rightarrow> None)
      else flush_bytes acc (map_option ((#) c) (decode_uri [] cs)))"

definition decodePathId :: "string \<Rightarrow> string + string" where
  "decodePathId v = (case decode_uri [] v of None \<Rightarrow> Inl ''Invalid percent-encoding in resource ID'' | Some s \<Rightarrow> Inr s)"

text \<open>The optional tenant segment is dropped; then the whole path is matched, segment by segment.\<close>

definition direct_path :: "string \<Rightarrow> bool" where
  "direct_path path \<longleftrightarrow> path \<in> {''/message:send'', ''/message:stream'', ''/tasks'', ''/extendedAgentCard''} \<or> startsWith path ''/tasks/''"

definition without_tenant :: "string \<Rightarrow> string" where
  "without_tenant path =
     (if direct_path path \<or> \<not> startsWith path ''/'' then path
      else (let tenant = takeWhile (\<lambda>c. c \<noteq> CHR ''/'') (drop 1 path); rest = drop (1 + length tenant) path
            in if tenant \<noteq> [] \<and> direct_path rest then rest else path))"

definition with_id :: "op_name \<Rightarrow> string \<Rightarrow> string + operation option" where
  "with_id n raw = (case decodePathId raw of Inl err \<Rightarrow> Inl err | Inr t \<Rightarrow> Inr (Some (an_operation n Task_op (Some t))))"

definition action_of :: "string \<Rightarrow> (op_name \<times> string) option" where
  "action_of seg =
     (if suffix '':cancel'' seg \<and> length seg > 7 then Some (Task_cancel, take (length seg - 7) seg)
      else if suffix '':subscribe'' seg \<and> length seg > 10 then Some (Task_resubscribe, take (length seg - 10) seg)
      else None)"

definition parseTokenExchangeHttpJsonOperation :: "string \<Rightarrow> string \<Rightarrow> json option \<Rightarrow> string + operation option" where
  "parseTokenExchangeHttpJsonOperation meth path0 body =
     (let path = without_tenant path0; segs = split_at CHR ''/'' path; params = Option.bind body as_record
      in if meth = ''GET'' \<and> path = ''/extendedAgentCard'' then Inr (Some (an_operation Agent_card Agent_op None))
         else if meth = ''POST'' \<and> path = ''/message:send''
         then Inr (Some (an_operation Message_send Message_op (taskIdFromMessage params)))
         else if meth = ''POST'' \<and> path = ''/message:stream''
         then Inr (Some (an_operation Message_stream Message_op (taskIdFromMessage params)))
         else if meth = ''GET'' \<and> path = ''/tasks'' then Inr (Some (an_operation Task_read Task_list None))
         else
           (case segs of
              [r, t, ident] \<Rightarrow>
                if r = [] \<and> t = ''tasks'' \<and> ident \<noteq> [] then
                  (if meth = ''GET'' then with_id Task_read ident
                   else if meth = ''POST'' then
                     (case action_of ident of None \<Rightarrow> Inr None | Some (n, raw) \<Rightarrow> with_id n raw)
                   else Inr None)
                else Inr None
            | r # t # ident # p # extra \<Rightarrow>
                if r = [] \<and> t = ''tasks'' \<and> ident \<noteq> [] \<and> p = ''pushNotificationConfigs'' \<and>
                   (extra = [] \<or> (length extra = 1 \<and> hd extra \<noteq> []))
                then with_id Task_push_config ident else Inr None
            | _ \<Rightarrow> Inr None))"

subsection \<open>Authorisation\<close>

text \<open>\<open>Some reason\<close> is a refusal.\<close>

definition REQUIRED_SCOPE :: "op_name \<Rightarrow> string" where
  "REQUIRED_SCOPE n =
     (case n of Message_send \<Rightarrow> ''a2a:message.send'' | Message_stream \<Rightarrow> ''a2a:message.stream''
      | Task_read \<Rightarrow> ''a2a:task.read'' | Task_cancel \<Rightarrow> ''a2a:task.cancel''
      | Task_resubscribe \<Rightarrow> ''a2a:task.resubscribe'' | Task_push_config \<Rightarrow> ''a2a:task.push-config''
      | Agent_card \<Rightarrow> [])"

definition blank :: "string option \<Rightarrow> bool" where
  "blank v \<longleftrightarrow> v = None \<or> v = Some []"

definition authorizeMentionableOperation ::
    "string \<Rightarrow> verified_caller \<Rightarrow> exchange_grant \<Rightarrow> operation option \<Rightarrow> db \<Rightarrow> string option" where
  "authorizeMentionableOperation agentId caller g oper db =
     (case oper of
        None \<Rightarrow> Some ''unknown_operation''
      | Some p \<Rightarrow>
          if op_name p = Agent_card then Some ''unknown_operation''
          else if REQUIRED_SCOPE (op_name p) \<notin> set (xg_scopes g) then Some ''insufficient_scope''
          else if op_kind p = Task_list then Some ''federated_task_list_not_supported''
          else if op_kind p = Message_op \<and> op_taskId p = None
          then (if xg_taskId g \<noteq> None then Some ''token_task_mismatch'' else None)
          else if blank (op_taskId p) then Some ''missing_task_id''
          else if xg_taskId g \<noteq> None \<and> xg_taskId g \<noteq> op_taskId p then Some ''token_task_mismatch''
          else
            (case loadTokenExchangeTaskAuthorization agentId (the (op_taskId p)) db of
               None \<Rightarrow> None
             | Some t \<Rightarrow>
                 if ta_revoked t then Some ''task_grant_revoked''
                 else if ta_profileId t \<noteq> Some FEDERATION_PROFILE then Some ''task_profile_mismatch''
                 else if blank (ta_actorId t) \<or> ta_actorId t \<noteq> Some (xg_actorId g) \<or> blank (ta_authorizationKey t)
                 then Some ''task_actor_mismatch''
                 else if blank (ta_principalId t) \<or> ta_principalId t \<noteq> Some (vc_principalId caller)
                 then Some ''task_principal_mismatch''
                 else if Some (xg_allowedCaller g) \<noteq> ta_authorizationKey t then Some ''task_grant_mismatch''
                 else if \<not> isTokenExchangeAuthorizationActive agentId (the (ta_authorizationKey t)) db
                 then Some ''task_grant_revoked''
                 else None))"

definition task_accessible :: "verified_caller option \<Rightarrow> task_authorization \<Rightarrow> bool" where
  "task_accessible caller t \<longleftrightarrow>
     \<not> ta_revoked t \<and> blank (ta_actorId t) \<and>
     (case caller of
        Some c \<Rightarrow> ta_principalId t = Some (vc_principalId c) \<and> ta_profileId t = None
      | None \<Rightarrow> ta_principalId t = None \<and> ta_profileId t = Some PUBLIC_TASK_PROFILE)"

text \<open>\<open>profiles\<close> names the profiles the endpoint serves; there is one.\<close>

definition authorizeTokenExchangeOperation ::
    "string list \<Rightarrow> string \<Rightarrow> verified_caller option \<Rightarrow> operation option \<Rightarrow> db \<Rightarrow> string option" where
  "authorizeTokenExchangeOperation profiles agentId caller oper db =
     (case Option.bind caller vc_tokenExchange of
        None \<Rightarrow>
          (case oper of
             None \<Rightarrow> Some ''unknown_operation''
           | Some p \<Rightarrow>
               if op_kind p = Task_op \<and> blank (op_taskId p) then Some ''missing_task_id''
               else if op_kind p = Task_list then
                 (if caller = None then Some ''anonymous_task_list_not_allowed''
                  else if agentHasTokenExchangeTaskBindings agentId db then Some ''federated_task_list_not_supported''
                  else None)
               else if \<not> blank (op_taskId p) then
                 (case loadTokenExchangeTaskAuthorization agentId (the (op_taskId p)) db of
                    None \<Rightarrow> if op_kind p = Message_op then None else Some ''task_not_accessible''
                  | Some t \<Rightarrow>
                      if \<not> blank (ta_authorizationKey t) then Some ''federated_task_requires_token''
                      else if \<not> task_accessible caller t then Some ''task_not_accessible'' else None)
               else None)
      | Some g \<Rightarrow>
          if xg_profileId g \<notin> set profiles then Some ''unsupported_token_profile''
          else authorizeMentionableOperation agentId (the caller) g oper db)"

end
