(* ===== verification/Boundary.thy ===== *)
theory Boundary
  imports Ingress
begin

text \<open>
  The body of an admitted request before the SDK sees it: \<open>prepareAgentRequestBody\<close> and its helpers in
  packages/server/src/http.tsx, packages/server/src/a2a-extensions.ts, packages/server/src/identity-vc/carrier.ts
  and integration.ts; then the decision of a requester on a tool request
  (packages/server/src/requester-approvals.ts). The size of a value as JSON (\<open>jsize\<close>), the verification of a
  credential (\<open>vc\<close>) and the JSON of an attestation (\<open>att\<close>) are arguments.
\<close>

subsection \<open>Internal keys\<close>

definition internal_key :: "string \<Rightarrow> bool" where
  "internal_key k \<longleftrightarrow> startsWith k ''_''"

definition metadata_of :: "obj \<Rightarrow> obj option" where
  "metadata_of o1 = Option.bind (map_of o1 ''metadata'') as_record"

definition set_metadata :: "obj option \<Rightarrow> obj \<Rightarrow> obj" where
  "set_metadata md o1 = (case md of None \<Rightarrow> map_del ''metadata'' o1 | Some m \<Rightarrow> map_set ''metadata'' (JObj m) o1)"

definition stripCallerSuppliedInternalKeys :: "obj \<Rightarrow> obj" where
  "stripCallerSuppliedInternalKeys message =
     (case metadata_of message of
        None \<Rightarrow> message
      | Some md \<Rightarrow>
          (let kept = filter (\<lambda>(k, v). \<not> internal_key k) md
           in set_metadata (if kept = [] then None else Some kept) message))"

subsection \<open>Extensions\<close>

definition uniq :: "'a list \<Rightarrow> 'a list" where
  "uniq xs = rev (remdups (rev xs))"

definition parseA2AExtensionsHeader :: "string option \<Rightarrow> string list" where
  "parseA2AExtensionsHeader value =
     (case value of None \<Rightarrow> [] | Some v \<Rightarrow> uniq (filter (\<lambda>u. u \<noteq> []) (map js_trim (split_at CHR '','' v))))"

definition request_extensions :: "string option \<Rightarrow> string option \<Rightarrow> obj \<Rightarrow> obj" where
  "request_extensions h legacy message =
     (let requested = parseA2AExtensionsHeader h @ parseA2AExtensionsHeader legacy;
          existing = (case map_of message ''extensions'' of Some (JArr vs) \<Rightarrow> List.map_filter as_string vs | _ \<Rightarrow> [])
      in if requested = [] then message
         else map_set ''extensions'' (JArr (map JStr (uniq (existing @ requested)))) message)"

subsection \<open>Identity credentials\<close>

datatype identity_rejection = Malformed | Limit_exceeded | Vc_rejected string

record carrier =
  ca_credentials :: "json list"
  ca_metadata :: "obj option"
  ca_rejections :: "identity_rejection list"

definition non_empty :: "obj \<Rightarrow> obj option" where
  "non_empty o1 = (if o1 = [] then None else Some o1)"

definition read_carrier :: "(json \<Rightarrow> nat) \<Rightarrow> json \<Rightarrow> json list \<times> identity_rejection list" where
  "read_carrier jsize raw =
     (if jsize raw > 64 * 1024 then ([], [Limit_exceeded])
      else (case raw of
              JArr vs \<Rightarrow>
                if length vs > 4 then ([], [Limit_exceeded])
                else (filter (\<lambda>c. jsize c \<le> 32 * 1024) vs,
                      map (\<lambda>_. Limit_exceeded) (filter (\<lambda>c. jsize c > 32 * 1024) vs))
            | _ \<Rightarrow> ([], [Malformed])))"

definition extractAndStripIdentityCarrier :: "(json \<Rightarrow> nat) \<Rightarrow> obj option \<Rightarrow> carrier" where
  "extractAndStripIdentityCarrier jsize metadata =
     (case metadata of
        None \<Rightarrow> \<lparr>ca_credentials = [], ca_metadata = None, ca_rejections = []\<rparr>
      | Some md \<Rightarrow>
          (case map_of md ''mentionable'' of
             None \<Rightarrow> \<lparr>ca_credentials = [], ca_metadata = Some md, ca_rejections = []\<rparr>
           | Some (JObj mentionable) \<Rightarrow>
               (let clean = map_del ''identity_evidence'' (map_del ''verifiable_credentials'' mentionable);
                    rest = non_empty (if clean = [] then map_del ''mentionable'' md
                                      else map_set ''mentionable'' (JObj clean) md)
                in case map_of mentionable ''verifiable_credentials'' of
                     None \<Rightarrow> \<lparr>ca_credentials = [], ca_metadata = rest, ca_rejections = []\<rparr>
                   | Some raw \<Rightarrow> \<lparr>ca_credentials = fst (read_carrier jsize raw), ca_metadata = rest,
                                  ca_rejections = snd (read_carrier jsize raw)\<rparr>)
           | Some _ \<Rightarrow>
               \<lparr>ca_credentials = [], ca_metadata = non_empty (map_del ''mentionable'' md), ca_rejections = [Malformed]\<rparr>))"

text \<open>\<open>domain\<close> is the mention of the agent at the public host, when there is one.\<close>

type_synonym vc_verifier = "string list \<Rightarrow> string \<Rightarrow> string \<Rightarrow> json \<Rightarrow> string + json"

fun verified_identities :: "(string + json) list \<Rightarrow> json list" where
  "verified_identities [] = []"
| "verified_identities (Inl e # rs) = verified_identities rs"
| "verified_identities (Inr i # rs) = i # verified_identities rs"

definition prepareIdentityVcAtBoundary ::
    "(json \<Rightarrow> nat) \<Rightarrow> vc_verifier \<Rightarrow> string option \<Rightarrow> connection \<Rightarrow> obj \<Rightarrow> obj" where
  "prepareIdentityVcAtBoundary jsize vc domain conn message =
     (let ex = extractAndStripIdentityCarrier jsize (metadata_of message);
          message1 = set_metadata (ca_metadata ex) message;
          issuers = get_or (cn_identityTrust conn) []
      in if domain = None \<or> issuers = [] \<or> \<not> supportsCallerContext (cn_protocolCapabilities conn) \<or> ca_credentials ex = []
         then message1
         else (case stringField (map_of message1 ''messageId'') of
                 None \<Rightarrow> message1
               | Some messageId \<Rightarrow>
                   (let ids = verified_identities (map (vc issuers (get_or domain []) messageId) (ca_credentials ex))
                    in if ids = [] then message1
                       else set_metadata (Some (map_set IDENTITY_VC_PRESENTED_METADATA_KEY (JArr ids)
                              (get_or (metadata_of message1) []))) message1)))"

subsection \<open>The request\<close>

definition authorization_metadata :: "verified_caller option \<Rightarrow> obj" where
  "authorization_metadata caller =
     (case caller of
        None \<Rightarrow> [(''_authorizationProfile'', JStr PUBLIC_TASK_PROFILE)]
      | Some c \<Rightarrow>
          [(''_principalId'', JStr (vc_principalId c))] @
          (case vc_actorId c of None \<Rightarrow> [] | Some a \<Rightarrow> [(''_actorId'', JStr a)]) @
          (case vc_tokenExchange c of
             None \<Rightarrow> []
           | Some g \<Rightarrow> [(''_authorizationKey'', JStr (xg_allowedCaller g)), (''_authorizationProfile'', JStr (xg_profileId g))]))"

definition stamp :: "obj \<Rightarrow> obj \<Rightarrow> obj" where
  "stamp auth o1 = set_metadata (Some (spread (get_or (metadata_of o1) []) auth)) o1"

definition grant_attestations :: "(attestation \<Rightarrow> json) \<Rightarrow> verified_caller option \<Rightarrow> json list option" where
  "grant_attestations att caller =
     map_option (map att) (Option.bind (Option.bind caller vc_tokenExchange) xg_attestations)"

definition add_attestations :: "json list option \<Rightarrow> obj \<Rightarrow> obj \<Rightarrow> obj" where
  "add_attestations atts before o1 =
     (case atts of
        None \<Rightarrow> o1
      | Some vs \<Rightarrow>
          (let existing = (case Option.bind (metadata_of before) (\<lambda>md. map_of md IDENTITY_VC_PRESENTED_METADATA_KEY) of
                             Some (JArr ids) \<Rightarrow> ids | _ \<Rightarrow> [])
           in set_metadata (Some (map_set IDENTITY_VC_PRESENTED_METADATA_KEY (JArr (existing @ vs)) (get_or (metadata_of o1) []))) o1))"

definition normalize_parts :: "obj \<Rightarrow> obj" where
  "normalize_parts message =
     (case map_of message ''parts'' of
        Some (JArr ps) \<Rightarrow>
          map_set ''parts'' (JArr (map (\<lambda>p. case p of JObj o1 \<Rightarrow> JObj (partToA2X o1) | _ \<Rightarrow> p) ps)) message
      | _ \<Rightarrow> message)"

record boundary =
  bd_jsize :: "json \<Rightarrow> nat"
  bd_vc :: vc_verifier
  bd_att :: "attestation \<Rightarrow> json"
  bd_domain :: "string option"

definition prepare_message :: "boundary \<Rightarrow> connection \<Rightarrow> verified_caller option \<Rightarrow> string option \<Rightarrow> string option \<Rightarrow> obj \<Rightarrow> obj" where
  "prepare_message bd conn caller h legacy message =
     (let m1 = stripCallerSuppliedInternalKeys (request_extensions h legacy message);
          m2 = normalize_parts (prepareIdentityVcAtBoundary (bd_jsize bd) (bd_vc bd) (bd_domain bd) conn m1)
      in add_attestations (grant_attestations (bd_att bd) caller) m2 (stamp (authorization_metadata caller) m2))"

definition prepare_request :: "boundary \<Rightarrow> connection \<Rightarrow> verified_caller option \<Rightarrow> string option \<Rightarrow> string option \<Rightarrow> obj \<Rightarrow> obj \<Rightarrow> obj" where
  "prepare_request bd conn caller h legacy message request =
     stamp (authorization_metadata caller)
       (map_set ''message'' (JObj (prepare_message bd conn caller h legacy message)) (stripCallerSuppliedInternalKeys request))"

text \<open>\<open>rpc\<close> says that the request is the \<open>params\<close> of a JSON-RPC body.\<close>

definition prepareAgentRequestBody ::
    "boundary \<Rightarrow> connection \<Rightarrow> verified_caller option \<Rightarrow> string option \<Rightarrow> string option \<Rightarrow> bool \<Rightarrow> json \<Rightarrow> json" where
  "prepareAgentRequestBody bd conn caller h legacy rpc body =
     (case as_record body of
        None \<Rightarrow> body
      | Some b \<Rightarrow>
          (case (if rpc then Option.bind (map_of b ''params'') as_record else Some b) of
             None \<Rightarrow> body
           | Some request \<Rightarrow>
               (case Option.bind (map_of request ''message'') as_record of
                  None \<Rightarrow> body
                | Some message \<Rightarrow>
                    (let r = prepare_request bd conn caller h legacy message request
                     in if rpc then JObj (map_set ''params'' (JObj r) b) else JObj r))))"

text \<open>\<open>readAgentJsonRpcBody\<close> on parsed JSON.\<close>

definition json_rpc_request :: "json \<Rightarrow> bool" where
  "json_rpc_request body \<longleftrightarrow>
     (case as_record body of
        None \<Rightarrow> False
      | Some b \<Rightarrow> map_of b ''jsonrpc'' = Some (JStr ''2.0'') \<and> stringField (map_of b ''method'') \<noteq> None \<and> map_has b ''id'')"

subsection \<open>Requester approvals\<close>

record requester_grant =
  rg_approval :: approval
  rg_token :: exchange_token

definition NOT_FOUND :: "nat \<times> string" where "NOT_FOUND = (404, ''Not found'')"
definition NOT_LIVE :: "nat \<times> string" where
  "NOT_LIVE = (409, ''Approval expired, consumed, or execution no longer active'')"

definition same_origin :: "approval_origin \<Rightarrow> binding \<Rightarrow> bool" where
  "same_origin og b \<longleftrightarrow>
     b_principalId b = og_principalId og \<and> b_actorId b = og_actorId og \<and>
     b_authorizationProfile b = og_authorizationProfile og \<and> b_authorizationKey b = og_authorizationKey og"

definition checkLive :: "string \<Rightarrow> string \<Rightarrow> exchange_token \<Rightarrow> srv \<Rightarrow> (nat \<times> string) + requester_grant" where
  "checkLive agentId rid token s =
     (case (get_approval rid s, map_of (origins s) rid) of
        (Some a, Some og) \<Rightarrow>
          if ap_agentId a \<noteq> agentId then Inl NOT_FOUND
          else
            (case liveBinding a s of
               None \<Rightarrow> Inl NOT_LIVE
             | Some r \<Rightarrow>
                 if \<not> same_origin og (objs s r) then Inl NOT_LIVE
                 else if expires_at a \<le> clock s \<or> ap_state a = Expired then Inl NOT_LIVE
                 else Inr \<lparr>rg_approval = a, rg_token = token\<rparr>)
      | _ \<Rightarrow> Inl NOT_FOUND)"

definition origin_federated :: "approval_origin \<Rightarrow> bool" where
  "origin_federated og \<longleftrightarrow> \<not> blank (og_principalId og) \<and> \<not> blank (og_actorId og) \<and>
     \<not> blank (og_authorizationProfile og) \<and> \<not> blank (og_authorizationKey og)"

definition token_of_origin :: "approval_origin \<Rightarrow> exchange_token \<Rightarrow> bool" where
  "token_of_origin og t \<longleftrightarrow>
     og_principalId og = Some (et_principalId t) \<and> og_actorId og = Some (et_actorId t) \<and>
     og_authorizationProfile og = Some (et_profileId t) \<and> og_authorizationKey og = Some (et_allowedCaller t)"

definition task_of_origin :: "approval_origin \<Rightarrow> task_authorization \<Rightarrow> bool" where
  "task_of_origin og t \<longleftrightarrow> \<not> ta_revoked t \<and> ta_principalId t = og_principalId og \<and> ta_actorId t = og_actorId og \<and>
     ta_profileId t = og_authorizationProfile og \<and> ta_authorizationKey t = og_authorizationKey og"

definition authorizeRequesterApproval ::
    "(string \<Rightarrow> string) \<Rightarrow> string \<Rightarrow> string \<Rightarrow> string option \<Rightarrow> db \<Rightarrow> srv \<Rightarrow> (nat \<times> string) + requester_grant" where
  "authorizeRequesterApproval sha agentId rid authorization db s =
     (case bearer_token authorization of
        None \<Rightarrow> Inl (401, ''Federated bearer token required'')
      | Some raw \<Rightarrow>
          if \<not> startsWith raw TOKEN_EXCHANGE_ACCESS_TOKEN_PREFIX then Inl (401, ''Federated bearer token required'')
          else
            (case verifyTokenExchangeAccessToken sha (clock s) raw agentId db of
               Inl err \<Rightarrow> Inl (401, ''Invalid bearer token'')
             | Inr token \<Rightarrow>
                 if ''a2a:task.read'' \<notin> set (et_scopes token) then Inl NOT_FOUND
                 else if \<not> (case map_of (db_agents db) agentId of None \<Rightarrow> False | Some a \<Rightarrow> ag_approvals a) then Inl NOT_FOUND
                 else
                   (case (get_approval rid s, map_of (origins s) rid) of
                      (Some a, Some og) \<Rightarrow>
                        if ap_agentId a \<noteq> agentId then Inl NOT_FOUND
                        else if \<not> origin_federated og then Inl NOT_FOUND
                        else if \<not> token_of_origin og token then Inl NOT_FOUND
                        else if et_taskId token \<noteq> None \<and> et_taskId token \<noteq> Some (ap_taskId a) then Inl NOT_FOUND
                        else if \<not> isTokenExchangeAuthorizationActive agentId (the (og_authorizationKey og)) db then Inl NOT_FOUND
                        else if \<not> (case loadTokenExchangeTaskAuthorization agentId (ap_taskId a) db of
                                      None \<Rightarrow> True | Some t \<Rightarrow> task_of_origin og t) then Inl NOT_FOUND
                        else checkLive agentId rid token s
                    | _ \<Rightarrow> Inl NOT_FOUND)))"

text \<open>\<open>POST /agents/:id/approvals/:requestId\<close>.\<close>

definition requester_decision ::
    "(string \<Rightarrow> string) \<Rightarrow> string \<Rightarrow> string \<Rightarrow> string option \<Rightarrow> decision option \<Rightarrow> db \<Rightarrow> srv \<Rightarrow>
     ((nat \<times> string) + approval) \<times> srv" where
  "requester_decision sha agentId rid authorization dec db s =
     (case authorizeRequesterApproval sha agentId rid authorization db s of
        Inl err \<Rightarrow> (Inl err, s)
      | Inr g \<Rightarrow>
          (case dec of
             None \<Rightarrow> (Inl (400, ''Body must be {'' @ quoted ''decision'' @ '':'' @ quoted ''allow_once'' @ ''|'' @ quoted ''deny'' @ ''}''), s)
           | Some d \<Rightarrow>
               (case decide rid d (et_principalId (rg_token g)) Requester s of
                  (None, s1) \<Rightarrow> (Inl (409, ''Approval expired, consumed, or already decided differently''), s1)
                | (Some a, s1) \<Rightarrow> (Inr a, s1))))"

end
