(* ===== verification/Admission.thy ===== *)
theory Admission
  imports AccessFacts Boundary
begin

text \<open>
  What an admitted request stands for: whom authentication lets through, what identity its message carries, which
  tasks it reaches, which approvals it decides, and what ends with the removal of a grant.
\<close>

subsection \<open>Metadata\<close>

lemma metadata_set [simp]: "metadata_of (set_metadata md o1) = md"
  by (cases md) (simp_all add: set_metadata_def metadata_of_def)

lemma metadata_other [simp]: "k \<noteq> ''metadata'' \<Longrightarrow> metadata_of (map_set k v o1) = metadata_of o1"
  by (simp add: metadata_of_def)

lemma message_of_set [simp]: "map_of (set_metadata md o1) ''message'' = map_of o1 ''message''"
  by (cases md) (simp_all add: set_metadata_def)

definition only_presented :: "obj option \<Rightarrow> bool" where
  "only_presented md \<longleftrightarrow> (\<forall>k v. map_of (get_or md []) k = Some v \<longrightarrow> internal_key k \<longrightarrow> k = IDENTITY_VC_PRESENTED_METADATA_KEY)"

lemma only_presented_none [simp]: "only_presented None"
  by (simp add: only_presented_def)

lemma only_presented_sub:
  "only_presented md \<Longrightarrow> (\<And>k v. map_of (get_or md' []) k = Some v \<Longrightarrow> \<exists>w. map_of (get_or md []) k = Some w) \<Longrightarrow> only_presented md'"
  by (fastforce simp: only_presented_def)

lemma kept_presented: "only_presented (Some (filter (\<lambda>(k, v). \<not> internal_key k) md))"
proof -
  have "\<not> internal_key k" if "map_of (filter (\<lambda>(k, v). \<not> internal_key k) md) k = Some v" for k v
    using map_of_SomeD [OF that] by simp
  then show ?thesis unfolding only_presented_def option.case by blast
qed

lemma stripped_presented [simp]: "only_presented (metadata_of (stripCallerSuppliedInternalKeys message))"
  by (cases "metadata_of message") (simp_all add: stripCallerSuppliedInternalKeys_def Let_def kept_presented)

lemma carrier_presented:
  assumes "only_presented md"
  shows "only_presented (ca_metadata (extractAndStripIdentityCarrier jsize md))"
proof (cases md)
  case (Some o1)
  have "only_presented (Some o2) \<Longrightarrow> only_presented (non_empty o2)" for o2 by (simp add: non_empty_def)
  moreover have "only_presented (Some (map_del k o1))" for k
    using assms Some by (auto simp: only_presented_def split: if_splits)
  moreover have "only_presented (Some (map_set ''mentionable'' v o1))" for v
    using assms Some by (auto simp: only_presented_def internal_key_def split: if_splits)
  ultimately show ?thesis using assms Some
    by (auto simp: extractAndStripIdentityCarrier_def Let_def split: option.split json.split)
qed (simp add: extractAndStripIdentityCarrier_def)

lemma boundary_presented:
  assumes "only_presented (metadata_of message)"
  shows "only_presented (metadata_of (prepareIdentityVcAtBoundary jsize vc domain conn message))"
proof -
  define ex where "ex = extractAndStripIdentityCarrier jsize (metadata_of message)"
  have "only_presented (ca_metadata ex)" unfolding ex_def by (rule carrier_presented [OF assms])
  then show ?thesis unfolding prepareIdentityVcAtBoundary_def ex_def [symmetric] Let_def
    by (auto simp: only_presented_def split: option.split if_splits)
qed

lemma normalized_metadata [simp]: "metadata_of (normalize_parts message) = metadata_of message"
  by (simp add: normalize_parts_def split: option.split json.split)

lemma auth_distinct [simp]: "distinct (map_keys (authorization_metadata caller))"
  by (auto simp: authorization_metadata_def split: option.split)

text \<open>What a stamped object says under an internal key is what the server wrote there.\<close>

definition stamped :: "verified_caller option \<Rightarrow> obj option \<Rightarrow> bool" where
  "stamped caller md \<longleftrightarrow>
     (\<forall>k. internal_key k \<and> k \<noteq> IDENTITY_VC_PRESENTED_METADATA_KEY \<longrightarrow>
        map_of (get_or md []) k = map_of (authorization_metadata caller) k)"

lemma stamp_stamped: "only_presented (metadata_of o1) \<Longrightarrow> stamped caller (metadata_of (stamp (authorization_metadata caller) o1))"
  by (auto simp: stamped_def stamp_def map_of_spread only_presented_def split: option.split)

lemma attestations_stamped: "stamped caller (metadata_of o1) \<Longrightarrow> stamped caller (metadata_of (add_attestations atts before o1))"
  by (auto simp: add_attestations_def Let_def stamped_def split: option.split)

lemma message_stamped: "stamped caller (metadata_of (prepare_message bd conn caller h legacy message))"
  unfolding prepare_message_def Let_def
  by (intro attestations_stamped stamp_stamped) (simp add: boundary_presented)

lemma request_stamped: "stamped caller (metadata_of (prepare_request bd conn caller h legacy message request))"
  unfolding prepare_request_def by (intro stamp_stamped) simp

lemma request_message: "map_of (prepare_request bd conn caller h legacy message request) ''message'' =
    Some (JObj (prepare_message bd conn caller h legacy message))"
  by (simp add: prepare_request_def stamp_def)

definition caller_binding :: "verified_caller option \<Rightarrow> auth_binding" where
  "caller_binding caller =
     \<lparr>ab_principalId = map_option vc_principalId caller, ab_actorId = Option.bind caller vc_actorId,
      ab_profileId = (case caller of None \<Rightarrow> Some PUBLIC_TASK_PROFILE | Some c \<Rightarrow> map_option xg_profileId (vc_tokenExchange c)),
      ab_authorizationKey = Option.bind caller (\<lambda>c. map_option xg_allowedCaller (vc_tokenExchange c))\<rparr>"

lemma stamped_binding:
  assumes "stamped caller md"
  shows "authorizationBindingFromMetadata md = caller_binding caller"
proof -
  have "meta_string md k = str_field (authorization_metadata caller) k"
    if "internal_key k" "k \<noteq> IDENTITY_VC_PRESENTED_METADATA_KEY" for k
    using assms that by (cases md) (auto simp: stamped_def meta_string_def str_field_def)
  then have "authorizationBindingFromMetadata md =
      \<lparr>ab_principalId = str_field (authorization_metadata caller) ''_principalId'',
       ab_actorId = str_field (authorization_metadata caller) ''_actorId'',
       ab_profileId = str_field (authorization_metadata caller) ''_authorizationProfile'',
       ab_authorizationKey = str_field (authorization_metadata caller) ''_authorizationKey''\<rparr>"
    by (simp add: authorizationBindingFromMetadata_def internal_key_def IDENTITY_VC_PRESENTED_METADATA_KEY_def)
  then show ?thesis
    by (cases caller) (auto simp: caller_binding_def authorization_metadata_def str_field_def split: option.split)
qed

subsection \<open>Reaching a task\<close>

text \<open>Who gets through to a task that exists.\<close>

definition column_caller :: "string \<Rightarrow> db \<Rightarrow> verified_caller option \<Rightarrow> row \<Rightarrow> bool" where
  "column_caller agentId db caller r \<longleftrightarrow> \<not> rw_revoked r \<and>
     (case caller of
        None \<Rightarrow> rw_owner_principal r = None \<and> rw_profile r = Some PUBLIC_TASK_PROFILE
      | Some c \<Rightarrow> rw_owner_principal r = Some (vc_principalId c) \<and>
          (case vc_tokenExchange c of
             None \<Rightarrow> rw_profile r = None \<and> blank (rw_key r) \<and> blank (rw_owner_actor r)
           | Some g \<Rightarrow> rw_profile r = Some FEDERATION_PROFILE \<and> rw_owner_actor r = Some (xg_actorId g) \<and>
               rw_key r = Some (xg_allowedCaller g) \<and> isTokenExchangeAuthorizationActive agentId (xg_allowedCaller g) db))"

lemma loaded_row: "map_of (db_tasks db) k = Some r \<Longrightarrow> rw_owner_agent r = Some agentId \<Longrightarrow>
    loadTokenExchangeTaskAuthorization agentId k db =
      Some \<lparr>ta_principalId = rw_owner_principal r, ta_actorId = rw_owner_actor r, ta_profileId = rw_profile r,
            ta_authorizationKey = rw_key r, ta_revoked = rw_revoked r\<rparr>"
  by (simp add: loadTokenExchangeTaskAuthorization_def)

lemma authorized_columns:
  assumes "authorizeTokenExchangeOperation profiles agentId caller (Some p) db = None"
    and "op_kind p = Message_op \<or> op_kind p = Task_op" "op_taskId p = Some k" "k \<noteq> []"
    and "map_of (db_tasks db) k = Some r" "rw_owner_agent r = Some agentId"
  shows "column_caller agentId db caller r"
proof (cases "Option.bind caller vc_tokenExchange")
  case None
  have "\<not> blank (op_taskId p)" using assms(3,4) by (simp add: blank_def)
  then have "blank (rw_key r) \<and> task_accessible caller
      \<lparr>ta_principalId = rw_owner_principal r, ta_actorId = rw_owner_actor r, ta_profileId = rw_profile r,
       ta_authorizationKey = rw_key r, ta_revoked = rw_revoked r\<rparr>"
    using assms(1-3) None by (auto simp: authorizeTokenExchangeOperation_def loaded_row [OF assms(5,6)] split: if_splits)
  then show ?thesis using None by (cases caller) (auto simp: task_accessible_def column_caller_def)
next
  case (Some g)
  then obtain c where c: "caller = Some c" "vc_tokenExchange c = Some g" by (cases caller) simp_all
  have "authorizeMentionableOperation agentId c g (Some p) db = None"
    using assms(1) c by (simp add: authorizeTokenExchangeOperation_def split: if_splits)
  then show ?thesis using assms(2-4) c
    by (auto simp: authorizeMentionableOperation_def loaded_row [OF assms(5,6)] column_caller_def blank_def split: if_splits)
qed

text \<open>The columns a row gets of a stamped request, and keeps.\<close>

definition stamped_columns :: "string \<Rightarrow> verified_caller option \<Rightarrow> row \<Rightarrow> bool" where
  "stamped_columns agentId a r \<longleftrightarrow> rw_owner_agent r = Some agentId \<and>
     (case a of
        None \<Rightarrow> rw_profile r = Some PUBLIC_TASK_PROFILE
      | Some x \<Rightarrow> rw_owner_principal r = Some (vc_principalId x) \<and>
          (vc_actorId x \<noteq> None \<longrightarrow> rw_owner_actor r = vc_actorId x) \<and>
          (case vc_tokenExchange x of
             None \<Rightarrow> True
           | Some g \<Rightarrow> rw_profile r = Some (xg_profileId g) \<and> rw_key r = Some (xg_allowedCaller g)))"

lemma created_columns:
  assumes "createTask cfg now k uuid ctx md tasks = (t, tasks')" "map_of tasks k = None"
    and "sg_ownerAgent cfg = Some agentId" "stamped a md" "map_of tasks' k = Some r"
  shows "stamped_columns agentId a r"
proof -
  have b: "authorizationBindingFromMetadata md = caller_binding a" using stamped_binding assms(4) by blast
  have "tasks' = writeTask cfg now t (Some (caller_binding a)) tasks" "t_id t = k"
    using assms(1) by (auto simp: createTask_def Let_def b)
  then have "rw_owner_agent r = Some agentId" "rw_owner_principal r = coalesce (ab_principalId (caller_binding a)) (extractOwnerPrincipal t)"
    "rw_owner_actor r = coalesce (ab_actorId (caller_binding a)) (extractAuthorizationField t ''_actorId'')"
    "rw_profile r = coalesce (ab_profileId (caller_binding a)) (extractAuthorizationField t ''_authorizationProfile'')"
    "rw_key r = coalesce (ab_authorizationKey (caller_binding a)) (extractAuthorizationField t ''_authorizationKey'')"
    using assms(2,3,5) by (auto simp: writeTask_def Let_def)
  then show ?thesis by (cases a) (auto simp: stamped_columns_def caller_binding_def split: option.split)
qed

lemma same_owner_columns: "same_owner old r \<Longrightarrow> stamped_columns agentId a old \<Longrightarrow> stamped_columns agentId a r"
  by (cases a) (auto simp: stamped_columns_def same_owner_def split: option.splits)

lemma revoked_columns: "stamped_columns agentId a (old\<lparr>rw_revoked := True, rw_updated := now\<rparr>) = stamped_columns agentId a old"
  by (cases a) (simp_all add: stamped_columns_def split: option.split)

lemma stamped_columns_step:
  assumes "db_ok (now, db, s)" "db_step sha admins H T (now, db, s) (now', db', s')" "k \<in> T"
    and "\<And>r. map_of (db_tasks db) k = Some r \<Longrightarrow> stamped_columns agentId a r" "map_of (db_tasks db') k = Some r"
  shows "stamped_columns agentId a r"
  using tasks_step [OF assms(2)]
proof (elim disjE exE conjE)
  assume "db_tasks db' = db_tasks db"
  then show ?thesis using assms(4,5) by simp
next
  fix i q assume "db_tasks db' = db_tasks (revoke_grant now i q db)"
  then obtain old where "map_of (db_tasks db) k = Some old" "r = old \<or> r = old\<lparr>rw_revoked := True, rw_updated := now\<rparr>"
    using assms(5) revoked_row [of now i q db k] by (auto split: if_splits)
  then show ?thesis using assms(4) [of old] revoked_columns by metis
next
  fix cfg assume st: "store_step cfg (db_tasks db) (db_tasks db')"
    "\<forall>k \<in> T. map_of (db_tasks db) k = None \<longrightarrow> map_of (db_tasks db') k = None"
  then obtain old where old: "map_of (db_tasks db) k = Some old" using assms(3,5) by fastforce
  have "r = old \<or> same_owner old r" using step_row [OF st(1) _ old assms(5)] assms(1) by (auto simp: db_ok_def)
  then show ?thesis using assms(4) [OF old] same_owner_columns by blast
qed

lemma stamped_columns_steps:
  assumes "(db_step sha admins H T)\<^sup>*\<^sup>* (now, db, s) st" "db_ok (now, db, s)" "k \<in> T"
    and "\<And>r. map_of (db_tasks db) k = Some r \<Longrightarrow> stamped_columns agentId a r"
  shows "db_ok st \<and> (\<forall>r. map_of (db_tasks (fst (snd st))) k = Some r \<longrightarrow> stamped_columns agentId a r)"
  using assms(1)
proof (induction rule: rtranclp_induct)
  case base
  then show ?case using assms(2,4) by simp
next
  case (step y z)
  obtain now1 db1 s1 where y: "y = (now1, db1, s1)" by (cases y)
  obtain now2 db2 s2 where z: "z = (now2, db2, s2)" by (cases z)
  have ok: "db_ok (now1, db1, s1)" and cols: "\<And>r. map_of (db_tasks db1) k = Some r \<Longrightarrow> stamped_columns agentId a r"
    using step(3) by (simp_all add: y)
  have st: "db_step sha admins H T (now1, db1, s1) (now2, db2, s2)" using step(2) by (simp only: y z)
  have "stamped_columns agentId a r" if "map_of (db_tasks db2) k = Some r" for r
    by (rule stamped_columns_step [OF ok st assms(3) cols that])
  then show ?case using db_step_ok [OF ok st] by (simp add: z)
qed

subsection \<open>Properties of policies and grants\<close>

lemma verified_exchange:
  assumes "verifyTokenExchangeAccessToken sha now raw agentId db = Inr t"
  shows "\<exists>r a. map_of (db_exchange db) (sha raw) = Some r \<and> xr_agent r = agentId \<and> \<not> xr_revoked r \<and>
    xr_allowedCaller r = Some (et_allowedCaller t) \<and> xr_principal r = Some (et_principalId t) \<and> xr_actor r = et_actorId t \<and>
    now < xr_expires r \<and> et_agentId t = agentId \<and>
    map_of (db_agents db) agentId = Some a \<and> et_allowedCaller t \<in> set (ag_callers a)"
proof -
  have raw: "startsWith raw TOKEN_EXCHANGE_ACCESS_TOKEN_PREFIX"
    by (rule ccontr) (use assms in \<open>simp add: verifyTokenExchangeAccessToken_def\<close>)
  obtain r where r: "map_of (db_exchange db) (sha raw) = Some r"
    using assms raw by (cases "map_of (db_exchange db) (sha raw)") (simp_all add: verifyTokenExchangeAccessToken_def)
  obtain a where a: "map_of (db_agents db) (xr_agent r) = Some a"
    using assms raw r by (cases "map_of (db_agents db) (xr_agent r)") (simp_all add: verifyTokenExchangeAccessToken_def)
  show ?thesis
    using assms unfolding verifyTokenExchangeAccessToken_def raw r a option.case not_True_eq_False if_False
    by (intro exI [of _ r] exI [of _ a]) (simp add: r a split: if_splits; force simp: r a)
qed


text \<open>
  Claim C10. A removed grant stays removed. After the removal of a federated caller, whatever follows - the same entry
  added again included - no access token issued before verifies for it, and every request on a task that was made
  under it is refused while the task exists, whoever asks.
\<close>

theorem revoked_grant_is_final:
  assumes "db_ok (now, db, s)" "removeCaller admins me now agentId entry (db, s) = Inr (m, db1, s1)"
    and "startsWith (cm_principal m) FEDERATED_PREFIX" "key = cm_principal m"
    and "(db_step sha admins (set (map_keys (db_exchange db))) (bound_tasks agentId key db))\<^sup>*\<^sup>* (now, db1, s1) (now2, db2, s2)"
    and "map_has (db_exchange db) (sha raw)" "k \<in> bound_tasks agentId key db" "k \<noteq> []"
    and "op_kind p = Message_op \<or> op_kind p = Task_op" "op_taskId p = Some k"
    and "verifyTokenExchangeAccessToken sha now3 raw agentId db2 = res"
  shows "(case res of Inl err \<Rightarrow> True | Inr t \<Rightarrow> et_allowedCaller t \<noteq> key) \<and>
    (map_of (db_tasks db2) k = None \<or> authorizeTokenExchangeOperation profiles agentId caller (Some p) db2 \<noteq> None)"
proof -
  have step: "db_step sha admins {} {} (now, db, s) (now, db1, s1)" using assms(2) by (rule Remove)
  have ok: "db_ok (now, db1, s1)" by (rule db_step_ok [OF assms(1) step])
  have dead: "dead_grant agentId key (set (map_keys (db_exchange db))) (bound_tasks agentId key db) db2"
    using dead_grant_steps [OF assms(5) ok] removed_grant_dead [OF assms(2,3)] unfolding assms(4) by simp
  have "et_allowedCaller t \<noteq> key" if t: "res = Inr t" for t
  proof -
    obtain r where r: "map_of (db_exchange db2) (sha raw) = Some r" "xr_agent r = agentId" "\<not> xr_revoked r"
        "xr_allowedCaller r = Some (et_allowedCaller t)"
      using verified_exchange [OF assms(11) [unfolded t]] by blast
    have h: "sha raw \<in> set (map_keys (db_exchange db))" using assms(6) by (simp add: map_of_eq_None_iff)
    show ?thesis using dead map_of_SomeD [OF r(1)] r(2-4) h by (auto simp: dead_grant_def)
  qed
  moreover have "authorizeTokenExchangeOperation profiles agentId caller (Some p) db2 \<noteq> None"
    if r: "map_of (db_tasks db2) k = Some r" for r
  proof
    assume "authorizeTokenExchangeOperation profiles agentId caller (Some p) db2 = None"
    moreover have "dead_row agentId key r" using dead assms(7) r by (simp add: dead_grant_def)
    ultimately show False using authorized_columns [OF _ assms(9,10,8) r] by (auto simp: dead_row_def column_caller_def)
  qed
  ultimately show ?thesis by (cases "map_of (db_tasks db2) k") (auto split: sum.split)
qed

subsection \<open>Properties of tasks\<close>


definition same_caller :: "verified_caller option \<Rightarrow> verified_caller option \<Rightarrow> bool" where
  "same_caller a b \<longleftrightarrow>
     (case a of
        None \<Rightarrow> b = None
      | Some x \<Rightarrow>
          (case b of
             None \<Rightarrow> False
           | Some y \<Rightarrow> vc_principalId y = vc_principalId x \<and>
               (case vc_tokenExchange x of
                  None \<Rightarrow> True
                | Some g \<Rightarrow>
                    (case vc_tokenExchange y of
                       None \<Rightarrow> False
                     | Some q \<Rightarrow> xg_allowedCaller q = xg_allowedCaller g \<and> (vc_actorId x = None \<or> vc_actorId x = Some (xg_actorId q))))))"

lemma column_same_caller:
  assumes "stamped_columns agentId a r" "column_caller agentId db b r"
  shows "same_caller a b"
proof (cases a)
  case None
  then show ?thesis using assms
    by (cases b) (auto simp: stamped_columns_def column_caller_def same_caller_def PUBLIC_TASK_PROFILE_def FEDERATION_PROFILE_def
        split: option.splits)
next
  case (Some x)
  show ?thesis
  proof (cases b)
    case None
    then show ?thesis using assms Some by (auto simp: stamped_columns_def column_caller_def)
  next
    case y: (Some y)
    show ?thesis using assms unfolding Some y
      by (cases "vc_tokenExchange x"; cases "vc_tokenExchange y") (auto simp: stamped_columns_def column_caller_def same_caller_def)
  qed
qed

text \<open>
  Claim C3. A task belongs to its caller. Take a task the store made of a stamped request, and let the tables go on
  changing by any operations (its random id is not given out again): whoever the server lets through to that task is
  the caller who made it - the same principal, for a federated caller under the same grant and actor, and nobody in
  particular for a request of nobody - and the task's grant was not revoked.
\<close>

theorem task_belongs_to_its_caller:
  assumes "stamped a md" "createTask cfg now k uuid ctx md (db_tasks db) = (t, tasks)" "map_of (db_tasks db) k = None"
    and "sg_ownerAgent cfg = Some agentId" "db_ok (now, db, s)"
    and "(db_step sha admins H {k})\<^sup>*\<^sup>* (now, db\<lparr>db_tasks := tasks\<rparr>, s) (now', db', s')"
    and "map_of (db_tasks db') k = Some r" "k \<noteq> []" "op_kind p = Message_op \<or> op_kind p = Task_op" "op_taskId p = Some k"
    and "authorizeTokenExchangeOperation profiles agentId b (Some p) db' = None"
  shows "same_caller a b \<and> \<not> rw_revoked r"
proof -
  have "store_step cfg (db_tasks db) tasks" using assms(2,3) by (intro Create)
  then have ok: "db_ok (now, db\<lparr>db_tasks := tasks\<rparr>, s)"
    using assms(5) step_ok policies_cong [of "db\<lparr>db_tasks := tasks\<rparr>" db] by (auto simp: db_ok_def)
  have "stamped_columns agentId a q" if "map_of tasks k = Some q" for q
    using created_columns [OF assms(2,3,4,1) that] .
  then have cols: "stamped_columns agentId a r"
    using stamped_columns_steps [OF assms(6) ok, of k agentId a] assms(7) by simp
  then have c: "column_caller agentId db' b r"
    using authorized_columns [OF assms(11,9,10,8,7)] by (simp add: stamped_columns_def)
  show ?thesis using column_same_caller [OF cols c] c by (simp add: column_caller_def)
qed

subsection \<open>Properties of authentication\<close>

text \<open>What vouches for a caller: a live grant of the agent's policy, a stored session of the caller audience, or the
  signature of an address.\<close>

definition vouched :: "(string \<Rightarrow> string) \<Rightarrow> auth_cfg \<Rightarrow> int \<Rightarrow> string \<Rightarrow> db \<Rightarrow> string \<Rightarrow> verified_caller \<Rightarrow> bool" where
  "vouched sha cfg now agentId db bearer c \<longleftrightarrow>
     (\<exists>t r. c = exchange_caller t \<and> et_agentId t = agentId \<and> isTokenExchangeAuthorizationActive agentId (et_allowedCaller t) db \<and>
        map_of (db_exchange db) (sha bearer) = Some r \<and> \<not> xr_revoked r \<and> now < xr_expires r) \<or>
     (\<exists>r. map_of (db_callers db) (sha bearer) = Some r \<and> c = row_caller r \<and> now < cw_expires r \<and> cw_audience r = ''caller'') \<or>
     (\<exists>verify address. ac_siwe cfg = Some verify \<and> verify bearer = Some address \<and> c = siwe_caller address)"

lemma identified_vouched:
  assumes "cache_ok sha (now, db_callers db, v)" "identify sha cfg online now conn agentId bearer db v = (Inr c, v')"
  shows "vouched sha cfg now agentId db bearer c"
proof -
  consider (exchange) "startsWith bearer TOKEN_EXCHANGE_ACCESS_TOKEN_PREFIX"
    | (session) "\<not> startsWith bearer TOKEN_EXCHANGE_ACCESS_TOKEN_PREFIX" "startsWith bearer CALLER_TOKEN_PREFIX"
    | (siwe) "\<not> startsWith bearer TOKEN_EXCHANGE_ACCESS_TOKEN_PREFIX" "\<not> startsWith bearer CALLER_TOKEN_PREFIX" by blast
  then show ?thesis
  proof cases
    case exchange
    then obtain t where t: "verifyTokenExchangeAccessToken sha now bearer agentId db = Inr t" "c = exchange_caller t"
      using assms(2) unfolding identify_def by (auto split: if_splits sum.splits)
    show ?thesis using verified_exchange [OF t(1)] t(2)
      unfolding vouched_def isTokenExchangeAuthorizationActive_def by (intro disjI1) (auto intro!: exI [of _ t])
  next
    case session
    then obtain v1 where "verifyCallerToken sha online now bearer (db_callers db) v = (Inr c, v1)"
      using assms(2) unfolding identify_def by (auto split: if_splits sum.splits prod.splits)
    from verified_row [OF assms(1) this] show ?thesis
      unfolding vouched_def by (intro disjI2 disjI1) (auto simp: audience_text_def)
  next
    case siwe
    then show ?thesis using assms(2) unfolding identify_def vouched_def
      by (intro disjI2) (auto split: if_splits option.splits)
  qed
qed

text \<open>
  Claim C4. Only admitted callers pass. Whatever sessions were verified before: a request gets past authentication
  only to a connected agent; without an identity only if the agent's list is empty and it does not run in the
  caller's environment; and with one only if a live grant, a stored session or a signature vouches for exactly
  that identity and the agent's list, as registered at that moment, admits it.
\<close>

theorem only_admitted_callers_pass:
  assumes "(token_step sha)\<^sup>*\<^sup>* (now0, rows0, new_verifier now0) (now, db_callers db, v)"
    and "agentAuth sha cfg online now agentId authorization db s v = (Inr who, v')"
  shows "\<exists>conn. getAgent agentId s = Some conn \<and>
    (case who of
       None \<Rightarrow> cn_allowedCallers conn = [] \<and> \<not> caller_runtime conn
     | Some c \<Rightarrow> caller_allowed conn c \<and> (\<exists>bearer. bearer_token authorization = Some bearer \<and> vouched sha cfg now agentId db bearer c))"
proof -
  have ok: "cache_ok sha (now, db_callers db, v)" using tokens.reachable_inv assms(1) by blast
  obtain conn where conn: "getAgent agentId s = Some conn"
    using assms(2) by (cases "getAgent agentId s") (simp_all add: agentAuth_def)
  show ?thesis
  proof (cases who)
    case None
    then show ?thesis using assms(2) conn unfolding agentAuth_def Let_def
      by (auto split: if_splits option.splits sum.splits prod.splits)
  next
    case (Some c)
    then obtain bearer v1 where "bearer_token authorization = Some bearer" "caller_allowed conn c"
        "identify sha cfg online now conn agentId bearer db v = (Inr c, v1)"
      using assms(2) conn unfolding agentAuth_def Let_def by (auto split: if_splits option.splits sum.splits prod.splits)
    then show ?thesis using identified_vouched [OF ok] conn Some by auto
  qed
qed

subsection \<open>Properties of approvals\<close>

text \<open>
  A requester decides only what was asked on its behalf. A decision that is taken over the request path was
  made with a live access token whose principal, actor, profile and grant are those the approval's execution was
  started with and still runs with; the agent allows such decisions, the grant is still in its policy, the task is
  the token's, and the approval had not expired. What is recorded is that decision by that principal.
\<close>

theorem requester_decides_own:
  assumes "requester_decision sha agentId rid authorization (Some d) db s = (Inr a, s')"
  shows "\<exists>raw t og old r row. bearer_token authorization = Some raw \<and>
    verifyTokenExchangeAccessToken sha (clock s) raw agentId db = Inr t \<and> token_of_origin og t \<and>
    map_of (entries s) rid = Some old \<and> map_of (origins s) rid = Some og \<and>
    ap_agentId old = agentId \<and> liveBinding old s = Some r \<and> same_origin og (objs s r) \<and> clock s < expires_at old \<and>
    map_of (db_agents db) agentId = Some row \<and> ag_approvals row \<and> et_allowedCaller t \<in> set (ag_callers row) \<and>
    (et_taskId t = None \<or> et_taskId t = Some (ap_taskId old)) \<and>
    ap_decision a = Some d \<and> ap_decidedBy a = Some (et_principalId t) \<and> (a = old \<or> ap_state old = Pending)"
proof -
  obtain g where g: "authorizeRequesterApproval sha agentId rid authorization db s = Inr g"
      "decide rid d (et_principalId (rg_token g)) Requester s = (Some a, s')"
    using assms by (auto simp: requester_decision_def split: sum.splits prod.splits option.splits)
  obtain raw where raw: "bearer_token authorization = Some raw"
    using g(1) by (cases "bearer_token authorization") (simp_all add: authorizeRequesterApproval_def)
  obtain t where t: "verifyTokenExchangeAccessToken sha (clock s) raw agentId db = Inr t"
    using g(1) raw by (auto simp: authorizeRequesterApproval_def split: if_splits sum.splits)
  obtain old og where o: "get_approval rid s = Some old" "map_of (origins s) rid = Some og"
    using g(1) raw t by (auto simp: authorizeRequesterApproval_def split: if_splits option.splits)
  have c: "token_of_origin og t" "isTokenExchangeAuthorizationActive agentId (the (og_authorizationKey og)) db"
      "ap_agentId old = agentId" "et_taskId t = None \<or> et_taskId t = Some (ap_taskId old)"
      "checkLive agentId rid t s = Inr g" "case map_of (db_agents db) agentId of None \<Rightarrow> False | Some a \<Rightarrow> ag_approvals a"
    using g(1) by (simp_all only: authorizeRequesterApproval_def raw t o option.case sum.case prod.case) (simp_all split: if_splits)
  obtain r where r: "liveBinding old s = Some r"
    using c(5) o by (cases "liveBinding old s") (simp_all add: checkLive_def split: if_splits)
  have l: "same_origin og (objs s r)" "clock s < expires_at old" "rg_token g = t"
    using c(5) o r by (auto simp: checkLive_def split: if_splits)
  have "ap_decision a = Some d \<and> ap_decidedBy a = Some (et_principalId t) \<and> (a = old \<or> ap_state old = Pending)"
    using g(2) o(1) l(3) by (auto simp: decide_def get_approval_def Let_def split: if_splits)
  moreover obtain row where "map_of (db_agents db) agentId = Some row" "ag_approvals row" "et_allowedCaller t \<in> set (ag_callers row)"
    using c(1,2,6) by (cases "map_of (db_agents db) agentId") (auto simp: isTokenExchangeAuthorizationActive_def token_of_origin_def)
  ultimately show ?thesis using raw t c r l(1,2) o by (auto simp: get_approval_def)
qed

subsection \<open>Properties of the token exchange\<close>

lemma replays_kept:
  "insert_replays sha profileId i ts r = Inr r' \<Longrightarrow> map_of r d = Some e \<Longrightarrow> map_of r' d = Some e"
  by (induction sha profileId i ts r rule: insert_replays.induct) (auto simp: Let_def split: if_splits, metis option.distinct(1))

lemma replays_recorded:
  "insert_replays sha profileId i ts r = Inr r' \<Longrightarrow> x \<in> set ts \<Longrightarrow>
    map_of r' (replay_digest sha profileId (rt_issuer x) (rt_jti x)) = Some (rt_expiresAt x)"
  by (induction sha profileId i ts r rule: insert_replays.induct) (auto simp: Let_def replays_kept split: if_splits)

lemma replays_refused:
  "map_has r (replay_digest sha profileId (rt_issuer x) (rt_jti x)) \<Longrightarrow> x \<in> set ts \<Longrightarrow> \<exists>j. insert_replays sha profileId i ts r = Inl j"
  by (induction sha profileId i ts r rule: insert_replays.induct) (auto simp: Let_def)

lemma replay_step:
  assumes "db_step sha admins H T (now, db, s) (now', db', s')" "map_of (db_replays db) d = Some e" "now' < e"
  shows "map_of (db_replays db') d = Some e \<and> now \<le> now'"
  using assms(1)
proof cases
  case (Add me agentId entry m)
  then show ?thesis using assms(2) by (auto simp: addCaller_def Let_def split: option.splits if_splits)
next
  case (Remove me agentId entry m)
  have "db_replays db' = db_replays db"
    using Remove(2) unfolding removeCaller_def revoke_federated_caller_authorization_def revoke_grant_def revoke_api_keys_def Let_def
    by (auto split: option.splits if_splits)
  then show ?thesis using assms(2) Remove(1) by simp
next
  case (Key keyId me ident random online undo agentId label days res)
  then show ?thesis using assms(2) unfolding issueAgentApiKey_def Let_def by (auto split: option.splits js_number.splits if_splits)
next
  case (Approvals me agentId body b)
  then have "db_replays db' = db_replays db"
    by (auto simp: setRequesterApprovalPolicy_def split: json.splits list.splits option.splits if_splits)
  then show ?thesis using assms(2) Approvals by simp
next
  case (Delete_client me target res)
  then show ?thesis using assms(2)
    by (auto simp: deleteClientForOwner_def delete_client_rows_def Let_def split: sum.splits prod.splits)
next
  case (Exchange random t raw t')
  then show ?thesis using assms(2) by (auto simp: issueTokenExchangeAccessToken_def Let_def split: option.splits if_splits)
next
  case (Revoke raw)
  then show ?thesis using assms(2) by (simp add: revokeTokenExchangeAccessTokenByRaw_def split: option.split)
next
  case (Consume profileId tuples)
  then show ?thesis using assms(2) by (auto simp: consumeTokenExchangeReplays_def replays_kept split: sum.split)
next
  case Sweep
  then show ?thesis using assms(2,3)
    by (auto simp: sweepExpiredTokenExchangeState_def Let_def intro: map_of_filter_kept)
qed (use assms(2) in auto)

text \<open>
  Claim C22. An assertion buys one exchange. Once an exchange consumed its assertions, any other that presents one of
  them (the same issuer and id, for the same profile) before it expires is refused as a whole and changes nothing,
  whatever happens between, sweeps of the table included.
\<close>

theorem assertion_buys_one_exchange:
  assumes "consumeTokenExchangeReplays sha profileId tuples db = (None, db1)" "x \<in> set tuples"
    and "(db_step sha admins H T)\<^sup>*\<^sup>* (now, db1, s) (now2, db2, s2)" "now2 < rt_expiresAt x"
    and "y \<in> set tuples2" "rt_issuer y = rt_issuer x" "rt_jti y = rt_jti x"
  shows "\<exists>i. consumeTokenExchangeReplays sha profileId tuples2 db2 = (Some i, db2)"
proof -
  let ?d = "replay_digest sha profileId (rt_issuer x) (rt_jti x)"
  have start: "map_of (db_replays db1) ?d = Some (rt_expiresAt x)"
    using assms(1,2) replays_recorded by (fastforce simp: consumeTokenExchangeReplays_def split: sum.splits)
  have "fst st < rt_expiresAt x \<longrightarrow> map_of (db_replays (fst (snd st))) ?d = Some (rt_expiresAt x)"
    if "(db_step sha admins H T)\<^sup>*\<^sup>* (now, db1, s) st" for st
    using that
  proof (induction rule: rtranclp_induct)
    case base
    then show ?case using start by simp
  next
    case (step u w)
    obtain t1 d1 s1 where u: "u = (t1, d1, s1)" by (cases u)
    obtain t2 d2 s2 where w: "w = (t2, d2, s2)" by (cases w)
    have st: "db_step sha admins H T (t1, d1, s1) (t2, d2, s2)" using step(2) by (simp only: u w)
    have "t1 \<le> t2" using st by cases simp_all
    then show ?case using step(3) replay_step [OF st] by (auto simp: u w)
  qed
  from this [OF assms(3)] have "map_has (db_replays db2) (replay_digest sha profileId (rt_issuer y) (rt_jti y))"
    using assms(4,6,7) by simp
  then obtain j where "insert_replays sha profileId 0 tuples2 (db_replays db2) = Inl j" using replays_refused assms(5) by blast
  then show ?thesis by (simp add: consumeTokenExchangeReplays_def)
qed

end
