(* ===== verification/AdmissionSamples.thy ===== *)
theory AdmissionSamples
  imports Admission Frames
begin

text \<open>One agent with one federated caller, its access token and a task: the witnesses of the properties of
  \<open>Admission\<close>.\<close>

subsection \<open>The sample\<close>

abbreviation ad_key :: string where "ad_key \<equiv> ''federated:v1:9:did:web:a3:m:11:u''"

lemma ad_parsed: "parseFederatedPrincipal ad_key = Some sample_tuple"
  by (rule federated_format_parse [OF sample_formatted])

lemma ad_valid: "validatePrincipal ad_key = Some ad_key" "parsePrincipal ad_key = Some (Federated_tuple sample_tuple)"
proof -
  have t: "js_trim ad_key = ad_key" by (rule trim_plain) code_simp
  have e: "\<not> eth_address ad_key" by (simp add: eth_address_def lower_char_def)
  show p: "parsePrincipal ad_key = Some (Federated_tuple sample_tuple)" using ad_parsed by (simp add: parsePrincipal_def)
  show "validatePrincipal ad_key = Some ad_key"
    using e p sample_formatted by (simp add: validatePrincipal_def t Let_def principal_text_def)
qed

definition ad_agent :: "string list \<Rightarrow> agent_row" where
  "ad_agent callers = \<lparr>ag_client = ''c'', ag_owner = ''o'', ag_name = ''n'', ag_callers = callers, ag_approvals = True, ag_created = 0\<rparr>"

definition ad_token :: exchange_token where
  "ad_token = \<lparr>et_tokenId = ''k'', et_profileId = FEDERATION_PROFILE, et_agentId = ''a'', et_resource = ''r'',
     et_principalId = ''u'', et_actorId = ''did:web:a'', et_allowedCaller = ad_key, et_attestation = None,
     et_scopes = [''a2a:task.read''], et_taskId = None, et_expiresAt = 100\<rparr>"

abbreviation ad_raw :: string where "ad_raw \<equiv> ''vbc_oauth_x''"

definition ad_xrow :: exchange_row where
  "ad_xrow = \<lparr>xr_id = ''k'', xr_profile = FEDERATION_PROFILE, xr_agent = ''a'', xr_resource = Some ''r'', xr_principal = Some ''u'',
     xr_actor = ''did:web:a'', xr_allowedCaller = Some ad_key, xr_attestation = None, xr_scopes = [''a2a:task.read''],
     xr_task = None, xr_expires = 100, xr_revoked = False\<rparr>"

definition ad_row :: row where
  "ad_row =
     \<lparr>rw_task = \<lparr>t_id = ''t'', t_contextId = Some ''c'',
        t_status = \<lparr>st_state = SUBMITTED, st_timestamp = Some (Iso 1), st_message = None\<rparr>,
        t_history = None, t_artifacts = None, t_metadata = None\<rparr>,
      rw_context = ''c'', rw_state = SUBMITTED, rw_owner_principal = Some ''u'', rw_owner_agent = Some ''a'',
      rw_owner_actor = Some ''did:web:a'', rw_profile = Some FEDERATION_PROFILE, rw_key = Some ad_key, rw_dispatch = None,
      rw_revoked = False, rw_created = 1, rw_updated = 1\<rparr>"

definition ad_db :: "string list \<Rightarrow> table \<Rightarrow> db" where
  "ad_db callers tasks = \<lparr>db_agents = [(''a'', ad_agent callers)], db_callers = [], db_exchange = [(ad_raw, ad_xrow)],
     db_replays = [], db_tasks = tasks\<rparr>"

lemma ad_ok: "db_ok (now, ad_db [ad_key] [], s)" "db_ok (now, ad_db [ad_key] [(''t'', ad_row)], s)"
  by (simp_all add: db_ok_def policies_ok_def entries_ok_def ad_db_def ad_agent_def ad_valid table_ok_def row_ok_def ad_row_def
      clean_task_def clean_metadata_def)

lemma ad_verified: "verifyTokenExchangeAccessToken id 0 ad_raw ''a'' (ad_db [ad_key] tasks) = Inr ad_token"
  by (simp add: verifyTokenExchangeAccessToken_def TOKEN_EXCHANGE_ACCESS_TOKEN_PREFIX_def ad_db_def ad_xrow_def ad_agent_def
      ad_token_def)

subsection \<open>Witnesses\<close>


text \<open>The entry is removed and added again.\<close>

definition ad_read :: operation where
  "ad_read = an_operation Task_read Task_op (Some ''t'')"

theorem revoked_grant_is_final_witness:
  "authorizeTokenExchangeOperation [FEDERATION_PROFILE] ''a'' (Some (exchange_caller ad_token)) (Some ad_read)
     (ad_db [ad_key] [(''t'', ad_row\<lparr>rw_revoked := True, rw_updated := 5\<rparr>)]
        \<lparr>db_exchange := [(ad_raw, ad_xrow\<lparr>xr_revoked := True\<rparr>)]\<rparr>) \<noteq> None"
proof -
  let ?db = "ad_db [ad_key] [(''t'', ad_row)]"
  let ?dead = "\<lambda>cs. ad_db cs [(''t'', ad_row\<lparr>rw_revoked := True, rw_updated := 5\<rparr>)]\<lparr>db_exchange := [(ad_raw, ad_xrow\<lparr>xr_revoked := True\<rparr>)]\<rparr>"
  let ?s1 = "updateAllowedCallers ''a'' [] sample_srv"
  let ?s2 = "updateAllowedCallers ''a'' [ad_key] ?s1"
  let ?H = "set (map_keys (db_exchange ?db))" and ?T = "bound_tasks ''a'' ad_key ?db"
  have rm: "removeCaller [] ''o'' 5 ''a'' ad_key (?db, sample_srv) = Inr (mutation ad_key [] None, ?dead [], ?s1)"
    by (simp add: removeCaller_def ad_valid FEDERATED_PREFIX_def revoke_federated_caller_authorization_def owned_row_def
        row_policy_def isAdmin_def ad_agent_def ad_db_def set_callers_def revoke_grant_def ad_row_def ad_xrow_def Let_def)
  have "db_step id [] ?H ?T (5, ?dead [], ?s1) (5, ?dead [ad_key], ?s2)"
    by (rule Add [of "[]" "''o''" "''a''" ad_key _ _ "mutation ad_key [ad_key] None"])
      (simp add: addCaller_def ad_valid owned_row_def row_policy_def isAdmin_def ad_agent_def ad_db_def set_callers_def Let_def)
  then have steps: "(db_step id [] ?H ?T)\<^sup>*\<^sup>* (5, ?dead [], ?s1) (5, ?dead [ad_key], ?s2)" by blast
  have t: "''t'' \<in> ?T" by (simp add: bound_tasks_def ad_db_def ad_row_def)
  have x: "map_has (db_exchange ?db) (id ad_raw)" by (simp add: ad_db_def)
  have ops: "op_kind ad_read = Message_op \<or> op_kind ad_read = Task_op" "op_taskId ad_read = Some ''t''"
    by (simp_all add: ad_read_def an_operation_def)
  have m: "startsWith (cm_principal (mutation ad_key [] None)) FEDERATED_PREFIX" "ad_key = cm_principal (mutation ad_key [] None)"
    by (simp_all add: mutation_def FEDERATED_PREFIX_def)
  show ?thesis
    using revoked_grant_is_final [OF ad_ok(2) rm m steps x t _ ops refl, of 6 "[FEDERATION_PROFILE]" "Some (exchange_caller ad_token)"]
    by (simp add: ad_db_def)
qed

text \<open>The caller of the token makes the task and reads it.\<close>

definition ad_boundary :: boundary where
  "ad_boundary = \<lparr>bd_jsize = (\<lambda>_. 0), bd_vc = (\<lambda>_ _ _ _. Inl ''''), bd_att = (\<lambda>_. JNull), bd_domain = None\<rparr>"

abbreviation ad_caller :: "verified_caller option" where "ad_caller \<equiv> Some (exchange_caller ad_token)"


lemma ad_stamped: "stamped ad_caller (Some (authorization_metadata ad_caller))"
  by (simp add: stamped_def)

lemma ad_created: "createTask \<lparr>sg_keepEnvelope = False, sg_ownerAgent = Some ''a'', sg_listAccess = None\<rparr> 1 ''t'' ''c'' None
    (Some (authorization_metadata ad_caller)) [] = (rw_task ad_row, [(''t'', ad_row)])"
  unfolding createTask_def stamped_binding [OF ad_stamped]
  by (simp add: ad_row_def writeTask_def Let_def caller_binding_def exchange_caller_def ad_token_def stripTaskMetadata_def
      without_secrets_def secret_keys_def authorization_metadata_def IDENTITY_VC_PRESENTED_METADATA_KEY_def withExecutionMarker_def
      EXECUTION_MARKER_KEY_def APPROVAL_EXTENSION_URI_def stripSensitiveMetadata_def stripPersistedEnvelope_def
      OPENAI_COMPAT_EXTENSION_URI_def)

lemma ad_authorized: "authorizeTokenExchangeOperation [FEDERATION_PROFILE] ''a'' ad_caller (Some ad_read) (ad_db [ad_key] [(''t'', ad_row)]) = None"
  by (simp add: authorizeTokenExchangeOperation_def authorizeMentionableOperation_def exchange_caller_def ad_token_def ad_read_def
      an_operation_def REQUIRED_SCOPE_def loadTokenExchangeTaskAuthorization_def ad_db_def ad_row_def blank_def
      isTokenExchangeAuthorizationActive_def ad_agent_def)

theorem task_belongs_to_its_caller_witness: "same_caller ad_caller ad_caller \<and> \<not> rw_revoked ad_row"
proof -
  let ?cfg = "\<lparr>sg_keepEnvelope = False, sg_ownerAgent = Some ''a'', sg_listAccess = None\<rparr>"
  have "ad_db [ad_key] []\<lparr>db_tasks := [(''t'', ad_row)]\<rparr> = ad_db [ad_key] [(''t'', ad_row)]" by (simp add: ad_db_def)
  then have steps: "(db_step id [] {} {''t''})\<^sup>*\<^sup>* (1, ad_db [ad_key] []\<lparr>db_tasks := [(''t'', ad_row)]\<rparr>, sample_srv)
      (1, ad_db [ad_key] [(''t'', ad_row)], sample_srv)" by simp
  have c: "createTask ?cfg 1 ''t'' ''c'' None (Some (authorization_metadata ad_caller)) (db_tasks (ad_db [ad_key] [])) =
      (rw_task ad_row, [(''t'', ad_row)])" using ad_created by (simp add: ad_db_def)
  show ?thesis
    by (rule task_belongs_to_its_caller [OF ad_stamped c _ _ ad_ok(1) steps _ _ _ _ ad_authorized])
      (simp_all add: ad_db_def ad_read_def an_operation_def)
qed

definition ad_conn :: connection where
  "ad_conn = sample_conn\<lparr>cn_protocolCapabilities := Some [CALLER_CONTEXT_V2_CAPABILITY], cn_allowedCallers := [ad_key]\<rparr>"

definition ad_srv :: srv where
  "ad_srv = sample_srv\<lparr>agents := [(''a'', ad_conn)]\<rparr>"

lemma ad_bearer: "bearer_token (Some ''Bearer vbc_oauth_x'') = Some ad_raw"
proof -
  have p: "points '' vbc_oauth_x'' = '' '' # map (\<lambda>c. [c]) ad_raw" by code_simp
  have s: "is_space '' ''" "\<not> is_space ''v''" by code_simp+
  have e: "\<not> list_ex line_end (map (\<lambda>c. [c]) ad_raw)" by code_simp
  have b: "startsWith (lower ''Bearer vbc_oauth_x'') ''bearer''" by code_simp
  have w: "takeWhile is_space ('' '' # map (\<lambda>c. [c]) ad_raw) = ['' '']" "dropWhile is_space ('' '' # map (\<lambda>c. [c]) ad_raw) = map (\<lambda>c. [c]) ad_raw"
    using s by simp_all
  have "drop 6 ''Bearer vbc_oauth_x'' = '' vbc_oauth_x''" by simp
  then show ?thesis by (simp only: bearer_token_def option.case b p w e Let_def) simp
qed

theorem only_admitted_callers_pass_witness: "cn_allowedCallers ad_conn = [ad_key] \<and> vouched id \<lparr>ac_deviceFlow = False, ac_siwe = None\<rparr> 0 ''a''
    (ad_db [ad_key] []) ad_raw (exchange_caller ad_token)"
proof -
  let ?cfg = "\<lparr>ac_deviceFlow = False, ac_siwe = None\<rparr>"
  have start: "(token_step id)\<^sup>*\<^sup>* (0, [], new_verifier 0) (0, db_callers (ad_db [ad_key] []), new_verifier 0)"
    by (simp add: ad_db_def)
  have "identify id ?cfg True 0 ad_conn ''a'' ad_raw (ad_db [ad_key] []) (new_verifier 0) = (Inr (exchange_caller ad_token), new_verifier 0)"
    by (simp add: identify_def ad_verified TOKEN_EXCHANGE_ACCESS_TOKEN_PREFIX_def ad_conn_def selectCallerContextVersion_def
        caps_include_def)
  moreover have "caller_allowed ad_conn (exchange_caller ad_token)" by (simp add: caller_allowed_def exchange_caller_def)
  moreover have "getAgent ''a'' ad_srv = Some ad_conn" by (simp add: getAgent_def ad_srv_def)
  ultimately have "agentAuth id ?cfg True 0 ''a'' (Some ''Bearer vbc_oauth_x'') (ad_db [ad_key] []) ad_srv (new_verifier 0) =
      (Inr ad_caller, new_verifier 0)"
    by (simp add: agentAuth_def ad_bearer Let_def) (simp add: ad_conn_def)
  from only_admitted_callers_pass [OF start this] show ?thesis by (auto simp: ad_bearer ad_conn_def)
qed

theorem assertion_buys_one_exchange_witness:
  "consumeTokenExchangeReplays id ''p'' [\<lparr>rt_issuer = ''i'', rt_jti = ''j'', rt_expiresAt = 9\<rparr>]
     (empty_db\<lparr>db_replays := [(replay_digest id ''p'' ''i'' ''j'', 9)]\<rparr>) \<noteq> (None, empty_db)"
proof -
  let ?x = "\<lparr>rt_issuer = ''i'', rt_jti = ''j'', rt_expiresAt = 9\<rparr>"
  let ?db = "empty_db\<lparr>db_replays := [(replay_digest id ''p'' ''i'' ''j'', 9)]\<rparr>"
  have c: "consumeTokenExchangeReplays id ''p'' [?x] empty_db = (None, ?db)"
    by (simp add: consumeTokenExchangeReplays_def empty_db_def Let_def)
  have "db_step id [] {} {} (0, ?db, sample_srv) (0, ?db, sample_srv)"
    using Sweep [of id "[]" "{}" "{}" 0 ?db sample_srv] by (simp add: sweepExpiredTokenExchangeState_def Let_def empty_db_def)
  then have s: "(db_step id [] {} {})\<^sup>*\<^sup>* (0, ?db, sample_srv) (0, ?db, sample_srv)" by blast
  have "\<exists>i. consumeTokenExchangeReplays id ''p'' [?x] ?db = (Some i, ?db)"
    by (rule assertion_buys_one_exchange [OF c _ s]) simp_all
  then show ?thesis by auto
qed

text \<open>The task of the sample runs for that caller and waits for an approval.\<close>

definition ad_approval :: approval where
  "ad_approval = \<lparr>ap_request = \<lparr>rq_requestId = ''q'', rq_toolName = ''w'', rq_input = [], rq_expiresAt = ''x'', rq_expiresMs = 50,
     rq_jsonLength = 0\<rparr>, ap_agentId = ''a'', ap_taskId = ''t'', ap_executionId = ''e'', ap_state = Pending, ap_decision = None,
     ap_decidedBy = None, ap_decidedVia = None\<rparr>"

definition ad_origin :: approval_origin where
  "ad_origin = \<lparr>og_principalId = Some ''u'', og_actorId = Some ''did:web:a'', og_authorizationProfile = Some FEDERATION_PROFILE,
     og_authorizationKey = Some ad_key\<rparr>"

definition ad_waiting :: srv where
  "ad_waiting = sample_srv\<lparr>entries := [(''q'', ad_approval)], origins := [(''q'', ad_origin)],
     objs := (\<lambda>_. sample_binding\<lparr>b_principalId := Some ''u'', b_actorId := Some ''did:web:a'',
       b_authorizationProfile := Some FEDERATION_PROFILE, b_authorizationKey := Some ad_key\<rparr>)\<rparr>"

lemma ad_granted: "authorizeRequesterApproval id ''a'' ''q'' (Some ''Bearer vbc_oauth_x'') (ad_db [ad_key] [(''t'', ad_row)]) ad_waiting =
    Inr \<lparr>rg_approval = ad_approval, rg_token = ad_token\<rparr>"
proof -
  have c: "clock ad_waiting = 0" by (simp add: ad_waiting_def sample_defs)
  show ?thesis unfolding authorizeRequesterApproval_def ad_bearer option.case c ad_verified sum.case
    by (simp add: TOKEN_EXCHANGE_ACCESS_TOKEN_PREFIX_def ad_token_def ad_db_def ad_agent_def get_approval_def ad_waiting_def
        ad_approval_def ad_origin_def origin_federated_def blank_def token_of_origin_def isTokenExchangeAuthorizationActive_def
        loadTokenExchangeTaskAuthorization_def ad_row_def task_of_origin_def checkLive_def liveBinding_def getBinding_def
        raised_by_def same_origin_def sample_defs FEDERATION_PROFILE_def)
qed

theorem requester_decides_own_witness:
  "map_option ap_decidedBy (case fst (requester_decision id ''a'' ''q'' (Some ''Bearer vbc_oauth_x'') (Some Allow_once)
     (ad_db [ad_key] [(''t'', ad_row)]) ad_waiting) of Inl err \<Rightarrow> None | Inr a \<Rightarrow> Some a) = Some (Some ''u'')"
proof -
  obtain a s' where d: "requester_decision id ''a'' ''q'' (Some ''Bearer vbc_oauth_x'') (Some Allow_once)
      (ad_db [ad_key] [(''t'', ad_row)]) ad_waiting = (Inr a, s')"
    unfolding requester_decision_def ad_granted sum.case option.case
    by (simp add: decide_def ad_waiting_def ad_approval_def live_def getBinding_def raised_by_def sample_defs Let_def)
  have c: "clock ad_waiting = 0" by (simp add: ad_waiting_def sample_defs)
  have "ap_decidedBy a = Some ''u''"
    using requester_decides_own [OF d] by (auto simp: ad_bearer c ad_verified ad_token_def)
  then show ?thesis by (simp add: d)
qed

end
