(* ===== verification/Offers.thy ===== *)
theory Offers
  imports Registry
begin

text \<open>
  The offerings of a priced agent (packages/server/src/x402/store.ts): what was offered for a task under which frozen
  terms, who may act on its payment, and whether its output was published; and the pricing of a connected agent when its
  row changes (packages/server/src/x402/pricing-watch.ts). An entry is the JSONB object of the row. \<open>fmt\<close> renders
  a clock value as the JSON string of a timestamp, \<open>ts\<close> reads one. A transaction is one step, because a publisher holds
  the lock of its task and the row while it publishes.
\<close>

subsection \<open>Rows\<close>

record offering =
  of_entry :: obj
  of_offer :: "json option"
  of_claimed :: "int option"
  of_expires :: "int option"

text \<open>The key is the agent with the task.\<close>

type_synonym offer_table = "(string \<times> string, offering) jsmap"

definition offer_alive :: "int \<Rightarrow> offering \<Rightarrow> bool" where
  "offer_alive now r \<longleftrightarrow> (case of_expires r of None \<Rightarrow> True | Some t \<Rightarrow> now < t)"

definition live_offering :: "int \<Rightarrow> string \<Rightarrow> string \<Rightarrow> offer_table \<Rightarrow> offering option" where
  "live_offering now agentId taskId db =
     (case map_of db (agentId, taskId) of
        None \<Rightarrow> None
      | Some r \<Rightarrow> if offer_alive now r then Some r else None)"

definition reviveOffer :: "json \<Rightarrow> json option" where
  "reviveOffer raw =
     (case Option.bind (as_record raw) (\<lambda>o1. map_of o1 ''accepts'') of
        Some (JArr (v # vs)) \<Rightarrow> Some raw
      | _ \<Rightarrow> None)"

text \<open>The entry with its dates. A value that is no string gives no date; a required one is then the epoch.
  The receipt, the failure and the delivery of an entry are objects when they are there.\<close>

datatype dated = Raw json | Date int | Fields "(string \<times> dated) list"

definition date_field :: "(string \<Rightarrow> int) \<Rightarrow> obj \<Rightarrow> string \<Rightarrow> int option" where
  "date_field ts e k = map_option ts (Option.bind (map_of e k) as_string)"

definition raw_fields :: "obj \<Rightarrow> (string, dated) jsmap" where
  "raw_fields o1 = map (\<lambda>(k, v). (k, Raw v)) o1"

definition with_date :: "string \<Rightarrow> int option \<Rightarrow> (string, dated) jsmap \<Rightarrow> (string, dated) jsmap" where
  "with_date k d e = (case d of None \<Rightarrow> e | Some t \<Rightarrow> map_set k (Date t) e)"

definition revive_in :: "(string \<Rightarrow> int) \<Rightarrow> string \<Rightarrow> obj \<Rightarrow> dated" where
  "revive_in ts k o1 = Fields (map_set k (Date (get_or (date_field ts o1 k) 0)) (raw_fields o1))"

definition revive_delivery :: "(string \<Rightarrow> int) \<Rightarrow> obj \<Rightarrow> dated" where
  "revive_delivery ts o1 =
     Fields (map (\<lambda>(k, v). (k, case v of JStr s \<Rightarrow> if suffix ''At'' k then Date (ts s) else Raw v | _ \<Rightarrow> Raw v)) o1)"

definition with_record :: "string \<Rightarrow> (obj \<Rightarrow> dated) \<Rightarrow> obj \<Rightarrow> (string, dated) jsmap \<Rightarrow> (string, dated) jsmap" where
  "with_record k f e r = (case Option.bind (map_of e k) as_record of None \<Rightarrow> r | Some o1 \<Rightarrow> map_set k (f o1) r)"

definition reviveEntry :: "(string \<Rightarrow> int) \<Rightarrow> obj \<Rightarrow> (string, dated) jsmap" where
  "reviveEntry ts e =
     with_record ''merchantDelivery'' (revive_delivery ts) e
       (with_record ''failure'' (revive_in ts ''failedAt'') e
         (with_record ''receipt'' (revive_in ts ''settledAt'') e
           (with_date ''verifiedAt'' (date_field ts e ''verifiedAt'')
             (with_date ''expiresAt'' (date_field ts e ''expiresAt'')
               (map_set ''updatedAt'' (Date (get_or (date_field ts e ''updatedAt'') 0))
                 (map_set ''storedAt'' (Date (get_or (date_field ts e ''storedAt'') 0)) (raw_fields e)))))))"

text \<open>\<open>JSON.parse(JSON.stringify(v))\<close> lowers each date to a string.\<close>

fun lower_dated :: "(int \<Rightarrow> string) \<Rightarrow> dated \<Rightarrow> json" where
  "lower_dated fmt (Raw v) = v"
| "lower_dated fmt (Date t) = JStr (fmt t)"
| "lower_dated fmt (Fields fs) = JObj (map (\<lambda>(k, v). (k, lower_dated fmt v)) fs)"

definition lower_entry :: "(int \<Rightarrow> string) \<Rightarrow> (string, dated) jsmap \<Rightarrow> obj" where
  "lower_entry fmt e = map (\<lambda>(k, v). (k, lower_dated fmt v)) e"

subsection \<open>Publishing and reading\<close>

text \<open>An entry the library writes: \<open>ne_expiresAt\<close> is also a column. The publishing context holds the terms.\<close>

record new_entry =
  ne_taskId :: string
  ne_entry :: obj
  ne_expiresAt :: "int option"

record publishing_context =
  pc_taskId :: string
  pc_offer :: json
  pc_resetClaim :: bool

definition put_offering :: "string \<Rightarrow> publishing_context option \<Rightarrow> new_entry \<Rightarrow> offer_table \<Rightarrow> offer_table" where
  "put_offering agentId ctx e db =
     (let mine = (case ctx of None \<Rightarrow> None | Some c \<Rightarrow> if pc_taskId c = ne_taskId e then Some c else None);
          offer = map_option pc_offer mine;
          reset = (case mine of None \<Rightarrow> False | Some c \<Rightarrow> pc_resetClaim c);
          key = (agentId, ne_taskId e)
      in case map_of db key of
           None \<Rightarrow> map_set key \<lparr>of_entry = ne_entry e, of_offer = offer, of_claimed = None, of_expires = ne_expiresAt e\<rparr> db
         | Some r \<Rightarrow>
             map_set key \<lparr>of_entry = ne_entry e, of_offer = coalesce offer (of_offer r),
                          of_claimed = (if reset then None else of_claimed r), of_expires = ne_expiresAt e\<rparr> db)"

definition publishing_terms :: "int \<Rightarrow> string \<Rightarrow> string \<Rightarrow> json \<Rightarrow> offer_table \<Rightarrow> string + publishing_context" where
  "publishing_terms now agentId taskId offer db =
     (case live_offering now agentId taskId db of
        Some r \<Rightarrow>
          if \<not> map_has (of_entry r) ''accepts''
          then Inr \<lparr>pc_taskId = taskId, pc_offer = offer, pc_resetClaim = True\<rparr>
          else if of_claimed r \<noteq> None then Inl (''x402 offering '' @ taskId @ '' is already claimed'')
          else (case Option.bind (of_offer r) reviveOffer of
                  None \<Rightarrow> Inl (''live x402 offering '' @ taskId @ '' has no frozen offer'')
                | Some frozen \<Rightarrow> Inr \<lparr>pc_taskId = taskId, pc_offer = frozen, pc_resetClaim = False\<rparr>)
      | None \<Rightarrow> Inr \<lparr>pc_taskId = taskId, pc_offer = offer, pc_resetClaim = True\<rparr>)"

text \<open>\<open>publish\<close> is what the library writes for the terms it is given, if it writes at all.\<close>

definition publishing ::
    "int \<Rightarrow> string \<Rightarrow> string \<Rightarrow> json \<Rightarrow> (json \<Rightarrow> new_entry option) \<Rightarrow> offer_table \<Rightarrow> string + json \<times> offer_table" where
  "publishing now agentId taskId offer publish db =
     (case publishing_terms now agentId taskId offer db of
        Inl err \<Rightarrow> Inl err
      | Inr ctx \<Rightarrow>
          Inr (pc_offer ctx,
               case publish (pc_offer ctx) of None \<Rightarrow> db | Some e \<Rightarrow> put_offering agentId (Some ctx) e db))"

definition get_entry :: "(string \<Rightarrow> int) \<Rightarrow> int \<Rightarrow> string \<Rightarrow> string \<Rightarrow> offer_table \<Rightarrow> (string, dated) jsmap option" where
  "get_entry ts now agentId taskId db = map_option (\<lambda>r. reviveEntry ts (of_entry r)) (live_offering now agentId taskId db)"

definition getOffer :: "int \<Rightarrow> string \<Rightarrow> string \<Rightarrow> offer_table \<Rightarrow> json option" where
  "getOffer now agentId taskId db = Option.bind (Option.bind (live_offering now agentId taskId db) of_offer) reviveOffer"

subsection \<open>The life of an offering\<close>

definition change_row :: "string \<Rightarrow> string \<Rightarrow> (offering \<Rightarrow> offering) \<Rightarrow> offer_table \<Rightarrow> offer_table" where
  "change_row agentId taskId f db =
     (case map_of db (agentId, taskId) of None \<Rightarrow> db | Some r \<Rightarrow> map_set (agentId, taskId) (f r) db)"

definition touched :: "(int \<Rightarrow> string) \<Rightarrow> int \<Rightarrow> obj \<Rightarrow> obj" where
  "touched fmt now e = map_set ''updatedAt'' (JStr (fmt now)) e"

definition pre_acceptance :: "obj \<Rightarrow> bool" where
  "pre_acceptance patch \<longleftrightarrow>
     map_of patch ''status'' = Some (JStr ''verified'') \<or>
     (case Option.bind (map_of patch ''failure'') as_record of
        None \<Rightarrow> False | Some f \<Rightarrow> map_of f ''point'' \<noteq> Some (JStr ''settle''))"

definition updateIfStatus ::
    "(int \<Rightarrow> string) \<Rightarrow> int \<Rightarrow> string \<Rightarrow> string \<Rightarrow> string list \<Rightarrow> obj \<Rightarrow> offer_table \<Rightarrow> bool \<times> offer_table" where
  "updateIfStatus fmt now agentId taskId expected patch db =
     (case live_offering now agentId taskId db of
        None \<Rightarrow> (False, db)
      | Some r \<Rightarrow>
          if (case str_field (of_entry r) ''status'' of None \<Rightarrow> True | Some st \<Rightarrow> st \<notin> set expected) \<or>
             pre_acceptance patch \<and> of_claimed r \<noteq> None
          then (False, db)
          else (True, change_row agentId taskId (\<lambda>r. r\<lparr>of_entry := touched fmt now (spread (of_entry r) patch)\<rparr>) db))"

definition update_entry :: "(int \<Rightarrow> string) \<Rightarrow> int \<Rightarrow> string \<Rightarrow> string \<Rightarrow> obj \<Rightarrow> offer_table \<Rightarrow> offer_table" where
  "update_entry fmt now agentId taskId patch db =
     snd (updateIfStatus fmt now agentId taskId [''offered'', ''verified'', ''completed'', ''failed'', ''rejected''] patch db)"

definition delivery_of :: "obj \<Rightarrow> obj" where
  "delivery_of e = get_or (Option.bind (map_of e ''merchantDelivery'') as_record) []"

text \<open>\<open>->>\<close> is not null.\<close>

definition present :: "obj \<Rightarrow> string \<Rightarrow> bool" where
  "present o1 k \<longleftrightarrow> map_of o1 k \<noteq> None \<and> map_of o1 k \<noteq> Some JNull"

definition keep_present :: "obj \<Rightarrow> string \<Rightarrow> obj" where
  "keep_present o1 k = (if present o1 k then [(k, the (map_of o1 k))] else [])"

record delivery_condition =
  dc_notAfter :: "int option"
  dc_started :: "bool option"
  dc_closed :: "bool option"

definition wanted :: "bool option \<Rightarrow> bool \<Rightarrow> bool" where
  "wanted c v \<longleftrightarrow> (case c of None \<Rightarrow> True | Some b \<Rightarrow> v = b)"

definition delivery_allowed :: "int \<Rightarrow> string list \<Rightarrow> obj \<Rightarrow> delivery_condition \<Rightarrow> offering \<Rightarrow> bool" where
  "delivery_allowed now expected patch c r \<longleftrightarrow>
     (let d = delivery_of (of_entry r); started = present d ''publicationStartedAt''; closed = present d ''publicationClosedAt''
      in (case str_field (of_entry r) ''status'' of None \<Rightarrow> False | Some st \<Rightarrow> st \<in> set expected) \<and>
         (case dc_notAfter c of None \<Rightarrow> True | Some t \<Rightarrow> now < t) \<and>
         wanted (dc_started c) started \<and> wanted (dc_closed c) closed \<and>
         (present patch ''timing'' \<or> present d ''timing'') \<and>
         \<not> ((started \<or> map_has patch ''publicationStartedAt'') \<and> (closed \<or> map_has patch ''publicationClosedAt'')))"

definition merge_delivery :: "(int \<Rightarrow> string) \<Rightarrow> int \<Rightarrow> obj \<Rightarrow> obj \<Rightarrow> obj" where
  "merge_delivery fmt now patch e =
     (let d = delivery_of e;
          merged = spread (spread d patch) (keep_present d ''publicationStartedAt'' @ keep_present d ''publicationClosedAt'')
      in touched fmt now (map_set ''merchantDelivery'' (JObj merged) e))"

definition updateMerchantDeliveryIfStatus ::
    "(int \<Rightarrow> string) \<Rightarrow> int \<Rightarrow> string \<Rightarrow> string \<Rightarrow> string list \<Rightarrow> obj \<Rightarrow> delivery_condition \<Rightarrow> offer_table \<Rightarrow>
     string option \<times> offer_table" where
  "updateMerchantDeliveryIfStatus fmt now agentId taskId expected patch c db =
     (case live_offering now agentId taskId db of
        None \<Rightarrow> (None, db)
      | Some r \<Rightarrow>
          if delivery_allowed now expected patch c r
          then (str_field (of_entry r) ''status'',
                change_row agentId taskId (\<lambda>r. r\<lparr>of_entry := merge_delivery fmt now patch (of_entry r)\<rparr>) db)
          else (None, db))"

definition deleteOffer :: "string \<Rightarrow> string \<Rightarrow> offer_table \<Rightarrow> offer_table" where
  "deleteOffer agentId taskId db = change_row agentId taskId (\<lambda>r. r\<lparr>of_offer := None\<rparr>) db"

definition delete_offering :: "string \<Rightarrow> string \<Rightarrow> offer_table \<Rightarrow> offer_table" where
  "delete_offering agentId taskId db = map_del (agentId, taskId) db"

subsection \<open>Claims\<close>

text \<open>\<open>ttl\<close> is the lifecycle in milliseconds: a day unless the environment says otherwise.\<close>

definition lifecycle_end :: "int \<Rightarrow> int \<Rightarrow> int option \<Rightarrow> int" where
  "lifecycle_end ttl now expires = (case expires of None \<Rightarrow> now + ttl | Some t \<Rightarrow> max t (now + ttl))"

definition claimed_row :: "(int \<Rightarrow> string) \<Rightarrow> int \<Rightarrow> int \<Rightarrow> offering \<Rightarrow> offering" where
  "claimed_row fmt ttl now r =
     (let until = lifecycle_end ttl now (of_expires r)
      in r\<lparr>of_claimed := Some now, of_expires := Some until,
           of_entry := touched fmt now
             (map_set ''expiresAt'' (JStr (fmt until))
               (map_set ''_bridgeOfferExpiresAt'' (case of_expires r of None \<Rightarrow> JNull | Some t \<Rightarrow> JStr (fmt t)) (of_entry r)))\<rparr>)"

definition claim_offering :: "(int \<Rightarrow> string) \<Rightarrow> int \<Rightarrow> int \<Rightarrow> string \<Rightarrow> string \<Rightarrow> offer_table \<Rightarrow> bool \<times> offer_table" where
  "claim_offering fmt ttl now agentId taskId db =
     (case live_offering now agentId taskId db of
        None \<Rightarrow> (False, db)
      | Some r \<Rightarrow>
          if of_claimed r \<noteq> None then (False, db) else (True, change_row agentId taskId (claimed_row fmt ttl now) db))"

datatype claim_status = Claimed | Available

definition getClaimStatus :: "int \<Rightarrow> string \<Rightarrow> string \<Rightarrow> offer_table \<Rightarrow> claim_status option" where
  "getClaimStatus now agentId taskId db =
     map_option (\<lambda>r. if of_claimed r \<noteq> None then Claimed else Available) (live_offering now agentId taskId db)"

definition released_row :: "(int \<Rightarrow> string) \<Rightarrow> (string \<Rightarrow> int) \<Rightarrow> int \<Rightarrow> offering \<Rightarrow> offering" where
  "released_row fmt ts now r =
     (case map_of (of_entry r) ''_bridgeOfferExpiresAt'' of
        None \<Rightarrow> r\<lparr>of_claimed := None\<rparr>
      | Some v \<Rightarrow>
          (let e = map_del ''expiresAt'' (map_del ''_bridgeOfferExpiresAt'' (of_entry r))
           in r\<lparr>of_claimed := None, of_expires := map_option ts (as_string v),
                of_entry := touched fmt now (if v = JNull then e else map_set ''expiresAt'' v e)\<rparr>))"

definition release_offering ::
    "(int \<Rightarrow> string) \<Rightarrow> (string \<Rightarrow> int) \<Rightarrow> int \<Rightarrow> string \<Rightarrow> string \<Rightarrow> offer_table \<Rightarrow> offer_table" where
  "release_offering fmt ts now agentId taskId db = change_row agentId taskId (released_row fmt ts now) db"

definition sweepExpiredX402Offerings :: "int \<Rightarrow> offer_table \<Rightarrow> nat \<times> offer_table" where
  "sweepExpiredX402Offerings now db =
     (let kept = filter (\<lambda>(k, r). case of_expires r of None \<Rightarrow> True | Some t \<Rightarrow> \<not> t \<le> now) db
      in (length db - length kept, kept))"

subsection \<open>A changed price\<close>

text \<open>\<open>parsed\<close> is the pricing of the agent's row, read again: \<open>None\<close> when there is no row, an unreadable one makes
  the agent free.\<close>

definition refresh_pricing :: "string \<Rightarrow> (string + x402_pricing option) option \<Rightarrow> srv \<Rightarrow> srv" where
  "refresh_pricing agentId parsed s =
     (if getAgent agentId s = None then s
      else (case parsed of
              None \<Rightarrow> s
            | Some (Inl err) \<Rightarrow> updateX402Pricing agentId None s
            | Some (Inr p) \<Rightarrow> updateX402Pricing agentId p s))"

end
