(* ===== verification/OffersFacts.thy ===== *)
theory OffersFacts
  imports Offers Frames
begin

text \<open>
  What the store of offerings promises: a payment is acted on once, a signer meets the terms it signed, the publication of
  an output is decided once, and a released claim gives back the deadline it had.
\<close>

subsection \<open>Steps\<close>

text \<open>Whatever any instance does, and the clock. The offerings of \<open>K\<close> are not released, deleted or settled. What
  the library writes outside a publication is an entry it has read, so it keeps the terms' columns; a
  lifecycle patch leaves the audit of the delivery to the operation that writes it.\<close>

definition carries_on :: "string \<Rightarrow> new_entry \<Rightarrow> offer_table \<Rightarrow> bool" where
  "carries_on agentId e db \<longleftrightarrow>
     (case map_of db (agentId, ne_taskId e) of
        None \<Rightarrow> True
      | Some r \<Rightarrow> ne_expiresAt e = of_expires r \<and> (map_has (of_entry r) ''accepts'' \<longrightarrow> map_has (ne_entry e) ''accepts'') \<and>
          delivery_of (ne_entry e) = delivery_of (of_entry r))"

inductive offer_step ::
    "(int \<Rightarrow> string) \<Rightarrow> (string \<Rightarrow> int) \<Rightarrow> int \<Rightarrow> (string \<times> string) set \<Rightarrow> int \<times> offer_table \<Rightarrow> int \<times> offer_table \<Rightarrow> bool"
  for fmt ts ttl K where
  Time: "now \<le> now' \<Longrightarrow> offer_step fmt ts ttl K (now, db) (now', db)"
| Publish: "publishing now a t offer publish db = Inr (frozen, db') \<Longrightarrow>
    (\<And>e :: new_entry. publish frozen = Some e \<Longrightarrow> ne_taskId e = t \<and> map_has (ne_entry e) ''accepts'') \<Longrightarrow>
    offer_step fmt ts ttl K (now, db) (now, db')"
| Put: "carries_on a (e :: new_entry) db \<Longrightarrow> offer_step fmt ts ttl K (now, db) (now, put_offering a None e db)"
| Patch: "\<not> map_has patch ''merchantDelivery'' \<Longrightarrow>
    offer_step fmt ts ttl K (now, db) (now, snd (updateIfStatus fmt now a t expected patch db))"
| Deliver: "offer_step fmt ts ttl K (now, db) (now, snd (updateMerchantDeliveryIfStatus fmt now a t expected patch c db))"
| Settle: "(a, t) \<notin> K \<Longrightarrow> offer_step fmt ts ttl K (now, db) (now, deleteOffer a t db)"
| Delete: "(a, t) \<notin> K \<Longrightarrow> offer_step fmt ts ttl K (now, db) (now, delete_offering a t db)"
| Claim: "offer_step fmt ts ttl K (now, db) (now, snd (claim_offering fmt ttl now a t db))"
| Release: "(a, t) \<notin> K \<Longrightarrow> offer_step fmt ts ttl K (now, db) (now, release_offering fmt ts now a t db)"
| Sweep: "offer_step fmt ts ttl K (now, db) (now, snd (sweepExpiredX402Offerings now db))"

lemma step_time: "offer_step fmt ts ttl K (now, db) (now', db') \<Longrightarrow> now \<le> now'"
  by (cases rule: offer_step.cases) auto

lemma steps_time: "(offer_step fmt ts ttl K)\<^sup>*\<^sup>* x y \<Longrightarrow> fst x \<le> fst y"
proof (induction rule: rtranclp_induct)
  case (step y z)
  then show ?case using step_time [of fmt ts ttl K "fst y" "snd y" "fst z" "snd z"] by simp
qed simp

subsection \<open>Rows and entries\<close>

lemma change_row_at: "map_of (change_row a t f db) k = (if k = (a, t) then map_option f (map_of db k) else map_of db k)"
  by (cases "map_of db (a, t)") (auto simp: change_row_def)

lemma spread_has: "map_has a k \<Longrightarrow> map_has (spread a b) k"
  by (induction b arbitrary: a) auto

lemma spread_other: "map_of b k = None \<Longrightarrow> map_of (spread a b) k = map_of a k"
  by (induction b arbitrary: a) (auto split: if_splits)

lemma live_row: "live_offering now a t db = Some r \<longleftrightarrow> map_of db (a, t) = Some r \<and> offer_alive now r"
  by (cases "map_of db (a, t)") (auto simp: live_offering_def)

lemma touched_entry [simp]:
  "map_has (touched fmt now e) k \<longleftrightarrow> k = ''updatedAt'' \<or> map_has e k" "delivery_of (touched fmt now e) = delivery_of e"
  by (simp_all add: touched_def delivery_of_def)

text \<open>What a step makes of one row, when it is of an offering that is kept.\<close>

lemma row_step:
  assumes "offer_step fmt ts ttl K (now, db) (now', db')" "(a, t) \<in> K" "map_of db (a, t) = Some r" "offer_alive now r"
    and "map_has (of_entry r) ''accepts''"
  obtains (same) "map_of db' (a, t) = Some r"
  | (published) e :: new_entry and frozen where "of_claimed r = None" "Option.bind (of_offer r) reviveOffer = Some frozen"
      "map_has (ne_entry e) ''accepts''"
      "map_of db' (a, t) = Some \<lparr>of_entry = ne_entry e, of_offer = Some frozen, of_claimed = None, of_expires = ne_expiresAt e\<rparr>"
  | (entry) e where "map_of db' (a, t) = Some (r\<lparr>of_entry := e\<rparr>)" "map_has e ''accepts''" "delivery_of e = delivery_of (of_entry r)"
  | (delivery) patch expected c where "map_of db' (a, t) = Some (r\<lparr>of_entry := merge_delivery fmt now patch (of_entry r)\<rparr>)"
      "delivery_allowed now expected patch c r"
  | (claimed) "of_claimed r = None" "map_of db' (a, t) = Some (claimed_row fmt ttl now r)"
  using assms(1)
proof cases
  case Time
  then show ?thesis using assms(3) by (intro same) simp
next
  case (Publish a' t' offer publish frozen)
  show ?thesis
  proof (cases "(a', t') = (a, t)")
    case True
    have l: "live_offering now a t db = Some r" using assms(3,4) by (simp add: live_row)
    then have c: "of_claimed r = None" and f: "Option.bind (of_offer r) reviveOffer = Some frozen"
      and db': "db' = (case publish frozen of None \<Rightarrow> db
        | Some e \<Rightarrow> put_offering a (Some \<lparr>pc_taskId = t, pc_offer = frozen, pc_resetClaim = False\<rparr>) e db)"
      using Publish(2) True assms(5)
      by (auto simp: publishing_def publishing_terms_def split: if_splits option.splits sum.splits)
    show ?thesis
    proof (cases "publish frozen")
      case None
      then show ?thesis using db' assms(3) by (intro same) simp
    next
      case (Some e)
      then have "ne_taskId e = t" "map_has (ne_entry e) ''accepts''" using Publish(3) True by auto
      then show ?thesis using db' Some c f assms(3) by (intro published [of frozen e]) (simp_all add: put_offering_def)
    qed
  next
    case False
    have "map_of db' (a, t) = map_of db (a, t)"
      using Publish(2,3) False
      by (auto simp: publishing_def put_offering_def Let_def split: sum.splits option.splits)
    then show ?thesis using assms(3) by (intro same) simp
  qed
next
  case (Put a' e)
  show ?thesis
  proof (cases "(a', ne_taskId e) = (a, t)")
    case True
    then have "map_of db' (a, t) = Some (r\<lparr>of_entry := ne_entry e\<rparr>)" "map_has (ne_entry e) ''accepts''"
        "delivery_of (ne_entry e) = delivery_of (of_entry r)"
      using Put assms(3,5) by (auto simp: put_offering_def carries_on_def)
    then show ?thesis by (rule entry)
  next
    case False
    then have "map_of db' (a, t) = map_of db (a, t)" using Put(2) by (auto simp: put_offering_def Let_def split: option.splits)
    then show ?thesis using assms(3) by (intro same) simp
  qed
next
  case (Patch patch a' t' expected)
  show ?thesis
  proof (cases "map_of db' (a, t) = map_of db (a, t)")
    case True
    then show ?thesis using assms(3) by (intro same) simp
  next
    case False
    have "map_of db' (a, t) = Some (r\<lparr>of_entry := touched fmt now (spread (of_entry r) patch)\<rparr>)"
      using False Patch(2) assms(3)
      by (auto simp: updateIfStatus_def change_row_at split: option.splits if_splits)
    moreover have "delivery_of (spread (of_entry r) patch) = delivery_of (of_entry r)"
      using Patch(3) spread_other [of patch "''merchantDelivery''" "of_entry r"] by (simp add: delivery_of_def)
    moreover have "map_has (spread (of_entry r) patch) ''accepts''" using assms(5) by (rule spread_has)
    ultimately show ?thesis by (intro entry [of "touched fmt now (spread (of_entry r) patch)"]) (auto simp only: touched_entry)
  qed
next
  case (Deliver a' t' expected patch c)
  show ?thesis
  proof (cases "map_of db' (a, t) = map_of db (a, t)")
    case True
    then show ?thesis using assms(3) by (intro same) simp
  next
    case False
    then have "map_of db' (a, t) = Some (r\<lparr>of_entry := merge_delivery fmt now patch (of_entry r)\<rparr>)" "delivery_allowed now expected patch c r"
      using Deliver(2) assms(3)
      by (auto simp: updateMerchantDeliveryIfStatus_def change_row_at live_row split: option.splits if_splits)
    then show ?thesis by (rule delivery)
  qed
next
  case (Settle a' t')
  then have "(a', t') \<noteq> (a, t)" using assms(2) by auto
  then show ?thesis using Settle(2) assms(3) by (intro same) (auto simp: deleteOffer_def change_row_at)
next
  case (Delete a' t')
  then have "(a', t') \<noteq> (a, t)" using assms(2) by auto
  then show ?thesis using Delete(2) assms(3) by (intro same) (auto simp: delete_offering_def)
next
  case (Claim a' t')
  show ?thesis
  proof (cases "map_of db' (a, t) = map_of db (a, t)")
    case True
    then show ?thesis using assms(3) by (intro same) simp
  next
    case False
    then have "map_of db' (a, t) = Some (claimed_row fmt ttl now r)" "of_claimed r = None"
      using Claim(2) assms(3) by (auto simp: claim_offering_def change_row_at live_row split: option.splits if_splits)
    then show ?thesis by (intro claimed)
  qed
next
  case (Release a' t')
  then have "(a', t') \<noteq> (a, t)" using assms(2) by auto
  then show ?thesis using Release(2) assms(3) by (intro same) (auto simp: release_offering_def change_row_at)
next
  case Sweep
  have "map_of db' (a, t) = Some r"
    using Sweep(2) assms(3,4)
    by (auto simp: sweepExpiredX402Offerings_def Let_def offer_alive_def map_of_filter_kept split: option.splits)
  then show ?thesis by (rule same)
qed

text \<open>A property of the row of a kept offering that outlives every step before \<open>lim\<close>.\<close>

lemma row_kept:
  assumes "(offer_step fmt ts ttl K)\<^sup>*\<^sup>* (now, db) (now', db')" "(a, t) \<in> K" "map_of db (a, t) = Some r" "Q r" "now' < lim"
    and alive: "\<And>r n. Q r \<Longrightarrow> n < lim \<Longrightarrow> offer_alive n r \<and> map_has (of_entry r) ''accepts'' \<and> of_claimed r \<noteq> None"
    and ent: "\<And>r e. Q r \<Longrightarrow> map_has e ''accepts'' \<Longrightarrow> delivery_of e = delivery_of (of_entry r) \<Longrightarrow> Q (r\<lparr>of_entry := e\<rparr>)"
    and del: "\<And>r n patch expected c. Q r \<Longrightarrow> delivery_allowed n expected patch c r \<Longrightarrow>
      Q (r\<lparr>of_entry := merge_delivery fmt n patch (of_entry r)\<rparr>)"
  obtains r' where "map_of db' (a, t) = Some r'" "Q r'"
proof -
  have "fst y < lim \<Longrightarrow> \<exists>r'. map_of (snd y) (a, t) = Some r' \<and> Q r'"
    if "(offer_step fmt ts ttl K)\<^sup>*\<^sup>* (now, db) y" for y
    using that
  proof (induction rule: rtranclp_induct)
    case base
    then show ?case using assms(3,4) by simp
  next
    case (step y z)
    have st: "offer_step fmt ts ttl K (fst y, snd y) (fst z, snd z)" using step.hyps(2) by simp
    have "fst y < lim" using step_time [OF st] step.prems by simp
    then obtain r1 where r1: "map_of (snd y) (a, t) = Some r1" "Q r1" using step.IH by blast
    have ok: "offer_alive (fst y) r1" "map_has (of_entry r1) ''accepts''" "of_claimed r1 \<noteq> None"
      using alive [OF r1(2) \<open>fst y < lim\<close>] by simp_all
    from st assms(2) r1(1) ok(1,2) show ?case
    proof (cases rule: row_step)
      case same
      then show ?thesis using r1(2) by simp
    next
      case (published e frozen)
      then show ?thesis using ok(3) by simp
    next
      case (entry e)
      then show ?thesis using ent [OF r1(2)] by simp
    next
      case (delivery patch expected c)
      then show ?thesis using del [OF r1(2)] by simp
    next
      case claimed
      then show ?thesis using ok(3) by simp
    qed
  qed
  from this [OF assms(1)] assms(5) show ?thesis by (auto intro: that)
qed

subsection \<open>A payment is acted on once\<close>

definition held_until :: "int \<Rightarrow> offering \<Rightarrow> bool" where
  "held_until lim r \<longleftrightarrow> of_claimed r \<noteq> None \<and> map_has (of_entry r) ''accepts'' \<and> (\<exists>u. of_expires r = Some u \<and> lim \<le> u)"

lemma held_alive: "held_until lim r \<Longrightarrow> n < lim \<Longrightarrow> offer_alive n r \<and> map_has (of_entry r) ''accepts'' \<and> of_claimed r \<noteq> None"
  by (auto simp: held_until_def offer_alive_def)

lemma held_entry: "held_until lim r \<Longrightarrow> map_has e ''accepts'' \<Longrightarrow> held_until lim (r\<lparr>of_entry := e\<rparr>)"
  by (simp add: held_until_def)

lemma held_delivery: "held_until lim r \<Longrightarrow> held_until lim (r\<lparr>of_entry := merge_delivery fmt n patch (of_entry r)\<rparr>)"
  by (simp add: held_until_def merge_delivery_def touched_def Let_def)

lemma claim_holds:
  assumes "claim_offering fmt ttl now a t db = (True, db')" "live_offering now a t db = Some r" "map_has (of_entry r) ''accepts''"
  shows "map_of db' (a, t) = Some (claimed_row fmt ttl now r)" "held_until (now + ttl) (claimed_row fmt ttl now r)"
proof -
  show "map_of db' (a, t) = Some (claimed_row fmt ttl now r)"
    using assms(1,2) by (auto simp: claim_offering_def change_row_at live_row split: if_splits)
  show "held_until (now + ttl) (claimed_row fmt ttl now r)"
    using assms(3) by (auto simp: held_until_def claimed_row_def Let_def lifecycle_end_def touched_def split: option.splits)
qed

text \<open>
  Claim C7. A payment is acted on once. When one instance has won the claim of a published offering, no claim of it succeeds
  for the whole lifecycle that follows, and its status is claimed: whatever republications, lifecycle patches,
  publication decisions, claims, sweeps and passing of time any instance adds, and whatever happens to the offerings of
  other tasks and agents, as long as this one is not released or deleted.
\<close>
theorem payment_claimed_once:
  assumes "claim_offering fmt ttl now a t db = (True, db1)" "live_offering now a t db = Some r" "map_has (of_entry r) ''accepts''"
    and "(offer_step fmt ts ttl {(a, t)})\<^sup>*\<^sup>* (now, db1) (now', db')" "now' < now + ttl"
  shows "claim_offering fmt ttl now' a t db' = (False, db') \<and> getClaimStatus now' a t db' = Some Claimed \<and>
    (\<exists>err. publishing now' a t offer publish db' = Inl err)"
proof -
  note h = claim_holds [OF assms(1,2,3)]
  obtain r' where r': "map_of db' (a, t) = Some r'" "held_until (now + ttl) r'"
    by (rule row_kept [where Q = "held_until (now + ttl)", OF assms(4) _ h assms(5)])
      (simp_all only: held_alive held_entry held_delivery insert_iff simp_thms)
  then have "live_offering now' a t db' = Some r'" "of_claimed r' \<noteq> None" "map_has (of_entry r') ''accepts''"
    using held_alive [OF r'(2) assms(5)] by (simp_all add: live_row)
  then show ?thesis by (auto simp: claim_offering_def getClaimStatus_def publishing_def publishing_terms_def)
qed

subsection \<open>A publication is decided once\<close>

abbreviation marks :: "string set" where
  "marks \<equiv> {''publicationStartedAt'', ''publicationClosedAt''}"

definition decided_as :: "obj \<Rightarrow> obj \<Rightarrow> bool" where
  "decided_as d0 d \<longleftrightarrow> \<not> (present d ''publicationStartedAt'' \<and> present d ''publicationClosedAt'') \<and>
     (\<forall>k\<in>marks. present d0 k \<longrightarrow> map_of d k = map_of d0 k)"

lemma keep_map_of: "map_of (keep_present d k) k' = (if k = k' \<and> present d k then map_of d k else None)"
  by (auto simp: keep_present_def present_def)

lemma kept_keys: "distinct (map fst (keep_present d ''publicationStartedAt'' @ keep_present d ''publicationClosedAt''))"
  by (simp add: keep_present_def)

lemma merged_delivery:
  "map_of (delivery_of (merge_delivery fmt n patch e)) k =
    (if k \<in> marks \<and> present (delivery_of e) k then map_of (delivery_of e) k else map_of (spread (delivery_of e) patch) k)"
proof -
  let ?d = "delivery_of e"
  have "delivery_of (merge_delivery fmt n patch e) =
      spread (spread ?d patch) (keep_present ?d ''publicationStartedAt'' @ keep_present ?d ''publicationClosedAt'')"
    by (simp add: merge_delivery_def touched_def delivery_of_def Let_def)
  moreover have "map_of (keep_present ?d ''publicationStartedAt'' @ keep_present ?d ''publicationClosedAt'') k =
      (if k \<in> marks \<and> present ?d k then map_of ?d k else None)"
    by (auto simp: map_add_def keep_map_of split: option.splits)
  ultimately show ?thesis
    by (auto simp only: map_of_spread [OF kept_keys] split: if_splits) (auto simp: present_def)
qed

lemma present_spread: "present (spread d patch) k \<Longrightarrow> present d k \<or> map_has patch k"
  using spread_other [of patch k d] unfolding present_def by argo

lemma decided_delivery:
  assumes "decided_as d0 (delivery_of (of_entry r))" "delivery_allowed n expected patch c r"
  shows "decided_as d0 (delivery_of (merge_delivery fmt n patch (of_entry r)))"
proof -
  let ?d = "delivery_of (of_entry r)" and ?m = "delivery_of (merge_delivery fmt n patch (of_entry r))"
  have same: "map_of ?m k = map_of ?d k" if "k \<in> marks" "present ?d k" for k
    using that by (simp only: merged_delivery simp_thms if_True)
  have new: "present ?d k \<or> map_has patch k" if "k \<in> marks" "present ?m k" for k
  proof (cases "present ?d k")
    case False
    then have "map_of ?m k = map_of (spread ?d patch) k" by (simp only: merged_delivery simp_thms if_False)
    then have "present (spread ?d patch) k" using that(2) by (simp only: present_def simp_thms)
    then show ?thesis by (rule present_spread)
  qed simp
  have "\<not> ((present ?d ''publicationStartedAt'' \<or> map_has patch ''publicationStartedAt'') \<and>
      (present ?d ''publicationClosedAt'' \<or> map_has patch ''publicationClosedAt''))"
    using assms(2) unfolding delivery_allowed_def Let_def by blast
  then have "\<not> (present ?m ''publicationStartedAt'' \<and> present ?m ''publicationClosedAt'')"
    using new [of "''publicationStartedAt''"] new [of "''publicationClosedAt''"] by blast
  moreover have "map_of ?m k = map_of d0 k" if "k \<in> marks" "present d0 k" for k
  proof -
    have "map_of ?d k = map_of d0 k" using assms(1) that unfolding decided_as_def by blast
    then show ?thesis using same [OF that(1)] that(2) by (simp add: present_def)
  qed
  ultimately show ?thesis unfolding decided_as_def by blast
qed


subsection \<open>Terms are frozen\<close>

text \<open>Steps between states in which the offering is live.\<close>

definition live_step ::
    "(int \<Rightarrow> string) \<Rightarrow> (string \<Rightarrow> int) \<Rightarrow> int \<Rightarrow> string \<Rightarrow> string \<Rightarrow> int \<times> offer_table \<Rightarrow> int \<times> offer_table \<Rightarrow> bool" where
  "live_step fmt ts ttl a t x y \<longleftrightarrow>
     offer_step fmt ts ttl {(a, t)} x y \<and> live_offering (fst y) a t (snd y) \<noteq> None"

definition frozen_row :: "json \<Rightarrow> offering \<Rightarrow> bool" where
  "frozen_row o1 r \<longleftrightarrow> map_has (of_entry r) ''accepts'' \<and> Option.bind (of_offer r) reviveOffer = Some o1"

lemma reviveOffer_same: "reviveOffer raw = Some o1 \<Longrightarrow> o1 = raw"
  by (auto simp: reviveOffer_def split: option.splits json.splits list.splits)

lemma reviveOffer_again: "Option.bind x reviveOffer = Some o1 \<Longrightarrow> reviveOffer o1 = Some o1"
  using reviveOffer_same by (cases x) auto

lemma frozen_step:
  assumes "offer_step fmt ts ttl {(a, t)} (now, db) (now', db')" "live_offering now a t db = Some r" "frozen_row o1 r"
  shows "\<exists>r'. map_of db' (a, t) = Some r' \<and> frozen_row o1 r'"
proof -
  have r: "map_of db (a, t) = Some r" "offer_alive now r" "map_has (of_entry r) ''accepts''"
    and o1: "Option.bind (of_offer r) reviveOffer = Some o1"
    using assms(2,3) by (simp_all add: live_row frozen_row_def)
  from assms(1) insertI1 r show ?thesis
  proof (cases rule: row_step)
    case (published e frozen)
    then show ?thesis using o1 reviveOffer_again [OF o1] by (simp add: frozen_row_def)
  qed (use assms(3) in \<open>auto simp: frozen_row_def merge_delivery_def claimed_row_def touched_def Let_def\<close>)
qed

text \<open>
  Claim C9. The signer meets the terms it signed. As long as a published offering stays live, it is not settled or
  deleted and its claim is not released, the stored terms are the ones it was first offered under, whatever terms later
  publications were called with; such a publication is refused or runs under the stored terms too, and what it answers
  are those.
\<close>
theorem terms_are_frozen:
  assumes "live_offering now a t db = Some r" "frozen_row o1 r" "(live_step fmt ts ttl a t)\<^sup>*\<^sup>* (now, db) (now', db')"
  shows "getOffer now' a t db' = Some o1 \<and>
    (case publishing now' a t offer publish db' of Inl err \<Rightarrow> True | Inr (frozen, db2) \<Rightarrow> frozen = o1)"
proof -
  have "\<exists>r'. live_offering (fst y) a t (snd y) = Some r' \<and> frozen_row o1 r'"
    if "(live_step fmt ts ttl a t)\<^sup>*\<^sup>* (now, db) y" for y
    using that
  proof (induction rule: rtranclp_induct)
    case base
    then show ?case using assms(1,2) by simp
  next
    case (step y z)
    then obtain r1 where "live_offering (fst y) a t (snd y) = Some r1" "frozen_row o1 r1" by blast
    with step.hyps(2) obtain r2 where "map_of (snd z) (a, t) = Some r2" "frozen_row o1 r2"
      using frozen_step [of fmt ts ttl a t "fst y" "snd y" "fst z" "snd z"] by (auto simp: live_step_def)
    with step.hyps(2) show ?case by (auto simp: live_step_def live_row)
  qed
  from this [OF assms(3)] show ?thesis
    by (auto simp: getOffer_def publishing_def publishing_terms_def frozen_row_def split: option.splits)
qed

subsection \<open>Releasing a claim\<close>

lemma entry_of_claim:
  "map_of (of_entry (claimed_row fmt ttl now r)) ''_bridgeOfferExpiresAt'' =
    Some (case of_expires r of None \<Rightarrow> JNull | Some t \<Rightarrow> JStr (fmt t))"
  by (simp add: claimed_row_def touched_def Let_def)

text \<open>
  A claim that is released gives back the right it took and the deadline the payer signed under: the column
  and the entry's own deadline are what they were before the claim, so that the longer retention of accepted work cannot
  be used to submit an offer that has run out.
\<close>
theorem release_restores_the_deadline:
  assumes "claim_offering fmt ttl now a t db = (True, db1)" "map_of db (a, t) = Some r" "\<And>x. ts (fmt x) = x"
  shows "\<exists>r'. map_of (release_offering fmt ts now' a t db1) (a, t) = Some r' \<and> of_claimed r' = None \<and>
    of_expires r' = of_expires r \<and> of_offer r' = of_offer r \<and>
    map_of (of_entry r') ''expiresAt'' = map_option (\<lambda>x. JStr (fmt x)) (of_expires r) \<and>
    (\<forall>k. k \<noteq> ''expiresAt'' \<and> k \<noteq> ''updatedAt'' \<and> k \<noteq> ''_bridgeOfferExpiresAt'' \<longrightarrow>
      map_of (of_entry r') k = map_of (of_entry r) k)"
proof -
  have "map_of db1 (a, t) = Some (claimed_row fmt ttl now r)"
    using assms(1,2) by (auto simp: claim_offering_def change_row_at live_row split: option.splits if_splits)
  then show ?thesis using assms(3)
    by (cases "of_expires r")
      (simp_all add: release_offering_def change_row_at released_row_def claimed_row_def touched_def Let_def)
qed

end
