(* ===== verification/OffersSamples.thy ===== *)
theory OffersSamples
  imports OffersFacts
begin

text \<open>The promises of the store of offerings, applied to an offering that is made, claimed, published and released.\<close>

definition offer_fmt :: "int \<Rightarrow> string" where
  "offer_fmt x = (if 0 \<le> x then replicate (nat x) CHR ''i'' else CHR ''-'' # replicate (nat (- x)) CHR ''i'')"

definition offer_ts :: "string \<Rightarrow> int" where
  "offer_ts s = (case s of CHR ''-'' # r \<Rightarrow> - int (length r) | _ \<Rightarrow> int (length s))"

lemma offer_ts_fmt: "offer_ts (offer_fmt x) = x"
proof (cases "0 \<le> x")
  case True
  have "offer_ts (replicate n CHR ''i'') = int n" for n by (cases n) (simp_all add: offer_ts_def)
  then show ?thesis using True by (simp add: offer_fmt_def)
qed (simp add: offer_fmt_def offer_ts_def)

abbreviation sample_terms :: "string \<Rightarrow> json" where
  "sample_terms price \<equiv> JObj [(''accepts'', JArr [JStr price])]"

definition sample_offering :: offering where
  "sample_offering = \<lparr>of_entry = [(''status'', JStr ''offered''), (''accepts'', JArr [JStr ''exact''])],
     of_offer = Some (sample_terms ''1''), of_claimed = None, of_expires = Some 10\<rparr>"

definition sample_offers :: offer_table where
  "sample_offers = [((''agent'', ''task''), sample_offering)]"

definition claimed_offers :: offer_table where
  "claimed_offers = snd (claim_offering offer_fmt 50 5 ''agent'' ''task'' sample_offers)"

definition started_offers :: offer_table where
  "started_offers = snd (updateMerchantDeliveryIfStatus offer_fmt 20 ''agent'' ''task'' [''offered'']
     [(''timing'', JStr ''sync''), (''publicationStartedAt'', JStr ''t20'')]
     \<lparr>dc_notAfter = None, dc_started = None, dc_closed = Some False\<rparr> claimed_offers)"

lemma sample_live: "live_offering 5 ''agent'' ''task'' sample_offers = Some sample_offering"
  by (simp add: live_offering_def sample_offers_def offer_alive_def sample_offering_def)

lemma sample_claimed: "claim_offering offer_fmt 50 5 ''agent'' ''task'' sample_offers = (True, claimed_offers)"
  using sample_live by (simp add: claimed_offers_def claim_offering_def sample_offering_def)

lemma sample_started: "(offer_step offer_fmt offer_ts 50 {(''agent'', ''task'')})\<^sup>*\<^sup>* (5, claimed_offers) (20, started_offers)"
proof -
  have "offer_step offer_fmt offer_ts 50 {(''agent'', ''task'')} (5, claimed_offers) (20, claimed_offers)"
    by (rule Time) simp
  moreover have "offer_step offer_fmt offer_ts 50 {(''agent'', ''task'')} (20, claimed_offers) (20, started_offers)"
    unfolding started_offers_def by (rule Deliver)
  ultimately show ?thesis by (rule rtranclp.rtrancl_into_rtrancl [OF r_into_rtranclp])
qed

lemma payment_claimed_once_witness:
  "claim_offering offer_fmt 50 20 ''agent'' ''task'' started_offers = (False, started_offers) \<and>
   getClaimStatus 20 ''agent'' ''task'' started_offers = Some Claimed"
  using payment_claimed_once [OF sample_claimed sample_live _ sample_started] by (simp add: sample_offering_def)


text \<open>A publication under another price, which writes the entry again with a later deadline.\<close>

definition sample_publish :: "json \<Rightarrow> new_entry option" where
  "sample_publish o1 = Some \<lparr>ne_taskId = ''task'', ne_entry = [(''status'', JStr ''offered''), (''accepts'', o1)], ne_expiresAt = Some 30\<rparr>"

definition republished_offers :: offer_table where
  "republished_offers = [((''agent'', ''task''), \<lparr>of_entry = [(''status'', JStr ''offered''), (''accepts'', sample_terms ''1'')],
     of_offer = Some (sample_terms ''1''), of_claimed = None, of_expires = Some 30\<rparr>)]"

lemma sample_republished:
  "publishing 5 ''agent'' ''task'' (sample_terms ''9'') sample_publish sample_offers = Inr (sample_terms ''1'', republished_offers)"
  using sample_live
  by (simp add: publishing_def publishing_terms_def put_offering_def Let_def sample_publish_def republished_offers_def
      sample_offers_def sample_offering_def reviveOffer_def)

lemma terms_are_frozen_witness:
  "getOffer 5 ''agent'' ''task'' republished_offers = Some (sample_terms ''1'') \<and>
    (case publishing 5 ''agent'' ''task'' (sample_terms ''9'') sample_publish republished_offers of
      Inl err \<Rightarrow> True | Inr (frozen, db2) \<Rightarrow> frozen = sample_terms ''1'')"
proof (rule terms_are_frozen [OF sample_live])
  show "frozen_row (sample_terms ''1'') sample_offering"
    by (simp add: frozen_row_def sample_offering_def reviveOffer_def)
  have "offer_step offer_fmt offer_ts 50 {(''agent'', ''task'')} (5, sample_offers) (5, republished_offers)"
    using sample_republished by (rule Publish) (simp add: sample_publish_def)
  then have "live_step offer_fmt offer_ts 50 ''agent'' ''task'' (5, sample_offers) (5, republished_offers)"
    by (simp add: live_step_def live_offering_def republished_offers_def offer_alive_def)
  then show "(live_step offer_fmt offer_ts 50 ''agent'' ''task'')\<^sup>*\<^sup>* (5, sample_offers) (5, republished_offers)"
    by (rule r_into_rtranclp)
qed

lemma release_restores_the_deadline_witness:
  "\<exists>r'. map_of (release_offering offer_fmt offer_ts 20 ''agent'' ''task'' claimed_offers) (''agent'', ''task'') = Some r' \<and>
    of_claimed r' = None \<and> of_expires r' = Some 10"
  using release_restores_the_deadline [OF sample_claimed _ offer_ts_fmt, of sample_offering 20]
  by (auto simp: sample_offers_def sample_offering_def)

end
