(* ===== verification/Ownership.thy ===== *)
theory Ownership
  imports Access Reserved
begin

text \<open>
  Who owns an agent: its registration (\<open>register_client\<close>, \<open>delete_client\<close> and \<open>update_client_allowed_agents\<close> of
  packages/server/schema.sql with the trigger that counts changes of owner), and the transfer of an agent by an
  administrator (packages/server/src/agent-transfer.ts). The columns of \<open>agents\<close> that say who may call it are those of
  theory Access. Generated ids and tokens are arguments; a transaction is one step.
\<close>

subsection \<open>Tables\<close>

record agent_owner =
  ao_id :: string
  ao_client :: string
  ao_owner :: string
  ao_email :: "string option"
  ao_name :: string
  ao_hash :: string
  ao_revision :: nat

record client_own =
  co_id :: string
  co_owner :: string
  co_email :: "string option"
  co_name :: string
  co_hash :: string
  co_agents :: "string list"

record policy_own =
  po_agent :: string
  po_owner :: string
  po_client :: string

record ownership =
  ow_agents :: "agent_owner list"
  ow_clients :: "client_own list"
  ow_policies :: "policy_own list"

definition find_agent :: "string \<Rightarrow> ownership \<Rightarrow> agent_owner option" where
  "find_agent agentId ow = List.find (\<lambda>a. ao_id a = agentId) (ow_agents ow)"

text \<open>An update of \<open>agents\<close> under the trigger \<open>agents_owner_revision\<close>.\<close>

definition bump_revision :: "agent_owner \<Rightarrow> agent_owner \<Rightarrow> agent_owner" where
  "bump_revision old new = (if ao_owner new \<noteq> ao_owner old then new\<lparr>ao_revision := ao_revision old + 1\<rparr> else new)"

definition update_agents :: "(agent_owner \<Rightarrow> bool) \<Rightarrow> (agent_owner \<Rightarrow> agent_owner) \<Rightarrow> ownership \<Rightarrow> ownership" where
  "update_agents P f ow = ow\<lparr>ow_agents := map (\<lambda>a. if P a then bump_revision a (f a) else a) (ow_agents ow)\<rparr>"

subsection \<open>Registration\<close>

text \<open>For a principal that is no administrator, as the device flow calls it. A client row the new id already has is kept.\<close>

definition register_client ::
    "(string \<Rightarrow> string) \<Rightarrow> string \<Rightarrow> string \<Rightarrow> string \<Rightarrow> string \<Rightarrow> string list \<Rightarrow> ownership \<Rightarrow>
     string + agent_owner \<times> ownership" where
  "register_client sha clientId token principalId name ids ow =
     (case findReservedAgentId ids of
        Some i \<Rightarrow> Inl (''agent id '' @ quoted i @ '' is reserved by the bridge'')
      | None \<Rightarrow>
     (case ids of
        [i] \<Rightarrow>
          if principalId = [] then Inl ''current principal is not set''
          else
            (let a = \<lparr>ao_id = i, ao_client = clientId, ao_owner = principalId, ao_email = None, ao_name = name,
                      ao_hash = sha token, ao_revision = 0\<rparr>;
                 cl = \<lparr>co_id = clientId, co_owner = principalId, co_email = None, co_name = name,
                       co_hash = sha token, co_agents = [i]\<rparr>
             in if list_ex (\<lambda>b. ao_id b = i \<or> ao_client b = clientId \<or> ao_hash b = sha token) (ow_agents ow)
                then Inl ''duplicate key value violates unique constraint''
                else if list_ex (\<lambda>b. co_id b = clientId) (ow_clients ow)
                then Inr (a, ow\<lparr>ow_agents := ow_agents ow @ [a]\<rparr>)
                else if list_ex (\<lambda>b. co_hash b = sha token) (ow_clients ow)
                then Inl ''duplicate key value violates unique constraint''
                else Inr (a, ow\<lparr>ow_agents := ow_agents ow @ [a], ow_clients := ow_clients ow @ [cl]\<rparr>))
      | _ \<Rightarrow> Inl ''exactly one allowed_agent_id is required''))"

text \<open>The e-mail the device flow stamps on a registration.\<close>

definition stamp_email :: "string \<Rightarrow> string \<Rightarrow> ownership \<Rightarrow> ownership" where
  "stamp_email email clientId ow =
     (update_agents (\<lambda>a. ao_client a = clientId) (\<lambda>a. a\<lparr>ao_email := Some email\<rparr>) ow)
       \<lparr>ow_clients := map (\<lambda>c. if co_id c = clientId then c\<lparr>co_email := Some email\<rparr> else c) (ow_clients ow)\<rparr>"

text \<open>Both with the rows the caller may see; the row policies are those of theory Access.\<close>

definition target_client :: "string \<Rightarrow> ownership \<Rightarrow> string" where
  "target_client target ow =
     (case List.find (\<lambda>a. ao_client a = target \<or> ao_id a = target) (ow_agents ow) of None \<Rightarrow> target | Some a \<Rightarrow> ao_client a)"

definition delete_client :: "string \<Rightarrow> ownership \<Rightarrow> ownership option" where
  "delete_client target ow =
     (let t = target_client target ow
      in if \<not> list_ex (\<lambda>c. co_id c = t) (ow_clients ow) then None
         else Some \<lparr>ow_agents = filter (\<lambda>a. ao_client a \<noteq> t) (ow_agents ow),
                    ow_clients = filter (\<lambda>c. co_id c \<noteq> t) (ow_clients ow),
                    ow_policies = filter (\<lambda>p. po_client p \<noteq> t) (ow_policies ow)\<rparr>)"

definition update_client_allowed_agents :: "string \<Rightarrow> string list \<Rightarrow> ownership \<Rightarrow> ownership option" where
  "update_client_allowed_agents target ids ow =
     (case (findReservedAgentId ids, ids) of
        (None, [i]) \<Rightarrow>
          (case List.find (\<lambda>a. ao_client a = target \<or> ao_id a = target) (ow_agents ow) of
             None \<Rightarrow> None
           | Some a \<Rightarrow>
               let t = ao_client a
               in if list_ex (\<lambda>b. ao_id b = i \<and> ao_client b \<noteq> t) (ow_agents ow) \<or> \<not> list_ex (\<lambda>c. co_id c = t) (ow_clients ow)
                  then None
                  else Some ((update_agents (\<lambda>a. ao_client a = t) (\<lambda>a. a\<lparr>ao_id := i\<rparr>) ow)
                         \<lparr>ow_clients := map (\<lambda>c. if co_id c = t then c\<lparr>co_agents := ids\<rparr> else c) (ow_clients ow)\<rparr>))
      | _ \<Rightarrow> None)"

subsection \<open>The new owner\<close>

text \<open>\<open>/^google:(?:sub:)?([0-9]+)$/\<close>, \<open>/^eth:0x[0-9a-f]{40}$/i\<close> and \<open>/^[^\s@:]+@[^\s@:]+$/\<close>.\<close>

definition digit_string :: "string \<Rightarrow> bool" where
  "digit_string s \<longleftrightarrow> s \<noteq> [] \<and> list_all is_digit s"

definition google_target :: "string \<Rightarrow> string option" where
  "google_target v =
     (if startsWith v ''google:sub:'' \<and> digit_string (drop 11 v) then Some (drop 11 v)
      else if startsWith v ''google:'' \<and> digit_string (drop 7 v) then Some (drop 7 v) else None)"

definition wallet_target :: "string \<Rightarrow> bool" where
  "wallet_target v \<longleftrightarrow> lower (take 4 v) = ''eth:'' \<and> eth_address (drop 4 v)"

definition email_target :: "string \<Rightarrow> bool" where
  "email_target v \<longleftrightarrow>
     (case split_at CHR ''@'' v of [a, b] \<Rightarrow> a \<noteq> [] \<and> b \<noteq> [] \<and> CHR '':'' \<notin> set v \<and> \<not> has_space v | _ \<Rightarrow> False)"

text \<open>The principals and e-mails of the sessions that match; a session of a wallet has no e-mail.\<close>

definition owner_candidates ::
    "string option \<Rightarrow> string option \<Rightarrow> string option \<Rightarrow> caller_table \<Rightarrow> (string \<times> string option) list" where
  "owner_candidates canonical wallet email callers =
     map (\<lambda>(h, r). (cw_principal r, map_option lower (cw_email r)))
       (filter (\<lambda>(h, r). cw_provider r = ''google'' \<and> startsWith (cw_principal r) ''google:'' \<and> digit_string (drop 7 (cw_principal r)) \<and>
           (case email of None \<Rightarrow> True | Some e \<Rightarrow> map_option lower (cw_email r) = Some e) \<and>
           (case canonical of None \<Rightarrow> True | Some c \<Rightarrow> cw_principal r = c)) callers) @
     map (\<lambda>(h, r). (cw_principal r, None))
       (filter (\<lambda>(h, r). cw_provider r = ''siwe'' \<and> Some (cw_principal r) = wallet) callers)"

definition only :: "'a list \<Rightarrow> 'a option" where
  "only xs = (case remdups xs of [x] \<Rightarrow> Some x | _ \<Rightarrow> None)"

definition resolveTransferOwner :: "string \<Rightarrow> caller_table \<Rightarrow> admin_failure + string \<times> string option" where
  "resolveTransferOwner target callers =
     (let v = js_trim target;
          principal = google_target v;
          wallet = (if wallet_target v then Some (lower v) else None);
          email = (if email_target v then Some (lower v) else None);
          canonical = (case principal of Some d \<Rightarrow> Some (''google:'' @ d) | None \<Rightarrow> wallet);
          rows = owner_candidates canonical wallet email callers;
          emails = filter (\<lambda>e. e \<noteq> []) (List.map_filter snd rows)
      in if principal = None \<and> wallet = None \<and> email = None then Inl (Admin_error ''Unsupported owner identity'' 400)
         else if rows = [] then Inl (Admin_error ''Unknown owner; target must first log in to the bridge'' 404)
         else (case only (map fst rows) of
                 None \<Rightarrow> Inl (Admin_error ''Ambiguous email; specify a verified canonical principal'' 409)
               | Some p \<Rightarrow> Inr (p, only emails)))"

subsection \<open>Transfer\<close>

record transfer_result =
  tr_agent :: string
  tr_client :: string
  tr_previous :: string
  tr_owner :: string
  tr_email :: "string option"
  tr_revision :: string
  tr_outcome :: string

text \<open>What an administrator confirms of the preview: owner, revision and client. The revision is a string of digits.\<close>

record confirmation =
  cf_owner :: string
  cf_revision :: string
  cf_client :: string

definition confirmation_of :: "obj \<Rightarrow> confirmation option" where
  "confirmation_of input =
     (case (str_field input ''expectedOwner'', str_field input ''expectedRevision'', str_field input ''expectedClientId'') of
        (Some w, Some r, Some c) \<Rightarrow>
          if c \<noteq> [] \<and> digit_string r then Some \<lparr>cf_owner = w, cf_revision = r, cf_client = c\<rparr> else None
      | _ \<Rightarrow> None)"

definition preview_of :: "obj \<Rightarrow> bool" where
  "preview_of input \<longleftrightarrow> map_of input ''preview'' = Some (JBool True)"

definition covering :: "agent_owner \<Rightarrow> client_own \<Rightarrow> bool" where
  "covering a c \<longleftrightarrow> co_id c = ao_client a \<or> ao_id a \<in> set (co_agents c)"

definition give_agent :: "agent_owner \<Rightarrow> string \<Rightarrow> string option \<Rightarrow> ownership \<Rightarrow> ownership" where
  "give_agent a p email ow =
     (let ow1 = update_agents (\<lambda>b. ao_id b = ao_id a) (\<lambda>b. b\<lparr>ao_owner := p, ao_email := email\<rparr>) ow
      in ow1\<lparr>ow_clients := map (\<lambda>c. if covering a c then c\<lparr>co_owner := p, co_email := email\<rparr> else c) (ow_clients ow),
             ow_policies := map (\<lambda>q. if po_agent q = ao_id a then q\<lparr>po_owner := p\<rparr> else q) (ow_policies ow)\<rparr>)"

definition transfer_rows ::
    "string \<Rightarrow> string \<Rightarrow> confirmation option \<Rightarrow> caller_table \<Rightarrow> ownership \<Rightarrow> admin_failure + transfer_result \<times> ownership" where
  "transfer_rows agentId target confirmed callers ow =
     (case find_agent agentId ow of
        None \<Rightarrow> Inl (Admin_error ''Agent not found'' 404)
      | Some a \<Rightarrow>
     (case resolveTransferOwner target callers of
        Inl err \<Rightarrow> Inl err
      | Inr (p, email) \<Rightarrow>
     (let revision = string_of_nat (ao_revision a);
          result = \<lparr>tr_agent = agentId, tr_client = ao_client a, tr_previous = ao_owner a, tr_owner = p, tr_email = email,
                    tr_revision = revision, tr_outcome = ''preview''\<rparr>
      in case confirmed of
           None \<Rightarrow> Inr (result, ow)
         | Some cf \<Rightarrow>
             if cf_owner cf \<noteq> ao_owner a \<or> cf_revision cf \<noteq> revision \<or> cf_client cf \<noteq> ao_client a
             then Inl (Admin_error ''Ownership or registration changed since preview; preview again'' 409)
             else if ao_owner a = p then Inr (result\<lparr>tr_outcome := ''unchanged''\<rparr>, ow)
             else if list_ex (\<lambda>c. covering a c \<and> list_ex (\<lambda>i. i \<noteq> agentId) (co_agents c)) (ow_clients ow)
             then Inl (Admin_error ''Compatibility client covers other agents; split registration before transfer'' 409)
             else Inr (result\<lparr>tr_outcome := ''transferred'', tr_revision := string_of_nat (ao_revision a + 1)\<rparr>,
                       give_agent a p email ow))))"

definition transferAgent ::
    "string list \<Rightarrow> string \<Rightarrow> string \<Rightarrow> obj \<Rightarrow> caller_table \<Rightarrow> ownership \<Rightarrow> admin_failure + transfer_result \<times> ownership" where
  "transferAgent admins actor agentId input callers ow =
     (if \<not> isAdmin admins actor then Inl (Admin_error ''Agent transfer requires a bridge administrator'' 403)
      else (case str_field input ''to'' of
              None \<Rightarrow> Inl (Admin_error ''to is required'' 400)
            | Some target \<Rightarrow>
                if js_trim target = [] then Inl (Admin_error ''to is required'' 400)
                else if preview_of input then transfer_rows agentId target None callers ow
                else (case confirmation_of input of
                        None \<Rightarrow> Inl (Admin_error ''expectedOwner, expectedRevision and expectedClientId from a preview are required'' 400)
                      | Some cf \<Rightarrow> transfer_rows agentId target (Some cf) callers ow)))"

text \<open>The cached owner of connected agents, read again from the table.\<close>

definition refresh_owner :: "agent_owner option \<Rightarrow> connection \<Rightarrow> connection" where
  "refresh_owner row c =
     (case row of None \<Rightarrow> c | Some a \<Rightarrow> c\<lparr>cn_ownerPrincipal := ao_owner a, cn_ownerEmail := ao_email a\<rparr>)"

definition refreshAgentOwners :: "ownership \<Rightarrow> srv \<Rightarrow> srv" where
  "refreshAgentOwners ow s =
     (let ids = map (\<lambda>(k, c). cn_agentId c) (agents s)
      in s\<lparr>agents := map (\<lambda>(k, c). (k, if k \<in> set ids then refresh_owner (find_agent k ow) c else c)) (agents s)\<rparr>)"

end
