(* ===== verification/OwnershipFacts.thy ===== *)
theory OwnershipFacts
  imports Ownership
begin

text \<open>
  What a transfer promises: it moves the whole registration of one agent to someone who has signed in, and what
  the administrator confirmed still holds, with no change of owner in between, not even one that was undone.
\<close>

subsection \<open>Registrations by their client id\<close>

definition registered :: "ownership \<Rightarrow> string \<Rightarrow> agent_owner option" where
  "registered ow c = List.find (\<lambda>a. ao_client a = c) (ow_agents ow)"

definition own_inv :: "string set \<times> ownership \<Rightarrow> bool" where
  "own_inv x \<longleftrightarrow> distinct (map ao_client (ow_agents (snd x))) \<and> ao_client ` set (ow_agents (snd x)) \<subseteq> fst x"

text \<open>Any session of the database: registrations under generated ids that were never used before, what follows them, and
  an update of any other kind under the trigger that counts changes of owner.\<close>

inductive own_step :: "(string \<Rightarrow> string) \<Rightarrow> string list \<Rightarrow> string set \<times> ownership \<Rightarrow> string set \<times> ownership \<Rightarrow> bool" for sha admins where
  Register: "register_client sha c token p name ids ow = Inr (a, ow') \<Longrightarrow> c \<notin> used \<Longrightarrow> own_step sha admins (used, ow) (insert c used, ow')"
| Stamp: "own_step sha admins (used, ow) (used, stamp_email email c ow)"
| Delete: "delete_client target ow = Some ow' \<Longrightarrow> own_step sha admins (used, ow) (used, ow')"
| Rename: "update_client_allowed_agents target ids ow = Some ow' \<Longrightarrow> own_step sha admins (used, ow) (used, ow')"
| Transfer: "transferAgent admins actor agentId input callers ow = Inr (r, ow') \<Longrightarrow> own_step sha admins (used, ow) (used, ow')"
| Update: "(\<And>a. ao_client (f a) = ao_client a \<and> ao_revision (f a) = ao_revision a) \<Longrightarrow>
    own_step sha admins (used, ow) (used, update_agents P f ow)"

text \<open>Two states of a registration of which the second is later.\<close>

definition later_row :: "agent_owner \<Rightarrow> agent_owner \<Rightarrow> bool" where
  "later_row a b \<longleftrightarrow> ao_revision a \<le> ao_revision b \<and> (ao_revision a = ao_revision b \<longrightarrow> ao_owner a = ao_owner b)"

definition evolves :: "string set \<Rightarrow> ownership \<Rightarrow> ownership \<Rightarrow> bool" where
  "evolves used ow ow' \<longleftrightarrow>
     (\<forall>c\<in>used. registered ow' c = None \<or> (\<exists>a b. registered ow c = Some a \<and> registered ow' c = Some b \<and> later_row a b))"

lemma later_row_refl: "later_row a a" and later_row_trans: "later_row a b \<Longrightarrow> later_row b c \<Longrightarrow> later_row a c"
  by (auto simp: later_row_def)

lemma evolves_refl: "evolves used ow ow"
  using later_row_refl by (auto simp: evolves_def)

lemma evolves_trans: "evolves used ow1 ow2 \<Longrightarrow> evolves used' ow2 ow3 \<Longrightarrow> used \<subseteq> used' \<Longrightarrow> evolves used ow1 ow3"
  unfolding evolves_def using later_row_trans by (metis option.inject option.distinct(1) subsetD)

lemma bump_same: "ao_client (bump_revision a b) = ao_client b" "ao_id (bump_revision a b) = ao_id b" "ao_owner (bump_revision a b) = ao_owner b"
  by (simp_all add: bump_revision_def)

lemma bump_later: "ao_revision b = ao_revision a \<Longrightarrow> later_row a (bump_revision a b)"
  by (simp add: bump_revision_def later_row_def)

lemma find_map: "(\<And>a. P (g a) = P a) \<Longrightarrow> List.find P (map g xs) = map_option g (List.find P xs)"
  by (induction xs) auto

lemma registered_update:
  assumes "\<And>a. ao_client (f a) = ao_client a"
  shows "registered (update_agents P f ow) c = map_option (\<lambda>a. if P a then bump_revision a (f a) else a) (registered ow c)"
  unfolding registered_def update_agents_def using assms by (simp add: find_map bump_same)

lemma update_evolves:
  assumes "\<And>a. ao_client (f a) = ao_client a \<and> ao_revision (f a) = ao_revision a"
  shows "evolves used ow (update_agents P f ow)" "own_inv (used, ow) \<Longrightarrow> own_inv (used, update_agents P f ow)"
proof -
  show "evolves used ow (update_agents P f ow)"
    unfolding evolves_def
  proof
    fix c
    show "registered (update_agents P f ow) c = None \<or>
        (\<exists>a b. registered ow c = Some a \<and> registered (update_agents P f ow) c = Some b \<and> later_row a b)"
      using assms bump_later later_row_refl by (cases "registered ow c") (simp_all add: registered_update)
  qed
  have "map ao_client (ow_agents (update_agents P f ow)) = map ao_client (ow_agents ow)"
    using assms by (simp add: update_agents_def bump_same)
  then show "own_inv (used, ow) \<Longrightarrow> own_inv (used, update_agents P f ow)"
    unfolding own_inv_def by (metis image_set fst_conv snd_conv)
qed

lemma same_agents:
  assumes "ow_agents ow' = ow_agents ow"
  shows "evolves used x ow' = evolves used x ow" "own_inv (used, ow') = own_inv (used, ow)"
  using assms by (simp_all add: evolves_def registered_def own_inv_def)

lemma registered_iff:
  assumes "own_inv (used, ow)"
  shows "registered ow c = Some a \<longleftrightarrow> a \<in> set (ow_agents ow) \<and> ao_client a = c"
proof
  show "registered ow c = Some a \<Longrightarrow> a \<in> set (ow_agents ow) \<and> ao_client a = c"
    unfolding registered_def by (rule find_Some_D)
  assume a: "a \<in> set (ow_agents ow) \<and> ao_client a = c"
  then obtain b where b: "registered ow c = Some b"
    unfolding registered_def by (cases "List.find (\<lambda>a. ao_client a = c) (ow_agents ow)") (auto simp: find_None_iff)
  then have "b \<in> set (ow_agents ow)" "ao_client b = c" unfolding registered_def by (auto dest: find_Some_D)
  moreover have "inj_on ao_client (set (ow_agents ow))" using assms by (simp add: own_inv_def distinct_map)
  ultimately show "registered ow c = Some a" using a b by (metis inj_onD)
qed

lemma find_snoc_other: "\<not> P a \<Longrightarrow> List.find P (xs @ [a]) = List.find P xs"
  by (induction xs) auto

lemma own_step_evolves:
  assumes "own_step sha admins (used, ow) (used', ow')" "own_inv (used, ow)"
  shows "evolves used ow ow' \<and> own_inv (used', ow') \<and> used \<subseteq> used'"
  using assms(1)
proof cases
  case (Register c token p name ids a)
  have app: "ow_agents ow' = ow_agents ow @ [a]" and c: "ao_client a = c"
    using Register(2) by (auto simp: register_client_def Let_def split: option.splits list.splits if_splits)
  have "c \<notin> ao_client ` set (ow_agents ow)" using Register(3) assms(2) by (auto simp: own_inv_def)
  moreover have "registered ow' d = registered ow d" if "d \<in> used" for d
    using that Register(3) c unfolding registered_def app by (intro find_snoc_other) auto
  ultimately show ?thesis using assms(2) Register(1) c later_row_refl by (auto simp: evolves_def own_inv_def app)
next
  case (Stamp email c)
  have "ow_agents ow' = ow_agents (update_agents (\<lambda>a. ao_client a = c) (\<lambda>a. a\<lparr>ao_email := Some email\<rparr>) ow)"
    using Stamp(2) by (simp add: stamp_email_def)
  note s = same_agents [OF this]
  show ?thesis using Stamp(1) assms(2) by (simp add: s update_evolves)
next
  case (Delete target)
  define t where "t = target_client target ow"
  have ag: "ow_agents ow' = filter (\<lambda>a. ao_client a \<noteq> t) (ow_agents ow)"
    using Delete(2) by (auto simp: delete_client_def t_def Let_def split: if_splits)
  have inv: "own_inv (used, ow')" using assms(2) by (auto simp: own_inv_def ag distinct_map_filter)
  have "registered ow c = Some a" if "registered ow' c = Some a" for c a
    using that by (simp add: registered_iff [OF inv] registered_iff [OF assms(2)] ag)
  then have "evolves used ow ow'" using later_row_refl unfolding evolves_def by (metis option.exhaust)
  then show ?thesis using inv Delete(1) by simp
next
  case (Rename target ids)
  then obtain i t where "ow_agents ow' = ow_agents (update_agents (\<lambda>a. ao_client a = t) (\<lambda>a. a\<lparr>ao_id := i\<rparr>) ow)"
    by (auto simp: update_client_allowed_agents_def Let_def split: option.splits list.splits if_splits)
  note s = same_agents [OF this]
  show ?thesis using Rename(1) assms(2) by (simp add: s update_evolves)
next
  case (Transfer actor agentId input callers r)
  have "ow' = ow \<or> (\<exists>a p e. ow' = give_agent a p e ow)"
    using Transfer(2) by (auto simp: transferAgent_def transfer_rows_def Let_def split: if_splits option.splits sum.splits prod.splits)
  then consider "ow' = ow" | a p e where "ow' = give_agent a p e ow" by blast
  then show ?thesis
  proof cases
    case 1
    then show ?thesis using Transfer(1) assms(2) evolves_refl by simp
  next
    case 2
    then have "ow_agents ow' = ow_agents (update_agents (\<lambda>b. ao_id b = ao_id a) (\<lambda>b. b\<lparr>ao_owner := p, ao_email := e\<rparr>) ow)"
      by (simp add: give_agent_def Let_def)
    note s = same_agents [OF this]
    show ?thesis using Transfer(1) assms(2) by (simp add: s update_evolves)
  qed
next
  case (Update f P)
  then show ?thesis using assms(2) update_evolves by simp
qed

interpretation ownership: invariant_system own_inv "own_step sha admins" own_inv for sha admins
proof unfold_locales
  fix s t
  show "own_inv s \<Longrightarrow> own_step sha admins s t \<Longrightarrow> own_inv t"
    using own_step_evolves [of sha admins "fst s" "snd s" "fst t" "snd t"] by simp
qed

lemma own_steps_evolve:
  assumes "(own_step sha admins)\<^sup>*\<^sup>* x y" "own_inv x"
  shows "evolves (fst x) (snd x) (snd y) \<and> fst x \<subseteq> fst y"
  using assms
proof (induction rule: rtranclp_induct)
  case base
  then show ?case using evolves_refl by simp
next
  case (step y z)
  have "evolves (fst y) (snd y) (snd z) \<and> fst y \<subseteq> fst z"
    using own_step_evolves [of sha admins "fst y" "snd y" "fst z" "snd z"] step.hyps(2)
      ownership.steps_inv [OF step.hyps(1) step.prems] by simp
  then show ?case using step.IH [OF step.prems] evolves_trans by blast
qed

subsection \<open>Transfers\<close>

lemma transfer_preview:
  assumes "transferAgent admins actor agentId input callers ow = Inr (r, ow')" "preview_of input"
  obtains a where "find_agent agentId ow = Some a" "tr_previous r = ao_owner a" "tr_client r = ao_client a"
    "tr_revision r = string_of_nat (ao_revision a)" "ow' = ow"
  using assms by (auto simp: transferAgent_def transfer_rows_def Let_def split: if_splits option.splits sum.splits prod.splits)

lemma transfer_applied:
  assumes "transferAgent admins actor agentId input callers ow = Inr (r, ow')" "\<not> preview_of input"
  obtains a where "find_agent agentId ow = Some a" "str_field input ''expectedOwner'' = Some (ao_owner a)"
    "str_field input ''expectedRevision'' = Some (string_of_nat (ao_revision a))"
    "str_field input ''expectedClientId'' = Some (ao_client a)"
  using assms by (auto simp: transferAgent_def transfer_rows_def confirmation_of_def Let_def
      split: if_splits option.splits sum.splits prod.splits)

lemma find_agent_in: "find_agent agentId ow = Some a \<Longrightarrow> a \<in> set (ow_agents ow) \<and> ao_id a = agentId"
  unfolding find_agent_def by (rule find_Some_D)

text \<open>
  Claim C13. What an administrator confirms is what was previewed. When a transfer is applied with the owner, revision and
  client id of an earlier preview, then in every state in between the registration existed and had that owner: no
  registration, deletion, renaming, transfer or direct update came between that changed the owner, even if a second change
  undid the first.
\<close>
theorem transfer_matches_preview:
  assumes "own_inv (u0, ow0)" "transferAgent admins actor0 agentId asked callers0 ow0 = Inr (r0, ow0')" "preview_of asked"
    and "(own_step sha admins)\<^sup>*\<^sup>* (u0, ow0) (u, ow)" "(own_step sha admins)\<^sup>*\<^sup>* (u, ow) (u1, ow1)"
    and "transferAgent admins actor agentId input callers ow1 = Inr (r1, ow2)" "\<not> preview_of input"
    and "str_field input ''expectedOwner'' = Some (tr_previous r0)"
      "str_field input ''expectedRevision'' = Some (tr_revision r0)" "str_field input ''expectedClientId'' = Some (tr_client r0)"
  shows "\<exists>a. a \<in> set (ow_agents ow) \<and> ao_client a = tr_client r0 \<and> ao_owner a = tr_previous r0 \<and>
    string_of_nat (ao_revision a) = tr_revision r0"
proof -
  have inv: "own_inv (u, ow)" "own_inv (u1, ow1)"
    using ownership.steps_inv assms(1,4,5) by blast+
  obtain a0 where a0: "find_agent agentId ow0 = Some a0" "tr_previous r0 = ao_owner a0" "tr_client r0 = ao_client a0"
      "tr_revision r0 = string_of_nat (ao_revision a0)"
    using transfer_preview [OF assms(2,3)] by metis
  obtain a1 where a1: "find_agent agentId ow1 = Some a1" "tr_previous r0 = ao_owner a1" "tr_client r0 = ao_client a1"
      "tr_revision r0 = string_of_nat (ao_revision a1)"
    using transfer_applied [OF assms(6,7)] assms(8,9,10) by (metis option.inject)
  let ?c = "tr_client r0"
  have r0: "registered ow0 ?c = Some a0" using find_agent_in [OF a0(1)] a0(3) by (simp add: registered_iff [OF assms(1)])
  have r1: "registered ow1 ?c = Some a1" using find_agent_in [OF a1(1)] a1(3) by (simp add: registered_iff [OF inv(2)])
  have c: "?c \<in> u0" using assms(1) find_agent_in [OF a0(1)] a0(3) by (auto simp: own_inv_def)
  then have cu: "?c \<in> u" using own_steps_evolve [OF assms(4,1)] by auto
  obtain a where a: "registered ow ?c = Some a" "later_row a a1"
    using own_steps_evolve [OF assms(5) inv(1)] cu r1 unfolding evolves_def by fastforce
  then have "later_row a0 a" using own_steps_evolve [OF assms(4,1)] c r0 unfolding evolves_def by fastforce
  moreover have "ao_revision a0 = ao_revision a1" using a0(4) a1(4) string_of_nat_inj by metis
  ultimately have "ao_revision a = ao_revision a0" "ao_owner a = ao_owner a0" using a(2) by (auto simp: later_row_def)
  then show ?thesis using a(1) a0 by (auto simp: registered_iff [OF inv(1)])
qed

lemma resolved_owner:
  assumes "resolveTransferOwner target callers = Inr (p, email)"
  shows "\<exists>h s. (h, s) \<in> set callers \<and> cw_principal s = p"
proof -
  obtain c w e where p: "only (map fst (owner_candidates c w e callers)) = Some p"
    using assms by (auto simp: resolveTransferOwner_def Let_def split: if_splits option.splits)
  have "p \<in> set (map fst (owner_candidates c w e callers))"
  proof -
    have "remdups (map fst (owner_candidates c w e callers)) = [p]"
      using p by (auto simp: only_def split: list.splits)
    then show ?thesis by (metis list.set_intros(1) set_remdups)
  qed
  then show ?thesis unfolding owner_candidates_def by fastforce
qed

lemma given_rows:
  assumes "ao_id a = i" "\<not> list_ex (\<lambda>c. covering a c \<and> list_ex (\<lambda>j. j \<noteq> i) (co_agents c)) (ow_clients ow)"
  shows "\<forall>b\<in>set (ow_agents (give_agent a p e ow)). ao_id b = i \<longrightarrow> ao_owner b = p"
    "\<forall>c\<in>set (ow_clients (give_agent a p e ow)). covering a c \<longrightarrow> co_owner c = p \<and> set (co_agents c) \<subseteq> {i}"
    "\<forall>q\<in>set (ow_policies (give_agent a p e ow)). po_agent q = i \<longrightarrow> po_owner q = p"
    "filter (\<lambda>b. ao_id b \<noteq> i) (ow_agents (give_agent a p e ow)) = filter (\<lambda>b. ao_id b \<noteq> i) (ow_agents ow)"
    "filter (\<lambda>c. \<not> covering a c) (ow_clients (give_agent a p e ow)) = filter (\<lambda>c. \<not> covering a c) (ow_clients ow)"
proof -
  have f: "filter P (map g xs) = filter P xs" if "\<And>x. P (g x) = P x" "\<And>x. P x \<Longrightarrow> g x = x" for P :: "'a \<Rightarrow> bool" and g xs
    using that by (induction xs) auto
  show "\<forall>b\<in>set (ow_agents (give_agent a p e ow)). ao_id b = i \<longrightarrow> ao_owner b = p"
    using assms(1) by (auto simp: give_agent_def update_agents_def bump_same Let_def)
  show "\<forall>c\<in>set (ow_clients (give_agent a p e ow)). covering a c \<longrightarrow> co_owner c = p \<and> set (co_agents c) \<subseteq> {i}"
    using assms(2) by (fastforce simp: give_agent_def covering_def list_ex_iff Let_def)
  show "\<forall>q\<in>set (ow_policies (give_agent a p e ow)). po_agent q = i \<longrightarrow> po_owner q = p"
    using assms(1) by (auto simp: give_agent_def Let_def)
  show "filter (\<lambda>b. ao_id b \<noteq> i) (ow_agents (give_agent a p e ow)) = filter (\<lambda>b. ao_id b \<noteq> i) (ow_agents ow)"
    using assms(1) unfolding give_agent_def update_agents_def Let_def
    by simp (rule f; simp add: bump_same)
  show "filter (\<lambda>c. \<not> covering a c) (ow_clients (give_agent a p e ow)) = filter (\<lambda>c. \<not> covering a c) (ow_clients ow)"
    unfolding give_agent_def Let_def by simp (rule f; simp add: covering_def)
qed

text \<open>
  A transfer moves one whole registration and nothing else. Only an administrator transfers, to a principal that has
  signed in; afterwards the agent, its policy and every client that covers it belong to the new owner, such a client covers
  no other agent, and the rows of every other agent and client are as they were.
\<close>
theorem transfer_moves_the_registration:
  assumes "transferAgent admins actor i input callers ow = Inr (r, ow')" "tr_outcome r = ''transferred''"
  shows "isAdmin admins actor \<and> (\<exists>h s. (h, s) \<in> set callers \<and> cw_principal s = tr_owner r) \<and>
    (\<exists>a. find_agent i ow = Some a \<and> ao_client a = tr_client r \<and>
      (\<forall>b\<in>set (ow_agents ow'). ao_id b = i \<longrightarrow> ao_owner b = tr_owner r) \<and>
      (\<forall>c\<in>set (ow_clients ow'). covering a c \<longrightarrow> co_owner c = tr_owner r \<and> set (co_agents c) \<subseteq> {i}) \<and>
      (\<forall>q\<in>set (ow_policies ow'). po_agent q = i \<longrightarrow> po_owner q = tr_owner r) \<and>
      filter (\<lambda>b. ao_id b \<noteq> i) (ow_agents ow') = filter (\<lambda>b. ao_id b \<noteq> i) (ow_agents ow) \<and>
      filter (\<lambda>c. \<not> covering a c) (ow_clients ow') = filter (\<lambda>c. \<not> covering a c) (ow_clients ow))"
proof -
  obtain a e target where a: "find_agent i ow = Some a" "ao_client a = tr_client r"
      and p: "resolveTransferOwner target callers = Inr (tr_owner r, e)" and ow': "ow' = give_agent a (tr_owner r) e ow"
      and other: "\<not> list_ex (\<lambda>c. covering a c \<and> list_ex (\<lambda>j. j \<noteq> i) (co_agents c)) (ow_clients ow)"
      and adm: "isAdmin admins actor"
    using assms by (auto simp: transferAgent_def transfer_rows_def Let_def
        split: if_splits option.splits sum.splits prod.splits)
  have "ao_id a = i" using find_agent_in [OF a(1)] by simp
  note g = given_rows [OF this other, of "tr_owner r" e]
  show ?thesis using adm resolved_owner [OF p] a g unfolding ow' by blast
qed

end
