(* ===== verification/OwnershipSamples.thy ===== *)
theory OwnershipSamples
  imports OwnershipFacts
begin

text \<open>The promises of a transfer, applied to an agent that goes from one account to another.\<close>

definition sample_session :: caller_row where
  "sample_session = \<lparr>cw_id = ''s'', cw_principal = ''google:2'', cw_provider = ''google'', cw_audience = ''owner_session'',
     cw_email = Some ''B@x.y'', cw_label = None, cw_expires = 1, cw_revoked = False, cw_created = 0\<rparr>"

definition sample_agent :: agent_owner where
  "sample_agent = \<lparr>ao_id = ''bot'', ao_client = ''c'', ao_owner = ''google:1'', ao_email = None, ao_name = ''n'', ao_hash = ''h'', ao_revision = 4\<rparr>"

definition sample_ownership :: ownership where
  "sample_ownership = \<lparr>ow_agents = [sample_agent],
     ow_clients = [\<lparr>co_id = ''c'', co_owner = ''google:1'', co_email = None, co_name = ''n'', co_hash = ''h'', co_agents = [''bot'']\<rparr>],
     ow_policies = [\<lparr>po_agent = ''bot'', po_owner = ''google:1'', po_client = ''c''\<rparr>]\<rparr>"

definition renamed_ownership :: ownership where
  "renamed_ownership = update_agents (\<lambda>a. True) (\<lambda>a. a\<lparr>ao_name := ''m''\<rparr>) sample_ownership"

definition sample_preview :: obj where
  "sample_preview = [(''to'', JStr ''google:2''), (''preview'', JBool True)]"

definition sample_transfer :: obj where
  "sample_transfer = [(''to'', JStr ''google:2''), (''expectedOwner'', JStr ''google:1''), (''expectedRevision'', JStr ''4''),
     (''expectedClientId'', JStr ''c'')]"

definition sample_result :: "string \<Rightarrow> string \<Rightarrow> transfer_result" where
  "sample_result revision result =
     \<lparr>tr_agent = ''bot'', tr_client = ''c'', tr_previous = ''google:1'', tr_owner = ''google:2'', tr_email = Some ''b@x.y'',
      tr_revision = revision, tr_outcome = result\<rparr>"

lemma sample_admin: "isAdmin [''0xaa''] ''eth:0xAA''"
  by code_simp

lemma sample_target: "resolveTransferOwner ''google:2'' [(''h'', sample_session)] = Inr (''google:2'', Some ''b@x.y'')"
  by code_simp

lemma sample_revision: "string_of_nat 4 = ''4''" "string_of_nat 5 = ''5''"
  by code_simp+

lemma trim_target: "js_trim ''google:2'' = ''google:2''"
  by code_simp

lemma sample_previewed:
  "transferAgent [''0xaa''] ''eth:0xAA'' ''bot'' sample_preview [(''h'', sample_session)] sample_ownership =
    Inr (sample_result ''4'' ''preview'', sample_ownership)"
  using sample_admin sample_target sample_revision trim_target
  by (simp add: transferAgent_def transfer_rows_def sample_preview_def preview_of_def str_field_def find_agent_def
      sample_ownership_def sample_agent_def sample_result_def)

lemma sample_transferred:
  "transferAgent [''0xaa''] ''eth:0xAA'' ''bot'' sample_transfer [(''h'', sample_session)] renamed_ownership =
    Inr (sample_result ''5'' ''transferred'', give_agent (sample_agent\<lparr>ao_name := ''m''\<rparr>) ''google:2'' (Some ''b@x.y'') renamed_ownership)"
proof -
  have "digit_string ''4''" by code_simp
  then show ?thesis
    using sample_admin sample_target sample_revision trim_target
    by (simp add: transferAgent_def transfer_rows_def sample_transfer_def preview_of_def str_field_def find_agent_def
        confirmation_of_def renamed_ownership_def update_agents_def bump_revision_def covering_def
        sample_ownership_def sample_agent_def sample_result_def)
qed

lemma sample_own_inv: "own_inv ({''c''}, sample_ownership)"
  by (simp add: own_inv_def sample_ownership_def sample_agent_def)

lemma sample_own_step:
  "(own_step sha [''0xaa''])\<^sup>*\<^sup>* ({''c''}, sample_ownership) ({''c''}, renamed_ownership)"
  unfolding renamed_ownership_def by (rule r_into_rtranclp, rule Update) simp

lemma transfer_matches_preview_witness:
  "\<exists>a. a \<in> set (ow_agents renamed_ownership) \<and> ao_client a = ''c'' \<and> ao_owner a = ''google:1'' \<and>
    string_of_nat (ao_revision a) = ''4''"
  using transfer_matches_preview [OF sample_own_inv sample_previewed _ sample_own_step rtranclp.rtrancl_refl sample_transferred]
  by (simp add: preview_of_def sample_preview_def sample_transfer_def sample_result_def str_field_def)

lemma transfer_moves_the_registration_witness:
  "\<exists>a. find_agent ''bot'' renamed_ownership = Some a \<and> ao_client a = ''c''"
  using transfer_moves_the_registration [OF sample_transferred] unfolding sample_result_def by auto

end
