(* ===== verification/Device.thy ===== *)
theory Device
  imports Ownership
begin

text \<open>
  The device flow: a command line asks for a code, a person enters it in a browser and signs in, and the command line's
  poll then gets a token or a registration (packages/server/src/auth/device-flow.ts, packages/server/src/auth/device-ui.ts,
  the sweep of packages/server/src/index.ts). Bodies and queries are what the web framework parsed. \<open>mac\<close> is
  the keyed hash, \<open>enc\<close> and \<open>dec\<close> are base64url and its lenient decoder, random choices are arguments. A page is
  what it says, not its HTML.
\<close>

subsection \<open>Codes and parameters\<close>

definition CROCKFORD_ALPHABET :: string where "CROCKFORD_ALPHABET = ''0123456789ABCDEFGHJKMNPQRSTVWXYZ''"
definition DEVICE_CODE_GRANT_TYPE :: string where "DEVICE_CODE_GRANT_TYPE = ''urn:ietf:params:oauth:grant-type:device_code''"
definition MAX_USER_CODE_RETRIES :: nat where "MAX_USER_CODE_RETRIES = 5"
definition MAX_CLIENT_NAME_LEN :: nat where "MAX_CLIENT_NAME_LEN = 256"
definition MAX_AGENT_ID_LEN :: nat where "MAX_AGENT_ID_LEN = 256"
definition MAX_AGENT_IDS_COUNT :: nat where "MAX_AGENT_IDS_COUNT = 32"

text \<open>\<open>rs\<close> are eight indices below 32; the hyphen comes before the fifth.\<close>

definition generateUserCode :: "nat list \<Rightarrow> string" where
  "generateUserCode rs = concat (map (\<lambda>(i, r). (if i = 4 then ''-'' else []) @ [CROCKFORD_ALPHABET ! r]) (enumerate 0 (take 8 rs)))"

record client_params =
  cp_client_name :: string
  cp_allowed_agent_ids :: "string list"

definition toStringArray :: "json option \<Rightarrow> string list option" where
  "toStringArray raw =
     (case raw of
        Some (JArr vs) \<Rightarrow> Some (filter (\<lambda>v. v \<noteq> []) (List.map_filter as_string vs))
      | Some (JStr s) \<Rightarrow> Some (filter (\<lambda>v. v \<noteq> []) (map js_trim (split_at CHR '','' s)))
      | _ \<Rightarrow> None)"

definition parseClientRegisterParams :: "obj \<Rightarrow> string + client_params" where
  "parseClientRegisterParams body =
     (let clientName = (case str_field body ''client_name'' of None \<Rightarrow> [] | Some n \<Rightarrow> js_trim n);
          ids = get_or (toStringArray (map_of body ''allowed_agent_ids'')) []
      in if clientName = [] then Inl ''client_name is required for intent=client_register''
         else if js_length clientName > MAX_CLIENT_NAME_LEN then Inl ''client_name exceeds 256 chars''
         else if ids = [] then Inl ''allowed_agent_ids is required for intent=client_register (CSV or JSON array)''
         else if length ids > MAX_AGENT_IDS_COUNT then Inl ''allowed_agent_ids exceeds 32 entries''
         else if list_ex (\<lambda>i. js_length i > MAX_AGENT_ID_LEN) ids then Inl ''agent id exceeds 256 chars''
         else (case findReservedAgentId ids of
                 Some r \<Rightarrow> Inl (''agent id '' @ quoted r @ '' is reserved by the bridge'')
               | None \<Rightarrow> Inr \<lparr>cp_client_name = clientName, cp_allowed_agent_ids = ids\<rparr>))"

subsection \<open>Asking for a code\<close>

datatype intent = Caller_intent | Owner_intent | Register_intent client_params

text \<open>A row of \<open>device_sessions\<close>, filed under its device code. The three statuses are those the code writes; a row whose
  intent is a registration has its parameters, an approved one its principal and e-mail.\<close>

datatype device_status = Pending | Approved string string | Expired_status

record device_session =
  dv_user_code :: string
  dv_status :: device_status
  dv_intent :: intent
  dv_expires :: int

type_synonym device_table = "(string, device_session) jsmap"

record device_settings =
  dg_publicUrl :: string
  dg_sessionTtlMs :: int
  dg_tokenTtlMs :: int
  dg_pollIntervalSeconds :: int
  dg_minPollIntervalMs :: int

definition intent_of :: "obj \<Rightarrow> string + intent" where
  "intent_of body =
     (let raw = get_or (str_field body ''intent'') ''caller''
      in if raw = ''caller'' \<or> raw = [] then Inr Caller_intent
         else if raw = ''owner_session'' then Inr Owner_intent
         else if raw = ''client_register''
         then (case parseClientRegisterParams body of Inl reason \<Rightarrow> Inl reason | Inr p \<Rightarrow> Inr (Register_intent p))
         else Inl (''unknown intent: '' @ raw))"

text \<open>The insertion fails on a taken device code or user code; the next candidate is tried, five in all.\<close>

fun allocate_user_code :: "string \<Rightarrow> intent \<Rightarrow> int \<Rightarrow> string list \<Rightarrow> device_table \<Rightarrow> (string \<times> device_table) option" where
  "allocate_user_code deviceCode i expires [] db = None"
| "allocate_user_code deviceCode i expires (candidate # cs) db =
     (if map_has db deviceCode \<or> list_ex (\<lambda>(k, r). dv_user_code r = candidate) db
      then allocate_user_code deviceCode i expires cs db
      else Some (candidate, map_set deviceCode \<lparr>dv_user_code = candidate, dv_status = Pending, dv_intent = i, dv_expires = expires\<rparr> db))"

type_synonym poll_times = "(string, int) jsmap"

definition prunePollMap :: "device_settings \<Rightarrow> int \<Rightarrow> poll_times \<Rightarrow> poll_times" where
  "prunePollMap st now polls = filter (\<lambda>(k, v). \<not> v < now - dg_sessionTtlMs st) polls"

type_synonym response = "nat \<times> obj"

definition oauth_error :: "string \<Rightarrow> response" where
  "oauth_error e = (400, [(''error'', JStr e)])"

definition described_error :: "string \<Rightarrow> string \<Rightarrow> response" where
  "described_error e d = (400, [(''error'', JStr e), (''error_description'', JStr d)])"

definition jint :: "int \<Rightarrow> json" where
  "jint n = JNum (NInt n)"

definition device_code_request ::
    "device_settings \<Rightarrow> int \<Rightarrow> string \<Rightarrow> string list \<Rightarrow> obj \<Rightarrow> poll_times \<times> device_table \<Rightarrow> response \<times> poll_times \<times> device_table" where
  "device_code_request st now deviceCode candidates body s =
     (case s of (polls, db) \<Rightarrow>
     (case intent_of body of
        Inl reason \<Rightarrow> (described_error ''invalid_request'' reason, s)
      | Inr i \<Rightarrow>
     (case allocate_user_code deviceCode i (now + dg_sessionTtlMs st) (take MAX_USER_CODE_RETRIES candidates) db of
        None \<Rightarrow> ((500, [(''error'', JStr ''server_error'')]), s)
      | Some (userCode, db1) \<Rightarrow>
          let uri = dg_publicUrl st @ ''/oauth/device''
          in ((200, [(''device_code'', JStr deviceCode), (''user_code'', JStr userCode), (''verification_uri'', JStr uri),
                     (''verification_uri_complete'', JStr (uri @ ''?user_code='' @ encodeURIComponent userCode)),
                     (''expires_in'', jint (dg_sessionTtlMs st div 1000)), (''interval'', jint (dg_pollIntervalSeconds st))]),
              prunePollMap st now polls, db1))))"

subsection \<open>Polling\<close>

text \<open>A poll up to its query, then what the row says, then the transaction that redeems an approved code. The query and
  the transaction are two steps, and an instance has poll times of its own.\<close>

definition poll_start :: "device_settings \<Rightarrow> int \<Rightarrow> obj \<Rightarrow> poll_times \<Rightarrow> (response + string) \<times> poll_times" where
  "poll_start st now body polls =
     (if str_field body ''grant_type'' \<noteq> Some DEVICE_CODE_GRANT_TYPE then (Inl (oauth_error ''unsupported_grant_type''), polls)
      else (case str_field body ''device_code'' of
              None \<Rightarrow> (Inl (oauth_error ''invalid_request''), polls)
            | Some dc \<Rightarrow>
                if dc = [] then (Inl (oauth_error ''invalid_request''), polls)
                else (case map_of polls dc of
                        Some prev \<Rightarrow>
                          if now - prev < dg_minPollIntervalMs st then (Inl (oauth_error ''slow_down''), polls)
                          else (Inr dc, map_set dc now polls)
                      | None \<Rightarrow> (Inr dc, map_set dc now polls))))"

datatype poll_next = Answer response | Redeem string string intent

definition poll_read :: "int \<Rightarrow> string \<Rightarrow> poll_times \<times> device_table \<Rightarrow> poll_next \<times> poll_times \<times> device_table" where
  "poll_read now dc s =
     (case s of (polls, db) \<Rightarrow>
     (case map_of db dc of
        None \<Rightarrow> (Answer (oauth_error ''expired_token''), map_del dc polls, db)
      | Some r \<Rightarrow>
          if dv_expires r \<le> now
          then (Answer (oauth_error ''expired_token''), map_del dc polls, map_set dc (r\<lparr>dv_status := Expired_status\<rparr>) db)
          else (case dv_status r of
                  Pending \<Rightarrow> (Answer (oauth_error ''authorization_pending''), s)
                | Expired_status \<Rightarrow> (Answer (oauth_error ''expired_token''), map_del dc polls, db)
                | Approved p email \<Rightarrow>
                    if p = [] then (Answer (oauth_error ''expired_token''), map_del dc polls, db)
                    else (Redeem p email (dv_intent r), s))))"

definition seconds_left :: "int \<Rightarrow> int \<Rightarrow> int" where
  "seconds_left now expires = max 0 ((expires - now) div 1000)"

definition audience_of :: "intent \<Rightarrow> audience" where
  "audience_of i = (case i of Owner_intent \<Rightarrow> Owner_session | _ \<Rightarrow> Caller_audience)"

definition device_input :: "string \<Rightarrow> string \<Rightarrow> intent \<Rightarrow> int option \<Rightarrow> issue_input" where
  "device_input p email i ttl =
     \<lparr>is_principalId = p, is_provider = ''google'', is_audience = audience_of i, is_email = Some email,
      is_label = None, is_ttlMs = ttl\<rparr>"

text \<open>The database of the flow. A transaction that throws leaves it as it was and the request ends in an error.\<close>

record device_db =
  dd_sessions :: device_table
  dd_callers :: caller_table
  dd_ownership :: ownership

definition redeem_token ::
    "(string \<Rightarrow> string) \<Rightarrow> device_settings \<Rightarrow> int \<Rightarrow> string \<Rightarrow> string \<Rightarrow> string \<Rightarrow> string \<Rightarrow> string \<Rightarrow> intent \<Rightarrow> device_db \<Rightarrow>
     (response \<times> device_db) option" where
  "redeem_token sha st now ident random dc p email i d =
     (case issueSessionToken sha now ident random (device_input p email i (Some (dg_tokenTtlMs st))) (dd_callers d) of
        None \<Rightarrow> None
      | Some (raw, callers) \<Rightarrow>
          Some ((200, [(''access_token'', JStr raw), (''token_type'', JStr ''Bearer''),
                       (''expires_in'', jint (seconds_left now (now + dg_tokenTtlMs st)))] @
                      (if audience_of i = Owner_session then [(''principal_id'', JStr p), (''email'', JStr email)] else [])),
                d\<lparr>dd_callers := callers, dd_sessions := map_del dc (dd_sessions d)\<rparr>))"

definition redeem_client ::
    "(string \<Rightarrow> string) \<Rightarrow> string \<Rightarrow> string \<Rightarrow> string \<Rightarrow> string \<Rightarrow> string \<Rightarrow> client_params \<Rightarrow> device_db \<Rightarrow>
     (response \<times> device_db) option" where
  "redeem_client sha clientId token dc p email params d =
     (case register_client sha clientId token p (cp_client_name params) (cp_allowed_agent_ids params) (dd_ownership d) of
        Inl err \<Rightarrow> None
      | Inr (a, ow) \<Rightarrow>
          Some ((200, [(''intent'', JStr ''client_register''), (''client_id'', JStr clientId), (''client_token'', JStr token),
                       (''owner_principal'', JStr p), (''owner_email'', JStr email), (''client_name'', JStr (ao_name a)),
                       (''allowed_agent_ids'', JArr [JStr (ao_id a)])]),
                d\<lparr>dd_ownership := (if email = [] then ow else stamp_email email clientId ow),
                  dd_sessions := map_del dc (dd_sessions d)\<rparr>))"

text \<open>\<open>ident\<close> is the generated id of the row, \<open>random\<close> its secret.\<close>

definition redeem ::
    "(string \<Rightarrow> string) \<Rightarrow> device_settings \<Rightarrow> int \<Rightarrow> string \<Rightarrow> string \<Rightarrow> string \<Rightarrow> string \<Rightarrow> string \<Rightarrow> intent \<Rightarrow> device_db \<Rightarrow>
     (response \<times> device_db) option" where
  "redeem sha st now ident random dc p email i d =
     (case i of
        Register_intent params \<Rightarrow> redeem_client sha ident random dc p email params d
      | _ \<Rightarrow> redeem_token sha st now ident random dc p email i d)"

definition poll_end :: "device_settings \<Rightarrow> int \<Rightarrow> string \<Rightarrow> poll_times \<Rightarrow> poll_times" where
  "poll_end st now dc polls = prunePollMap st now (map_del dc polls)"

subsection \<open>The signed state\<close>

definition buildState :: "(string \<Rightarrow> string \<Rightarrow> string) \<Rightarrow> (string \<Rightarrow> string) \<Rightarrow> string \<Rightarrow> string \<Rightarrow> string option \<Rightarrow> string" where
  "buildState mac enc secret deviceCode origin =
     (let payload = (case origin of None \<Rightarrow> deviceCode | Some w \<Rightarrow> if w = [] then deviceCode else deviceCode @ ''|'' @ w)
      in enc (mac secret payload) @ ''.'' @ enc payload)"

record verified_state =
  vs_deviceCode :: string
  vs_onsiteOrigin :: "string option"

definition cut :: "char \<Rightarrow> string \<Rightarrow> (string \<times> string) option" where
  "cut c s = (if c \<in> set s then Some (takeWhile (\<lambda>x. x \<noteq> c) s, tl (dropWhile (\<lambda>x. x \<noteq> c) s)) else None)"

definition verifyState :: "(string \<Rightarrow> string \<Rightarrow> string) \<Rightarrow> (string \<Rightarrow> string) \<Rightarrow> string \<Rightarrow> string \<Rightarrow> verified_state option" where
  "verifyState mac dec secret state =
     (case cut CHR ''.'' state of
        None \<Rightarrow> None
      | Some (macPart, dcPart) \<Rightarrow>
          if macPart = [] \<or> dcPart = [] then None
          else (let presented = dec macPart; payload = dec dcPart
                in if payload = [] \<or> presented \<noteq> mac secret payload then None
                   else (case cut CHR ''|'' payload of
                           None \<Rightarrow> Some \<lparr>vs_deviceCode = payload, vs_onsiteOrigin = None\<rparr>
                         | Some (dc, w) \<Rightarrow> Some \<lparr>vs_deviceCode = dc, vs_onsiteOrigin = Some w\<rparr>)))"

text \<open>What the URL parser makes of a string.\<close>

record url_parts =
  up_protocol :: string
  up_origin :: string
  up_pathname :: string
  up_search :: string
  up_hash :: string

definition normalizeOnsiteOrigin :: "(string \<Rightarrow> url_parts option) \<Rightarrow> string option \<Rightarrow> string option" where
  "normalizeOnsiteOrigin parse raw =
     (case raw of
        None \<Rightarrow> None
      | Some s \<Rightarrow>
          if s = [] then None
          else (case parse s of
                  None \<Rightarrow> None
                | Some u \<Rightarrow>
                    if up_protocol u \<notin> {''http:'', ''https:''} \<or> up_pathname u \<notin> {''/'', []} \<or> up_search u \<noteq> [] \<or> up_hash u \<noteq> []
                    then None else Some (up_origin u)))"

definition upper_char :: "char \<Rightarrow> char" where
  "upper_char c = (let n = of_char c :: nat in if 97 \<le> n \<and> n \<le> 122 then char_of (n - 32) else c)"

text \<open>Upper case on ASCII. Slices count UTF-16 units; a pair that a slice would split is outside the model.\<close>

fun take_units :: "nat \<Rightarrow> string list \<Rightarrow> string list" where
  "take_units n [] = []"
| "take_units n (p # ps) = (if utf16_units p \<le> n then p # take_units (n - utf16_units p) ps else [])"

definition normalizeUserCode :: "string \<Rightarrow> string" where
  "normalizeUserCode raw =
     (let cleaned = filter (\<lambda>p. \<not> is_space p \<and> p \<noteq> ''-'') (points (map upper_char raw));
          front = take_units 4 cleaned
      in if js_length (concat cleaned) = 8
         then concat front @ ''-'' @ concat (drop (length front) cleaned) else concat cleaned)"

subsection \<open>The browser\<close>

datatype page = Enter_code | Invalid_code | Approve_code string intent | Redirect_to_google string
  | Denied string | Invalid_state | Missing_code | Session_not_found | Session_expired | Verification_failed string
  | Issuance_failed | Onsite_token string int audience string | Approved_page string | No_longer_pending

definition pending_session :: "int \<Rightarrow> string \<Rightarrow> device_table \<Rightarrow> (string \<times> device_session) option" where
  "pending_session now userCode db =
     List.find (\<lambda>(k, r). dv_user_code r = userCode \<and> dv_status r = Pending \<and> now < dv_expires r) db"

definition device_page :: "int \<Rightarrow> string option \<Rightarrow> device_table \<Rightarrow> page" where
  "device_page now raw db =
     (if js_trim (get_or raw []) = [] then Enter_code
      else (let code = normalizeUserCode (get_or raw [])
            in case pending_session now code db of
                 None \<Rightarrow> Invalid_code
               | Some (k, r) \<Rightarrow> Approve_code code (dv_intent r)))"

definition google_start ::
    "(string \<Rightarrow> string \<Rightarrow> string) \<Rightarrow> (string \<Rightarrow> string) \<Rightarrow> (string \<Rightarrow> url_parts option) \<Rightarrow> string \<Rightarrow> int \<Rightarrow> string option \<Rightarrow> string option \<Rightarrow>
     device_table \<Rightarrow> page" where
  "google_start mac enc parse secret now raw onsite db =
     (case raw of
        None \<Rightarrow> Invalid_code
      | Some s \<Rightarrow>
          if s = [] then Invalid_code
          else (case pending_session now (normalizeUserCode s) db of
                  None \<Rightarrow> Invalid_code
                | Some (dc, r) \<Rightarrow> Redirect_to_google (buildState mac enc secret dc (normalizeOnsiteOrigin parse onsite))))"

text \<open>The callback up to its exchange with Google, which answers with an account or a message.\<close>

record callback_query =
  cq_error :: "string option"
  cq_state :: "string option"
  cq_code :: "string option"

record callback_wait =
  cw_deviceCode :: string
  cw_origin :: "string option"
  cw_intent :: intent

definition truthy_string :: "string option \<Rightarrow> bool" where
  "truthy_string s \<longleftrightarrow> get_or s [] \<noteq> []"

definition callback_start ::
    "(string \<Rightarrow> string \<Rightarrow> string) \<Rightarrow> (string \<Rightarrow> string) \<Rightarrow> string \<Rightarrow> int \<Rightarrow> callback_query \<Rightarrow> device_table \<Rightarrow> page + callback_wait" where
  "callback_start mac dec secret now q db =
     (if truthy_string (cq_error q) then Inl (Denied (get_or (cq_error q) []))
      else (case verifyState mac dec secret (get_or (cq_state q) []) of
              None \<Rightarrow> Inl Invalid_state
            | Some v \<Rightarrow>
                if \<not> truthy_string (cq_code q) then Inl Missing_code
                else (case map_of db (vs_deviceCode v) of
                        None \<Rightarrow> Inl Session_not_found
                      | Some r \<Rightarrow>
                          if dv_status r \<noteq> Pending \<or> dv_expires r \<le> now then Inl Session_expired
                          else Inr \<lparr>cw_deviceCode = vs_deviceCode v, cw_origin = vs_onsiteOrigin v, cw_intent = dv_intent r\<rparr>)))"

record google_user =
  gu_sub :: string
  gu_email :: string

definition google_principal :: "google_user \<Rightarrow> string" where
  "google_principal u = ''google:'' @ gu_sub u"

definition onsite_eligible :: "callback_wait \<Rightarrow> bool" where
  "onsite_eligible w \<longleftrightarrow> cw_origin w \<noteq> None \<and> (case cw_intent w of Register_intent p \<Rightarrow> False | _ \<Rightarrow> True)"

definition approve_session :: "string \<Rightarrow> google_user \<Rightarrow> device_table \<Rightarrow> page \<times> device_table" where
  "approve_session dc u db =
     (case map_of db dc of
        None \<Rightarrow> (No_longer_pending, db)
      | Some r \<Rightarrow>
          if dv_status r = Pending
          then (Approved_page (gu_email u), map_set dc (r\<lparr>dv_status := Approved (google_principal u) (gu_email u)\<rparr>) db)
          else (No_longer_pending, db))"

definition callback_finish ::
    "(string \<Rightarrow> string) \<Rightarrow> int \<Rightarrow> string \<Rightarrow> string \<Rightarrow> callback_wait \<Rightarrow> string + google_user \<Rightarrow> device_db \<Rightarrow> page \<times> device_db" where
  "callback_finish sha now ident random w answer d =
     (case answer of
        Inl msg \<Rightarrow> (Verification_failed msg, d)
      | Inr u \<Rightarrow>
          if onsite_eligible w
          then (case issueSessionToken sha now ident random
                       (device_input (google_principal u) (gu_email u) (cw_intent w) None) (dd_callers d) of
                  None \<Rightarrow> (Issuance_failed, d)
                | Some (raw, callers) \<Rightarrow>
                    (Onsite_token raw (seconds_left now (now + DEFAULT_TTL_MS)) (audience_of (cw_intent w)) (get_or (cw_origin w) []),
                     d\<lparr>dd_callers := callers, dd_sessions := map_del (cw_deviceCode w) (dd_sessions d)\<rparr>))
          else (case approve_session (cw_deviceCode w) u (dd_sessions d) of
                  (pg, db) \<Rightarrow> (pg, d\<lparr>dd_sessions := db\<rparr>)))"

definition sweep_device_sessions :: "int \<Rightarrow> device_table \<Rightarrow> device_table" where
  "sweep_device_sessions now db = filter (\<lambda>(k, r). \<not> dv_expires r \<le> now) db"

end
