(* ===== verification/DeviceFacts.thy ===== *)
theory DeviceFacts
  imports Device
begin

text \<open>
  What the device flow promises: whoever holds a token or a registration of the flow was signed in by Google in a browser
  in which the code of that very request had been entered, and holds what that request asked for.
\<close>

subsection \<open>The system\<close>

text \<open>What people and command lines did, in any order, on any number of instances. The log is not part of the program.\<close>

datatype device_event = Asked string intent | Entered string | Signed_in string string

record device_system =
  ds_db :: device_db
  ds_polls :: "(string \<times> string \<times> string \<times> intent) list"
  ds_waits :: "callback_wait list"
  ds_states :: "string list"
  ds_log :: "device_event list"

definition signed_events :: "callback_wait \<Rightarrow> string + google_user \<Rightarrow> device_event list" where
  "signed_events w answer = (case answer of Inl msg \<Rightarrow> [] | Inr u \<Rightarrow> [Signed_in (cw_deviceCode w) (google_principal u)])"

text \<open>A device code is 32 random bytes in base64url: it is new, not empty and has no separator. A state whose keyed
  hash is right was built with the key.\<close>

inductive device_step ::
    "(string \<Rightarrow> string) \<Rightarrow> (string \<Rightarrow> string \<Rightarrow> string) \<Rightarrow> (string \<Rightarrow> string) \<Rightarrow> (string \<Rightarrow> string) \<Rightarrow> (string \<Rightarrow> url_parts option) \<Rightarrow> string \<Rightarrow>
     device_settings \<Rightarrow> device_system \<Rightarrow> device_system \<Rightarrow> bool"
  for sha mac enc dec parse secret st where
  Ask: "device_code_request st now dc candidates body (polls, dd_sessions (ds_db s)) = (resp, polls', db') \<Longrightarrow>
    fst resp = 200 \<Longrightarrow> intent_of body = Inr i \<Longrightarrow> (\<And>j. Asked dc j \<notin> set (ds_log s)) \<Longrightarrow> dc \<noteq> [] \<Longrightarrow> CHR ''|'' \<notin> set dc \<Longrightarrow>
    device_step sha mac enc dec parse secret st s
      (s\<lparr>ds_db := (ds_db s)\<lparr>dd_sessions := db'\<rparr>, ds_log := ds_log s @ [Asked dc i]\<rparr>)"
| Enter: "google_start mac enc parse secret now raw onsite (dd_sessions (ds_db s)) = Redirect_to_google state \<Longrightarrow>
    pending_session now (normalizeUserCode (get_or raw [])) (dd_sessions (ds_db s)) = Some (dc, r) \<Longrightarrow>
    device_step sha mac enc dec parse secret st s
      (s\<lparr>ds_states := state # ds_states s, ds_log := ds_log s @ [Entered dc]\<rparr>)"
| Callback: "callback_start mac dec secret now q (dd_sessions (ds_db s)) = Inr w \<Longrightarrow> get_or (cq_state q) [] \<in> set (ds_states s) \<Longrightarrow>
    device_step sha mac enc dec parse secret st s (s\<lparr>ds_waits := w # ds_waits s\<rparr>)"
| Google: "w \<in> set (ds_waits s) \<Longrightarrow> callback_finish sha now ident random w answer (ds_db s) = (pg, d') \<Longrightarrow>
    device_step sha mac enc dec parse secret st s
      (s\<lparr>ds_db := d', ds_waits := remove1 w (ds_waits s), ds_log := ds_log s @ signed_events w answer\<rparr>)"
| Poll: "poll_read now dc (polls, dd_sessions (ds_db s)) = (Answer resp, polls', db') \<Longrightarrow>
    device_step sha mac enc dec parse secret st s (s\<lparr>ds_db := (ds_db s)\<lparr>dd_sessions := db'\<rparr>\<rparr>)"
| Poll_approved: "poll_read now dc (polls, dd_sessions (ds_db s)) = (Redeem p email i, polls', db') \<Longrightarrow>
    device_step sha mac enc dec parse secret st s (s\<lparr>ds_polls := (dc, p, email, i) # ds_polls s\<rparr>)"
| Redeemed: "(dc, p, email, i) \<in> set (ds_polls s) \<Longrightarrow>
    redeem sha st now ident random dc p email i (ds_db s) = Some (resp, d') \<Longrightarrow>
    device_step sha mac enc dec parse secret st s (s\<lparr>ds_db := d', ds_polls := remove1 (dc, p, email, i) (ds_polls s)\<rparr>)"
| Failed_poll: "device_step sha mac enc dec parse secret st s (s\<lparr>ds_polls := remove1 x (ds_polls s)\<rparr>)"
| Sweep: "device_step sha mac enc dec parse secret st s
    (s\<lparr>ds_db := (ds_db s)\<lparr>dd_sessions := sweep_device_sessions now (dd_sessions (ds_db s))\<rparr>\<rparr>)"

definition device_init :: "device_system \<Rightarrow> bool" where
  "device_init s \<longleftrightarrow> dd_sessions (ds_db s) = [] \<and> dd_callers (ds_db s) = [] \<and> ow_agents (dd_ownership (ds_db s)) = [] \<and>
     ds_polls s = [] \<and> ds_waits s = [] \<and> ds_states s = [] \<and> ds_log s = []"

subsection \<open>The signed state\<close>

text \<open>Base64url: what is encoded is read back, and no dot is among its characters.\<close>

definition url_codec :: "(string \<Rightarrow> string) \<Rightarrow> (string \<Rightarrow> string) \<Rightarrow> bool" where
  "url_codec enc dec \<longleftrightarrow> (\<forall>x. dec (enc x) = x \<and> CHR ''.'' \<notin> set (enc x) \<and> (enc x = [] \<longrightarrow> x = []))"

lemma cut_first: "c \<notin> set a \<Longrightarrow> cut c (a @ c # b) = Some (a, b)"
  by (induction a) (auto simp: cut_def)

lemma cut_none: "c \<notin> set a \<Longrightarrow> cut c a = None"
  by (simp add: cut_def)

lemma state_roundtrip:
  assumes "url_codec enc dec" "mac secret (dc @ (case w of None \<Rightarrow> [] | Some x \<Rightarrow> if x = [] then [] else ''|'' @ x)) \<noteq> []"
    and "dc \<noteq> []" "CHR ''|'' \<notin> set dc"
  shows "verifyState mac dec secret (buildState mac enc secret dc w) =
    Some \<lparr>vs_deviceCode = dc, vs_onsiteOrigin = (case w of None \<Rightarrow> None | Some x \<Rightarrow> if x = [] then None else Some x)\<rparr>"
proof -
  let ?payload = "dc @ (case w of None \<Rightarrow> [] | Some x \<Rightarrow> if x = [] then [] else ''|'' @ x)"
  have b: "buildState mac enc secret dc w = enc (mac secret ?payload) @ CHR ''.'' # enc ?payload"
    by (cases w) (auto simp: buildState_def Let_def)
  have c: "cut CHR ''.'' (buildState mac enc secret dc w) = Some (enc (mac secret ?payload), enc ?payload)"
    unfolding b using assms(1) by (intro cut_first) (simp add: url_codec_def)
  have d: "dec (enc x) = x" "enc x = [] \<Longrightarrow> x = []" for x using assms(1) by (auto simp: url_codec_def)
  have "?payload \<noteq> []" using assms(3) by simp
  then have "enc ?payload \<noteq> []" "enc (mac secret ?payload) \<noteq> []" using d(2) assms(2) by blast+
  then have v: "verifyState mac dec secret (buildState mac enc secret dc w) =
      (case cut CHR ''|'' ?payload of
         None \<Rightarrow> Some \<lparr>vs_deviceCode = ?payload, vs_onsiteOrigin = None\<rparr>
       | Some (dc, w) \<Rightarrow> Some \<lparr>vs_deviceCode = dc, vs_onsiteOrigin = Some w\<rparr>)"
    using \<open>?payload \<noteq> []\<close> unfolding verifyState_def c by (simp add: d(1) Let_def del: append_is_Nil_conv)
  show ?thesis unfolding v using cut_first [OF assms(4)] cut_none [OF assms(4)]
    by (cases w) auto
qed

subsection \<open>The invariant\<close>

definition signed_up :: "device_event list \<Rightarrow> string \<Rightarrow> intent \<Rightarrow> bool" where
  "signed_up log dc i \<longleftrightarrow> Asked dc i \<in> set log \<and> dc \<noteq> [] \<and> CHR ''|'' \<notin> set dc"

definition backed :: "device_event list \<Rightarrow> string \<Rightarrow> string \<Rightarrow> intent \<Rightarrow> bool" where
  "backed log dc p i \<longleftrightarrow> Asked dc i \<in> set log \<and> Entered dc \<in> set log \<and> Signed_in dc p \<in> set log"

definition session_ok :: "device_event list \<Rightarrow> string \<Rightarrow> device_session \<Rightarrow> bool" where
  "session_ok log dc r \<longleftrightarrow> signed_up log dc (dv_intent r) \<and>
     (\<forall>p e. dv_status r = Approved p e \<longrightarrow> backed log dc p (dv_intent r))"

definition sessions_ok :: "device_event list \<Rightarrow> device_table \<Rightarrow> bool" where
  "sessions_ok log db \<longleftrightarrow> (\<forall>(dc, r)\<in>set db. session_ok log dc r)"

definition callers_ok :: "device_event list \<Rightarrow> caller_table \<Rightarrow> bool" where
  "callers_ok log callers \<longleftrightarrow>
     (\<forall>(h, r)\<in>set callers. \<exists>dc i. backed log dc (cw_principal r) i \<and> i \<in> {Caller_intent, Owner_intent} \<and>
        cw_audience r = audience_text (audience_of i))"

definition agents_ok :: "device_event list \<Rightarrow> ownership \<Rightarrow> bool" where
  "agents_ok log ow \<longleftrightarrow>
     (\<forall>a\<in>set (ow_agents ow). \<exists>dc ps. backed log dc (ao_owner a) (Register_intent ps) \<and>
        cp_allowed_agent_ids ps = [ao_id a] \<and> cp_client_name ps = ao_name a)"

definition polls_ok :: "device_event list \<Rightarrow> (string \<times> string \<times> string \<times> intent) list \<Rightarrow> bool" where
  "polls_ok log polls \<longleftrightarrow> (\<forall>(dc, p, e, i)\<in>set polls. backed log dc p i)"

definition waits_ok :: "device_event list \<Rightarrow> callback_wait list \<Rightarrow> bool" where
  "waits_ok log waits \<longleftrightarrow> (\<forall>w\<in>set waits. Asked (cw_deviceCode w) (cw_intent w) \<in> set log \<and> Entered (cw_deviceCode w) \<in> set log)"

definition states_ok :: "(string \<Rightarrow> string \<Rightarrow> string) \<Rightarrow> (string \<Rightarrow> string) \<Rightarrow> string \<Rightarrow> device_event list \<Rightarrow> string list \<Rightarrow> bool" where
  "states_ok mac enc secret log states \<longleftrightarrow>
     (\<forall>state\<in>set states. \<exists>dc w i. state = buildState mac enc secret dc w \<and> signed_up log dc i \<and> Entered dc \<in> set log)"

definition device_inv :: "(string \<Rightarrow> string \<Rightarrow> string) \<Rightarrow> (string \<Rightarrow> string) \<Rightarrow> string \<Rightarrow> device_system \<Rightarrow> bool" where
  "device_inv mac enc secret s \<longleftrightarrow> sessions_ok (ds_log s) (dd_sessions (ds_db s)) \<and> callers_ok (ds_log s) (dd_callers (ds_db s)) \<and>
     agents_ok (ds_log s) (dd_ownership (ds_db s)) \<and> polls_ok (ds_log s) (ds_polls s) \<and> waits_ok (ds_log s) (ds_waits s) \<and>
     states_ok mac enc secret (ds_log s) (ds_states s)"

lemmas device_inv_parts = device_inv_def sessions_ok_def callers_ok_def agents_ok_def polls_ok_def waits_ok_def states_ok_def

lemma backed_mono: "backed log dc p i \<Longrightarrow> backed (log @ es) dc p i"
  by (auto simp: backed_def)

lemma signed_up_mono: "signed_up log dc i \<Longrightarrow> signed_up (log @ es) dc i"
  by (auto simp: signed_up_def)

lemma session_ok_mono: "session_ok log dc r \<Longrightarrow> session_ok (log @ es) dc r"
  using backed_mono signed_up_mono by (auto simp: session_ok_def)

lemma ok_mono:
  "sessions_ok log db \<Longrightarrow> sessions_ok (log @ es) db"
  "callers_ok log callers \<Longrightarrow> callers_ok (log @ es) callers"
  "agents_ok log ow \<Longrightarrow> agents_ok (log @ es) ow"
  "polls_ok log polls \<Longrightarrow> polls_ok (log @ es) polls"
  "waits_ok log waits \<Longrightarrow> waits_ok (log @ es) waits"
  "states_ok mac enc secret log states \<Longrightarrow> states_ok mac enc secret (log @ es) states"
proof -
  show "sessions_ok log db \<Longrightarrow> sessions_ok (log @ es) db" using session_ok_mono by (fastforce simp: sessions_ok_def)
  show "callers_ok log callers \<Longrightarrow> callers_ok (log @ es) callers" using backed_mono unfolding callers_ok_def by fast
  show "agents_ok log ow \<Longrightarrow> agents_ok (log @ es) ow" using backed_mono unfolding agents_ok_def by fast
  show "polls_ok log polls \<Longrightarrow> polls_ok (log @ es) polls" using backed_mono unfolding polls_ok_def by fast
  show "waits_ok log waits \<Longrightarrow> waits_ok (log @ es) waits" by (auto simp: waits_ok_def)
  show "states_ok mac enc secret log states \<Longrightarrow> states_ok mac enc secret (log @ es) states"
    using signed_up_mono unfolding states_ok_def by (metis Un_iff set_append)
qed

lemma sessions_set: "sessions_ok log db \<Longrightarrow> session_ok log dc r \<Longrightarrow> sessions_ok log (map_set dc r db)"
  by (auto simp: sessions_ok_def dest!: mem_set_cases)

lemma sessions_del: "sessions_ok log db \<Longrightarrow> sessions_ok log (map_del dc db)"
  using set_del_subset [of dc db] by (auto simp: sessions_ok_def)

lemma sessions_at: "sessions_ok log db \<Longrightarrow> map_of db dc = Some r \<Longrightarrow> session_ok log dc r"
  by (auto simp: sessions_ok_def dest: map_of_SomeD)

lemma allocated_ok:
  "allocate_user_code dc i e cs db = Some (u, db') \<Longrightarrow> sessions_ok log db \<Longrightarrow> signed_up log dc i \<Longrightarrow> sessions_ok log db'"
  by (induction dc i e cs db rule: allocate_user_code.induct)
    (auto simp: session_ok_def intro!: sessions_set split: if_splits)

lemma issued_ok:
  assumes "issueSessionToken sha now ident random (device_input p email i ttl) callers = Some (raw, callers')" "callers_ok log callers"
    and "backed log dc p i" "i \<in> {Caller_intent, Owner_intent}"
  shows "callers_ok log callers'"
  unfolding callers_ok_def
proof clarify
  fix h r
  assume "(h, r) \<in> set callers'"
  moreover obtain r0 where "callers' = map_set (sha raw) r0 callers" "cw_principal r0 = p" "cw_audience r0 = audience_text (audience_of i)"
    using assms(1) by (auto simp: issueSessionToken_def device_input_def Let_def split: if_splits)
  ultimately consider "cw_principal r = p" "cw_audience r = audience_text (audience_of i)" | "(h, r) \<in> set callers"
    by (auto dest!: mem_set_cases)
  then show "\<exists>dc i. backed log dc (cw_principal r) i \<and> i \<in> {Caller_intent, Owner_intent} \<and> cw_audience r = audience_text (audience_of i)"
    using assms(2,3,4) by cases (auto simp: callers_ok_def)
qed

lemma registered_ok:
  assumes "register_client sha c token p (cp_client_name ps) (cp_allowed_agent_ids ps) ow = Inr (a, ow')" "agents_ok log ow"
    and "backed log dc p (Register_intent ps)"
  shows "agents_ok log ow'"
proof -
  have "ow_agents ow' = ow_agents ow @ [a]" "ao_owner a = p" "cp_allowed_agent_ids ps = [ao_id a]" "ao_name a = cp_client_name ps"
    using assms(1) by (auto simp: register_client_def Let_def split: option.splits list.splits if_splits)
  then show ?thesis using assms(2,3) by (auto simp: agents_ok_def)
qed

lemma stamped_ok: "agents_ok log ow \<Longrightarrow> agents_ok log (stamp_email e c ow)"
  by (auto simp: agents_ok_def stamp_email_def update_agents_def bump_revision_def)

lemma redeemed_ok:
  assumes "redeem sha st now ident random dc p email i d = Some (resp, d')" "backed log dc p i"
    and "sessions_ok log (dd_sessions d)" "callers_ok log (dd_callers d)" "agents_ok log (dd_ownership d)"
  shows "sessions_ok log (dd_sessions d') \<and> callers_ok log (dd_callers d') \<and> agents_ok log (dd_ownership d')"
proof (cases i)
  case (Register_intent ps)
  then obtain c a ow where reg: "register_client sha c random p (cp_client_name ps) (cp_allowed_agent_ids ps) (dd_ownership d) = Inr (a, ow)"
    and d': "d' = d\<lparr>dd_ownership := (if email = [] then ow else stamp_email email c ow), dd_sessions := map_del dc (dd_sessions d)\<rparr>"
    using assms(1) by (auto simp: redeem_def redeem_client_def split: sum.splits)
  show ?thesis using registered_ok [OF reg assms(5)] assms(2-4) stamped_ok sessions_del Register_intent unfolding d' by auto
next
  case Caller_intent
  with assms show ?thesis
    by (auto simp: redeem_def redeem_token_def intro: sessions_del issued_ok split: option.splits)
next
  case Owner_intent
  with assms show ?thesis
    by (auto simp: redeem_def redeem_token_def intro: sessions_del issued_ok split: option.splits)
qed

lemma polled_ok:
  "poll_read now dc (polls, db) = (n, polls', db') \<Longrightarrow> sessions_ok log db \<Longrightarrow> sessions_ok log db'"
  by (auto simp: poll_read_def session_ok_def dest: sessions_at intro!: sessions_set split: option.splits device_status.splits if_splits)

lemma polled_redeem:
  "poll_read now dc (polls, db) = (Redeem p e i, polls', db') \<Longrightarrow> sessions_ok log db \<Longrightarrow> backed log dc p i"
  by (auto simp: poll_read_def session_ok_def dest!: sessions_at split: option.splits device_status.splits if_splits)

lemma pending_at: "pending_session now code db = Some (dc, r) \<Longrightarrow> (dc, r) \<in> set db"
  by (auto simp: pending_session_def dest: find_Some_D)

lemma started_state:
  "google_start mac enc parse secret now raw onsite db = Redirect_to_google state \<Longrightarrow>
    pending_session now (normalizeUserCode (get_or raw [])) db = Some (dc, r) \<Longrightarrow> \<exists>w. state = buildState mac enc secret dc w"
  by (cases raw) (auto simp: google_start_def split: if_splits)

lemma waiting_ok:
  assumes "callback_start mac dec secret now q db = Inr w" "get_or (cq_state q) [] \<in> set states" "states_ok mac enc secret log states"
    and "sessions_ok log db" "url_codec enc dec" "\<And>x. mac secret x \<noteq> []"
  shows "Asked (cw_deviceCode w) (cw_intent w) \<in> set log \<and> Entered (cw_deviceCode w) \<in> set log"
proof -
  obtain dc o1 i where st: "get_or (cq_state q) [] = buildState mac enc secret dc o1" "signed_up log dc i" "Entered dc \<in> set log"
    using assms(2,3) unfolding states_ok_def by blast
  have v: "verifyState mac dec secret (get_or (cq_state q) []) =
      Some \<lparr>vs_deviceCode = dc, vs_onsiteOrigin = (case o1 of None \<Rightarrow> None | Some x \<Rightarrow> if x = [] then None else Some x)\<rparr>"
    unfolding st(1) using assms(5,6) st(2) by (intro state_roundtrip) (auto simp: signed_up_def)
  obtain r where "map_of db dc = Some r" "cw_deviceCode w = dc" "cw_intent w = dv_intent r"
    using assms(1) unfolding callback_start_def v by (auto split: if_splits option.splits)
  then show ?thesis using sessions_at [OF assms(4)] st(3) by (auto simp: session_ok_def signed_up_def)
qed

lemma finished_ok:
  assumes "callback_finish sha now ident random w answer d = (pg, d')"
    and "Asked (cw_deviceCode w) (cw_intent w) \<in> set log" "Entered (cw_deviceCode w) \<in> set log"
    and "sessions_ok log (dd_sessions d)" "callers_ok log (dd_callers d)" "agents_ok log (dd_ownership d)"
    and single: "\<And>i. Asked (cw_deviceCode w) i \<in> set log \<Longrightarrow> i = cw_intent w"
  shows "sessions_ok (log @ signed_events w answer) (dd_sessions d') \<and> callers_ok (log @ signed_events w answer) (dd_callers d') \<and>
    agents_ok (log @ signed_events w answer) (dd_ownership d')"
proof (cases answer)
  case (Inl msg)
  then show ?thesis using assms by (auto simp: callback_finish_def signed_events_def)
next
  case (Inr u)
  let ?log = "log @ signed_events w answer"
  have b: "backed ?log (cw_deviceCode w) (google_principal u) (cw_intent w)"
    using assms(2,3) Inr by (simp add: backed_def signed_events_def)
  have ok: "sessions_ok ?log (dd_sessions d)" "callers_ok ?log (dd_callers d)" "agents_ok ?log (dd_ownership d)"
    using assms(4-6) by (auto intro: ok_mono)
  show ?thesis
  proof (cases "onsite_eligible w")
    case True
    then have i: "cw_intent w \<in> {Caller_intent, Owner_intent}" by (cases "cw_intent w") (auto simp: onsite_eligible_def)
    show ?thesis
    proof (cases "issueSessionToken sha now ident random
        (device_input (google_principal u) (gu_email u) (cw_intent w) None) (dd_callers d)")
      case None
      then show ?thesis using assms(1) Inr True ok by (auto simp: callback_finish_def)
    next
      case (Some x)
      then obtain raw callers where iss: "issueSessionToken sha now ident random
          (device_input (google_principal u) (gu_email u) (cw_intent w) None) (dd_callers d) = Some (raw, callers)" by (cases x) auto
      have "d' = d\<lparr>dd_callers := callers, dd_sessions := map_del (cw_deviceCode w) (dd_sessions d)\<rparr>"
        using assms(1) Inr True iss by (auto simp: callback_finish_def)
      then show ?thesis using issued_ok [OF iss ok(2) b i] ok sessions_del by auto
    qed
  next
    case False
    then have d': "d' = d\<lparr>dd_sessions := snd (approve_session (cw_deviceCode w) u (dd_sessions d))\<rparr>"
      using assms(1) Inr by (auto simp: callback_finish_def split: prod.splits)
    have "sessions_ok ?log (snd (approve_session (cw_deviceCode w) u (dd_sessions d)))"
    proof (cases "map_of (dd_sessions d) (cw_deviceCode w)")
      case None
      then show ?thesis using ok(1) by (simp add: approve_session_def)
    next
      case (Some r)
      have "Asked (cw_deviceCode w) (dv_intent r) \<in> set log"
        using sessions_at [OF assms(4) Some] by (simp add: session_ok_def signed_up_def)
      then have "dv_intent r = cw_intent w" by (rule single)
      then have "session_ok ?log (cw_deviceCode w) (r\<lparr>dv_status := Approved (google_principal u) (gu_email u)\<rparr>)"
        using sessions_at [OF ok(1) Some] b by (simp add: session_ok_def)
      then show ?thesis using ok(1) Some by (auto simp: approve_session_def intro: sessions_set)
    qed
    then show ?thesis using ok unfolding d' by simp
  qed
qed

text \<open>A code is asked for once.\<close>

definition asked_once :: "device_event list \<Rightarrow> bool" where
  "asked_once log \<longleftrightarrow> (\<forall>dc i j. Asked dc i \<in> set log \<longrightarrow> Asked dc j \<in> set log \<longrightarrow> i = j)"

lemma remove_ok:
  "polls_ok log polls \<Longrightarrow> polls_ok log (remove1 x polls)" "waits_ok log waits \<Longrightarrow> waits_ok log (remove1 w waits)"
  using set_remove1_subset [of x polls] set_remove1_subset [of w waits] by (auto simp: polls_ok_def waits_ok_def)

lemma device_step_inv:
  assumes "device_inv mac enc secret s \<and> asked_once (ds_log s)" "device_step sha mac enc dec parse secret st s s'"
    and "url_codec enc dec" "\<And>x. mac secret x \<noteq> []"
  shows "device_inv mac enc secret s' \<and> asked_once (ds_log s')"
proof -
  have inv: "sessions_ok (ds_log s) (dd_sessions (ds_db s))" "callers_ok (ds_log s) (dd_callers (ds_db s))"
      "agents_ok (ds_log s) (dd_ownership (ds_db s))" "polls_ok (ds_log s) (ds_polls s)" "waits_ok (ds_log s) (ds_waits s)"
      "states_ok mac enc secret (ds_log s) (ds_states s)" and once: "asked_once (ds_log s)"
    using assms(1) by (auto simp: device_inv_def)
  from assms(2) show ?thesis
  proof cases
    case (Ask now dc candidates body polls resp polls' db' i)
    let ?log = "ds_log s @ [Asked dc i]"
    have "sessions_ok ?log db'"
    proof -
      obtain u e cs where a: "allocate_user_code dc i e cs (dd_sessions (ds_db s)) = Some (u, db')"
        using Ask(2,3,4) by (auto simp: device_code_request_def Let_def split: option.splits)
      have "signed_up ?log dc i" using Ask(6,7) by (simp add: signed_up_def)
      then show ?thesis by (rule allocated_ok [OF a ok_mono(1) [OF inv(1)]])
    qed
    moreover have "asked_once ?log" using once Ask(5) by (auto simp: asked_once_def)
    ultimately show ?thesis using inv Ask(1) by (simp add: device_inv_def ok_mono)
  next
    case (Enter now raw onsite state dc r)
    let ?log = "ds_log s @ [Entered dc]"
    have "session_ok (ds_log s) dc r" using pending_at [OF Enter(3)] inv(1) by (auto simp: sessions_ok_def)
    then have "\<exists>w i. state = buildState mac enc secret dc w \<and> signed_up ?log dc i \<and> Entered dc \<in> set ?log"
      using started_state [OF Enter(2,3)] signed_up_mono by (fastforce simp: session_ok_def)
    then have "states_ok mac enc secret ?log (state # ds_states s)"
      using ok_mono(6) [OF inv(6), of "[Entered dc]"] by (auto simp: states_ok_def)
    moreover have "asked_once ?log" using once by (auto simp: asked_once_def)
    ultimately show ?thesis using inv Enter(1) by (simp add: device_inv_def ok_mono)
  next
    case (Callback now q w)
    then have "waits_ok (ds_log s) (w # ds_waits s)"
      using waiting_ok [OF Callback(2,3) inv(6,1) assms(3,4)] inv(5) by (simp add: waits_ok_def)
    then show ?thesis using inv once Callback(1) by (simp add: device_inv_def)
  next
    case (Google w now ident random answer pg d')
    have w: "Asked (cw_deviceCode w) (cw_intent w) \<in> set (ds_log s)" "Entered (cw_deviceCode w) \<in> set (ds_log s)"
      using Google(2) inv(5) by (auto simp: waits_ok_def)
    have "asked_once (ds_log s @ signed_events w answer)"
      using once by (auto simp: asked_once_def signed_events_def split: sum.splits)
    moreover have "sessions_ok (ds_log s @ signed_events w answer) (dd_sessions d') \<and>
        callers_ok (ds_log s @ signed_events w answer) (dd_callers d') \<and> agents_ok (ds_log s @ signed_events w answer) (dd_ownership d')"
      by (rule finished_ok [OF Google(3) w inv(1-3)]) (use once w(1) in \<open>auto simp: asked_once_def\<close>)
    ultimately show ?thesis using inv Google(1) by (simp add: device_inv_def ok_mono remove_ok)
  next
    case (Poll now dc polls resp polls' db')
    then show ?thesis using inv once polled_ok [OF Poll(2) inv(1)] by (simp add: device_inv_def)
  next
    case (Poll_approved now dc polls p email i polls' db')
    then show ?thesis using inv once polled_redeem [OF Poll_approved(2) inv(1)] by (simp add: device_inv_def polls_ok_def)
  next
    case (Redeemed dc p email i now ident random resp d')
    have "backed (ds_log s) dc p i" using Redeemed(2) inv(4) by (auto simp: polls_ok_def)
    from redeemed_ok [OF Redeemed(3) this inv(1-3)] show ?thesis
      using inv once Redeemed(1) by (simp add: device_inv_def remove_ok)
  next
    case (Failed_poll x)
    then show ?thesis using inv once by (simp add: device_inv_def remove_ok)
  next
    case (Sweep now)
    then show ?thesis using inv once by (auto simp: device_inv_def sweep_device_sessions_def sessions_ok_def)
  qed
qed

lemma device_inv_init: "device_init s \<Longrightarrow> device_inv mac enc secret s \<and> asked_once (ds_log s)"
  by (simp add: device_init_def device_inv_parts asked_once_def)

text \<open>The system of steps under what is relied on of the encoding and the keyed hash.\<close>

definition sound_crypto :: "(string \<Rightarrow> string \<Rightarrow> string) \<Rightarrow> (string \<Rightarrow> string) \<Rightarrow> (string \<Rightarrow> string) \<Rightarrow> string \<Rightarrow> bool" where
  "sound_crypto mac enc dec secret \<longleftrightarrow> url_codec enc dec \<and> (\<forall>x. mac secret x \<noteq> [])"

interpretation device: invariant_system device_init
    "\<lambda>s s'. sound_crypto mac enc dec secret \<and> device_step sha mac enc dec parse secret st s s'"
    "\<lambda>s. device_inv mac enc secret s \<and> asked_once (ds_log s)" for sha mac enc dec parse secret st
proof unfold_locales
  show "device_init s \<Longrightarrow> device_inv mac enc secret s \<and> asked_once (ds_log s)" for s by (rule device_inv_init)
next
  fix s t
  assume "device_inv mac enc secret s \<and> asked_once (ds_log s)"
    and step: "sound_crypto mac enc dec secret \<and> device_step sha mac enc dec parse secret st s t"
  then show "device_inv mac enc secret t \<and> asked_once (ds_log t)"
    using device_step_inv [of mac enc secret s sha dec parse st t] by (auto simp: sound_crypto_def)
qed

lemma device_reachable:
  assumes "device_init s0" "(device_step sha mac enc dec parse secret st)\<^sup>*\<^sup>* s0 s" "sound_crypto mac enc dec secret"
  shows "device_inv mac enc secret s"
proof -
  have "(\<lambda>s s'. sound_crypto mac enc dec secret \<and> device_step sha mac enc dec parse secret st s s')\<^sup>*\<^sup>* s0 s"
    using assms(2,3) by (simp add: mono_rtranclp [rule_format, OF _ assms(2)])
  from device.reachable_inv [OF assms(1) this] show ?thesis by simp
qed


subsection \<open>Redeeming a code\<close>

text \<open>
  Claim C35. One approved code can buy two tokens. The query of a poll and the transaction that redeems the code are two
  steps, and the transaction does not look at the row again: when two instances read an approved row before either
  deletes it, both issue a token, and each is a live session of the principal.
\<close>
theorem two_polls_two_tokens:
  assumes "map_of (dd_sessions d) dc = Some r" "dv_status r = Approved p email" "p \<noteq> []" "now < dv_expires r"
    and "dv_intent r = Caller_intent" "map_of polls1 dc = None" "map_of polls2 dc = None"
      "str_field body ''grant_type'' = Some DEVICE_CODE_GRANT_TYPE" "str_field body ''device_code'' = Some dc" "dc \<noteq> []"
    and "\<not> map_has (dd_callers d) (sha (CALLER_TOKEN_PREFIX @ random1))" "\<not> map_has (dd_callers d) (sha (CALLER_TOKEN_PREFIX @ random2))"
      "sha (CALLER_TOKEN_PREFIX @ random1) \<noteq> sha (CALLER_TOKEN_PREFIX @ random2)"
  shows "fst (poll_start st now body polls1) = Inr dc \<and> fst (poll_start st now body polls2) = Inr dc \<and>
    fst (poll_read now dc (polls1, dd_sessions d)) = Redeem p email Caller_intent \<and>
    fst (poll_read now dc (polls2, dd_sessions d)) = Redeem p email Caller_intent \<and>
    (\<exists>resp1 d1 resp2 d2. redeem sha st now id1 random1 dc p email Caller_intent d = Some (resp1, d1) \<and>
      redeem sha st now id2 random2 dc p email Caller_intent d1 = Some (resp2, d2) \<and>
      fst (poll_read now dc (polls2, dd_sessions d1)) = Answer (oauth_error ''expired_token'') \<and>
      length (dd_callers d2) = length (dd_callers d) + 2)"
proof -
  let ?h1 = "sha (CALLER_TOKEN_PREFIX @ random1)" and ?h2 = "sha (CALLER_TOKEN_PREFIX @ random2)"
  have len: "length (map_set ?h2 x (map_set ?h1 y (dd_callers d))) = length (dd_callers d) + 2" for x y
    using assms(11-13) by (simp add: length_set_fresh map_of_eq_None_iff)
  have "fst (poll_read now dc (ps, dd_sessions d)) = Redeem p email Caller_intent" for ps
    using assms(1-5) by (simp add: poll_read_def)
  moreover have "fst (poll_start st now body polls1) = Inr dc" "fst (poll_start st now body polls2) = Inr dc"
    using assms(6-10) by (simp_all add: poll_start_def)
  ultimately show ?thesis
    using assms(11-13) len
    by (auto simp: redeem_def redeem_token_def issueSessionToken_def device_input_def audience_of_def generateSessionToken_def
        prefixFor_def poll_read_def Let_def)
qed

text \<open>A registration that names more than one agent is accepted and approved, but never redeemed.\<close>

lemma register_needs_one_agent:
  "length (cp_allowed_agent_ids ps) \<noteq> 1 \<Longrightarrow> redeem sha st now ident random dc p email (Register_intent ps) d = None"
  by (auto simp: redeem_def redeem_client_def register_client_def split: sum.splits option.splits list.splits)

end
