(* ===== verification/DeviceSamples.thy ===== *)
theory DeviceSamples
  imports DeviceFacts
begin

text \<open>The promises of the device flow, applied to a run from the request for a code to the token.\<close>

text \<open>An encoding that escapes the dot, a keyed hash and the settings.\<close>

fun dot_free :: "string \<Rightarrow> string" where
  "dot_free [] = []"
| "dot_free (c # cs) = (if c = CHR ''.'' then ''~d'' else if c = CHR ''~'' then ''~t'' else [c]) @ dot_free cs"

fun dot_back :: "string \<Rightarrow> string" where
  "dot_back (c # d # cs) =
     (if c = CHR ''~'' then (if d = CHR ''d'' then CHR ''.'' else c) # dot_back cs else c # dot_back (d # cs))"
| "dot_back cs = cs"

lemma dot_back_plain: "c \<noteq> CHR ''~'' \<Longrightarrow> dot_back (c # cs) = c # dot_back cs"
  by (cases cs) simp_all

lemma dot_codec: "url_codec dot_free dot_back"
proof -
  have "dot_back (dot_free x) = x" for x
    by (induction x) (simp_all add: dot_back_plain)
  moreover have "CHR ''.'' \<notin> set (dot_free x)" for x by (induction x) auto
  moreover have "dot_free x = [] \<Longrightarrow> x = []" for x by (cases x) (auto split: if_splits)
  ultimately show ?thesis by (auto simp: url_codec_def)
qed

definition sample_mac :: "string \<Rightarrow> string \<Rightarrow> string" where "sample_mac k x = ''m'' @ k @ x"

lemma sample_crypto: "sound_crypto sample_mac dot_free dot_back ''k''"
  using dot_codec by (simp add: sound_crypto_def sample_mac_def)

definition sample_settings :: device_settings where
  "sample_settings = \<lparr>dg_publicUrl = ''https://b'', dg_sessionTtlMs = 600, dg_tokenTtlMs = 9000, dg_pollIntervalSeconds = 5, dg_minPollIntervalMs = 50\<rparr>"

abbreviation device_row :: "device_status \<Rightarrow> device_session" where
  "device_row status \<equiv> \<lparr>dv_user_code = ''ABCD-EFGH'', dv_status = status, dv_intent = Caller_intent, dv_expires = 600\<rparr>"

definition empty_ownership :: ownership where
  "empty_ownership = \<lparr>ow_agents = [], ow_clients = [], ow_policies = []\<rparr>"

definition sample_token :: caller_row where
  "sample_token = \<lparr>cw_id = ''i'', cw_principal = ''google:7'', cw_provider = ''google'', cw_audience = ''caller'',
     cw_email = Some ''a@b'', cw_label = None, cw_expires = 9040, cw_revoked = False, cw_created = 40\<rparr>"

abbreviation sample_system :: "device_table \<Rightarrow> caller_table \<Rightarrow> (string \<times> string \<times> string \<times> intent) list \<Rightarrow> callback_wait list \<Rightarrow>
    string list \<Rightarrow> device_event list \<Rightarrow> device_system" where
  "sample_system db callers polls waits states log \<equiv>
     \<lparr>ds_db = \<lparr>dd_sessions = db, dd_callers = callers, dd_ownership = empty_ownership\<rparr>,
      ds_polls = polls, ds_waits = waits, ds_states = states, ds_log = log\<rparr>"

abbreviation sample_state :: string where "sample_state \<equiv> ''mkd.d''"

abbreviation sample_wait :: callback_wait where
  "sample_wait \<equiv> \<lparr>cw_deviceCode = ''d'', cw_origin = None, cw_intent = Caller_intent\<rparr>"

abbreviation sample_step :: "device_system \<Rightarrow> device_system \<Rightarrow> bool" where
  "sample_step \<equiv> device_step id sample_mac dot_free dot_back (\<lambda>s. None) ''k'' sample_settings"

lemma sample_request:
  "\<exists>resp. device_code_request sample_settings 0 ''d'' [''ABCD-EFGH''] [] ([], []) = (resp, [], [(''d'', device_row Pending)]) \<and> fst resp = 200"
proof -
  have "intent_of [] = Inr Caller_intent" by (simp add: intent_of_def str_field_def)
  moreover have "allocate_user_code ''d'' Caller_intent 600 (take MAX_USER_CODE_RETRIES [''ABCD-EFGH'']) [] =
      Some (''ABCD-EFGH'', [(''d'', device_row Pending)])"
    by (simp add: MAX_USER_CODE_RETRIES_def)
  ultimately show ?thesis
    unfolding device_code_request_def prunePollMap_def Let_def by (simp add: sample_settings_def)
qed

lemma sample_ask: "sample_step (sample_system [] [] [] [] [] []) (sample_system [(''d'', device_row Pending)] [] [] [] [] [Asked ''d'' Caller_intent])"
proof -
  obtain resp where r: "device_code_request sample_settings 0 ''d'' [''ABCD-EFGH''] [] ([], []) = (resp, [], [(''d'', device_row Pending)])" "fst resp = 200"
    using sample_request by blast
  have "intent_of [] = Inr Caller_intent" by (simp add: intent_of_def str_field_def)
  then show ?thesis
    using Ask [where s = "sample_system [] [] [] [] [] []" and polls = "[]" and body = "[]", of sample_settings 0 "''d''" "[''ABCD-EFGH'']" resp] r by simp
qed

lemma ascii_space: "is_space [c] \<longleftrightarrow> (of_char c :: nat) \<in> {9, 10, 11, 12, 13, 32}"
  by (simp add: is_space_def)

lemma sample_points: "points (map upper_char ''abcd efgh'') = map (\<lambda>c. [c]) ''ABCD EFGH''"
  by code_simp

lemma sample_code: "normalizeUserCode ''abcd efgh'' = ''ABCD-EFGH''"
proof -
  have "filter (\<lambda>p. \<not> is_space p \<and> p \<noteq> ''-'') (points (map upper_char ''abcd efgh'')) = map (\<lambda>c. [c]) ''ABCDEFGH''"
    unfolding sample_points by (simp add: ascii_space)
  moreover have "js_length ''ABCDEFGH'' = 8" by code_simp
  moreover have "take_units 4 (map (\<lambda>c. [c]) ''ABCDEFGH'') = map (\<lambda>c. [c]) ''ABCD''" by code_simp
  ultimately show ?thesis unfolding normalizeUserCode_def Let_def by simp
qed

lemma sample_enter: "sample_step (sample_system [(''d'', device_row Pending)] [] [] [] [] [Asked ''d'' Caller_intent])
    (sample_system [(''d'', device_row Pending)] [] [] [] [sample_state] [Asked ''d'' Caller_intent, Entered ''d''])"
proof -
  let ?s = "sample_system [(''d'', device_row Pending)] [] [] [] [] [Asked ''d'' Caller_intent]"
  have "pending_session 10 (normalizeUserCode ''abcd efgh'') [(''d'', device_row Pending)] = Some (''d'', device_row Pending)"
    by (simp add: sample_code pending_session_def)
  moreover from this have "google_start sample_mac dot_free (\<lambda>s. None) ''k'' 10 (Some ''abcd efgh'') None [(''d'', device_row Pending)] =
      Redirect_to_google sample_state"
    by (simp add: google_start_def normalizeOnsiteOrigin_def buildState_def sample_mac_def)
  ultimately show ?thesis
    using Enter [of sample_mac dot_free "\<lambda>s. None" "''k''" 10 "Some ''abcd efgh''" None ?s sample_state "''d''"] by simp
qed

lemma sample_callback: "sample_step
    (sample_system [(''d'', device_row Pending)] [] [] [] [sample_state] [Asked ''d'' Caller_intent, Entered ''d''])
    (sample_system [(''d'', device_row Pending)] [] [] [sample_wait] [sample_state] [Asked ''d'' Caller_intent, Entered ''d''])"
proof -
  have "verifyState sample_mac dot_back ''k'' sample_state = Some \<lparr>vs_deviceCode = ''d'', vs_onsiteOrigin = None\<rparr>"
    by (simp add: verifyState_def cut_def sample_mac_def)
  then have "callback_start sample_mac dot_back ''k'' 20 \<lparr>cq_error = None, cq_state = Some sample_state, cq_code = Some ''c''\<rparr>
      [(''d'', device_row Pending)] = Inr sample_wait"
    by (simp add: callback_start_def truthy_string_def)
  then show ?thesis
    using Callback [where s = "sample_system [(''d'', device_row Pending)] [] [] [] [sample_state] [Asked ''d'' Caller_intent, Entered ''d'']"]
    by simp
qed

abbreviation sample_log :: "device_event list" where
  "sample_log \<equiv> [Asked ''d'' Caller_intent, Entered ''d'', Signed_in ''d'' ''google:7'']"

abbreviation approved_row :: device_session where "approved_row \<equiv> device_row (Approved ''google:7'' ''a@b'')"

lemma sample_google: "sample_step
    (sample_system [(''d'', device_row Pending)] [] [] [sample_wait] [sample_state] [Asked ''d'' Caller_intent, Entered ''d''])
    (sample_system [(''d'', approved_row)] [] [] [] [sample_state] sample_log)"
  using Google [where s = "sample_system [(''d'', device_row Pending)] [] [] [sample_wait] [sample_state] [Asked ''d'' Caller_intent, Entered ''d'']"
      and w = sample_wait and answer = "Inr \<lparr>gu_sub = ''7'', gu_email = ''a@b''\<rparr>" and now = 30 and ident = "''x''" and random = "''y''"]
  by (simp add: callback_finish_def onsite_eligible_def approve_session_def google_principal_def signed_events_def)

lemma sample_poll: "sample_step (sample_system [(''d'', approved_row)] [] [] [] [sample_state] sample_log)
    (sample_system [(''d'', approved_row)] [] [(''d'', ''google:7'', ''a@b'', Caller_intent)] [] [sample_state] sample_log)"
  using Poll_approved [where s = "sample_system [(''d'', approved_row)] [] [] [] [sample_state] sample_log" and now = 40 and dc = "''d''" and polls = "[]"]
  by (simp add: poll_read_def)

lemma sample_redeem: "sample_step
    (sample_system [(''d'', approved_row)] [] [(''d'', ''google:7'', ''a@b'', Caller_intent)] [] [sample_state] sample_log)
    (sample_system [] [(''vbc_caller_y'', sample_token)] [] [] [sample_state] sample_log)"
proof -
  let ?s = "sample_system [(''d'', approved_row)] [] [(''d'', ''google:7'', ''a@b'', Caller_intent)] [] [sample_state] sample_log"
  have "\<exists>resp. redeem id sample_settings 40 ''i'' ''y'' ''d'' ''google:7'' ''a@b'' Caller_intent (ds_db ?s) =
      Some (resp, \<lparr>dd_sessions = [], dd_callers = [(''vbc_caller_y'', sample_token)], dd_ownership = empty_ownership\<rparr>)"
    by (simp add: redeem_def redeem_token_def issueSessionToken_def device_input_def audience_of_def generateSessionToken_def prefixFor_def
        CALLER_TOKEN_PREFIX_def audience_text_def sample_settings_def sample_token_def Let_def)
  then obtain resp where "redeem id sample_settings 40 ''i'' ''y'' ''d'' ''google:7'' ''a@b'' Caller_intent (ds_db ?s) =
      Some (resp, \<lparr>dd_sessions = [], dd_callers = [(''vbc_caller_y'', sample_token)], dd_ownership = empty_ownership\<rparr>)"
    by blast
  from Redeemed [OF _ this] show ?thesis by simp
qed

lemma sample_flow: "sample_step\<^sup>*\<^sup>* (sample_system [] [] [] [] [] [])
    (sample_system [] [(''vbc_caller_y'', sample_token)] [] [] [sample_state] sample_log)"
  by (rule converse_rtranclp_into_rtranclp, rule sample_ask, rule converse_rtranclp_into_rtranclp, rule sample_enter,
      rule converse_rtranclp_into_rtranclp, rule sample_callback, rule converse_rtranclp_into_rtranclp, rule sample_google,
      rule converse_rtranclp_into_rtranclp, rule sample_poll, rule r_into_rtranclp, rule sample_redeem)


lemma two_polls_two_tokens_witness:
  "\<exists>resp1 d1 resp2 d2.
    redeem id sample_settings 40 ''i'' ''y'' ''d'' ''google:7'' ''a@b'' Caller_intent
      (ds_db (sample_system [(''d'', approved_row)] [] [] [] [] [])) = Some (resp1, d1) \<and>
    redeem id sample_settings 40 ''j'' ''z'' ''d'' ''google:7'' ''a@b'' Caller_intent d1 = Some (resp2, d2) \<and>
    length (dd_callers d2) = 2"
proof -
  let ?body = "[(''grant_type'', JStr DEVICE_CODE_GRANT_TYPE), (''device_code'', JStr ''d'')]"
  have "DEVICE_CODE_GRANT_TYPE = DEVICE_CODE_GRANT_TYPE" by simp
  then show ?thesis
    using two_polls_two_tokens [of "ds_db (sample_system [(''d'', approved_row)] [] [] [] [] [])" "''d''" approved_row "''google:7''" "''a@b''"
        40 "[]" "[]" ?body id "''y''" "''z''" sample_settings "''i''" "''j''"]
    by (fastforce simp: str_field_def)
qed

end
