(* ===== verification/SignIn.thy ===== *)
theory SignIn
  imports Device
begin

text \<open>
  Wallets: a signed message is checked (packages/server/src/siwe-token.ts), buys a session token
  (packages/server/src/auth/siwe-exchange.ts) or is itself the bearer of a request, with a cache of checked ones
  (packages/server/src/auth/siwe-bearer.ts); and the revocation of any opaque token (packages/server/src/auth/revoke.ts). The
  library that parses a message is \<open>parse\<close>, its check of a signature at a time is \<open>valid\<close>, \<open>ts\<close> reads a date,
  \<open>unjson\<close> parses JSON and \<open>dec\<close> is base64. The library's own error messages are left out.
\<close>

subsection \<open>Messages\<close>

record siwe_message =
  sm_address :: string
  sm_domain :: string
  sm_nonce :: string
  sm_issuedAt :: "string option"
  sm_expirationTime :: "string option"

definition MAX_TOKEN_TTL_MS :: int where "MAX_TOKEN_TTL_MS = 7 * 24 * 60 * 60 * 1000"
definition ISSUED_AT_SKEW_MS :: int where "ISSUED_AT_SKEW_MS = 2 * 60 * 1000"
definition TTL_CAP_SLOP_MS :: int where "TTL_CAP_SLOP_MS = 1000"

definition siwe_dates :: "(string \<Rightarrow> int option) \<Rightarrow> siwe_message \<Rightarrow> string + int \<times> int" where
  "siwe_dates ts m =
     (if \<not> truthy_string (sm_expirationTime m) then Inl ''SIWE message must have an expirationTime''
      else if \<not> truthy_string (sm_issuedAt m) then Inl ''SIWE message must have an issuedAt''
      else (case (ts (get_or (sm_issuedAt m) []), ts (get_or (sm_expirationTime m) [])) of
              (Some issued, Some expires) \<Rightarrow> Inr (issued, expires)
            | _ \<Rightarrow> Inl ''SIWE message has invalid date format''))"

text \<open>The library throws on a malformed message.\<close>

definition verifySiweMessage ::
    "(string \<Rightarrow> siwe_message option) \<Rightarrow> (string \<Rightarrow> int option) \<Rightarrow> (string \<Rightarrow> string \<Rightarrow> int \<Rightarrow> bool) \<Rightarrow> int \<Rightarrow> string \<Rightarrow> string \<Rightarrow>
     string option \<Rightarrow> string + string" where
  "verifySiweMessage parse ts valid now message signature domain =
     (case parse message of
        None \<Rightarrow> Inl ''invalid message''
      | Some m \<Rightarrow>
     (case siwe_dates ts m of
        Inl err \<Rightarrow> Inl err
      | Inr (issued, expires) \<Rightarrow>
          if expires \<le> issued then Inl ''SIWE message expirationTime must be after issuedAt''
          else if expires - issued > MAX_TOKEN_TTL_MS + TTL_CAP_SLOP_MS then Inl ''SIWE message TTL exceeds maximum allowed duration''
          else if issued > now + ISSUED_AT_SKEW_MS then Inl ''SIWE message issuedAt is in the future''
          else if \<not> valid message signature now then Inl ''SIWE signature verification failed''
          else if truthy_string domain \<and> lower (sm_domain m) \<noteq> lower (get_or domain [])
          then Inl (''SIWE domain mismatch: expected '' @ get_or domain [] @ '', got '' @ sm_domain m)
          else Inr (sm_address m)))"

text \<open>What both callers read of a message that has been verified.\<close>

definition message_expiry :: "(string \<Rightarrow> int option) \<Rightarrow> siwe_message \<Rightarrow> int" where
  "message_expiry ts m = get_or (ts (get_or (sm_expirationTime m) [])) 0"

subsection \<open>The exchange for a session token\<close>

record exchange_claim =
  ec_principal :: string
  ec_nonce :: string
  ec_expires :: int
  ec_audience :: audience
  ec_ttl :: int

definition exchange_audience :: "obj \<Rightarrow> string + audience" where
  "exchange_audience body =
     (let raw = get_or (str_field body ''intent'') ''owner_session''
      in if raw = ''owner_session'' \<or> raw = [] then Inr Owner_session
         else if raw = ''caller'' then Inr Caller_audience else Inl (''unknown intent: '' @ raw))"

definition unauthorized :: "string \<Rightarrow> response" where
  "unauthorized d = (401, [(''error'', JStr ''invalid_grant''), (''error_description'', JStr d)])"

text \<open>\<open>body\<close> is \<open>None\<close> when the request is no JSON.\<close>

definition siwe_exchange_start ::
    "(string \<Rightarrow> siwe_message option) \<Rightarrow> (string \<Rightarrow> int option) \<Rightarrow> (string \<Rightarrow> string \<Rightarrow> int \<Rightarrow> bool) \<Rightarrow> string option \<Rightarrow> int \<Rightarrow>
     obj option \<Rightarrow> response + exchange_claim" where
  "siwe_exchange_start parse ts valid domain now body =
     (case body of
        None \<Rightarrow> Inl (described_error ''invalid_request'' ''Body must be JSON'')
      | Some b \<Rightarrow>
     (let message = get_or (str_field b ''message'') []; signature = get_or (str_field b ''signature'') []
      in if message = [] \<or> signature = [] then Inl (described_error ''invalid_request'' ''message and signature are required'')
         else (case exchange_audience b of
                 Inl d \<Rightarrow> Inl (described_error ''invalid_request'' d)
               | Inr aud \<Rightarrow>
             (case (verifySiweMessage parse ts valid now message signature domain, parse message) of
                (Inr address, Some m) \<Rightarrow>
                  (let expires = message_expiry ts m; ttl = min MAX_TOKEN_TTL_MS (max 0 (expires - now))
                   in if ttl \<le> 0 then Inl (unauthorized ''SIWE message has already expired'')
                      else Inr \<lparr>ec_principal = ''eth:'' @ lower address, ec_nonce = sm_nonce m, ec_expires = expires,
                                ec_audience = aud, ec_ttl = ttl\<rparr>)
              | (Inl err, _) \<Rightarrow> Inl (unauthorized err)
              | _ \<Rightarrow> Inl (unauthorized ''invalid message'')))))"

definition NONCE_USED :: string where
  "NONCE_USED = ''SIWE nonce already used '' @ bytes [226, 128, 148] @ '' sign a fresh message''"

text \<open>The rows of \<open>used_siwe_nonces\<close>: principal and nonce with the expiry. The transaction inserts the nonce and the token together.\<close>

type_synonym nonce_table = "(string \<times> string, int) jsmap"

definition siwe_exchange_commit ::
    "(string \<Rightarrow> string) \<Rightarrow> int \<Rightarrow> string \<Rightarrow> string \<Rightarrow> exchange_claim \<Rightarrow> nonce_table \<times> caller_table \<Rightarrow> response \<times> nonce_table \<times> caller_table" where
  "siwe_exchange_commit sha now ident random ec st =
     (case st of (nonces, callers) \<Rightarrow>
        if map_has nonces (ec_principal ec, ec_nonce ec)
        then (unauthorized NONCE_USED, st)
        else (case issueSessionToken sha now ident random
                     \<lparr>is_principalId = ec_principal ec, is_provider = ''siwe'', is_audience = ec_audience ec, is_email = None,
                      is_label = None, is_ttlMs = Some (ec_ttl ec)\<rparr> callers of
                None \<Rightarrow> ((500, [(''error'', JStr ''server_error''), (''error_description'', JStr ''Failed to exchange SIWE message'')]), st)
              | Some (raw, callers1) \<Rightarrow>
                  ((200, [(''access_token'', JStr raw), (''token_type'', JStr ''Bearer''), (''expires_in'', jint (seconds_left now (now + ec_ttl ec)))] @
                         (if ec_audience ec = Owner_session then [(''principal_id'', JStr (ec_principal ec))] else [])),
                   map_set (ec_principal ec, ec_nonce ec) (ec_expires ec) nonces, callers1)))"

definition sweep_nonces :: "int \<Rightarrow> nonce_table \<Rightarrow> nonce_table" where
  "sweep_nonces now nonces = filter (\<lambda>(k, e). \<not> e \<le> now) nonces"

subsection \<open>The message as a bearer\<close>

definition base64_chars :: "string \<Rightarrow> string" where
  "base64_chars token = map (\<lambda>c. if c = CHR ''-'' then CHR ''+'' else if c = CHR ''_'' then CHR ''/'' else c) token"

definition padded :: "string \<Rightarrow> string" where
  "padded s = s @ replicate ((4 - length s mod 4) mod 4) CHR ''=''"

definition decodeSiweBearerToken :: "(string \<Rightarrow> string) \<Rightarrow> (string \<Rightarrow> json option) \<Rightarrow> string \<Rightarrow> string + string \<times> string" where
  "decodeSiweBearerToken dec unjson token =
     (case unjson (dec (padded (base64_chars token))) of
        None \<Rightarrow> Inl ''SIWE bearer token is not valid JSON''
      | Some v \<Rightarrow>
          (case Option.bind (as_record v) (\<lambda>o1. Option.bind (str_field o1 ''message'') (\<lambda>m.
                  map_option (\<lambda>sg. (m, sg)) (str_field o1 ''signature''))) of
             None \<Rightarrow> Inl ''SIWE bearer token missing message or signature''
           | Some x \<Rightarrow> Inr x))"

record bearer_entry =
  be_address :: string
  be_domain :: string
  be_expiresAt :: int

record bearer_cache =
  bc_entries :: "(string, bearer_entry) jsmap"
  bc_lastSweep :: int

definition BEARER_CACHE_MAX_ENTRIES :: nat where "BEARER_CACHE_MAX_ENTRIES = 10000"
definition BEARER_CACHE_SWEEP_INTERVAL_MS :: int where "BEARER_CACHE_SWEEP_INTERVAL_MS = 60000"

definition maybeSweep :: "int \<Rightarrow> bearer_cache \<Rightarrow> bearer_cache" where
  "maybeSweep now c =
     (if now - bc_lastSweep c < BEARER_CACHE_SWEEP_INTERVAL_MS \<and> length (bc_entries c) \<le> BEARER_CACHE_MAX_ENTRIES then c
      else (let kept = filter (\<lambda>(k, e). \<not> be_expiresAt e \<le> now) (bc_entries c)
            in \<lparr>bc_entries = drop (length kept - BEARER_CACHE_MAX_ENTRIES) kept, bc_lastSweep = now\<rparr>))"

definition verify_bearer ::
    "(string \<Rightarrow> string) \<Rightarrow> (string \<Rightarrow> json option) \<Rightarrow> (string \<Rightarrow> siwe_message option) \<Rightarrow> (string \<Rightarrow> int option) \<Rightarrow>
     (string \<Rightarrow> string \<Rightarrow> int \<Rightarrow> bool) \<Rightarrow> int \<Rightarrow> string \<Rightarrow> string option \<Rightarrow> string + bearer_entry" where
  "verify_bearer dec unjson parse ts valid now token domain =
     (case decodeSiweBearerToken dec unjson token of
        Inl err \<Rightarrow> Inl err
      | Inr (message, signature) \<Rightarrow>
     (case (verifySiweMessage parse ts valid now message signature domain, parse message) of
        (Inr address, Some m) \<Rightarrow> Inr \<lparr>be_address = lower address, be_domain = lower (sm_domain m), be_expiresAt = message_expiry ts m\<rparr>
      | (Inl err, _) \<Rightarrow> Inl err
      | _ \<Rightarrow> Inl ''invalid message''))"

definition verifySiweBearerToken ::
    "(string \<Rightarrow> string) \<Rightarrow> (string \<Rightarrow> string) \<Rightarrow> (string \<Rightarrow> json option) \<Rightarrow> (string \<Rightarrow> siwe_message option) \<Rightarrow> (string \<Rightarrow> int option) \<Rightarrow>
     (string \<Rightarrow> string \<Rightarrow> int \<Rightarrow> bool) \<Rightarrow> int \<Rightarrow> string \<Rightarrow> string option \<Rightarrow> bearer_cache \<Rightarrow> (string + string) \<times> bearer_cache" where
  "verifySiweBearerToken sha dec unjson parse ts valid now token domain c =
     (let c1 = maybeSweep now c;
          fresh = (case verify_bearer dec unjson parse ts valid now token domain of
                     Inl err \<Rightarrow> (Inl err, c1)
                   | Inr e \<Rightarrow> (Inr (be_address e), c1\<lparr>bc_entries := map_set (sha token) e (bc_entries c1)\<rparr>))
      in case map_of (bc_entries c1) (sha token) of
           None \<Rightarrow> fresh
         | Some e \<Rightarrow>
             if \<not> now < be_expiresAt e then fresh
             else if truthy_string domain \<and> be_domain e \<noteq> lower (get_or domain [])
             then (Inl (''SIWE domain mismatch: expected '' @ get_or domain [] @ '', got '' @ be_domain e), c1)
             else (Inr (be_address e), c1))"

subsection \<open>Revocation\<close>

definition oauth_revoke :: "(string \<Rightarrow> string) \<Rightarrow> obj \<Rightarrow> db \<Rightarrow> response \<times> db" where
  "oauth_revoke sha body db =
     (let token = get_or (str_field body ''token'') []
      in if token = [] then (described_error ''invalid_request'' ''token is required'', db)
         else if startsWith token TOKEN_EXCHANGE_ACCESS_TOKEN_PREFIX
         then ((200, []), revokeTokenExchangeAccessTokenByRaw sha token db)
         else ((200, []), db\<lparr>db_callers := snd (revokeSessionTokenByRaw sha token (db_callers db))\<rparr>))"

end
