(* ===== verification/SignInFacts.thy ===== *)
theory SignInFacts
  imports SignIn
begin

text \<open>
  What the checks of wallets promise: a signed message buys one session token, and the cache of checked bearers accepts
  exactly what a check without it would.
\<close>

subsection \<open>One message, one token\<close>

text \<open>What any instance does to the nonces: exchanges, the sweep, and whatever else happens to the sessions.\<close>

inductive exchange_step ::
    "(string \<Rightarrow> string) \<Rightarrow> int \<times> nonce_table \<times> caller_table \<Rightarrow> int \<times> nonce_table \<times> caller_table \<Rightarrow> bool" for sha where
  Time: "now \<le> now' \<Longrightarrow> exchange_step sha (now, st) (now', st)"
| Exchange: "exchange_step sha (now, st) (now, snd (siwe_exchange_commit sha now ident random ec st))"
| Sweep: "exchange_step sha (now, nonces, callers) (now, sweep_nonces now nonces, callers)"
| Sessions: "exchange_step sha (now, nonces, callers) (now, nonces, callers')"

lemma commit_nonces:
  "siwe_exchange_commit sha now ident random ec (nonces, callers) = (resp, nonces', callers') \<Longrightarrow> map_of nonces k = Some e \<Longrightarrow>
    map_of nonces' k = Some e"
  by (auto simp: siwe_exchange_commit_def split: if_splits option.splits)

lemma exchange_steps_keep:
  assumes "(exchange_step sha)\<^sup>*\<^sup>* x y" "map_of (fst (snd x)) k = Some e"
  shows "fst x \<le> fst y \<and> (fst y < e \<longrightarrow> map_of (fst (snd y)) k = Some e)"
  using assms
proof (induction rule: rtranclp_induct)
  case (step y z)
  from step.hyps(2) show ?case
  proof cases
    case (Exchange now st ident random ec)
    obtain nonces callers where st: "st = (nonces, callers)" by (cases st)
    obtain resp nonces' callers' where c: "siwe_exchange_commit sha now ident random ec (nonces, callers) = (resp, nonces', callers')"
      by (metis prod_cases3)
    show ?thesis using step commit_nonces [OF c] Exchange st c by auto
  next
    case (Sweep now nonces callers)
    then show ?thesis using step by (auto simp: sweep_nonces_def intro!: map_of_filter_kept)
  qed (use step in auto)
qed simp

lemma started_claim:
  assumes "siwe_exchange_start parse ts valid domain now (Some b) = Inr ec"
  obtains m where "parse (get_or (str_field b ''message'') []) = Some m" "ec_nonce ec = sm_nonce m" "ec_expires ec = message_expiry ts m"
    "now < ec_expires ec"
proof -
  obtain m where "parse (get_or (str_field b ''message'') []) = Some m" "ec_nonce ec = sm_nonce m" "ec_expires ec = message_expiry ts m"
      "now < message_expiry ts m"
    using assms unfolding siwe_exchange_start_def Let_def
    by (auto simp: min_le_iff_disj MAX_TOKEN_TTL_MS_def split: if_splits sum.splits option.splits prod.splits)
  then show ?thesis using that by simp
qed

lemma committed_nonce:
  assumes "siwe_exchange_commit sha now ident random ec (nonces, callers) = (resp, nonces', callers')" "fst resp = 200"
  shows "map_of nonces' (ec_principal ec, ec_nonce ec) = Some (ec_expires ec)"
  using assms by (auto simp: siwe_exchange_commit_def unauthorized_def split: if_splits option.splits)

text \<open>
  Claim C14. A signed message buys one session token. Once an exchange of it has succeeded, then after any exchanges, sweeps
  and changes of sessions by any instances, until the message expires every transaction for its principal and nonce is
  refused and changes nothing, and from then on no request with the message reaches a transaction.
\<close>
theorem siwe_message_buys_one_token:
  assumes "siwe_exchange_start parse ts valid domain now0 (Some b) = Inr ec"
    and "siwe_exchange_commit sha now ident random ec (nonces, callers) = (resp, nonces1, callers1)" "fst resp = 200"
    and "(exchange_step sha)\<^sup>*\<^sup>* (now, nonces1, callers1) (now', nonces', callers')"
    and "ec_principal ec' = ec_principal ec" "ec_nonce ec' = ec_nonce ec"
    and "str_field b' ''message'' = str_field b ''message''"
  shows "(now' < ec_expires ec \<and>
      siwe_exchange_commit sha now' ident' random' ec' (nonces', callers') = (unauthorized NONCE_USED, nonces', callers')) \<or>
    (ec_expires ec \<le> now' \<and> (\<exists>err. siwe_exchange_start parse ts valid domain now' (Some b') = Inl err))"
proof (cases "now' < ec_expires ec")
  case True
  have "map_of nonces' (ec_principal ec, ec_nonce ec) = Some (ec_expires ec)"
    using exchange_steps_keep [OF assms(4)] committed_nonce [OF assms(2,3)] True by simp
  then show ?thesis using True assms(5,6) by (simp add: siwe_exchange_commit_def)
next
  case False
  obtain m where m: "parse (get_or (str_field b ''message'') []) = Some m" "ec_expires ec = message_expiry ts m"
    using started_claim [OF assms(1)] by metis
  show ?thesis
  proof (cases "siwe_exchange_start parse ts valid domain now' (Some b')")
    case (Inr ec2)
    obtain m' where m': "parse (get_or (str_field b' ''message'') []) = Some m'" "ec_expires ec2 = message_expiry ts m'" "now' < ec_expires ec2"
      using started_claim [OF Inr] by metis
    have "m' = m" using m(1) m'(1) assms(7) by simp
    then show ?thesis using m(2) m'(2,3) False by simp
  qed (use False in auto)
qed

subsection \<open>The cache of bearers\<close>

text \<open>What a cached entry says was found by a check of some bearer with that hash, at some time up to now.\<close>

definition bearer_ok ::
    "(string \<Rightarrow> string) \<Rightarrow> (string \<Rightarrow> string) \<Rightarrow> (string \<Rightarrow> json option) \<Rightarrow> (string \<Rightarrow> siwe_message option) \<Rightarrow> (string \<Rightarrow> int option) \<Rightarrow>
     (string \<Rightarrow> string \<Rightarrow> int \<Rightarrow> bool) \<Rightarrow> int \<times> bearer_cache \<Rightarrow> bool" where
  "bearer_ok sha dec unjson parse ts valid x \<longleftrightarrow>
     (\<forall>(k, e)\<in>set (bc_entries (snd x)). \<exists>token t0 domain. k = sha token \<and> t0 \<le> fst x \<and>
        verify_bearer dec unjson parse ts valid t0 token domain = Inr e)"

inductive bearer_step ::
    "(string \<Rightarrow> string) \<Rightarrow> (string \<Rightarrow> string) \<Rightarrow> (string \<Rightarrow> json option) \<Rightarrow> (string \<Rightarrow> siwe_message option) \<Rightarrow> (string \<Rightarrow> int option) \<Rightarrow>
     (string \<Rightarrow> string \<Rightarrow> int \<Rightarrow> bool) \<Rightarrow> int \<times> bearer_cache \<Rightarrow> int \<times> bearer_cache \<Rightarrow> bool"
  for sha dec unjson parse ts valid where
  Later: "now \<le> now' \<Longrightarrow> bearer_step sha dec unjson parse ts valid (now, c) (now', c)"
| Verify: "bearer_step sha dec unjson parse ts valid (now, c)
    (now, snd (verifySiweBearerToken sha dec unjson parse ts valid now token domain c))"

lemma swept_entries: "set (bc_entries (maybeSweep now c)) \<subseteq> set (bc_entries c)"
  by (auto simp: maybeSweep_def Let_def dest: in_set_dropD)

lemma bearer_step_ok:
  assumes "bearer_ok sha dec unjson parse ts valid x" "bearer_step sha dec unjson parse ts valid x y"
  shows "bearer_ok sha dec unjson parse ts valid y"
  using assms(2)
proof cases
  case (Later now now' c)
  have "\<exists>token t0 domain. k = sha token \<and> t0 \<le> fst y \<and> verify_bearer dec unjson parse ts valid t0 token domain = Inr e"
    if "(k, e) \<in> set (bc_entries (snd y))" for k e
  proof -
    have "(k, e) \<in> set (bc_entries (snd x))" using that Later by simp
    then obtain token t0 domain where "k = sha token" "t0 \<le> fst x" "verify_bearer dec unjson parse ts valid t0 token domain = Inr e"
      using assms(1) unfolding bearer_ok_def by blast
    then show ?thesis using Later by (intro exI [of _ token] exI [of _ t0] exI [of _ domain]) simp
  qed
  then show ?thesis unfolding bearer_ok_def by blast
next
  case (Verify now c token domain)
  have old: "bearer_ok sha dec unjson parse ts valid (now, maybeSweep now c)"
    using assms(1) swept_entries [of now c] Verify(1) unfolding bearer_ok_def by auto
  consider "snd y = maybeSweep now c"
    | e where "verify_bearer dec unjson parse ts valid now token domain = Inr e"
        "snd y = (maybeSweep now c)\<lparr>bc_entries := map_set (sha token) e (bc_entries (maybeSweep now c))\<rparr>"
    using Verify(2) by (auto simp: verifySiweBearerToken_def Let_def split: option.splits sum.splits if_splits)
  then show ?thesis
  proof cases
    case 1
    then show ?thesis using old Verify(2) by (metis fst_conv prod.collapse)
  next
    case 2
    show ?thesis
      unfolding bearer_ok_def
    proof clarify
      fix k e'
      assume "(k, e') \<in> set (bc_entries (snd y))"
      then consider "k = sha token" "e' = e" | "(k, e') \<in> set (bc_entries (maybeSweep now c))"
        using 2(2) by (auto dest!: mem_set_cases)
      then show "\<exists>token t0 domain. k = sha token \<and> t0 \<le> fst y \<and> verify_bearer dec unjson parse ts valid t0 token domain = Inr e'"
      proof cases
        case 1
        then show ?thesis using 2(1) Verify(2) by (metis fst_conv order_refl)
      next
        case 2
        then show ?thesis using old Verify(2) unfolding bearer_ok_def by auto
      qed
    qed
  qed
qed

definition bearer_init :: "int \<times> bearer_cache \<Rightarrow> bool" where
  "bearer_init x \<longleftrightarrow> bc_entries (snd x) = []"

interpretation bearer: invariant_system bearer_init "bearer_step sha dec unjson parse ts valid" "bearer_ok sha dec unjson parse ts valid"
  for sha dec unjson parse ts valid
proof unfold_locales
  show "bearer_init x \<Longrightarrow> bearer_ok sha dec unjson parse ts valid x" for x by (simp add: bearer_init_def bearer_ok_def)
  show "bearer_ok sha dec unjson parse ts valid x \<Longrightarrow> bearer_step sha dec unjson parse ts valid x y \<Longrightarrow>
      bearer_ok sha dec unjson parse ts valid y" for x y by (rule bearer_step_ok)
qed

text \<open>A signature that was good stays good until the message expires, which is what the library checks the time for.\<close>

definition stays_valid :: "(string \<Rightarrow> siwe_message option) \<Rightarrow> (string \<Rightarrow> int option) \<Rightarrow> (string \<Rightarrow> string \<Rightarrow> int \<Rightarrow> bool) \<Rightarrow> bool" where
  "stays_valid parse ts valid \<longleftrightarrow>
     (\<forall>message signature t0 t m. parse message = Some m \<longrightarrow> valid message signature t0 \<longrightarrow> t0 \<le> t \<longrightarrow> t < message_expiry ts m \<longrightarrow>
        valid message signature t)"

lemma verify_again:
  assumes "verify_bearer dec unjson parse ts valid t0 token domain0 = Inr e" "stays_valid parse ts valid" "t0 \<le> now" "now < be_expiresAt e"
  shows "(\<exists>e'. verify_bearer dec unjson parse ts valid now token domain = Inr e') \<longleftrightarrow>
      \<not> (truthy_string domain \<and> be_domain e \<noteq> lower (get_or domain []))"
    "verify_bearer dec unjson parse ts valid now token domain = Inr e' \<Longrightarrow> e' = e"
proof -
  obtain message signature where d: "decodeSiweBearerToken dec unjson token = Inr (message, signature)"
    using assms(1) by (auto simp: verify_bearer_def split: sum.splits)
  obtain address m where v: "verifySiweMessage parse ts valid t0 message signature domain0 = Inr address" "parse message = Some m"
      and e: "e = \<lparr>be_address = lower address, be_domain = lower (sm_domain m), be_expiresAt = message_expiry ts m\<rparr>"
    using assms(1) d by (auto simp: verify_bearer_def split: sum.splits option.splits)
  have "valid message signature t0" using v by (auto simp: verifySiweMessage_def split: sum.splits if_splits)
  then have "valid message signature now" using assms(2-4) v(2) e unfolding stays_valid_def by auto
  then have "verifySiweMessage parse ts valid now message signature domain =
      (if truthy_string domain \<and> lower (sm_domain m) \<noteq> lower (get_or domain [])
       then Inl (''SIWE domain mismatch: expected '' @ get_or domain [] @ '', got '' @ sm_domain m) else Inr (sm_address m))"
      "address = sm_address m"
    using v assms(3) by (auto simp: verifySiweMessage_def split: sum.splits if_splits)
  then have n: "verify_bearer dec unjson parse ts valid now token domain =
      (if truthy_string domain \<and> be_domain e \<noteq> lower (get_or domain [])
       then Inl (''SIWE domain mismatch: expected '' @ get_or domain [] @ '', got '' @ sm_domain m) else Inr e)"
    unfolding verify_bearer_def d using v(2) e by simp
  then show "(\<exists>e'. verify_bearer dec unjson parse ts valid now token domain = Inr e') \<longleftrightarrow>
      \<not> (truthy_string domain \<and> be_domain e \<noteq> lower (get_or domain []))" by simp
  show "verify_bearer dec unjson parse ts valid now token domain = Inr e' \<Longrightarrow> e' = e" using n by (simp split: if_splits)
qed

text \<open>
  Claim C15. The cache of checked bearers is invisible. In every reachable state of it, a bearer is accepted for an address
  exactly when a check of it at that moment, with the domain asked for, accepts it for that address, however many other
  bearers and domains were checked before and whatever was evicted.
\<close>
theorem cached_bearer_agrees:
  assumes "bearer_init x0" "(bearer_step sha dec unjson parse ts valid)\<^sup>*\<^sup>* x0 (now, c)" "stays_valid parse ts valid" "inj sha"
  shows "(fst (verifySiweBearerToken sha dec unjson parse ts valid now token domain c) = Inr address) =
    (map_sum id be_address (verify_bearer dec unjson parse ts valid now token domain) = Inr address)"
proof -
  let ?c = "maybeSweep now c"
  have ok: "bearer_ok sha dec unjson parse ts valid (now, c)" using bearer.reachable_inv [OF assms(1,2)] .
  have fresh: ?thesis if "map_of (bc_entries ?c) (sha token) = None \<or>
      (\<exists>e. map_of (bc_entries ?c) (sha token) = Some e \<and> \<not> now < be_expiresAt e)"
    using that by (cases "verify_bearer dec unjson parse ts valid now token domain") (auto simp: verifySiweBearerToken_def Let_def)
  show ?thesis
  proof (cases "map_of (bc_entries ?c) (sha token)")
    case None
    then show ?thesis using fresh by blast
  next
    case (Some e)
    show ?thesis
    proof (cases "now < be_expiresAt e")
      case True
      have "(sha token, e) \<in> set (bc_entries c)" using map_of_SomeD [OF Some] swept_entries by blast
      then obtain token0 t0 domain0 where "sha token = sha token0" "t0 \<le> now" "verify_bearer dec unjson parse ts valid t0 token0 domain0 = Inr e"
        using ok unfolding bearer_ok_def by auto
      then have t0: "t0 \<le> now" "verify_bearer dec unjson parse ts valid t0 token domain0 = Inr e"
        using assms(4) by (auto dest: injD)
      note va = verify_again [OF t0(2) assms(3) t0(1) True, of domain]
      show ?thesis using va Some True
        by (cases "verify_bearer dec unjson parse ts valid now token domain") (auto simp: verifySiweBearerToken_def Let_def)
    next
      case False
      then show ?thesis using fresh Some by blast
    qed
  qed
qed

subsection \<open>A wallet signs in\<close>

definition sample_siwe :: siwe_message where
  "sample_siwe = \<lparr>sm_address = ''0xAB'', sm_domain = ''B.example'', sm_nonce = ''n'', sm_issuedAt = Some ''10'', sm_expirationTime = Some ''500''\<rparr>"

definition sample_parse :: "string \<Rightarrow> siwe_message option" where
  "sample_parse s = (if s = ''msg'' then Some sample_siwe else None)"

definition sample_date :: "string \<Rightarrow> int option" where
  "sample_date s = (if s = ''10'' then Some 10 else if s = ''500'' then Some 500 else None)"

definition sample_valid :: "string \<Rightarrow> string \<Rightarrow> int \<Rightarrow> bool" where
  "sample_valid m sg t \<longleftrightarrow> sg = ''sig'' \<and> t < 500"

definition sample_claim :: exchange_claim where
  "sample_claim = \<lparr>ec_principal = ''eth:0xab'', ec_nonce = ''n'', ec_expires = 500, ec_audience = Owner_session, ec_ttl = 480\<rparr>"

abbreviation sample_siwe_body :: obj where
  "sample_siwe_body \<equiv> [(''message'', JStr ''msg''), (''signature'', JStr ''sig'')]"

lemma sample_lower: "lower ''0xAB'' = ''0xab''" "lower ''B.example'' = ''b.example''" "lower ''b.EXAMPLE'' = ''b.example''"
  by code_simp+

lemma sample_verified:
  "t < 500 \<Longrightarrow> 10 \<le> t + 120000 \<Longrightarrow> verifySiweMessage sample_parse sample_date sample_valid t ''msg'' ''sig'' None = Inr ''0xAB''"
  by (simp add: verifySiweMessage_def sample_parse_def sample_siwe_def siwe_dates_def truthy_string_def sample_date_def
      sample_valid_def MAX_TOKEN_TTL_MS_def TTL_CAP_SLOP_MS_def ISSUED_AT_SKEW_MS_def)

lemma sample_started_claim: "siwe_exchange_start sample_parse sample_date sample_valid None 20 (Some sample_siwe_body) = Inr sample_claim"
proof -
  have "exchange_audience sample_siwe_body = Inr Owner_session" by (simp add: exchange_audience_def str_field_def)
  moreover have "sample_parse ''msg'' = Some sample_siwe" "message_expiry sample_date sample_siwe = 500" "sm_nonce sample_siwe = ''n''"
    by (simp_all add: sample_parse_def message_expiry_def sample_siwe_def sample_date_def)
  ultimately show ?thesis
    using sample_verified [of 20] sample_lower
    by (simp add: siwe_exchange_start_def str_field_def sample_claim_def MAX_TOKEN_TTL_MS_def Let_def)
qed

definition sample_bought :: caller_row where
  "sample_bought = \<lparr>cw_id = ''i'', cw_principal = ''eth:0xab'', cw_provider = ''siwe'', cw_audience = ''owner_session'',
     cw_email = None, cw_label = None, cw_expires = 505, cw_revoked = False, cw_created = 25\<rparr>"

lemma sample_commit:
  "\<exists>resp. siwe_exchange_commit id 25 ''i'' ''r'' sample_claim ([], []) =
    (resp, [((''eth:0xab'', ''n''), 500)], [(''vbc_owner_r'', sample_bought)]) \<and> fst resp = 200"
  by (simp add: siwe_exchange_commit_def issueSessionToken_def generateSessionToken_def prefixFor_def OWNER_SESSION_PREFIX_def
      audience_text_def sample_claim_def sample_bought_def Let_def)

lemma siwe_message_buys_one_token_witness:
  "siwe_exchange_commit id 30 ''j'' ''s'' sample_claim ([((''eth:0xab'', ''n''), 500)], []) =
    (unauthorized NONCE_USED, [((''eth:0xab'', ''n''), 500)], [])"
proof -
  obtain resp where c: "siwe_exchange_commit id 25 ''i'' ''r'' sample_claim ([], []) =
      (resp, [((''eth:0xab'', ''n''), 500)], [(''vbc_owner_r'', sample_bought)])" "fst resp = 200"
    using sample_commit by blast
  have "(exchange_step id)\<^sup>*\<^sup>* (25, [((''eth:0xab'', ''n''), 500)], [(''vbc_owner_r'', sample_bought)])
      (30, [((''eth:0xab'', ''n''), 500)], [])"
    by (rule converse_rtranclp_into_rtranclp, rule exchange_step.Time [of 25 30], simp, rule r_into_rtranclp, rule Sessions)
  from siwe_message_buys_one_token [OF sample_started_claim c this refl refl refl, of "''j''" "''s''"] show ?thesis
    by (simp add: sample_claim_def)
qed

definition sample_unjson :: "string \<Rightarrow> json option" where
  "sample_unjson s = (if s = ''tok='' then Some (JObj sample_siwe_body) else None)"

lemma sample_stays_valid: "stays_valid sample_parse sample_date sample_valid"
  by (auto simp: stays_valid_def sample_valid_def message_expiry_def sample_parse_def sample_siwe_def sample_date_def split: if_splits)

lemma cached_bearer_agrees_witness:
  "(fst (verifySiweBearerToken id id sample_unjson sample_parse sample_date sample_valid 30 ''tok'' (Some ''other'')
      (snd (verifySiweBearerToken id id sample_unjson sample_parse sample_date sample_valid 20 ''tok'' None \<lparr>bc_entries = [], bc_lastSweep = 0\<rparr>)))
      = Inr ''0xab'') =
    (map_sum id be_address (verify_bearer id sample_unjson sample_parse sample_date sample_valid 30 ''tok'' (Some ''other'')) = Inr ''0xab'')"
proof (rule cached_bearer_agrees)
  show "bearer_init (20, \<lparr>bc_entries = [], bc_lastSweep = 0\<rparr>)" by (simp add: bearer_init_def)
  show "(bearer_step id id sample_unjson sample_parse sample_date sample_valid)\<^sup>*\<^sup>* (20, \<lparr>bc_entries = [], bc_lastSweep = 0\<rparr>)
      (30, snd (verifySiweBearerToken id id sample_unjson sample_parse sample_date sample_valid 20 ''tok'' None \<lparr>bc_entries = [], bc_lastSweep = 0\<rparr>))"
    by (rule converse_rtranclp_into_rtranclp, rule Verify [where token = "''tok''" and domain = None], rule r_into_rtranclp, rule Later) simp
qed (rule sample_stays_valid, simp)

end
