(* ===== verification/Storage.thy ===== *)
theory Storage
  imports Text
begin

text \<open>
  The pool of fixed-size images for callers' data (packages/client/src/caller-storage-manager.ts): one call of the
  manager at a time, under the lock its caller holds. The catalog is the SQLite tables. What the operating system's tools
  did is an argument: how far an allocation came, whether a file could be attached or detached, and how much space is
  free. Times of retries and the links under /dev are left out.
\<close>

subsection \<open>Requests\<close>

datatype storage_action = Create | Probe | Attach | Check_image | Delete_image

definition storage_action_of :: "string \<Rightarrow> storage_action option" where
  "storage_action_of s =
     (if s = ''create'' then Some Create else if s = ''probe'' then Some Probe else if s = ''attach'' then Some Attach
      else if s = ''check'' then Some Check_image else if s = ''delete'' then Some Delete_image else None)"

record storage_request =
  sr_action :: storage_action
  sr_key :: string
  sr_uuid :: string
  sr_size :: nat
  sr_budget :: nat
  sr_reserve :: nat

definition lower_hex :: "char \<Rightarrow> bool" where
  "lower_hex c \<longleftrightarrow> is_digit c \<or> (97 \<le> (of_char c :: nat) \<and> (of_char c :: nat) \<le> 102)"

text \<open>\<open>/^[a-f0-9]{64}$/\<close> and \<open>/^[a-f0-9]{8}(-[a-f0-9]{4}){3}-[a-f0-9]{12}$/\<close>.\<close>

definition scope_key :: "string \<Rightarrow> bool" where
  "scope_key s \<longleftrightarrow> length s = 64 \<and> list_all lower_hex s"

definition uuid_shape :: "string \<Rightarrow> bool" where
  "uuid_shape s \<longleftrightarrow> length s = 36 \<and>
     list_all (\<lambda>(i, c). if i \<in> {8, 13, 18, 23} then c = CHR ''-'' else lower_hex c) (enumerate 0 s)"

definition MEBIBYTE :: nat where "MEBIBYTE = 1048576"

definition safe_integer :: "nat \<Rightarrow> bool" where
  "safe_integer n \<longleftrightarrow> n \<le> 2 ^ 53 - 1"

definition capacity_text :: "string \<Rightarrow> bool" where
  "capacity_text s \<longleftrightarrow> s \<noteq> [] \<and> list_all is_digit s"

definition parseStorageRequest :: "string list \<Rightarrow> string + storage_request" where
  "parseStorageRequest args =
     (case args of
        [action, key, uuid, sizeText, budgetText, reserveText] \<Rightarrow>
          (case storage_action_of action of
             None \<Rightarrow> Inl ''invalid action''
           | Some a \<Rightarrow>
               (let size = nat_of_string sizeText; budget = nat_of_string budgetText; reserve = nat_of_string reserveText
                in if \<not> scope_key key then Inl ''invalid storage key''
                   else if \<not> uuid_shape uuid then Inl ''invalid UUID''
                   else if \<not> list_all capacity_text [sizeText, budgetText, reserveText] then Inl ''invalid capacity''
                   else if \<not> (list_all safe_integer [size, budget, reserve] \<and> 64 * MEBIBYTE \<le> size \<and> size \<le> 65536 * MEBIBYTE \<and> size \<le> budget)
                   then Inl ''invalid capacity''
                   else Inr \<lparr>sr_action = a, sr_key = key, sr_uuid = uuid, sr_size = size, sr_budget = budget, sr_reserve = reserve\<rparr>))
      | _ \<Rightarrow> Inl ''invalid action'')"

subsection \<open>The pool\<close>

datatype image_state = Allocating | Ready

record image_row =
  ir_uuid :: string
  ir_size :: nat
  ir_state :: image_state

text \<open>An image file: what stat and blkid say of it, and the data it holds. A symbolic link in its place is refused.\<close>

record image_file =
  if_size :: nat
  if_allocated :: nat
  if_uuid :: string
  if_type :: string
  if_data :: string

record pool =
  sp_policy :: "(nat \<times> nat) option"
  sp_rows :: "(string, image_row) jsmap"
  sp_files :: "(string, image_file) jsmap"

definition used_space :: "pool \<Rightarrow> nat" where
  "used_space p = sum_list (map (\<lambda>(k, r). ir_size r) (sp_rows p))"

text \<open>What creation left: no file, a file before the catalog says ready, or a finished one. What an attachment or a detachment
  came to.\<close>

datatype creation = No_file | Interrupted image_file | Finished image_file

record tools =
  tl_free :: nat
  tl_creation :: creation
  tl_symlink :: bool
  tl_attached :: bool
  tl_detached :: bool
  tl_unlinkSynced :: bool

datatype storage_answer = Done | Storage string nat | Refused string

definition verify_image :: "storage_request \<Rightarrow> tools \<Rightarrow> image_row \<Rightarrow> pool \<Rightarrow> storage_answer" where
  "verify_image rq t r p =
     (if ir_state r \<noteq> Ready then Refused ''incomplete allocation; explicitly remove scope before retrying''
      else (case map_of (sp_files p) (sr_key rq) of
              None \<Rightarrow> Refused ''retained image missing, resized or no longer allocated''
            | Some f \<Rightarrow>
                if if_size f \<noteq> sr_size rq \<or> if_allocated f < sr_size rq
                then Refused ''retained image missing, resized or no longer allocated''
                else if if_uuid f \<noteq> sr_uuid rq then Refused ''filesystem UUID mismatch''
                else if if_type f \<noteq> ''ext4'' then Refused ''filesystem type mismatch''
                else if sr_action rq = Check_image then Done
                else if \<not> tl_attached t then Refused ''attachment failed''
                else Storage (sr_uuid rq) (sr_size rq)))"

definition allocate_image :: "storage_request \<Rightarrow> tools \<Rightarrow> pool \<Rightarrow> storage_answer \<times> pool" where
  "allocate_image rq t p =
     (if map_has (sp_files p) (sr_key rq) then (Refused ''unrecorded image; inspect pool'', p)
      else if used_space p + sr_size rq > sr_budget rq then (Refused ''pool capacity exhausted'', p)
      else if tl_free t < sr_size rq + sr_reserve rq then (Refused ''pool free-space reserve would be exhausted'', p)
      else if list_ex (\<lambda>(k, r). ir_uuid r = sr_uuid rq) (sp_rows p) then (Refused ''UNIQUE constraint failed'', p)
      else (let row = \<lparr>ir_uuid = sr_uuid rq, ir_size = sr_size rq, ir_state = Allocating\<rparr>;
                p1 = p\<lparr>sp_rows := map_set (sr_key rq) row (sp_rows p)\<rparr>
            in case tl_creation t of
                 No_file \<Rightarrow> (Refused ''allocation failed'', p1)
               | Interrupted f \<Rightarrow> (Refused ''allocation failed'', p1\<lparr>sp_files := map_set (sr_key rq) f (sp_files p1)\<rparr>)
               | Finished f \<Rightarrow>
                   (let p2 = p1\<lparr>sp_files := map_set (sr_key rq) f (sp_files p1)\<rparr>
                    in if if_allocated f < sr_size rq then (Refused ''backing filesystem did not retain allocation'', p2)
                       else (let row1 = row\<lparr>ir_state := Ready\<rparr>; p3 = p2\<lparr>sp_rows := map_set (sr_key rq) row1 (sp_rows p2)\<rparr>
                             in (verify_image rq t row1 p3, p3)))))"

definition delete_image :: "storage_request \<Rightarrow> tools \<Rightarrow> pool \<Rightarrow> storage_answer \<times> pool" where
  "delete_image rq t p =
     (if map_has (sp_files p) (sr_key rq) \<and> \<not> tl_detached t then (Refused ''image still attached; deletion refused'', p)
      else if map_has (sp_files p) (sr_key rq) \<and> \<not> tl_unlinkSynced t
      then (Refused ''sync failed'', p\<lparr>sp_files := map_del (sr_key rq) (sp_files p)\<rparr>)
      else (Done, p\<lparr>sp_files := map_del (sr_key rq) (sp_files p), sp_rows := map_del (sr_key rq) (sp_rows p)\<rparr>))"

definition runStorageManager :: "storage_request \<Rightarrow> tools \<Rightarrow> pool \<Rightarrow> storage_answer \<times> pool" where
  "runStorageManager rq t p =
     (let row = map_of (sp_rows p) (sr_key rq)
      in if tl_symlink t then (Refused ''symlink image'', p)
         else if sr_action rq = Delete_image \<and> row = None
         then (if map_has (sp_files p) (sr_key rq) then Refused ''unrecorded image; inspect pool'' else Done, p)
         else if (case sp_policy p of Some pol \<Rightarrow> pol \<noteq> (sr_budget rq, sr_reserve rq) | None \<Rightarrow> False)
         then (Refused ''pool policy differs from existing catalog'', p)
         else (let p1 = p\<lparr>sp_policy := Some (sr_budget rq, sr_reserve rq)\<rparr>
                    in case row of
                         None \<Rightarrow>
                           if sr_action rq = Create \<or> sr_action rq = Probe then allocate_image rq t p1
                           else (Refused ''retained storage catalog entry missing'', p1)
                       | Some r \<Rightarrow>
                           if ir_uuid r \<noteq> sr_uuid rq \<or> ir_size r \<noteq> sr_size rq
                           then (Refused ''retained storage identity/capacity mismatch'', p1)
                           else if sr_action rq = Delete_image then delete_image rq t p1
                           else (verify_image rq t r p1, p1)))"

end
