(* ===== verification/StorageFacts.thy ===== *)
theory StorageFacts
  imports Storage
begin

text \<open>
  What the pool promises: the images of all callers never claim more than the budget, and what an image holds is never
  written over by the manager, not even after an allocation was interrupted.
\<close>

subsection \<open>Runs of the manager\<close>

text \<open>Any requests the command line lets through, with tools that may do or fail anything.\<close>

definition admissible :: "storage_request \<Rightarrow> bool" where
  "admissible rq \<longleftrightarrow> sr_size rq \<le> sr_budget rq \<and> 0 < sr_size rq"

lemma parsed_admissible: "parseStorageRequest args = Inr rq \<Longrightarrow> admissible rq"
  by (auto simp: parseStorageRequest_def admissible_def MEBIBYTE_def Let_def split: list.splits option.splits if_splits)

inductive storage_step :: "pool \<Rightarrow> pool \<Rightarrow> bool" where
  Run: "parseStorageRequest args = Inr rq \<Longrightarrow> storage_step p (snd (runStorageManager rq t p))"

definition empty_pool :: "pool \<Rightarrow> bool" where
  "empty_pool p \<longleftrightarrow> sp_policy p = None \<and> sp_rows p = [] \<and> sp_files p = []"

definition pool_inv :: "pool \<Rightarrow> bool" where
  "pool_inv p \<longleftrightarrow> distinct (map_keys (sp_rows p)) \<and> (sp_rows p \<noteq> [] \<longrightarrow> (\<exists>b r. sp_policy p = Some (b, r) \<and> used_space p \<le> b)) \<and>
     (\<forall>k. map_has (sp_files p) k \<longrightarrow> map_has (sp_rows p) k)"

lemma used_set_fresh:
  "k \<notin> fst ` set rows \<Longrightarrow> sum_list (map (\<lambda>(k, r). ir_size r) (map_set k row rows)) = sum_list (map (\<lambda>(k, r). ir_size r) rows) + ir_size row"
  by (induction rows) auto

lemma used_set_same:
  "map_of rows k = Some old \<Longrightarrow> ir_size old = ir_size row \<Longrightarrow>
    sum_list (map (\<lambda>(k, r). ir_size r) (map_set k row rows)) = sum_list (map (\<lambda>(k, r). ir_size r) rows)"
  by (induction rows) (auto split: if_splits)

lemma used_del: "sum_list (map (\<lambda>(k, r). ir_size r) (map_del k rows)) \<le> sum_list (map (\<lambda>(k, r). ir_size r) rows)"
  by (induction rows) auto

text \<open>An allocation adds one row, of the size it was asked for, and at most one file.\<close>

lemma allocated_shape:
  assumes "allocate_image rq t p = (answer, p')" "map_of (sp_rows p) (sr_key rq) = None" "distinct (map_keys (sp_rows p))"
  shows "p' = p \<or>
    (\<exists>row. used_space p + sr_size rq \<le> sr_budget rq \<and> \<not> map_has (sp_files p) (sr_key rq) \<and>
      sp_policy p' = sp_policy p \<and> distinct (map_keys (sp_rows p')) \<and> used_space p' = used_space p + sr_size rq \<and>
      (\<forall>k. map_of (sp_rows p') k = (if k = sr_key rq then Some row else map_of (sp_rows p) k)) \<and>
      (\<forall>k. k \<noteq> sr_key rq \<longrightarrow> map_of (sp_files p') k = map_of (sp_files p) k))"
proof -
  have fresh: "sr_key rq \<notin> fst ` set (sp_rows p)" using assms(2) by (simp add: map_of_eq_None_iff)
  let ?row = "\<lparr>ir_uuid = sr_uuid rq, ir_size = sr_size rq, ir_state = Allocating\<rparr>"
  have two: "map_of (map_set (sr_key rq) ?row (sp_rows p)) (sr_key rq) = Some ?row" by simp
  show ?thesis
    using assms(1,3) used_set_fresh [OF fresh, of ?row] used_set_same [OF two, of "?row\<lparr>ir_state := Ready\<rparr>"]
    unfolding allocate_image_def Let_def
    by (cases "tl_creation t") (auto simp: used_space_def split: if_splits)
qed

definition policy_differs :: "storage_request \<Rightarrow> pool \<Rightarrow> bool" where
  "policy_differs rq p \<longleftrightarrow> (case sp_policy p of Some pol \<Rightarrow> pol \<noteq> (sr_budget rq, sr_reserve rq) | None \<Rightarrow> False)"

abbreviation with_policy :: "storage_request \<Rightarrow> pool \<Rightarrow> pool" where
  "with_policy rq p \<equiv> p\<lparr>sp_policy := Some (sr_budget rq, sr_reserve rq)\<rparr>"

lemma manager_result:
  "snd (runStorageManager rq t p) = p \<or>
   (\<not> policy_differs rq p \<and>
     (snd (runStorageManager rq t p) = with_policy rq p \<or>
      (map_of (sp_rows p) (sr_key rq) = None \<and> snd (runStorageManager rq t p) = snd (allocate_image rq t (with_policy rq p))) \<or>
      (sr_action rq = Delete_image \<and> snd (runStorageManager rq t p) = snd (delete_image rq t (with_policy rq p)))))"
  unfolding runStorageManager_def Let_def policy_differs_def [symmetric]
  by (cases "map_of (sp_rows p) (sr_key rq)") simp_all

lemma manager_keeps_inv:
  assumes "pool_inv p" "admissible rq"
  shows "pool_inv (snd (runStorageManager rq t p))"
proof -
  let ?p1 = "with_policy rq p"
  have d: "distinct (map_keys (sp_rows p))" and f: "\<And>k. map_has (sp_files p) k \<Longrightarrow> map_has (sp_rows p) k"
    using assms(1) by (auto simp: pool_inv_def)
  have p1: "pool_inv ?p1" if "\<not> policy_differs rq p"
    using assms(1) that by (auto simp: pool_inv_def used_space_def policy_differs_def split: option.splits)
  have alloc: "pool_inv (snd (allocate_image rq t ?p1))" if "pool_inv ?p1" "map_of (sp_rows p) (sr_key rq) = None"
  proof -
    obtain answer p' where a: "allocate_image rq t ?p1 = (answer, p')" by fastforce
    have "p' = ?p1 \<or> pool_inv p'"
      using allocated_shape [OF a] that(2) d f by (auto simp: pool_inv_def used_space_def)
    then show ?thesis using that(1) a by auto
  qed
  have del: "pool_inv (snd (delete_image rq t ?p1))" if "pool_inv ?p1"
    using that used_del [of "sr_key rq" "sp_rows p"] set_del_subset [of "sr_key rq" "sp_rows p"]
    by (auto simp: pool_inv_def delete_image_def used_space_def)
  show ?thesis using manager_result [of rq t p] assms(1) p1 alloc del by metis
qed

interpretation storage: invariant_system empty_pool storage_step pool_inv
proof unfold_locales
  show "empty_pool p \<Longrightarrow> pool_inv p" for p by (simp add: empty_pool_def pool_inv_def)
  show "pool_inv p \<Longrightarrow> storage_step p q \<Longrightarrow> pool_inv q" for p q
    by (auto elim!: storage_step.cases intro: manager_keeps_inv parsed_admissible)
qed

text \<open>
  Claim C36. The pool is never overcommitted. After any requests, with tools that failed at any point, the sizes in the catalog
  add up to no more than the budget the pool was set up with, and every image file has its row, so nothing is stored
  that is not charged.
\<close>
theorem pool_never_overcommits:
  assumes "empty_pool p0" "storage_step\<^sup>*\<^sup>* p0 p" "map_of (sp_rows p) k = Some r"
  shows "\<exists>budget reserve. sp_policy p = Some (budget, reserve) \<and> used_space p \<le> budget \<and>
    (\<forall>k. map_has (sp_files p) k \<longrightarrow> map_has (sp_rows p) k)"
  using storage.reachable_inv [OF assms(1,2)] assms(3) by (auto simp: pool_inv_def)

subsection \<open>Retained data\<close>

lemma file_kept:
  assumes "map_of (sp_files p) k = Some f" "\<not> (sr_key rq = k \<and> sr_action rq = Delete_image)" "pool_inv p"
  shows "map_of (sp_files (snd (runStorageManager rq t p))) k = Some f"
proof -
  have row: "map_of (sp_rows p) k \<noteq> None" using assms(1,3) by (auto simp: pool_inv_def)
  have "map_of (sp_files (snd (allocate_image rq t (with_policy rq p)))) k = Some f" if "sr_key rq \<noteq> k"
    using that assms(1) by (auto simp: allocate_image_def Let_def split: creation.splits)
  moreover have "map_of (sp_files (snd (delete_image rq t (with_policy rq p)))) k = Some f" if "sr_key rq \<noteq> k"
    using that assms(1) by (auto simp: delete_image_def)
  moreover have "sp_files (with_policy rq p) = sp_files p" by simp
  ultimately show ?thesis using manager_result [of rq t p] assms(1,2) row by metis
qed

text \<open>Requests that leave one key undeleted.\<close>

inductive keeping_step :: "string \<Rightarrow> pool \<Rightarrow> pool \<Rightarrow> bool" for k where
  Keep: "parseStorageRequest args = Inr rq \<Longrightarrow> \<not> (sr_key rq = k \<and> sr_action rq = Delete_image) \<Longrightarrow>
    keeping_step k p (snd (runStorageManager rq t p))"

lemma keeping_is_storage: "keeping_step k p q \<Longrightarrow> storage_step p q"
  by (auto elim!: keeping_step.cases intro: Run)

text \<open>
  Claim C37. What an image holds is never written over. Once a caller's image file exists, finished or left behind by an interrupted
  allocation, no request except an explicit deletion of its key changes it, whatever is created, attached, probed or deleted
  for that or other keys; an interrupted allocation is never retried over the file.
\<close>
theorem image_is_never_overwritten:
  assumes "empty_pool p0" "storage_step\<^sup>*\<^sup>* p0 p" "map_of (sp_files p) k = Some f" "(keeping_step k)\<^sup>*\<^sup>* p q"
  shows "map_of (sp_files q) k = Some f"
proof -
  have "pool_inv q \<and> map_of (sp_files q) k = Some f"
    using assms(4)
  proof (induction rule: rtranclp_induct)
    case base
    then show ?case using storage.reachable_inv [OF assms(1,2)] assms(3) by simp
  next
    case (step y z)
    then show ?case
      using keeping_is_storage [OF step.hyps(2)] storage.step_inv file_kept by (auto elim!: keeping_step.cases)
  qed
  then show ?thesis by simp
qed

end
