(* ===== verification/RuntimeStore.thy ===== *)
theory RuntimeStore
  imports Callers Storage
begin

text \<open>
  What the daemon remembers of the callers it runs in containers (packages/client/src/caller-runtime-store.ts): the scopes of
  callers, their conversations, storage and preparation, in one SQLite file, with a manifest whose version keeps older
  programs out. The store is owned by this process; taking and giving back the ownership, and the import of the older JSON
  files, are left out. \<open>digest\<close> is the hash of a scope; \<open>wrote\<close> says whether the manifest could be written.
\<close>

subsection \<open>The store\<close>

record scope_row =
  sc_kind :: string
  sc_namespace :: string
  sc_agentId :: string
  sc_principal :: "string option"

record rstore =
  rs_agentId :: string
  rs_namespace :: string
  rs_locked :: bool
  rs_manifestVersion :: nat
  rs_manifest :: nat
  rs_scopes :: "(string, scope_row) jsmap"
  rs_completed :: "string list"
  rs_pending :: "string list"
  rs_fixed :: "(string, string) jsmap"
  rs_preparations :: "(string, string \<times> bool) jsmap"
  rs_helpers :: "(string, string) jsmap"
  rs_lifecycle :: "(string, obj) jsmap"
  rs_contexts :: "(string \<times> string, bool) jsmap"

type_synonym 'a stored = "(string + 'a) \<times> rstore"

definition NOT_OWNED :: string where "NOT_OWNED = ''caller state requires exclusive ownership''"
definition MISMATCH :: string where "MISMATCH = ''caller state identity mismatch''"

definition scope_record :: "string \<Rightarrow> scope_row \<Rightarrow> bool" where
  "scope_record i r \<longleftrightarrow> sc_kind r \<in> {''claude'', ''codex''} \<and> sc_agentId r \<noteq> [] \<and> sc_principal r \<noteq> Some []"

definition validateRecord :: "(string \<Rightarrow> string \<Rightarrow> string) \<Rightarrow> rstore \<Rightarrow> string \<Rightarrow> scope_row \<Rightarrow> bool" where
  "validateRecord digest s i r \<longleftrightarrow>
     scope_record i r \<and> scope_key i \<and> sc_agentId r = rs_agentId s \<and> sc_namespace r = rs_namespace s \<and>
     (case sc_principal r of None \<Rightarrow> True | Some p \<Rightarrow> digest (rs_agentId s) p = i)"

text \<open>The version only grows in memory; a write that fails leaves the file as it was.\<close>

definition advanceManifest :: "nat \<Rightarrow> bool \<Rightarrow> rstore \<Rightarrow> bool \<times> rstore" where
  "advanceManifest version wrote s =
     (let v = max version (rs_manifestVersion s); s1 = s\<lparr>rs_manifestVersion := v\<rparr>
      in if wrote then (True, s1\<lparr>rs_manifest := v\<rparr>) else (False, s1))"

definition federated_name :: "string option \<Rightarrow> bool" where
  "federated_name p \<longleftrightarrow> (case p of None \<Rightarrow> False | Some x \<Rightarrow> x \<noteq> [] \<and> parseFederatedPrincipal x \<noteq> None)"

definition markFederated :: "string option \<Rightarrow> bool \<Rightarrow> rstore \<Rightarrow> bool \<times> rstore" where
  "markFederated p wrote s =
     (if \<not> federated_name p then (True, s) else if \<not> rs_locked s then (False, s) else advanceManifest 7 wrote s)"

subsection \<open>Scopes\<close>

definition findPrincipal :: "(string \<Rightarrow> string \<Rightarrow> string) \<Rightarrow> string \<Rightarrow> rstore \<Rightarrow> string + scope_row option" where
  "findPrincipal digest p s =
     (if js_trim p = [] then Inl ''principal ID must not be empty''
      else if \<not> rs_locked s then Inl NOT_OWNED
      else (case map_of (rs_scopes s) (digest (rs_agentId s) p) of
              None \<Rightarrow> Inr None
            | Some r \<Rightarrow>
                if \<not> validateRecord digest s (digest (rs_agentId s) p) r then Inl MISMATCH
                else Inr (if sc_principal r = Some p then Some r else None)))"

text \<open>The table refuses a second scope of one principal and kind.\<close>

definition taken :: "string \<Rightarrow> scope_row \<Rightarrow> rstore \<Rightarrow> bool" where
  "taken i r s \<longleftrightarrow>
     sc_principal r \<noteq> None \<and>
     list_ex (\<lambda>(j, q). j \<noteq> i \<and> sc_agentId q = sc_agentId r \<and> sc_principal q = sc_principal r \<and> sc_kind q = sc_kind r) (rs_scopes s)"

definition reserve_rows ::
    "(string \<Rightarrow> string \<Rightarrow> string) \<Rightarrow> string \<Rightarrow> scope_row \<Rightarrow> bool \<Rightarrow> rstore \<Rightarrow> bool stored" where
  "reserve_rows digest i r requirePreflight s =
     (case map_of (rs_scopes s) i of
        Some stored \<Rightarrow>
          if \<not> validateRecord digest s i stored \<or> sc_kind stored \<noteq> sc_kind r \<or>
             (sc_principal stored \<noteq> None \<and> sc_principal r \<noteq> None \<and> sc_principal stored \<noteq> sc_principal r)
          then (Inl MISMATCH, s)
          else if sc_principal stored = None \<and> sc_principal r \<noteq> None
          then (if taken i (stored\<lparr>sc_principal := sc_principal r\<rparr>) s then (Inl ''UNIQUE constraint failed'', s)
                else (Inr False, s\<lparr>rs_scopes := map_set i (stored\<lparr>sc_principal := sc_principal r\<rparr>) (rs_scopes s)\<rparr>))
          else (Inr False, s)
      | None \<Rightarrow>
          if taken i r s \<or> (requirePreflight \<and> i \<in> set (rs_pending s)) then (Inl ''UNIQUE constraint failed'', s)
          else (Inr True, s\<lparr>rs_scopes := map_set i r (rs_scopes s),
                            rs_pending := (if requirePreflight then i # rs_pending s else rs_pending s)\<rparr>))"

definition reserve ::
    "(string \<Rightarrow> string \<Rightarrow> string) \<Rightarrow> bool \<Rightarrow> string \<Rightarrow> string \<Rightarrow> string option \<Rightarrow> bool \<Rightarrow> rstore \<Rightarrow> bool stored" where
  "reserve digest wrote i kind who requirePreflight s =
     (if \<not> rs_locked s then (Inl NOT_OWNED, s)
      else if \<not> scope_key i then (Inl ''invalid scope ID'', s)
      else if (case who of None \<Rightarrow> False | Some p \<Rightarrow> p = [] \<or> digest (rs_agentId s) p \<noteq> i) then (Inl MISMATCH, s)
      else (case markFederated who wrote s of
              (False, s1) \<Rightarrow> (Inl ''manifest write failed'', s1)
            | (True, s1) \<Rightarrow>
                (let r = \<lparr>sc_kind = kind, sc_namespace = rs_namespace s1, sc_agentId = rs_agentId s1, sc_principal = who\<rparr>
                 in if \<not> validateRecord digest s1 i r then (Inl MISMATCH, s1)
                    else reserve_rows digest i r requirePreflight s1)))"

text \<open>The record of a scope is validated before anything is filed under it; none is as bad as a wrong one.\<close>

definition known_scope :: "(string \<Rightarrow> string \<Rightarrow> string) \<Rightarrow> string \<Rightarrow> rstore \<Rightarrow> bool" where
  "known_scope digest i s \<longleftrightarrow> (case map_of (rs_scopes s) i of None \<Rightarrow> False | Some r \<Rightarrow> validateRecord digest s i r)"

definition owned :: "rstore \<Rightarrow> 'a stored \<Rightarrow> 'a stored" where
  "owned s x = (if rs_locked s then x else (Inl NOT_OWNED, s))"

definition reservationPending :: "string \<Rightarrow> rstore \<Rightarrow> bool stored" where
  "reservationPending i s = owned s (Inr (i \<in> set (rs_pending s)), s)"

definition confirmReservation :: "string \<Rightarrow> rstore \<Rightarrow> unit stored" where
  "confirmReservation i s = owned s (Inr (), s\<lparr>rs_pending := removeAll i (rs_pending s)\<rparr>)"

definition allocationComplete :: "string \<Rightarrow> rstore \<Rightarrow> bool stored" where
  "allocationComplete i s = owned s (Inr (i \<in> set (rs_completed s)), s)"

definition for_scope :: "(string \<Rightarrow> string \<Rightarrow> string) \<Rightarrow> string \<Rightarrow> rstore \<Rightarrow> 'a stored \<Rightarrow> 'a stored" where
  "for_scope digest i s x = owned s (if known_scope digest i s then x else (Inl MISMATCH, s))"

definition markAllocationComplete :: "(string \<Rightarrow> string \<Rightarrow> string) \<Rightarrow> string \<Rightarrow> rstore \<Rightarrow> unit stored" where
  "markAllocationComplete digest i s = for_scope digest i s (Inr (), s\<lparr>rs_completed := List.insert i (rs_completed s)\<rparr>)"

text \<open>What needs a newer program is filed once the manifest says so.\<close>

definition after_manifest :: "nat \<Rightarrow> bool \<Rightarrow> rstore \<Rightarrow> (rstore \<Rightarrow> 'a stored) \<Rightarrow> 'a stored" where
  "after_manifest v wrote s f =
     (case advanceManifest v wrote s of (ok, s1) \<Rightarrow> if ok then f s1 else (Inl ''manifest write failed'', s1))"

definition recordFixedStorage :: "(string \<Rightarrow> string \<Rightarrow> string) \<Rightarrow> bool \<Rightarrow> string \<Rightarrow> string \<Rightarrow> rstore \<Rightarrow> unit stored" where
  "recordFixedStorage digest wrote i record s =
     for_scope digest i s (after_manifest 5 wrote s (\<lambda>s1.
       if map_has (rs_fixed s1) i then (Inl ''UNIQUE constraint failed'', s1)
       else (Inr (), s1\<lparr>rs_fixed := map_set i record (rs_fixed s1)\<rparr>)))"

subsection \<open>Conversations\<close>

definition contexts_of :: "string \<Rightarrow> rstore \<Rightarrow> string list" where
  "contexts_of i s = map (\<lambda>(k, ready). snd k) (filter (\<lambda>(k, ready). fst k = i) (rs_contexts s))"

definition contextReady :: "string \<Rightarrow> string \<Rightarrow> rstore \<Rightarrow> bool stored" where
  "contextReady i c s = owned s (Inr (map_of (rs_contexts s) (i, c) = Some True), s)"

definition markContextReady :: "string \<Rightarrow> string \<Rightarrow> rstore \<Rightarrow> unit stored" where
  "markContextReady i c s =
     owned s (Inr (), if map_has (rs_contexts s) (i, c) then s\<lparr>rs_contexts := map_set (i, c) True (rs_contexts s)\<rparr> else s)"

definition reserveContext ::
    "(string \<Rightarrow> string \<Rightarrow> string) \<Rightarrow> bool \<Rightarrow> string \<Rightarrow> string \<Rightarrow> nat \<Rightarrow> rstore \<Rightarrow> unit stored" where
  "reserveContext digest wrote i c limit s =
     for_scope digest i s
       (if \<not> scope_key c then (Inl ''invalid context'', s)
        else after_manifest 8 wrote s (\<lambda>s1.
          if c \<in> set (contexts_of i s1) then (Inr (), s1)
          else if length (contexts_of i s1) \<ge> limit then (Inl ''Retained caller context capacity reached'', s1)
          else (Inr (), s1\<lparr>rs_contexts := map_set (i, c) False (rs_contexts s1)\<rparr>)))"

subsection \<open>Helpers, lifecycle, preparation\<close>

definition recordStorageHelper :: "(string \<Rightarrow> string \<Rightarrow> string) \<Rightarrow> string \<Rightarrow> string \<Rightarrow> rstore \<Rightarrow> unit stored" where
  "recordStorageHelper digest i record s =
     for_scope digest i s
       (if map_has (rs_helpers s) i then (Inl ''UNIQUE constraint failed'', s)
        else (Inr (), s\<lparr>rs_helpers := map_set i record (rs_helpers s)\<rparr>))"

definition clearStorageHelper :: "string \<Rightarrow> rstore \<Rightarrow> unit stored" where
  "clearStorageHelper i s = owned s (Inr (), s\<lparr>rs_helpers := map_del i (rs_helpers s)\<rparr>)"

definition recordLifecycle :: "(string \<Rightarrow> string \<Rightarrow> string) \<Rightarrow> string \<Rightarrow> obj \<Rightarrow> rstore \<Rightarrow> unit stored" where
  "recordLifecycle digest i update s =
     for_scope digest i s
       (Inr (), s\<lparr>rs_lifecycle := map_set i (spread (get_or (map_of (rs_lifecycle s) i) []) update) (rs_lifecycle s)\<rparr>)"

definition preparation_version :: "string \<Rightarrow> bool" where
  "preparation_version v \<longleftrightarrow> 1 \<le> js_length v \<and> js_length v \<le> 128"

definition writePreparation :: "bool \<Rightarrow> string \<Rightarrow> string \<Rightarrow> bool \<Rightarrow> rstore \<Rightarrow> unit stored" where
  "writePreparation wrote i v ready s =
     (if \<not> preparation_version v then (Inl ''invalid version'', s)
      else owned s (after_manifest 6 wrote s (\<lambda>s1. (Inr (), s1\<lparr>rs_preparations := map_set i (v, ready) (rs_preparations s1)\<rparr>))))"

definition setPreparation :: "(string \<Rightarrow> string \<Rightarrow> string) \<Rightarrow> bool \<Rightarrow> string \<Rightarrow> string \<Rightarrow> bool \<Rightarrow> rstore \<Rightarrow> unit stored" where
  "setPreparation digest wrote i v ready s = for_scope digest i s (writePreparation wrote i v ready s)"

definition setPrincipalPreparation :: "(string \<Rightarrow> string \<Rightarrow> string) \<Rightarrow> bool \<Rightarrow> bool \<Rightarrow> string \<Rightarrow> string \<Rightarrow> rstore \<Rightarrow> string stored" where
  "setPrincipalPreparation digest wrote1 wrote2 p v s =
     (if js_trim p = [] \<or> js_length p > 512 then (Inl ''invalid principal ID'', s)
      else (case markFederated (Some p) wrote1 s of
              (False, s1) \<Rightarrow> (Inl (if rs_locked s then ''manifest write failed'' else NOT_OWNED), s1)
            | (True, s1) \<Rightarrow>
                (case writePreparation wrote2 (digest (rs_agentId s1) p) v False s1 of
                   (Inl err, s2) \<Rightarrow> (Inl err, s2)
                 | (Inr u, s2) \<Rightarrow> (Inr (digest (rs_agentId s1) p), s2))))"

definition cancelUnallocatedPreparation :: "string \<Rightarrow> rstore \<Rightarrow> unit stored" where
  "cancelUnallocatedPreparation i s =
     owned s
       (if map_has (rs_scopes s) i then (Inl ''allocated scope requires container remove'', s)
        else if \<not> map_has (rs_preparations s) i then (Inl ''unknown caller preparation'', s)
        else (Inr (), s\<lparr>rs_preparations := map_del i (rs_preparations s)\<rparr>))"

definition forget :: "string \<Rightarrow> bool \<Rightarrow> rstore \<Rightarrow> unit stored" where
  "forget i preservePreparation s =
     (if \<not> scope_key i then (Inl ''invalid scope ID'', s)
      else owned s
        (if get_or (map_of (rs_helpers s) i) [] \<noteq> [] then (Inl ''storage helper termination must be confirmed before forgetting scope'', s)
         else (Inr (), s\<lparr>rs_preparations := (if preservePreparation then rs_preparations s else map_del i (rs_preparations s)),
                        rs_contexts := filter (\<lambda>(k, ready). fst k \<noteq> i) (rs_contexts s), rs_fixed := map_del i (rs_fixed s),
                        rs_completed := removeAll i (rs_completed s), rs_pending := removeAll i (rs_pending s),
                        rs_lifecycle := map_del i (rs_lifecycle s), rs_scopes := map_del i (rs_scopes s)\<rparr>)))"

end
