(* ===== verification/RuntimeStoreFacts.thy ===== *)
theory RuntimeStoreFacts
  imports RuntimeStore
begin

text \<open>
  What the store promises: nothing is filed that an older program would not be kept away from, a caller keeps at most as
  many conversations as the limit says, and a scope belongs to one principal until it is forgotten.
\<close>

text \<open>Every operation that changes the store, with any arguments; \<open>K\<close> are scopes that are not forgotten.\<close>

inductive caller_step :: "(string \<Rightarrow> string \<Rightarrow> string) \<Rightarrow> nat \<Rightarrow> string set \<Rightarrow> rstore \<Rightarrow> rstore \<Rightarrow> bool" for digest limit K where
  Reserve: "caller_step digest limit K s (snd (reserve digest wrote i kind p preflight s))"
| Confirm: "caller_step digest limit K s (snd (confirmReservation i s))"
| Complete: "caller_step digest limit K s (snd (markAllocationComplete digest i s))"
| Fixed: "caller_step digest limit K s (snd (recordFixedStorage digest wrote i record s))"
| Context: "caller_step digest limit K s (snd (reserveContext digest wrote i c limit s))"
| Context_ready: "caller_step digest limit K s (snd (markContextReady i c s))"
| Helper: "caller_step digest limit K s (snd (recordStorageHelper digest i record s))"
| Helper_gone: "caller_step digest limit K s (snd (clearStorageHelper i s))"
| Lifecycle: "caller_step digest limit K s (snd (recordLifecycle digest i update s))"
| Prepare: "caller_step digest limit K s (snd (setPreparation digest wrote i v ready s))"
| Prepare_principal: "caller_step digest limit K s (snd (setPrincipalPreparation digest wrote wrote2 p v s))"
| Cancel: "caller_step digest limit K s (snd (cancelUnallocatedPreparation i s))"
| Forget: "i \<notin> K \<Longrightarrow> caller_step digest limit K s (snd (forget i preserve s))"

lemmas store_ops = reserve_def reserve_rows_def confirmReservation_def markAllocationComplete_def recordFixedStorage_def reserveContext_def
  markContextReady_def recordStorageHelper_def clearStorageHelper_def recordLifecycle_def setPreparation_def setPrincipalPreparation_def
  cancelUnallocatedPreparation_def forget_def writePreparation_def markFederated_def advanceManifest_def after_manifest_def
  owned_def for_scope_def

definition new_store :: "rstore \<Rightarrow> bool" where
  "new_store s \<longleftrightarrow> rs_manifest s \<le> rs_manifestVersion s \<and> rs_scopes s = [] \<and> rs_fixed s = [] \<and> rs_preparations s = [] \<and> rs_contexts s = []"

subsection \<open>Older programs are kept away\<close>

definition federated_scope :: "rstore \<Rightarrow> bool" where
  "federated_scope s \<longleftrightarrow> (\<exists>i r. map_of (rs_scopes s) i = Some r \<and> federated_name (sc_principal r))"

definition manifest_covers :: "rstore \<Rightarrow> bool" where
  "manifest_covers s \<longleftrightarrow> rs_manifest s \<le> rs_manifestVersion s \<and> (rs_fixed s \<noteq> [] \<longrightarrow> 5 \<le> rs_manifest s) \<and>
     (rs_preparations s \<noteq> [] \<longrightarrow> 6 \<le> rs_manifest s) \<and> (federated_scope s \<longrightarrow> 7 \<le> rs_manifest s) \<and>
     (rs_contexts s \<noteq> [] \<longrightarrow> 8 \<le> rs_manifest s)"

lemma advanced:
  assumes "advanceManifest v wrote s = (ok, s1)" "manifest_covers s"
  shows "manifest_covers s1" "ok \<Longrightarrow> v \<le> rs_manifest s1" "rs_scopes s1 = rs_scopes s" "rs_contexts s1 = rs_contexts s"
    "rs_fixed s1 = rs_fixed s" "rs_preparations s1 = rs_preparations s" "rs_agentId s1 = rs_agentId s" "rs_namespace s1 = rs_namespace s"
  using assms by (auto simp: advanceManifest_def manifest_covers_def federated_scope_def Let_def split: if_splits)

lemma marked:
  assumes "markFederated p wrote s = (ok, s1)" "manifest_covers s"
  shows "manifest_covers s1" "ok \<Longrightarrow> federated_name p \<Longrightarrow> 7 \<le> rs_manifest s1" "rs_scopes s1 = rs_scopes s"
    "rs_agentId s1 = rs_agentId s" "rs_namespace s1 = rs_namespace s"
  using assms advanced [of 7 wrote s ok s1] by (auto simp: markFederated_def split: if_splits)

lemma covers_scope:
  assumes "manifest_covers s" "federated_name (sc_principal r) \<Longrightarrow> 7 \<le> rs_manifest s"
  shows "manifest_covers (s\<lparr>rs_scopes := map_set i r (rs_scopes s)\<rparr>)" "manifest_covers (s\<lparr>rs_scopes := map_set i r (rs_scopes s), rs_pending := p\<rparr>)"
  using assms by (auto simp: manifest_covers_def federated_scope_def)

lemma reserve_covers:
  assumes "manifest_covers s"
  shows "manifest_covers (snd (reserve digest wrote i kind p preflight s))"
proof -
  obtain ok s1 where m: "markFederated p wrote s = (ok, s1)" by fastforce
  note k = marked [OF m assms]
  show ?thesis
  proof (cases ok)
    case True
    then have f: "federated_name p \<Longrightarrow> 7 \<le> rs_manifest s1" using k(2) by simp
    let ?r = "\<lparr>sc_kind = kind, sc_namespace = rs_namespace s1, sc_agentId = rs_agentId s1, sc_principal = p\<rparr>"
    have "manifest_covers (snd (reserve_rows digest i ?r preflight s1))"
      using k(1) f by (auto simp: reserve_rows_def intro!: covers_scope split: option.splits)
    then show ?thesis using assms k(1) True by (auto simp: reserve_def m Let_def)
  next
    case False
    then show ?thesis using assms k(1) by (auto simp: reserve_def m)
  qed
qed

lemma after_covers:
  assumes "manifest_covers s" "\<And>s1. manifest_covers s1 \<Longrightarrow> v \<le> rs_manifest s1 \<Longrightarrow> manifest_covers (snd (f s1))"
  shows "manifest_covers (snd (after_manifest v wrote s f))"
proof -
  obtain ok s1 where m: "advanceManifest v wrote s = (ok, s1)" by fastforce
  show ?thesis using advanced(1,2) [OF m assms(1)] assms(2) by (simp add: after_manifest_def m)
qed

lemma owned_covers: "manifest_covers s \<Longrightarrow> manifest_covers (snd x) \<Longrightarrow> manifest_covers (snd (owned s x))"
  by (simp add: owned_def)

lemma scope_covers: "manifest_covers s \<Longrightarrow> manifest_covers (snd x) \<Longrightarrow> manifest_covers (snd (for_scope digest i s x))"
  by (simp add: for_scope_def owned_covers)

lemma preparation_covers:
  assumes "manifest_covers s"
  shows "manifest_covers (snd (writePreparation wrote i v ready s))"
proof -
  have "manifest_covers (s1\<lparr>rs_preparations := map_set i (v, ready) (rs_preparations s1)\<rparr>)" if "manifest_covers s1" "6 \<le> rs_manifest s1" for s1
    using that by (auto simp: manifest_covers_def federated_scope_def)
  then show ?thesis using assms unfolding writePreparation_def by (auto intro!: owned_covers after_covers)
qed

lemma covers_lifecycle: "manifest_covers s \<Longrightarrow> manifest_covers (s\<lparr>rs_lifecycle := l\<rparr>)"
  and covers_helpers: "manifest_covers s \<Longrightarrow> manifest_covers (s\<lparr>rs_helpers := h\<rparr>)"
  and covers_completed: "manifest_covers s \<Longrightarrow> manifest_covers (s\<lparr>rs_completed := c\<rparr>)"
  and covers_pending: "manifest_covers s \<Longrightarrow> manifest_covers (s\<lparr>rs_pending := q\<rparr>)"
  by (simp_all add: manifest_covers_def federated_scope_def)

lemmas covers_rest = covers_lifecycle covers_helpers covers_completed covers_pending

lemma store_step_covers:
  assumes "caller_step digest limit K s t" "manifest_covers s"
  shows "manifest_covers t"
  using assms(1)
proof cases
  case Reserve
  then show ?thesis using reserve_covers assms(2) by simp
next
  case (Fixed wrote i data)
  have "manifest_covers (s1\<lparr>rs_fixed := map_set i data (rs_fixed s1)\<rparr>)" if "manifest_covers s1" "5 \<le> rs_manifest s1" for s1
    using that by (auto simp: manifest_covers_def federated_scope_def)
  then show ?thesis using Fixed assms(2) unfolding recordFixedStorage_def by (auto intro!: scope_covers after_covers)
next
  case (Context wrote i c)
  have "manifest_covers (s1\<lparr>rs_contexts := map_set (i, c) False (rs_contexts s1)\<rparr>)" if "manifest_covers s1" "8 \<le> rs_manifest s1" for s1
    using that by (auto simp: manifest_covers_def federated_scope_def)
  then show ?thesis using Context assms(2) unfolding reserveContext_def by (auto intro!: scope_covers after_covers)
next
  case (Context_ready i c)
  have "manifest_covers (s\<lparr>rs_contexts := map_set (i, c) True (rs_contexts s)\<rparr>)" if "map_has (rs_contexts s) (i, c)"
    using that assms(2) by (cases "rs_contexts s") (auto simp: manifest_covers_def federated_scope_def)
  then show ?thesis using Context_ready assms(2) unfolding markContextReady_def by (auto intro!: owned_covers)
next
  case Prepare
  then show ?thesis using assms(2) unfolding setPreparation_def by (simp add: scope_covers preparation_covers)
next
  case (Prepare_principal wrote wrote2 p v)
  obtain ok s1 where m: "markFederated (Some p) wrote s = (ok, s1)" by fastforce
  have "manifest_covers (snd (writePreparation wrote2 j v False s1))" for j using marked(1) [OF m assms(2)] by (rule preparation_covers)
  then show ?thesis
    using Prepare_principal assms(2) marked(1) [OF m assms(2)] unfolding setPrincipalPreparation_def m
    by (auto split: prod.splits sum.splits bool.splits) (metis snd_conv)+
next
  case (Cancel i)
  have "manifest_covers (s\<lparr>rs_preparations := map_del i (rs_preparations s)\<rparr>)"
    using assms(2) by (auto simp: manifest_covers_def federated_scope_def)
  then show ?thesis using Cancel assms(2) unfolding cancelUnallocatedPreparation_def by (auto intro!: owned_covers)
next
  case (Forget i preserve)
  have "manifest_covers (s\<lparr>rs_preparations := (if preserve then rs_preparations s else map_del i (rs_preparations s)),
      rs_contexts := filter (\<lambda>(k, ready). fst k \<noteq> i) (rs_contexts s), rs_fixed := map_del i (rs_fixed s),
      rs_completed := removeAll i (rs_completed s), rs_pending := removeAll i (rs_pending s),
      rs_lifecycle := map_del i (rs_lifecycle s), rs_scopes := map_del i (rs_scopes s)\<rparr>)"
    using assms(2) by (auto simp: manifest_covers_def federated_scope_def)
  then show ?thesis using Forget assms(2) unfolding forget_def by (auto intro!: owned_covers)
qed (use assms(2) in \<open>auto simp: confirmReservation_def markAllocationComplete_def recordStorageHelper_def clearStorageHelper_def
  recordLifecycle_def intro!: scope_covers owned_covers covers_rest\<close>)

subsection \<open>Conversations are limited\<close>

definition contexts_limited :: "nat \<Rightarrow> rstore \<Rightarrow> bool" where
  "contexts_limited limit s \<longleftrightarrow> distinct (map_keys (rs_contexts s)) \<and> (\<forall>i. length (contexts_of i s) \<le> limit)"

lemma contexts_of_member: "c \<in> set (contexts_of i s) \<longleftrightarrow> map_has (rs_contexts s) (i, c)"
  by (force simp: contexts_of_def map_of_eq_None_iff)

lemma contexts_set:
  "contexts_of i (s\<lparr>rs_contexts := map_set (j, c) v (rs_contexts s)\<rparr>) =
    (if j = i \<and> \<not> map_has (rs_contexts s) (i, c) then contexts_of i s @ [c] else contexts_of i s)"
proof -
  have "map (\<lambda>(k, ready). snd k) (filter (\<lambda>(k, ready). fst k = i) (map_set (j, c) v m)) =
      (if j = i \<and> map_of m (i, c) = None then map (\<lambda>(k, ready). snd k) (filter (\<lambda>(k, ready). fst k = i) m) @ [c]
       else map (\<lambda>(k, ready). snd k) (filter (\<lambda>(k, ready). fst k = i) m))" for m :: "(string \<times> string, bool) jsmap"
    by (induction m) auto
  then show ?thesis by (simp add: contexts_of_def)
qed

lemma limited_same: "contexts_limited limit s \<Longrightarrow> rs_contexts t = rs_contexts s \<Longrightarrow> contexts_limited limit t"
  by (simp add: contexts_limited_def contexts_of_def)

lemma advance_contexts: "rs_contexts (snd (advanceManifest v wrote s)) = rs_contexts s"
  by (simp add: advanceManifest_def Let_def)

lemma mark_contexts: "rs_contexts (snd (markFederated p wrote s)) = rs_contexts s"
  by (simp add: markFederated_def advance_contexts)

lemma reserve_contexts: "rs_contexts (snd (reserve digest wrote i kind p preflight s)) = rs_contexts s"
proof -
  obtain ok s1 where m: "markFederated p wrote s = (ok, s1)" by fastforce
  show ?thesis using mark_contexts [of p wrote s] m
    by (cases ok) (auto simp: reserve_def Let_def reserve_rows_def split: option.splits)
qed

lemma after_contexts:
  "(\<And>s1. rs_contexts (snd (f s1)) = rs_contexts s1) \<Longrightarrow> rs_contexts (snd (after_manifest v wrote s f)) = rs_contexts s"
  using advance_contexts [of v wrote s] by (auto simp: after_manifest_def split: prod.splits)

lemma preparation_contexts: "rs_contexts (snd (writePreparation wrote i v ready s)) = rs_contexts s"
  unfolding writePreparation_def owned_def by (auto intro!: after_contexts)

lemma limited_filter:
  assumes "contexts_limited limit s" "rs_contexts t = filter P (rs_contexts s)"
  shows "contexts_limited limit t"
proof -
  have "length (contexts_of j t) \<le> length (contexts_of j s)" for j
    using assms(2) by (simp add: contexts_of_def) (metis (no_types, lifting) filter_filter length_filter_le filter_cong conj_commute)
  then show ?thesis using assms by (fastforce simp: contexts_limited_def distinct_map inj_on_def intro: le_trans)
qed

lemma context_limited:
  assumes "contexts_limited limit s"
  shows "contexts_limited limit (snd (reserveContext digest wrote i c limit s))"
proof -
  obtain ok s1 where m: "advanceManifest 8 wrote s = (ok, s1)" by fastforce
  have one: "contexts_limited limit s1" using limited_same [OF assms] advance_contexts [of 8 wrote s] m by simp
  have "contexts_limited limit (s1\<lparr>rs_contexts := map_set (i, c) False (rs_contexts s1)\<rparr>)" if "length (contexts_of i s1) < limit"
    using one that unfolding contexts_limited_def contexts_set by auto
  then show ?thesis using assms one unfolding reserveContext_def for_scope_def owned_def after_manifest_def m by auto
qed

lemma store_step_limited:
  assumes "caller_step digest limit K s t" "contexts_limited limit s"
  shows "contexts_limited limit t"
  using assms(1)
proof cases
  case Reserve
  then show ?thesis using limited_same assms(2) reserve_contexts by simp
next
  case Fixed
  then show ?thesis using assms(2) unfolding recordFixedStorage_def for_scope_def owned_def
    by (auto intro!: limited_same [OF assms(2)] after_contexts)
next
  case Context
  then show ?thesis using context_limited assms(2) by simp
next
  case (Context_ready i c)
  have "contexts_limited limit (s\<lparr>rs_contexts := map_set (i, c) True (rs_contexts s)\<rparr>)" if "map_has (rs_contexts s) (i, c)"
    using assms(2) that unfolding contexts_limited_def contexts_set by auto
  then show ?thesis using Context_ready assms(2) unfolding markContextReady_def owned_def by auto
next
  case Prepare
  then show ?thesis using limited_same [OF assms(2)] unfolding setPreparation_def for_scope_def owned_def by (auto simp: preparation_contexts)
next
  case (Prepare_principal wrote wrote2 p v)
  obtain ok s1 where m: "markFederated (Some p) wrote s = (ok, s1)" by fastforce
  have "rs_contexts t = rs_contexts s"
    using Prepare_principal mark_contexts [of "Some p" wrote s] m preparation_contexts [of wrote2 _ v False s1]
    unfolding setPrincipalPreparation_def m
    by (auto split: prod.splits sum.splits bool.splits) (metis snd_conv)+
  then show ?thesis using limited_same [OF assms(2)] by simp
next
  case (Forget i preserve)
  then show ?thesis using assms(2) limited_filter [OF assms(2), of _ "\<lambda>(k, ready). fst k \<noteq> i"] unfolding forget_def owned_def by auto
qed (use limited_same [OF assms(2)] assms(2) in \<open>auto simp: confirmReservation_def markAllocationComplete_def recordStorageHelper_def
  clearStorageHelper_def recordLifecycle_def cancelUnallocatedPreparation_def for_scope_def owned_def\<close>)

subsection \<open>Everything the store keeps\<close>

interpretation store: invariant_system new_store "caller_step digest limit K" "\<lambda>s. manifest_covers s \<and> contexts_limited limit s"
  for digest limit K
proof unfold_locales
  show "new_store s \<Longrightarrow> manifest_covers s \<and> contexts_limited limit s" for s
    by (simp add: new_store_def manifest_covers_def federated_scope_def contexts_limited_def contexts_of_def)
  show "manifest_covers s \<and> contexts_limited limit s \<Longrightarrow> caller_step digest limit K s t \<Longrightarrow> manifest_covers t \<and> contexts_limited limit t" for s t
    using store_step_covers store_step_limited by blast
qed

text \<open>
  Claim C38. Programs that do not understand what is stored are kept out. From an empty store, after any operations and with
  manifest writes that fail at will, the manifest on disk already carries version 5 when a fixed storage record
  is filed, 6 with a preparation, 7 with a scope of a federated principal and 8 with a conversation: a program that refuses
  a newer manifest never sees one of them. And no caller holds more conversations than the limit.
\<close>
theorem manifest_covers_content:
  assumes "new_store s0" "(caller_step digest limit K)\<^sup>*\<^sup>* s0 s"
  shows "(map_has (rs_fixed s) i \<longrightarrow> 5 \<le> rs_manifest s) \<and> (map_has (rs_preparations s) i \<longrightarrow> 6 \<le> rs_manifest s) \<and>
    (\<forall>r. map_of (rs_scopes s) i = Some r \<and> federated_name (sc_principal r) \<longrightarrow> 7 \<le> rs_manifest s) \<and>
    (contexts_of i s \<noteq> [] \<longrightarrow> 8 \<le> rs_manifest s) \<and> length (contexts_of i s) \<le> limit"
  using store.reachable_inv [OF assms]
  by (auto simp: manifest_covers_def federated_scope_def contexts_limited_def contexts_of_def)

subsection \<open>A scope has one owner\<close>

definition owner_of :: "string \<Rightarrow> rstore \<Rightarrow> (string \<times> string option) option" where
  "owner_of i s = map_option (\<lambda>r. (sc_kind r, sc_principal r)) (map_of (rs_scopes s) i)"

lemma owner_same: "rs_scopes t = rs_scopes s \<Longrightarrow> owner_of i t = owner_of i s"
  by (simp add: owner_of_def)

lemma advance_scopes: "rs_scopes (snd (advanceManifest v wrote s)) = rs_scopes s"
  by (simp add: advanceManifest_def Let_def)

lemma mark_scopes: "rs_scopes (snd (markFederated p wrote s)) = rs_scopes s"
  by (simp add: markFederated_def advance_scopes)

lemma after_scopes:
  "(\<And>s1. rs_scopes (snd (f s1)) = rs_scopes s1) \<Longrightarrow> rs_scopes (snd (after_manifest v wrote s f)) = rs_scopes s"
  using advance_scopes [of v wrote s] by (auto simp: after_manifest_def split: prod.splits)

lemma preparation_scopes: "rs_scopes (snd (writePreparation wrote i v ready s)) = rs_scopes s"
  unfolding writePreparation_def owned_def by (auto intro!: after_scopes)

lemma reserve_keeps_owner:
  assumes "owner_of i s = Some (kind, Some p)"
  shows "owner_of i (snd (reserve digest wrote j kind' p' preflight s)) = Some (kind, Some p)"
proof -
  obtain ok s1 where m: "markFederated p' wrote s = (ok, s1)" by fastforce
  have one: "owner_of i s1 = Some (kind, Some p)" using assms owner_same [of s1 s] mark_scopes [of p' wrote s] m by simp
  have rows: "owner_of i (snd (reserve_rows digest j r preflight s1)) = Some (kind, Some p)" for r
    using one by (auto simp: reserve_rows_def owner_of_def split: option.splits)
  show ?thesis using assms one rows by (cases ok) (auto simp: reserve_def m Let_def)
qed

lemma store_step_owner:
  assumes "caller_step digest limit K s t" "owner_of i s = Some (kind, Some p)" "i \<in> K"
  shows "owner_of i t = Some (kind, Some p)"
  using assms(1)
proof cases
  case Reserve
  then show ?thesis using reserve_keeps_owner assms(2) by simp
next
  case Fixed
  then show ?thesis using assms(2) owner_same [of t s] unfolding recordFixedStorage_def for_scope_def owned_def
    by (auto simp: after_scopes)
next
  case Context
  then show ?thesis using assms(2) owner_same [of t s] unfolding reserveContext_def for_scope_def owned_def
    by (auto simp: after_scopes)
next
  case Prepare
  then show ?thesis using assms(2) owner_same [of t s] unfolding setPreparation_def for_scope_def owned_def
    by (auto simp: preparation_scopes)
next
  case (Prepare_principal wrote wrote2 q v)
  obtain ok s1 where m: "markFederated (Some q) wrote s = (ok, s1)" by fastforce
  have "rs_scopes t = rs_scopes s"
    using Prepare_principal mark_scopes [of "Some q" wrote s] m preparation_scopes [of wrote2 _ v False s1]
    unfolding setPrincipalPreparation_def m
    by (auto split: prod.splits sum.splits bool.splits) (metis snd_conv)+
  then show ?thesis using owner_same assms(2) by metis
next
  case (Forget j preserve)
  then show ?thesis using assms(2,3) by (auto simp: forget_def owned_def owner_of_def)
qed (use assms(2) in \<open>auto simp: confirmReservation_def markAllocationComplete_def recordStorageHelper_def markContextReady_def
  clearStorageHelper_def recordLifecycle_def cancelUnallocatedPreparation_def for_scope_def owned_def owner_of_def\<close>)

text \<open>
  Claim C39. A scope has one owner. Once a scope is bound to a principal and a kind, no operation but forgetting it
  binds it to another, or to none, and a reservation answers success for that scope only to the same kind and
  the same principal, or to a caller that names no principal.
\<close>
theorem scope_has_one_owner:
  assumes "owner_of i s = Some (kind, Some p)" "(caller_step digest limit K)\<^sup>*\<^sup>* s t" "i \<in> K"
    and "fst (reserve digest wrote i kind' p' preflight t) = Inr new"
  shows "owner_of i t = Some (kind, Some p) \<and> \<not> new \<and> kind' = kind \<and> p' \<in> {None, Some p}"
proof -
  have o: "owner_of i t = Some (kind, Some p)"
    using assms(2) by (induction rule: rtranclp_induct) (auto intro: assms(1) store_step_owner [OF _ _ assms(3)])
  obtain ok s1 where m: "markFederated p' wrote t = (ok, s1)" by fastforce
  have "map_of (rs_scopes s1) i = map_of (rs_scopes t) i" using mark_scopes [of p' wrote t] m by simp
  then show ?thesis
    using o assms(4) by (cases ok) (auto simp: reserve_def m Let_def reserve_rows_def owner_of_def split: if_splits)
qed

end
