(* ===== verification/CallerStoreSamples.thy ===== *)
theory CallerStoreSamples
  imports StorageFacts RuntimeStoreFacts
begin

text \<open>The promises of the image pool and of the caller store, applied to one caller.\<close>

definition sample_key :: string where "sample_key = replicate 64 CHR ''a''"

lemma sample_scope_key: "scope_key sample_key"
  by code_simp

subsection \<open>The pool\<close>

definition sample_args :: "string list" where
  "sample_args = [''create'', sample_key, ''00000000-0000-4000-8000-000000000000'', ''67108864'', ''134217728'', ''1'']"

definition sample_create :: storage_request where
  "sample_create = \<lparr>sr_action = Create, sr_key = sample_key, sr_uuid = ''00000000-0000-4000-8000-000000000000'',
     sr_size = 67108864, sr_budget = 134217728, sr_reserve = 1\<rparr>"

definition sample_image :: image_file where
  "sample_image = \<lparr>if_size = 67108864, if_allocated = 67108864, if_uuid = ''00000000-0000-4000-8000-000000000000'', if_type = ''ext4'',
     if_data = ''data''\<rparr>"

definition sample_tools :: tools where
  "sample_tools = \<lparr>tl_free = 134217728, tl_creation = Finished sample_image, tl_symlink = False, tl_attached = True,
     tl_detached = True, tl_unlinkSynced = True\<rparr>"

definition new_pool :: pool where "new_pool = \<lparr>sp_policy = None, sp_rows = [], sp_files = []\<rparr>"

definition sample_pool :: pool where "sample_pool = snd (runStorageManager sample_create sample_tools new_pool)"

lemma sample_parsed: "parseStorageRequest sample_args = Inr sample_create"
proof -
  have a: "storage_action_of ''create'' = Some Create" "uuid_shape ''00000000-0000-4000-8000-000000000000''" by code_simp+
  have b: "list_all capacity_text [''67108864'', ''134217728'', ''1'']" by code_simp
  have c: "nat_of_string ''67108864'' = 67108864" "nat_of_string ''134217728'' = 134217728" "nat_of_string ''1'' = 1"
    by (simp_all add: nat_of_string_def)
  show ?thesis using a b sample_scope_key
    by (simp add: parseStorageRequest_def sample_args_def c Let_def safe_integer_def MEBIBYTE_def sample_create_def)
qed

lemma sample_pool_value:
  "sample_pool = \<lparr>sp_policy = Some (134217728, 1),
     sp_rows = [(sample_key, \<lparr>ir_uuid = ''00000000-0000-4000-8000-000000000000'', ir_size = 67108864, ir_state = Ready\<rparr>)],
     sp_files = [(sample_key, sample_image)]\<rparr>"
  by (simp add: sample_pool_def runStorageManager_def allocate_image_def sample_create_def sample_tools_def new_pool_def
      sample_image_def used_space_def Let_def)

lemma sample_run: "storage_step\<^sup>*\<^sup>* new_pool sample_pool"
  unfolding sample_pool_def by (rule r_into_rtranclp, rule Run [OF sample_parsed])

lemma sample_keep: "(keeping_step sample_key)\<^sup>*\<^sup>* sample_pool (snd (runStorageManager sample_create sample_tools sample_pool))"
  by (rule r_into_rtranclp, rule Keep [OF sample_parsed]) (simp add: sample_create_def)

lemma pool_never_overcommits_witness: "used_space sample_pool \<le> 134217728"
  using pool_never_overcommits [OF _ sample_run, of sample_key]
  by (simp add: empty_pool_def new_pool_def sample_pool_value)

lemma image_is_never_overwritten_witness:
  "map_of (sp_files (snd (runStorageManager sample_create sample_tools sample_pool))) sample_key = Some sample_image"
  using image_is_never_overwritten [OF _ sample_run _ sample_keep]
  by (simp add: empty_pool_def new_pool_def sample_pool_value)

subsection \<open>The store\<close>

definition sample_digest :: "string \<Rightarrow> string \<Rightarrow> string" where
  "sample_digest a p = (if p = ''eth:0x1'' then sample_key else [])"

definition sample_store :: rstore where
  "sample_store = \<lparr>rs_agentId = ''bot'', rs_namespace = ''n'', rs_locked = True, rs_manifestVersion = 4, rs_manifest = 4,
     rs_scopes = [], rs_completed = [], rs_pending = [], rs_fixed = [], rs_preparations = [], rs_helpers = [], rs_lifecycle = [],
     rs_contexts = []\<rparr>"

definition bound_store :: rstore where
  "bound_store = snd (reserve sample_digest True sample_key ''codex'' (Some ''eth:0x1'') False sample_store)"

definition talking_store :: rstore where
  "talking_store = snd (reserveContext sample_digest True sample_key sample_key 1 bound_store)"

lemma sample_not_federated: "\<not> federated_name (Some ''eth:0x1'')"
  by code_simp

lemma bound_store_value:
  "bound_store = sample_store\<lparr>rs_scopes := [(sample_key, \<lparr>sc_kind = ''codex'', sc_namespace = ''n'', sc_agentId = ''bot'', sc_principal = Some ''eth:0x1''\<rparr>)]\<rparr>"
  using sample_scope_key sample_not_federated
  by (simp add: bound_store_def reserve_def markFederated_def sample_store_def sample_digest_def validateRecord_def scope_record_def
      reserve_rows_def taken_def)

lemma talking_store_value: "rs_contexts talking_store = [((sample_key, sample_key), False)]" "rs_manifest talking_store = 8"
  "rs_scopes talking_store = rs_scopes bound_store" "rs_locked talking_store" "rs_agentId talking_store = ''bot''" "rs_namespace talking_store = ''n''"
  using sample_scope_key
  by (simp_all add: talking_store_def bound_store_value reserveContext_def for_scope_def owned_def known_scope_def validateRecord_def
      scope_record_def after_manifest_def advanceManifest_def sample_store_def sample_digest_def contexts_of_def)

lemma sample_talks: "(caller_step sample_digest 1 K)\<^sup>*\<^sup>* bound_store talking_store"
  unfolding talking_store_def by (rule r_into_rtranclp, rule Context)

lemma sample_binds: "(caller_step sample_digest 1 K)\<^sup>*\<^sup>* sample_store talking_store"
  by (rule converse_rtranclp_into_rtranclp [OF _ sample_talks]) (unfold bound_store_def, rule Reserve)

lemma manifest_covers_content_witness: "8 \<le> rs_manifest talking_store \<and> length (contexts_of sample_key talking_store) \<le> 1"
  using manifest_covers_content [OF _ sample_binds [of "{}"], of sample_key]
  by (simp add: new_store_def sample_store_def talking_store_value contexts_of_def)

lemma sample_reserved:
  "fst (reserve sample_digest True sample_key ''codex'' (Some ''eth:0x1'') False talking_store) = Inr False"
  using sample_scope_key sample_not_federated
  by (simp add: reserve_def markFederated_def talking_store_value bound_store_value sample_store_def sample_digest_def validateRecord_def
      scope_record_def reserve_rows_def)

lemma scope_has_one_owner_witness: "owner_of sample_key talking_store = Some (''codex'', Some ''eth:0x1'')"
  using scope_has_one_owner [OF _ sample_talks [of "{sample_key}"] _ sample_reserved]
  by (simp add: owner_of_def bound_store_value)

end
