(* ===== verification/Exchange.thy ===== *)
theory Exchange
  imports Device
begin

text \<open>
  The OAuth token-exchange endpoint (packages/server/src/oauth/token-exchange/routes.ts): from the bytes of a request over
  the selection of an agent and a profile to the access token. A profile checks assertions; what it recognises,
  refuses and verifies are arguments, as are the URL parser, the form parser and the URI decoder of the platform. Each
  query is a step of its own, so the database is an argument of each.
\<close>

subsection \<open>Profiles\<close>

definition TOKEN_EXCHANGE_GRANT_TYPE :: string where
  "TOKEN_EXCHANGE_GRANT_TYPE = ''urn:ietf:params:oauth:grant-type:token-exchange''"
definition ACCESS_TOKEN_TYPE :: string where "ACCESS_TOKEN_TYPE = ''urn:ietf:params:oauth:token-type:access_token''"
definition TOKEN_EXCHANGE_ACCESS_TOKEN_TTL_SECONDS :: int where "TOKEN_EXCHANGE_ACCESS_TOKEN_TTL_SECONDS = 300"
definition TOKEN_EXCHANGE_MAX_FORM_BYTES :: nat where "TOKEN_EXCHANGE_MAX_FORM_BYTES = 64 * 1024"

type_synonym form = "(string \<times> string) list"

record exchange_failure =
  ef_status :: nat
  ef_error :: string
  ef_description :: string
  ef_reason :: string

record exchange_authorization =
  ea_principalId :: string
  ea_actorId :: string
  ea_authorizationKey :: string
  ea_scopes :: "string list"
  ea_taskId :: "string option"
  ea_attestation :: "attestation option"
  ea_replays :: "replay_tuple list"

record exchange_profile =
  ep_id :: string
  ep_replayRequired :: bool
  ep_profileManaged :: bool
  ep_clientAuthMethods :: "string list"
  ep_clientAuthSigningAlgorithms :: "string list"
  ep_scopes :: "string list"
  ep_subjectTokenTypes :: "string list"
  ep_metadata :: obj
  ep_replayFailure :: "exchange_failure option"
  ep_recognizes :: "form \<Rightarrow> bool"
  ep_validateRequest :: "form \<Rightarrow> string \<Rightarrow> exchange_failure option"

record exchange_options =
  eo_publicUrl :: string
  eo_profiles :: "exchange_profile list"
  eo_passThrough :: bool
  eo_additionalGrantTypes :: "string list"
  eo_additionalAuthMethods :: "string list"
  eo_deviceEndpoint :: "string option"

definition selectProfile :: "exchange_profile list \<Rightarrow> form \<Rightarrow> exchange_profile option" where
  "selectProfile profiles f =
     (case filter (\<lambda>p. ep_recognizes p f) profiles of
        [p] \<Rightarrow> Some p
      | _ \<Rightarrow> (case profiles of [p] \<Rightarrow> Some p | _ \<Rightarrow> None))"

subsection \<open>Resources\<close>

definition no_slash :: "string \<Rightarrow> string" where
  "no_slash s = (if suffix ''/'' s then butlast s else s)"

definition canonicalAgentResource :: "string \<Rightarrow> string \<Rightarrow> string" where
  "canonicalAgentResource publicUrl agentId = no_slash publicUrl @ ''/agents/'' @ agentId"

definition agentIdFromResource ::
    "(string \<Rightarrow> url_parts option) \<Rightarrow> (string \<Rightarrow> string option) \<Rightarrow> string \<Rightarrow> string \<Rightarrow> string option" where
  "agentIdFromResource parse uri_decode publicUrl resource =
     (case (parse publicUrl, parse resource) of
        (Some base, Some target) \<Rightarrow>
          if up_origin target \<noteq> up_origin base \<or> up_search target \<noteq> [] \<or> up_hash target \<noteq> [] then None
          else (let before = no_slash (up_pathname base) @ ''/agents/''
                in if \<not> startsWith (up_pathname target) before then None
                   else (let encoded = drop (length before) (up_pathname target)
                         in if encoded = [] \<or> CHR ''/'' \<in> set encoded then None
                            else (case uri_decode encoded of
                                    None \<Rightarrow> None
                                  | Some agentId \<Rightarrow>
                                      if resource = canonicalAgentResource publicUrl agentId then Some agentId else None)))
      | _ \<Rightarrow> None)"

subsection \<open>The server's metadata\<close>

definition unique :: "string list \<Rightarrow> string list" where
  "unique xs = rev (remdups (rev xs))"

abbreviation jstrings :: "string list \<Rightarrow> json" where
  "jstrings xs \<equiv> JArr (map JStr xs)"

definition authorization_server_metadata :: "exchange_options \<Rightarrow> obj" where
  "authorization_server_metadata opts =
     (let publicUrl = no_slash (eo_publicUrl opts); ps = eo_profiles opts
      in spread (fold (\<lambda>p m. spread m (ep_metadata p)) ps [])
         ([(''issuer'', JStr publicUrl), (''token_endpoint'', JStr (publicUrl @ ''/oauth/token''))] @
          (case eo_deviceEndpoint opts of None \<Rightarrow> [] | Some e \<Rightarrow> [(''device_authorization_endpoint'', JStr e)]) @
          [(''grant_types_supported'', jstrings (unique (TOKEN_EXCHANGE_GRANT_TYPE # eo_additionalGrantTypes opts))),
           (''token_endpoint_auth_methods_supported'', jstrings (unique (concat (map ep_clientAuthMethods ps) @ eo_additionalAuthMethods opts))),
           (''token_endpoint_auth_signing_alg_values_supported'', jstrings (unique (concat (map ep_clientAuthSigningAlgorithms ps)))),
           (''scopes_supported'', jstrings (unique (concat (map ep_scopes ps)))),
           (''subject_token_types_supported'', jstrings (unique (concat (map ep_subjectTokenTypes ps)))),
           (''token_exchange_profiles_supported'', jstrings (map ep_id ps))]))"

text \<open>Mounting fails without profiles or with two of one id.\<close>

definition mountable :: "exchange_options \<Rightarrow> bool" where
  "mountable opts \<longleftrightarrow> eo_profiles opts \<noteq> [] \<and> distinct (map ep_id (eo_profiles opts))"

subsection \<open>The request\<close>

text \<open>The body arrives in chunks; reading stops past the limit.\<close>

fun readBoundedBody :: "nat \<Rightarrow> nat \<Rightarrow> string list \<Rightarrow> string option" where
  "readBoundedBody limit n [] = Some []"
| "readBoundedBody limit n (c # cs) =
     (if n + length c > limit then None else map_option (\<lambda>b. c @ b) (readBoundedBody limit (n + length c) cs))"

datatype exchange_answer = Pass_through string | Answered response

definition refused :: "string \<Rightarrow> exchange_failure \<Rightarrow> exchange_answer" where
  "refused rejectionId f =
     Answered (ef_status f, [(''error'', JStr (ef_error f)), (''error_description'', JStr (ef_description f)),
                             (''rejection_id'', JStr rejectionId)])"

definition bad_request :: "string \<Rightarrow> string \<Rightarrow> string \<Rightarrow> exchange_failure" where
  "bad_request e d r = \<lparr>ef_status = 400, ef_error = e, ef_description = d, ef_reason = r\<rparr>"

definition unavailable :: "string \<Rightarrow> exchange_failure" where
  "unavailable r = \<lparr>ef_status = 500, ef_error = ''server_error'', ef_description = ''token exchange temporarily unavailable'', ef_reason = r\<rparr>"

definition media_type :: "string option \<Rightarrow> string" where
  "media_type header = (case header of None \<Rightarrow> [] | Some h \<Rightarrow> lower (js_trim (takeWhile (\<lambda>c. c \<noteq> CHR '';'') h)))"

definition FORM_TYPE :: string where "FORM_TYPE = ''application/x-www-form-urlencoded''"

record exchange_platform =
  pf_url :: "string \<Rightarrow> url_parts option"
  pf_uriDecode :: "string \<Rightarrow> string option"
  pf_utf8 :: "string \<Rightarrow> string"
  pf_form :: "string \<Rightarrow> form"

record exchange_request =
  xq_contentType :: "string option"
  xq_chunks :: "string list"

record exchange_pending =
  xp_form :: form
  xp_agentId :: string
  xp_resource :: string
  xp_profile :: exchange_profile

definition exchange_start ::
    "exchange_platform \<Rightarrow> exchange_options \<Rightarrow> string \<Rightarrow> exchange_request \<Rightarrow> exchange_answer + exchange_pending" where
  "exchange_start pf opts rejectionId rq =
     (case readBoundedBody TOKEN_EXCHANGE_MAX_FORM_BYTES 0 (xq_chunks rq) of
        None \<Rightarrow> Inl (refused rejectionId (bad_request ''invalid_request'' ''token request exceeds size limit'' ''request_too_large''))
      | Some body \<Rightarrow>
     (let raw = pf_utf8 pf body; f = pf_form pf raw; publicUrl = no_slash (eo_publicUrl opts)
      in if \<not> (media_type (xq_contentType rq) = FORM_TYPE \<and> (''grant_type'', TOKEN_EXCHANGE_GRANT_TYPE) \<in> set f)
         then Inl (if eo_passThrough opts then Pass_through body
                   else Answered (400, [(''error'', JStr ''unsupported_grant_type''), (''error_description'', JStr ''unsupported grant_type'')]))
         else if length raw > TOKEN_EXCHANGE_MAX_FORM_BYTES
         then Inl (refused rejectionId (bad_request ''invalid_request'' ''token request exceeds size limit'' ''request_too_large''))
         else (case agentIdFromResource (pf_url pf) (pf_uriDecode pf) publicUrl (get_or (map_of f ''resource'') []) of
                 None \<Rightarrow> Inl (refused rejectionId (bad_request ''invalid_target'' ''resource is not a canonical agent URL'' ''invalid_target''))
               | Some agentId \<Rightarrow>
                   if agentId = []
                   then Inl (refused rejectionId (bad_request ''invalid_target'' ''resource is not a canonical agent URL'' ''invalid_target''))
                   else (let expected = canonicalAgentResource publicUrl agentId
                         in case selectProfile (eo_profiles opts) f of
                              None \<Rightarrow> Inl (refused rejectionId (bad_request ''invalid_request''
                                        ''token exchange profile is unsupported or ambiguous'' ''unsupported_profile''))
                            | Some p \<Rightarrow>
                                (case ep_validateRequest p f expected of
                                   Some failure \<Rightarrow> Inl (refused rejectionId failure)
                                 | None \<Rightarrow> Inr \<lparr>xp_form = f, xp_agentId = agentId, xp_resource = expected, xp_profile = p\<rparr>)))))"

text \<open>The callers of the agent; \<open>None\<close> is a query that throws.\<close>

definition exchange_lookup :: "string \<Rightarrow> exchange_pending \<Rightarrow> db option \<Rightarrow> exchange_answer + string list" where
  "exchange_lookup rejectionId x db =
     (case db of
        None \<Rightarrow> Inl (refused rejectionId (unavailable ''target_lookup_failed''))
      | Some d \<Rightarrow>
          (case map_of (db_agents d) (xp_agentId x) of
             None \<Rightarrow> Inl (refused rejectionId (bad_request ''invalid_target'' ''unknown agent resource'' ''unknown_agent''))
           | Some a \<Rightarrow> Inr (ag_callers a)))"

text \<open>What the profile's verifier said; \<open>None\<close> is one that throws.\<close>

definition exchange_verified ::
    "string \<Rightarrow> exchange_pending \<Rightarrow> (exchange_failure + exchange_authorization) option \<Rightarrow> exchange_answer + exchange_authorization" where
  "exchange_verified rejectionId x result =
     (case result of
        None \<Rightarrow> Inl (refused rejectionId (unavailable ''profile_verification_failed''))
      | Some (Inl f) \<Rightarrow> Inl (refused rejectionId f)
      | Some (Inr au) \<Rightarrow>
          if ep_replayRequired (xp_profile x) \<and> \<not> ep_profileManaged (xp_profile x) \<and> ea_replays au = []
          then Inl (refused rejectionId (unavailable ''replay_evidence_missing''))
          else Inr au)"

text \<open>\<open>broken\<close> says that the query throws; then nothing is stored.\<close>

definition exchange_consume ::
    "(string \<Rightarrow> string) \<Rightarrow> string \<Rightarrow> exchange_pending \<Rightarrow> exchange_authorization \<Rightarrow> bool \<Rightarrow> db \<Rightarrow> exchange_answer option \<times> db" where
  "exchange_consume sha rejectionId x au broken db =
     (if ep_profileManaged (xp_profile x) then (None, db)
      else if broken then (Some (refused rejectionId (unavailable ''replay_store_failed'')), db)
      else (case consumeTokenExchangeReplays sha (ep_id (xp_profile x)) (ea_replays au) db of
              (None, db1) \<Rightarrow> (None, db1)
            | (Some i, db1) \<Rightarrow>
                (Some (refused rejectionId (get_or (ep_replayFailure (xp_profile x))
                         (bad_request ''invalid_request'' ''assertion replayed'' ''replayed_jti''))), db1)))"

definition exchange_issue ::
    "(string \<Rightarrow> string) \<Rightarrow> string \<Rightarrow> int \<Rightarrow> string \<Rightarrow> string \<Rightarrow> exchange_pending \<Rightarrow> exchange_authorization \<Rightarrow> bool \<Rightarrow> db \<Rightarrow> exchange_answer \<times> db" where
  "exchange_issue sha rejectionId now tokenId random x au broken db =
     (case if broken then Inl ''query failed'' else issueTokenExchangeAccessToken sha random
             \<lparr>et_tokenId = tokenId, et_profileId = ep_id (xp_profile x), et_agentId = xp_agentId x, et_resource = xp_resource x,
              et_principalId = ea_principalId au, et_actorId = ea_actorId au, et_allowedCaller = ea_authorizationKey au,
              et_attestation = ea_attestation au, et_scopes = ea_scopes au, et_taskId = ea_taskId au,
              et_expiresAt = now + TOKEN_EXCHANGE_ACCESS_TOKEN_TTL_SECONDS * 1000\<rparr> db of
        Inl err \<Rightarrow> (refused rejectionId (unavailable ''token_store_failed''), db)
      | Inr ((raw, t), db1) \<Rightarrow>
          (Answered (200, [(''access_token'', JStr raw), (''issued_token_type'', JStr ACCESS_TOKEN_TYPE), (''token_type'', JStr ''Bearer''),
                           (''expires_in'', jint TOKEN_EXCHANGE_ACCESS_TOKEN_TTL_SECONDS),
                           (''scope'', JStr (joined '' '' (ea_scopes au)))]), db1))"

end
