(* ===== verification/ExchangeFacts.thy ===== *)
theory ExchangeFacts
  imports Exchange Admission
begin

text \<open>What the token-exchange endpoint promises of the tokens it issues.\<close>

subsection \<open>The request\<close>

text \<open>The chunks are read whole, or not at all when they pass the limit.\<close>

lemma readBoundedBody_whole:
  "readBoundedBody limit n cs = (if n + length (concat cs) \<le> limit \<or> cs = [] then Some (concat cs) else None)"
proof (induction cs arbitrary: n)
  case (Cons c cs)
  show ?case unfolding readBoundedBody.simps Cons.IH by auto
qed simp

lemma resource_names_agent:
  assumes "agentIdFromResource parse uri_decode publicUrl resource = Some agentId"
  shows "resource = canonicalAgentResource publicUrl agentId"
  using assms by (auto simp: agentIdFromResource_def Let_def split: option.splits if_splits)

lemma started:
  assumes "exchange_start pf opts rid rq = Inr x"
  shows "map_of (xp_form x) ''resource'' = Some (xp_resource x) \<or> (map_of (xp_form x) ''resource'' = None \<and> xp_resource x = [])"
    and "xp_resource x = canonicalAgentResource (no_slash (eo_publicUrl opts)) (xp_agentId x)" and "xp_agentId x \<noteq> []"
    and "xp_form x = pf_form pf (pf_utf8 pf (concat (xq_chunks rq)))" and "length (concat (xq_chunks rq)) \<le> TOKEN_EXCHANGE_MAX_FORM_BYTES"
    and "(''grant_type'', TOKEN_EXCHANGE_GRANT_TYPE) \<in> set (xp_form x)" and "selectProfile (eo_profiles opts) (xp_form x) = Some (xp_profile x)"
    and "ep_validateRequest (xp_profile x) (xp_form x) (xp_resource x) = None"
  using assms
  by (auto simp: exchange_start_def Let_def readBoundedBody_whole TOKEN_EXCHANGE_MAX_FORM_BYTES_def dest!: resource_names_agent
      split: option.splits if_splits)

text \<open>A profile of the list is chosen; with more than one, only the one that alone recognises the request.\<close>

lemma selected_profile:
  assumes "selectProfile ps f = Some p"
  shows "p \<in> set ps \<and> (filter (\<lambda>q. ep_recognizes q f) ps = [p] \<or> ps = [p])"
proof -
  have "filter (\<lambda>q. ep_recognizes q f) ps = [p] \<or> ps = [p]"
    using assms by (auto simp: selectProfile_def split: list.splits)
  moreover have "p \<in> set ps" if "filter (\<lambda>q. ep_recognizes q f) ps = [p]"
    using arg_cong [OF that, of set] by auto
  ultimately show ?thesis by auto
qed

subsection \<open>The token\<close>

lemma issued:
  assumes "exchange_issue sha rid now tid random x au broken db = (Answered (200, body), db')"
  shows "\<not> broken" and "\<exists>a. map_of (db_agents db) (xp_agentId x) = Some a \<and> ea_authorizationKey au \<in> set (ag_callers a)"
    and "\<not> map_has (db_exchange db) (sha (TOKEN_EXCHANGE_ACCESS_TOKEN_PREFIX @ random))"
    and "map_of body ''access_token'' = Some (JStr (TOKEN_EXCHANGE_ACCESS_TOKEN_PREFIX @ random))"
    and "db_agents db' = db_agents db"
    and "db_exchange db' = map_set (sha (TOKEN_EXCHANGE_ACCESS_TOKEN_PREFIX @ random))
      \<lparr>xr_id = tid, xr_profile = ep_id (xp_profile x), xr_agent = xp_agentId x, xr_resource = Some (xp_resource x),
       xr_principal = Some (ea_principalId au), xr_actor = ea_actorId au, xr_allowedCaller = Some (ea_authorizationKey au),
       xr_attestation = map_option Some (ea_attestation au), xr_scopes = ea_scopes au, xr_task = ea_taskId au,
       xr_expires = now + 300000, xr_revoked = False\<rparr> (db_exchange db)"
  using assms
  by (auto simp: exchange_issue_def issueTokenExchangeAccessToken_def Let_def refused_def unavailable_def
      TOKEN_EXCHANGE_ACCESS_TOKEN_TTL_SECONDS_def split: option.splits if_splits)

lemma issued_token_opens:
  assumes "exchange_issue sha rid now tid random x au broken db = (Answered (200, body), db')"
  shows "verifyTokenExchangeAccessToken sha now' (TOKEN_EXCHANGE_ACCESS_TOKEN_PREFIX @ random) agentId db' =
    (if agentId \<noteq> xp_agentId x then Inl ''OAuth token-exchange token resource mismatch''
     else if now + 300000 \<le> now' then Inl ''OAuth token-exchange token expired or revoked''
     else Inr \<lparr>et_tokenId = tid, et_profileId = ep_id (xp_profile x), et_agentId = xp_agentId x, et_resource = xp_resource x,
               et_principalId = ea_principalId au, et_actorId = ea_actorId au, et_allowedCaller = ea_authorizationKey au,
               et_attestation = ea_attestation au, et_scopes = ea_scopes au, et_taskId = ea_taskId au, et_expiresAt = now + 300000\<rparr>)"
proof -
  obtain a where "map_of (db_agents db) (xp_agentId x) = Some a" "ea_authorizationKey au \<in> set (ag_callers a)"
    using issued(2) [OF assms] by blast
  then show ?thesis
    unfolding verifyTokenExchangeAccessToken_def issued(5,6) [OF assms] by (cases "ea_attestation au") auto
qed

subsection \<open>An exchange\<close>

text \<open>
  Claim C40. An exchanged token opens the agent that was asked for, as the one who was verified. When a request went through
  every phase and is answered 200, over whatever happened to the database in between, its resource is the
  canonical URL of exactly one agent, the profile is one of the server's that raised no objection, every assertion
  was fresh (unless the profile keeps replays itself), the verified caller is allowed at the agent when the token is stored, and the
  token of the answer is accepted at that agent for five minutes as the verified principal, and nowhere else and never later.
\<close>
theorem exchanged_token_opens_its_agent:
  assumes "exchange_start pf opts rid rq = Inr x"
    and "exchange_verified rid x (Some (Inr au)) = Inr au'"
    and "exchange_consume sha rid x au' broken1 db1 = (None, db2)"
    and "exchange_issue sha rid now tid random x au' broken2 db3 = (Answered (200, body), db4)"
  shows "au' = au \<and> xp_profile x \<in> set (eo_profiles opts) \<and> ep_validateRequest (xp_profile x) (xp_form x) (xp_resource x) = None \<and>
    get_or (map_of (xp_form x) ''resource'') [] = canonicalAgentResource (no_slash (eo_publicUrl opts)) (xp_agentId x) \<and>
    (\<exists>a. map_of (db_agents db3) (xp_agentId x) = Some a \<and> ea_authorizationKey au \<in> set (ag_callers a)) \<and>
    (ep_profileManaged (xp_profile x) \<or>
      (\<forall>t\<in>set (ea_replays au).
        let d = replay_digest sha (ep_id (xp_profile x)) (rt_issuer t) (rt_jti t) in \<not> map_has (db_replays db1) d \<and> map_has (db_replays db2) d)) \<and>
    (\<exists>raw. map_of body ''access_token'' = Some (JStr raw) \<and>
      (\<forall>now' agentId. (\<exists>t. verifyTokenExchangeAccessToken sha now' raw agentId db4 = Inr t) \<longleftrightarrow> agentId = xp_agentId x \<and> now' < now + 300000) \<and>
      (\<forall>now' agentId t. verifyTokenExchangeAccessToken sha now' raw agentId db4 = Inr t \<longrightarrow>
        et_principalId t = ea_principalId au \<and> et_actorId t = ea_actorId au \<and> et_allowedCaller t = ea_authorizationKey au \<and>
        et_scopes t = ea_scopes au \<and> et_resource t = xp_resource x))"
proof -
  have au: "au' = au" using assms(2) by (auto simp: exchange_verified_def split: if_splits)
  have replays: "ep_profileManaged (xp_profile x) \<or>
      (\<forall>t\<in>set (ea_replays au).
        let d = replay_digest sha (ep_id (xp_profile x)) (rt_issuer t) (rt_jti t) in \<not> map_has (db_replays db1) d \<and> map_has (db_replays db2) d)"
  proof (cases "ep_profileManaged (xp_profile x)")
    case False
    then obtain r where r: "insert_replays sha (ep_id (xp_profile x)) 0 (ea_replays au) (db_replays db1) = Inr r" "db_replays db2 = r"
      using assms(3) unfolding au
      by (auto simp: exchange_consume_def consumeTokenExchangeReplays_def split: if_splits sum.splits)
    have "\<not> map_has (db_replays db1) (replay_digest sha (ep_id (xp_profile x)) (rt_issuer t) (rt_jti t))" if "t \<in> set (ea_replays au)" for t
      using replays_refused [OF _ that, of "db_replays db1" sha "ep_id (xp_profile x)" 0] r(1) by (metis Inl_Inr_False)
    moreover have "map_has (db_replays db2) (replay_digest sha (ep_id (xp_profile x)) (rt_issuer t) (rt_jti t))" if "t \<in> set (ea_replays au)" for t
      using replays_recorded [OF r(1) that] r(2) by simp
    ultimately show ?thesis by (simp add: Let_def)
  qed simp
  note opens = issued_token_opens [OF assms(4)]
  let ?raw = "TOKEN_EXCHANGE_ACCESS_TOKEN_PREFIX @ random"
  have token: "map_of body ''access_token'' = Some (JStr ?raw) \<and>
      (\<forall>now' agentId. (\<exists>t. verifyTokenExchangeAccessToken sha now' ?raw agentId db4 = Inr t) \<longleftrightarrow> agentId = xp_agentId x \<and> now' < now + 300000) \<and>
      (\<forall>now' agentId t. verifyTokenExchangeAccessToken sha now' ?raw agentId db4 = Inr t \<longrightarrow>
        et_principalId t = ea_principalId au \<and> et_actorId t = ea_actorId au \<and> et_allowedCaller t = ea_authorizationKey au \<and>
        et_scopes t = ea_scopes au \<and> et_resource t = xp_resource x)"
    unfolding opens au using issued(4) [OF assms(4)] by auto
  have "get_or (map_of (xp_form x) ''resource'') [] = canonicalAgentResource (no_slash (eo_publicUrl opts)) (xp_agentId x)"
    using started(1,2) [OF assms(1)] by auto
  then show ?thesis
    using au replays token selected_profile [OF started(7) [OF assms(1)]] started(8) [OF assms(1)] issued(2) [OF assms(4)] by metis
qed

subsection \<open>One exchange\<close>

definition sample_profile :: exchange_profile where
  "sample_profile = \<lparr>ep_id = ''p'', ep_replayRequired = True, ep_profileManaged = False, ep_clientAuthMethods = [],
     ep_clientAuthSigningAlgorithms = [], ep_scopes = [''a2a''], ep_subjectTokenTypes = [], ep_metadata = [], ep_replayFailure = None,
     ep_recognizes = (\<lambda>f. True), ep_validateRequest = (\<lambda>f r. None)\<rparr>"

definition sample_options :: exchange_options where
  "sample_options = \<lparr>eo_publicUrl = ''h'', eo_profiles = [sample_profile], eo_passThrough = False, eo_additionalGrantTypes = [],
     eo_additionalAuthMethods = [], eo_deviceEndpoint = None\<rparr>"

definition sample_form :: form where
  "sample_form = [(''grant_type'', TOKEN_EXCHANGE_GRANT_TYPE), (''resource'', ''h/agents/bot'')]"

definition sample_platform :: exchange_platform where
  "sample_platform = \<lparr>pf_url = (\<lambda>u. Some \<lparr>up_protocol = ''https:'', up_origin = ''h'', up_pathname = drop 1 u, up_search = [], up_hash = []\<rparr>),
     pf_uriDecode = Some, pf_utf8 = (\<lambda>b. b), pf_form = (\<lambda>b. sample_form)\<rparr>"

definition sample_pending :: exchange_pending where
  "sample_pending = \<lparr>xp_form = sample_form, xp_agentId = ''bot'', xp_resource = ''h/agents/bot'', xp_profile = sample_profile\<rparr>"

definition sample_authorization :: exchange_authorization where
  "sample_authorization = \<lparr>ea_principalId = ''u'', ea_actorId = ''c'', ea_authorizationKey = ''k'', ea_scopes = [''a2a''], ea_taskId = None,
     ea_attestation = None, ea_replays = [\<lparr>rt_issuer = ''i'', rt_jti = ''j'', rt_expiresAt = 9\<rparr>]\<rparr>"

definition exchange_db :: db where
  "exchange_db = \<lparr>db_agents = [(''bot'', \<lparr>ag_client = ''c'', ag_owner = ''o'', ag_name = ''b'', ag_callers = [''k''], ag_approvals = False, ag_created = 0\<rparr>)], db_callers = [], db_exchange = [], db_replays = [], db_tasks = []\<rparr>"

lemma exchange_started:
  "exchange_start sample_platform sample_options ''r'' \<lparr>xq_contentType = Some FORM_TYPE, xq_chunks = [''b'']\<rparr> = Inr sample_pending"
proof -
  have "media_type (Some FORM_TYPE) = FORM_TYPE" "\<not> suffix ''/'' ''h''" by code_simp+
  then show ?thesis
    by (simp add: exchange_start_def TOKEN_EXCHANGE_MAX_FORM_BYTES_def sample_platform_def sample_form_def agentIdFromResource_def
        canonicalAgentResource_def no_slash_def sample_options_def selectProfile_def sample_profile_def sample_pending_def Let_def)
qed

lemma exchanged_token_opens_its_agent_witness:
  "\<exists>d. map_of (db_replays (snd (exchange_consume (\<lambda>s. s) ''r'' sample_pending sample_authorization False exchange_db))) d = Some 9"
proof -
  obtain db2 where c: "exchange_consume (\<lambda>s. s) ''r'' sample_pending sample_authorization False exchange_db = (None, db2)"
    "db_replays db2 = [(replay_digest (\<lambda>s. s) ''p'' ''i'' ''j'', 9)]"
    by (simp add: exchange_consume_def consumeTokenExchangeReplays_def sample_pending_def sample_profile_def sample_authorization_def
        exchange_db_def Let_def)
  obtain body db4 where i: "exchange_issue (\<lambda>s. s) ''r'' 0 ''t'' ''x'' sample_pending sample_authorization False exchange_db = (Answered (200, body), db4)"
    by (simp add: exchange_issue_def issueTokenExchangeAccessToken_def exchange_db_def sample_pending_def sample_authorization_def Let_def)
  have v: "exchange_verified ''r'' sample_pending (Some (Inr sample_authorization)) = Inr sample_authorization"
    by (simp add: exchange_verified_def sample_authorization_def)
  show ?thesis
    using exchanged_token_opens_its_agent [OF exchange_started v c(1) i] c by (simp add: exI [of _ "replay_digest (\<lambda>s. s) ''p'' ''i'' ''j''"])
qed

end
