(* ===== verification/Spec2Isabelle.thy ===== *)
theory Spec2Isabelle
  imports EventQueue Wire Models Parts Pricing Usage Reconnect Delivery CallerText SchedulerFacts Broker ExecutorSamples TaskStoreSamples AdmissionSamples OffersSamples OwnershipSamples DeviceSamples SignInFacts CallerStoreSamples ExchangeFacts
begin

text \<open>
  Vicoop bridge: a verification development.

  \<^bold>\<open>The program.\<close> The bridge puts coding agents that run on a private machine behind a public A2A endpoint.
  Two programs talk over one WebSocket: the daemon next to the agents (packages/client) and the server
  (packages/server); packages/protocol is the wire format they share. An A2A request passes authentication and
  authorisation (agent-auth.ts, oauth/token-exchange), is stamped with the identity of its caller (http.tsx), becomes
  a task in the store (postgres-task-store.ts), passes the payment gate of a priced agent (x402/gate.ts), and is
  dispatched by the executor (executor.ts) as a frame to the daemon; what the daemon sends back goes through the
  sequence check of ws.ts and the binding of registry.ts into the task's queue (event-queue.ts), from which the executor
  builds the stream the caller reads. While a run goes on its backend may ask for permission to use a tool
  (remote-approval.ts on the daemon, tool-approvals.ts on the server), and a dropped connection is bridged by retained
  frames that are replayed (client.ts) while the server holds the binding.

  \<^bold>\<open>Theories and sources.\<close> Names of definitions are those of the functions they translate.
  \<^item> \<open>Prelude\<close>, \<open>Text\<close>, \<open>TextFacts\<close>, \<open>JsonText\<close>: the language. Objects and maps are association lists in
    insertion order, a JavaScript string is its UTF-8 bytes, JSON text is what \<open>JSON.stringify\<close> prints. The locale
    \<open>invariant_system\<close> is the interface of every proof over reachable states.
  \<^item> \<open>Wire\<close>, \<open>Models\<close>, \<open>Parts\<close>: packages/protocol/src/index.ts, terminal-error.ts, parts.ts.
  \<^item> \<open>EventQueue\<close>: event-queue.ts, against the abstract sink of the locale \<open>stream_sink\<close>.
  \<^item> \<open>ServerState\<close>, \<open>Approvals\<close>, \<open>Registry\<close>, \<open>Ws\<close>: registry.ts, tool-approvals.ts, ws.ts, usage-rpc.ts over one record
    \<open>srv\<close>, because they keep references to each other; bindings are objects with an identity and live in a heap.
    \<open>RegistryFacts\<close>, \<open>ServerInv\<close>, \<open>Streams\<close>, \<open>ApprovalInv\<close>, \<open>WsInv\<close>: their invariant, part by part. \<open>Frames\<close>, \<open>Reconnect\<close>:
    what a frame, a drop and a reconnect do.
  \<^item> \<open>Client\<close> with \<open>ClientInv\<close> and \<open>ClientFacts\<close>: client.ts. \<open>Replay\<close> and \<open>Delivery\<close> link both halves over a lossy
    connection: a system of client, wire and server whose steps are the operations of \<open>Client\<close> and \<open>Ws\<close>.
  \<^item> \<open>Output\<close>, \<open>Gate\<close>, \<open>Executor\<close> with \<open>ExecutorFacts\<close>, \<open>ExecutorEnds\<close> and \<open>ExecutorSamples\<close>: executor.ts,
    execution-marker.ts, x402/gate.ts; \<open>Pricing\<close> and \<open>Usage\<close>: x402/pricing.ts and x402/usage.ts.
  \<^item> \<open>TaskStore\<close> with \<open>TaskStoreFacts\<close> and \<open>TaskStoreSamples\<close>: postgres-task-store.ts and task-access.ts.
  \<^item> \<open>Federated\<close>, \<open>Callers\<close>, \<open>CallerText\<close>: who a task runs for, from the server to the text a model sees
    (federated-principal.ts, caller-context.ts of both sides, execution-scope.ts, caller-scoped-backend.ts).
  \<^item> \<open>Scheduler\<close> and \<open>SchedulerFacts\<close>: caller-execution-scheduler.ts. \<open>Broker\<close>: remote-approval.ts.
  \<^item> \<open>Principals\<close>, \<open>Tokens\<close> and \<open>TokenFacts\<close>, \<open>Access\<close> and \<open>AccessFacts\<close>: auth/principal.ts, auth/caller-token.ts, admin-api.ts,
    caller-policy-watch.ts, oauth/token-exchange/store.ts and the SQL function that removes a grant.
  \<^item> \<open>Ingress\<close> and \<open>Boundary\<close> with \<open>Admission\<close> and \<open>AdmissionSamples\<close>: agent-auth.ts, token-exchange/authorization.ts,
    mentionable-authorization.ts, the body preparation of http.tsx, identity-vc/carrier.ts and integration.ts,
    requester-approvals.ts.

  \<^bold>\<open>What is shown.\<close> Delivery: every frame of a run reaches the server once and in order over any drops, a duplicate
  changes nothing, a gap fails the task, no agent touches another's task, what the daemon retains stays within exact
  bounds. Streams: one terminal event and nothing after it, no unpaid output, a timer that bounds silence, an end within
  a counted number of reads. Tasks: only the current dispatch writes, a cancelled task is not revived, nothing secret is
  stored, listings page through completely, retention removes only what it should. Callers: whom authentication lets
  through, that no client text becomes an identity, that a task is reached only by the caller that made it, that a removed
  grant and a consumed assertion are dead for good, that caller-controlled text cannot imitate the verified block.
  Permissions: a tool runs only on a decision of the server made in time by the owner or by the requester whose execution
  it is. Scheduling: limits, one run per conversation, order and no idle capacity. Formats: round trips and normal forms.

  \<^bold>\<open>Conventions and bounds.\<close> An await is a boundary between steps; where several handlers interleave, a step relation
  has one case per resumption and invariants are proved by induction over it. A timer is a deadline and its firing a
  step. A transaction or SQL statement is one step. Errors are \<open>Inl\<close> values. All functions are total: loops over lists
  are structural and the few others have a measure, so that no fuel is needed anywhere; that a stream ends is a theorem
  that counts the reads which remain. Numbers of JavaScript are \<open>int\<close> where the code keeps them integers below
  \<open>2 ^ 53\<close>, \<open>js_number\<close> where a schema has to tell integers from fractions, and \<open>rat\<close> in the reconnect delay.
  Random ids, hashes (SHA-256), the clock and the answers of libraries are arguments; where a property needs a fresh id or
  distinct hashes, its hypotheses say so.

  \<^bold>\<open>Not modelled.\<close> Schema parsing itself (zod), the A2A SDK, the SQL database beyond the statements' effect on
  rows, the payment library behind the gate. The backends that drive a coding agent's own process (claude, codex, openclaw,
  vicoop-codex, openai-compat) translate those programs' private event streams; containers and their brokers, the command
  line, set-up and upgrade are mostly calls of other programs. The admin agent is a prompt with tools over operations that
  are modelled. The user interfaces render. A write of \<open>agents.allowed_callers\<close> by SQL or by the generated GraphQL
  mutation is not among the steps of \<open>db_step\<close>.
\<close>

end
